(* ===== verification/Prelude.thy ===== *)
theory Prelude
  imports Complex_Main "HOL-Library.Sublist"
begin

text \<open>
  Shared prelude of the TypeMore server development.

  It holds the named collections the component theories fill and use, the result type of
  fallible operations, the Go integer operations the sources rely on (truncating division,
  conversion to a 32-bit integer), and the generic lemmas on lists, folds and partial maps
  that the component proofs share.
\<close>

section \<open>Collections\<close>

named_theorems frame_simps
  \<open>what an operation leaves unchanged: projections of the state after it\<close>

named_theorems core_simps
  \<open>operations that only send frames do not change the part of the state the invariants read\<close>

named_theorems inv_intros
  \<open>one rule per operation: it keeps the invariant\<close>

section \<open>Go integers\<close>

text \<open>
  Go's integer division truncates towards zero; \<open>div\<close> on \<open>int\<close> rounds towards minus
  infinity. A conversion to \<open>int32\<close> keeps the low 32 bits, read as two's complement.
\<close>

definition go_div :: "int \<Rightarrow> int \<Rightarrow> int" where
  "go_div a b = (if b = 0 then 0 else sgn a * sgn b * (\<bar>a\<bar> div \<bar>b\<bar>))"

definition to_int32 :: "int \<Rightarrow> int" where
  "to_int32 n = (n + 2 ^ 31) mod 2 ^ 32 - 2 ^ 31"

definition to_int16 :: "int \<Rightarrow> int" where
  "to_int16 n = (n + 2 ^ 15) mod 2 ^ 16 - 2 ^ 15"

definition in_int64 :: "int \<Rightarrow> bool" where
  "in_int64 n \<longleftrightarrow> - (2 ^ 63) \<le> n \<and> n < 2 ^ 63"

definition in_int32 :: "int \<Rightarrow> bool" where
  "in_int32 n \<longleftrightarrow> - (2 ^ 31) \<le> n \<and> n < 2 ^ 31"

lemma go_div_nonneg:
  assumes "0 \<le> a" and "0 < b"
  shows "go_div a b = a div b"
  using assms by (cases "a = 0") (simp_all add: go_div_def)

lemma go_div_neg_small:
  assumes "- b < a" and "a \<le> 0" and "0 < b"
  shows "go_div a b = 0"
proof -
  from assms have "\<bar>a\<bar> div \<bar>b\<bar> = 0" by simp
  then show ?thesis by (simp add: go_div_def)
qed

lemma go_div_mono_nonneg:
  assumes "0 \<le> a" and "a \<le> c" and "0 < b"
  shows "go_div a b \<le> go_div c b"
  using assms by (simp add: go_div_nonneg zdiv_mono1)

lemma to_int32_id: "in_int32 n \<Longrightarrow> to_int32 n = n"
  by (simp add: in_int32_def to_int32_def)

lemma to_int32_range: "in_int32 (to_int32 n)"
proof -
  have "0 \<le> (n + 2 ^ 31) mod 2 ^ 32" and "(n + 2 ^ 31) mod 2 ^ 32 < (2 ^ 32 :: int)"
    by simp_all
  then show ?thesis by (simp add: in_int32_def to_int32_def)
qed

lemma to_int32_periodic: "to_int32 (n + 2 ^ 32) = to_int32 n"
proof -
  have "(n + 2 ^ 32 + 2 ^ 31) mod 2 ^ 32 = (n + 2 ^ 31 + 2 ^ 32) mod (2 ^ 32 :: int)"
    by (simp add: algebra_simps)
  also have "\<dots> = (n + 2 ^ 31) mod 2 ^ 32" by (rule mod_add_self2)
  finally show ?thesis by (simp only: to_int32_def)
qed

section \<open>Results\<close>

text \<open>A fallible operation returns \<open>Inl\<close> its error or \<open>Inr\<close> its value.\<close>

type_synonym ('e, 'a) result = "'e + 'a"

definition is_ok :: "('e, 'a) result \<Rightarrow> bool" where
  "is_ok r = (case r of Inl _ \<Rightarrow> False | Inr _ \<Rightarrow> True)"

lemma is_ok_simps [simp]: "is_ok (Inr x)" "\<not> is_ok (Inl e)"
  by (simp_all add: is_ok_def)

text \<open>A chain of checks succeeds exactly when each of its checks does.\<close>

named_theorems chain_simps
  \<open>when a chain of checks with early returns reaches its end\<close>

lemma check_chain [chain_simps]:
  "(case c of None \<Rightarrow> k | Some e \<Rightarrow> Some e) = None \<longleftrightarrow> c = None \<and> k = None"
  by (simp split: option.split)

lemma check_then [chain_simps]:
  "(case c of None \<Rightarrow> k | Some e \<Rightarrow> Inl e) = Inr p \<longleftrightarrow> c = None \<and> k = Inr p"
  by (simp split: option.split)

lemma require_then [chain_simps]:
  "(case c of None \<Rightarrow> Inl e | Some x \<Rightarrow> Inr (f x)) = Inr p \<longleftrightarrow> (\<exists>x. c = Some x \<and> f x = p)"
  by (simp split: option.split)

lemma result_then [chain_simps]:
  "(case c of Inl e \<Rightarrow> Inl e | Inr x \<Rightarrow> k x) = Inr p \<longleftrightarrow> (\<exists>x. c = Inr x \<and> k x = Inr p)"
  by (simp split: sum.split)

section \<open>Raw JSON\<close>

text \<open>
  A \<open>json.RawMessage\<close> is its bytes together with the value they unmarshal to in the struct the code
  decodes them into, \<open>None\<close> when they do not decode. The text of JSON is not modelled.
\<close>

record 'a raw =
  raw_bytes :: string
  raw_value :: "'a option"

section \<open>Lists\<close>

text \<open>The first element that satisfies a predicate, as a Go range loop with an early return.\<close>

fun find_first :: "('a \<Rightarrow> bool) \<Rightarrow> 'a list \<Rightarrow> 'a option" where
  "find_first P [] = None"
| "find_first P (x # xs) = (if P x then Some x else find_first P xs)"

lemma find_first_Some: "find_first P xs = Some x \<Longrightarrow> x \<in> set xs \<and> P x"
  by (induction xs) (auto split: if_splits)

lemma find_first_None_iff: "find_first P xs = None \<longleftrightarrow> (\<forall>x \<in> set xs. \<not> P x)"
  by (induction xs) auto

lemma find_first_ex: "\<lbrakk>x \<in> set xs; P x\<rbrakk> \<Longrightarrow> \<exists>y. find_first P xs = Some y"
  by (metis find_first_None_iff not_None_eq)

lemma length_remove1_le: "length (remove1 x xs) \<le> length xs"
  by (simp add: length_remove1)

text \<open>A fold whose step keeps a property keeps it.\<close>

lemma fold_invariant_set:
  assumes "P s" and "\<And>x s. x \<in> set xs \<Longrightarrow> P s \<Longrightarrow> P (f x s)"
  shows "P (fold f xs s)"
  using assms by (induction xs arbitrary: s) auto

lemma fold_preserves:
  assumes "\<And>x s. g (f x s) = g s"
  shows "g (fold f xs s) = g s"
  using assms by (induction xs arbitrary: s) simp_all

section \<open>Filters that cut a list at an index\<close>

lemma filter_from_index:
  assumes "\<And>j. j < length xs \<Longrightarrow> P (xs ! j) \<longleftrightarrow> k \<le> j"
  shows "filter P xs = drop k xs"
proof -
  have "filter P (take k xs) = []"
    using assms by (auto simp: filter_empty_conv in_set_conv_nth)
  moreover have "filter P (drop k xs) = drop k xs"
    using assms by (auto simp: filter_id_conv in_set_conv_nth)
  ultimately show ?thesis by (metis append_take_drop_id filter_append append_Nil)
qed

lemma filter_to_index:
  assumes "\<And>j. j < length xs \<Longrightarrow> P (xs ! j) \<longleftrightarrow> j < k"
  shows "filter P xs = take k xs"
proof -
  have "filter P (take k xs) = take k xs"
    using assms by (auto simp: filter_id_conv in_set_conv_nth)
  moreover have "filter P (drop k xs) = []"
    using assms by (auto simp: filter_empty_conv in_set_conv_nth)
  ultimately show ?thesis by (metis append_take_drop_id filter_append append_Nil2)
qed

end
