(* ===== verification/Go_Strings.thy ===== *)
theory Go_Strings
  imports Prelude "HOL-Library.Char_ord"
begin

text \<open>
  The parts of Go's standard library the sources use on strings.

  A Go string is a sequence of bytes, here \<open>string\<close> (a list of 8-bit characters), so
  \<open>length\<close> is Go's \<open>len\<close>. A rune is a code point, a \<open>nat\<close>. The theory holds UTF-8 encoding
  and decoding (\<open>unicode/utf8\<close>, with the width-1 \<open>RuneError\<close> for ill-formed input), the
  character classes the sources test, \<open>strings.TrimSpace\<close>, \<open>strings.ToUpper\<close>,
  \<open>strings.Split\<close>, \<open>strconv.Itoa\<close> and \<open>strconv.Atoi\<close>, with the round trips between them.
\<close>

section \<open>UTF-8\<close>

type_synonym rune = nat

definition byte :: "char \<Rightarrow> nat" where
  "byte c = of_char c"

definition RuneError :: rune where
  "RuneError = 65533"

definition cont :: "nat \<Rightarrow> bool" where
  "cont b \<longleftrightarrow> 128 \<le> b \<and> b \<le> 191"

text \<open>
  \<open>utf8.DecodeRuneInString\<close>: the first code point and its width in bytes. Ill-formed input is
  \<open>RuneError\<close> of width 1 and the empty string \<open>RuneError\<close> of width 0. The second byte of a
  three- or four-byte sequence is restricted so that overlong forms, surrogates and values
  above \<open>U+10FFFF\<close> are ill-formed.
\<close>

definition decode2 :: "nat \<Rightarrow> nat \<Rightarrow> rune option" where
  "decode2 a b = (if 194 \<le> a \<and> a \<le> 223 \<and> cont b then Some ((a - 192) * 64 + (b - 128)) else None)"

definition second_ok :: "nat \<Rightarrow> nat \<Rightarrow> bool" where
  "second_ok a b =
     ((if a = 224 then 160 else if a = 240 then 144 else 128) \<le> b \<and>
      b \<le> (if a = 237 then 159 else if a = 244 then 143 else 191))"

definition decode3 :: "nat \<Rightarrow> nat \<Rightarrow> nat \<Rightarrow> rune option" where
  "decode3 a b c =
     (if 224 \<le> a \<and> a \<le> 239 \<and> second_ok a b \<and> cont c
      then Some ((a - 224) * 4096 + (b - 128) * 64 + (c - 128)) else None)"

definition decode4 :: "nat \<Rightarrow> nat \<Rightarrow> nat \<Rightarrow> nat \<Rightarrow> rune option" where
  "decode4 a b c d =
     (if 240 \<le> a \<and> a \<le> 244 \<and> second_ok a b \<and> cont c \<and> cont d
      then Some ((a - 240) * 262144 + (b - 128) * 4096 + (c - 128) * 64 + (d - 128)) else None)"

fun decode_bytes :: "nat list \<Rightarrow> rune \<times> nat" where
  "decode_bytes [] = (RuneError, 0)"
| "decode_bytes (a # t) =
     (if a < 128 then (a, 1)
      else case t of [] \<Rightarrow> (RuneError, 1)
      | b # t2 \<Rightarrow>
        (case decode2 a b of Some r \<Rightarrow> (r, 2)
         | None \<Rightarrow> (case t2 of [] \<Rightarrow> (RuneError, 1)
            | c # t3 \<Rightarrow>
              (case decode3 a b c of Some r \<Rightarrow> (r, 3)
               | None \<Rightarrow> (case t3 of [] \<Rightarrow> (RuneError, 1)
                  | d # _ \<Rightarrow>
                    (case decode4 a b c d of Some r \<Rightarrow> (r, 4) | None \<Rightarrow> (RuneError, 1)))))))"

definition decode_rune :: "string \<Rightarrow> rune \<times> nat" where
  "decode_rune s = decode_bytes (map byte s)"

lemma decode_rune_width: "s \<noteq> [] \<Longrightarrow> 0 < snd (decode_rune s)"
  by (cases s) (auto simp: decode_rune_def split: option.splits list.splits)

text \<open>The runes of a string, each with its byte width: what \<open>for _, r := range s\<close> visits.\<close>

function rune_segments :: "string \<Rightarrow> (rune \<times> string) list" where
  "rune_segments s =
     (if s = [] then []
      else (fst (decode_rune s), take (snd (decode_rune s)) s)
             # rune_segments (drop (snd (decode_rune s)) s))"
  by pat_completeness auto
termination
  by (relation "measure length") (auto simp: decode_rune_width)

declare rune_segments.simps [simp del]

definition runes :: "string \<Rightarrow> rune list" where
  "runes s = map fst (rune_segments s)"

definition RuneCountInString :: "string \<Rightarrow> nat" where
  "RuneCountInString s = length (runes s)"

text \<open>\<open>utf8.AppendRune\<close>: a surrogate or a value above \<open>U+10FFFF\<close> is written as \<open>RuneError\<close>.\<close>

definition is_scalar :: "rune \<Rightarrow> bool" where
  "is_scalar r \<longleftrightarrow> r < 55296 \<or> (57343 < r \<and> r \<le> 1114111)"

definition encode_scalar :: "rune \<Rightarrow> string" where
  "encode_scalar r =
     map char_of
       (if r < 128 then [r]
        else if r < 2048 then [192 + r div 64, 128 + r mod 64]
        else if r < 65536 then [224 + r div 4096, 128 + r div 64 mod 64, 128 + r mod 64]
        else [240 + r div 262144, 128 + r div 4096 mod 64, 128 + r div 64 mod 64, 128 + r mod 64])"

definition encode_rune :: "rune \<Rightarrow> string" where
  "encode_rune r = encode_scalar (if is_scalar r then r else RuneError)"

definition encode_runes :: "rune list \<Rightarrow> string" where
  "encode_runes rs = concat (map encode_rune rs)"

lemma byte_char_of: "n < 256 \<Longrightarrow> byte (char_of n) = n"
  by (simp add: byte_def of_char_of)

lemma byte_less: "byte c < 256"
  by (simp add: byte_def)

lemma encode_scalar_nonempty: "encode_scalar r \<noteq> []"
  by (simp add: encode_scalar_def)

lemma encode_rune_nonempty [simp]: "encode_rune r \<noteq> []"
  by (simp add: encode_rune_def encode_scalar_nonempty)


text \<open>Decoding what was encoded: one lemma per length of the encoding.\<close>

lemma decode_encode1:
  "r < 128 \<Longrightarrow> decode_rune (encode_scalar r @ s) = (r, 1)"
  by (simp add: encode_scalar_def decode_rune_def byte_char_of)

lemma decode_encode2:
  assumes "128 \<le> r" and "r < 2048"
  shows "decode_rune (encode_scalar r @ s) = (r, 2)"
proof -
  from assms have "2 \<le> r div 64" "r div 64 \<le> 31" by linarith+
  moreover have "decode2 (192 + r div 64) (128 + r mod 64) = Some r"
    using \<open>2 \<le> r div 64\<close> \<open>r div 64 \<le> 31\<close> by (simp add: decode2_def cont_def)
  ultimately show ?thesis using assms
    by (simp add: encode_scalar_def decode_rune_def byte_char_of)
qed

lemma base64_digits: "(r::nat) div 4096 = r div 64 div 64" "r div 262144 = r div 64 div 64 div 64"
  by (simp_all add: div_mult2_eq)

lemma base64_last: "(r::nat) = r div 64 * 64 + r mod 64"
  by simp

lemma decode3_parts:
  assumes "2048 \<le> r" and "r < 65536" and "is_scalar r"
  shows "decode3 (224 + r div 4096) (128 + r div 64 mod 64) (128 + r mod 64) = Some r"
proof -
  define q t where "q = r div 64" and "t = q div 64"
  have r: "r = q * 64 + r mod 64" and q: "q = t * 64 + q mod 64"
    by (simp_all add: q_def t_def)
  have m: "r mod 64 \<le> 63" "q mod 64 \<le> 63"
    using mod_less_divisor [of 64 r] mod_less_divisor [of 64 q] by linarith+
  have "t \<le> 15" "t = 0 \<Longrightarrow> 32 \<le> q mod 64" "t = 13 \<Longrightarrow> q mod 64 \<le> 31"
    using assms r q m unfolding is_scalar_def by linarith+
  moreover have "r = t * 4096 + q mod 64 * 64 + r mod 64" using r q by linarith
  ultimately have "decode3 (224 + t) (128 + q mod 64) (128 + r mod 64) = Some r"
    using m by (simp add: decode3_def second_ok_def cont_def)
  then show ?thesis by (simp add: base64_digits q_def t_def)
qed

lemma decode_encode3:
  assumes "2048 \<le> r" and "r < 65536" and "is_scalar r"
  shows "decode_rune (encode_scalar r @ s) = (r, 3)"
proof -
  have "r div 4096 \<le> 15" using assms by linarith
  moreover have "decode2 (224 + r div 4096) b = None" for b by (simp add: decode2_def)
  ultimately show ?thesis using assms decode3_parts [OF assms]
    by (simp add: encode_scalar_def decode_rune_def byte_char_of)
qed

lemma decode4_parts:
  assumes "65536 \<le> r" and "is_scalar r"
  shows "decode4 (240 + r div 262144) (128 + r div 4096 mod 64) (128 + r div 64 mod 64)
           (128 + r mod 64) = Some r"
proof -
  define q t u where "q = r div 64" and "t = q div 64" and "u = t div 64"
  have r: "r = q * 64 + r mod 64" and q: "q = t * 64 + q mod 64" and t: "t = u * 64 + t mod 64"
    by (simp_all add: q_def t_def u_def)
  have m: "r mod 64 \<le> 63" "q mod 64 \<le> 63" "t mod 64 \<le> 63"
    using mod_less_divisor [of 64 r] mod_less_divisor [of 64 q] mod_less_divisor [of 64 t]
    by linarith+
  have "u \<le> 4" "u = 0 \<Longrightarrow> 16 \<le> t mod 64" "u = 4 \<Longrightarrow> t mod 64 \<le> 15"
    using assms r q t m unfolding is_scalar_def by linarith+
  moreover have "r = u * 262144 + t mod 64 * 4096 + q mod 64 * 64 + r mod 64"
    using r q t by linarith
  ultimately have "decode4 (240 + u) (128 + t mod 64) (128 + q mod 64) (128 + r mod 64) = Some r"
    using m by (simp add: decode4_def second_ok_def cont_def)
  then show ?thesis by (simp add: base64_digits q_def t_def u_def)
qed

lemma decode_encode4:
  assumes "65536 \<le> r" and "is_scalar r"
  shows "decode_rune (encode_scalar r @ s) = (r, 4)"
proof -
  have "r div 262144 \<le> 4" using assms unfolding is_scalar_def by linarith
  moreover have "decode2 (240 + r div 262144) b = None" for b by (simp add: decode2_def)
  moreover have "decode3 (240 + r div 262144) b c = None" for b c by (simp add: decode3_def)
  ultimately show ?thesis using assms decode4_parts [OF assms]
    by (simp add: encode_scalar_def decode_rune_def byte_char_of)
qed

lemma decode_encode:
  assumes "is_scalar r"
  shows "decode_rune (encode_rune r @ s) = (r, length (encode_rune r))"
proof -
  consider "r < 128" | "128 \<le> r" "r < 2048" | "2048 \<le> r" "r < 65536" | "65536 \<le> r"
    by linarith
  then show ?thesis
    by cases (use assms in \<open>simp_all add: encode_rune_def decode_encode1 decode_encode2
        decode_encode3 decode_encode4, simp_all add: encode_scalar_def\<close>)
qed

lemma rune_segments_encode:
  assumes "is_scalar r"
  shows "rune_segments (encode_rune r @ s) = (r, encode_rune r) # rune_segments s"
  using assms by (subst rune_segments.simps) (simp add: decode_encode)

lemma rune_segments_Nil [simp]: "rune_segments [] = []"
  by (simp add: rune_segments.simps)

text \<open>Encoding a list of code points and ranging over the result gives the list back.\<close>

lemma rune_segments_encode_runes:
  assumes "\<forall>r \<in> set rs. is_scalar r"
  shows "rune_segments (encode_runes rs) = map (\<lambda>r. (r, encode_rune r)) rs"
  using assms by (induction rs) (auto simp: encode_runes_def rune_segments_encode)

lemma runes_encode_runes:
  assumes "\<forall>r \<in> set rs. is_scalar r"
  shows "runes (encode_runes rs) = rs"
  using rune_segments_encode_runes [OF assms] by (simp add: runes_def comp_def)

lemma decode2_scalar: "decode2 a b = Some r \<Longrightarrow> is_scalar r"
  by (auto simp: decode2_def cont_def is_scalar_def split: if_splits)

lemma decode3_scalar: "decode3 a b c = Some r \<Longrightarrow> is_scalar r"
  by (cases "a = 237")
    (auto simp: decode3_def second_ok_def cont_def is_scalar_def split: if_splits)

lemma decode4_scalar: "decode4 a b c d = Some r \<Longrightarrow> is_scalar r"
proof -
  assume d: "decode4 a b c d = Some r"
  then consider "a = 240" | "a = 241" | "a = 242" | "a = 243" | "a = 244"
    by (simp add: decode4_def split: if_splits) linarith
  then show ?thesis
    by cases (use d in \<open>auto simp: decode4_def second_ok_def cont_def is_scalar_def
      split: if_splits\<close>)
qed

lemma decode_rune_scalar: "is_scalar (fst (decode_rune s))"
proof -
  have "is_scalar RuneError" by (simp add: is_scalar_def RuneError_def)
  then have "is_scalar (fst (decode_bytes bs))" for bs
    by (induction bs rule: decode_bytes.induct)
      (auto simp: is_scalar_def dest: decode2_scalar decode3_scalar decode4_scalar
        split: option.splits list.splits)
  then show ?thesis by (simp add: decode_rune_def)
qed

lemma rune_segments_scalar: "(r, b) \<in> set (rune_segments s) \<Longrightarrow> is_scalar r"
proof (induction s rule: rune_segments.induct)
  case (1 s)
  then show ?case
    by (subst (asm) rune_segments.simps) (auto simp: decode_rune_scalar split: if_splits)
qed

lemma runes_scalar: "r \<in> set (runes s) \<Longrightarrow> is_scalar r"
  using rune_segments_scalar by (auto simp: runes_def)

lemma rune_count_le_length: "RuneCountInString s \<le> length s"
proof (induction s rule: rune_segments.induct)
  case (1 s)
  show ?case
  proof (cases "s = []")
    case True
    then show ?thesis by (simp add: RuneCountInString_def runes_def)
  next
    case False
    then have "RuneCountInString s = Suc (RuneCountInString (drop (snd (decode_rune s)) s))"
      by (simp add: RuneCountInString_def runes_def rune_segments.simps [of s])
    also have "\<dots> \<le> Suc (length (drop (snd (decode_rune s)) s))" using 1 False by simp
    also have "\<dots> \<le> length s" using decode_rune_width [OF False] False
      by (cases s) simp_all
    finally show ?thesis .
  qed
qed

section \<open>Character classes, trimming and case\<close>

definition IsControl :: "rune \<Rightarrow> bool" where
  "IsControl r \<longleftrightarrow> r < 32 \<or> (127 \<le> r \<and> r < 160)"

definition IsSpace :: "rune \<Rightarrow> bool" where
  "IsSpace r \<longleftrightarrow>
     (9 \<le> r \<and> r \<le> 13) \<or> r = 32 \<or> r = 133 \<or> r = 160 \<or> r = 5760 \<or> (8192 \<le> r \<and> r \<le> 8202) \<or>
     r = 8232 \<or> r = 8233 \<or> r = 8239 \<or> r = 8287 \<or> r = 12288"

text \<open>
  \<open>strings.TrimSpace\<close> on well-formed UTF-8, which every string decoded from JSON is
  (\<open>encoding/json\<close> replaces ill-formed bytes by \<open>U+FFFD\<close>).
\<close>

definition trim_by :: "('a \<Rightarrow> bool) \<Rightarrow> 'a list \<Rightarrow> 'a list" where
  "trim_by P xs = rev (dropWhile P (rev (dropWhile P xs)))"

definition TrimSpace :: "string \<Rightarrow> string" where
  "TrimSpace s = concat (map snd (trim_by (\<lambda>(r, _). IsSpace r) (rune_segments s)))"

text \<open>
  \<open>strings.ToUpper\<close>: ASCII letters by arithmetic, every other rune by Go's Unicode case table,
  the parameter \<open>up\<close>.
\<close>

definition upper_rune :: "(rune \<Rightarrow> rune) \<Rightarrow> rune \<Rightarrow> rune" where
  "upper_rune up r = (if 97 \<le> r \<and> r \<le> 122 then r - 32 else if r < 128 then r else up r)"

definition ToUpper :: "(rune \<Rightarrow> rune) \<Rightarrow> string \<Rightarrow> string" where
  "ToUpper up s = encode_runes (map (upper_rune up) (runes s))"

definition ascii :: "string \<Rightarrow> bool" where
  "ascii s \<longleftrightarrow> (\<forall>c \<in> set s. byte c < 128)"

lemma trim_by_id:
  assumes "xs \<noteq> [] \<Longrightarrow> \<not> P (hd xs)" and "xs \<noteq> [] \<Longrightarrow> \<not> P (last xs)"
  shows "trim_by P xs = xs"
proof (cases xs)
  case Nil
  then show ?thesis by (simp add: trim_by_def)
next
  case (Cons y ys)
  then have "dropWhile P xs = xs" using assms(1) by simp
  moreover have "dropWhile P (rev xs) = rev xs"
    using Cons assms(2) by (cases "rev xs") (auto simp: last_conv_nth simp flip: hd_rev)
  ultimately show ?thesis by (simp add: trim_by_def)
qed

lemma dropWhile_suffix: "\<exists>ys. xs = ys @ dropWhile P xs"
  by (metis takeWhile_dropWhile_id)

lemma trim_by_sublist: "\<exists>ys zs. xs = ys @ trim_by P xs @ zs"
proof -
  obtain ys where 1: "xs = ys @ dropWhile P xs" using dropWhile_suffix by blast
  obtain zs where "rev (dropWhile P xs) = zs @ dropWhile P (rev (dropWhile P xs))"
    using dropWhile_suffix by blast
  then have "dropWhile P xs = trim_by P xs @ rev zs"
    unfolding trim_by_def by (metis rev_append rev_rev_ident)
  with 1 show ?thesis by metis
qed

lemma set_trim_by: "set (trim_by P xs) \<subseteq> set xs"
  using trim_by_sublist [of xs P] by (metis set_append Un_iff subsetI)

lemma rune_segments_ascii:
  "ascii s \<Longrightarrow> rune_segments s = map (\<lambda>c. (byte c, [c])) s"
proof (induction s)
  case (Cons c s)
  then have "decode_rune (c # s) = (byte c, 1)" and "ascii s"
    by (auto simp: decode_rune_def ascii_def)
  with Cons show ?case by (subst rune_segments.simps) simp
qed simp

lemma runes_ascii: "ascii s \<Longrightarrow> runes s = map byte s"
  by (simp add: runes_def rune_segments_ascii comp_def)

lemma encode_ascii: "r < 128 \<Longrightarrow> encode_rune r = [char_of r]"
  by (simp add: encode_rune_def encode_scalar_def is_scalar_def)

lemma ToUpper_ascii:
  "ascii s \<Longrightarrow> ToUpper up s = map (\<lambda>c. char_of (upper_rune up (byte c))) s"
  by (induction s)
    (auto simp: ToUpper_def runes_ascii encode_runes_def ascii_def encode_ascii upper_rune_def)

lemma TrimSpace_ascii:
  assumes "ascii s" "\<forall>c \<in> set s. \<not> IsSpace (byte c)"
  shows "TrimSpace s = s"
proof -
  have seg: "rune_segments s = map (\<lambda>c. (byte c, [c])) s" by (rule rune_segments_ascii [OF assms(1)])
  have "trim_by (\<lambda>(r, _). IsSpace r) (rune_segments s) = rune_segments s"
    by (rule trim_by_id) (use assms(2) in \<open>auto simp: seg hd_map last_map\<close>)
  then show ?thesis by (simp add: TrimSpace_def seg comp_def)
qed

section \<open>Splitting and decimal numbers\<close>

text \<open>\<open>strings.Split\<close> with a one-byte separator.\<close>

fun split_on :: "char \<Rightarrow> string \<Rightarrow> string list" where
  "split_on c [] = [[]]"
| "split_on c (x # s) =
     (if x = c then [] # split_on c s
      else case split_on c s of [] \<Rightarrow> [[x]] | w # ws \<Rightarrow> (x # w) # ws)"

lemma split_on_nonempty: "split_on c s \<noteq> []"
  by (induction s) (auto split: list.splits)

lemma split_on_notin: "c \<notin> set s \<Longrightarrow> split_on c s = [s]"
  by (induction s) auto

lemma split_on_append: "c \<notin> set s \<Longrightarrow> split_on c (s @ c # t) = s # split_on c t"
  by (induction s) auto

text \<open>\<open>strconv.Itoa\<close>.\<close>

definition digit_char :: "nat \<Rightarrow> char" where
  "digit_char d = char_of (48 + d)"

fun nat_digits :: "nat \<Rightarrow> string" where
  "nat_digits n =
     (if n < 10 then [digit_char n] else nat_digits (n div 10) @ [digit_char (n mod 10)])"

declare nat_digits.simps [simp del]

definition Itoa :: "int \<Rightarrow> string" where
  "Itoa n = (if n < 0 then CHR ''-'' # nat_digits (nat (- n)) else nat_digits (nat n))"

text \<open>
  \<open>strconv.Atoi\<close>: an optional sign, then one or more decimal digits whose value fits 64 bits.
\<close>

definition is_digit :: "char \<Rightarrow> bool" where
  "is_digit c \<longleftrightarrow> 48 \<le> byte c \<and> byte c \<le> 57"

definition digits_value :: "string \<Rightarrow> int" where
  "digits_value s = foldl (\<lambda>n c. n * 10 + (int (byte c) - 48)) 0 s"

definition Atoi :: "string \<Rightarrow> int option" where
  "Atoi s =
     (let neg = (s \<noteq> [] \<and> hd s = CHR ''-'');
          ds = (if s \<noteq> [] \<and> (hd s = CHR ''-'' \<or> hd s = CHR ''+'') then tl s else s);
          n = (if neg then - digits_value ds else digits_value ds)
      in if ds \<noteq> [] \<and> list_all is_digit ds \<and> in_int64 n then Some n else None)"

lemma byte_digit_char: "d < 10 \<Longrightarrow> byte (digit_char d) = 48 + d"
  by (simp add: digit_char_def byte_char_of)

lemma digits_value_snoc: "digits_value (s @ [c]) = digits_value s * 10 + (int (byte c) - 48)"
  by (simp add: digits_value_def)

lemma nat_digits_all: "list_all is_digit (nat_digits n)"
proof (induction n rule: nat_digits.induct)
  case (1 n)
  show ?case
  proof (cases "n < 10")
    case True
    then show ?thesis by (simp add: nat_digits.simps [of n] is_digit_def byte_digit_char)
  next
    case False
    with 1 show ?thesis by (simp add: nat_digits.simps [of n] is_digit_def byte_digit_char)
  qed
qed

lemma digits_value_nat_digits: "digits_value (nat_digits n) = int n"
proof (induction n rule: nat_digits.induct)
  case (1 n)
  show ?case
  proof (cases "n < 10")
    case True
    then show ?thesis by (simp add: nat_digits.simps [of n] digits_value_def byte_digit_char)
  next
    case False
    with 1 have "digits_value (nat_digits n) = int (n div 10) * 10 + int (n mod 10)"
      by (simp add: nat_digits.simps [of n] digits_value_snoc byte_digit_char)
    also have "\<dots> = int (n div 10 * 10 + n mod 10)" by (simp only: of_nat_add of_nat_mult of_nat_numeral)
    finally show ?thesis by simp
  qed
qed

lemma nat_digits_nonempty [simp]: "nat_digits n \<noteq> []"
  by (subst nat_digits.simps) simp

lemma nat_digits_hd: "is_digit (hd (nat_digits n))"
  using nat_digits_all [of n] by (cases "nat_digits n") auto

lemma not_digit_sign: "\<not> is_digit (CHR ''-'')" "\<not> is_digit (CHR ''+'')" "\<not> is_digit (CHR '':'')"
  by (simp_all add: is_digit_def byte_def)

text \<open>Reading back a printed number gives the number, for every 64-bit integer.\<close>

lemma Atoi_Itoa: "in_int64 n \<Longrightarrow> Atoi (Itoa n) = Some n"
  using nat_digits_hd [of "nat n"] not_digit_sign
  by (auto simp: Atoi_def Itoa_def Let_def digits_value_nat_digits nat_digits_all)

lemma Itoa_no_colon: "CHR '':'' \<notin> set (Itoa n)"
  using nat_digits_all [of "nat n"] nat_digits_all [of "nat (- n)"] not_digit_sign(3)
  by (auto simp: Itoa_def list_all_iff)


section \<open>Strings of ASCII runes\<close>

text \<open>A string that ranges over ASCII code points only is a string of ASCII bytes.\<close>

lemma decode2_ge: "decode2 a b = Some r \<Longrightarrow> 128 \<le> r"
  by (auto simp: decode2_def cont_def split: if_splits)

lemma decode3_ge: "decode3 a b c = Some r \<Longrightarrow> 128 \<le> r"
  by (cases "a = 224") (auto simp: decode3_def second_ok_def cont_def split: if_splits)

lemma decode4_ge: "decode4 a b c d = Some r \<Longrightarrow> 128 \<le> r"
  by (cases "a = 240") (auto simp: decode4_def second_ok_def cont_def split: if_splits)

lemma decode_bytes_small:
  assumes "fst (decode_bytes (a # t)) < 128"
  shows "a < 128"
proof (rule ccontr)
  assume "\<not> a < 128"
  with assms show False
    using decode2_ge [of a] decode3_ge [of a] decode4_ge [of a]
    by (fastforce simp: RuneError_def split: list.splits option.splits)
qed

lemma ascii_runes:
  assumes "\<forall>r \<in> set (runes s). r < 128"
  shows "ascii s"
  using assms
proof (induction s)
  case Nil
  then show ?case by (simp add: ascii_def)
next
  case (Cons c s)
  have seg: "rune_segments (c # s) = (fst (decode_rune (c # s)), take (snd (decode_rune (c # s))) (c # s))
               # rune_segments (drop (snd (decode_rune (c # s))) (c # s))"
    by (subst rune_segments.simps) simp
  then have "fst (decode_rune (c # s)) < 128"
    using Cons.prems by (simp only: runes_def list.map list.set fst_conv) blast
  then have c: "byte c < 128"
    unfolding decode_rune_def list.map by (rule decode_bytes_small)
  then have "decode_rune (c # s) = (byte c, 1)" by (simp add: decode_rune_def)
  then have "runes (c # s) = byte c # runes s" by (simp add: runes_def seg)
  with Cons c show ?case by (simp add: ascii_def)
qed

lemma list_all_runes_ascii:
  assumes "list_all P (runes s)" and "\<And>r. P r \<Longrightarrow> r < 128"
  shows "ascii s \<and> (\<forall>c \<in> set s. P (byte c))"
proof -
  have "ascii s" using assms by (intro ascii_runes) (auto simp: list_all_iff)
  with assms(1) show ?thesis by (auto simp: runes_ascii list_all_iff)
qed


section \<open>Prefixes\<close>

text \<open>\<open>strings.CutPrefix\<close>: what follows the prefix, or nothing.\<close>

definition CutPrefix :: "string \<Rightarrow> string \<Rightarrow> string option" where
  "CutPrefix s p = (if take (length p) s = p then Some (drop (length p) s) else None)"

lemma CutPrefix_Some: "CutPrefix s p = Some t \<longleftrightarrow> s = p @ t"
  by (auto simp: CutPrefix_def) (metis append_take_drop_id)

section \<open>Byte order\<close>

text \<open>\<open>strings.Compare\<close>: lexicographic on bytes.\<close>

fun bytes_le :: "string \<Rightarrow> string \<Rightarrow> bool" where
  "bytes_le [] _ = True"
| "bytes_le (_ # _) [] = False"
| "bytes_le (a # as) (b # bs) =
     ((of_char a :: nat) < of_char b \<or> (a = b \<and> bytes_le as bs))"

text \<open>\<open>sort.Strings\<close>, and \<open>slices.Compact\<close>, which keeps the first of each run of equal elements.\<close>

fun insert_string :: "string \<Rightarrow> string list \<Rightarrow> string list" where
  "insert_string s [] = [s]"
| "insert_string s (t # ts) = (if bytes_le s t then s # t # ts else t # insert_string s ts)"

definition sort_Strings :: "string list \<Rightarrow> string list" where
  "sort_Strings ss = foldr insert_string ss []"

fun Compact :: "'a list \<Rightarrow> 'a list" where
  "Compact (x # y # ys) = (if x = y then Compact (y # ys) else x # Compact (y # ys))"
| "Compact xs = xs"

lemma bytes_le_refl: "bytes_le s s"
  by (induction s) auto

lemma bytes_le_antisym: "bytes_le s t \<Longrightarrow> bytes_le t s \<Longrightarrow> s = t"
  by (induction s t rule: bytes_le.induct) (auto elim: bytes_le.elims)

lemma bytes_le_trans: "bytes_le s t \<Longrightarrow> bytes_le t u \<Longrightarrow> bytes_le s u"
proof (induction s t arbitrary: u rule: bytes_le.induct)
  case (3 a as b bs)
  then show ?case by (cases u) auto
qed auto

lemma bytes_le_total: "bytes_le s t \<or> bytes_le t s"
  by (induction s t rule: bytes_le.induct) (auto simp: neq_iff)

section \<open>Lower case and containment\<close>

definition lower_rune :: "(rune \<Rightarrow> rune) \<Rightarrow> rune \<Rightarrow> rune" where
  "lower_rune lo r = (if r < 128 then (if 65 \<le> r \<and> r \<le> 90 then r + 32 else r) else lo r)"

text \<open>\<open>strings.ToLower\<close>, the case table above ASCII being an argument as for \<open>ToUpper\<close>.\<close>

definition ToLower :: "(rune \<Rightarrow> rune) \<Rightarrow> string \<Rightarrow> string" where
  "ToLower lo s = encode_runes (map (lower_rune lo) (runes s))"

definition HasPrefix :: "string \<Rightarrow> string \<Rightarrow> bool" where
  "HasPrefix s p \<longleftrightarrow> take (length p) s = p"

definition Contains :: "string \<Rightarrow> string \<Rightarrow> bool" where
  "Contains s sub = list_ex (\<lambda>i. HasPrefix (drop i s) sub) [0..<Suc (length s)]"

end
