(* ===== verification/Protocol.thy ===== *)
theory Protocol
  imports Go_Strings
begin

text \<open>
  The wire vocabulary of the realtime protocol (\<open>internal/protocol/protocol.go\<close>) and the run
  limits it shares with ingestion (\<open>internal/runlimits/runlimits.go\<close>).

  Strings a client chooses (a mode, a visibility, a text-source kind) stay strings, because the
  code compares them with constants; closed sets only the server emits (error codes, peer
  statuses, match-end reasons, system chat kinds) are datatypes with one constructor per Go
  constant. The theory proves what the validators accept, the bounds an accepted configuration
  satisfies, and what \<open>SanitizeRoomName\<close> leaves in a name.
\<close>

section \<open>Run limits\<close>

definition MaxWordCount :: int where
  "MaxWordCount = 3000"

definition MaxDurationMs :: int where
  "MaxDurationMs = 3600000"

definition CharsPerWord :: int where
  "CharsPerWord = 5"

definition MaxPlausibleWpm :: int where
  "MaxPlausibleWpm = 250"

definition TimedRunKeystrokes :: "int \<Rightarrow> int \<Rightarrow> int" where
  "TimedRunKeystrokes durationMs wpm = go_div (durationMs * wpm * CharsPerWord) 60000"

section \<open>Constants\<close>

definition Version :: int where
  "Version = 1"

datatype err_code =
  CodeVersionMismatch | CodeBadMessage | CodeRoomNotFound | CodeRoomFull | CodeNotInRoom
| CodeForbidden | CodeNotReady | CodeRateLimited | CodeSeatTakenOver | CodeInMatchElsewhere
| CodeAccountRestricted | CodeInternal

text \<open>
  Seat and peer statuses. \<open>StatusNone\<close> is the empty string a seat carries outside a match and
  \<open>seatActive\<close> the one non-terminal match status (\<open>internal/ws/room.go\<close>); the rest are the
  protocol's \<open>Status*\<close> constants.
\<close>

datatype status =
  StatusNone | seatActive | StatusJoined | StatusLeft | StatusDisconnected | StatusReconnected
| StatusFinished | StatusDNF

datatype end_reason = ReasonAllFinished | ReasonDeadline | ReasonFinishWindow

datatype chat_kind =
  ChatKindNone | ChatKindJoin | ChatKindLeave | ChatKindSettings | ChatKindHostChanged

definition AfkTrailingMs :: int where "AfkTrailingMs = 15000"
definition AfkKickShare :: rat where "AfkKickShare = 6 / 10"
definition AfkWarmupMs :: int where "AfkWarmupMs = 10000"
definition AfkBucketMs :: int where "AfkBucketMs = 1000"
definition FinishWindowMs :: int where "FinishWindowMs = 120000"

definition RoomNameMinLen :: nat where "RoomNameMinLen = 1"
definition RoomNameMaxLen :: nat where "RoomNameMaxLen = 32"
definition NickMinLen :: nat where "NickMinLen = 1"
definition NickMaxLen :: nat where "NickMaxLen = 16"
definition ChatTextMinLen :: nat where "ChatTextMinLen = 1"
definition ChatTextMaxLen :: nat where "ChatTextMaxLen = 200"
definition LangMaxLen :: nat where "LangMaxLen = 32"
definition DictHashMaxLen :: nat where "DictHashMaxLen = 64"
definition QuoteIDMaxLen :: nat where "QuoteIDMaxLen = 64"

abbreviation VisibilityOpen :: string where "VisibilityOpen \<equiv> ''open''"
abbreviation VisibilityPrivate :: string where "VisibilityPrivate \<equiv> ''private''"
abbreviation ModeTime :: string where "ModeTime \<equiv> ''time''"
abbreviation ModeWords :: string where "ModeWords \<equiv> ''words''"
abbreviation ModeQuote :: string where "ModeQuote \<equiv> ''quote''"
abbreviation DifficultyNormal :: string where "DifficultyNormal \<equiv> ''normal''"
abbreviation DifficultyExpert :: string where "DifficultyExpert \<equiv> ''expert''"
abbreviation DifficultyMaster :: string where "DifficultyMaster \<equiv> ''master''"
abbreviation TextSourceSeeded :: string where "TextSourceSeeded \<equiv> ''seeded''"
abbreviation TextSourceQuote :: string where "TextSourceQuote \<equiv> ''quote''"
abbreviation ChatFromSystem :: string where "ChatFromSystem \<equiv> ''system''"

definition IsCounted :: "string \<Rightarrow> bool" where
  "IsCounted mode \<longleftrightarrow> mode = ModeWords \<or> mode = ModeQuote"

section \<open>Shared value types\<close>

record text_mods =
  Punctuation :: bool
  Numbers :: bool
  RandomCase :: bool
  Reverse :: bool
  Lazy :: bool

record text_source =
  Kind :: string
  QuoteID :: string

record settings =
  Name :: string
  Visibility :: string
  Mode :: string
  DurationMs :: int
  WordCount :: int
  Lang :: string
  DictHash :: string
  TextMods :: text_mods
  TextSource :: text_source

record freemods =
  Difficulty :: string
  MinWpm :: int
  Nospace :: bool

record player =
  p_playerID :: string
  p_nick :: string
  p_isGuest :: bool
  p_ready :: bool
  p_freemods :: freemods

record room_match =
  rm_matchID :: string
  rm_goAtServerMs :: int

record room_state =
  rs_code :: string
  rs_name :: string
  rs_visibility :: string
  rs_hostPlayerID :: string
  rs_settings :: settings
  rs_players :: "player list"
  rs_match :: "room_match option"

record countdown_player =
  cp_playerID :: string
  cp_freemods :: freemods

record countdown =
  cd_matchID :: string
  cd_goAtServerMs :: int
  cd_seed :: int
  cd_settings :: settings
  cd_players :: "countdown_player list"

record match_result =
  mr_playerID :: string
  mr_status :: status
  mr_finishedAtMs :: "int option"
  mr_batchCount :: nat
  mr_eventCount :: nat
  mr_afkMs :: int
  mr_afkShare :: rat

text \<open>
  Server-to-client frames. An opaque event (\<open>json.RawMessage\<close>) is its bytes.
\<close>

datatype frame =
  HelloOK string string
| Error err_code string
| NTPPong int int int
| RoomState room_state
| Countdown countdown
| Chat string chat_kind string int
| Kicked
| PeerBatch string int "string list"
| PeerStatus string status
| MatchEnd string end_reason "match_result list"

definition NewError :: "err_code \<Rightarrow> string \<Rightarrow> frame" where
  "NewError code message = Error code message"

definition NewNTPPong :: "int \<Rightarrow> int \<Rightarrow> int \<Rightarrow> frame" where
  "NewNTPPong t0 t1 t2 = NTPPong t0 t1 t2"

section \<open>Validation\<close>

definition ValidNick :: "string \<Rightarrow> bool" where
  "ValidNick nick =
     (let n = RuneCountInString nick in NickMinLen \<le> n \<and> n \<le> NickMaxLen)"

text \<open>
  The loop of \<open>SanitizeRoomName\<close>: \<open>n\<close> runes are written so far; a dropped rune is skipped before
  the length test.
\<close>

fun sanitize_loop :: "rune list \<Rightarrow> nat \<Rightarrow> string" where
  "sanitize_loop [] n = []"
| "sanitize_loop (r # rs) n =
     (if r = RuneError \<or> IsControl r then sanitize_loop rs n
      else if n \<ge> RoomNameMaxLen then []
      else encode_rune r @ sanitize_loop rs (Suc n))"

definition SanitizeRoomName :: "string \<Rightarrow> string" where
  "SanitizeRoomName name = sanitize_loop (runes (TrimSpace name)) 0"

definition quoted :: "string \<Rightarrow> string" where
  "quoted s = [CHR 0x27] @ s @ [CHR 0x27]"

text \<open>\<open>ValidateSettings\<close> returns the first problem (the error's message), or \<open>None\<close>.\<close>

definition ValidateSettings :: "settings \<Rightarrow> string option" where
  "ValidateSettings s =
     (let n = RuneCountInString (Name s) in
      if n < RoomNameMinLen \<or> n > RoomNameMaxLen then Some ''name must be 1-32 characters''
      else if Visibility s \<noteq> VisibilityOpen \<and> Visibility s \<noteq> VisibilityPrivate
        then Some (''visibility must be '' @ quoted ''open'' @ '' or '' @ quoted ''private'')
      else if Mode s = ModeTime \<and> DurationMs s \<le> 0
        then Some ''durationMs must be positive for time mode''
      else if Mode s = ModeTime \<and> DurationMs s > MaxDurationMs
        then Some (''durationMs must be at most '' @ Itoa MaxDurationMs)
      else if (Mode s = ModeWords \<or> Mode s = ModeQuote) \<and> WordCount s \<le> 0
        then Some (''wordCount must be positive for '' @ Mode s @ '' mode'')
      else if (Mode s = ModeWords \<or> Mode s = ModeQuote) \<and> WordCount s > MaxWordCount
        then Some (''wordCount must be at most '' @ Itoa MaxWordCount)
      else if Mode s \<noteq> ModeTime \<and> Mode s \<noteq> ModeWords \<and> Mode s \<noteq> ModeQuote
        then Some (''mode must be '' @ quoted ''time'' @ '', '' @ quoted ''words'' @ '' or '' @ quoted ''quote'')
      else if Lang s = [] then Some ''lang is required''
      else if RuneCountInString (Lang s) > LangMaxLen
        then Some (''lang must be at most '' @ Itoa (int LangMaxLen) @ '' characters'')
      else if Mode s = ModeQuote then
        (if Kind (TextSource s) \<noteq> TextSourceQuote
           then Some (''quote mode requires textSource.kind '' @ quoted ''quote'')
         else if QuoteID (TextSource s) = []
           then Some ''textSource.quoteId is required for quote mode''
         else if RuneCountInString (QuoteID (TextSource s)) > QuoteIDMaxLen
           then Some (''textSource.quoteId must be at most '' @ Itoa (int QuoteIDMaxLen) @ '' characters'')
         else None)
      else if DictHash s = [] then Some ''dictHash is required''
      else if RuneCountInString (DictHash s) > DictHashMaxLen
        then Some (''dictHash must be at most '' @ Itoa (int DictHashMaxLen) @ '' characters'')
      else if Kind (TextSource s) \<noteq> TextSourceSeeded
        then Some (''textSource.kind must be '' @ quoted ''seeded'')
      else None)"

definition validMinWpm :: "int \<Rightarrow> bool" where
  "validMinWpm n \<longleftrightarrow> n = 0 \<or> n = 60 \<or> n = 80 \<or> n = 100"

definition ValidateFreemods :: "freemods \<Rightarrow> string option" where
  "ValidateFreemods f =
     (if Difficulty f \<noteq> DifficultyNormal \<and> Difficulty f \<noteq> DifficultyExpert \<and>
         Difficulty f \<noteq> DifficultyMaster
        then Some ''difficulty must be normal, expert, or master''
      else if \<not> validMinWpm (MinWpm f) then Some ''minWpm must be 0, 60, 80, or 100''
      else None)"

definition DefaultFreemods :: freemods where
  "DefaultFreemods = \<lparr>Difficulty = DifficultyNormal, MinWpm = 0, Nospace = False\<rparr>"

definition DefaultSettings :: "string \<Rightarrow> settings" where
  "DefaultSettings nm =
     (let nm' = SanitizeRoomName nm in
      \<lparr>Name = (if nm' = [] then ''Room'' else nm'), Visibility = VisibilityPrivate,
       Mode = ModeTime, DurationMs = 30000, WordCount = 0, Lang = ''en'', DictHash = ''en-default'',
       TextMods = \<lparr>Punctuation = False, Numbers = False, RandomCase = False, Reverse = False,
                   Lazy = False\<rparr>,
       TextSource = \<lparr>Kind = TextSourceSeeded, QuoteID = []\<rparr>\<rparr>)"

section \<open>What the validators accept\<close>

lemmas limit_defs =
  MaxWordCount_def MaxDurationMs_def RoomNameMinLen_def RoomNameMaxLen_def LangMaxLen_def
  DictHashMaxLen_def QuoteIDMaxLen_def ChatTextMinLen_def ChatTextMaxLen_def

text \<open>
  The specification of a playable room configuration: a name of 1 to 32 characters, a known
  visibility, exactly the dimension its mode uses and in range, a short language, and the text
  reference of the mode (a quote id for quotes, a dictionary fingerprint otherwise).
\<close>

definition playable :: "settings \<Rightarrow> bool" where
  "playable s \<longleftrightarrow>
     RuneCountInString (Name s) \<in> {1..32} \<and> Visibility s \<in> {VisibilityOpen, VisibilityPrivate} \<and>
     Lang s \<noteq> [] \<and> RuneCountInString (Lang s) \<le> 32 \<and>
     (Mode s = ModeTime \<and> DurationMs s \<in> {1..3600000} \<or>
      Mode s \<in> {ModeWords, ModeQuote} \<and> WordCount s \<in> {1..3000}) \<and>
     (if Mode s = ModeQuote
      then Kind (TextSource s) = TextSourceQuote \<and> QuoteID (TextSource s) \<noteq> [] \<and>
           RuneCountInString (QuoteID (TextSource s)) \<le> 64
      else Kind (TextSource s) = TextSourceSeeded \<and> DictHash s \<noteq> [] \<and>
           RuneCountInString (DictHash s) \<le> 64)"

lemma ValidateSettings_playable: "ValidateSettings s = None \<longleftrightarrow> playable s"
proof (cases "Mode s = ModeQuote")
  case True
  then show ?thesis
    by (auto simp: ValidateSettings_def playable_def Let_def limit_defs)
next
  case False
  then show ?thesis
    by (auto simp: ValidateSettings_def playable_def Let_def limit_defs)
qed

lemma ValidateFreemods_None:
  "ValidateFreemods f = None \<longleftrightarrow>
     Difficulty f \<in> {DifficultyNormal, DifficultyExpert, DifficultyMaster} \<and>
     MinWpm f \<in> {0, 60, 80, 100}"
  by (auto simp: ValidateFreemods_def validMinWpm_def)

lemma ValidateFreemods_default: "ValidateFreemods DefaultFreemods = None"
  by (simp add: ValidateFreemods_None DefaultFreemods_def)

section \<open>Room names\<close>

text \<open>The runes \<open>SanitizeRoomName\<close> keeps, as a specification over the trimmed name.\<close>

definition kept_runes :: "rune list \<Rightarrow> rune list" where
  "kept_runes rs = take RoomNameMaxLen (filter (\<lambda>r. \<not> (r = RuneError \<or> IsControl r)) rs)"

lemma sanitize_loop_eq:
  "sanitize_loop rs n =
     encode_runes (take (RoomNameMaxLen - n) (filter (\<lambda>r. \<not> (r = RuneError \<or> IsControl r)) rs))"
proof (induction rs n rule: sanitize_loop.induct)
  case (2 r rs n)
  show ?case
  proof (cases "r = RuneError \<or> IsControl r \<or> n \<ge> RoomNameMaxLen")
    case True
    with 2 show ?thesis by (auto simp: encode_runes_def)
  next
    case False
    then have "RoomNameMaxLen - n = Suc (RoomNameMaxLen - Suc n)" by arith
    with 2 False show ?thesis by (simp add: encode_runes_def)
  qed
qed (simp add: encode_runes_def)

lemma SanitizeRoomName_eq: "SanitizeRoomName nm = encode_runes (kept_runes (runes (TrimSpace nm)))"
  by (simp add: SanitizeRoomName_def sanitize_loop_eq kept_runes_def)

lemma kept_runes_subset:
  "r \<in> set (kept_runes rs) \<Longrightarrow> r \<in> set rs \<and> r \<noteq> RuneError \<and> \<not> IsControl r"
  using set_take_subset by (fastforce simp: kept_runes_def)

lemma runes_SanitizeRoomName:
  "runes (SanitizeRoomName nm) = kept_runes (runes (TrimSpace nm))"
proof -
  have "\<forall>r \<in> set (kept_runes (runes (TrimSpace nm))). is_scalar r"
    using kept_runes_subset runes_scalar by blast
  then show ?thesis by (simp add: SanitizeRoomName_eq runes_encode_runes)
qed

lemma DefaultSettings_name:
  "RuneCountInString (Name (DefaultSettings nm)) \<in> {1..32}"
proof (cases "SanitizeRoomName nm = []")
  case True
  have "runes ''Room'' = map byte ''Room''" by (rule runes_ascii) (simp add: ascii_def byte_def)
  with True show ?thesis
    by (simp add: DefaultSettings_def Let_def RuneCountInString_def)
next
  case False
  have "runes (SanitizeRoomName nm) \<noteq> []"
  proof
    assume "runes (SanitizeRoomName nm) = []"
    then have "rune_segments (SanitizeRoomName nm) = []" by (simp add: runes_def)
    then show False using False by (subst (asm) rune_segments.simps) (simp split: if_splits)
  qed
  moreover have "length (runes (SanitizeRoomName nm)) \<le> 32"
    by (simp add: runes_SanitizeRoomName kept_runes_def RoomNameMaxLen_def)
  ultimately show ?thesis using False
    by (simp add: DefaultSettings_def Let_def RuneCountInString_def Suc_le_eq)
qed

end
