(* ===== verification/Token_Bucket.thy ===== *)
theory Token_Bucket
  imports Prelude
begin

text \<open>
  Token buckets: the per-connection budget of the realtime transport
  (\<open>internal/ws/ratelimit.go\<close>) and the per-key limiter of the HTTP surface
  (\<open>internal/auth/ratelimit.go\<close>).

  Times are instants and durations in nanoseconds (\<open>int\<close>); token counts are rationals, the exact
  values of which the code's \<open>float64\<close> is an approximation. The theory proves that a bucket stays
  between zero and its burst, that a window of any length admits at most the burst plus what
  refilled, and that the eager eviction of idle buckets cannot be observed.
\<close>

section \<open>The connection bucket\<close>

text \<open>\<open>last = None\<close> is the zero \<open>time.Time\<close>: the bucket has never been used.\<close>

record bucket =
  tokens :: rat
  last_use :: "int option"

definition bucket_zero :: bucket where
  "bucket_zero = \<lparr>tokens = 0, last_use = None\<rparr>"

abbreviation ms :: "int \<Rightarrow> int" where "ms n \<equiv> n * 1000000"

definition commandBurst :: int where "commandBurst = 20"
definition commandRefill :: int where "commandRefill = ms 250"
definition batchBurst :: int where "batchBurst = 40"
definition batchRefill :: int where "batchRefill = ms 50"
definition chatBurst :: int where "chatBurst = 5"
definition chatRefill :: int where "chatRefill = ms 400"

definition refill_tokens :: "rat \<Rightarrow> int \<Rightarrow> int \<Rightarrow> int \<Rightarrow> rat" where
  "refill_tokens t elapsed burst refill =
     min (of_int burst) (t + of_int elapsed / of_int refill)"

definition bucket_allow :: "bucket \<Rightarrow> int \<Rightarrow> int \<Rightarrow> int \<Rightarrow> bucket \<times> bool" where
  "bucket_allow b now burst refill =
     (let t = (case last_use b of
                 None \<Rightarrow> of_int burst
               | Some l \<Rightarrow> refill_tokens (tokens b) (now - l) burst refill)
      in if t < 1 then (\<lparr>tokens = t, last_use = Some now\<rparr>, False)
         else (\<lparr>tokens = t - 1, last_use = Some now\<rparr>, True))"

text \<open>A sequence of requests at the given instants: the answers and the final bucket.\<close>

fun bucket_run :: "bucket \<Rightarrow> int list \<Rightarrow> int \<Rightarrow> int \<Rightarrow> bucket \<times> bool list" where
  "bucket_run b [] burst refill = (b, [])"
| "bucket_run b (t # ts) burst refill =
     (let (b', ok) = bucket_allow b t burst refill;
          (b'', oks) = bucket_run b' ts burst refill
      in (b'', ok # oks))"

definition admitted :: "bool list \<Rightarrow> nat" where
  "admitted oks = length (filter id oks)"

section \<open>The per-key limiter\<close>

record limiter =
  buckets :: "string \<rightharpoonup> bucket"
  l_every :: int
  l_burst :: int
  lastSweep :: "int option"
  sweepEvery :: int

definition NewInMemoryRateLimiter :: "int \<Rightarrow> int \<Rightarrow> limiter" where
  "NewInMemoryRateLimiter ev bu =
     \<lparr>buckets = Map.empty, l_every = ev, l_burst = bu, lastSweep = None, sweepEvery = ms 300000\<rparr>"

definition last_of :: "bucket \<Rightarrow> int" where
  "last_of b = (case last_use b of None \<Rightarrow> 0 | Some l \<Rightarrow> l)"

text \<open>
  \<open>sweep\<close>. A limiter that has never swept has the zero instant as \<open>lastSweep\<close>, which is
  further in the past than any \<open>sweepEvery\<close>.
\<close>

definition limiter_sweep :: "limiter \<Rightarrow> int \<Rightarrow> limiter" where
  "limiter_sweep l now =
     (if (case lastSweep l of None \<Rightarrow> False | Some t \<Rightarrow> now - t < sweepEvery l) then l
      else l\<lparr>lastSweep := Some now,
             buckets := (\<lambda>k. case buckets l k of
               None \<Rightarrow> None
             | Some b \<Rightarrow> if now - last_of b > l_every l * l_burst l then None else Some b)\<rparr>)"

definition limiter_take :: "limiter \<Rightarrow> string \<Rightarrow> int \<Rightarrow> limiter \<times> bool" where
  "limiter_take l key now =
     (let b = (case buckets l key of
                 None \<Rightarrow> \<lparr>tokens = of_int (l_burst l), last_use = Some now\<rparr>
               | Some b \<Rightarrow> b);
          t = refill_tokens (tokens b) (now - last_of b) (l_burst l) (l_every l)
      in if t \<ge> 1
         then (l\<lparr>buckets := (buckets l)(key \<mapsto> \<lparr>tokens = t - 1, last_use = Some now\<rparr>)\<rparr>, True)
         else (l\<lparr>buckets := (buckets l)(key \<mapsto> \<lparr>tokens = t, last_use = Some now\<rparr>)\<rparr>, False))"

definition limiter_allow :: "limiter \<Rightarrow> string \<Rightarrow> int \<Rightarrow> limiter \<times> bool" where
  "limiter_allow l key now =
     (if l_burst l \<le> 0 \<or> l_every l \<le> 0 then (l, True)
      else limiter_take (limiter_sweep l now) key now)"

section \<open>Bounds of one bucket\<close>

definition bucket_ok :: "bucket \<Rightarrow> int \<Rightarrow> bool" where
  "bucket_ok b bu \<longleftrightarrow> (case last_use b of None \<Rightarrow> True | Some _ \<Rightarrow> 0 \<le> tokens b \<and> tokens b \<le> of_int bu)"

definition not_before :: "bucket \<Rightarrow> int \<Rightarrow> bool" where
  "not_before b now \<longleftrightarrow> (case last_use b of None \<Rightarrow> True | Some l \<Rightarrow> l \<le> now)"

lemma refill_tokens_bounds:
  assumes "0 \<le> t" and "0 \<le> e" and "0 < r" and "0 \<le> bu"
  shows "0 \<le> refill_tokens t e bu r \<and> refill_tokens t e bu r \<le> of_int bu"
  using assms by (simp add: refill_tokens_def)

lemma bucket_allow_ok:
  assumes "bucket_ok b bu" and "not_before b now" and "0 < bu" and "0 < r"
  shows "bucket_ok (fst (bucket_allow b now bu r)) bu"
proof (cases "last_use b")
  case None
  with assms show ?thesis by (simp add: bucket_allow_def bucket_ok_def Let_def)
next
  case (Some l)
  with assms have "0 \<le> refill_tokens (tokens b) (now - l) bu r \<and>
      refill_tokens (tokens b) (now - l) bu r \<le> of_int bu"
    by (intro refill_tokens_bounds) (auto simp: bucket_ok_def not_before_def)
  with Some show ?thesis by (simp add: bucket_allow_def bucket_ok_def Let_def)
qed

lemma bucket_allow_last [simp]: "last_use (fst (bucket_allow b now bu r)) = Some now"
  by (simp add: bucket_allow_def Let_def)

text \<open>
  The tokens a bucket can spend at \<open>now\<close>. An admission costs one of them, and between two
  requests at most the elapsed refill is added.
\<close>

definition level :: "bucket \<Rightarrow> int \<Rightarrow> rat" where
  "level b bu = (case last_use b of None \<Rightarrow> of_int bu | Some _ \<Rightarrow> tokens b)"

lemma bucket_allow_cost:
  assumes "last_use b = Some l" and "l \<le> now" and "0 < r"
  shows "level (fst (bucket_allow b now bu r)) bu +
           (if snd (bucket_allow b now bu r) then 1 else 0)
         \<le> level b bu + of_int (now - l) / of_int r"
  using assms by (simp add: bucket_allow_def level_def Let_def refill_tokens_def)

lemma bucket_run_cost:
  assumes "last_use b = Some l" and "bucket_ok b bu" and "sorted (l # ts)" and "0 < r" and "0 < bu"
  shows "of_nat (admitted (snd (bucket_run b ts bu r))) \<le>
           level b bu + of_int (last (l # ts) - l) / of_int r"
  using assms
proof (induction ts arbitrary: b l)
  case Nil
  then show ?case by (simp add: admitted_def level_def bucket_ok_def)
next
  case (Cons t ts)
  define b' where "b' = fst (bucket_allow b t bu r)"
  define ok where "ok = snd (bucket_allow b t bu r)"
  from Cons.prems have lt: "l \<le> t" and srt: "sorted (t # ts)" by simp_all
  have "bucket_ok b' bu" unfolding b'_def
    using Cons.prems lt by (intro bucket_allow_ok) (auto simp: not_before_def)
  then have IH: "of_nat (admitted (snd (bucket_run b' ts bu r))) \<le>
      level b' bu + of_int (last (t # ts) - t) / of_int r"
    using Cons.IH [of b' t] srt Cons.prems by (simp add: b'_def)
  have cost: "level b' bu + (if ok then 1 else 0) \<le> level b bu + of_int (t - l) / of_int r"
    using bucket_allow_cost [OF Cons.prems(1) lt Cons.prems(4), of bu] by (simp add: b'_def ok_def)
  have adm: "admitted (snd (bucket_run b (t # ts) bu r)) =
      (if ok then 1 else 0) + admitted (snd (bucket_run b' ts bu r))"
    by (simp add: b'_def ok_def admitted_def case_prod_beta Let_def)
  have "of_int (t - l) / of_int r + of_int (last (t # ts) - t) / of_int r =
      (of_int (last (l # t # ts) - l) / of_int r :: rat)"
    by (simp flip: add_divide_distrib)
  with IH cost show ?case unfolding adm by (auto split: if_splits)
qed

section \<open>Eviction cannot be observed\<close>

text \<open>
  Two limiters are indistinguishable at \<open>now\<close> when every key has the same balance there: a key
  with no bucket counts as a full one.
\<close>

definition balance :: "limiter \<Rightarrow> string \<Rightarrow> int \<Rightarrow> rat" where
  "balance l key now =
     (case buckets l key of
        None \<Rightarrow> of_int (l_burst l)
      | Some b \<Rightarrow> refill_tokens (tokens b) (now - last_of b) (l_burst l) (l_every l))"

definition limiter_ok :: "limiter \<Rightarrow> int \<Rightarrow> bool" where
  "limiter_ok l now \<longleftrightarrow> 0 < l_burst l \<and> 0 < l_every l \<and>
     (\<forall>k b. buckets l k = Some b \<longrightarrow> 0 \<le> tokens b \<and> last_of b \<le> now)"

lemma limiter_take_balance:
  "snd (limiter_take l key now) \<longleftrightarrow> 1 \<le> balance l key now" if "0 < l_burst l"
  using that by (simp add: limiter_take_def balance_def Let_def refill_tokens_def last_of_def
      split: option.splits)

lemma idle_bucket_full:
  assumes "0 \<le> t" and "e > ev * bu" and "0 < ev"
  shows "refill_tokens t e bu ev = of_int bu"
proof -
  have "(of_int (ev * bu) :: rat) \<le> of_int e" using assms(2) by (simp only: of_int_le_iff)
  then have "(of_int bu :: rat) \<le> of_int e / of_int ev"
    using assms(3) by (simp add: pos_le_divide_eq mult.commute)
  then show ?thesis using assms(1) by (simp add: refill_tokens_def min_def)
qed

lemma limiter_sweep_balance:
  assumes "limiter_ok l now" and "now \<le> t"
  shows "balance (limiter_sweep l now) key t = balance l key t"
proof -
  have "refill_tokens (tokens b) (t - last_of b) (l_burst l) (l_every l) = of_int (l_burst l)"
    if "buckets l key = Some b" and "now - last_of b > l_every l * l_burst l" for b
    using that assms by (intro idle_bucket_full) (auto simp: limiter_ok_def)
  then show ?thesis
    by (auto simp: limiter_sweep_def balance_def split: option.splits)
qed

end
