(* ===== verification/World.thy ===== *)
theory World
  imports Protocol Token_Bucket
begin

text \<open>
  The state of the realtime transport (\<open>internal/ws\<close>): sessions, seats, rooms, matches and the
  registry, and the primitives every handler is built from.

  Seats are shared: a room's \<open>seats\<close> slice, a match's frozen \<open>roster\<close>, the grace list and the
  account index all hold pointers to the same seat, and a seat that left the room lives on in the
  roster. Seats, rooms and sessions are therefore objects in a store, addressed by number, and
  every slice is a list of addresses. A handler is a function from the store to the store. The
  clock \<open>w_now\<close> (milliseconds) is read where the code calls \<open>nowMs\<close> and does not move inside a
  critical section. \<open>w_panicked\<close> records a Go panic: a send on a closed channel.
\<close>

type_synonym sess_id = nat
type_synonym seat_id = nat
type_synonym room_id = nat

section \<open>Objects\<close>

record captured_batch =
  cb_batchSeq :: int
  cb_recvServerMs :: int
  cb_events :: "string list"

record seat =
  st_sess :: "sess_id option"
  st_playerID :: string
  st_nick :: string
  st_isGuest :: bool
  st_userID :: string
  st_resumeToken :: string
  st_ready :: bool
  st_freemods :: freemods
  st_joinSeq :: nat
  st_status :: status
  st_lastSeq :: int
  st_batches :: "captured_batch list"
  st_eventCount :: nat
  st_finishedAtMs :: int
  st_lastBatchMs :: int
  st_activeBuckets :: int
  st_lastBucket :: int
  st_disconnected :: bool
  st_backlog :: "frame list"
  st_grace :: bool

record match_state =
  m_id :: string
  m_seed :: int
  m_goAtMs :: int
  m_settings :: settings
  m_players :: "countdown_player list"
  m_roster :: "seat_id list"
  m_deadlineAtMs :: int
  m_finishWindow :: bool
  m_ended :: bool

record room =
  r_code :: string
  r_lastActivityMs :: int
  r_idleWarned :: bool
  r_createdAt :: int
  r_settings :: settings
  r_seats :: "seat_id list"
  r_hostID :: string
  r_inMatch :: bool
  r_match :: "match_state option"
  r_nextSeq :: nat

text \<open>
  A session. \<open>s_outbound\<close> is the queue of depth \<open>outboundBuffer\<close> between the senders and the
  writer goroutine, \<open>s_written\<close> what the writer has taken from it, \<open>s_closed\<close> whether the queue
  has been closed, \<open>s_ctxDone\<close> whether the connection's context is cancelled.
\<close>

record session =
  s_authed :: bool
  s_displayName :: string
  s_userID :: string
  s_helloDone :: bool
  s_playerID :: string
  s_resumeToken :: string
  s_room :: "room_id option"
  s_commands :: bucket
  s_batches :: bucket
  s_chats :: bucket
  s_displaced :: bool
  s_outbound :: "frame list"
  s_written :: "frame list"
  s_closed :: bool
  s_ctxDone :: bool

record match_timing =
  t_graceMs :: int
  t_deadlineSlackMs :: int
  t_wordMsPerWord :: int
  t_afkKickShare :: rat
  t_afkWarmupMs :: int
  t_afkTrailingMs :: int
  t_finishWindowMs :: int

record run_snapshot =
  rn_playerID :: string
  rn_nick :: string
  rn_userID :: string
  rn_freemods :: freemods
  rn_status :: status
  rn_batches :: "captured_batch list"

record match_snapshot =
  sn_id :: string
  sn_roomCode :: string
  sn_name :: string
  sn_settings :: settings
  sn_players :: "countdown_player list"
  sn_seed :: int
  sn_dictHash :: string
  sn_lang :: string
  sn_goAtMs :: int
  sn_endedAtMs :: int
  sn_runs :: "run_snapshot list"

record grace_entry =
  g_token :: string
  g_room :: room_id
  g_seat :: seat_id

text \<open>
  The whole transport. \<open>reg_rooms\<close>, \<open>reg_graces\<close>, \<open>reg_users\<close> and \<open>reg_timing\<close> are the fields of
  the \<open>Registry\<close>; \<open>w_persists\<close> are the snapshots handed to \<open>goPersist\<close>, present only when a store
  is configured (\<open>w_hasStore\<close>).
\<close>

record world =
  w_now :: int
  w_sessions :: "sess_id \<Rightarrow> session"
  w_nextSess :: sess_id
  w_seats :: "seat_id \<Rightarrow> seat"
  w_nextSeat :: seat_id
  w_rooms :: "room_id \<Rightarrow> room"
  w_nextRoom :: room_id
  reg_rooms :: "string \<rightharpoonup> room_id"
  reg_graces :: "grace_entry list"
  reg_users :: "string \<rightharpoonup> room_id \<times> seat_id"
  reg_timing :: match_timing
  w_hasStore :: bool
  w_persists :: "match_snapshot list"
  w_panicked :: bool

text \<open>
  What a handler draws from outside: random bytes for codes, nicks, ids, tokens and seeds, the
  Unicode case table, and the moderation store's answer to "is this account restricted".
\<close>

record env =
  e_nicks :: "nat list"
  e_codes :: "nat list list"
  e_matchID :: string
  e_seed :: int
  e_playerID :: string
  e_resumeToken :: string
  e_upper :: "rune \<Rightarrow> rune"
  e_restricted :: "string \<Rightarrow> bool"

section \<open>Constants and constructors\<close>

definition roomCapacity :: nat where "roomCapacity = 5"
definition roomCodeLen :: nat where "roomCodeLen = 6"
definition roomCodeAlphabet :: string where
  "roomCodeAlphabet = ''23456789ABCDEFGHJKLMNPQRSTUVWXYZ''"
definition guestNickLow :: nat where "guestNickLow = 1000"
definition guestNickCount :: nat where "guestNickCount = 9000"
definition countdownLeadMs :: int where "countdownLeadMs = 5000"
definition maxCapturedEvents :: nat where "maxCapturedEvents = 480000"
definition outboundBuffer :: nat where "outboundBuffer = 256"
definition eventBatchMaxBytes :: nat where "eventBatchMaxBytes = 2 ^ 20"
definition roomIdleTimeoutMs :: int where "roomIdleTimeoutMs = 3600000"
definition roomIdleWarningMs :: int where "roomIdleWarningMs = 60000"

definition defaultTiming :: match_timing where
  "defaultTiming =
     \<lparr>t_graceMs = 15000, t_deadlineSlackMs = 30000, t_wordMsPerWord = 3000,
      t_afkKickShare = AfkKickShare, t_afkWarmupMs = AfkWarmupMs, t_afkTrailingMs = AfkTrailingMs,
      t_finishWindowMs = FinishWindowMs\<rparr>"

definition newRoom :: "string \<Rightarrow> int \<Rightarrow> room" where
  "newRoom code now =
     \<lparr>r_code = code, r_lastActivityMs = now, r_idleWarned = False, r_createdAt = now,
      r_settings = DefaultSettings [], r_seats = [], r_hostID = [], r_inMatch = False,
      r_match = None, r_nextSeq = 0\<rparr>"

definition newSession :: "bool \<Rightarrow> string \<Rightarrow> string \<Rightarrow> session" where
  "newSession authed displayName userID =
     \<lparr>s_authed = authed, s_displayName = displayName, s_userID = userID, s_helloDone = False,
      s_playerID = [], s_resumeToken = [], s_room = None, s_commands = bucket_zero,
      s_batches = bucket_zero, s_chats = bucket_zero, s_displaced = False, s_outbound = [],
      s_written = [], s_closed = False, s_ctxDone = False\<rparr>"

definition blankSeat :: seat where
  "blankSeat =
     \<lparr>st_sess = None, st_playerID = [], st_nick = [], st_isGuest = False, st_userID = [],
      st_resumeToken = [], st_ready = False, st_freemods = DefaultFreemods, st_joinSeq = 0,
      st_status = StatusNone, st_lastSeq = 0, st_batches = [], st_eventCount = 0,
      st_finishedAtMs = 0, st_lastBatchMs = 0, st_activeBuckets = 0, st_lastBucket = 0,
      st_disconnected = False, st_backlog = [], st_grace = False\<rparr>"

definition NewRegistry :: "bool \<Rightarrow> int \<Rightarrow> world" where
  "NewRegistry hasStore now =
     \<lparr>w_now = now, w_sessions = (\<lambda>_. newSession False [] []), w_nextSess = 0, w_seats = (\<lambda>_. blankSeat),
      w_nextSeat = 0, w_rooms = (\<lambda>_. newRoom [] now), w_nextRoom = 0, reg_rooms = Map.empty,
      reg_graces = [], reg_users = Map.empty, reg_timing = defaultTiming, w_hasStore = hasStore,
      w_persists = [], w_panicked = False\<rparr>"

section \<open>Updating an object of the store\<close>

definition upd_seat :: "seat_id \<Rightarrow> (seat \<Rightarrow> seat) \<Rightarrow> world \<Rightarrow> world" where
  "upd_seat s f w = w\<lparr>w_seats := (w_seats w)(s := f (w_seats w s))\<rparr>"

definition upd_room :: "room_id \<Rightarrow> (room \<Rightarrow> room) \<Rightarrow> world \<Rightarrow> world" where
  "upd_room r f w = w\<lparr>w_rooms := (w_rooms w)(r := f (w_rooms w r))\<rparr>"

definition upd_sess :: "sess_id \<Rightarrow> (session \<Rightarrow> session) \<Rightarrow> world \<Rightarrow> world" where
  "upd_sess s f w = w\<lparr>w_sessions := (w_sessions w)(s := f (w_sessions w s))\<rparr>"

lemma upd_seat_simps [simp]:
  "w_now (upd_seat s f w) = w_now w" "w_nextSess (upd_seat s f w) = w_nextSess w" "w_sessions (upd_seat s f w) = w_sessions w"
  "w_seats (upd_seat s f w) = (w_seats w)(s := f (w_seats w s))"
  "w_nextSeat (upd_seat s f w) = w_nextSeat w" "w_rooms (upd_seat s f w) = w_rooms w"
  "w_nextRoom (upd_seat s f w) = w_nextRoom w" "reg_rooms (upd_seat s f w) = reg_rooms w"
  "reg_graces (upd_seat s f w) = reg_graces w" "reg_users (upd_seat s f w) = reg_users w"
  "reg_timing (upd_seat s f w) = reg_timing w" "w_hasStore (upd_seat s f w) = w_hasStore w"
  "w_persists (upd_seat s f w) = w_persists w" "w_panicked (upd_seat s f w) = w_panicked w"
  by (simp_all add: upd_seat_def)

lemma upd_room_simps [simp]:
  "w_now (upd_room r f w) = w_now w" "w_nextSess (upd_room r f w) = w_nextSess w" "w_sessions (upd_room r f w) = w_sessions w"
  "w_seats (upd_room r f w) = w_seats w" "w_nextSeat (upd_room r f w) = w_nextSeat w"
  "w_rooms (upd_room r f w) = (w_rooms w)(r := f (w_rooms w r))"
  "w_nextRoom (upd_room r f w) = w_nextRoom w" "reg_rooms (upd_room r f w) = reg_rooms w"
  "reg_graces (upd_room r f w) = reg_graces w" "reg_users (upd_room r f w) = reg_users w"
  "reg_timing (upd_room r f w) = reg_timing w" "w_hasStore (upd_room r f w) = w_hasStore w"
  "w_persists (upd_room r f w) = w_persists w" "w_panicked (upd_room r f w) = w_panicked w"
  by (simp_all add: upd_room_def)

lemma upd_sess_simps [simp]:
  "w_now (upd_sess s f w) = w_now w" "w_nextSess (upd_sess s f w) = w_nextSess w"
  "w_sessions (upd_sess s f w) = (w_sessions w)(s := f (w_sessions w s))"
  "w_seats (upd_sess s f w) = w_seats w" "w_nextSeat (upd_sess s f w) = w_nextSeat w"
  "w_rooms (upd_sess s f w) = w_rooms w" "w_nextRoom (upd_sess s f w) = w_nextRoom w"
  "reg_rooms (upd_sess s f w) = reg_rooms w" "reg_graces (upd_sess s f w) = reg_graces w"
  "reg_users (upd_sess s f w) = reg_users w" "reg_timing (upd_sess s f w) = reg_timing w"
  "w_hasStore (upd_sess s f w) = w_hasStore w" "w_persists (upd_sess s f w) = w_persists w"
  "w_panicked (upd_sess s f w) = w_panicked w"
  by (simp_all add: upd_sess_def)

section \<open>Sending\<close>

text \<open>
  \<open>trySend\<close>: enqueue or drop. A send on a closed channel panics even inside a \<open>select\<close> with a
  default.
\<close>

definition trySend :: "sess_id \<Rightarrow> frame \<Rightarrow> world \<Rightarrow> world" where
  "trySend s msg w =
     (if s_closed (w_sessions w s) then w\<lparr>w_panicked := True\<rparr>
      else if length (s_outbound (w_sessions w s)) < outboundBuffer
      then upd_sess s (\<lambda>x. x\<lparr>s_outbound := s_outbound x @ [msg]\<rparr>) w
      else w)"

text \<open>One iteration of \<open>writeLoop\<close>: the writer takes the oldest frame.\<close>

definition writeLoop_step :: "sess_id \<Rightarrow> world \<Rightarrow> world" where
  "writeLoop_step s w =
     (case s_outbound (w_sessions w s) of
        [] \<Rightarrow> w
      | f # fs \<Rightarrow> upd_sess s (\<lambda>x. x\<lparr>s_outbound := fs, s_written := s_written x @ [f]\<rparr>) w)"

text \<open>
  \<open>send\<close>: on a full queue the sender waits until the writer has made room, or drops the frame
  when the connection's context is done.
\<close>

definition send :: "sess_id \<Rightarrow> frame \<Rightarrow> world \<Rightarrow> world" where
  "send s msg w =
     (if s_closed (w_sessions w s) then w\<lparr>w_panicked := True\<rparr>
      else if length (s_outbound (w_sessions w s)) < outboundBuffer
      then upd_sess s (\<lambda>x. x\<lparr>s_outbound := s_outbound x @ [msg]\<rparr>) w
      else if s_ctxDone (w_sessions w s) then w
      else upd_sess s (\<lambda>x. x\<lparr>s_outbound := s_outbound x @ [msg]\<rparr>) (writeLoop_step s w))"

definition send_all :: "sess_id \<Rightarrow> frame list \<Rightarrow> world \<Rightarrow> world" where
  "send_all s fs w = fold (send s) fs w"

text \<open>Everything a connection has been handed, in order: written, then still queued.\<close>

definition accepted_frames :: "world \<Rightarrow> sess_id \<Rightarrow> frame list" where
  "accepted_frames w s = s_written (w_sessions w s) @ s_outbound (w_sessions w s)"

end
