(* ===== verification/Room_Helpers.thy ===== *)
theory Room_Helpers
  imports World
begin

text \<open>
  The locked helpers of a room: the functions of \<open>internal/ws/room.go\<close>, \<open>room_chat.go\<close>,
  \<open>room_afk.go\<close>, \<open>room_idle.go\<close> and \<open>room_persist.go\<close> that run with the room lock held and that
  the handlers share, the account index of \<open>registry.go\<close> they maintain, and \<open>endMatchLocked\<close>.
  Every function takes the room's address; the lemmas say which part of the store it leaves alone.
\<close>

section \<open>Looking seats up\<close>

abbreviation seats_of :: "world \<Rightarrow> room_id \<Rightarrow> seat_id list" where
  "seats_of w r \<equiv> r_seats (w_rooms w r)"

abbreviation seat_at :: "world \<Rightarrow> seat_id \<Rightarrow> seat" where
  "seat_at w s \<equiv> w_seats w s"

abbreviation match_of :: "world \<Rightarrow> room_id \<Rightarrow> match_state option" where
  "match_of w r \<equiv> r_match (w_rooms w r)"

abbreviation host_of :: "world \<Rightarrow> room_id \<Rightarrow> string" where
  "host_of w r \<equiv> r_hostID (w_rooms w r)"

definition findSeatLocked :: "world \<Rightarrow> room_id \<Rightarrow> sess_id \<Rightarrow> seat_id option" where
  "findSeatLocked w r sess = find_first (\<lambda>s. st_sess (seat_at w s) = Some sess) (seats_of w r)"

definition findSeatByIDLocked :: "world \<Rightarrow> room_id \<Rightarrow> string \<Rightarrow> seat_id option" where
  "findSeatByIDLocked w r pid = find_first (\<lambda>s. st_playerID (seat_at w s) = pid) (seats_of w r)"

fun index_from :: "('a \<Rightarrow> bool) \<Rightarrow> int \<Rightarrow> 'a list \<Rightarrow> int" where
  "index_from P i [] = -1"
| "index_from P i (x # xs) = (if P x then i else index_from P (i + 1) xs)"

definition seatIndexByIDLocked :: "world \<Rightarrow> room_id \<Rightarrow> string \<Rightarrow> int" where
  "seatIndexByIDLocked w r pid =
     index_from (\<lambda>s. st_playerID (seat_at w s) = pid) 0 (seats_of w r)"

definition nickTakenLocked :: "world \<Rightarrow> room_id \<Rightarrow> string \<Rightarrow> bool" where
  "nickTakenLocked w r nick = list_ex (\<lambda>s. st_nick (seat_at w s) = nick) (seats_of w r)"

text \<open>
  \<open>fmt.Sprintf("Guest-%04d", guestNickLow + mrand.IntN(guestNickCount))\<close> for the drawn number.
\<close>

definition guest_nick :: "nat \<Rightarrow> string" where
  "guest_nick d = ''Guest-'' @ nat_digits (guestNickLow + d mod guestNickCount)"

text \<open>
  The loop draws until it finds a free nick. The draws are an input; \<open>None\<close> is a loop that has not
  returned after all of them.
\<close>

fun uniqueGuestNickLocked :: "world \<Rightarrow> room_id \<Rightarrow> nat list \<Rightarrow> string option" where
  "uniqueGuestNickLocked w r [] = None"
| "uniqueGuestNickLocked w r (d # ds) =
     (if \<not> nickTakenLocked w r (guest_nick d) then Some (guest_nick d)
      else uniqueGuestNickLocked w r ds)"

definition identityLocked :: "world \<Rightarrow> room_id \<Rightarrow> sess_id \<Rightarrow> nat list \<Rightarrow> (string \<times> bool) option" where
  "identityLocked w r sess draws =
     (let x = w_sessions w sess in
      if s_authed x \<and> s_displayName x \<noteq> [] then Some (s_displayName x, False)
      else map_option (\<lambda>n. (n, True)) (uniqueGuestNickLocked w r draws))"

section \<open>Frames\<close>

definition deliverLocked :: "seat_id \<Rightarrow> frame \<Rightarrow> world \<Rightarrow> world" where
  "deliverLocked s msg w =
     (case st_sess (seat_at w s) of None \<Rightarrow> w | Some sess \<Rightarrow> trySend sess msg w)"

definition errLocked :: "sess_id \<Rightarrow> err_code \<Rightarrow> string \<Rightarrow> world \<Rightarrow> world" where
  "errLocked sess code message w = trySend sess (NewError code message) w"

definition broadcastPeerStatusLocked :: "room_id \<Rightarrow> string \<Rightarrow> status \<Rightarrow> world \<Rightarrow> world" where
  "broadcastPeerStatusLocked r subjectID status w =
     (case match_of w r of
        None \<Rightarrow> w
      | Some m \<Rightarrow>
          fold (\<lambda>s w.
            if st_playerID (seat_at w s) = subjectID \<and> status \<noteq> StatusFinished then w
            else case st_sess (seat_at w s) of
              None \<Rightarrow> w
            | Some sess \<Rightarrow>
                if st_disconnected (seat_at w s) then w
                else trySend sess (PeerStatus subjectID status) w)
          (m_roster m) w)"

definition player_of :: "seat \<Rightarrow> player" where
  "player_of st =
     \<lparr>p_playerID = st_playerID st, p_nick = st_nick st, p_isGuest = st_isGuest st,
      p_ready = st_ready st, p_freemods = st_freemods st\<rparr>"

definition stateLocked :: "world \<Rightarrow> room_id \<Rightarrow> frame" where
  "stateLocked w r =
     (let x = w_rooms w r in
      RoomState
        \<lparr>rs_code = r_code x, rs_name = Name (r_settings x),
         rs_visibility = Visibility (r_settings x), rs_hostPlayerID = r_hostID x,
         rs_settings = r_settings x, rs_players = map (\<lambda>s. player_of (seat_at w s)) (r_seats x),
         rs_match =
           (case r_match x of
              None \<Rightarrow> None
            | Some m \<Rightarrow>
                if m_ended m then None
                else Some \<lparr>rm_matchID = m_id m, rm_goAtServerMs = m_goAtMs m\<rparr>)\<rparr>)"

definition broadcastStateLocked :: "room_id \<Rightarrow> world \<Rightarrow> world" where
  "broadcastStateLocked r w =
     (let state = stateLocked w r in fold (\<lambda>s. deliverLocked s state) (seats_of w r) w)"

definition systemChatLocked :: "room_id \<Rightarrow> chat_kind \<Rightarrow> string \<Rightarrow> world \<Rightarrow> world" where
  "systemChatLocked r kind txt w =
     (let msg = Chat ChatFromSystem kind txt (w_now w)
      in fold (\<lambda>s. deliverLocked s msg) (seats_of w r) w)"

section \<open>Activity, the account index, seat removal, the host\<close>

definition touchLocked :: "room_id \<Rightarrow> world \<Rightarrow> world" where
  "touchLocked r w = upd_room r (\<lambda>x. x\<lparr>r_lastActivityMs := w_now w, r_idleWarned := False\<rparr>) w"

definition indexSeat :: "room_id \<Rightarrow> seat_id \<Rightarrow> world \<Rightarrow> world" where
  "indexSeat r s w =
     (if st_userID (seat_at w s) = [] then w
      else w\<lparr>reg_users := (reg_users w)(st_userID (seat_at w s) \<mapsto> (r, s))\<rparr>)"

definition unindexSeat :: "seat_id \<Rightarrow> world \<Rightarrow> world" where
  "unindexSeat s w =
     (let u = st_userID (seat_at w s) in
      if u = [] then w
      else case reg_users w u of
        None \<Rightarrow> w
      | Some (_, s') \<Rightarrow> if s' = s then w\<lparr>reg_users := (reg_users w)(u := None)\<rparr> else w)"

definition seatOfUser :: "world \<Rightarrow> string \<Rightarrow> (room_id \<times> seat_id) option" where
  "seatOfUser w u = (if u = [] then None else reg_users w u)"

definition removeSeatLocked :: "room_id \<Rightarrow> nat \<Rightarrow> world \<Rightarrow> world" where
  "removeSeatLocked r idx w =
     upd_room r (\<lambda>x. x\<lparr>r_seats := take idx (r_seats x) @ drop (Suc idx) (r_seats x)\<rparr>)
       (unindexSeat (seats_of w r ! idx) w)"

definition removeFromSeatsLocked :: "room_id \<Rightarrow> seat_id \<Rightarrow> world \<Rightarrow> world" where
  "removeFromSeatsLocked r target w =
     (let i = index_from (\<lambda>s. s = target) 0 (seats_of w r)
      in if i < 0 then w else removeSeatLocked r (nat i) w)"

definition reassignHostLocked :: "room_id \<Rightarrow> world \<Rightarrow> world" where
  "reassignHostLocked r w =
     upd_room r (\<lambda>x. x\<lparr>r_hostID :=
       (case r_seats x of [] \<Rightarrow> [] | s # _ \<Rightarrow> st_playerID (seat_at w s))\<rparr>) w"

definition hostNickLocked :: "world \<Rightarrow> room_id \<Rightarrow> string" where
  "hostNickLocked w r =
     (case findSeatByIDLocked w r (host_of w r) of None \<Rightarrow> [] | Some s \<Rightarrow> st_nick (seat_at w s))"

section \<open>Match end\<close>

definition allTerminalLocked :: "world \<Rightarrow> room_id \<Rightarrow> bool" where
  "allTerminalLocked w r =
     (case match_of w r of
        None \<Rightarrow> False
      | Some m \<Rightarrow> list_all (\<lambda>s. st_status (seat_at w s) \<noteq> seatActive) (m_roster m))"

definition afkAtLocked :: "seat \<Rightarrow> int \<Rightarrow> int \<Rightarrow> int \<times> rat" where
  "afkAtLocked st goAtMs endMs =
     (let b = go_div (endMs - goAtMs) AfkBucketMs in
      if b \<le> 0 then (0, 0)
      else let idle = (if b - st_activeBuckets st < 0 then 0 else b - st_activeBuckets st)
           in (idle * AfkBucketMs, of_int idle / of_int b))"

definition final_status :: "status \<Rightarrow> status" where
  "final_status st = (if st = seatActive then StatusDNF else st)"

definition snapshotLocked :: "world \<Rightarrow> room_id \<Rightarrow> match_state \<Rightarrow> match_snapshot" where
  "snapshotLocked w r m =
     \<lparr>sn_id = m_id m, sn_roomCode = r_code (w_rooms w r), sn_name = Name (m_settings m),
      sn_settings = m_settings m, sn_players = m_players m, sn_seed = m_seed m,
      sn_dictHash = DictHash (m_settings m), sn_lang = Lang (m_settings m),
      sn_goAtMs = m_goAtMs m, sn_endedAtMs = w_now w,
      sn_runs = map (\<lambda>s. let st = seat_at w s in
        \<lparr>rn_playerID = st_playerID st, rn_nick = st_nick st, rn_userID = st_userID st,
         rn_freemods = st_freemods st, rn_status = final_status (st_status st),
         rn_batches = st_batches st\<rparr>) (m_roster m)\<rparr>"

definition match_result_of :: "seat \<Rightarrow> int \<Rightarrow> int \<Rightarrow> match_result" where
  "match_result_of st goAtMs endedAtMs =
     (let status = final_status (st_status st);
          windowEnd = (if status = StatusFinished \<and> st_finishedAtMs st > 0
                       then st_finishedAtMs st else endedAtMs);
          afk = afkAtLocked st goAtMs windowEnd
      in \<lparr>mr_playerID = st_playerID st, mr_status = status,
          mr_finishedAtMs = (if status = StatusFinished then Some (st_finishedAtMs st) else None),
          mr_batchCount = length (st_batches st), mr_eventCount = st_eventCount st,
          mr_afkMs = fst afk, mr_afkShare = snd afk\<rparr>)"

definition match_end_frame :: "world \<Rightarrow> match_state \<Rightarrow> end_reason \<Rightarrow> frame" where
  "match_end_frame w m reason =
     MatchEnd (m_id m) reason
       (map (\<lambda>s. match_result_of (seat_at w s) (m_goAtMs m) (w_now w)) (m_roster m))"

text \<open>The three loops of \<open>endMatchLocked\<close>: the announcement, the reset and the reap.\<close>

definition announce_end :: "room_id \<Rightarrow> frame \<Rightarrow> seat_id \<Rightarrow> world \<Rightarrow> world" where
  "announce_end r msg s w =
     (case st_sess (seat_at w s) of
        Some sess \<Rightarrow> trySend sess msg w
      | None \<Rightarrow>
          if st_disconnected (seat_at w s) \<and> seatIndexByIDLocked w r (st_playerID (seat_at w s)) \<ge> 0
          then upd_seat s (\<lambda>st. st\<lparr>st_backlog := st_backlog st @ [msg]\<rparr>) w
          else w)"

definition reset_seat :: "seat_id \<Rightarrow> world \<Rightarrow> world" where
  "reset_seat s w =
     upd_seat s (\<lambda>st. st\<lparr>st_ready := False, st_status := StatusNone, st_lastSeq := 0,
       st_batches := [], st_backlog := (if st_disconnected st then st_backlog st else [])\<rparr>) w"

definition reap_at :: "room_id \<Rightarrow> nat \<Rightarrow> world \<Rightarrow> world" where
  "reap_at r i w =
     (let st = seat_at w (seats_of w r ! i)
      in if st_sess st = None \<and> \<not> st_disconnected st then removeSeatLocked r i w else w)"

text \<open>
  \<open>endMatchLocked\<close> marks the match ended and hands its snapshot to the store, announces the end
  to the roster and clears the match, resets the remaining seats and reaps the dead ones, picks a
  new host when the host is gone, and broadcasts the lobby.
\<close>

definition end_persist :: "room_id \<Rightarrow> match_state \<Rightarrow> world \<Rightarrow> world" where
  "end_persist r m w =
     (let w1 = upd_room r (\<lambda>x. x\<lparr>r_match := Some (m\<lparr>m_ended := True\<rparr>)\<rparr>) w;
          snap = snapshotLocked w1 r m
      in if w_hasStore w1 then w1\<lparr>w_persists := w_persists w1 @ [snap]\<rparr> else w1)"

definition end_announce :: "room_id \<Rightarrow> match_state \<Rightarrow> end_reason \<Rightarrow> world \<Rightarrow> world" where
  "end_announce r m reason w =
     (let msg = match_end_frame w m reason
      in upd_room r (\<lambda>x. x\<lparr>r_match := None, r_inMatch := False\<rparr>)
           (fold (announce_end r msg) (m_roster m) w))"

definition end_cleanup :: "room_id \<Rightarrow> world \<Rightarrow> world" where
  "end_cleanup r w =
     (let w1 = fold reset_seat (seats_of w r) w
      in fold (reap_at r) (rev [0..<length (seats_of w1 r)]) w1)"

definition end_rehost :: "room_id \<Rightarrow> world \<Rightarrow> world" where
  "end_rehost r w =
     (if findSeatByIDLocked w r (host_of w r) = None then reassignHostLocked r w else w)"

definition endMatchLocked :: "room_id \<Rightarrow> end_reason \<Rightarrow> world \<Rightarrow> world" where
  "endMatchLocked r reason w =
     (case match_of w r of
        None \<Rightarrow> w
      | Some m \<Rightarrow>
          if m_ended m then w
          else
            let w1 = end_announce r m reason (end_persist r m w);
                w2 = end_rehost r (end_cleanup r w1)
            in if seats_of w2 r \<noteq> [] then broadcastStateLocked r w2 else w2)"

end
