(* ===== verification/Room_Ops.thy ===== *)
theory Room_Ops
  imports Room_Helpers
begin

text \<open>
  The handlers of a room (\<open>internal/ws/room.go\<close>, \<open>room_chat.go\<close>): seating, leaving, the
  displacement and release of a seat by its account, the lobby commands, connection drops and the
  reconnect path. A handler that follows its critical section with \<open>reg.removeIfEmpty\<close> or
  \<open>reg.removeGrace\<close> is given in two parts, the locked body here and the registry call after it,
  so that both the composed handler and an interleaving in between can be stated.
\<close>

section \<open>Seating and leaving\<close>

definition seat_for :: "session \<Rightarrow> sess_id \<Rightarrow> string \<Rightarrow> bool \<Rightarrow> nat \<Rightarrow> seat" where
  "seat_for x sess nick isGuest sq =
     blankSeat\<lparr>st_sess := Some sess, st_playerID := s_playerID x, st_nick := nick,
       st_isGuest := isGuest, st_userID := s_userID x, st_resumeToken := s_resumeToken x,
       st_freemods := DefaultFreemods, st_joinSeq := sq\<rparr>"

text \<open>\<open>Room.seat\<close>: \<open>Some (w', True)\<close> when seated, \<open>Some (w, False)\<close> when the room is full.\<close>

definition Room_seat :: "room_id \<Rightarrow> sess_id \<Rightarrow> bool \<Rightarrow> nat list \<Rightarrow> world \<Rightarrow> (world \<times> bool) option" where
  "Room_seat r sess asHost draws w =
     (if length (seats_of w r) \<ge> roomCapacity then Some (w, False)
      else case identityLocked w r sess draws of
        None \<Rightarrow> None
      | Some (nick, isGuest) \<Rightarrow>
          let s = w_nextSeat w;
              st = seat_for (w_sessions w sess) sess nick isGuest (r_nextSeq (w_rooms w r));
              w1 = (upd_seat s (\<lambda>_. st) w)\<lparr>w_nextSeat := Suc s\<rparr>;
              w2 = upd_room r (\<lambda>x. x\<lparr>r_nextSeq := Suc (r_nextSeq x), r_seats := r_seats x @ [s]\<rparr>) w1;
              w3 = indexSeat r s (touchLocked r w2);
              w4 = (if asHost then upd_room r (\<lambda>x. x\<lparr>r_hostID := s_playerID (w_sessions w sess)\<rparr>) w3
                    else w3);
              w5 = broadcastStateLocked r w4
          in Some (if \<not> asHost then systemChatLocked r ChatKindJoin (nick @ '' joined'') w5 else w5,
                   True))"

text \<open>
  Three steps that \<open>leaveSeatLocked\<close> and the grace expiry have in common: whether the seat holds
  the host role, its removal with the reassignment of the role, and the announcement to whoever
  is left.
\<close>

definition is_host :: "world \<Rightarrow> room_id \<Rightarrow> seat_id \<Rightarrow> bool" where
  "is_host w r s \<longleftrightarrow> st_playerID (seat_at w s) = host_of w r"

definition vacate :: "room_id \<Rightarrow> seat_id \<Rightarrow> world \<Rightarrow> world" where
  "vacate r s w =
     (let wasHost = is_host w r s; w1 = removeFromSeatsLocked r s w
      in if wasHost then reassignHostLocked r w1 else w1)"

definition announce_leave :: "room_id \<Rightarrow> string \<Rightarrow> bool \<Rightarrow> world \<Rightarrow> world" where
  "announce_leave r nick wasHost w =
     (if seats_of w r \<noteq> []
      then let w1 = broadcastStateLocked r w;
               w2 = systemChatLocked r ChatKindLeave (nick @ '' left'') w1
           in if wasHost
              then systemChatLocked r ChatKindHostChanged (hostNickLocked w2 r @ '' is now host'') w2
              else w2
      else w)"

definition leaveSeatLocked :: "room_id \<Rightarrow> seat_id \<Rightarrow> world \<Rightarrow> world" where
  "leaveSeatLocked r s w =
     (let midMatch = (match_of w r \<noteq> None \<and> st_status (seat_at w s) = seatActive);
          pid = st_playerID (seat_at w s);
          nick = st_nick (seat_at w s);
          w1 = (if midMatch
                then upd_seat s (\<lambda>st. st\<lparr>st_status := StatusLeft, st_sess := None\<rparr>) w else w);
          wasHost = is_host w1 r s;
          w2 = vacate r s w1;
          w3 = (if midMatch then broadcastPeerStatusLocked r pid StatusLeft w2 else w2);
          w4 = announce_leave r nick wasHost w3
      in if match_of w4 r \<noteq> None \<and> allTerminalLocked w4 r
         then endMatchLocked r ReasonAllFinished w4 else w4)"

text \<open>The critical section of \<open>Room.leave\<close>; \<open>removeIfEmpty\<close> follows it off the room lock.\<close>

definition Room_leave_locked :: "room_id \<Rightarrow> sess_id \<Rightarrow> world \<Rightarrow> world" where
  "Room_leave_locked r sess w =
     (case findSeatLocked w r sess of None \<Rightarrow> w | Some s \<Rightarrow> leaveSeatLocked r s w)"

section \<open>Displacement by a newer connection of the account\<close>

definition session_displace :: "sess_id \<Rightarrow> world \<Rightarrow> world" where
  "session_displace sess w =
     (if s_displaced (w_sessions w sess) then w
      else trySend sess
             (NewError CodeSeatTakenOver ''this account took the seat on another connection'')
             (upd_sess sess (\<lambda>x. x\<lparr>s_displaced := True\<rparr>) w))"

definition displaceLocked :: "sess_id option \<Rightarrow> world \<Rightarrow> world" where
  "displaceLocked old w = (case old of None \<Rightarrow> w | Some sess \<Rightarrow> session_displace sess w)"

definition Room_detachSeat :: "room_id \<Rightarrow> seat_id \<Rightarrow> world \<Rightarrow> world" where
  "Room_detachSeat r s w =
     (if seatIndexByIDLocked w r (st_playerID (seat_at w s)) < 0 \<or> st_sess (seat_at w s) = None
      then w
      else
        let old = st_sess (seat_at w s);
            w1 = upd_seat s (\<lambda>st. st\<lparr>st_sess := None, st_disconnected := True\<rparr>) w;
            w2 = (if match_of w1 r \<noteq> None \<and> st_status (seat_at w1 s) = seatActive
                  then broadcastPeerStatusLocked r (st_playerID (seat_at w1 s)) StatusDisconnected w1
                  else w1)
        in displaceLocked old w2)"

definition Room_releaseSeat :: "room_id \<Rightarrow> seat_id \<Rightarrow> world \<Rightarrow> world \<times> bool" where
  "Room_releaseSeat r s w =
     (if seatIndexByIDLocked w r (st_playerID (seat_at w s)) < 0 then (w, True)
      else if match_of w r \<noteq> None \<and> st_status (seat_at w s) = seatActive then (w, False)
      else
        let old = st_sess (seat_at w s)
        in (displaceLocked old (leaveSeatLocked r s w), True))"

definition Room_full :: "world \<Rightarrow> room_id \<Rightarrow> bool" where
  "Room_full w r \<longleftrightarrow> length (seats_of w r) \<ge> roomCapacity"

definition Room_hasSeat :: "world \<Rightarrow> room_id \<Rightarrow> sess_id \<Rightarrow> bool" where
  "Room_hasSeat w r sess \<longleftrightarrow> findSeatLocked w r sess \<noteq> None"

definition Room_empty :: "world \<Rightarrow> room_id \<Rightarrow> bool" where
  "Room_empty w r \<longleftrightarrow> seats_of w r = []"

section \<open>Connection drops and reconnects\<close>

definition addGrace :: "string \<Rightarrow> room_id \<Rightarrow> seat_id \<Rightarrow> world \<Rightarrow> world" where
  "addGrace token r s w =
     w\<lparr>reg_graces := reg_graces w @ [\<lparr>g_token = token, g_room = r, g_seat = s\<rparr>]\<rparr>"

text \<open>
  \<open>Room.disconnect\<close>: the first critical section, the registration of the resume token off the
  room lock, the second critical section that arms the grace timer.
\<close>

definition disconnect_detach :: "room_id \<Rightarrow> seat_id \<Rightarrow> world \<Rightarrow> world" where
  "disconnect_detach r s w =
     (let w1 = upd_seat s (\<lambda>st. st\<lparr>st_sess := None, st_disconnected := True\<rparr>) w
      in if match_of w1 r \<noteq> None \<and> st_status (seat_at w1 s) = seatActive
         then broadcastPeerStatusLocked r (st_playerID (seat_at w1 s)) StatusDisconnected w1
         else w1)"

definition disconnect_arm :: "seat_id \<Rightarrow> world \<Rightarrow> world" where
  "disconnect_arm s w =
     (if st_disconnected (seat_at w s) \<and> st_sess (seat_at w s) = None
      then upd_seat s (\<lambda>st. st\<lparr>st_grace := True\<rparr>) w else w)"

definition Room_disconnect :: "room_id \<Rightarrow> sess_id \<Rightarrow> world \<Rightarrow> world \<times> bool" where
  "Room_disconnect r sess w =
     (case findSeatLocked w r sess of
        None \<Rightarrow> (w, False)
      | Some s \<Rightarrow>
          let w1 = disconnect_detach r s w
          in (disconnect_arm s (addGrace (st_resumeToken (seat_at w1 s)) r s w1), True))"

text \<open>
  \<open>Room.reattach\<close>: \<open>reattach_begin\<close> is the first critical section and the two frames after it,
  \<open>reattach_drain\<close> one turn of the drain loop at a time until the backlog is empty.
\<close>

definition reattach_begin :: "room_id \<Rightarrow> sess_id \<Rightarrow> seat_id \<Rightarrow> world \<Rightarrow> world" where
  "reattach_begin r sess s w =
     (let w1 = upd_seat s (\<lambda>st. st\<lparr>st_sess := Some sess, st_grace := False\<rparr>) w;
          state = stateLocked w1 r;
          st = seat_at w1 s
      in send sess state (send sess (HelloOK (st_playerID st) (st_resumeToken st)) w1))"

definition reattach_live :: "room_id \<Rightarrow> seat_id \<Rightarrow> bool \<Rightarrow> world \<Rightarrow> world" where
  "reattach_live r s midMatch w =
     (let w1 = upd_seat s (\<lambda>st. st\<lparr>st_disconnected := False\<rparr>) w
      in if midMatch
         then broadcastPeerStatusLocked r (st_playerID (seat_at w1 s)) StatusReconnected
                (upd_seat s (\<lambda>st. st\<lparr>st_lastBatchMs := w_now w1\<rparr>) w1)
         else w1)"

lemma send_seats [frame_simps]: "w_seats (send s m w) = w_seats w"
  by (auto simp: send_def writeLoop_step_def split: list.splits)

lemma send_all_seats [frame_simps]: "w_seats (send_all s fs w) = w_seats w"
  unfolding send_all_def by (rule fold_preserves) (rule send_seats)

function reattach_drain :: "room_id \<Rightarrow> sess_id \<Rightarrow> seat_id \<Rightarrow> bool \<Rightarrow> world \<Rightarrow> world" where
  "reattach_drain r sess s midMatch w =
     (if st_backlog (seat_at w s) = [] then reattach_live r s midMatch w
      else
        let pending = st_backlog (seat_at w s);
            w1 = send_all sess pending (upd_seat s (\<lambda>st. st\<lparr>st_backlog := []\<rparr>) w)
        in if s_ctxDone (w_sessions w1 sess) then w1
           else reattach_drain r sess s midMatch w1)"
  by pat_completeness auto
termination
  by (relation "measure (\<lambda>(r, sess, s, midMatch, w). length (st_backlog (seat_at w s)))")
    (auto simp: send_all_seats)

declare reattach_drain.simps [simp del]

definition Room_reattach :: "room_id \<Rightarrow> sess_id \<Rightarrow> seat_id \<Rightarrow> world \<Rightarrow> world \<times> bool" where
  "Room_reattach r sess s w =
     (if \<not> st_disconnected (seat_at w s) \<or> seatIndexByIDLocked w r (st_playerID (seat_at w s)) < 0
      then (w, False)
      else
        let midMatch = (match_of w r \<noteq> None \<and> st_status (seat_at w s) = seatActive)
        in (reattach_drain r sess s midMatch (reattach_begin r sess s w), True))"

section \<open>Lobby commands\<close>

definition Room_ready :: "room_id \<Rightarrow> sess_id \<Rightarrow> bool \<Rightarrow> world \<Rightarrow> world" where
  "Room_ready r sess value w =
     (case findSeatLocked w r sess of
        None \<Rightarrow> errLocked sess CodeNotInRoom ''not in a room'' w
      | Some s \<Rightarrow>
          if r_inMatch (w_rooms w r)
          then errLocked sess CodeBadMessage ''cannot change readiness during a match'' w
          else if st_ready (seat_at w s) = value then w
          else broadcastStateLocked r
                 (touchLocked r (upd_seat s (\<lambda>st. st\<lparr>st_ready := value\<rparr>) w)))"

definition Room_updateSettings :: "room_id \<Rightarrow> sess_id \<Rightarrow> settings \<Rightarrow> world \<Rightarrow> world" where
  "Room_updateSettings r sess ns0 w =
     (case findSeatLocked w r sess of
        None \<Rightarrow> errLocked sess CodeNotInRoom ''not in a room'' w
      | Some s \<Rightarrow>
          if st_playerID (seat_at w s) \<noteq> host_of w r
          then errLocked sess CodeForbidden ''only the host can change settings'' w
          else if r_inMatch (w_rooms w r)
          then errLocked sess CodeBadMessage ''cannot change settings during a match'' w
          else
            let ns = ns0\<lparr>Name := SanitizeRoomName (Name ns0)\<rparr>
            in case ValidateSettings ns of
              Some e \<Rightarrow> errLocked sess CodeBadMessage e w
            | None \<Rightarrow>
                let w1 = upd_room r (\<lambda>x. x\<lparr>r_settings := ns\<rparr>) w;
                    w2 = fold (\<lambda>t. upd_seat t (\<lambda>st. st\<lparr>st_ready := False\<rparr>)) (seats_of w1 r) w1
                in systemChatLocked r ChatKindSettings ''settings changed''
                     (broadcastStateLocked r (touchLocked r w2)))"

definition Room_setFreemods :: "room_id \<Rightarrow> sess_id \<Rightarrow> freemods \<Rightarrow> world \<Rightarrow> world" where
  "Room_setFreemods r sess fm w =
     (case findSeatLocked w r sess of
        None \<Rightarrow> errLocked sess CodeNotInRoom ''not in a room'' w
      | Some s \<Rightarrow>
          if r_inMatch (w_rooms w r)
          then errLocked sess CodeBadMessage ''cannot change freemods during a match'' w
          else case ValidateFreemods fm of
            Some e \<Rightarrow> errLocked sess CodeBadMessage e w
          | None \<Rightarrow>
              broadcastStateLocked r
                (touchLocked r (upd_seat s (\<lambda>st. st\<lparr>st_freemods := fm\<rparr>) w)))"

definition Room_kick :: "room_id \<Rightarrow> sess_id \<Rightarrow> string \<Rightarrow> world \<Rightarrow> world" where
  "Room_kick r sess targetID w =
     (case findSeatLocked w r sess of
        None \<Rightarrow> errLocked sess CodeNotInRoom ''not in a room'' w
      | Some s \<Rightarrow>
          if st_playerID (seat_at w s) \<noteq> host_of w r
          then errLocked sess CodeForbidden ''only the host can kick'' w
          else if r_inMatch (w_rooms w r)
          then errLocked sess CodeForbidden ''cannot kick during a match'' w
          else
            let idx = seatIndexByIDLocked w r targetID
            in if idx < 0 then errLocked sess CodeBadMessage ''no such player'' w
               else
                 let target = seats_of w r ! nat idx;
                     nick = st_nick (seat_at w target)
                 in if st_playerID (seat_at w target) = host_of w r
                    then errLocked sess CodeBadMessage ''cannot kick yourself'' w
                    else
                      let w1 = touchLocked r (removeSeatLocked r (nat idx) w);
                          w2 = deliverLocked target Kicked w1
                      in systemChatLocked r ChatKindLeave (nick @ '' left'')
                           (broadcastStateLocked r w2))"

definition Room_transferHost :: "room_id \<Rightarrow> sess_id \<Rightarrow> string \<Rightarrow> world \<Rightarrow> world" where
  "Room_transferHost r sess targetID w =
     (case findSeatLocked w r sess of
        None \<Rightarrow> errLocked sess CodeNotInRoom ''not in a room'' w
      | Some s \<Rightarrow>
          if st_playerID (seat_at w s) \<noteq> host_of w r
          then errLocked sess CodeForbidden ''only the host can transfer the host role'' w
          else if r_inMatch (w_rooms w r)
          then errLocked sess CodeBadMessage ''cannot transfer the host role during a match'' w
          else case findSeatByIDLocked w r targetID of
            None \<Rightarrow> errLocked sess CodeBadMessage ''no such player'' w
          | Some t \<Rightarrow>
              if st_playerID (seat_at w t) = host_of w r then broadcastStateLocked r w
              else
                let w1 = touchLocked r
                           (upd_room r (\<lambda>x. x\<lparr>r_hostID := st_playerID (seat_at w t)\<rparr>) w)
                in systemChatLocked r ChatKindHostChanged (st_nick (seat_at w t) @ '' is now host'')
                     (broadcastStateLocked r w1))"

definition Room_chat :: "room_id \<Rightarrow> sess_id \<Rightarrow> string \<Rightarrow> world \<Rightarrow> world" where
  "Room_chat r sess txt0 w =
     (case findSeatLocked w r sess of
        None \<Rightarrow> errLocked sess CodeNotInRoom ''not in a room'' w
      | Some s \<Rightarrow>
          let txt = TrimSpace txt0;
              n = RuneCountInString txt
          in if n < ChatTextMinLen \<or> n > ChatTextMaxLen
             then errLocked sess CodeBadMessage ''chat text must be 1-200 characters'' w
             else
               let (b, ok) = bucket_allow (s_chats (w_sessions w sess)) (ms (w_now w))
                               chatBurst chatRefill;
                   w1 = upd_sess sess (\<lambda>x. x\<lparr>s_chats := b\<rparr>) w
               in if \<not> ok then errLocked sess CodeRateLimited ''chat rate limit exceeded'' w1
                  else
                    let w2 = touchLocked r w1;
                        msg = Chat (st_playerID (seat_at w2 s)) ChatKindNone txt (w_now w2)
                    in fold (\<lambda>t. deliverLocked t msg) (seats_of w2 r) w2)"

section \<open>Grace expiry\<close>

text \<open>The critical section of \<open>onGraceExpire\<close>; \<open>removeGrace\<close> and \<open>removeIfEmpty\<close> follow it.\<close>

definition onGraceExpire_locked :: "room_id \<Rightarrow> seat_id \<Rightarrow> world \<Rightarrow> world" where
  "onGraceExpire_locked r s w =
     (let st = seat_at w s; pid = st_playerID st; nick = st_nick st in
      if st_sess st = None \<and> st_disconnected st \<and> seatIndexByIDLocked w r pid \<ge> 0
      then
        if match_of w r \<noteq> None \<and> st_status st = seatActive
        then
          let w1 = upd_seat s (\<lambda>st. st\<lparr>st_status := StatusDNF\<rparr>) w;
              w2 = broadcastPeerStatusLocked r pid StatusDNF w1;
              wasHost = is_host w2 r s;
              w3 = vacate r s w2
          in if allTerminalLocked w3 r then endMatchLocked r ReasonAllFinished w3
             else if seats_of w3 r \<noteq> []
             then let v = broadcastStateLocked r w3
                  in if wasHost
                     then systemChatLocked r ChatKindHostChanged
                            (hostNickLocked v r @ '' is now host'') v
                     else v
             else w3
        else
          let w1 = upd_seat s (\<lambda>st. st\<lparr>st_disconnected := False\<rparr>) w
          in announce_leave r nick (is_host w1 r s) (vacate r s w1)
      else w)"

end
