(* ===== verification/Match_Ops.thy ===== *)
theory Match_Ops
  imports Room_Ops
begin

text \<open>
  The match machinery of a room (\<open>internal/ws/room_match.go\<close>, \<open>room_afk.go\<close>) and the idle
  classification (\<open>room_idle.go\<close>): starting a match, relaying event batches, finishing, the
  deadline, the finish window and the AFK sweep. The timer callbacks are the locked bodies; the
  registry clean-up after them is in the registry theory.
\<close>

section \<open>Starting a match\<close>

definition matchDurationMs :: "match_timing \<Rightarrow> settings \<Rightarrow> int" where
  "matchDurationMs t s =
     (if IsCounted (Mode s) then WordCount s * t_wordMsPerWord t else DurationMs s)"

definition enter_match :: "int \<Rightarrow> seat_id \<Rightarrow> world \<Rightarrow> world" where
  "enter_match goAt s w =
     upd_seat s (\<lambda>st. st\<lparr>st_status := seatActive, st_lastSeq := 0, st_batches := [],
       st_eventCount := 0, st_finishedAtMs := 0, st_lastBatchMs := goAt, st_activeBuckets := 0,
       st_lastBucket := -1, st_disconnected := (st_sess st = None), st_backlog := []\<rparr>) w"

definition start_match :: "room_id \<Rightarrow> env \<Rightarrow> world \<Rightarrow> world" where
  "start_match r e w =
     (let stg = r_settings (w_rooms w r);
          goAt = w_now w + countdownLeadMs;
          seats = seats_of w r;
          w1 = touchLocked r (fold (enter_match goAt) seats w);
          players = map (\<lambda>s. \<lparr>cp_playerID = st_playerID (seat_at w1 s),
                              cp_freemods = st_freemods (seat_at w1 s)\<rparr>) seats;
          m = \<lparr>m_id = e_matchID e, m_seed = e_seed e, m_goAtMs = goAt, m_settings = stg,
               m_players = players, m_roster = seats,
               m_deadlineAtMs = goAt + matchDurationMs (reg_timing w) stg
                                + t_deadlineSlackMs (reg_timing w),
               m_finishWindow = False, m_ended = False\<rparr>;
          w2 = upd_room r (\<lambda>x. x\<lparr>r_match := Some m, r_inMatch := True\<rparr>) w1;
          cd = Countdown \<lparr>cd_matchID = e_matchID e, cd_goAtServerMs = goAt, cd_seed = e_seed e,
                          cd_settings = stg, cd_players = players\<rparr>
      in fold (\<lambda>s. deliverLocked s cd) (seats_of w2 r) w2)"

definition Room_startMatch :: "room_id \<Rightarrow> sess_id \<Rightarrow> bool \<Rightarrow> env \<Rightarrow> world \<Rightarrow> world" where
  "Room_startMatch r sess force e w =
     (case findSeatLocked w r sess of
        None \<Rightarrow> errLocked sess CodeNotInRoom ''not in a room'' w
      | Some s \<Rightarrow>
          if st_playerID (seat_at w s) \<noteq> host_of w r
          then errLocked sess CodeForbidden ''only the host can start the match'' w
          else if r_inMatch (w_rooms w r)
          then errLocked sess CodeForbidden ''a match is already running'' w
          else if length (seats_of w r) < 2
          then errLocked sess CodeNotReady ''need at least two players'' w
          else if \<not> force \<and> list_ex (\<lambda>t. st_playerID (seat_at w t) \<noteq> host_of w r \<and>
                                        \<not> st_ready (seat_at w t)) (seats_of w r)
          then errLocked sess CodeNotReady ''all players must be ready'' w
          else start_match r e w)"

section \<open>Relaying and capturing events\<close>

record event_batch =
  eb_matchID :: string
  eb_playerID :: string
  eb_batchSeq :: int
  eb_version :: int
  eb_events :: "string list"

definition capture_batch :: "event_batch \<Rightarrow> int \<Rightarrow> int \<Rightarrow> seat \<Rightarrow> seat" where
  "capture_batch eb recvMs goAtMs st =
     (let b = go_div (recvMs - goAtMs) AfkBucketMs;
          st1 = st\<lparr>st_lastSeq := eb_batchSeq eb,
                   st_batches := st_batches st @ [\<lparr>cb_batchSeq = eb_batchSeq eb,
                     cb_recvServerMs = recvMs, cb_events = eb_events eb\<rparr>],
                   st_eventCount := st_eventCount st + length (eb_events eb),
                   st_lastBatchMs := recvMs\<rparr>
      in if b > st_lastBucket st
         then st1\<lparr>st_lastBucket := b, st_activeBuckets := st_activeBuckets st + 1\<rparr> else st1)"

definition relay_to :: "frame \<Rightarrow> seat_id \<Rightarrow> seat_id \<Rightarrow> world \<Rightarrow> world" where
  "relay_to pb sender other w =
     (if other = sender then w
      else if st_disconnected (seat_at w other)
      then upd_seat other (\<lambda>st. st\<lparr>st_backlog := st_backlog st @ [pb]\<rparr>) w
      else case st_sess (seat_at w other) of None \<Rightarrow> w | Some sess \<Rightarrow> trySend sess pb w)"

definition Room_relayEventBatch :: "room_id \<Rightarrow> sess_id \<Rightarrow> event_batch \<Rightarrow> int \<Rightarrow> world \<Rightarrow> world" where
  "Room_relayEventBatch r sess eb recvMs w =
     (case findSeatLocked w r sess of
        None \<Rightarrow> errLocked sess CodeNotInRoom ''not in a room'' w
      | Some s \<Rightarrow>
          (case match_of w r of
             None \<Rightarrow> errLocked sess CodeBadMessage ''no active match'' w
           | Some m \<Rightarrow>
               if eb_matchID eb \<noteq> m_id m then errLocked sess CodeBadMessage ''unknown match'' w
               else if st_status (seat_at w s) \<noteq> seatActive
               then errLocked sess CodeBadMessage ''not an active participant'' w
               else if eb_events eb = []
               then errLocked sess CodeBadMessage ''event_batch has no events'' w
               else if eb_batchSeq eb \<noteq> st_lastSeq (seat_at w s) + 1
               then errLocked sess CodeBadMessage
                      (''batchSeq '' @ Itoa (eb_batchSeq eb) @ '' out of order (expected '' @
                       Itoa (st_lastSeq (seat_at w s) + 1) @ '')'') w
               else if st_eventCount (seat_at w s) + length (eb_events eb) > maxCapturedEvents
               then errLocked sess CodeBadMessage ''event capture limit exceeded'' w
               else
                 let w1 = upd_seat s (capture_batch eb recvMs (m_goAtMs m)) (touchLocked r w);
                     pb = PeerBatch (st_playerID (seat_at w1 s)) (eb_version eb) (eb_events eb)
                 in fold (relay_to pb s) (m_roster m) w1))"

section \<open>Finishing\<close>

definition end_if_all_terminal :: "room_id \<Rightarrow> world \<Rightarrow> world" where
  "end_if_all_terminal r w =
     (if allTerminalLocked w r then endMatchLocked r ReasonAllFinished w else w)"

definition Room_finish :: "room_id \<Rightarrow> sess_id \<Rightarrow> string \<Rightarrow> bool \<Rightarrow> world \<Rightarrow> world" where
  "Room_finish r sess matchID forfeit w =
     (case findSeatLocked w r sess of
        None \<Rightarrow> errLocked sess CodeNotInRoom ''not in a room'' w
      | Some s \<Rightarrow>
          (case match_of w r of
             None \<Rightarrow> errLocked sess CodeBadMessage ''unknown match'' w
           | Some m \<Rightarrow>
               if matchID \<noteq> m_id m then errLocked sess CodeBadMessage ''unknown match'' w
               else if st_status (seat_at w s) \<noteq> seatActive
               then errLocked sess CodeBadMessage ''already finished'' w
               else
                 let pid = st_playerID (seat_at w s) in
                 if forfeit
                 then end_if_all_terminal r
                        (broadcastPeerStatusLocked r pid StatusDNF
                          (upd_seat s (\<lambda>st. st\<lparr>st_status := StatusDNF\<rparr>) w))
                 else
                   let w1 = upd_seat s (\<lambda>st. st\<lparr>st_status := StatusFinished,
                              st_finishedAtMs := w_now w\<rparr>) w;
                       w2 = broadcastPeerStatusLocked r pid StatusFinished w1
                   in if allTerminalLocked w2 r then endMatchLocked r ReasonAllFinished w2
                      else if IsCounted (Mode (m_settings m)) \<and> \<not> m_finishWindow m
                      then upd_room r (\<lambda>x. x\<lparr>r_match :=
                             map_option (\<lambda>m. m\<lparr>m_finishWindow := True\<rparr>) (r_match x)\<rparr>) w2
                      else w2))"

section \<open>Timers\<close>

definition dnf_active :: "room_id \<Rightarrow> seat_id \<Rightarrow> world \<Rightarrow> world" where
  "dnf_active r s w =
     (if st_status (seat_at w s) = seatActive
      then broadcastPeerStatusLocked r (st_playerID (seat_at w s)) StatusDNF
             (upd_seat s (\<lambda>st. st\<lparr>st_status := StatusDNF\<rparr>) w)
      else w)"

definition force_end :: "room_id \<Rightarrow> string \<Rightarrow> end_reason \<Rightarrow> world \<Rightarrow> world" where
  "force_end r matchID reason w =
     (case match_of w r of
        None \<Rightarrow> w
      | Some m \<Rightarrow>
          if m_id m \<noteq> matchID \<or> m_ended m then w
          else endMatchLocked r reason (fold (dnf_active r) (m_roster m) w))"

definition onDeadline_locked :: "room_id \<Rightarrow> string \<Rightarrow> world \<Rightarrow> world" where
  "onDeadline_locked r matchID w = force_end r matchID ReasonDeadline w"

definition onFinishWindow_locked :: "room_id \<Rightarrow> string \<Rightarrow> world \<Rightarrow> world" where
  "onFinishWindow_locked r matchID w = force_end r matchID ReasonFinishWindow w"

text \<open>
  \<open>sweepAfk\<close>: whether one racing seat is out, then the pass over the roster, which also reports
  whether any seat was kicked.
\<close>

definition afk_out :: "match_timing \<Rightarrow> match_state \<Rightarrow> int \<Rightarrow> seat \<Rightarrow> bool" where
  "afk_out t m now st =
     (st_status st = seatActive \<and> \<not> st_disconnected st \<and>
      (now - st_lastBatchMs st \<ge> t_afkTrailingMs t \<or>
       (IsCounted (Mode (m_settings m)) \<and> now - m_goAtMs m \<ge> t_afkWarmupMs t \<and>
        snd (afkAtLocked st (m_goAtMs m) now) \<ge> t_afkKickShare t)))"

definition sweep_seat :: "room_id \<Rightarrow> match_state \<Rightarrow> seat_id \<Rightarrow> world \<times> bool \<Rightarrow> world \<times> bool" where
  "sweep_seat r m s wk =
     (let (w, kicked) = wk in
      if afk_out (reg_timing w) m (w_now w) (seat_at w s)
      then (broadcastPeerStatusLocked r (st_playerID (seat_at w s)) StatusDNF
              (upd_seat s (\<lambda>st. st\<lparr>st_status := StatusDNF\<rparr>) w), True)
      else (w, kicked))"

definition sweepAfk_locked :: "room_id \<Rightarrow> string \<Rightarrow> world \<Rightarrow> world \<times> bool" where
  "sweepAfk_locked r matchID w =
     (case match_of w r of
        None \<Rightarrow> (w, True)
      | Some m \<Rightarrow>
          if m_id m \<noteq> matchID \<or> m_ended m then (w, True)
          else
            let (w1, kicked) = fold (sweep_seat r m) (m_roster m) (w, False)
            in if kicked \<and> allTerminalLocked w1 r
               then (endMatchLocked r ReasonAllFinished w1, True) else (w1, False))"

section \<open>Idle rooms\<close>

definition idleStateLocked :: "world \<Rightarrow> room_id \<Rightarrow> int \<Rightarrow> bool \<times> bool" where
  "idleStateLocked w r now =
     (let x = w_rooms w r; idle = now - r_lastActivityMs x in
      if r_inMatch x then (False, False)
      else if idle \<ge> roomIdleTimeoutMs then (False, True)
      else if idle \<ge> roomIdleTimeoutMs - roomIdleWarningMs \<and> \<not> r_idleWarned x then (True, False)
      else (False, False))"

end
