(* ===== verification/Ws_Core.thy ===== *)
theory Ws_Core
  imports Match_Ops
begin

text \<open>
  The core of the transport's state and what each operation does to it.

  \<open>scrub\<close> forgets the outbound queues, the displacement marks and the panic flag: an operation
  that only sends frames leaves the scrubbed store alone, and every projection but the queues
  follows at once. \<open>core_of\<close> keeps the part of the store the invariants read: who sits where, who
  races, the hosts, the account index and the room table. The second half gives the abstract
  effect of every building block on the core.
\<close>

section \<open>Operations that only send\<close>

definition scrub :: "world \<Rightarrow> world" where
  "scrub w = w\<lparr>w_sessions := (\<lambda>s. (w_sessions w s)\<lparr>s_outbound := [], s_written := [],
                                 s_displaced := False\<rparr>),
               w_panicked := False\<rparr>"

lemma scrub_proj:
  assumes "scrub w' = scrub w"
  shows "w_now w' = w_now w" "w_seats w' = w_seats w" "w_nextSeat w' = w_nextSeat w"
    "w_rooms w' = w_rooms w" "w_nextRoom w' = w_nextRoom w" "reg_rooms w' = reg_rooms w"
    "reg_graces w' = reg_graces w" "reg_users w' = reg_users w" "reg_timing w' = reg_timing w"
    "w_hasStore w' = w_hasStore w" "w_persists w' = w_persists w" "w_nextSess w' = w_nextSess w"
  using arg_cong [OF assms, of w_now] arg_cong [OF assms, of w_seats]
    arg_cong [OF assms, of w_nextSeat] arg_cong [OF assms, of w_rooms]
    arg_cong [OF assms, of w_nextRoom] arg_cong [OF assms, of reg_rooms]
    arg_cong [OF assms, of reg_graces] arg_cong [OF assms, of reg_users]
    arg_cong [OF assms, of reg_timing] arg_cong [OF assms, of w_hasStore]
    arg_cong [OF assms, of w_persists] arg_cong [OF assms, of w_nextSess]
  by (simp_all add: scrub_def)

lemma scrub_sess:
  assumes "scrub w' = scrub w"
  shows "s_authed (w_sessions w' s) = s_authed (w_sessions w s)"
    "s_displayName (w_sessions w' s) = s_displayName (w_sessions w s)"
    "s_userID (w_sessions w' s) = s_userID (w_sessions w s)"
    "s_playerID (w_sessions w' s) = s_playerID (w_sessions w s)"
    "s_resumeToken (w_sessions w' s) = s_resumeToken (w_sessions w s)"
    "s_helloDone (w_sessions w' s) = s_helloDone (w_sessions w s)"
    "s_room (w_sessions w' s) = s_room (w_sessions w s)"
    "s_closed (w_sessions w' s) = s_closed (w_sessions w s)"
    "s_ctxDone (w_sessions w' s) = s_ctxDone (w_sessions w s)"
proof -
  have eq: "(w_sessions w' s)\<lparr>s_outbound := [], s_written := [], s_displaced := False\<rparr> =
            (w_sessions w s)\<lparr>s_outbound := [], s_written := [], s_displaced := False\<rparr>"
    using arg_cong [OF assms, of "\<lambda>v. w_sessions v s"] by (simp add: scrub_def)
  show "s_authed (w_sessions w' s) = s_authed (w_sessions w s)"
    "s_displayName (w_sessions w' s) = s_displayName (w_sessions w s)"
    "s_userID (w_sessions w' s) = s_userID (w_sessions w s)"
    "s_playerID (w_sessions w' s) = s_playerID (w_sessions w s)"
    "s_resumeToken (w_sessions w' s) = s_resumeToken (w_sessions w s)"
    "s_helloDone (w_sessions w' s) = s_helloDone (w_sessions w s)"
    "s_room (w_sessions w' s) = s_room (w_sessions w s)"
    "s_closed (w_sessions w' s) = s_closed (w_sessions w s)"
    "s_ctxDone (w_sessions w' s) = s_ctxDone (w_sessions w s)"
    using arg_cong [OF eq, of s_authed] arg_cong [OF eq, of s_displayName]
      arg_cong [OF eq, of s_userID] arg_cong [OF eq, of s_playerID]
      arg_cong [OF eq, of s_resumeToken] arg_cong [OF eq, of s_helloDone]
      arg_cong [OF eq, of s_room] arg_cong [OF eq, of s_closed] arg_cong [OF eq, of s_ctxDone]
    by simp_all
qed

lemma scrub_upd_sess:
  assumes "(f (w_sessions w s))\<lparr>s_outbound := [], s_written := [], s_displaced := False\<rparr> =
           (w_sessions w s)\<lparr>s_outbound := [], s_written := [], s_displaced := False\<rparr>"
  shows "scrub (upd_sess s f w) = scrub w"
  using assms by (auto simp: scrub_def upd_sess_def fun_eq_iff)

lemma scrub_panic: "scrub (w\<lparr>w_panicked := b\<rparr>) = scrub w"
  by (simp add: scrub_def)

lemma trySend_scrub: "scrub (trySend s m w) = scrub w"
  by (simp add: trySend_def scrub_panic scrub_upd_sess)

lemma writeLoop_step_scrub: "scrub (writeLoop_step s w) = scrub w"
  by (simp add: writeLoop_step_def scrub_upd_sess split: list.split)

lemma send_scrub: "scrub (send s m w) = scrub w"
  by (simp add: send_def scrub_panic scrub_upd_sess writeLoop_step_scrub)

lemma fold_scrub: "(\<And>x w. scrub (f x w) = scrub w) \<Longrightarrow> scrub (fold f xs w) = scrub w"
  by (induction xs arbitrary: w) auto

lemma send_all_scrub: "scrub (send_all s fs w) = scrub w"
  by (simp add: send_all_def fold_scrub send_scrub)

lemma deliverLocked_scrub: "scrub (deliverLocked s m w) = scrub w"
  by (simp add: deliverLocked_def trySend_scrub split: option.split)

lemma errLocked_scrub: "scrub (errLocked s c m w) = scrub w"
  by (simp add: errLocked_def trySend_scrub)

lemma broadcastPeerStatusLocked_scrub: "scrub (broadcastPeerStatusLocked r pid x w) = scrub w"
  by (simp add: broadcastPeerStatusLocked_def trySend_scrub fold_scrub split: option.split)

lemma broadcast_scrub: "scrub (fold (\<lambda>s. deliverLocked s m) xs w) = scrub w"
  by (simp add: fold_scrub deliverLocked_scrub)

lemma broadcastStateLocked_scrub: "scrub (broadcastStateLocked r w) = scrub w"
  by (simp add: broadcastStateLocked_def broadcast_scrub)

lemma systemChatLocked_scrub: "scrub (systemChatLocked r k t w) = scrub w"
  by (simp add: systemChatLocked_def broadcast_scrub)

lemma session_displace_scrub: "scrub (session_displace s w) = scrub w"
  by (simp add: session_displace_def trySend_scrub scrub_upd_sess)

lemma displaceLocked_scrub: "scrub (displaceLocked old w) = scrub w"
  by (simp add: displaceLocked_def session_displace_scrub split: option.split)

lemmas send_only [simp] =
  scrub_proj [OF trySend_scrub] scrub_proj [OF writeLoop_step_scrub]
  scrub_proj [OF send_scrub] scrub_proj [OF send_all_scrub]
  scrub_proj [OF deliverLocked_scrub] scrub_proj [OF errLocked_scrub]
  scrub_proj [OF broadcastPeerStatusLocked_scrub] scrub_proj [OF broadcast_scrub]
  scrub_proj [OF broadcastStateLocked_scrub] scrub_proj [OF systemChatLocked_scrub]
  scrub_proj [OF session_displace_scrub] scrub_proj [OF displaceLocked_scrub]

lemmas send_only_sess [simp] =
  scrub_sess [OF trySend_scrub] scrub_sess [OF writeLoop_step_scrub]
  scrub_sess [OF send_scrub] scrub_sess [OF send_all_scrub]
  scrub_sess [OF deliverLocked_scrub] scrub_sess [OF errLocked_scrub]
  scrub_sess [OF broadcastPeerStatusLocked_scrub] scrub_sess [OF broadcast_scrub]
  scrub_sess [OF broadcastStateLocked_scrub] scrub_sess [OF systemChatLocked_scrub]
  scrub_sess [OF session_displace_scrub] scrub_sess [OF displaceLocked_scrub]

section \<open>The core state\<close>

text \<open>
  \<open>c_roster r\<close> is the roster of the room's match with its ended flag, \<open>c_users\<close> the account index,
  \<open>c_rooms\<close> the registry's room table, \<open>c_graces\<close> the seats that wait for a reconnect.
\<close>

record core =
  c_code :: "room_id \<Rightarrow> string"
  c_seats :: "room_id \<Rightarrow> seat_id list"
  c_host :: "room_id \<Rightarrow> string"
  c_inMatch :: "room_id \<Rightarrow> bool"
  c_roster :: "room_id \<Rightarrow> (seat_id list \<times> bool) option"
  c_pid :: "seat_id \<Rightarrow> string"
  c_user :: "seat_id \<Rightarrow> string"
  c_status :: "seat_id \<Rightarrow> status"
  c_nextSeat :: seat_id
  c_nextRoom :: room_id
  c_rooms :: "string \<rightharpoonup> room_id"
  c_users :: "string \<rightharpoonup> room_id \<times> seat_id"
  c_graces :: "(room_id \<times> seat_id) list"

definition roster_of :: "room \<Rightarrow> (seat_id list \<times> bool) option" where
  "roster_of x = map_option (\<lambda>m. (m_roster m, m_ended m)) (r_match x)"

definition core_of :: "world \<Rightarrow> core" where
  "core_of w =
     \<lparr>c_code = (\<lambda>r. r_code (w_rooms w r)), c_seats = (\<lambda>r. r_seats (w_rooms w r)),
      c_host = (\<lambda>r. r_hostID (w_rooms w r)), c_inMatch = (\<lambda>r. r_inMatch (w_rooms w r)),
      c_roster = (\<lambda>r. roster_of (w_rooms w r)),
      c_pid = (\<lambda>s. st_playerID (w_seats w s)), c_user = (\<lambda>s. st_userID (w_seats w s)),
      c_status = (\<lambda>s. st_status (w_seats w s)), c_nextSeat = w_nextSeat w,
      c_nextRoom = w_nextRoom w, c_rooms = reg_rooms w, c_users = reg_users w,
      c_graces = map (\<lambda>g. (g_room g, g_seat g)) (reg_graces w)\<rparr>"

lemma core_of_simps [simp]:
  "c_code (core_of w) r = r_code (w_rooms w r)"
  "c_seats (core_of w) r = seats_of w r"
  "c_host (core_of w) r = host_of w r"
  "c_inMatch (core_of w) r = r_inMatch (w_rooms w r)"
  "c_roster (core_of w) r = roster_of (w_rooms w r)"
  "c_pid (core_of w) s = st_playerID (seat_at w s)"
  "c_user (core_of w) s = st_userID (seat_at w s)"
  "c_status (core_of w) s = st_status (seat_at w s)"
  "c_nextSeat (core_of w) = w_nextSeat w" "c_nextRoom (core_of w) = w_nextRoom w"
  "c_rooms (core_of w) = reg_rooms w" "c_users (core_of w) = reg_users w"
  "c_graces (core_of w) = map (\<lambda>g. (g_room g, g_seat g)) (reg_graces w)"
  by (simp_all add: core_of_def)

lemma core_of_eqI:
  assumes "w_seats w' = w_seats w" "w_rooms w' = w_rooms w" "w_nextSeat w' = w_nextSeat w"
    "w_nextRoom w' = w_nextRoom w" "reg_rooms w' = reg_rooms w" "reg_users w' = reg_users w"
    "reg_graces w' = reg_graces w"
  shows "core_of w' = core_of w"
  using assms by (simp add: core_of_def)

lemma scrub_core: "scrub w' = scrub w \<Longrightarrow> core_of w' = core_of w"
  by (rule core_of_eqI) (auto dest: scrub_proj)

lemmas send_core [simp] =
  scrub_core [OF trySend_scrub] scrub_core [OF writeLoop_step_scrub] scrub_core [OF send_scrub]
  scrub_core [OF send_all_scrub] scrub_core [OF deliverLocked_scrub] scrub_core [OF errLocked_scrub]
  scrub_core [OF broadcastPeerStatusLocked_scrub] scrub_core [OF broadcast_scrub]
  scrub_core [OF broadcastStateLocked_scrub] scrub_core [OF systemChatLocked_scrub]
  scrub_core [OF session_displace_scrub] scrub_core [OF displaceLocked_scrub]

lemma core_upd_sess [simp]: "core_of (upd_sess s f w) = core_of w"
  by (rule core_of_eqI) simp_all

lemma core_persists [simp]: "core_of (w\<lparr>w_persists := x\<rparr>) = core_of w"
  by (rule core_of_eqI) simp_all

text \<open>The abstract updates.\<close>

definition a_status :: "seat_id \<Rightarrow> status \<Rightarrow> core \<Rightarrow> core" where
  "a_status s x c = c\<lparr>c_status := (c_status c)(s := x)\<rparr>"

definition a_host :: "room_id \<Rightarrow> string \<Rightarrow> core \<Rightarrow> core" where
  "a_host r h c = c\<lparr>c_host := (c_host c)(r := h)\<rparr>"

definition a_match :: "room_id \<Rightarrow> (seat_id list \<times> bool) option \<Rightarrow> bool \<Rightarrow> core \<Rightarrow> core" where
  "a_match r m b c = c\<lparr>c_roster := (c_roster c)(r := m), c_inMatch := (c_inMatch c)(r := b)\<rparr>"

definition a_unindex :: "seat_id \<Rightarrow> core \<Rightarrow> core" where
  "a_unindex s c =
     (if c_user c s \<noteq> [] \<and> map_option snd (c_users c (c_user c s)) = Some s
      then c\<lparr>c_users := (c_users c)(c_user c s := None)\<rparr> else c)"

definition a_drop :: "room_id \<Rightarrow> seat_id \<Rightarrow> core \<Rightarrow> core" where
  "a_drop r s c =
     (if s \<in> set (c_seats c r)
      then (a_unindex s c)\<lparr>c_seats := (c_seats c)(r := remove1 s (c_seats c r))\<rparr> else c)"

definition a_add :: "room_id \<Rightarrow> string \<Rightarrow> string \<Rightarrow> core \<Rightarrow> core" where
  "a_add r pid u c =
     (let s = c_nextSeat c in
      c\<lparr>c_nextSeat := Suc s, c_seats := (c_seats c)(r := c_seats c r @ [s]),
        c_pid := (c_pid c)(s := pid), c_user := (c_user c)(s := u),
        c_status := (c_status c)(s := StatusNone),
        c_users := (if u = [] then c_users c else (c_users c)(u \<mapsto> (r, s)))\<rparr>)"

text \<open>The concrete updates are the abstract ones.\<close>

lemma core_upd_seat_status:
  assumes "st_playerID (f (seat_at w s)) = st_playerID (seat_at w s)"
    "st_userID (f (seat_at w s)) = st_userID (seat_at w s)"
  shows "core_of (upd_seat s f w) = a_status s (st_status (f (seat_at w s))) (core_of w)"
  using assms by (auto simp: core_of_def a_status_def fun_eq_iff)

lemma core_upd_seat:
  assumes "st_playerID (f (seat_at w s)) = st_playerID (seat_at w s)"
    "st_userID (f (seat_at w s)) = st_userID (seat_at w s)"
    "st_status (f (seat_at w s)) = st_status (seat_at w s)"
  shows "core_of (upd_seat s f w) = core_of w"
  using assms by (auto simp: core_of_def fun_eq_iff)

lemma core_upd_room:
  assumes "r_code (f (w_rooms w r)) = r_code (w_rooms w r)"
    "r_seats (f (w_rooms w r)) = r_seats (w_rooms w r)"
    "r_hostID (f (w_rooms w r)) = r_hostID (w_rooms w r)"
    "r_inMatch (f (w_rooms w r)) = r_inMatch (w_rooms w r)"
    "roster_of (f (w_rooms w r)) = roster_of (w_rooms w r)"
  shows "core_of (upd_room r f w) = core_of w"
  using assms by (auto simp: core_of_def fun_eq_iff)

lemma core_upd_room_host [simp]:
  "core_of (upd_room r (\<lambda>x. x\<lparr>r_hostID := h x\<rparr>) w) = a_host r (h (w_rooms w r)) (core_of w)"
  by (auto simp: core_of_def a_host_def fun_eq_iff roster_of_def)

lemma core_upd_room_match:
  assumes "r_code (f (w_rooms w r)) = r_code (w_rooms w r)"
    "r_seats (f (w_rooms w r)) = r_seats (w_rooms w r)"
    "r_hostID (f (w_rooms w r)) = r_hostID (w_rooms w r)"
  shows "core_of (upd_room r f w) =
         a_match r (roster_of (f (w_rooms w r))) (r_inMatch (f (w_rooms w r))) (core_of w)"
  using assms by (auto simp: core_of_def a_match_def fun_eq_iff)

declare core_upd_seat [simp] core_upd_room [simp]

lemma roster_of_simps [simp]:
  "roster_of (x\<lparr>r_lastActivityMs := a\<rparr>) = roster_of x" "roster_of (x\<lparr>r_idleWarned := b\<rparr>) = roster_of x"
  "roster_of (x\<lparr>r_settings := st\<rparr>) = roster_of x" "roster_of (x\<lparr>r_hostID := h\<rparr>) = roster_of x"
  "roster_of (x\<lparr>r_seats := ss\<rparr>) = roster_of x" "roster_of (x\<lparr>r_nextSeq := n\<rparr>) = roster_of x"
  "roster_of (x\<lparr>r_inMatch := b\<rparr>) = roster_of x"
  "roster_of (x\<lparr>r_match := m\<rparr>) = map_option (\<lambda>m. (m_roster m, m_ended m)) m"
  by (simp_all add: roster_of_def)

lemma roster_of_None [simp]: "roster_of x = None \<longleftrightarrow> r_match x = None"
  by (simp add: roster_of_def)

lemma roster_of_SomeI: "r_match x = Some m \<Longrightarrow> roster_of x = Some (m_roster m, m_ended m)"
  by (simp add: roster_of_def)

lemma a_status_id [simp]: "a_status s (st_status (seat_at w s)) (core_of w) = core_of w"
  by (auto simp: a_status_def core_of_def fun_eq_iff)

lemma core_touch [simp]: "core_of (touchLocked r w) = core_of w"
  by (simp add: touchLocked_def)

text \<open>Seats leave a room through \<open>removeSeatLocked\<close> only.\<close>

lemma core_unindex [simp]: "core_of (unindexSeat s w) = a_unindex s (core_of w)"
  by (auto simp: unindexSeat_def a_unindex_def Let_def core_of_def split: option.splits)

lemma unindex_proj [simp]:
  "w_rooms (unindexSeat s w) = w_rooms w" "w_seats (unindexSeat s w) = w_seats w"
  "w_sessions (unindexSeat s w) = w_sessions w" "w_now (unindexSeat s w) = w_now w"
  "w_hasStore (unindexSeat s w) = w_hasStore w" "w_persists (unindexSeat s w) = w_persists w"
  "reg_timing (unindexSeat s w) = reg_timing w" "reg_rooms (unindexSeat s w) = reg_rooms w"
  "reg_graces (unindexSeat s w) = reg_graces w" "w_nextSeat (unindexSeat s w) = w_nextSeat w"
  "w_nextRoom (unindexSeat s w) = w_nextRoom w" "w_panicked (unindexSeat s w) = w_panicked w"
  by (auto simp: unindexSeat_def Let_def split: option.split)

lemma take_drop_remove1:
  assumes "distinct xs" "i < length xs"
  shows "take i xs @ drop (Suc i) xs = remove1 (xs ! i) xs"
  using assms
proof (induction xs arbitrary: i)
  case (Cons x xs)
  then show ?case by (cases i) auto
qed simp

lemma core_removeSeat:
  assumes "distinct (seats_of w r)" "i < length (seats_of w r)"
  shows "core_of (removeSeatLocked r i w) = a_drop r (seats_of w r ! i) (core_of w)"
  using assms
  by (auto simp: removeSeatLocked_def a_drop_def a_unindex_def unindexSeat_def core_of_def
      take_drop_remove1 fun_eq_iff Let_def split: option.splits)

lemma index_from_spec:
  assumes "0 \<le> i"
  shows "index_from P i xs = (if list_ex P xs then i + int (length (takeWhile (\<lambda>x. \<not> P x) xs)) else -1)"
  using assms by (induction xs arbitrary: i) auto

lemma index_from_nonneg_iff: "index_from P 0 xs \<ge> 0 \<longleftrightarrow> list_ex P xs"
  by (simp add: index_from_spec)

lemma index_from_neg_iff: "index_from P 0 xs < 0 \<longleftrightarrow> \<not> list_ex P xs"
  by (simp add: index_from_spec)

lemma index_from_nth:
  assumes "list_ex P xs"
  shows "nat (index_from P 0 xs) < length xs \<and> P (xs ! nat (index_from P 0 xs))"
proof -
  let ?n = "length (takeWhile (\<lambda>x. \<not> P x) xs)"
  have lt: "?n < length xs"
    using assms by (metis Bex_set length_takeWhile_le nat_less_le takeWhile_eq_all_conv
        takeWhile_eq_take take_all_iff order_refl)
  then show ?thesis
    using assms nth_length_takeWhile [OF lt] by (simp add: index_from_spec)
qed

lemma removeFromSeats_absent [simp]: "s \<notin> set (seats_of w r) \<Longrightarrow> removeFromSeatsLocked r s w = w"
  by (auto simp: removeFromSeatsLocked_def index_from_spec list_ex_iff)

lemma removeFromSeats_present:
  assumes "s \<in> set (seats_of w r)"
  obtains i where "i < length (seats_of w r)" "seats_of w r ! i = s"
    "removeFromSeatsLocked r s w = removeSeatLocked r i w"
proof
  let ?P = "\<lambda>x. x = s" and ?i = "nat (index_from (\<lambda>x. x = s) 0 (seats_of w r))"
  have ex: "list_ex ?P (seats_of w r)" using assms by (auto simp: list_ex_iff)
  then show "?i < length (seats_of w r)" "seats_of w r ! ?i = s"
    using index_from_nth [of ?P "seats_of w r"] by auto
  show "removeFromSeatsLocked r s w = removeSeatLocked r ?i w"
    using ex by (simp add: removeFromSeatsLocked_def Let_def index_from_neg_iff)
qed

lemma core_removeFromSeats:
  assumes "distinct (seats_of w r)"
  shows "core_of (removeFromSeatsLocked r s w) = a_drop r s (core_of w)"
proof (cases "s \<in> set (seats_of w r)")
  case True
  then obtain i where "i < length (seats_of w r)" "seats_of w r ! i = s"
    "removeFromSeatsLocked r s w = removeSeatLocked r i w"
    by (rule removeFromSeats_present)
  then show ?thesis using assms by (simp add: core_removeSeat)
qed (simp add: a_drop_def)

lemma removeSeat_proj [simp]:
  "w_seats (removeSeatLocked r i w) = w_seats w" "w_now (removeSeatLocked r i w) = w_now w"
  "w_sessions (removeSeatLocked r i w) = w_sessions w"
  "w_hasStore (removeSeatLocked r i w) = w_hasStore w"
  "w_persists (removeSeatLocked r i w) = w_persists w"
  "reg_timing (removeSeatLocked r i w) = reg_timing w"
  "r_match (w_rooms (removeSeatLocked r i w) r') = match_of w r'"
  "r_code (w_rooms (removeSeatLocked r i w) r') = r_code (w_rooms w r')"
  "r_hostID (w_rooms (removeSeatLocked r i w) r') = host_of w r'"
  by (simp_all add: removeSeatLocked_def)

lemma removeFromSeats_proj [simp]:
  "w_seats (removeFromSeatsLocked r s w) = w_seats w" "w_now (removeFromSeatsLocked r s w) = w_now w"
  "w_sessions (removeFromSeatsLocked r s w) = w_sessions w"
  "w_hasStore (removeFromSeatsLocked r s w) = w_hasStore w"
  "w_persists (removeFromSeatsLocked r s w) = w_persists w"
  "reg_timing (removeFromSeatsLocked r s w) = reg_timing w"
  "r_match (w_rooms (removeFromSeatsLocked r s w) r') = match_of w r'"
  "r_code (w_rooms (removeFromSeatsLocked r s w) r') = r_code (w_rooms w r')"
  "r_hostID (w_rooms (removeFromSeatsLocked r s w) r') = host_of w r'"
  by (simp_all add: removeFromSeatsLocked_def Let_def)

lemma core_reassignHost [simp]:
  "core_of (reassignHostLocked r w) =
   a_host r (case seats_of w r of [] \<Rightarrow> [] | s # _ \<Rightarrow> st_playerID (seat_at w s)) (core_of w)"
  by (simp add: reassignHostLocked_def)

lemma reassignHost_proj [simp]:
  "w_seats (reassignHostLocked r w) = w_seats w" "w_now (reassignHostLocked r w) = w_now w"
  "w_sessions (reassignHostLocked r w) = w_sessions w"
  "r_seats (w_rooms (reassignHostLocked r w) r') = seats_of w r'"
  "r_match (w_rooms (reassignHostLocked r w) r') = match_of w r'"
  by (simp_all add: reassignHostLocked_def)

lemma core_fold: "(\<And>x w. core_of (f x w) = core_of w) \<Longrightarrow> core_of (fold f xs w) = core_of w"
  by (rule fold_preserves)

end
