(* ===== verification/Ws_Invariant.thy ===== *)
theory Ws_Invariant
  imports Ws_Core
begin

text \<open>
  The structural invariant of the transport and its preservation by the building blocks.

  \<open>own\<close> assigns every seat the one room it was ever created in; it is a parameter of the whole
  development of the invariant (each execution determines it, since a seat address is allocated
  once). \<open>room_ok\<close> states the well-formedness of one room: its seat list and its match roster,
  \<open>index_ok\<close> that the account index is exactly the inverse of "this seat is held by this account",
  \<open>table_ok\<close> the registry's room table, and \<open>live\<close> that a running match still has a racing seat.
  The last one is what the handlers re-establish by ending the match.
\<close>

section \<open>The invariant\<close>

definition seats_ok :: "(seat_id \<Rightarrow> room_id) \<Rightarrow> core \<Rightarrow> room_id \<Rightarrow> bool" where
  "seats_ok own c r \<longleftrightarrow>
     distinct (c_seats c r) \<and> length (c_seats c r) \<le> roomCapacity \<and>
     (\<forall>s \<in> set (c_seats c r). s < c_nextSeat c \<and> own s = r)"

definition match_ok :: "(seat_id \<Rightarrow> room_id) \<Rightarrow> core \<Rightarrow> room_id \<Rightarrow> bool" where
  "match_ok own c r \<longleftrightarrow>
     (c_inMatch c r \<longleftrightarrow> c_roster c r \<noteq> None) \<and>
     (c_roster c r = None \<longrightarrow> (\<forall>s \<in> set (c_seats c r). c_status c s \<noteq> seatActive)) \<and>
     (\<forall>roster ended. c_roster c r = Some (roster, ended) \<longrightarrow>
        \<not> ended \<and> distinct roster \<and> (\<forall>s \<in> set roster. s < c_nextSeat c \<and> own s = r) \<and>
        (\<forall>s. own s = r \<longrightarrow> c_status c s = seatActive \<longrightarrow> s \<in> set roster \<longleftrightarrow> s \<in> set (c_seats c r)))"

definition index_ok :: "core \<Rightarrow> bool" where
  "index_ok c \<longleftrightarrow>
     (\<forall>u r s. c_users c u = Some (r, s) \<longleftrightarrow> u \<noteq> [] \<and> s \<in> set (c_seats c r) \<and> c_user c s = u)"

definition table_ok :: "core \<Rightarrow> bool" where
  "table_ok c \<longleftrightarrow>
     (\<forall>code r. c_rooms c code = Some r \<longrightarrow> r < c_nextRoom c \<and> c_code c r = code) \<and>
     (\<forall>r. c_seats c r \<noteq> [] \<longrightarrow> c_rooms c (c_code c r) = Some r) \<and>
     (\<forall>r \<ge> c_nextRoom c. c_seats c r = [] \<and> c_roster c r = None)"

definition graces_ok :: "(seat_id \<Rightarrow> room_id) \<Rightarrow> core \<Rightarrow> bool" where
  "graces_ok own c \<longleftrightarrow> (\<forall>(r, s) \<in> set (c_graces c). own s = r \<and> s < c_nextSeat c)"

definition struct_ok :: "(seat_id \<Rightarrow> room_id) \<Rightarrow> core \<Rightarrow> bool" where
  "struct_ok own c \<longleftrightarrow>
     (\<forall>r. seats_ok own c r \<and> match_ok own c r) \<and> index_ok c \<and> table_ok c \<and> graces_ok own c"

definition live :: "core \<Rightarrow> room_id \<Rightarrow> bool" where
  "live c r \<longleftrightarrow>
     (\<forall>roster ended. c_roster c r = Some (roster, ended) \<longrightarrow>
        (\<exists>s \<in> set roster. c_status c s = seatActive))"

definition core_ok :: "(seat_id \<Rightarrow> room_id) \<Rightarrow> core \<Rightarrow> bool" where
  "core_ok own c \<longleftrightarrow> struct_ok own c \<and> (\<forall>r. live c r)"

definition world_ok :: "(seat_id \<Rightarrow> room_id) \<Rightarrow> world \<Rightarrow> bool" where
  "world_ok own w \<longleftrightarrow> core_ok own (core_of w)"

text \<open>The host of every occupied room sits in it.\<close>

definition host_ok :: "core \<Rightarrow> room_id \<Rightarrow> bool" where
  "host_ok c r \<longleftrightarrow> c_seats c r = [] \<or> (\<exists>s \<in> set (c_seats c r). c_pid c s = c_host c r)"

section \<open>Preservation by the abstract updates\<close>

definition almost_ok :: "(seat_id \<Rightarrow> room_id) \<Rightarrow> room_id \<Rightarrow> core \<Rightarrow> bool" where
  "almost_ok own r c \<longleftrightarrow> struct_ok own c \<and> (\<forall>r'. r' \<noteq> r \<longrightarrow> live c r')"

lemma core_ok_almost: "core_ok own c \<Longrightarrow> almost_ok own r c"
  by (simp add: core_ok_def almost_ok_def)

lemma almost_live: "\<lbrakk>almost_ok own r c; live c r\<rbrakk> \<Longrightarrow> core_ok own c"
  by (auto simp: core_ok_def almost_ok_def)

lemma struct_okD:
  assumes "struct_ok own c"
  shows "seats_ok own c r" "match_ok own c r" "index_ok c" "table_ok c" "graces_ok own c"
  using assms by (auto simp: struct_ok_def)

lemma seats_okD:
  assumes "struct_ok own c"
  shows "distinct (c_seats c r)" "length (c_seats c r) \<le> roomCapacity"
    "s \<in> set (c_seats c r) \<Longrightarrow> s < c_nextSeat c" "s \<in> set (c_seats c r) \<Longrightarrow> own s = r"
  using struct_okD(1) [OF assms, of r] by (auto simp: seats_ok_def)

lemma almost_struct: "almost_ok own r c \<Longrightarrow> struct_ok own c"
  by (simp add: almost_ok_def)

lemma core_struct: "core_ok own c \<Longrightarrow> struct_ok own c"
  by (simp add: core_ok_def)

text \<open>Each part of the invariant reads only some components of the core.\<close>

lemma seats_ok_cong:
  "\<lbrakk>c_seats c' = c_seats c; c_nextSeat c' = c_nextSeat c\<rbrakk> \<Longrightarrow> seats_ok own c' = seats_ok own c"
  by (simp add: seats_ok_def fun_eq_iff)

lemma match_ok_cong:
  "\<lbrakk>c_seats c' = c_seats c; c_nextSeat c' = c_nextSeat c; c_inMatch c' = c_inMatch c;
    c_roster c' = c_roster c; c_status c' = c_status c\<rbrakk> \<Longrightarrow> match_ok own c' = match_ok own c"
  by (simp add: match_ok_def fun_eq_iff)

lemma index_ok_cong:
  "\<lbrakk>c_seats c' = c_seats c; c_users c' = c_users c; c_user c' = c_user c\<rbrakk> \<Longrightarrow> index_ok c' = index_ok c"
  by (simp add: index_ok_def)

lemma table_ok_cong:
  "\<lbrakk>c_seats c' = c_seats c; c_rooms c' = c_rooms c; c_nextRoom c' = c_nextRoom c;
    c_code c' = c_code c; c_roster c' = c_roster c\<rbrakk> \<Longrightarrow> table_ok c' = table_ok c"
  by (simp add: table_ok_def)

lemma graces_ok_cong:
  "\<lbrakk>c_graces c' = c_graces c; c_nextSeat c' = c_nextSeat c\<rbrakk> \<Longrightarrow> graces_ok own c' = graces_ok own c"
  by (simp add: graces_ok_def)

lemma live_cong:
  "\<lbrakk>c_roster c' = c_roster c; c_status c' = c_status c\<rbrakk> \<Longrightarrow> live c' = live c"
  by (simp add: live_def fun_eq_iff)

lemma struct_okI:
  "\<lbrakk>\<And>r. seats_ok own c r; \<And>r. match_ok own c r; index_ok c; table_ok c; graces_ok own c\<rbrakk>
   \<Longrightarrow> struct_ok own c"
  by (simp add: struct_ok_def)

lemma match_okD:
  assumes "match_ok own c r" "c_roster c r = Some (roster, ended)"
  shows "\<not> ended" "distinct roster" "s \<in> set roster \<Longrightarrow> s < c_nextSeat c"
    "s \<in> set roster \<Longrightarrow> own s = r" "c_inMatch c r"
    "\<lbrakk>own s = r; c_status c s = seatActive\<rbrakk> \<Longrightarrow> s \<in> set roster \<longleftrightarrow> s \<in> set (c_seats c r)"
  using assms unfolding match_ok_def by blast+

lemma match_okI:
  assumes "c_inMatch c r \<longleftrightarrow> c_roster c r \<noteq> None"
    "\<And>s. \<lbrakk>c_roster c r = None; s \<in> set (c_seats c r)\<rbrakk> \<Longrightarrow> c_status c s \<noteq> seatActive"
    "\<And>ro e. c_roster c r = Some (ro, e) \<Longrightarrow> \<not> e \<and> distinct ro"
    "\<And>ro e s. \<lbrakk>c_roster c r = Some (ro, e); s \<in> set ro\<rbrakk> \<Longrightarrow> s < c_nextSeat c \<and> own s = r"
    "\<And>ro e s. \<lbrakk>c_roster c r = Some (ro, e); own s = r; c_status c s = seatActive\<rbrakk>
       \<Longrightarrow> s \<in> set ro \<longleftrightarrow> s \<in> set (c_seats c r)"
  shows "match_ok own c r"
  using assms unfolding match_ok_def by blast

lemma index_okD:
  assumes "index_ok c"
  shows "c_users c u = Some (r, s) \<longleftrightarrow> u \<noteq> [] \<and> s \<in> set (c_seats c r) \<and> c_user c s = u"
  using assms unfolding index_ok_def by blast

lemma struct_status:
  assumes st: "struct_ok own c" and x: "x \<noteq> seatActive"
  shows "struct_ok own (a_status s x c)"
proof (rule struct_okI)
  fix r show "seats_ok own (a_status s x c) r"
    using struct_okD(1) [OF st] by (simp add: a_status_def seats_ok_def)
  show "match_ok own (a_status s x c) r"
    using struct_okD(2) [OF st, of r] x unfolding match_ok_def by (simp add: a_status_def) blast
next
  show "index_ok (a_status s x c)"
    using struct_okD(3) [OF st] by (subst index_ok_cong [of _ c]) (simp_all add: a_status_def)
  show "table_ok (a_status s x c)"
    using struct_okD(4) [OF st] by (subst table_ok_cong [of _ c]) (simp_all add: a_status_def)
  show "graces_ok own (a_status s x c)"
    using struct_okD(5) [OF st] by (subst graces_ok_cong [of _ c]) (simp_all add: a_status_def)
qed

lemma live_status:
  assumes "struct_ok own c" "live c r" "own s \<noteq> r"
  shows "live (a_status s x c) r"
proof -
  have "\<And>roster e t. c_roster c r = Some (roster, e) \<Longrightarrow> t \<in> set roster \<Longrightarrow> t \<noteq> s"
    using struct_okD(2) [OF assms(1), of r] assms(3) by (auto simp: match_ok_def)
  then show ?thesis
    using assms(2) by (fastforce simp: live_def a_status_def)
qed

lemma almost_status:
  "\<lbrakk>almost_ok own r c; own s = r; x \<noteq> seatActive\<rbrakk> \<Longrightarrow> almost_ok own r (a_status s x c)"
  by (auto simp: almost_ok_def struct_status live_status)

lemma struct_cong:
  assumes "c_seats c' = c_seats c" "c_nextSeat c' = c_nextSeat c" "c_inMatch c' = c_inMatch c"
    "c_roster c' = c_roster c" "c_status c' = c_status c" "c_users c' = c_users c"
    "c_user c' = c_user c" "c_rooms c' = c_rooms c" "c_nextRoom c' = c_nextRoom c"
    "c_code c' = c_code c" "c_graces c' = c_graces c"
  shows "struct_ok own c' = struct_ok own c"
  unfolding struct_ok_def
  using seats_ok_cong [of c' c own] match_ok_cong [of c' c own] index_ok_cong [of c' c]
    table_ok_cong [of c' c] graces_ok_cong [of c' c own] assms by simp

lemma struct_host: "struct_ok own (a_host r h c) = struct_ok own c"
  by (rule struct_cong) (simp_all add: a_host_def)

lemma live_host: "live (a_host r h c) = live c"
  by (simp add: live_def a_host_def fun_eq_iff)

lemma core_ok_host [simp]: "core_ok own (a_host r h c) = core_ok own c"
  by (simp add: core_ok_def struct_host live_host)

lemma almost_host [simp]: "almost_ok own r' (a_host r h c) = almost_ok own r' c"
  by (simp add: almost_ok_def struct_host live_host)

lemma a_unindex_simps [simp]:
  "c_seats (a_unindex s c) = c_seats c" "c_roster (a_unindex s c) = c_roster c"
  "c_status (a_unindex s c) = c_status c" "c_inMatch (a_unindex s c) = c_inMatch c"
  "c_user (a_unindex s c) = c_user c" "c_nextSeat (a_unindex s c) = c_nextSeat c"
  "c_nextRoom (a_unindex s c) = c_nextRoom c" "c_rooms (a_unindex s c) = c_rooms c"
  "c_code (a_unindex s c) = c_code c" "c_graces (a_unindex s c) = c_graces c"
  "c_host (a_unindex s c) = c_host c" "c_pid (a_unindex s c) = c_pid c"
  by (simp_all add: a_unindex_def)

lemma a_drop_simps [simp]:
  "c_roster (a_drop r s c) = c_roster c" "c_status (a_drop r s c) = c_status c"
  "c_inMatch (a_drop r s c) = c_inMatch c" "c_nextSeat (a_drop r s c) = c_nextSeat c"
  "c_nextRoom (a_drop r s c) = c_nextRoom c" "c_rooms (a_drop r s c) = c_rooms c"
  "c_code (a_drop r s c) = c_code c" "c_graces (a_drop r s c) = c_graces c"
  "c_user (a_drop r s c) = c_user c" "c_pid (a_drop r s c) = c_pid c"
  "c_host (a_drop r s c) = c_host c"
  "c_seats (a_drop r s c) = (c_seats c)(r := remove1 s (c_seats c r))"
  by (simp_all add: a_drop_def fun_eq_iff remove1_idem)

lemma drop_seats:
  assumes "struct_ok own c"
  shows "t \<in> set (c_seats (a_drop r s c) r') \<longleftrightarrow> t \<in> set (c_seats c r') \<and> (t = s \<longrightarrow> r' \<noteq> r)"
  using seats_okD(1) [OF assms, of r] by auto

lemma index_drop:
  assumes st: "struct_ok own c"
  shows "index_ok (a_drop r s c)"
proof (cases "s \<in> set (c_seats c r)")
  case True
  note ix = index_okD [OF struct_okD(3) [OF st]]
  have elsewhere: "s \<in> set (c_seats c r') \<Longrightarrow> r' = r" for r'
    using seats_okD(4) [OF st] True by metis
  have users: "c_users (a_drop r s c) u = Some (r', t) \<longleftrightarrow> c_users c u = Some (r', t) \<and> t \<noteq> s" for u r' t
  proof (cases "c_user c s = u \<and> u \<noteq> []")
    case u: True
    then have "c_users c u = Some (r, s)" using True ix by blast
    then show ?thesis using u True by (simp add: a_drop_def a_unindex_def)
  next
    case False
    then have "c_users (a_drop r s c) u = c_users c u"
      using True by (auto simp: a_drop_def a_unindex_def)
    then show ?thesis using False ix by metis
  qed
  show ?thesis
    unfolding index_ok_def users drop_seats [OF st] a_drop_simps(9) ix using elsewhere by blast
qed (use struct_okD(3) [OF st] in \<open>simp add: a_drop_def\<close>)

lemma struct_drop:
  assumes st: "struct_ok own c" and na: "c_status c s \<noteq> seatActive"
  shows "struct_ok own (a_drop r s c)"
proof (rule struct_okI)
  fix r'
  show "seats_ok own (a_drop r s c) r'"
    using struct_okD(1) [OF st, of r'] drop_seats [OF st, of _ r s r'] length_remove1_le [of s "c_seats c r"]
    unfolding seats_ok_def by (cases "r' = r") auto
  have act: "t \<in> set (c_seats (a_drop r s c) r') \<longleftrightarrow> t \<in> set (c_seats c r')"
    if "c_status c t = seatActive" for t
    using that na drop_seats [OF st] by metis
  show "match_ok own (a_drop r s c) r'"
    using struct_okD(2) [OF st, of r'] act drop_seats [OF st, of _ r s r']
    unfolding match_ok_def a_drop_simps(1-11) by blast
next
  have "c_seats (a_drop r s c) r' \<noteq> [] \<Longrightarrow> c_seats c r' \<noteq> []" for r'
    by (auto split: if_splits)
  then show "table_ok (a_drop r s c)"
    using struct_okD(4) [OF st] unfolding table_ok_def a_drop_simps(1-11) by blast
  show "graces_ok own (a_drop r s c)"
    using struct_okD(5) [OF st] by (simp add: graces_ok_def)
qed (rule index_drop [OF st])

lemma live_drop [simp]: "live (a_drop r s c) = live c"
  by (simp add: live_def a_drop_def fun_eq_iff)

lemma almost_drop:
  "\<lbrakk>almost_ok own r' c; c_status c s \<noteq> seatActive\<rbrakk> \<Longrightarrow> almost_ok own r' (a_drop r s c)"
  by (simp add: almost_ok_def struct_drop)

lemma core_ok_drop: "\<lbrakk>core_ok own c; c_status c s \<noteq> seatActive\<rbrakk> \<Longrightarrow> core_ok own (a_drop r s c)"
  by (simp add: core_ok_def struct_drop)

lemma core_ok_end:
  assumes ok: "almost_ok own r c" and na: "\<forall>s \<in> set (c_seats c r). c_status c s \<noteq> seatActive"
  shows "core_ok own (a_match r None False c)"
proof -
  let ?c = "a_match r None False c"
  note st = almost_struct [OF ok]
  have "struct_ok own ?c"
  proof (rule struct_okI)
    fix r'
    show "seats_ok own ?c r'"
      using struct_okD(1) [OF st] by (simp add: a_match_def seats_ok_def)
    show "match_ok own ?c r'"
      using struct_okD(2) [OF st, of r'] na unfolding match_ok_def by (simp add: a_match_def) blast
  next
    show "index_ok ?c"
      using struct_okD(3) [OF st] by (subst index_ok_cong [of _ c]) (simp_all add: a_match_def)
    show "table_ok ?c"
      using struct_okD(4) [OF st] by (simp add: table_ok_def a_match_def)
    show "graces_ok own ?c"
      using struct_okD(5) [OF st] by (subst graces_ok_cong [of _ c]) (simp_all add: a_match_def)
  qed
  moreover have "live ?c r'" for r'
    using ok by (simp add: almost_ok_def live_def a_match_def)
  ultimately show ?thesis by (simp add: core_ok_def)
qed

lemma index_add:
  assumes ix: "index_ok c" and fresh: "\<And>r'. c_nextSeat c \<notin> set (c_seats c r')"
    and free: "u \<noteq> [] \<Longrightarrow> c_users c u = None"
  shows "index_ok (a_add r pid u c)"
proof -
  let ?s = "c_nextSeat c" and ?c = "a_add r pid u c"
  have new: "c_users ?c v = (if u \<noteq> [] \<and> v = u then Some (r, ?s) else c_users c v)" for v
    by (simp add: a_add_def Let_def)
  have usr: "c_user ?c t = (if t = ?s then u else c_user c t)" for t
    by (simp add: a_add_def Let_def)
  have seats: "t \<in> set (c_seats ?c r') \<longleftrightarrow> t \<in> set (c_seats c r') \<or> (t = ?s \<and> r' = r)" for t r'
    by (auto simp: a_add_def Let_def)
  have none: "u \<noteq> [] \<Longrightarrow> t \<in> set (c_seats c r') \<Longrightarrow> c_user c t \<noteq> u" for t r'
    using free index_okD [OF ix, of u r' t] by auto
  show ?thesis
    unfolding index_ok_def
  proof (intro allI)
    fix v r' t
    show "c_users ?c v = Some (r', t) \<longleftrightarrow> v \<noteq> [] \<and> t \<in> set (c_seats ?c r') \<and> c_user ?c t = v"
    proof (cases "t = ?s")
      case True
      then show ?thesis
        using fresh [of r'] index_okD [OF ix, of v r' t] by (auto simp: new usr seats)
    next
      case False
      then show ?thesis
        using none [of t r'] index_okD [OF ix, of v r' t] by (auto simp: new usr seats)
    qed
  qed
qed

lemma table_okD:
  assumes "table_ok c"
  shows "c_rooms c code = Some r \<Longrightarrow> r < c_nextRoom c \<and> c_code c r = code"
    "c_seats c r \<noteq> [] \<Longrightarrow> c_rooms c (c_code c r) = Some r"
    "r \<ge> c_nextRoom c \<Longrightarrow> c_seats c r = [] \<and> c_roster c r = None"
  using assms unfolding table_ok_def by blast+

lemma a_add_simps [simp]:
  "c_roster (a_add r p u c) = c_roster c" "c_inMatch (a_add r p u c) = c_inMatch c"
  "c_rooms (a_add r p u c) = c_rooms c" "c_nextRoom (a_add r p u c) = c_nextRoom c"
  "c_code (a_add r p u c) = c_code c" "c_graces (a_add r p u c) = c_graces c"
  "c_host (a_add r p u c) = c_host c" "c_nextSeat (a_add r p u c) = Suc (c_nextSeat c)"
  "c_seats (a_add r p u c) = (c_seats c)(r := c_seats c r @ [c_nextSeat c])"
  "c_status (a_add r p u c) = (c_status c)(c_nextSeat c := StatusNone)"
  "c_pid (a_add r p u c) = (c_pid c)(c_nextSeat c := p)"
  by (simp_all add: a_add_def Let_def)

lemma core_ok_add:
  assumes ok: "core_ok own c" and cap: "length (c_seats c r) < roomCapacity"
    and own: "own (c_nextSeat c) = r" and reg: "c_rooms c (c_code c r) = Some r"
    and free: "u \<noteq> [] \<Longrightarrow> c_users c u = None"
  shows "core_ok own (a_add r pid u c)"
proof -
  let ?s = "c_nextSeat c" and ?c = "a_add r pid u c"
  note st = core_struct [OF ok]
  have fresh: "?s \<notin> set (c_seats c r')" for r' using seats_okD(3) [OF st] by blast
  have freshr: "c_roster c r' = Some (ro, e) \<Longrightarrow> ?s \<notin> set ro" for r' ro e
    using match_okD(3) [OF struct_okD(2) [OF st]] by blast
  note T = table_okD [OF struct_okD(4) [OF st]]
  have "struct_ok own ?c"
  proof (rule struct_okI)
    fix r'
    show "seats_ok own ?c r'"
      using struct_okD(1) [OF st, of r'] cap own fresh [of r']
      unfolding seats_ok_def by (auto simp: a_add_def Let_def)
    show "match_ok own ?c r'"
      proof (rule match_okI)
      show "c_inMatch ?c r' \<longleftrightarrow> c_roster ?c r' \<noteq> None"
        using struct_okD(2) [OF st, of r'] unfolding match_ok_def a_add_def Let_def by simp
      show "c_status ?c s \<noteq> seatActive" if "c_roster ?c r' = None" "s \<in> set (c_seats ?c r')" for s
        using struct_okD(2) [OF st, of r'] that unfolding match_ok_def a_add_def Let_def
        by (auto split: if_splits)
      fix ro e assume "c_roster ?c r' = Some (ro, e)"
      then have ro: "c_roster c r' = Some (ro, e)" by (simp add: a_add_def Let_def)
      note D = match_okD [OF struct_okD(2) [OF st] ro]
      show "\<not> e \<and> distinct ro" using D(1,2) by blast
      show "s < c_nextSeat ?c \<and> own s = r'" if "s \<in> set ro" for s
        using D(3,4) [OF that] by (simp add: a_add_def Let_def)
      show "s \<in> set ro \<longleftrightarrow> s \<in> set (c_seats ?c r')"
        if "own s = r'" "c_status ?c s = seatActive" for s
      proof -
        have "s \<noteq> ?s" "c_status c s = seatActive"
          using that(2) by (auto simp: a_add_def Let_def split: if_splits)
        then show ?thesis using D(6) [OF that(1)] by (simp add: a_add_def Let_def)
      qed
    qed
  next
    show "index_ok ?c" by (rule index_add [OF struct_okD(3) [OF st] fresh free])
    show "table_ok ?c"
      unfolding table_ok_def a_add_simps
    proof (intro conjI allI impI)
      fix r' assume "c_nextRoom c \<le> r'"
      moreover have "r < c_nextRoom c" using T(1) [OF reg] by simp
      ultimately show "((c_seats c)(r := c_seats c r @ [?s])) r' = []" "c_roster c r' = None"
        using T(3) by auto
    next
      fix r' assume "((c_seats c)(r := c_seats c r @ [?s])) r' \<noteq> []"
      then show "c_rooms c (c_code c r') = Some r'"
        using T(2) [of r'] reg by (cases "r' = r") auto
    qed (use T(1) in blast)+
    show "graces_ok own ?c"
      using struct_okD(5) [OF st] unfolding graces_ok_def by (auto simp: a_add_def Let_def)
  qed
  moreover have "live ?c r'" for r'
  proof -
    have "t \<noteq> ?s" if "c_roster c r' = Some (ro, e)" "t \<in> set ro" for ro e t
      using freshr that by blast
    then show ?thesis
      using ok unfolding core_ok_def live_def a_add_simps by (metis fun_upd_other)
  qed
  ultimately show ?thesis by (simp add: core_ok_def)
qed

section \<open>Ending a match\<close>

lemma core_announce [simp]: "core_of (announce_end r msg s w) = core_of w"
  by (simp add: announce_end_def split: option.split)

lemma core_fold_announce [simp]: "core_of (fold (announce_end r msg) ss w) = core_of w"
  by (simp add: core_fold)

lemma core_reset: "core_of (reset_seat s w) = a_status s StatusNone (core_of w)"
  by (simp add: reset_seat_def core_upd_seat_status)

definition a_reset :: "seat_id list \<Rightarrow> core \<Rightarrow> core" where
  "a_reset ss c = fold (\<lambda>s. a_status s StatusNone) ss c"

lemma core_fold_reset: "core_of (fold reset_seat ss w) = a_reset ss (core_of w)"
  unfolding a_reset_def by (induction ss arbitrary: w) (simp_all add: core_reset)

lemma a_reset_simps [simp]:
  "c_seats (a_reset ss c) = c_seats c" "c_pid (a_reset ss c) = c_pid c"
  "c_host (a_reset ss c) = c_host c" "c_roster (a_reset ss c) = c_roster c"
  "c_code (a_reset ss c) = c_code c" "c_user (a_reset ss c) = c_user c"
  unfolding a_reset_def by (rule fold_preserves, simp add: a_status_def)+

lemma a_reset_status: "c_status (a_reset ss c) s = (if s \<in> set ss then StatusNone else c_status c s)"
  unfolding a_reset_def by (induction ss arbitrary: c) (auto simp: a_status_def)

lemma a_status_match: "a_status s x (a_match r m b c) = a_match r m b (a_status s x c)"
  by (simp add: a_status_def a_match_def)

lemma a_reset_match: "a_reset ss (a_match r m b c) = a_match r m b (a_reset ss c)"
  unfolding a_reset_def by (induction ss arbitrary: c) (simp_all add: a_status_match)

lemma almost_reset:
  "\<lbrakk>almost_ok own r c; \<forall>s \<in> set ss. own s = r\<rbrakk> \<Longrightarrow> almost_ok own r (a_reset ss c)"
  unfolding a_reset_def by (rule fold_invariant_set) (auto intro: almost_status)

lemma a_match_twice [simp]: "a_match r m b (a_match r m' b' c) = a_match r m b c"
  by (simp add: a_match_def)

lemma reap_core_ok:
  assumes "core_ok own (core_of w)" "match_of w r = None" "n \<le> length (seats_of w r)"
  shows "core_ok own (core_of (fold (reap_at r) (rev [0..<n]) w)) \<and>
         match_of (fold (reap_at r) (rev [0..<n]) w) r = None"
  using assms
proof (induction n arbitrary: w)
  case (Suc n)
  let ?s = "seats_of w r ! n"
  have d: "distinct (seats_of w r)" using seats_okD(1) [OF core_struct [OF Suc.prems(1)]] by simp
  have "?s \<in> set (seats_of w r)" using Suc.prems(3) by simp
  then have "st_status (seat_at w ?s) \<noteq> seatActive"
    using struct_okD(2) [OF core_struct [OF Suc.prems(1)], of r] Suc.prems(2)
    by (simp add: match_ok_def)
  then have "core_ok own (core_of (reap_at r n w))"
    using Suc.prems d by (simp add: reap_at_def Let_def core_removeSeat core_ok_drop)
  moreover have "n \<le> length (seats_of (reap_at r n w) r)"
    using Suc.prems(3) by (auto simp: reap_at_def Let_def removeSeatLocked_def)
  moreover have "match_of (reap_at r n w) r = None"
    using Suc.prems(2) by (simp add: reap_at_def Let_def)
  ultimately show ?case using Suc.IH by simp
qed simp

lemma reset_rooms [simp]: "w_rooms (fold reset_seat ss w) = w_rooms w"
  by (rule fold_preserves) (simp add: reset_seat_def)

lemma core_end_persist:
  "core_of (end_persist r m w) =
   a_match r (Some (m_roster m, True)) (r_inMatch (w_rooms w r)) (core_of w)"
  by (simp add: end_persist_def Let_def core_upd_room_match)

lemma core_end_announce:
  "core_of (end_announce r m reason w) = a_match r None False (core_of w)"
  by (simp add: end_announce_def Let_def core_upd_room_match)

lemma core_endMatch:
  assumes "match_of w r = Some m" "\<not> m_ended m"
  shows "core_of (endMatchLocked r reason w) =
         core_of (end_rehost r (end_cleanup r (end_announce r m reason (end_persist r m w))))"
  using assms by (simp add: endMatchLocked_def Let_def)

lemma end_announce_match [simp]: "match_of (end_announce r m reason w) r = None"
  by (simp add: end_announce_def Let_def)

lemma end_cleanup_core_ok:
  assumes ok: "almost_ok own r c" and c4: "core_of w = a_match r None False c"
    and none: "match_of w r = None"
  shows "core_ok own (core_of (end_cleanup r w)) \<and> match_of (end_cleanup r w) r = None"
proof -
  let ?c = "a_reset (c_seats c r) c"
  have seats: "seats_of w r = c_seats c r"
    using arg_cong [OF c4, of "\<lambda>c. c_seats c r"] by (simp add: a_match_def)
  have own: "\<forall>s \<in> set (c_seats c r). own s = r"
    using seats_okD(4) [OF almost_struct [OF ok]] by blast
  have "core_of (fold reset_seat (seats_of w r) w) = a_match r None False ?c"
    by (simp add: core_fold_reset c4 seats a_reset_match)
  moreover have "core_ok own (a_match r None False ?c)"
    by (rule core_ok_end [OF almost_reset [OF ok own]]) (simp add: a_reset_status)
  ultimately show ?thesis
    unfolding end_cleanup_def Let_def using reap_core_ok none by simp
qed

lemma endMatch_core_ok:
  assumes ok: "almost_ok own r (core_of w)" and m: "match_of w r = Some m"
  shows "core_ok own (core_of (endMatchLocked r reason w))"
proof -
  let ?w = "end_announce r m reason (end_persist r m w)"
  have live: "\<not> m_ended m"
    using match_okD(1) [OF struct_okD(2) [OF almost_struct [OF ok]], of r "m_roster m" "m_ended m"] m
    by (simp add: roster_of_SomeI)
  have "core_of ?w = a_match r None False (core_of w)"
    by (simp add: core_end_announce core_end_persist)
  then have "core_ok own (core_of (end_cleanup r ?w))"
    using end_cleanup_core_ok [OF ok] by simp
  then show ?thesis by (simp add: core_endMatch [OF m live] end_rehost_def)
qed

lemma allTerminal_iff: "allTerminalLocked w r \<longleftrightarrow> match_of w r \<noteq> None \<and> \<not> live (core_of w) r"
  by (auto simp: allTerminalLocked_def live_def list_all_iff roster_of_def split: option.splits)

lemma live_no_match: "match_of w r = None \<Longrightarrow> live (core_of w) r"
  by (simp add: live_def roster_of_def)

lemma end_if_all_terminal_ok:
  assumes ok: "almost_ok own r (core_of w)"
  shows "core_ok own (core_of (end_if_all_terminal r w))"
proof (cases "allTerminalLocked w r")
  case True
  then obtain m where "match_of w r = Some m" by (auto simp: allTerminal_iff)
  then show ?thesis using True ok by (simp add: end_if_all_terminal_def endMatch_core_ok)
next
  case False
  then have "live (core_of w) r" using live_no_match by (auto simp: allTerminal_iff)
  then show ?thesis using False ok by (simp add: end_if_all_terminal_def almost_live)
qed

end
