(* ===== verification/Ws_Preserve.thy ===== *)
theory Ws_Preserve
  imports Ws_Invariant
begin

text \<open>
  Every critical section of a room keeps the invariant. A section that only sends frames, flips a
  ready flag, captures a batch or touches a timer leaves the core alone; the others are the
  abstract updates of the core, followed by the end of the match when the last racing seat is
  gone.
\<close>

section \<open>Sections that leave the core alone\<close>

lemma core_Room_ready [simp]: "core_of (Room_ready r sess v w) = core_of w"
  by (simp add: Room_ready_def split: option.split)

lemma core_unready [simp]:
  "core_of (fold (\<lambda>t. upd_seat t (\<lambda>st. st\<lparr>st_ready := False\<rparr>)) ss w) = core_of w"
  by (rule core_fold) simp

lemma core_Room_updateSettings [simp]: "core_of (Room_updateSettings r sess ns w) = core_of w"
  by (simp add: Room_updateSettings_def Let_def split: option.split)

lemma core_Room_setFreemods [simp]: "core_of (Room_setFreemods r sess fm w) = core_of w"
  by (simp add: Room_setFreemods_def split: option.split)

lemma core_Room_chat [simp]: "core_of (Room_chat r sess txt w) = core_of w"
  by (simp add: Room_chat_def Let_def split: option.split prod.split)

lemma core_relay_to [simp]: "core_of (relay_to pb s t w) = core_of w"
  by (simp add: relay_to_def split: option.split)

lemma capture_batch_core [simp]:
  "st_playerID (capture_batch eb t g st) = st_playerID st"
  "st_userID (capture_batch eb t g st) = st_userID st"
  "st_status (capture_batch eb t g st) = st_status st"
  by (simp_all add: capture_batch_def Let_def)

lemma core_Room_relayEventBatch [simp]: "core_of (Room_relayEventBatch r sess eb t w) = core_of w"
proof -
  have "core_of (fold (relay_to pb s) ss v) = core_of v" for pb s ss v
    by (rule core_fold) simp
  then show ?thesis
    by (simp add: Room_relayEventBatch_def Let_def split: option.split)
qed

lemma core_disconnect_detach [simp]: "core_of (disconnect_detach r s w) = core_of w"
  by (simp add: disconnect_detach_def Let_def)

lemma core_disconnect_arm [simp]: "core_of (disconnect_arm s w) = core_of w"
  by (simp add: disconnect_arm_def)

lemma core_Room_detachSeat [simp]: "core_of (Room_detachSeat r s w) = core_of w"
  by (simp add: Room_detachSeat_def Let_def)

lemma core_reattach_begin [simp]: "core_of (reattach_begin r sess s w) = core_of w"
  by (simp add: reattach_begin_def Let_def)

lemma core_reattach_live [simp]: "core_of (reattach_live r s b w) = core_of w"
  by (simp add: reattach_live_def Let_def)

lemma core_reattach_drain [simp]: "core_of (reattach_drain r sess s b w) = core_of w"
proof (induction r sess s b w rule: reattach_drain.induct)
  case (1 r sess s b w)
  show ?case
    by (subst reattach_drain.simps) (use 1 in \<open>simp add: Let_def\<close>)
qed

lemma core_Room_reattach [simp]: "core_of (fst (Room_reattach r sess s w)) = core_of w"
  by (simp add: Room_reattach_def Let_def)

lemma core_announce_leave [simp]: "core_of (announce_leave r nick h w) = core_of w"
  by (simp add: announce_leave_def Let_def)

lemma announce_leave_proj [simp]:
  "w_rooms (announce_leave r nick h w) = w_rooms w" "w_seats (announce_leave r nick h w) = w_seats w"
  by (simp_all add: announce_leave_def Let_def)

section \<open>Departures\<close>

lemma vacate_proj [simp]:
  "w_seats (vacate r s w) = w_seats w" "r_match (w_rooms (vacate r s w) r') = match_of w r'"
  by (simp_all add: vacate_def Let_def)

lemma core_vacate:
  assumes "distinct (seats_of w r)"
  shows "core_ok own (core_of (vacate r s w)) = core_ok own (a_drop r s (core_of w))"
    and "almost_ok own r' (core_of (vacate r s w)) = almost_ok own r' (a_drop r s (core_of w))"
  using assms by (simp_all add: vacate_def Let_def core_removeFromSeats)

lemma vacate_almost:
  assumes ok: "almost_ok own r' (core_of w)"
    and na: "s \<in> set (seats_of w r) \<Longrightarrow> st_status (seat_at w s) \<noteq> seatActive"
  shows "almost_ok own r' (core_of (vacate r s w))"
proof -
  have d: "distinct (seats_of w r)" using seats_okD(1) [OF almost_struct [OF ok]] by simp
  show ?thesis
  proof (cases "s \<in> set (seats_of w r)")
    case True
    then show ?thesis using ok na by (simp add: core_vacate(2) [OF d] almost_drop)
  next
    case False
    then show ?thesis using ok by (simp add: core_vacate(2) [OF d] a_drop_def)
  qed
qed

lemma idle_seat_not_racing:
  assumes "struct_ok own (core_of w)" "match_of w r = None" "s \<in> set (seats_of w r)"
  shows "st_status (seat_at w s) \<noteq> seatActive"
  using struct_okD(2) [OF assms(1), of r] assms(2,3) by (simp add: match_ok_def)

lemma leaveSeat_core_ok:
  assumes ok: "core_ok own (core_of w)" and own: "own s = r"
  shows "core_ok own (core_of (leaveSeatLocked r s w))"
proof -
  define mid where "mid = (match_of w r \<noteq> None \<and> st_status (seat_at w s) = seatActive)"
  define w1 where "w1 = (if mid then upd_seat s (\<lambda>st. st\<lparr>st_status := StatusLeft, st_sess := None\<rparr>) w else w)"
  define w4 where "w4 = announce_leave r (st_nick (seat_at w s)) (is_host w1 r s)
    (if mid then broadcastPeerStatusLocked r (st_playerID (seat_at w s)) StatusLeft (vacate r s w1)
     else vacate r s w1)"
  have "almost_ok own r (core_of w1)"
    using core_ok_almost [OF ok] own by (simp add: w1_def core_upd_seat_status almost_status)
  moreover have "st_status (seat_at w1 s) \<noteq> seatActive" if "s \<in> set (seats_of w1 r)"
    using that idle_seat_not_racing [OF core_struct [OF ok], of r s]
    by (auto simp: w1_def mid_def split: if_splits)
  ultimately have "almost_ok own r (core_of (vacate r s w1))"
    by (rule vacate_almost)
  then have "almost_ok own r (core_of w4)" by (simp add: w4_def)
  then have "core_ok own (core_of (end_if_all_terminal r w4))" by (rule end_if_all_terminal_ok)
  moreover have ends: "(match_of v r \<noteq> None \<and> allTerminalLocked v r) = allTerminalLocked v r" for v
    by (auto simp: allTerminal_iff)
  have "leaveSeatLocked r s w = end_if_all_terminal r w4"
    unfolding leaveSeatLocked_def Let_def ends end_if_all_terminal_def w4_def w1_def mid_def
    by (rule refl)
  ultimately show ?thesis by simp
qed

lemma leave_locked_core_ok:
  assumes ok: "core_ok own (core_of w)"
  shows "core_ok own (core_of (Room_leave_locked r sess w))"
proof (cases "findSeatLocked w r sess")
  case (Some s)
  then have "s \<in> set (seats_of w r)" by (auto simp: findSeatLocked_def dest: find_first_Some)
  then have "own s = r" using seats_okD(4) [OF core_struct [OF ok]] by simp
  then show ?thesis using Some leaveSeat_core_ok [OF ok, of s r] by (simp add: Room_leave_locked_def)
qed (use ok in \<open>simp add: Room_leave_locked_def\<close>)

lemma releaseSeat_core_ok:
  assumes "core_ok own (core_of w)" "own s = r"
  shows "core_ok own (core_of (fst (Room_releaseSeat r s w)))"
  using assms leaveSeat_core_ok by (simp add: Room_releaseSeat_def Let_def)

lemma grace_expire_core_ok:
  assumes ok: "core_ok own (core_of w)" and own: "own s = r"
  shows "core_ok own (core_of (onGraceExpire_locked r s w))"
proof -
  let ?mid = "match_of w r \<noteq> None \<and> st_status (seat_at w s) = seatActive"
  define w2 where "w2 = broadcastPeerStatusLocked r (st_playerID (seat_at w s)) StatusDNF
                          (upd_seat s (\<lambda>st. st\<lparr>st_status := StatusDNF\<rparr>) w)"
  define w1 where "w1 = upd_seat s (\<lambda>st. st\<lparr>st_disconnected := False\<rparr>) w"
  have "almost_ok own r (core_of w2)"
    using core_ok_almost [OF ok] own by (simp add: w2_def core_upd_seat_status almost_status)
  then have "almost_ok own r (core_of (vacate r s w2))"
    by (rule vacate_almost) (simp add: w2_def)
  from end_if_all_terminal_ok [OF this]
  have racing: ?thesis if ?mid
    using ok that by (simp add: onGraceExpire_locked_def Let_def end_if_all_terminal_def w2_def
        split: if_splits)
  have c1: "core_of w1 = core_of w" by (simp add: w1_def)
  have idle: "core_ok own (core_of (vacate r s w1))" if mid: "\<not> ?mid"
  proof -
    have na: "st_status (seat_at w1 s) \<noteq> seatActive" if "s \<in> set (seats_of w1 r)"
      using that mid idle_seat_not_racing [OF core_struct [OF ok], of r s] by (auto simp: w1_def)
    have "almost_ok own r' (core_of (vacate r s w1))" for r'
      by (rule vacate_almost [OF _ na]) (simp_all add: c1 core_ok_almost [OF ok])
    from this [of r] this [of "Suc r"] show ?thesis
      unfolding almost_ok_def core_ok_def by (metis n_not_Suc_n)
  qed
  have ?thesis if "\<not> ?mid"
    using ok idle [OF that] unfolding onGraceExpire_locked_def Let_def if_not_P [OF that] w1_def
    by simp
  then show ?thesis using racing by blast
qed

section \<open>Lobby commands that change the core\<close>

lemma kick_core_ok:
  assumes ok: "core_ok own (core_of w)"
  shows "core_ok own (core_of (Room_kick r sess pid w))"
proof -
  note st = core_struct [OF ok]
  let ?P = "\<lambda>s. st_playerID (seat_at w s) = pid"
  define i where "i = nat (seatIndexByIDLocked w r pid)"
  have d: "distinct (seats_of w r)" using seats_okD(1) [OF st] by simp
  have "core_ok own (core_of (removeSeatLocked r i w))"
    if "\<not> r_inMatch (w_rooms w r)" "\<not> seatIndexByIDLocked w r pid < 0"
  proof -
    have "list_ex ?P (seats_of w r)"
      using that(2) unfolding seatIndexByIDLocked_def index_from_neg_iff by simp
    then have i: "i < length (seats_of w r)"
      using index_from_nth unfolding i_def seatIndexByIDLocked_def by blast
    have "match_of w r = None"
      using struct_okD(2) [OF st, of r] that(1) by (simp add: match_ok_def)
    then have "st_status (seat_at w (seats_of w r ! i)) \<noteq> seatActive"
      using idle_seat_not_racing [OF st] i nth_mem by blast
    then show ?thesis using ok by (simp add: core_removeSeat [OF d i] core_ok_drop)
  qed
  then show ?thesis
    using ok unfolding Room_kick_def Let_def i_def [symmetric] by (auto split: option.splits)
qed

lemma transferHost_core_ok:
  "core_ok own (core_of w) \<Longrightarrow> core_ok own (core_of (Room_transferHost r sess pid w))"
  by (simp add: Room_transferHost_def Let_def split: option.split)

section \<open>The match\<close>

lemma finish_window_core [simp]:
  "core_of (upd_room r (\<lambda>x. x\<lparr>r_match := map_option (\<lambda>m. m\<lparr>m_finishWindow := True\<rparr>) (r_match x)\<rparr>) w) =
   core_of w"
  by (rule core_upd_room) (simp_all add: roster_of_def option.map_comp comp_def)

lemma found_seat_own:
  assumes "struct_ok own (core_of w)" "findSeatLocked w r sess = Some s"
  shows "own s = r" "s \<in> set (seats_of w r)"
proof -
  show "s \<in> set (seats_of w r)" using assms(2) by (auto simp: findSeatLocked_def dest: find_first_Some)
  then show "own s = r" using seats_okD(4) [OF assms(1)] by simp
qed

lemma retire_almost:
  assumes "almost_ok own r (core_of w)" "own s = r" "st_status (f (seat_at w s)) \<noteq> seatActive"
    "st_playerID (f (seat_at w s)) = st_playerID (seat_at w s)"
    "st_userID (f (seat_at w s)) = st_userID (seat_at w s)"
  shows "almost_ok own r (core_of (upd_seat s f w))"
  using assms by (simp add: core_upd_seat_status almost_status)

lemma finish_core_ok:
  assumes ok: "core_ok own (core_of w)"
  shows "core_ok own (core_of (Room_finish r sess mid forfeit w))"
proof (cases "findSeatLocked w r sess")
  case (Some s)
  note own = found_seat_own(1) [OF core_struct [OF ok] Some]
  define w1 where "w1 = broadcastPeerStatusLocked r (st_playerID (seat_at w s)) StatusDNF
                          (upd_seat s (\<lambda>st. st\<lparr>st_status := StatusDNF\<rparr>) w)"
  define w2 where "w2 = broadcastPeerStatusLocked r (st_playerID (seat_at w s)) StatusFinished
                          (upd_seat s (\<lambda>st. st\<lparr>st_status := StatusFinished, st_finishedAtMs := w_now w\<rparr>) w)"
  have "almost_ok own r (core_of w1)" "almost_ok own r (core_of w2)"
    using core_ok_almost [OF ok] own by (simp_all add: w1_def w2_def retire_almost)
  from this [THEN end_if_all_terminal_ok]
  have "core_ok own (core_of (end_if_all_terminal r w1))"
    "core_ok own (core_of (end_if_all_terminal r w2))" .
  then show ?thesis
    using ok unfolding Room_finish_def Let_def Some option.case w1_def [symmetric] w2_def [symmetric]
    by (auto simp: end_if_all_terminal_def split: option.splits if_splits)
qed (use ok in \<open>simp add: Room_finish_def\<close>)

lemma dnf_active_almost:
  "\<lbrakk>almost_ok own r (core_of w); own s = r\<rbrakk> \<Longrightarrow> almost_ok own r (core_of (dnf_active r s w))"
  by (simp add: dnf_active_def retire_almost)

lemma dnf_active_match [simp]: "match_of (dnf_active r s w) r' = match_of w r'"
  by (simp add: dnf_active_def)

lemma fold_dnf_match [simp]: "match_of (fold (dnf_active r) ss w) r' = match_of w r'"
  by (rule fold_preserves) simp

lemma roster_own:
  assumes "struct_ok own (core_of w)" "match_of w r = Some m" "s \<in> set (m_roster m)"
  shows "own s = r"
  using match_okD(4) [OF struct_okD(2) [OF assms(1)], of r "m_roster m" "m_ended m" s] assms(2,3)
  by (simp add: roster_of_SomeI)

lemma force_end_core_ok:
  assumes ok: "core_ok own (core_of w)"
  shows "core_ok own (core_of (force_end r mid reason w))"
proof (cases "match_of w r")
  case (Some m)
  have "almost_ok own r (core_of (fold (dnf_active r) (m_roster m) w))"
    by (rule fold_invariant_set [of "\<lambda>w. almost_ok own r (core_of w)"])
      (use core_ok_almost [OF ok] dnf_active_almost roster_own [OF core_struct [OF ok] Some] in auto)
  then show ?thesis
    using ok Some endMatch_core_ok [of own r "fold (dnf_active r) (m_roster m) w" m reason]
    by (simp add: force_end_def)
qed (use ok in \<open>simp add: force_end_def\<close>)

lemma sweepAfk_core_ok:
  assumes ok: "core_ok own (core_of w)"
  shows "core_ok own (core_of (fst (sweepAfk_locked r mid w)))"
proof (cases "match_of w r")
  case (Some m)
  define vk where "vk = fold (sweep_seat r m) (m_roster m) (w, False)"
  let ?P = "\<lambda>(v, k). almost_ok own r (core_of v) \<and> (\<not> k \<longrightarrow> v = w)"
  have "?P vk"
    unfolding vk_def
  proof (rule fold_invariant_set [of ?P])
    show "?P (w, False)" using core_ok_almost [OF ok] by simp
    show "?P (sweep_seat r m s vk)" if "s \<in> set (m_roster m)" "?P vk" for s vk
      using that roster_own [OF core_struct [OF ok] Some]
      by (auto simp: sweep_seat_def retire_almost split: prod.splits if_splits)
  qed
  then obtain v k where v: "vk = (v, k)" "almost_ok own r (core_of v)" "\<not> k \<longrightarrow> v = w"
    by (cases vk) auto
  have "core_ok own (core_of (if k \<and> allTerminalLocked v r then endMatchLocked r ReasonAllFinished v else v))"
    using end_if_all_terminal_ok [OF v(2)] v(3) ok by (auto simp: end_if_all_terminal_def)
  then show ?thesis
    using ok Some v(1) by (auto simp: sweepAfk_locked_def vk_def split: if_splits)
qed (use ok in \<open>simp add: sweepAfk_locked_def\<close>)

definition a_start :: "room_id \<Rightarrow> core \<Rightarrow> core" where
  "a_start r c =
     a_match r (Some (c_seats c r, False)) True (fold (\<lambda>s. a_status s seatActive) (c_seats c r) c)"

lemma fold_a_status:
  "fold (\<lambda>s. a_status s x) ss c = c\<lparr>c_status := (\<lambda>s. if s \<in> set ss then x else c_status c s)\<rparr>"
  by (induction ss arbitrary: c) (auto simp: a_status_def fun_eq_iff)

lemma a_start_simps [simp]:
  "c_seats (a_start r c) = c_seats c" "c_nextSeat (a_start r c) = c_nextSeat c"
  "c_users (a_start r c) = c_users c" "c_user (a_start r c) = c_user c"
  "c_rooms (a_start r c) = c_rooms c" "c_nextRoom (a_start r c) = c_nextRoom c"
  "c_code (a_start r c) = c_code c" "c_graces (a_start r c) = c_graces c"
  "c_roster (a_start r c) = (c_roster c)(r \<mapsto> (c_seats c r, False))"
  "c_inMatch (a_start r c) = (c_inMatch c)(r := True)"
  "c_status (a_start r c) s = (if s \<in> set (c_seats c r) then seatActive else c_status c s)"
  "c_host (a_start r c) = c_host c" "c_pid (a_start r c) = c_pid c"
  by (simp_all add: a_start_def fold_a_status a_match_def)

lemma core_ok_start:
  assumes ok: "core_ok own c" and ne: "c_seats c r \<noteq> []"
  shows "core_ok own (a_start r c)"
proof -
  let ?c = "a_start r c"
  note st = core_struct [OF ok]
  have other: "c_status ?c s = c_status c s" if "own s \<noteq> r" for s
    using seats_okD(4) [OF st] that by auto
  have "match_ok own ?c r'" for r'
  proof (cases "r' = r")
    case True
    then show ?thesis
      using struct_okD(1) [OF st, of r] by (intro match_okI) (auto simp: seats_ok_def)
  next
    case False
    show ?thesis
    proof (rule match_okI)
      fix s assume "c_roster ?c r' = None" "s \<in> set (c_seats ?c r')"
      then show "c_status ?c s \<noteq> seatActive"
        using struct_okD(2) [OF st, of r'] seats_okD(4) [OF st, of s r'] False other [of s]
        unfolding match_ok_def by simp
    qed (use struct_okD(2) [OF st, of r'] False other in \<open>auto simp: match_ok_def simp del: a_start_simps(11)\<close>)
  qed
  moreover have "table_ok ?c"
  proof -
    note T = table_okD [OF struct_okD(4) [OF st]]
    have "r < c_nextRoom c" using T(1) T(2) [OF ne] by blast
    then show ?thesis using struct_okD(4) [OF st] unfolding table_ok_def a_start_simps by auto
  qed
  moreover have "seats_ok own ?c = seats_ok own c" "index_ok ?c = index_ok c"
    "graces_ok own ?c = graces_ok own c"
    by (rule seats_ok_cong index_ok_cong graces_ok_cong; simp)+
  ultimately have "struct_ok own ?c" using st by (simp add: struct_ok_def)
  moreover have "live ?c r'" for r'
  proof (cases "r' = r")
    case True
    then show ?thesis using ne by (auto simp: live_def) (meson list.set_sel(1))
  next
    case False
    have "c_status ?c s = c_status c s" if "c_roster c r' = Some (ro, e)" "s \<in> set ro" for ro e s
      using match_okD(4) [OF struct_okD(2) [OF st] that] False other by blast
    then show ?thesis using ok False unfolding core_ok_def live_def by (metis a_start_simps(9) fun_upd_other)
  qed
  ultimately show ?thesis by (simp add: core_ok_def)
qed

lemma core_enter_match: "core_of (fold (enter_match g) ss w) = fold (\<lambda>s. a_status s seatActive) ss (core_of w)"
  by (induction ss arbitrary: w) (simp_all add: enter_match_def core_upd_seat_status)

lemma enter_match_rooms [simp]: "w_rooms (fold (enter_match g) ss w) = w_rooms w"
  by (rule fold_preserves) (simp add: enter_match_def)

lemma core_start_match: "core_of (start_match r e w) = a_start r (core_of w)"
  by (simp add: start_match_def Let_def core_upd_room_match core_enter_match a_start_def)

lemma startMatch_core_ok:
  assumes "core_ok own (core_of w)"
  shows "core_ok own (core_of (Room_startMatch r sess force e w))"
proof -
  have "core_ok own (core_of (start_match r e w))" if "\<not> length (seats_of w r) < 2"
    using core_ok_start [OF assms, of r] that by (cases "seats_of w r") (simp_all add: core_start_match)
  then show ?thesis
    using assms unfolding Room_startMatch_def by (auto split: option.splits)
qed

section \<open>Seating\<close>

lemma core_indexSeat_new:
  assumes "s = w_nextSeat w"
  shows "core_of (indexSeat r s (touchLocked r
      (upd_room r (\<lambda>x. x\<lparr>r_nextSeq := Suc (r_nextSeq x), r_seats := r_seats x @ [s]\<rparr>)
        ((upd_seat s (\<lambda>_. st) w)\<lparr>w_nextSeat := Suc s\<rparr>)))) =
    a_status s (st_status st) (a_add r (st_playerID st) (st_userID st) (core_of w))"
  using assms
  by (auto simp: indexSeat_def touchLocked_def core_of_def a_add_def a_status_def Let_def fun_eq_iff)

lemma core_Room_seat:
  assumes "Room_seat r sess asHost draws w = Some (w', True)"
  shows "core_of w' =
    (let c = a_add r (s_playerID (w_sessions w sess)) (s_userID (w_sessions w sess)) (core_of w)
     in if asHost then a_host r (s_playerID (w_sessions w sess)) c else c)"
    and "length (seats_of w r) < roomCapacity"
proof -
  have status: "a_status (w_nextSeat w) StatusNone (a_add r p u (core_of w)) = a_add r p u (core_of w)" for p u
    by (simp add: a_status_def a_add_def Let_def)
  show "core_of w' =
    (let c = a_add r (s_playerID (w_sessions w sess)) (s_userID (w_sessions w sess)) (core_of w)
     in if asHost then a_host r (s_playerID (w_sessions w sess)) c else c)"
    using assms
    by (auto simp: Room_seat_def Let_def core_indexSeat_new seat_for_def blankSeat_def status
        split: option.splits if_splits)
  show "length (seats_of w r) < roomCapacity"
    using assms by (auto simp: Room_seat_def split: if_splits)
qed

end
