(* ===== verification/Registry_Ops.thy ===== *)
theory Registry_Ops
  imports Ws_Preserve
begin

text \<open>
  The registry (\<open>internal/ws/registry.go\<close>): room codes, the creation and joining of rooms under
  the account rule "one seat per account", the grace list, and the handlers that follow a room's
  critical section with a registry call (\<open>leave\<close>, grace expiry, the deadline, the finish window,
  the AFK sweep, the idle reaper). The last section is the public room list (\<open>lobby.go\<close>).
\<close>

section \<open>Room codes\<close>

text \<open>The bytes read from \<open>crypto/rand\<close> are an input.\<close>

definition newRoomCode :: "nat list \<Rightarrow> string" where
  "newRoomCode bs = map (\<lambda>b. roomCodeAlphabet ! (b mod length roomCodeAlphabet)) bs"

fun freeCodeLocked :: "world \<Rightarrow> nat list list \<Rightarrow> string option" where
  "freeCodeLocked w [] = None"
| "freeCodeLocked w (b # bs) =
     (if reg_rooms w (newRoomCode b) = None then Some (newRoomCode b) else freeCodeLocked w bs)"

definition normalizeCode :: "(rune \<Rightarrow> rune) \<Rightarrow> string \<Rightarrow> string" where
  "normalizeCode up code = ToUpper up (TrimSpace code)"

section \<open>Create and join\<close>

record seat_outcome =
  so_room :: "room_id option"
  so_reclaim :: "seat_id option"
  so_errCode :: "err_code option"

definition removeIfEmptyLocked :: "string \<Rightarrow> world \<Rightarrow> world" where
  "removeIfEmptyLocked code w =
     (case reg_rooms w code of
        None \<Rightarrow> w
      | Some r \<Rightarrow> if Room_empty w r then w\<lparr>reg_rooms := (reg_rooms w)(code := None)\<rparr> else w)"

definition open_room :: "string \<Rightarrow> world \<Rightarrow> world" where
  "open_room code w =
     (upd_room (w_nextRoom w) (\<lambda>_. newRoom code (w_now w)) w)
       \<lparr>w_nextRoom := Suc (w_nextRoom w), reg_rooms := (reg_rooms w)(code \<mapsto> w_nextRoom w)\<rparr>"

text \<open>
  The seat the account already holds is released before it takes another one; \<open>False\<close> when that
  seat is racing a match.
\<close>

definition release_held :: "room_id \<Rightarrow> seat_id \<Rightarrow> world \<Rightarrow> world \<times> bool" where
  "release_held cur s w =
     (let (w1, ok) = Room_releaseSeat cur s w
      in if ok then (removeIfEmptyLocked (r_code (w_rooms w1 cur)) w1, True) else (w1, False))"

definition Registry_create :: "sess_id \<Rightarrow> env \<Rightarrow> world \<Rightarrow> (world \<times> seat_outcome) option" where
  "Registry_create sess e w =
     (let (w1, ok) = (case seatOfUser w (s_userID (w_sessions w sess)) of
                        None \<Rightarrow> (w, True) | Some (cur, s) \<Rightarrow> release_held cur s w)
      in if \<not> ok
         then Some (w1, \<lparr>so_room = None, so_reclaim = None, so_errCode = Some CodeInMatchElsewhere\<rparr>)
         else case freeCodeLocked w1 (e_codes e) of
           None \<Rightarrow> None
         | Some code \<Rightarrow>
             map_option
               (\<lambda>(w2, _). (w2, \<lparr>so_room = Some (w_nextRoom w1), so_reclaim = None, so_errCode = None\<rparr>))
               (Room_seat (w_nextRoom w1) sess True (e_nicks e) (open_room code w1)))"

definition join_seat :: "room_id \<Rightarrow> sess_id \<Rightarrow> env \<Rightarrow> world \<Rightarrow> (world \<times> seat_outcome) option" where
  "join_seat r sess e w =
     map_option
       (\<lambda>(w1, seated).
          if seated then (w1, \<lparr>so_room = Some r, so_reclaim = None, so_errCode = None\<rparr>)
          else (w1, \<lparr>so_room = None, so_reclaim = None, so_errCode = Some CodeRoomFull\<rparr>))
       (Room_seat r sess False (e_nicks e) w)"

definition Registry_join :: "string \<Rightarrow> sess_id \<Rightarrow> env \<Rightarrow> world \<Rightarrow> (world \<times> seat_outcome) option" where
  "Registry_join code0 sess e w =
     (case reg_rooms w (normalizeCode (e_upper e) code0) of
        None \<Rightarrow> Some (w, \<lparr>so_room = None, so_reclaim = None, so_errCode = Some CodeRoomNotFound\<rparr>)
      | Some r \<Rightarrow>
          (case seatOfUser w (s_userID (w_sessions w sess)) of
             Some (cur, s) \<Rightarrow>
               if cur = r
               then Some (Room_detachSeat r s w,
                          \<lparr>so_room = Some r, so_reclaim = Some s, so_errCode = None\<rparr>)
               else if Room_full w r
               then Some (w, \<lparr>so_room = None, so_reclaim = None, so_errCode = Some CodeRoomFull\<rparr>)
               else
                 let (w1, ok) = release_held cur s w
                 in if \<not> ok
                    then Some (w1, \<lparr>so_room = None, so_reclaim = None,
                                    so_errCode = Some CodeInMatchElsewhere\<rparr>)
                    else join_seat r sess e w1
           | None \<Rightarrow>
               if Room_full w r
               then Some (w, \<lparr>so_room = None, so_reclaim = None, so_errCode = Some CodeRoomFull\<rparr>)
               else join_seat r sess e w))"

section \<open>The grace list\<close>

fun drop_token :: "string \<Rightarrow> grace_entry list \<Rightarrow> grace_entry list" where
  "drop_token t [] = []"
| "drop_token t (g # gs) = (if g_token g = t then gs else g # drop_token t gs)"

definition claimGrace :: "string \<Rightarrow> world \<Rightarrow> world \<times> (room_id \<times> seat_id) option" where
  "claimGrace t w =
     (case find_first (\<lambda>g. g_token g = t) (reg_graces w) of
        None \<Rightarrow> (w, None)
      | Some g \<Rightarrow> (w\<lparr>reg_graces := drop_token t (reg_graces w)\<rparr>, Some (g_room g, g_seat g)))"

definition removeGrace :: "string \<Rightarrow> world \<Rightarrow> world" where
  "removeGrace t w = w\<lparr>reg_graces := drop_token t (reg_graces w)\<rparr>"

section \<open>Handlers that end with a registry call\<close>

definition Room_leave :: "room_id \<Rightarrow> sess_id \<Rightarrow> world \<Rightarrow> world" where
  "Room_leave r sess w =
     (case findSeatLocked w r sess of
        None \<Rightarrow> w
      | Some s \<Rightarrow> let w1 = leaveSeatLocked r s w in removeIfEmptyLocked (r_code (w_rooms w1 r)) w1)"

definition onGraceExpire :: "room_id \<Rightarrow> seat_id \<Rightarrow> world \<Rightarrow> world" where
  "onGraceExpire r s w =
     (let w1 = onGraceExpire_locked r s w;
          w2 = removeGrace (st_resumeToken (seat_at w1 s)) w1
      in removeIfEmptyLocked (r_code (w_rooms w2 r)) w2)"

definition match_guard :: "world \<Rightarrow> room_id \<Rightarrow> string \<Rightarrow> bool" where
  "match_guard w r matchID =
     (case match_of w r of None \<Rightarrow> False | Some m \<Rightarrow> m_id m = matchID \<and> \<not> m_ended m)"

definition onDeadline :: "room_id \<Rightarrow> string \<Rightarrow> world \<Rightarrow> world" where
  "onDeadline r matchID w =
     (if \<not> match_guard w r matchID then w
      else let w1 = onDeadline_locked r matchID w in removeIfEmptyLocked (r_code (w_rooms w1 r)) w1)"

definition onFinishWindow :: "room_id \<Rightarrow> string \<Rightarrow> world \<Rightarrow> world" where
  "onFinishWindow r matchID w =
     (if \<not> match_guard w r matchID then w
      else let w1 = onFinishWindow_locked r matchID w
           in removeIfEmptyLocked (r_code (w_rooms w1 r)) w1)"

definition sweepAfk :: "room_id \<Rightarrow> string \<Rightarrow> world \<Rightarrow> world \<times> bool" where
  "sweepAfk r matchID w =
     (let (w1, ended) = sweepAfk_locked r matchID w
      in if match_guard w r matchID \<and> ended
         then (removeIfEmptyLocked (r_code (w_rooms w1 r)) w1, True) else (w1, ended))"

section \<open>The idle reaper\<close>

lemma reap_at_length: "length (seats_of (reap_at r i w) r) \<le> length (seats_of w r)"
  by (auto simp: reap_at_def removeSeatLocked_def Let_def)

lemma fold_reap_length: "length (seats_of (fold (reap_at r) is w) r) \<le> length (seats_of w r)"
  by (induction "is" arbitrary: w) (auto intro: order_trans [OF _ reap_at_length])

lemma announce_end_rooms [simp]: "w_rooms (announce_end r msg s w) = w_rooms w"
  by (simp add: announce_end_def split: option.split)

lemma fold_announce_rooms [simp]: "w_rooms (fold (announce_end r msg) ss w) = w_rooms w"
  by (rule fold_preserves) simp

lemma endMatch_length: "length (seats_of (endMatchLocked r reason w) r) \<le> length (seats_of w r)"
proof -
  have "seats_of (end_persist r m w) r = seats_of w r" for m w
    by (simp add: end_persist_def Let_def)
  moreover have "seats_of (end_announce r m reason w) r = seats_of w r" for m w
    by (simp add: end_announce_def Let_def)
  moreover have "seats_of (end_rehost r w) r = seats_of w r" for w
    by (simp add: end_rehost_def)
  moreover have "length (seats_of (end_cleanup r w) r) \<le> length (seats_of w r)" for w
    using fold_reap_length [of r _ "fold reset_seat (seats_of w r) w"]
    by (simp add: end_cleanup_def Let_def)
  ultimately show ?thesis
    by (auto simp: endMatchLocked_def Let_def split: option.split) metis
qed

lemma vacate_head_length:
  assumes "seats_of w r = s # ss"
  shows "length (seats_of (vacate r s w) r) < length (seats_of w r)"
  using assms
  by (simp add: vacate_def Let_def removeFromSeatsLocked_def removeSeatLocked_def)

lemma leaveSeat_head_length:
  assumes "seats_of w r = s # ss"
  shows "length (seats_of (leaveSeatLocked r s w) r) < length (seats_of w r)"
proof -
  define w1 where "w1 = (if match_of w r \<noteq> None \<and> st_status (seat_at w s) = seatActive
    then upd_seat s (\<lambda>st. st\<lparr>st_status := StatusLeft, st_sess := None\<rparr>) w else w)"
  have "seats_of w1 r = s # ss" using assms by (simp add: w1_def)
  then have lt: "length (seats_of (vacate r s w1) r) < length (seats_of w r)"
    using vacate_head_length [of w1 r s ss] assms by simp
  have "length (seats_of (endMatchLocked r reason v) r) < length (seats_of w r)"
    if "length (seats_of v r) < length (seats_of w r)" for reason v
    using endMatch_length [of r reason v] that by linarith
  then show ?thesis
    using lt unfolding leaveSeatLocked_def Let_def w1_def [symmetric] by simp
qed

text \<open>The loop \<open>for len(room.seats) > 0 { leaveSeatLocked(room.seats[0]) }\<close>.\<close>

function close_room :: "room_id \<Rightarrow> world \<Rightarrow> world" where
  "close_room r w =
     (case seats_of w r of [] \<Rightarrow> w | s # _ \<Rightarrow> close_room r (leaveSeatLocked r s w))"
  by pat_completeness auto
termination
  by (relation "measure (\<lambda>(r, w). length (seats_of w r))") (use leaveSeat_head_length in auto)

declare close_room.simps [simp del]

definition reap_room :: "int \<Rightarrow> room_id \<Rightarrow> world \<times> string list \<Rightarrow> world \<times> string list" where
  "reap_room now r we =
     (let (w, emptied) = we; (warn, expire) = idleStateLocked w r now in
      if warn
      then (systemChatLocked r ChatKindLeave
              ''this room has been idle for an hour and will close in a minute''
              (upd_room r (\<lambda>x. x\<lparr>r_idleWarned := True\<rparr>) w), emptied)
      else if expire then (let w1 = close_room r w in (w1, emptied @ [r_code (w_rooms w1 r)]))
      else (w, emptied))"

text \<open>
  One sweep. Go iterates over the room map in no particular order: \<open>order\<close> is the sequence of rooms
  the iteration produced.
\<close>

definition reapIdleRooms :: "int \<Rightarrow> room_id list \<Rightarrow> world \<Rightarrow> world" where
  "reapIdleRooms now order w =
     (let (w1, emptied) = fold (reap_room now) order (w, [])
      in fold removeIfEmptyLocked emptied w1)"

section \<open>The public room list\<close>

record room_view =
  rv_code :: string
  rv_name :: string
  rv_playerCount :: nat
  rv_maxPlayers :: nat
  rv_inMatch :: bool
  rv_mode :: string
  rv_durationMs :: "int option"
  rv_wordCount :: "int option"
  rv_lang :: string
  rv_created :: int

definition lobbyEntryOf :: "world \<Rightarrow> room_id \<Rightarrow> room_view option" where
  "lobbyEntryOf w r =
     (let x = w_rooms w r; st = r_settings x in
      if Visibility st \<noteq> VisibilityOpen \<or> r_seats x = [] then None
      else Some
        \<lparr>rv_code = r_code x, rv_name = Name st, rv_playerCount = length (r_seats x),
         rv_maxPlayers = roomCapacity, rv_inMatch = r_inMatch x, rv_mode = Mode st,
         rv_durationMs = (if Mode st = ModeTime then Some (DurationMs st) else None),
         rv_wordCount = (if Mode st = ModeTime then None
                         else if IsCounted (Mode st) then Some (WordCount st) else None),
         rv_lang = Lang st, rv_created = r_createdAt x\<rparr>)"

text \<open>The comparator of \<open>slices.SortFunc\<close>: fullest first, then oldest, then the code.\<close>

definition lobby_le :: "room_view \<Rightarrow> room_view \<Rightarrow> bool" where
  "lobby_le a b =
     (if rv_playerCount a \<noteq> rv_playerCount b then rv_playerCount b < rv_playerCount a
      else if rv_created a \<noteq> rv_created b then rv_created a < rv_created b
      else bytes_le (rv_code a) (rv_code b))"

fun lobby_insert :: "room_view \<Rightarrow> room_view list \<Rightarrow> room_view list" where
  "lobby_insert a [] = [a]"
| "lobby_insert a (b # bs) = (if lobby_le a b then a # b # bs else b # lobby_insert a bs)"

definition openRooms :: "world \<Rightarrow> room_id list \<Rightarrow> room_view list" where
  "openRooms w order = foldr lobby_insert (List.map_filter (lobbyEntryOf w) order) []"

end
