(* ===== verification/Registry_Preserve.thy ===== *)
theory Registry_Preserve
  imports Registry_Ops
begin

text \<open>
  The registry keeps the invariant. A departure only shrinks the seat lists (\<open>shrink\<close>), so an
  account whose seat was released holds none; that is what makes the seat taken next the only one.
\<close>

section \<open>Departures shrink the seat lists\<close>

definition shrink :: "core \<Rightarrow> core \<Rightarrow> bool" where
  "shrink c c' \<longleftrightarrow>
     (\<forall>r. set (c_seats c' r) \<subseteq> set (c_seats c r)) \<and> c_user c' = c_user c \<and> c_pid c' = c_pid c \<and>
     c_code c' = c_code c \<and> c_rooms c' = c_rooms c \<and> c_nextSeat c' = c_nextSeat c \<and>
     c_nextRoom c' = c_nextRoom c \<and> c_graces c' = c_graces c"

lemma shrink_refl [simp]: "shrink c c"
  by (simp add: shrink_def)

lemma shrink_trans: "\<lbrakk>shrink a b; shrink b c\<rbrakk> \<Longrightarrow> shrink a c"
  unfolding shrink_def by (simp, blast)

lemma shrink_status [simp]: "shrink c (a_status s x c')  = shrink c c'"
  by (simp add: shrink_def a_status_def)

lemma shrink_host [simp]: "shrink c (a_host r h c') = shrink c c'"
  by (simp add: shrink_def a_host_def)

lemma shrink_match [simp]: "shrink c (a_match r m b c') = shrink c c'"
  by (simp add: shrink_def a_match_def)

lemma shrink_reset [simp]: "shrink c (a_reset ss c') = shrink c c'"
  unfolding a_reset_def by (induction ss arbitrary: c') simp_all

lemma shrink_removeSeat: "shrink (core_of w) (core_of (removeSeatLocked r i w))"
  by (auto simp: shrink_def removeSeatLocked_def a_unindex_def fun_eq_iff
      dest: in_set_takeD in_set_dropD)

lemma shrink_removeFromSeats: "shrink (core_of w) (core_of (removeFromSeatsLocked r s w))"
  by (simp add: removeFromSeatsLocked_def Let_def shrink_removeSeat)

lemma shrink_vacate: "shrink (core_of w) (core_of (vacate r s w))"
  by (simp add: vacate_def Let_def shrink_removeFromSeats)

lemma shrink_reap: "shrink (core_of w) (core_of (fold (reap_at r) is w))"
proof (induction "is" arbitrary: w)
  case (Cons i "is")
  have "shrink (core_of w) (core_of (reap_at r i w))"
    by (simp add: reap_at_def Let_def shrink_removeSeat)
  then show ?case using Cons [of "reap_at r i w"] shrink_trans by simp
qed simp

lemma shrink_endMatch: "shrink (core_of w) (core_of (endMatchLocked r reason w))"
proof (cases "\<exists>m. match_of w r = Some m \<and> \<not> m_ended m")
  case True
  then obtain m where m: "match_of w r = Some m" "\<not> m_ended m" by blast
  let ?v = "end_announce r m reason (end_persist r m w)"
  let ?u = "fold reset_seat (seats_of ?v r) ?v"
  have "shrink (core_of w) (core_of ?u)"
    by (simp add: core_fold_reset core_end_announce core_end_persist)
  moreover have "shrink (core_of ?u) (core_of (end_cleanup r ?v))"
    unfolding end_cleanup_def Let_def by (rule shrink_reap)
  ultimately show ?thesis
    unfolding core_endMatch [OF m] using shrink_trans by (simp add: end_rehost_def)
qed (auto simp: endMatchLocked_def split: option.split)

lemma shrink_leaveSeat: "shrink (core_of w) (core_of (leaveSeatLocked r s w))"
proof -
  have step: "shrink (core_of w) (core_of (vacate r s w'))" if "shrink (core_of w) (core_of w')" for w'
    using shrink_trans [OF that shrink_vacate] .
  have "shrink (core_of w) (core_of (endMatchLocked r reason w'))" if "shrink (core_of w) (core_of w')"
    for w' reason using shrink_trans [OF that shrink_endMatch] .
  then show ?thesis
    unfolding leaveSeatLocked_def Let_def
    by (auto simp: step core_upd_seat_status)
qed

lemma leaveSeat_gone:
  assumes "struct_ok own (core_of w)"
  shows "s \<notin> set (seats_of (leaveSeatLocked r s w) r)"
proof -
  define w1 where "w1 = (if match_of w r \<noteq> None \<and> st_status (seat_at w s) = seatActive
    then upd_seat s (\<lambda>st. st\<lparr>st_status := StatusLeft, st_sess := None\<rparr>) w else w)"
  have "distinct (seats_of w1 r)" using seats_okD(1) [OF assms, of r] by (simp add: w1_def)
  then have "c_seats (core_of (removeFromSeatsLocked r s w1)) r = remove1 s (seats_of w1 r)"
    by (simp add: core_removeFromSeats del: core_of_simps) simp
  then have gone: "s \<notin> set (seats_of (vacate r s w1) r)"
    using \<open>distinct (seats_of w1 r)\<close> by (simp add: vacate_def Let_def)
  have "s \<notin> set (seats_of (endMatchLocked r reason v) r)" if "s \<notin> set (seats_of v r)" for reason v
    using shrink_endMatch [of v r reason] that by (auto simp: shrink_def)
  then show ?thesis
    using gone unfolding leaveSeatLocked_def Let_def w1_def [symmetric] by simp
qed

section \<open>The room table\<close>

lemma core_removeIfEmpty:
  "core_of (removeIfEmptyLocked code w) =
   (case reg_rooms w code of
      None \<Rightarrow> core_of w
    | Some r \<Rightarrow> if seats_of w r = [] then (core_of w)\<lparr>c_rooms := (reg_rooms w)(code := None)\<rparr>
                else core_of w)"
  by (auto simp: removeIfEmptyLocked_def Room_empty_def core_of_def split: option.split)

lemma core_ok_rooms:
  assumes ok: "core_ok own c" and t: "table_ok (c\<lparr>c_rooms := m\<rparr>)"
  shows "core_ok own (c\<lparr>c_rooms := m\<rparr>)"
proof -
  let ?c = "c\<lparr>c_rooms := m\<rparr>"
  have "seats_ok own ?c = seats_ok own c" "match_ok own ?c = match_ok own c"
    "index_ok ?c = index_ok c" "graces_ok own ?c = graces_ok own c" "live ?c = live c"
    by (rule seats_ok_cong match_ok_cong index_ok_cong graces_ok_cong live_cong; simp)+
  then show ?thesis using ok t by (simp add: core_ok_def struct_ok_def)
qed

lemma removeIfEmpty_core_ok:
  assumes ok: "core_ok own (core_of w)"
  shows "core_ok own (core_of (removeIfEmptyLocked code w))"
proof -
  note T = table_okD [OF struct_okD(4) [OF core_struct [OF ok]]]
  have "core_ok own ((core_of w)\<lparr>c_rooms := (reg_rooms w)(code := None)\<rparr>)"
    if r: "reg_rooms w code = Some r" "seats_of w r = []" for r
  proof (rule core_ok_rooms [OF ok])
    show "table_ok ((core_of w)\<lparr>c_rooms := (reg_rooms w)(code := None)\<rparr>)"
      unfolding table_ok_def
    proof (intro conjI allI impI)
      fix r' assume ne: "c_seats ((core_of w)\<lparr>c_rooms := (reg_rooms w)(code := None)\<rparr>) r' \<noteq> []"
      then have "reg_rooms w (r_code (w_rooms w r')) = Some r'" using T(2) [of r'] by simp
      moreover have "r_code (w_rooms w r') \<noteq> code" using calculation r ne by auto
      ultimately show "c_rooms ((core_of w)\<lparr>c_rooms := (reg_rooms w)(code := None)\<rparr>)
          (c_code ((core_of w)\<lparr>c_rooms := (reg_rooms w)(code := None)\<rparr>) r') = Some r'"
        by simp
    qed (use T(1) T(3) in \<open>auto split: if_splits\<close>)
  qed
  then show ?thesis using ok by (auto simp: core_removeIfEmpty split: option.split)
qed

lemma freeCode_free: "freeCodeLocked w bs = Some code \<Longrightarrow> reg_rooms w code = None"
  by (induction bs) (auto split: if_splits)

lemma open_room_core_ok:
  assumes ok: "core_ok own (core_of w)" and free: "reg_rooms w code = None"
  shows "core_ok own (core_of (open_room code w))"
proof -
  let ?r = "w_nextRoom w" and ?c = "core_of (open_room code w)"
  note st = core_struct [OF ok]
  note T = table_okD [OF struct_okD(4) [OF st]]
  have empty: "seats_of w ?r = []" "match_of w ?r = None" using T(3) [of ?r] by simp_all
  have proj: "c_seats ?c = c_seats (core_of w)" "c_nextSeat ?c = c_nextSeat (core_of w)"
    "c_status ?c = c_status (core_of w)" "c_users ?c = c_users (core_of w)"
    "c_user ?c = c_user (core_of w)" "c_graces ?c = c_graces (core_of w)"
    "c_roster ?c = c_roster (core_of w)" "c_inMatch ?c = (c_inMatch (core_of w))(?r := False)"
    "c_rooms ?c = (reg_rooms w)(code \<mapsto> ?r)" "c_nextRoom ?c = Suc ?r"
    "c_code ?c = (c_code (core_of w))(?r := code)"
    using empty by (auto simp: open_room_def core_of_def newRoom_def fun_eq_iff roster_of_def)
  have "c_inMatch (core_of w) ?r = False"
    using struct_okD(2) [OF st, of ?r] empty by (simp add: match_ok_def)
  then have "c_inMatch ?c = c_inMatch (core_of w)" by (auto simp: proj fun_eq_iff)
  then have "match_ok own ?c = match_ok own (core_of w)" by (intro match_ok_cong) (simp_all only: proj)
  moreover have "seats_ok own ?c = seats_ok own (core_of w)" "index_ok ?c = index_ok (core_of w)"
    "graces_ok own ?c = graces_ok own (core_of w)" "live ?c = live (core_of w)"
    by (rule seats_ok_cong index_ok_cong graces_ok_cong live_cong; simp only: proj)+
  moreover have "table_ok ?c"
    unfolding table_ok_def proj
  proof (intro conjI allI impI)
    fix r assume ne: "c_seats (core_of w) r \<noteq> []"
    then have "reg_rooms w (r_code (w_rooms w r)) = Some r" using T(2) [of r] by simp
    moreover have "r \<noteq> ?r" using ne empty by auto
    moreover have "r_code (w_rooms w r) \<noteq> code" using calculation free by auto
    ultimately show "((reg_rooms w)(code \<mapsto> ?r)) (((c_code (core_of w))(?r := code)) r) = Some r"
      by simp
  next
    fix x r assume "((reg_rooms w)(code \<mapsto> ?r)) x = Some r"
    then have "x = code \<and> r = ?r \<or> (x \<noteq> code \<and> reg_rooms w x = Some r)" by (auto split: if_splits)
    then show "r < Suc ?r" "((c_code (core_of w))(?r := code)) r = x"
      using T(1) [of x r] by auto
  qed (use T(3) in simp_all)
  ultimately show ?thesis using ok by (simp add: core_ok_def struct_ok_def)
qed

section \<open>Releasing, creating, joining\<close>

lemma held_seat:
  assumes ok: "core_ok own (core_of w)" and held: "reg_users w u = Some (cur, s)"
  shows "s \<in> set (seats_of w cur)" "st_userID (seat_at w s) = u" "u \<noteq> []" "own s = cur"
    "\<not> seatIndexByIDLocked w cur (st_playerID (seat_at w s)) < 0"
proof -
  note st = core_struct [OF ok]
  show at: "s \<in> set (seats_of w cur)" "st_userID (seat_at w s) = u" "u \<noteq> []"
    using held index_okD [OF struct_okD(3) [OF st], of u cur s] by simp_all
  show "own s = cur" using seats_okD(4) [OF st] at(1) by simp
  show "\<not> seatIndexByIDLocked w cur (st_playerID (seat_at w s)) < 0"
    unfolding seatIndexByIDLocked_def index_from_neg_iff using at(1) by (auto simp: list_ex_iff)
qed

lemma release_held_cases:
  assumes ok: "core_ok own (core_of w)" and held: "reg_users w u = Some (cur, s)"
    and rel: "release_held cur s w = (w', b)"
  obtains "w' = w" "\<not> b"
  | v where "v = displaceLocked (st_sess (seat_at w s)) (leaveSeatLocked cur s w)" "b"
      "w' = removeIfEmptyLocked (r_code (w_rooms v cur)) v"
  using rel held_seat(5) [OF ok held]
  by (auto simp: release_held_def Room_releaseSeat_def Let_def split: if_splits prod.splits)

lemma leave_frees_account:
  assumes ok: "core_ok own (core_of w)" and held: "reg_users w u = Some (cur, s)"
  shows "reg_users (leaveSeatLocked cur s w) u = None"
proof -
  note st = core_struct [OF ok] and at = held_seat [OF ok held]
  define v where "v = leaveSeatLocked cur s w"
  have v_ok: "core_ok own (core_of v)" unfolding v_def by (rule leaveSeat_core_ok [OF ok at(4)])
  have "reg_users v u \<noteq> Some (r', t)" for r' t
  proof
    assume "reg_users v u = Some (r', t)"
    then have t: "t \<in> set (seats_of v r')" "st_userID (seat_at v t) = u"
      using index_okD [OF struct_okD(3) [OF core_struct [OF v_ok]], of u r' t] by simp_all
    then have "t \<in> set (seats_of w r')" "st_userID (seat_at w t) = u"
      using shrink_leaveSeat [of w cur s] by (auto simp: shrink_def fun_eq_iff v_def)
    then have "reg_users w u = Some (r', t)"
      using index_okD [OF struct_okD(3) [OF st], of u r' t] at(3) by simp
    then show False using held t(1) leaveSeat_gone [OF st, of s cur] by (simp add: v_def)
  qed
  then show ?thesis unfolding v_def [symmetric] by (cases "reg_users v u") auto
qed

lemma removeIfEmpty_proj [simp]:
  "reg_users (removeIfEmptyLocked code v) = reg_users v" "w_seats (removeIfEmptyLocked code v) = w_seats v"
  "w_nextSeat (removeIfEmptyLocked code v) = w_nextSeat v"
  "w_nextRoom (removeIfEmptyLocked code v) = w_nextRoom v"
  "w_rooms (removeIfEmptyLocked code v) = w_rooms v"
  "w_sessions (removeIfEmptyLocked code v) = w_sessions v" "w_now (removeIfEmptyLocked code v) = w_now v"
  by (simp_all add: removeIfEmptyLocked_def split: option.split)

lemma release_held_ok:
  assumes ok: "core_ok own (core_of w)" and held: "reg_users w u = Some (cur, s)"
    and rel: "release_held cur s w = (w', b)"
  shows "core_ok own (core_of w')" and "b \<Longrightarrow> reg_users w' u = None"
    and "w_nextSeat w' = w_nextSeat w" and "w_nextRoom w' = w_nextRoom w"
    and "r_code (w_rooms w' r) = r_code (w_rooms w r)"
proof -
  have sh: "shrink (core_of w) (core_of (leaveSeatLocked cur s w))" by (rule shrink_leaveSeat)
  have v_ok: "core_ok own (core_of (leaveSeatLocked cur s w))"
    by (rule leaveSeat_core_ok [OF ok held_seat(4) [OF ok held]])
  show "core_ok own (core_of w')"
    using ok held rel by (rule release_held_cases) (use ok v_ok removeIfEmpty_core_ok in simp_all)
  show "reg_users w' u = None" if b
    using ok held rel by (rule release_held_cases) (use that leave_frees_account [OF ok held] in simp_all)
  show "w_nextSeat w' = w_nextSeat w" "w_nextRoom w' = w_nextRoom w"
    "r_code (w_rooms w' r) = r_code (w_rooms w r)"
    using ok held rel
    by (rule release_held_cases, (use sh in \<open>simp_all add: shrink_def fun_eq_iff\<close>)[2])+
qed

lemma release_held_keeps_room:
  assumes ok: "core_ok own (core_of w)" and held: "reg_users w u = Some (cur, s)"
    and rel: "release_held cur s w = (w', b)" and r: "reg_rooms w code = Some r" "r \<noteq> cur"
  shows "reg_rooms w' code = Some r"
  using ok held rel
proof (rule release_held_cases)
  fix v assume v: "v = displaceLocked (st_sess (seat_at w s)) (leaveSeatLocked cur s w)"
    "w' = removeIfEmptyLocked (r_code (w_rooms v cur)) v"
  have sh: "shrink (core_of w) (core_of v)" using shrink_leaveSeat by (simp add: v)
  have "reg_rooms w (r_code (w_rooms w cur)) = Some cur"
    using table_okD(2) [OF struct_okD(4) [OF core_struct [OF ok]], of cur] held_seat(1) [OF ok held]
    by (cases "seats_of w cur") auto
  then have "code \<noteq> r_code (w_rooms v cur)" using r sh by (auto simp: shrink_def fun_eq_iff)
  moreover have "reg_rooms v = reg_rooms w" using sh by (simp add: shrink_def)
  ultimately show ?thesis using r(1) v(2) by (simp add: removeIfEmptyLocked_def split: option.splits)
qed (use r in simp)

lemma Room_seat_core_ok:
  assumes ok: "core_ok own (core_of w)" and seat: "Room_seat r sess asHost draws w = Some (w', b)"
    and own: "own (w_nextSeat w) = r" and reg: "reg_rooms w (r_code (w_rooms w r)) = Some r"
    and free: "s_userID (w_sessions w sess) \<noteq> [] \<Longrightarrow> reg_users w (s_userID (w_sessions w sess)) = None"
  shows "core_ok own (core_of w')"
proof (cases b)
  case True
  then have "Room_seat r sess asHost draws w = Some (w', True)" using seat by simp
  note C = core_Room_seat [OF this]
  have "core_ok own (a_add r (s_playerID (w_sessions w sess)) (s_userID (w_sessions w sess)) (core_of w))"
    by (rule core_ok_add [OF ok]) (use C(2) own reg free in simp_all)
  then show ?thesis using C(1) by (simp add: Let_def)
next
  case False
  then have "w' = w" using seat by (auto simp: Room_seat_def Let_def split: if_splits option.splits)
  then show ?thesis using ok by simp
qed

text \<open>What a session is does not change when its seat does: the departures only send to it.\<close>

definition identities :: "world \<Rightarrow> sess_id \<Rightarrow> session" where
  "identities w = (\<lambda>x. (w_sessions w x)\<lparr>s_outbound := [], s_written := [], s_displaced := False\<rparr>)"

lemma scrub_identities:
  assumes "scrub w' = scrub w"
  shows "identities w' = identities w"
  using arg_cong [OF assms, of w_sessions] by (simp add: scrub_def identities_def)

lemma identities_eq: "w_sessions w' = w_sessions w \<Longrightarrow> identities w' = identities w"
  by (simp add: identities_def)

lemmas identities_simps [simp] =
  scrub_identities [OF trySend_scrub] scrub_identities [OF broadcastPeerStatusLocked_scrub]
  scrub_identities [OF broadcastStateLocked_scrub] scrub_identities [OF systemChatLocked_scrub]
  scrub_identities [OF displaceLocked_scrub]

lemma identities_upd [simp]:
  "identities (upd_seat s f w) = identities w" "identities (upd_room r g w) = identities w"
  "identities (removeSeatLocked r i w) = identities w"
  "identities (vacate r s w) = identities w" "identities (reassignHostLocked r w) = identities w"
  by (rule identities_eq, simp add: vacate_def Let_def)+

lemma identities_endMatch [simp]: "identities (endMatchLocked r reason w) = identities w"
proof -
  have "identities (end_persist r m w) = identities w" for m w
    by (rule identities_eq) (simp add: end_persist_def Let_def)
  moreover have "identities (announce_end r msg s w) = identities w" for msg s w
    by (simp add: announce_end_def split: option.split)
  then have "identities (end_announce r m reason w) = identities w" for m w
    unfolding end_announce_def Let_def identities_upd by (rule fold_preserves)
  moreover have "identities (end_cleanup r w) = identities w" for w
    unfolding end_cleanup_def Let_def
    by (rule trans [OF fold_preserves fold_preserves]) (simp_all add: reap_at_def Let_def reset_seat_def)
  ultimately show ?thesis
    by (simp add: endMatchLocked_def Let_def end_rehost_def split: option.split)
qed

lemma identities_leaveSeat [simp]: "identities (leaveSeatLocked r s w) = identities w"
proof -
  have "identities (announce_leave r nick h w) = identities w" for nick h w
    by (simp add: announce_leave_def Let_def)
  then show ?thesis unfolding leaveSeatLocked_def Let_def by simp
qed

lemma identities_release_held [simp]:
  "release_held cur s w = (w', b) \<Longrightarrow> identities w' = identities w"
  using identities_eq [OF removeIfEmpty_proj(6)]
  by (auto simp: release_held_def Room_releaseSeat_def Let_def split: if_splits)

lemma identities_userID:
  assumes "identities w' = identities w"
  shows "s_userID (w_sessions w' x) = s_userID (w_sessions w x)"
  using arg_cong [OF assms, of "\<lambda>f. s_userID (f x)"] by (simp add: identities_def)

lemma create_core_ok:
  assumes ok: "core_ok own (core_of w)" and cr: "Registry_create sess e w = Some (w', out)"
    and own: "own (w_nextSeat w) = w_nextRoom w"
  shows "core_ok own (core_of w')"
proof -
  let ?u = "s_userID (w_sessions w sess)"
  obtain w1 b where step: "(case seatOfUser w ?u of None \<Rightarrow> (w, True) | Some (cur, s) \<Rightarrow> release_held cur s w) = (w1, b)"
    by fastforce
  have w1: "core_ok own (core_of w1) \<and> w_nextSeat w1 = w_nextSeat w \<and> w_nextRoom w1 = w_nextRoom w \<and>
      (b \<longrightarrow> ?u \<noteq> [] \<longrightarrow> reg_users w1 ?u = None) \<and> s_userID (w_sessions w1 sess) = ?u"
  proof (cases "seatOfUser w ?u")
    case None
    then show ?thesis using step ok by (auto simp: seatOfUser_def)
  next
    case (Some p)
    then obtain cur s where p: "reg_users w ?u = Some (cur, s)" "release_held cur s w = (w1, b)"
      using step by (cases p) (auto simp: seatOfUser_def split: if_splits)
    show ?thesis
      using release_held_ok [OF ok p] identities_userID [OF identities_release_held [OF p(2)]] by blast
  qed
  have seated: "core_ok own (core_of w2)"
    if "b" "freeCodeLocked w1 cs = Some code"
      "Room_seat (w_nextRoom w1) sess True ds (open_room code w1) = Some (w2, bb)" for cs code ds w2 bb
  proof (rule Room_seat_core_ok [OF _ that(3)])
    show "core_ok own (core_of (open_room code w1))"
      using open_room_core_ok w1 freeCode_free [OF that(2)] by blast
  qed (use w1 own that(1) in \<open>simp_all add: open_room_def newRoom_def\<close>)
  show ?thesis
    using cr w1 seated unfolding Registry_create_def step Let_def prod.case
    by (auto split: if_splits option.splits)
qed

lemma join_core_ok:
  assumes ok: "core_ok own (core_of w)" and jn: "Registry_join code sess e w = Some (w', out)"
    and own: "\<And>r. so_room out = Some r \<Longrightarrow> so_reclaim out = None \<Longrightarrow> own (w_nextSeat w) = r"
  shows "core_ok own (core_of w')"
proof -
  let ?u = "s_userID (w_sessions w sess)" and ?code = "normalizeCode (e_upper e) code"
  have seated: "core_ok own (core_of w')"
    if "core_ok own (core_of v)" "join_seat r sess e v = Some (w', out)" "w_nextSeat v = w_nextSeat w"
      "reg_rooms v (r_code (w_rooms v r)) = Some r" "s_userID (w_sessions v sess) = ?u"
      "?u \<noteq> [] \<longrightarrow> reg_users v ?u = None" for v r
  proof -
    from that(2) obtain v' b where v': "Room_seat r sess False (e_nicks e) v = Some (v', b)" "w' = v'"
      by (auto simp: join_seat_def split: if_splits)
    show ?thesis
    proof (cases b)
      case True
      then have "own (w_nextSeat v) = r" using that(2,3) v' own by (auto simp: join_seat_def)
      then show ?thesis using Room_seat_core_ok [OF that(1) v'(1)] that(4,5,6) v'(2) by simp
    next
      case False
      then have "v' = v" using v'(1) by (auto simp: Room_seat_def Let_def split: if_splits option.splits)
      then show ?thesis using that(1) v'(2) by simp
    qed
  qed
  show ?thesis
  proof (cases "reg_rooms w ?code")
    case (Some r)
    have code: "r_code (w_rooms w r) = ?code"
      using table_okD(1) [OF struct_okD(4) [OF core_struct [OF ok]], of ?code r] Some by simp
    show ?thesis
    proof (cases "seatOfUser w ?u")
      case None
      then have "?u \<noteq> [] \<longrightarrow> reg_users w ?u = None"
        by (auto simp: seatOfUser_def split: if_splits)
      then show ?thesis
        using jn ok Some None seated [of w r] code
        by (auto simp: Registry_join_def split: if_splits)
    next
      case held: (Some p)
      then obtain cur s where p: "p = (cur, s)" "reg_users w ?u = Some (cur, s)" "?u \<noteq> []"
        by (cases p) (auto simp: seatOfUser_def split: if_splits)
      obtain v b where rel: "release_held cur s w = (v, b)" by fastforce
      have v: "core_ok own (core_of v)" "w_nextSeat v = w_nextSeat w" "b \<Longrightarrow> reg_users v ?u = None"
        "r_code (w_rooms v r) = ?code" "s_userID (w_sessions v sess) = ?u"
        using release_held_ok [OF ok p(2) rel] code identities_userID [OF identities_release_held [OF rel]]
        by simp_all
      have "cur \<noteq> r \<Longrightarrow> reg_rooms v ?code = Some r"
        using release_held_keeps_room [OF ok p(2) rel Some] by blast
      then show ?thesis
        using jn ok Some held p(1) rel v seated [of v r]
        by (auto simp: Registry_join_def split: if_splits)
    qed
  qed (use jn ok in \<open>simp add: Registry_join_def\<close>)
qed

section \<open>The grace list and the idle reaper\<close>

lemma core_ok_graces:
  assumes "core_ok own c" "graces_ok own (c\<lparr>c_graces := gs\<rparr>)"
  shows "core_ok own (c\<lparr>c_graces := gs\<rparr>)"
proof -
  let ?c = "c\<lparr>c_graces := gs\<rparr>"
  have "seats_ok own ?c = seats_ok own c" "match_ok own ?c = match_ok own c"
    "index_ok ?c = index_ok c" "table_ok ?c = table_ok c" "live ?c = live c"
    by (rule seats_ok_cong match_ok_cong index_ok_cong table_ok_cong live_cong; simp)+
  then show ?thesis using assms by (simp add: core_ok_def struct_ok_def)
qed

lemma core_graces:
  "core_of (w\<lparr>reg_graces := gs\<rparr>) = (core_of w)\<lparr>c_graces := map (\<lambda>g. (g_room g, g_seat g)) gs\<rparr>"
  by (simp add: core_of_def)

lemma drop_token_subset: "set (drop_token t gs) \<subseteq> set gs"
  by (induction gs) auto

lemma fewer_graces_core_ok:
  assumes "core_ok own (core_of w)" "set gs \<subseteq> set (reg_graces w)"
  shows "core_ok own (core_of (w\<lparr>reg_graces := gs\<rparr>))"
  unfolding core_graces
  by (rule core_ok_graces [OF assms(1)])
    (use struct_okD(5) [OF core_struct [OF assms(1)]] assms(2) in \<open>force simp: graces_ok_def\<close>)

lemma claimGrace_core_ok: "core_ok own (core_of w) \<Longrightarrow> core_ok own (core_of (fst (claimGrace t w)))"
  using fewer_graces_core_ok [OF _ drop_token_subset] by (simp add: claimGrace_def split: option.split)

lemma claimGrace_own:
  assumes "core_ok own (core_of w)" "claimGrace t w = (w', Some (r, s))"
  shows "own s = r"
proof -
  obtain g where "g \<in> set (reg_graces w)" "g_room g = r" "g_seat g = s"
    using assms(2) by (auto simp: claimGrace_def split: option.splits dest: find_first_Some)
  then show ?thesis
    using struct_okD(5) [OF core_struct [OF assms(1)]] by (force simp: graces_ok_def)
qed

lemma removeGrace_core_ok: "core_ok own (core_of w) \<Longrightarrow> core_ok own (core_of (removeGrace t w))"
  using fewer_graces_core_ok [OF _ drop_token_subset] by (simp add: removeGrace_def)

lemma addGrace_core_ok:
  assumes ok: "core_ok own (core_of w)" and "own s = r" "s < w_nextSeat w"
  shows "core_ok own (core_of (addGrace t r s w))"
  unfolding addGrace_def core_graces
  by (rule core_ok_graces [OF ok])
    (use struct_okD(5) [OF core_struct [OF ok]] assms(2,3) in \<open>force simp: graces_ok_def\<close>)

lemma disconnect_core_ok:
  assumes ok: "core_ok own (core_of w)"
  shows "core_ok own (core_of (fst (Room_disconnect r sess w)))"
proof (cases "findSeatLocked w r sess")
  case (Some s)
  note at = found_seat_own [OF core_struct [OF ok] Some]
  let ?v = "disconnect_detach r s w"
  have "w_nextSeat ?v = w_nextSeat w" by (simp add: disconnect_detach_def Let_def)
  then have "s < w_nextSeat ?v" using seats_okD(3) [OF core_struct [OF ok], of s r] at(2) by simp
  then show ?thesis
    using Some at(1) ok addGrace_core_ok [of own ?v s r] by (simp add: Room_disconnect_def Let_def)
qed (use ok in \<open>simp add: Room_disconnect_def\<close>)

lemma close_room_core_ok:
  "core_ok own (core_of w) \<Longrightarrow> core_ok own (core_of (close_room r w))"
proof (induction r w rule: close_room.induct)
  case (1 r w)
  show ?case
  proof (cases "seats_of w r")
    case Nil
    then show ?thesis using 1 by (simp add: close_room.simps)
  next
    case (Cons s ss)
    then have "own s = r" using seats_okD(4) [OF core_struct [OF 1(2)], of s r] by simp
    then have "core_ok own (core_of (leaveSeatLocked r s w))" by (rule leaveSeat_core_ok [OF 1(2)])
    from 1(1) [OF Cons this] show ?thesis by (simp add: close_room.simps [of r w] Cons)
  qed
qed

lemma close_room_empty: "seats_of (close_room r w) r = []"
proof (induction r w rule: close_room.induct)
  case (1 r w)
  then show ?case by (cases "seats_of w r") (simp_all add: close_room.simps [of r w])
qed

lemma reap_room_core_ok:
  assumes "core_ok own (core_of w)"
  shows "core_ok own (core_of (fst (reap_room now r (w, em))))"
  using assms close_room_core_ok
  by (auto simp: reap_room_def Let_def split: prod.split)

lemma reapIdle_core_ok:
  assumes ok: "core_ok own (core_of w)"
  shows "core_ok own (core_of (reapIdleRooms now order w))"
proof -
  have "core_ok own (core_of (fst (fold (reap_room now) order (w, []))))"
    by (rule fold_invariant_set [of "\<lambda>we. core_ok own (core_of (fst we))"])
      (use ok reap_room_core_ok in auto)
  then have "core_ok own (core_of (fold removeIfEmptyLocked em (fst (fold (reap_room now) order (w, [])))))" for em
    by (rule fold_invariant_set [of "\<lambda>w. core_ok own (core_of w)"]) (rule removeIfEmpty_core_ok)
  then show ?thesis by (simp add: reapIdleRooms_def Let_def split: prod.split) (metis fst_conv)
qed

end
