(* ===== verification/Session_Ops.thy ===== *)
theory Session_Ops
  imports Registry_Preserve
begin

text \<open>
  A connection (\<open>internal/ws/session.go\<close>, \<open>handler.go\<close>): the dispatch of an inbound frame with its
  budgets, the hello handshake, entering and leaving a room, and the teardown.

  JSON decoding is not part of the model: an inbound text frame is its size, the type of its
  envelope and the value its payload decodes to, \<open>Malformed\<close> when it does not decode into the
  struct of its type. A result \<open>None\<close> of a handler is a random draw loop (guest nick, room code)
  that has not returned after the draws it was given.
\<close>

section \<open>Inbound frames\<close>

datatype payload =
  Malformed
| NoPayload
| PHello int string
| PNTPPing int
| PJoinRoom string
| PReady "bool option"
| PSettings settings
| PFreemods freemods
| PStartMatch bool
| PTarget string
| PChatSend string
| PEventBatch event_batch
| PFinish string bool

datatype inbound =
  InBinary
| InNotJSON
| InFrame string nat payload

abbreviation TypeHello :: string where "TypeHello \<equiv> ''hello''"
abbreviation TypeNTPPing :: string where "TypeNTPPing \<equiv> ''ntp_ping''"
abbreviation TypeCreateRoom :: string where "TypeCreateRoom \<equiv> ''create_room''"
abbreviation TypeJoinRoom :: string where "TypeJoinRoom \<equiv> ''join_room''"
abbreviation TypeReady :: string where "TypeReady \<equiv> ''ready''"
abbreviation TypeSettingsUpdate :: string where "TypeSettingsUpdate \<equiv> ''settings_update''"
abbreviation TypeSetFreemods :: string where "TypeSetFreemods \<equiv> ''set_freemods''"
abbreviation TypeStartMatch :: string where "TypeStartMatch \<equiv> ''start_match''"
abbreviation TypeKick :: string where "TypeKick \<equiv> ''kick''"
abbreviation TypeTransferHost :: string where "TypeTransferHost \<equiv> ''transfer_host''"
abbreviation TypeChatSend :: string where "TypeChatSend \<equiv> ''chat_send''"
abbreviation TypeEventBatch :: string where "TypeEventBatch \<equiv> ''event_batch''"
abbreviation TypeFinish :: string where "TypeFinish \<equiv> ''finish''"
abbreviation TypeLeave :: string where "TypeLeave \<equiv> ''leave''"

text \<open>The close reasons of a connection; the numbers are the WebSocket status codes.\<close>

datatype close_reason = StatusNormalClosure | StatusPolicyViolation | closeSeatTakenOver

section \<open>Rooms and the session\<close>

definition inRoom :: "sess_id \<Rightarrow> world \<Rightarrow> bool" where
  "inRoom sess w =
     (case s_room (w_sessions w sess) of None \<Rightarrow> False | Some r \<Rightarrow> Room_hasSeat w r sess)"

definition isRestricted :: "env \<Rightarrow> sess_id \<Rightarrow> world \<Rightarrow> bool" where
  "isRestricted e sess w =
     (s_authed (w_sessions w sess) \<and> e_restricted e (s_userID (w_sessions w sess)))"

definition seatErrorMessage :: "err_code \<Rightarrow> string" where
  "seatErrorMessage code =
     (if code = CodeRoomFull then ''room is full''
      else if code = CodeInMatchElsewhere then ''this account is playing a match in another room''
      else ''room not found'')"

definition withRoom :: "sess_id \<Rightarrow> (room_id \<Rightarrow> world \<Rightarrow> world) \<Rightarrow> world \<Rightarrow> world" where
  "withRoom sess f w =
     (case s_room (w_sessions w sess) of
        None \<Rightarrow> send sess (NewError CodeNotInRoom ''not in a room'') w
      | Some r \<Rightarrow> f r w)"

definition set_room :: "sess_id \<Rightarrow> room_id option \<Rightarrow> world \<Rightarrow> world" where
  "set_room sess r w = upd_sess sess (\<lambda>x. x\<lparr>s_room := r\<rparr>) w"

definition take_seat_identity :: "sess_id \<Rightarrow> room_id \<Rightarrow> seat_id \<Rightarrow> world \<Rightarrow> world" where
  "take_seat_identity sess r s w =
     upd_sess sess (\<lambda>x. x\<lparr>s_playerID := st_playerID (seat_at w s),
       s_resumeToken := st_resumeToken (seat_at w s), s_room := Some r\<rparr>) w"

text \<open>\<open>enterRoom\<close>: the attempt is run up to \<open>n\<close> times (the source ranges over two).\<close>

fun enterRoom ::
  "nat \<Rightarrow> sess_id \<Rightarrow> (world \<Rightarrow> (world \<times> seat_outcome) option) \<Rightarrow> world \<Rightarrow> world option" where
  "enterRoom 0 sess attempt w =
     Some (send sess (NewError CodeInternal ''could not take a seat; try again'') w)"
| "enterRoom (Suc n) sess attempt w =
     (case attempt w of
        None \<Rightarrow> None
      | Some (w1, out) \<Rightarrow>
          (case so_errCode out of
             Some code \<Rightarrow> Some (send sess (NewError code (seatErrorMessage code)) w1)
           | None \<Rightarrow>
               (case (so_reclaim out, so_room out) of
                  (None, r) \<Rightarrow> Some (set_room sess r w1)
                | (Some s, None) \<Rightarrow> None
                | (Some s, Some r) \<Rightarrow>
                    let (w2, ok) = Room_reattach r sess s w1
                    in if \<not> ok then enterRoom n sess attempt w2
                       else Some (take_seat_identity sess r s
                                    (removeGrace (st_resumeToken (seat_at w2 s)) w2)))))"

definition handleCreateRoom :: "sess_id \<Rightarrow> env \<Rightarrow> world \<Rightarrow> world option" where
  "handleCreateRoom sess e w =
     (if inRoom sess w then Some (send sess (NewError CodeBadMessage ''already in a room'') w)
      else if isRestricted e sess w
      then Some (send sess
             (NewError CodeAccountRestricted ''this account cannot create or join rooms'') w)
      else enterRoom 2 sess (Registry_create sess e) w)"

definition handleJoinRoom :: "sess_id \<Rightarrow> payload \<Rightarrow> env \<Rightarrow> world \<Rightarrow> world option" where
  "handleJoinRoom sess p e w =
     (case p of
        PJoinRoom code \<Rightarrow>
          if inRoom sess w then Some (send sess (NewError CodeBadMessage ''already in a room'') w)
          else if isRestricted e sess w
          then Some (send sess
                 (NewError CodeAccountRestricted ''this account cannot create or join rooms'') w)
          else enterRoom 2 sess (Registry_join code sess e) w
      | _ \<Rightarrow> Some (send sess (NewError CodeBadMessage ''invalid message payload'') w))"

definition handleLeave :: "sess_id \<Rightarrow> world \<Rightarrow> world" where
  "handleLeave sess w =
     (case s_room (w_sessions w sess) of
        None \<Rightarrow> send sess (NewError CodeNotInRoom ''not in a room'') w
      | Some r \<Rightarrow> set_room sess None (Room_leave r sess w))"

section \<open>Hello, clock sync, event batches\<close>

definition fresh_hello :: "sess_id \<Rightarrow> env \<Rightarrow> world \<Rightarrow> world" where
  "fresh_hello sess e w =
     send sess (HelloOK (e_playerID e) (e_resumeToken e))
       (upd_sess sess (\<lambda>x. x\<lparr>s_helloDone := True, s_playerID := e_playerID e,
          s_resumeToken := e_resumeToken e\<rparr>) w)"

definition handleHello :: "sess_id \<Rightarrow> payload \<Rightarrow> env \<Rightarrow> world \<Rightarrow> world \<times> close_reason option" where
  "handleHello sess p e w =
     (case p of
        PHello ver token \<Rightarrow>
          if ver \<noteq> Version
          then (send sess (NewError CodeVersionMismatch
                  (''server speaks protocol '' @ Itoa Version @ '', client sent '' @ Itoa ver)) w,
                Some StatusPolicyViolation)
          else if token = [] then (fresh_hello sess e w, None)
          else
            (case claimGrace token w of
               (w1, None) \<Rightarrow> (fresh_hello sess e w1, None)
             | (w1, Some (r, s)) \<Rightarrow>
                 let (w2, ok) = Room_reattach r sess s w1
                 in if ok
                    then (take_seat_identity sess r s
                            (upd_sess sess (\<lambda>x. x\<lparr>s_helloDone := True\<rparr>) w2), None)
                    else (fresh_hello sess e w2, None))
      | _ \<Rightarrow> (send sess (NewError CodeBadMessage ''invalid hello payload'') w, None))"

definition handleNTPPing :: "sess_id \<Rightarrow> payload \<Rightarrow> int \<Rightarrow> world \<Rightarrow> world" where
  "handleNTPPing sess p recvMs w =
     (case p of
        PNTPPing t0 \<Rightarrow> send sess (NewNTPPong t0 recvMs (w_now w)) w
      | _ \<Rightarrow> send sess (NewError CodeBadMessage ''invalid ntp_ping payload'') w)"

definition bad_payload :: "sess_id \<Rightarrow> world \<Rightarrow> world" where
  "bad_payload sess w = send sess (NewError CodeBadMessage ''invalid message payload'') w"

definition handleEventBatch :: "sess_id \<Rightarrow> nat \<Rightarrow> payload \<Rightarrow> int \<Rightarrow> world \<Rightarrow> world" where
  "handleEventBatch sess sz p recvMs w =
     (if sz > eventBatchMaxBytes
      then send sess (NewError CodeBadMessage ''event_batch exceeds 1 MiB'') w
      else case p of
        PEventBatch eb \<Rightarrow> withRoom sess (\<lambda>r. Room_relayEventBatch r sess eb recvMs) w
      | _ \<Rightarrow> bad_payload sess w)"

section \<open>Dispatch\<close>

text \<open>The two budgets: \<open>finish\<close> and \<open>ntp_ping\<close> are exempt.\<close>

definition take_budget :: "sess_id \<Rightarrow> string \<Rightarrow> world \<Rightarrow> world \<times> bool" where
  "take_budget sess typ w =
     (if typ = TypeFinish \<or> typ = TypeNTPPing then (w, True)
      else if typ = TypeEventBatch
      then let (b, ok) = bucket_allow (s_batches (w_sessions w sess)) (ms (w_now w)) batchBurst batchRefill;
               w1 = upd_sess sess (\<lambda>x. x\<lparr>s_batches := b\<rparr>) w
           in if ok then (w1, True)
              else (send sess (NewError CodeRateLimited ''event batch rate limit exceeded'') w1, False)
      else let (b, ok) = bucket_allow (s_commands (w_sessions w sess)) (ms (w_now w)) commandBurst commandRefill;
               w1 = upd_sess sess (\<lambda>x. x\<lparr>s_commands := b\<rparr>) w
           in if ok then (w1, True)
              else (send sess (NewError CodeRateLimited ''message rate limit exceeded'') w1, False))"

definition room_command :: "sess_id \<Rightarrow> string \<Rightarrow> payload \<Rightarrow> env \<Rightarrow> (room_id \<Rightarrow> world \<Rightarrow> world) option" where
  "room_command sess typ p e =
     (case p of
        PReady v \<Rightarrow> if typ = TypeReady
                    then Some (\<lambda>r. Room_ready r sess (case v of None \<Rightarrow> True | Some b \<Rightarrow> b)) else None
      | PSettings ns \<Rightarrow> if typ = TypeSettingsUpdate then Some (\<lambda>r. Room_updateSettings r sess ns) else None
      | PFreemods fm \<Rightarrow> if typ = TypeSetFreemods then Some (\<lambda>r. Room_setFreemods r sess fm) else None
      | PStartMatch force \<Rightarrow> if typ = TypeStartMatch then Some (\<lambda>r. Room_startMatch r sess force e) else None
      | PTarget pid \<Rightarrow> if typ = TypeKick then Some (\<lambda>r. Room_kick r sess pid)
                       else if typ = TypeTransferHost then Some (\<lambda>r. Room_transferHost r sess pid) else None
      | PChatSend t \<Rightarrow> if typ = TypeChatSend then Some (\<lambda>r. Room_chat r sess t) else None
      | PFinish mid f \<Rightarrow> if typ = TypeFinish then Some (\<lambda>r. Room_finish r sess mid f) else None
      | _ \<Rightarrow> None)"

definition room_types :: "string list" where
  "room_types = [TypeReady, TypeSettingsUpdate, TypeSetFreemods, TypeStartMatch, TypeKick,
                 TypeTransferHost, TypeChatSend, TypeFinish]"

definition route :: "sess_id \<Rightarrow> string \<Rightarrow> nat \<Rightarrow> payload \<Rightarrow> int \<Rightarrow> env \<Rightarrow> world \<Rightarrow> world option" where
  "route sess typ sz p recvMs e w =
     (if typ = TypeHello then Some (send sess (NewError CodeBadMessage ''hello already completed'') w)
      else if typ = TypeNTPPing then Some (handleNTPPing sess p recvMs w)
      else if typ = TypeCreateRoom then handleCreateRoom sess e w
      else if typ = TypeJoinRoom then handleJoinRoom sess p e w
      else if typ = TypeLeave then Some (handleLeave sess w)
      else if typ = TypeEventBatch then Some (handleEventBatch sess sz p recvMs w)
      else if typ \<in> set room_types
      then (case room_command sess typ p e of
              Some f \<Rightarrow> Some (withRoom sess f w)
            | None \<Rightarrow> Some (bad_payload sess w))
      else Some (send sess (NewError CodeBadMessage (''unsupported message type: '' @ typ)) w))"

definition dispatch ::
  "sess_id \<Rightarrow> string \<Rightarrow> nat \<Rightarrow> payload \<Rightarrow> int \<Rightarrow> env \<Rightarrow> world \<Rightarrow> (world \<times> close_reason option) option" where
  "dispatch sess typ sz p recvMs e w =
     (if \<not> s_helloDone (w_sessions w sess)
      then if typ \<noteq> TypeHello
           then Some (send sess (NewError CodeBadMessage ''hello must be the first message'') w, None)
           else Some (handleHello sess p e w)
      else
        let (w1, ok) = take_budget sess typ w
        in if \<not> ok then Some (w1, None)
           else map_option (\<lambda>v. (v, None)) (route sess typ sz p recvMs e w1))"

text \<open>One turn of \<open>readLoop\<close> with a frame that was read; \<open>recvMs\<close> is the clock at that moment.\<close>

definition readLoop_step ::
  "sess_id \<Rightarrow> inbound \<Rightarrow> env \<Rightarrow> world \<Rightarrow> (world \<times> close_reason option) option" where
  "readLoop_step sess inb e w =
     (case inb of
        InBinary \<Rightarrow> Some (send sess (NewError CodeBadMessage ''expected a JSON text frame'') w, None)
      | InNotJSON \<Rightarrow> Some (send sess (NewError CodeBadMessage ''frame is not valid JSON'') w, None)
      | InFrame typ sz p \<Rightarrow> dispatch sess typ sz p (w_now w) e w)"

section \<open>The lifetime of a connection\<close>

definition serve_open :: "bool \<Rightarrow> string \<Rightarrow> string \<Rightarrow> world \<Rightarrow> world" where
  "serve_open authed displayName userID w =
     (upd_sess (w_nextSess w) (\<lambda>_. newSession authed displayName userID) w)
       \<lparr>w_nextSess := Suc (w_nextSess w)\<rparr>"

definition serve_teardown :: "sess_id \<Rightarrow> world \<Rightarrow> world" where
  "serve_teardown sess w =
     (let w1 = (case s_room (w_sessions w sess) of
                  None \<Rightarrow> w | Some r \<Rightarrow> fst (Room_disconnect r sess w))
      in upd_sess sess (\<lambda>x. x\<lparr>s_closed := True\<rparr>) w1)"

definition close_with :: "close_reason \<Rightarrow> sess_id \<Rightarrow> world \<Rightarrow> close_reason" where
  "close_with reason sess w =
     (if s_displaced (w_sessions w sess) then closeSeatTakenOver else reason)"

end
