(* ===== verification/Ws_Steps.thy ===== *)
theory Ws_Steps
  imports Session_Ops
begin

text \<open>
  The transport as a transition system. A step of \<open>section\<close> is one critical section (what runs
  under one acquisition of \<open>Room.mu\<close>, or of \<open>Registry.mu\<close> with the room locks nested in it) of any
  connection, timer or reaper, so a path of steps is an interleaving of them. \<open>reachable\<close> collects
  the states the server can get to; the invariant holds in all of them, by rule induction.
  A complete handler is a path of sections, so what is proved of the sections holds of it too.
\<close>

section \<open>Critical sections\<close>

text \<open>
  \<open>own\<close> names the room each seat is created in; the two rules that create a seat agree with it.
  A timer's callback carries the room and the seat it was armed with.
\<close>

inductive section_step :: "(seat_id \<Rightarrow> room_id) \<Rightarrow> world \<Rightarrow> world \<Rightarrow> bool" for own where
  Tick: "w_now w \<le> t \<Longrightarrow> section_step own w (w\<lparr>w_now := t\<rparr>)"
| Open: "section_step own w (serve_open authed displayName userID w)"
| Session: "section_step own w (upd_sess x f w)"
| Send: "section_step own w (send x m w)"
| Write: "section_step own w (writeLoop_step x w)"
| Create: "\<lbrakk>Registry_create x e w = Some (w', out); own (w_nextSeat w) = w_nextRoom w\<rbrakk>
    \<Longrightarrow> section_step own w w'"
| Join: "\<lbrakk>Registry_join code x e w = Some (w', out);
     \<And>r. so_room out = Some r \<Longrightarrow> so_reclaim out = None \<Longrightarrow> own (w_nextSeat w) = r\<rbrakk>
    \<Longrightarrow> section_step own w w'"
| Leave: "section_step own w (Room_leave_locked r x w)"
| Drop_room: "section_step own w (removeIfEmptyLocked code w)"
| Detach: "findSeatLocked w r x = Some s \<Longrightarrow> section_step own w (disconnect_detach r s w)"
| Add_grace: "\<lbrakk>own s = r; s < w_nextSeat w\<rbrakk> \<Longrightarrow> section_step own w (addGrace t r s w)"
| Arm: "section_step own w (disconnect_arm s w)"
| Claim: "section_step own w (fst (claimGrace t w))"
| Remove_grace: "section_step own w (removeGrace t w)"
| Reattach: "\<lbrakk>st_disconnected (seat_at w s); \<not> seatIndexByIDLocked w r (st_playerID (seat_at w s)) < 0\<rbrakk>
    \<Longrightarrow> section_step own w (reattach_begin r x s w)"
| Flush: "section_step own w (send_all x (st_backlog (seat_at w s)) (upd_seat s (\<lambda>st. st\<lparr>st_backlog := []\<rparr>) w))"
| Live: "section_step own w (reattach_live r s mid w)"
| Ready: "section_step own w (Room_ready r x v w)"
| Settings: "section_step own w (Room_updateSettings r x ns w)"
| Freemods: "section_step own w (Room_setFreemods r x fm w)"
| Kick: "section_step own w (Room_kick r x pid w)"
| Transfer: "section_step own w (Room_transferHost r x pid w)"
| Chat: "section_step own w (Room_chat r x txt w)"
| Start: "section_step own w (Room_startMatch r x force e w)"
| Relay: "section_step own w (Room_relayEventBatch r x eb t w)"
| Finish: "section_step own w (Room_finish r x mid forfeit w)"
| Grace_expire: "own s = r \<Longrightarrow> section_step own w (onGraceExpire_locked r s w)"
| Deadline: "section_step own w (onDeadline_locked r mid w)"
| Finish_window: "section_step own w (onFinishWindow_locked r mid w)"
| Sweep: "section_step own w (fst (sweepAfk_locked r mid w))"
| Reap: "section_step own w (fst (reap_room now r (w, em)))"

inductive_cases section_stepE: "section_step own w w'"

inductive reachable :: "(seat_id \<Rightarrow> room_id) \<Rightarrow> world \<Rightarrow> bool" for own where
  Init: "reachable own (NewRegistry hasStore now)"
| Step: "\<lbrakk>reachable own w; section_step own w w'\<rbrakk> \<Longrightarrow> reachable own w'"

abbreviation sections :: "(seat_id \<Rightarrow> room_id) \<Rightarrow> world \<Rightarrow> world \<Rightarrow> bool" where
  "sections own \<equiv> (section_step own)\<^sup>*\<^sup>*"

section \<open>The invariant\<close>

lemma core_now [simp]: "core_of (w\<lparr>w_now := t\<rparr>) = core_of w"
  by (rule core_of_eqI) simp_all

lemma core_serve_open [simp]: "core_of (serve_open a d u w) = core_of w"
  by (rule core_of_eqI) (simp_all add: serve_open_def)

theorem section_core_ok:
  assumes "section_step own w w'" "core_ok own (core_of w)"
  shows "core_ok own (core_of w')"
  using assms
proof (induction rule: section_step.induct)
  case (Create x e w w' out)
  show ?case by (rule create_core_ok [OF Create(3,1,2)])
next
  case (Join code x e w w' out)
  show ?case by (rule join_core_ok [OF Join(3,1,2)])
qed (simp_all add: leave_locked_core_ok removeIfEmpty_core_ok addGrace_core_ok claimGrace_core_ok
    removeGrace_core_ok kick_core_ok transferHost_core_ok startMatch_core_ok finish_core_ok
    grace_expire_core_ok onDeadline_locked_def onFinishWindow_locked_def force_end_core_ok
    sweepAfk_core_ok reap_room_core_ok)

lemma init_core_ok: "core_ok own (core_of (NewRegistry hasStore now))"
  by (auto simp: core_ok_def struct_ok_def seats_ok_def match_ok_def index_ok_def table_ok_def
      graces_ok_def live_def NewRegistry_def newRoom_def roster_of_def)

lemma reachable_core_ok: "reachable own w \<Longrightarrow> core_ok own (core_of w)"
  by (induction rule: reachable.induct) (auto intro: init_core_ok section_core_ok)

end
