(* ===== verification/Ws_Hosts.thy ===== *)
theory Ws_Hosts
  imports Session_Ops
begin

text \<open>
  Hosts and empty rooms. Every critical section keeps a host among the seats of every occupied
  room, with one exception: a join that reaches a room which has just lost its last seat and is
  still in the table. The registry call that follows each departure closes that window, so the
  complete handlers keep both facts.
\<close>

definition hosts :: "core \<Rightarrow> bool" where
  "hosts c \<longleftrightarrow> (\<forall>r. host_ok c r)"

definition no_empty :: "core \<Rightarrow> bool" where
  "no_empty c \<longleftrightarrow> (\<forall>code r. c_rooms c code = Some r \<longrightarrow> c_seats c r \<noteq> [])"

section \<open>Hosts\<close>

lemma hosts_cong:
  "\<lbrakk>c_seats c' = c_seats c; c_pid c' = c_pid c; c_host c' = c_host c\<rbrakk> \<Longrightarrow> hosts c' = hosts c"
  by (simp add: hosts_def host_ok_def)

lemma hosts_status [simp]: "hosts (a_status s x c) = hosts c"
  by (rule hosts_cong) (simp_all add: a_status_def)

lemma hosts_match [simp]: "hosts (a_match r m b c) = hosts c"
  by (rule hosts_cong) (simp_all add: a_match_def)

lemma hosts_reset [simp]: "hosts (a_reset ss c) = hosts c"
  by (rule hosts_cong) simp_all

lemma hosts_start [simp]: "hosts (a_start r c) = hosts c"
  by (rule hosts_cong) simp_all

lemma hosts_but:
  assumes "\<And>r'. r' \<noteq> r \<Longrightarrow> host_ok c r'" "host_ok c r"
  shows "hosts c"
  unfolding hosts_def using assms by (metis)

text \<open>Removing seats of one room and picking its host anew.\<close>

lemma host_ok_other:
  assumes "shrink c c'" "c_seats c' r = c_seats c r" "c_host c' r = c_host c r" "host_ok c r"
  shows "host_ok c' r"
  using assms by (simp add: host_ok_def shrink_def)

lemma removeSeat_other [simp]:
  "r' \<noteq> r \<Longrightarrow> seats_of (removeSeatLocked r i w) r' = seats_of w r'"
  by (simp add: removeSeatLocked_def)

lemma vacate_other [simp]:
  "r' \<noteq> r \<Longrightarrow> seats_of (vacate r s w) r' = seats_of w r'"
  "r' \<noteq> r \<Longrightarrow> host_of (vacate r s w) r' = host_of w r'"
  by (simp_all add: vacate_def Let_def removeFromSeatsLocked_def reassignHostLocked_def)

lemma reassigned_host_ok: "host_ok (core_of (reassignHostLocked r w)) r"
  by (auto simp: host_ok_def a_host_def split: list.split)

lemma vacate_hosts:
  assumes h: "hosts (core_of w)" and d: "distinct (seats_of w r)"
  shows "hosts (core_of (vacate r s w))"
proof (rule hosts_but [of r])
  show "host_ok (core_of (vacate r s w)) r'" if "r' \<noteq> r" for r'
    using h that by (intro host_ok_other [OF shrink_vacate]) (simp_all add: hosts_def)
  show "host_ok (core_of (vacate r s w)) r"
  proof (cases "is_host w r s")
    case True
    then show ?thesis using reassigned_host_ok by (simp add: vacate_def)
  next
    case False
    have seats: "seats_of (removeFromSeatsLocked r s w) r = remove1 s (seats_of w r)"
      using arg_cong [OF core_removeFromSeats [OF d], of "\<lambda>c. c_seats c r"] by simp
    have "remove1 s (seats_of w r) = [] \<or> (\<exists>t \<in> set (remove1 s (seats_of w r)). st_playerID (seat_at w t) = host_of w r)"
      using h False d unfolding hosts_def host_ok_def is_host_def by (auto dest: spec [of _ r])
    then show ?thesis using False seats by (simp add: vacate_def host_ok_def)
  qed
qed

lemma reap_other:
  "r' \<noteq> r \<Longrightarrow> seats_of (fold (reap_at r) is w) r' = seats_of w r'"
  "host_of (fold (reap_at r) is w) r' = host_of w r'"
  by (induction "is" arbitrary: w) (simp_all add: reap_at_def Let_def)

lemma end_persist_hosts [simp]:
  "seats_of (end_persist r m w) r' = seats_of w r'" "host_of (end_persist r m w) r' = host_of w r'"
  by (simp_all add: end_persist_def Let_def)

lemma end_announce_hosts [simp]:
  "seats_of (end_announce r m reason w) r' = seats_of w r'"
  "host_of (end_announce r m reason w) r' = host_of w r'"
  by (simp_all add: end_announce_def Let_def)

lemma endMatch_hosts:
  assumes h: "hosts (core_of w)"
  shows "hosts (core_of (endMatchLocked r reason w))"
proof (cases "\<exists>m. match_of w r = Some m \<and> \<not> m_ended m")
  case True
  then obtain m where m: "match_of w r = Some m" "\<not> m_ended m" by blast
  define v where "v = end_cleanup r (end_announce r m reason (end_persist r m w))"
  have other: "seats_of v r' = seats_of w r'" "host_of v r' = host_of w r'" if "r' \<noteq> r" for r'
    using that by (simp_all add: v_def end_cleanup_def Let_def reap_other)
  have core: "core_of (endMatchLocked r reason w) = core_of (end_rehost r v)"
    using core_endMatch [OF m] by (simp add: v_def)
  show ?thesis
  proof (rule hosts_but [of r])
    show "host_ok (core_of (endMatchLocked r reason w)) r'" if "r' \<noteq> r" for r'
    proof (rule host_ok_other [OF shrink_endMatch])
      show "c_seats (core_of (endMatchLocked r reason w)) r' = c_seats (core_of w) r'"
        "c_host (core_of (endMatchLocked r reason w)) r' = c_host (core_of w) r'"
        unfolding core using that other by (simp_all add: end_rehost_def reassignHostLocked_def)
    qed (use h in \<open>simp add: hosts_def\<close>)
    have "host_ok (core_of v) r" if "findSeatByIDLocked v r (host_of v r) \<noteq> None"
      using that by (auto simp: host_ok_def findSeatByIDLocked_def dest: find_first_Some)
    then show "host_ok (core_of (endMatchLocked r reason w)) r"
      unfolding core using reassigned_host_ok by (simp add: end_rehost_def)
  qed
qed (use h in \<open>auto simp: endMatchLocked_def split: option.split\<close>)

lemma end_if_all_terminal_hosts:
  "hosts (core_of w) \<Longrightarrow> hosts (core_of (end_if_all_terminal r w))"
  by (simp add: end_if_all_terminal_def endMatch_hosts)

lemma leaveSeat_hosts:
  assumes h: "hosts (core_of w)" and d: "distinct (seats_of w r)"
  shows "hosts (core_of (leaveSeatLocked r s w))"
proof -
  have "hosts (core_of (vacate r s (upd_seat s (\<lambda>st. st\<lparr>st_status := StatusLeft, st_sess := None\<rparr>) w)))"
    by (rule vacate_hosts) (use h d in \<open>simp_all add: core_upd_seat_status\<close>)
  moreover have "hosts (core_of (vacate r s w))" using h d by (rule vacate_hosts)
  ultimately show ?thesis
    unfolding leaveSeatLocked_def Let_def by (simp add: endMatch_hosts)
qed

lemma grace_expire_hosts:
  assumes h: "hosts (core_of w)" and d: "distinct (seats_of w r)"
  shows "hosts (core_of (onGraceExpire_locked r s w))"
proof -
  have "hosts (core_of (vacate r s (broadcastPeerStatusLocked r p StatusDNF
           (upd_seat s (\<lambda>st. st\<lparr>st_status := StatusDNF\<rparr>) w))))" for p
    by (rule vacate_hosts) (use h d in \<open>simp_all add: core_upd_seat_status\<close>)
  moreover have "hosts (core_of (vacate r s (upd_seat s (\<lambda>st. st\<lparr>st_disconnected := False\<rparr>) w)))"
    by (rule vacate_hosts) (use h d in simp_all)
  ultimately show ?thesis
    using h unfolding onGraceExpire_locked_def Let_def by (auto simp: endMatch_hosts)
qed

lemma removeSeat_hosts:
  assumes h: "hosts (core_of w)" and d: "distinct (seats_of w r)" and i: "i < length (seats_of w r)"
    and nh: "st_playerID (seat_at w (seats_of w r ! i)) \<noteq> host_of w r"
  shows "hosts (core_of (removeSeatLocked r i w))"
proof (rule hosts_but [of r])
  show "host_ok (core_of (removeSeatLocked r i w)) r'" if "r' \<noteq> r" for r'
    using h that by (intro host_ok_other [OF shrink_removeSeat]) (simp_all add: hosts_def)
  show "host_ok (core_of (removeSeatLocked r i w)) r"
    using h nh d unfolding core_removeSeat [OF d i] hosts_def host_ok_def by (auto dest: spec [of _ r])
qed

lemma kick_hosts:
  assumes h: "hosts (core_of w)" and d: "distinct (seats_of w r)"
  shows "hosts (core_of (Room_kick r x pid w))"
proof -
  define i where "i = nat (seatIndexByIDLocked w r pid)"
  have "hosts (core_of (removeSeatLocked r i w))"
    if "\<not> seatIndexByIDLocked w r pid < 0" "st_playerID (seat_at w (seats_of w r ! i)) \<noteq> host_of w r"
  proof (rule removeSeat_hosts [OF h d _ that(2)])
    show "i < length (seats_of w r)"
      using that(1) index_from_nth unfolding i_def seatIndexByIDLocked_def index_from_neg_iff by blast
  qed
  then show ?thesis
    using h unfolding Room_kick_def Let_def i_def [symmetric] by (auto split: option.splits)
qed

lemma transferHost_hosts:
  assumes h: "hosts (core_of w)"
  shows "hosts (core_of (Room_transferHost r x pid w))"
proof -
  have "hosts (a_host r (st_playerID (seat_at w t)) (core_of w))"
    if "findSeatByIDLocked w r pid = Some t" for t
    using that h by (auto simp: hosts_def host_ok_def a_host_def findSeatByIDLocked_def
        dest!: find_first_Some)
  then show ?thesis
    using h by (auto simp: Room_transferHost_def Let_def split: option.splits)
qed

lemma sweep_fold_hosts:
  "hosts (core_of (fst wk)) \<Longrightarrow> hosts (core_of (fst (fold (sweep_seat r m) ss wk)))"
  by (rule fold_invariant_set [of "\<lambda>wk. hosts (core_of (fst wk))"])
    (auto simp: sweep_seat_def core_upd_seat_status split: prod.splits if_splits)

lemma sweepAfk_hosts:
  assumes "hosts (core_of w)"
  shows "hosts (core_of (fst (sweepAfk_locked r mid w)))"
proof -
  have "hosts (core_of v)" if "fold (sweep_seat r m) ss (w, False) = (v, k)" for m ss v k
    using sweep_fold_hosts [of "(w, False)" r m ss] assms that by simp
  then show ?thesis
    using assms by (auto simp: sweepAfk_locked_def endMatch_hosts split: option.split prod.split)
qed

lemma force_end_hosts:
  assumes "hosts (core_of w)"
  shows "hosts (core_of (force_end r mid reason w))"
proof -
  have "hosts (core_of (fold (dnf_active r) ss w))" for ss
    by (rule fold_invariant_set [of "\<lambda>w. hosts (core_of w)"])
      (use assms in \<open>auto simp: dnf_active_def core_upd_seat_status\<close>)
  then show ?thesis using assms by (simp add: force_end_def endMatch_hosts split: option.split)
qed

lemma finish_hosts:
  assumes "hosts (core_of w)"
  shows "hosts (core_of (Room_finish r x mid forfeit w))"
  using assms
  by (auto simp: Room_finish_def Let_def endMatch_hosts end_if_all_terminal_hosts core_upd_seat_status
      split: option.split)

lemma close_room_hosts:
  "\<lbrakk>core_ok own (core_of w); hosts (core_of w)\<rbrakk> \<Longrightarrow> hosts (core_of (close_room r w))"
proof (induction r w rule: close_room.induct)
  case (1 r w)
  show ?case
  proof (cases "seats_of w r")
    case Nil
    then show ?thesis using 1 by (simp add: close_room.simps)
  next
    case (Cons s ss)
    note st = core_struct [OF 1(2)]
    have own: "own s = r" using seats_okD(4) [OF st, of s r] Cons by simp
    have d: "distinct (seats_of w r)" using seats_okD(1) [OF st] by simp
    from 1(1) [OF Cons leaveSeat_core_ok [OF 1(2) own] leaveSeat_hosts [OF 1(3) d]]
    show ?thesis by (simp add: close_room.simps [of r w] Cons)
  qed
qed

section \<open>Seating\<close>

lemma hosts_add:
  assumes h: "hosts c" and st: "struct_ok own c" and ne: "c_seats c r \<noteq> []"
  shows "hosts (a_add r pid u c)"
proof (rule hosts_but [of r])
  have fresh: "c_nextSeat c \<notin> set (c_seats c r')" for r' using seats_okD(3) [OF st] by blast
  show "host_ok (a_add r pid u c) r'" if "r' \<noteq> r" for r'
    using h that fresh [of r'] unfolding hosts_def host_ok_def a_add_simps
    by (metis fun_upd_other fun_upd_apply)
  obtain t where "t \<in> set (c_seats c r)" "c_pid c t = c_host c r"
    using h ne by (auto simp: hosts_def host_ok_def)
  then show "host_ok (a_add r pid u c) r" using fresh [of r] by (auto simp: host_ok_def)
qed

lemma hosts_add_host:
  assumes h: "hosts c" and st: "struct_ok own c"
  shows "hosts (a_host r pid (a_add r pid u c))"
proof (rule hosts_but [of r])
  have fresh: "c_nextSeat c \<notin> set (c_seats c r')" for r' using seats_okD(3) [OF st] by blast
  show "host_ok (a_host r pid (a_add r pid u c)) r'" if "r' \<noteq> r" for r'
    using h that fresh [of r'] by (auto simp: hosts_def host_ok_def a_host_def) metis
  show "host_ok (a_host r pid (a_add r pid u c)) r" by (simp add: host_ok_def a_host_def)
qed

lemma Room_seat_hosts:
  assumes h: "hosts (core_of w)" and st: "struct_ok own (core_of w)"
    and seat: "Room_seat r x asHost draws w = Some (w', b)"
    and ne: "\<not> asHost \<Longrightarrow> seats_of w r \<noteq> []"
  shows "hosts (core_of w')"
proof (cases b)
  case True
  then have "Room_seat r x asHost draws w = Some (w', True)" using seat by simp
  from core_Room_seat(1) [OF this] show ?thesis
    using hosts_add [OF h st] hosts_add_host [OF h st] ne by (simp add: Let_def)
next
  case False
  then have "w' = w" using seat by (auto simp: Room_seat_def Let_def split: if_splits option.splits)
  then show ?thesis using h by simp
qed

lemma endMatch_other [simp]:
  assumes "r' \<noteq> r"
  shows "seats_of (endMatchLocked r reason w) r' = seats_of w r'"
  using assms
  by (simp add: endMatchLocked_def Let_def end_rehost_def end_cleanup_def reap_other split: option.split)

lemma leaveSeat_other [simp]:
  "r' \<noteq> r \<Longrightarrow> seats_of (leaveSeatLocked r s w) r' = seats_of w r'"
  by (simp add: leaveSeatLocked_def Let_def)

lemma open_room_hosts:
  assumes ok: "core_ok own (core_of w)" and h: "hosts (core_of w)"
  shows "hosts (core_of (open_room code w))"
proof -
  have "seats_of w (w_nextRoom w) = []"
    using table_okD(3) [OF struct_okD(4) [OF core_struct [OF ok]], of "w_nextRoom w"] by simp
  then show ?thesis
    using h by (auto simp: hosts_def host_ok_def open_room_def newRoom_def)
qed

lemma removeIfEmpty_hosts [simp]: "hosts (core_of (removeIfEmptyLocked code w)) = hosts (core_of w)"
  by (rule hosts_cong) (auto simp: core_removeIfEmpty split: option.split)

lemma release_held_hosts:
  assumes ok: "core_ok own (core_of w)" and h: "hosts (core_of w)"
    and held: "reg_users w u = Some (cur, s)" and rel: "release_held cur s w = (w', b)"
  shows "hosts (core_of w')" and "r \<noteq> cur \<Longrightarrow> seats_of w' r = seats_of w r"
proof -
  have d: "distinct (seats_of w cur)" using seats_okD(1) [OF core_struct [OF ok]] by simp
  show "hosts (core_of w')"
    using ok held rel by (rule release_held_cases) (use h leaveSeat_hosts [OF h d] in simp_all)
  show "seats_of w' r = seats_of w r" if "r \<noteq> cur"
    using ok held rel by (rule release_held_cases) (use that in simp_all)
qed

lemma create_hosts:
  assumes ok: "core_ok own (core_of w)" and h: "hosts (core_of w)"
    and cr: "Registry_create x e w = Some (w', out)"
  shows "hosts (core_of w')"
proof -
  let ?u = "s_userID (w_sessions w x)"
  obtain w1 b where step: "(case seatOfUser w ?u of None \<Rightarrow> (w, True) | Some (cur, s) \<Rightarrow> release_held cur s w) = (w1, b)"
    by fastforce
  have w1: "core_ok own (core_of w1) \<and> hosts (core_of w1)"
  proof (cases "seatOfUser w ?u")
    case None
    then show ?thesis using step ok h by auto
  next
    case (Some p)
    then obtain cur s where "reg_users w ?u = Some (cur, s)" "release_held cur s w = (w1, b)"
      using step by (cases p) (auto simp: seatOfUser_def split: if_splits)
    then show ?thesis using release_held_ok(1) [OF ok] release_held_hosts(1) [OF ok h] by blast
  qed
  have seated: "hosts (core_of w2)"
    if "freeCodeLocked w1 cs = Some code" "Room_seat r x True ds (open_room code w1) = Some (w2, bb)"
    for cs code r ds w2 bb
    using Room_seat_hosts [OF open_room_hosts core_struct [OF open_room_core_ok] that(2)]
      w1 freeCode_free [OF that(1)] by blast
  show ?thesis
    using cr w1 seated unfolding Registry_create_def step Let_def prod.case
    by (auto split: if_splits option.splits)
qed

lemma join_hosts:
  assumes ok: "core_ok own (core_of w)" and h: "hosts (core_of w)"
    and ne: "\<And>r. reg_rooms w (normalizeCode (e_upper e) code) = Some r \<Longrightarrow> seats_of w r \<noteq> []"
    and jn: "Registry_join code x e w = Some (w', out)"
  shows "hosts (core_of w')"
proof -
  let ?u = "s_userID (w_sessions w x)"
  have seated: "hosts (core_of w')"
    if "core_ok own (core_of v)" "hosts (core_of v)" "seats_of v r \<noteq> []"
      "join_seat r x e v = Some (w', out)" for v r
    using that Room_seat_hosts [OF that(2) core_struct [OF that(1)]]
    by (auto simp: join_seat_def split: if_splits)
  show ?thesis
  proof (cases "reg_rooms w (normalizeCode (e_upper e) code)")
    case (Some r)
    show ?thesis
    proof (cases "seatOfUser w ?u")
      case None
      then show ?thesis
        using jn h Some seated [OF ok h ne [OF Some]] by (auto simp: Registry_join_def split: if_splits)
    next
      case held: (Some p)
      then obtain cur s where p: "p = (cur, s)" "reg_users w ?u = Some (cur, s)"
        by (cases p) (auto simp: seatOfUser_def split: if_splits)
      obtain v b where rel: "release_held cur s w = (v, b)" by fastforce
      have "hosts (core_of v)" "cur \<noteq> r \<Longrightarrow> seats_of v r \<noteq> []"
        using release_held_hosts(1) [OF ok h p(2) rel] release_held_hosts(2) [OF ok h p(2) rel, of r]
          ne [OF Some] by auto
      then show ?thesis
        using jn h Some held p(1) rel seated [OF release_held_ok(1) [OF ok p(2) rel], of r]
        by (auto simp: Registry_join_def split: if_splits)
    qed
  qed (use jn h in \<open>simp add: Registry_join_def\<close>)
qed

end
