(* ===== verification/Ws_Handlers.thy ===== *)
theory Ws_Handlers
  imports Ws_Steps Ws_Hosts
begin

text \<open>
  Complete handlers. Dispatching a frame, tearing a connection down and running a timer callback
  are paths of critical sections (a refinement of the handler granularity by the section
  granularity), so the section invariant holds after them. On top of it the handlers keep a host
  in every occupied room and no empty room in the table.
\<close>

section \<open>Handlers are paths of sections\<close>

lemmas section_path = rtranclp.rtrancl_into_rtrancl

lemma path1: "section_step own w w' \<Longrightarrow> sections own w w'"
  by blast

lemma path2: "\<lbrakk>section_step own w w1; section_step own w1 w'\<rbrakk> \<Longrightarrow> sections own w w'"
  by (meson path1 rtranclp_trans)

lemma drain_sections: "sections own w (reattach_drain r x s mid w)"
proof (induction r x s mid w rule: reattach_drain.induct)
  case (1 r x s mid w)
  show ?case
  proof (cases "st_backlog (seat_at w s) = []")
    case True
    then show ?thesis by (subst reattach_drain.simps) (simp add: path1 section_step.Live)
  next
    case False
    let ?w1 = "send_all x (st_backlog (seat_at w s)) (upd_seat s (\<lambda>st. st\<lparr>st_backlog := []\<rparr>) w)"
    have flush: "sections own w ?w1" by (intro path1 section_step.Flush)
    show ?thesis
    proof (cases "s_ctxDone (w_sessions ?w1 x)")
      case True
      then show ?thesis using flush False by (subst reattach_drain.simps) (simp add: Let_def)
    next
      case live: False
      have "sections own ?w1 (reattach_drain r x s mid ?w1)" by (rule 1 [OF False refl refl live])
      then show ?thesis
        using rtranclp_trans [OF flush] False live by (subst reattach_drain.simps) (simp add: Let_def)
    qed
  qed
qed

lemma reattach_sections: "sections own w (fst (Room_reattach r x s w))"
proof (cases "\<not> st_disconnected (seat_at w s) \<or> seatIndexByIDLocked w r (st_playerID (seat_at w s)) < 0")
  case False
  then have "section_step own w (reattach_begin r x s w)" by (auto intro: section_step.Reattach)
  from rtranclp_trans [OF path1 [OF this] drain_sections] show ?thesis
    using False by (simp add: Room_reattach_def Let_def)
qed (auto simp: Room_reattach_def)

lemma core_nextSeat: "core_of w' = core_of w \<Longrightarrow> w_nextSeat w' = w_nextSeat w"
  by (metis core_of_simps(9))

lemma reattach_nextSeat: "w_nextSeat (fst (Room_reattach r x s w)) = w_nextSeat w"
  by (rule core_nextSeat) simp

lemma take_identity_section: "section_step own w (take_seat_identity x r s w)"
  unfolding take_seat_identity_def by (rule section_step.Session)

lemma create_outcome:
  assumes "Registry_create x e w = Some (w', out)"
  shows "so_reclaim out = None"
  using assms unfolding Registry_create_def by (auto simp: Let_def split: prod.splits if_splits option.splits)

lemma enter_create_sections:
  assumes "enterRoom (Suc n) x (Registry_create x e) w = Some w'"
  shows "\<exists>R. sections (own(w_nextSeat w := R)) w w'"
proof -
  let ?own = "own(w_nextSeat w := w_nextRoom w)"
  obtain w1 out where a: "Registry_create x e w = Some (w1, out)"
    using assms by (auto split: option.splits)
  have "section_step ?own w w1" by (rule section_step.Create [OF a]) simp
  moreover have "section_step ?own w1 w'"
    using assms a create_outcome [OF a]
    by (auto simp: set_room_def split: option.splits intro: section_step.Send section_step.Session)
  ultimately show ?thesis using path2 by blast
qed

lemma detach_nextSeat: "w_nextSeat (Room_detachSeat r s w) = w_nextSeat w"
  by (rule core_nextSeat) simp

lemma join_reclaim:
  assumes "Registry_join code x e w = Some (w1, out)" "so_reclaim out = Some s"
  shows "w1 = Room_detachSeat (the (so_room out)) s w"
  using assms
  by (auto simp: Registry_join_def join_seat_def Let_def split: option.splits prod.splits if_splits)

lemma enter_join_sections:
  assumes "enterRoom n x (Registry_join code x e) w = Some w'" "w_nextSeat w = N"
  shows "\<exists>R. sections (own(N := R)) w w'"
  using assms
proof (induction n arbitrary: w)
  case 0
  then show ?case using path1 [OF section_step.Send] by auto
next
  case (Suc n)
  obtain w1 out where a: "Registry_join code x e w = Some (w1, out)"
    using Suc.prems(1) by (auto split: option.splits)
  show ?case
  proof (cases "so_reclaim out")
    case None
    let ?own = "own(N := the (so_room out))"
    have "section_step ?own w w1" by (rule section_step.Join [OF a]) (use Suc.prems(2) in simp)
    moreover have "section_step ?own w1 w'"
      using Suc.prems(1) a None
      by (auto simp: set_room_def split: option.splits intro: section_step.Send section_step.Session)
    ultimately show ?thesis using path2 by blast
  next
    case (Some s)
    have join: "section_step o' w w1" for o' by (rule section_step.Join [OF a]) (use Some in simp)
    show ?thesis
    proof (cases "so_errCode out")
      case None
      then obtain r where r: "so_room out = Some r" using Suc.prems(1) a Some by (auto split: option.splits)
      obtain w2 ok where re: "Room_reattach r x s w1 = (w2, ok)" by fastforce
      have w2: "sections o' w w2" for o'
        using rtranclp_trans [OF path1 [OF join] reattach_sections [of o' w1 r x s]] re by simp
      have "w_nextSeat w2 = N"
        using reattach_nextSeat [of r x s w1] re Suc.prems(2) detach_nextSeat
        unfolding join_reclaim [OF a Some] by simp
      then have again: "\<exists>R. sections (own(N := R)) w2 w'" if "\<not> ok"
        by (rule Suc.IH [rotated]) (use Suc.prems(1) a None r Some re that in simp)
      have "sections o' w2 w'" if ok for o'
        using Suc.prems(1) a None r Some re that path2 [OF section_step.Remove_grace take_identity_section]
        by auto
      then show ?thesis using again rtranclp_trans [OF w2] by (cases ok) blast+
    next
      case e: (Some c)
      then show ?thesis
        using Suc.prems(1) a path2 [OF join section_step.Send] by auto
    qed
  qed
qed

lemma budget_sections:
  "sections own w (fst (take_budget x typ w))" "w_nextSeat (fst (take_budget x typ w)) = w_nextSeat w"
proof -
  have "sections own w (upd_sess x f w)" "sections own w (send x m (upd_sess x f w))" for f m
    using path1 [OF section_step.Session] path2 [OF section_step.Session section_step.Send] by blast+
  then show "sections own w (fst (take_budget x typ w))"
    by (auto simp: take_budget_def Let_def split: prod.split)
  show "w_nextSeat (fst (take_budget x typ w)) = w_nextSeat w"
    by (auto simp: take_budget_def Let_def split: prod.split)
qed

lemma leave_sections: "sections own w (Room_leave r x w)"
proof (cases "findSeatLocked w r x")
  case (Some s)
  have "section_step own w (leaveSeatLocked r s w)"
    using section_step.Leave [of own w r x] Some by (simp add: Room_leave_locked_def)
  from path2 [OF this section_step.Drop_room] show ?thesis using Some by (simp add: Room_leave_def Let_def)
qed (simp add: Room_leave_def)

lemma room_command_section:
  assumes "room_command x typ p e = Some f"
  shows "section_step own w (f r w)"
  using assms
  by (auto simp: room_command_def split: payload.splits if_splits
      intro: section_step.Ready section_step.Settings section_step.Freemods section_step.Start
        section_step.Kick section_step.Transfer section_step.Chat section_step.Finish)

lemma withRoom_section:
  assumes "\<And>r. section_step own w (f r w)"
  shows "section_step own w (withRoom x f w)"
  using assms by (auto simp: withRoom_def split: option.split intro: section_step.Send)

text \<open>What a routed frame amounts to.\<close>

lemma route_cases:
  assumes "route x ty sz p t e w = Some w'"
  obtains (sent) m where "w' = send x m w"
  | (relayed) eb where "w' = withRoom x (\<lambda>r. Room_relayEventBatch r x eb t) w"
  | (command) f where "room_command x ty p e = Some f" "w' = withRoom x f w"
  | (created) "enterRoom 2 x (Registry_create x e) w = Some w'"
  | (joined) code where "enterRoom 2 x (Registry_join code x e) w = Some w'"
  | (left) r where "w' = set_room x None (Room_leave r x w)"
proof -
  have "(\<exists>m. w' = send x m w) \<or> (\<exists>eb. w' = withRoom x (\<lambda>r. Room_relayEventBatch r x eb t) w) \<or>
      (\<exists>f. room_command x ty p e = Some f \<and> w' = withRoom x f w) \<or>
      enterRoom 2 x (Registry_create x e) w = Some w' \<or>
      (\<exists>code. enterRoom 2 x (Registry_join code x e) w = Some w') \<or>
      (\<exists>r. w' = set_room x None (Room_leave r x w))"
    using assms
    by (auto simp: route_def handleNTPPing_def handleEventBatch_def bad_payload_def
        handleCreateRoom_def handleJoinRoom_def handleLeave_def
        split: if_splits payload.splits option.splits)
  then show ?thesis using that by blast
qed

lemma route_sections:
  assumes "route x ty sz p t e w = Some w'"
  shows "\<exists>R. sections (own(w_nextSeat w := R)) w w'"
proof -
  have one: ?thesis if "\<And>own. section_step own w w'" using that path1 by blast
  from assms show ?thesis
  proof (cases rule: route_cases)
    case (sent m)
    then show ?thesis by (intro one) (simp add: section_step.Send)
  next
    case (relayed eb)
    then show ?thesis by (intro one) (simp add: withRoom_section section_step.Relay)
  next
    case (command f)
    then show ?thesis by (intro one) (simp add: withRoom_section room_command_section)
  next
    case created
    then show ?thesis using enter_create_sections [of 1 x e w w' own] by (simp only: numeral_2_eq_2 One_nat_def)
  next
    case (joined code)
    then show ?thesis using enter_join_sections [of 2 x code e w w' "w_nextSeat w" own] by simp
  next
    case (left r)
    then have "sections own w w'"
      using rtranclp_trans [OF leave_sections path1 [OF section_step.Session]] by (simp add: set_room_def)
    then show ?thesis by (intro exI [of _ "own (w_nextSeat w)"]) simp
  qed
qed

lemma hello_sections: "sections own w (fst (handleHello x p e w))"
proof (cases "\<exists>ver token. p = PHello ver token \<and> ver = Version \<and> token \<noteq> []")
  case True
  then obtain token where p: "p = PHello Version token" "token \<noteq> []" by blast
  have fresh: "sections own v (fresh_hello x e v)" for v
    unfolding fresh_hello_def by (rule path2 [OF section_step.Session section_step.Send])
  obtain w1 y where cl: "claimGrace token w = (w1, y)" by fastforce
  have w1: "sections own w w1" using path1 [OF section_step.Claim, of own w token] cl by simp
  show ?thesis
  proof (cases y)
    case None
    then show ?thesis using rtranclp_trans [OF w1 fresh] p cl by (simp add: handleHello_def)
  next
    case (Some q)
    obtain r s where q: "q = (r, s)" by fastforce
    obtain w2 b where re: "Room_reattach r x s w1 = (w2, b)" by fastforce
    have w2: "sections own w w2" using rtranclp_trans [OF w1 reattach_sections [of own w1 r x s]] re by simp
    have "sections own w2 (take_seat_identity x r s (upd_sess x (\<lambda>y. y\<lparr>s_helloDone := True\<rparr>) w2))"
      by (rule path2 [OF section_step.Session take_identity_section])
    then show ?thesis
      using rtranclp_trans [OF w2] fresh [of w2] p cl Some q re by (simp add: handleHello_def)
  qed
next
  case False
  then consider ver token where "p = PHello ver token" "ver \<noteq> Version" | "p = PHello Version []"
    | "\<forall>ver token. p \<noteq> PHello ver token" by blast
  then show ?thesis
  proof cases
    case 2
    then show ?thesis
      using path2 [OF section_step.Session section_step.Send] by (simp add: handleHello_def fresh_hello_def)
  qed (use path1 [OF section_step.Send] in \<open>auto simp: handleHello_def split: payload.split\<close>)
qed

text \<open>A frame a connection reads is handled by a path of critical sections.\<close>

lemma readLoop_sections:
  assumes "readLoop_step x inb e w = Some (w', c)"
  shows "\<exists>R. sections (own(w_nextSeat w := R)) w w'"
proof -
  have one: "\<exists>R. sections (own(w_nextSeat w := R)) w w'" if "sections own w w'"
    using that by (intro exI [of _ "own (w_nextSeat w)"]) simp
  show ?thesis
  proof (cases inb)
    case (InFrame ty sz p)
    then have d: "dispatch x ty sz p (w_now w) e w = Some (w', c)"
      using assms by (simp add: readLoop_step_def)
    show ?thesis
    proof (cases "s_helloDone (w_sessions w x)")
      case True
      obtain w1 ok where b: "take_budget x ty w = (w1, ok)" by fastforce
      have w1: "sections o' w w1" "w_nextSeat w1 = w_nextSeat w" for o'
        using budget_sections(1) [of o' w x ty] budget_sections(2) [of x ty w] b by simp_all
      show ?thesis
      proof (cases ok)
        case ok: True
        then have "route x ty sz p (w_now w) e w1 = Some w'" using d True b by (simp add: dispatch_def)
        from route_sections [OF this, of own] show ?thesis using rtranclp_trans [OF w1(1)] w1(2) by metis
      next
        case False
        then show ?thesis using d True b w1(1) one by (simp add: dispatch_def)
      qed
    next
      case False
      then show ?thesis
        using d one hello_sections [of own w x p e] path1 [OF section_step.Send]
        by (auto simp: dispatch_def split: if_splits)
    qed
  qed (use assms one path1 [OF section_step.Send] in \<open>auto simp: readLoop_step_def\<close>)
qed

lemma disconnect_sections:
  assumes ok: "core_ok own (core_of w)"
  shows "sections own w (fst (Room_disconnect r x w))"
proof (cases "findSeatLocked w r x")
  case (Some s)
  note at = found_seat_own [OF core_struct [OF ok] Some]
  let ?v = "disconnect_detach r s w"
  have "s < w_nextSeat ?v"
    using seats_okD(3) [OF core_struct [OF ok], of s r] at(2)
    by (simp add: disconnect_detach_def Let_def)
  then have "sections own ?v (disconnect_arm s (addGrace (st_resumeToken (seat_at ?v s)) r s ?v))"
    using path2 [OF section_step.Add_grace section_step.Arm] at(1) by blast
  then show ?thesis
    using rtranclp_trans [OF path1 [OF section_step.Detach [OF Some]]] Some
    by (simp add: Room_disconnect_def Let_def)
qed (simp add: Room_disconnect_def)

lemma teardown_sections:
  assumes "core_ok own (core_of w)"
  shows "sections own w (serve_teardown x w)"
  using rtranclp_trans [OF disconnect_sections [OF assms] path1 [OF section_step.Session]]
    path1 [OF section_step.Session]
  by (simp add: serve_teardown_def Let_def split: option.split)

lemma grace_expire_sections:
  assumes "own s = r"
  shows "sections own w (onGraceExpire r s w)"
  using rtranclp_trans [OF path1 [OF section_step.Grace_expire [of own s r, OF assms]]
      path2 [OF section_step.Remove_grace section_step.Drop_room]]
  by (simp add: onGraceExpire_def Let_def)

lemma timer_sections:
  "sections own w (onDeadline r mid w)" "sections own w (onFinishWindow r mid w)"
  "sections own w (fst (sweepAfk r mid w))"
  using path2 [OF section_step.Deadline section_step.Drop_room]
    path2 [OF section_step.Finish_window section_step.Drop_room]
    path2 [OF section_step.Sweep section_step.Drop_room] path1 [OF section_step.Sweep, of own w r mid]
  by (auto simp: onDeadline_def onFinishWindow_def sweepAfk_def Let_def split: prod.split)
     (metis fst_conv)

section \<open>Hosts under every interleaving\<close>

lemma reap_room_hosts:
  assumes "core_ok own (core_of w)" "hosts (core_of w)"
  shows "hosts (core_of (fst (reap_room now r (w, em))))"
  using assms close_room_hosts by (auto simp: reap_room_def Let_def split: prod.split)

lemma hosts_graces [simp]: "hosts (core_of (w\<lparr>reg_graces := gs\<rparr>)) = hosts (core_of w)"
  by (rule hosts_cong) (simp_all add: core_graces)

lemma startMatch_hosts: "hosts (core_of w) \<Longrightarrow> hosts (core_of (Room_startMatch r x force e w))"
  by (auto simp: Room_startMatch_def core_start_match split: option.split)

lemma section_hosts:
  assumes "section_step own w w'" "core_ok own (core_of w)" "hosts (core_of w)" "no_empty (core_of w)"
  shows "hosts (core_of w')"
  using assms
proof (induction rule: section_step.induct)
  case (Create x e w w' out)
  show ?case by (rule create_hosts [OF Create(3,4,1)])
next
  case (Join code x e w w' out)
  show ?case by (rule join_hosts [OF Join(3,4) _ Join(1)]) (use Join(5) in \<open>auto simp: no_empty_def\<close>)
next
  case (Leave w r x)
  have "distinct (seats_of w r)" using seats_okD(1) [OF core_struct [OF Leave(1)], of r] by simp
  then show ?case using Leave leaveSeat_hosts by (simp add: Room_leave_locked_def split: option.split)
next
  case (Kick w r x pid)
  have "distinct (seats_of w r)" using seats_okD(1) [OF core_struct [OF Kick(1)], of r] by simp
  then show ?case using Kick kick_hosts by simp
next
  case (Grace_expire s r w)
  have "distinct (seats_of w r)" using seats_okD(1) [OF core_struct [OF Grace_expire(2)], of r] by simp
  then show ?case using Grace_expire grace_expire_hosts by simp
qed (simp_all add: claimGrace_def removeGrace_def addGrace_def transferHost_hosts startMatch_hosts
    finish_hosts onDeadline_locked_def onFinishWindow_locked_def force_end_hosts sweepAfk_hosts
    reap_room_hosts split: option.split)

section \<open>No empty room stays in the table\<close>

definition no_empty_but :: "room_id \<Rightarrow> core \<Rightarrow> bool" where
  "no_empty_but r c \<longleftrightarrow> (\<forall>code r'. c_rooms c code = Some r' \<longrightarrow> r' \<noteq> r \<longrightarrow> c_seats c r' \<noteq> [])"

lemma no_empty_but_eq:
  assumes "no_empty (core_of w)" "reg_rooms w' = reg_rooms w"
    and "\<And>r'. r' \<noteq> r \<Longrightarrow> seats_of w' r' = seats_of w r'"
  shows "no_empty_but r (core_of w')"
  using assms by (simp add: no_empty_def no_empty_but_def)

lemma removeIfEmpty_no_empty:
  assumes ok: "core_ok own (core_of w)" and ne: "no_empty_but r (core_of w)"
  shows "no_empty (core_of (removeIfEmptyLocked (r_code (w_rooms w r)) w))"
proof -
  have code: "reg_rooms w c = Some r \<Longrightarrow> c = r_code (w_rooms w r)" for c
    using table_okD(1) [OF struct_okD(4) [OF core_struct [OF ok]], of c r] by simp
  show ?thesis
    unfolding no_empty_def core_of_simps removeIfEmpty_proj
  proof (intro allI impI)
    fix c r' assume a: "reg_rooms (removeIfEmptyLocked (r_code (w_rooms w r)) w) c = Some r'"
    then have old: "reg_rooms w c = Some r'"
      by (auto simp: removeIfEmptyLocked_def split: option.splits if_splits)
    show "seats_of w r' \<noteq> []"
    proof (cases "r' = r")
      case True
      then show ?thesis
        using a old code by (auto simp: removeIfEmptyLocked_def Room_empty_def split: option.splits if_splits)
    next
      case False
      then show ?thesis using ne old by (auto simp: no_empty_but_def)
    qed
  qed
qed

text \<open>What a departure in one room leaves alone: the table and the other rooms.\<close>

definition only_room :: "room_id \<Rightarrow> world \<Rightarrow> world \<Rightarrow> bool" where
  "only_room r w w' \<longleftrightarrow>
     reg_rooms w' = reg_rooms w \<and> (\<forall>r'. r' \<noteq> r \<longrightarrow> seats_of w' r' = seats_of w r')"

lemma only_room_refl [simp]: "only_room r w w"
  by (simp add: only_room_def)

lemma only_room_trans: "\<lbrakk>only_room r a b; only_room r b c\<rbrakk> \<Longrightarrow> only_room r a c"
  by (simp add: only_room_def)

lemma shrink_rooms: "shrink (core_of w) (core_of w') \<Longrightarrow> reg_rooms w' = reg_rooms w"
  by (simp add: shrink_def)

lemma only_room_leave: "only_room r w (leaveSeatLocked r s w)"
  using shrink_rooms [OF shrink_leaveSeat] by (simp add: only_room_def)

lemma only_room_endMatch: "only_room r w (endMatchLocked r reason w)"
  using shrink_rooms [OF shrink_endMatch] by (simp add: only_room_def)

lemma only_room_vacate: "only_room r w (vacate r s w)"
  using shrink_rooms [OF shrink_vacate] by (simp add: only_room_def)

lemma only_room_pre: "\<lbrakk>only_room r v w'; w_rooms v = w_rooms w; reg_rooms v = reg_rooms w\<rbrakk> \<Longrightarrow> only_room r w w'"
  by (simp add: only_room_def)

lemma only_room_no_empty:
  "\<lbrakk>only_room r w w'; no_empty (core_of w)\<rbrakk> \<Longrightarrow> no_empty_but r (core_of w')"
  by (rule no_empty_but_eq) (simp_all add: only_room_def)

lemma only_room_grace_expire: "only_room r w (onGraceExpire_locked r s w)"
proof -
  have v: "only_room r w (vacate r s (broadcastPeerStatusLocked r p StatusDNF (upd_seat s f w)))" for p f
    by (rule only_room_pre [OF only_room_vacate]) simp_all
  have u: "only_room r w (vacate r s (upd_seat s f w))" for f
    by (rule only_room_pre [OF only_room_vacate]) simp_all
  have e: "only_room r w (endMatchLocked r reason (vacate r s (broadcastPeerStatusLocked r p StatusDNF (upd_seat s f w))))"
    for p f reason by (rule only_room_trans [OF v only_room_endMatch])
  have a: "only_room r w (announce_leave r nick h w') = only_room r w w'" for nick h w'
    by (simp add: only_room_def announce_leave_def Let_def)
  have b: "only_room r w (broadcastStateLocked r w') = only_room r w w'"
    "only_room r w (systemChatLocked r k t w') = only_room r w w'" for w' k t
    by (simp_all add: only_room_def)
  show ?thesis unfolding onGraceExpire_locked_def Let_def by (simp add: a b u v e)
qed

lemma only_room_force_end: "only_room r w (force_end r mid reason w)"
proof -
  have "w_rooms (fold (dnf_active r) ss w) = w_rooms w" "reg_rooms (fold (dnf_active r) ss w) = reg_rooms w" for ss
    by (rule fold_preserves, simp add: dnf_active_def)+
  then show ?thesis
    by (simp add: force_end_def only_room_pre [OF only_room_endMatch] split: option.split)
qed

lemma sweep_fold_rooms:
  assumes "fold (sweep_seat r m) ss (w, k0) = (v, k)"
  shows "w_rooms v = w_rooms w" "reg_rooms v = reg_rooms w"
proof -
  have "w_rooms (fst (sweep_seat r m s wk)) = w_rooms (fst wk)"
    "reg_rooms (fst (sweep_seat r m s wk)) = reg_rooms (fst wk)" for s wk
    by (simp_all add: sweep_seat_def split: prod.split)
  then have "w_rooms (fst (fold (sweep_seat r m) ss (w, k0))) = w_rooms w"
    "reg_rooms (fst (fold (sweep_seat r m) ss (w, k0))) = reg_rooms w"
    using fold_preserves [of "\<lambda>wk. w_rooms (fst wk)" "sweep_seat r m" ss "(w, k0)"]
      fold_preserves [of "\<lambda>wk. reg_rooms (fst wk)" "sweep_seat r m" ss "(w, k0)"] by simp_all
  then show "w_rooms v = w_rooms w" "reg_rooms v = reg_rooms w" using assms by simp_all
qed

lemma only_room_sweep: "only_room r w (fst (sweepAfk_locked r mid w))"
  by (auto simp: sweepAfk_locked_def only_room_pre [OF only_room_endMatch] sweep_fold_rooms
      only_room_pre [OF only_room_refl] split: option.split prod.split)

lemma sweep_not_ended:
  assumes "sweepAfk_locked r mid w = (w', False)"
  shows "w_rooms w' = w_rooms w" "reg_rooms w' = reg_rooms w"
  using assms sweep_fold_rooms
  by (auto simp: sweepAfk_locked_def split: option.splits prod.splits if_splits)

lemma only_room_close: "only_room r w (close_room r w)"
proof (induction r w rule: close_room.induct)
  case (1 r w)
  then show ?case
    using only_room_trans [OF only_room_leave] by (cases "seats_of w r") (auto simp: close_room.simps [of r w])
qed

text \<open>A seat with a connection survives the end of its match.\<close>

lemma reap_keeps:
  assumes "s \<in> set (seats_of w r)" "st_sess (seat_at w s) \<noteq> None" "n \<le> length (seats_of w r)"
  shows "s \<in> set (seats_of (fold (reap_at r) (rev [0..<n]) w) r)"
  using assms
proof (induction n arbitrary: w)
  case (Suc n)
  have parts: "seats_of w r = take n (seats_of w r) @ seats_of w r ! n # drop (Suc n) (seats_of w r)"
    using Suc.prems(3) by (intro id_take_nth_drop) simp
  have "s \<in> set (seats_of (reap_at r n w) r)"
  proof (cases "st_sess (seat_at w (seats_of w r ! n)) = None")
    case True
    then have "s \<noteq> seats_of w r ! n" using Suc.prems(2) by auto
    then have "s \<in> set (take n (seats_of w r)) \<or> s \<in> set (drop (Suc n) (seats_of w r))"
      using Suc.prems(1) by (subst (asm) parts) auto
    then show ?thesis using Suc.prems(1) by (auto simp: reap_at_def removeSeatLocked_def Let_def)
  qed (use Suc.prems(1) in \<open>auto simp: reap_at_def Let_def\<close>)
  moreover have "n \<le> length (seats_of (reap_at r n w) r)"
    using Suc.prems(3) by (auto simp: reap_at_def Let_def removeSeatLocked_def)
  moreover have "st_sess (seat_at (reap_at r n w) s) \<noteq> None"
    using Suc.prems(2) by (simp add: reap_at_def Let_def)
  ultimately show ?case using Suc.IH by simp
qed simp

lemma endMatch_keeps:
  assumes "s \<in> set (seats_of w r)" "st_sess (seat_at w s) \<noteq> None"
  shows "s \<in> set (seats_of (endMatchLocked r reason w) r)"
proof -
  have sess: "st_sess (seat_at (end_announce r m reason (end_persist r m w)) s) = st_sess (seat_at w s)" for m
  proof -
    have "st_sess (seat_at (fold (announce_end r msg) ss v) s) = st_sess (seat_at v s)" for msg ss v
      by (rule fold_preserves) (simp add: announce_end_def split: option.split)
    then show ?thesis by (simp add: end_announce_def end_persist_def Let_def)
  qed
  have reset: "st_sess (seat_at (fold reset_seat ss v) s) = st_sess (seat_at v s)" for ss v
    by (rule fold_preserves) (simp add: reset_seat_def)
  have "s \<in> set (seats_of (end_cleanup r (end_announce r m reason (end_persist r m w))) r)" for m
    unfolding end_cleanup_def Let_def
    by (rule reap_keeps) (use assms in \<open>simp_all add: sess reset\<close>)
  then have "s \<in> set (c_seats (core_of (endMatchLocked r reason w)) r)"
    if "match_of w r = Some m" "\<not> m_ended m" for m
    unfolding core_endMatch [OF that] by (simp add: end_rehost_def)
  then show ?thesis
    using assms(1) by (cases "match_of w r") (auto simp: endMatchLocked_def [of r reason w] split: if_splits)
qed

lemma kick_no_empty:
  assumes ok: "core_ok own (core_of w)" and ne: "no_empty (core_of w)"
  shows "no_empty (core_of (Room_kick r x pid w))"
proof -
  note st = core_struct [OF ok]
  define i where "i = nat (seatIndexByIDLocked w r pid)"
  have d: "distinct (seats_of w r)" using seats_okD(1) [OF st, of r] by simp
  have "no_empty (core_of (removeSeatLocked r i w))"
    if s: "findSeatLocked w r x = Some s" "st_playerID (seat_at w s) = host_of w r"
      and k: "\<not> seatIndexByIDLocked w r pid < 0"
        "st_playerID (seat_at w (seats_of w r ! i)) \<noteq> host_of w r" for s
  proof -
    have i: "i < length (seats_of w r)"
      using k(1) index_from_nth unfolding i_def seatIndexByIDLocked_def index_from_neg_iff by blast
    have "s \<noteq> seats_of w r ! i" using s(2) k(2) by auto
    then have "s \<in> set (remove1 (seats_of w r ! i) (seats_of w r))"
      using found_seat_own(2) [OF st s(1)] by simp
    then show ?thesis
      using ne unfolding core_removeSeat [OF d i] no_empty_def by auto
  qed
  then show ?thesis
    using ne unfolding Room_kick_def Let_def i_def [symmetric] by (auto split: option.splits)
qed

lemma no_empty_cong:
  "\<lbrakk>c_rooms c' = c_rooms c; c_seats c' = c_seats c\<rbrakk> \<Longrightarrow> no_empty c' = no_empty c"
  by (simp add: no_empty_def)

lemma no_empty_simps [simp]:
  "no_empty (a_status s x c) = no_empty c" "no_empty (a_host r h c) = no_empty c"
  "no_empty (a_start r c) = no_empty c"
  by (rule no_empty_cong; simp add: a_status_def a_host_def a_start_def fold_a_status a_match_def)+

lemma endMatch_no_empty:
  assumes "no_empty (core_of w)" "s \<in> set (seats_of w r)" "st_sess (seat_at w s) \<noteq> None"
  shows "no_empty (core_of (endMatchLocked r reason w))"
proof -
  have "seats_of (endMatchLocked r reason w) r \<noteq> []"
    using endMatch_keeps [OF assms(2,3), of reason] by auto
  then show ?thesis
    using only_room_no_empty [OF only_room_endMatch assms(1), of r reason]
    unfolding no_empty_def no_empty_but_def core_of_simps(2,11) by metis
qed

lemma finish_no_empty:
  assumes ok: "core_ok own (core_of w)" and ne: "no_empty (core_of w)"
  shows "no_empty (core_of (Room_finish r x mid forfeit w))"
proof (cases "findSeatLocked w r x")
  case (Some s)
  have s: "s \<in> set (seats_of w r)" "st_sess (seat_at w s) = Some x"
    using Some by (auto simp: findSeatLocked_def dest: find_first_Some)
  have "no_empty (core_of (endMatchLocked r reason (broadcastPeerStatusLocked r p q (upd_seat s f w))))"
    if "st_sess (f (seat_at w s)) = Some x" "st_playerID (f (seat_at w s)) = st_playerID (seat_at w s)"
      "st_userID (f (seat_at w s)) = st_userID (seat_at w s)" for reason p q f
    by (rule endMatch_no_empty [of _ s]) (use ne s that in \<open>simp_all add: core_upd_seat_status\<close>)
  then show ?thesis
    using ne s(2) Some
    by (auto simp: Room_finish_def Let_def end_if_all_terminal_def core_upd_seat_status split: option.split)
qed (use ne in \<open>simp add: Room_finish_def\<close>)

lemma Room_seat_no_empty:
  assumes "Room_seat r x h draws w = Some (w', b)" "no_empty_but r (core_of w)"
    and "\<not> b \<Longrightarrow> no_empty (core_of w)"
  shows "no_empty (core_of w')"
proof (cases b)
  case True
  then have "Room_seat r x h draws w = Some (w', True)" using assms(1) by simp
  then show ?thesis
    using assms(2) core_Room_seat(1) [of r x h draws w w']
    by (auto simp: Let_def no_empty_def no_empty_but_def a_host_def)
next
  case False
  then have "w' = w" using assms(1) by (auto simp: Room_seat_def Let_def split: if_splits option.splits)
  then show ?thesis using assms(3) False by simp
qed

lemma release_held_no_empty:
  assumes ok: "core_ok own (core_of w)" and ne: "no_empty (core_of w)"
    and held: "reg_users w u = Some (cur, s)" and rel: "release_held cur s w = (w', b)"
  shows "no_empty (core_of w')"
  using ok held rel
proof (rule release_held_cases)
  fix v assume v: "v = displaceLocked (st_sess (seat_at w s)) (leaveSeatLocked cur s w)"
    "w' = removeIfEmptyLocked (r_code (w_rooms v cur)) v"
  have "no_empty_but cur (core_of v)"
    using only_room_no_empty [OF only_room_leave ne, of cur s] by (simp add: v(1))
  moreover have "core_ok own (core_of v)"
    using leaveSeat_core_ok [OF ok held_seat(4) [OF ok held]] by (simp add: v(1))
  ultimately show ?thesis using removeIfEmpty_no_empty v(2) by blast
qed (use ne in simp)

lemma create_no_empty:
  assumes ok: "core_ok own (core_of w)" and ne: "no_empty (core_of w)"
    and cr: "Registry_create x e w = Some (w', out)"
  shows "no_empty (core_of w')"
proof -
  let ?u = "s_userID (w_sessions w x)"
  obtain w1 b where step: "(case seatOfUser w ?u of None \<Rightarrow> (w, True) | Some (cur, s) \<Rightarrow> release_held cur s w) = (w1, b)"
    by fastforce
  have w1: "core_ok own (core_of w1) \<and> no_empty (core_of w1)"
  proof (cases "seatOfUser w ?u")
    case None
    then show ?thesis using step ok ne by auto
  next
    case (Some p)
    then obtain cur s where "reg_users w ?u = Some (cur, s)" "release_held cur s w = (w1, b)"
      using step by (cases p) (auto simp: seatOfUser_def split: if_splits)
    then show ?thesis using release_held_ok(1) [OF ok] release_held_no_empty [OF ok ne] by blast
  qed
  have seated: "no_empty (core_of w2)"
    if "Room_seat (w_nextRoom w1) x True ds (open_room code w1) = Some (w2, bb)" for code ds w2 bb
  proof (rule Room_seat_no_empty [OF that])
    show "no_empty_but (w_nextRoom w1) (core_of (open_room code w1))"
      using w1 by (auto simp: no_empty_def no_empty_but_def open_room_def split: if_splits)
    have bb using that by (auto simp: Room_seat_def open_room_def newRoom_def roomCapacity_def Let_def
        split: option.splits)
    then show "no_empty (core_of (open_room code w1))" if "\<not> bb" using that by simp
  qed
  show ?thesis
    using cr w1 seated unfolding Registry_create_def step Let_def prod.case
    by (auto split: if_splits option.splits)
qed

lemma join_no_empty:
  assumes ok: "core_ok own (core_of w)" and ne: "no_empty (core_of w)"
    and jn: "Registry_join code x e w = Some (w', out)"
  shows "no_empty (core_of w')"
proof -
  have seated: "no_empty (core_of w')"
    if "no_empty (core_of v)" "join_seat r x e v = Some (w', out)" for v r
    using that Room_seat_no_empty [of r x False _ v]
    by (auto simp: join_seat_def no_empty_def no_empty_but_def split: if_splits)
  have "no_empty (core_of v)"
    if "seatOfUser w (s_userID (w_sessions w x)) = Some (cur, s)" "release_held cur s w = (v, b)" for cur s v b
    using release_held_no_empty [OF ok ne _ that(2)] that(1) by (auto simp: seatOfUser_def split: if_splits)
  then show ?thesis
    using jn ne seated
    by (auto simp: Registry_join_def split: option.splits if_splits prod.splits) metis
qed

section \<open>The server at handler granularity\<close>

inductive server_step :: "world \<Rightarrow> world \<Rightarrow> bool" where
  Advance: "w_now w \<le> t \<Longrightarrow> server_step w (w\<lparr>w_now := t\<rparr>)"
| Connect: "server_step w (serve_open authed displayName userID w)"
| Frame: "readLoop_step x inb e w = Some (w', c) \<Longrightarrow> server_step w w'"
| Written: "server_step w (writeLoop_step x w)"
| Teardown: "server_step w (serve_teardown x w)"
| Grace_timer: "s \<in> set (seats_of w r) \<or> seatIndexByIDLocked w r (st_playerID (seat_at w s)) < 0
    \<Longrightarrow> server_step w (onGraceExpire r s w)"
| Deadline_timer: "server_step w (onDeadline r mid w)"
| Window_timer: "server_step w (onFinishWindow r mid w)"
| Afk_tick: "server_step w (fst (sweepAfk r mid w))"
| Idle_sweep: "server_step w (reapIdleRooms now order w)"

definition tidy :: "world \<Rightarrow> bool" where
  "tidy w \<longleftrightarrow> (\<exists>own. core_ok own (core_of w)) \<and> hosts (core_of w) \<and> no_empty (core_of w)"

lemma core_ok_own:
  assumes ok: "core_ok own c" and eq: "\<And>s. s < c_nextSeat c \<Longrightarrow> own' s = own s"
  shows "core_ok own' c"
proof -
  note st = core_struct [OF ok]
  have "match_ok own' c r" for r
  proof (rule match_okI)
    note M = struct_okD(2) [OF st, of r]
    show "c_inMatch c r \<longleftrightarrow> c_roster c r \<noteq> None"
      "\<And>s. \<lbrakk>c_roster c r = None; s \<in> set (c_seats c r)\<rbrakk> \<Longrightarrow> c_status c s \<noteq> seatActive"
      using M unfolding match_ok_def by blast+
    fix ro e assume ro: "c_roster c r = Some (ro, e)"
    note D = match_okD [OF M ro]
    show "\<not> e \<and> distinct ro" using D(1,2) by blast
    show "s < c_nextSeat c \<and> own' s = r" if "s \<in> set ro" for s using D(3,4) [OF that] eq by simp
    show "s \<in> set ro \<longleftrightarrow> s \<in> set (c_seats c r)" if "own' s = r" "c_status c s = seatActive" for s
    proof (cases "s < c_nextSeat c")
      case True
      then show ?thesis using D(6) [of s] that eq by simp
    next
      case False
      then show ?thesis using D(3) [of s] seats_okD(3) [OF st, of s r] by blast
    qed
  qed
  moreover have "seats_ok own' c r" for r
    using struct_okD(1) [OF st, of r] eq unfolding seats_ok_def by simp
  moreover have "graces_ok own' c"
    using struct_okD(5) [OF st] eq unfolding graces_ok_def by fastforce
  ultimately show ?thesis
    using ok struct_okD(3,4) [OF st] by (simp add: core_ok_def struct_ok_def)
qed

lemma sections_core_ok: "\<lbrakk>sections own w w'; core_ok own (core_of w)\<rbrakk> \<Longrightarrow> core_ok own (core_of w')"
  by (induction rule: rtranclp_induct) (auto intro: section_core_ok)

text \<open>The two handler-level facts, room by room.\<close>

definition host_inv :: "world \<Rightarrow> bool" where
  "host_inv w \<longleftrightarrow> hosts (core_of w) \<and> no_empty (core_of w)"

lemma host_inv_core: "core_of w' = core_of w \<Longrightarrow> host_inv w' = host_inv w"
  by (simp add: host_inv_def)

lemma host_inv_graces [simp]: "host_inv (w\<lparr>reg_graces := gs\<rparr>) = host_inv w"
proof -
  have "no_empty (core_of (w\<lparr>reg_graces := gs\<rparr>)) = no_empty (core_of w)"
    by (rule no_empty_cong) (simp_all add: core_graces)
  then show ?thesis by (simp add: host_inv_def)
qed

lemma depart_host_inv:
  assumes "core_ok own (core_of v)" "hosts (core_of v)" "only_room r w v" "host_inv w"
  shows "host_inv (removeIfEmptyLocked (r_code (w_rooms v r)) v)"
  using assms removeIfEmpty_no_empty [OF assms(1)] only_room_no_empty
  by (auto simp: host_inv_def)

lemma enter_create_host_inv:
  assumes "core_ok own (core_of w)" "host_inv w" "enterRoom (Suc n) x (Registry_create x e) w = Some w'"
  shows "host_inv w'"
proof -
  obtain w1 out where a: "Registry_create x e w = Some (w1, out)"
    using assms(3) by (auto split: option.splits)
  have "host_inv w1"
    using create_hosts [OF assms(1) _ a] create_no_empty [OF assms(1) _ a] assms(2)
    by (simp add: host_inv_def)
  moreover have "core_of w' = core_of w1"
    using assms(3) a create_outcome [OF a] by (auto simp: set_room_def split: option.splits)
  ultimately show ?thesis using host_inv_core by blast
qed

lemma enter_join_host_inv:
  assumes "core_ok own (core_of w)" "host_inv w" "enterRoom n x (Registry_join code x e) w = Some w'"
  shows "host_inv w'"
  using assms
proof (induction n arbitrary: w)
  case 0
  then show ?case using host_inv_core [of w' w] by auto
next
  case (Suc n)
  obtain w1 out where a: "Registry_join code x e w = Some (w1, out)"
    using Suc.prems(3) by (auto split: option.splits)
  have w1: "host_inv w1"
    using join_hosts [OF Suc.prems(1) _ _ a] join_no_empty [OF Suc.prems(1) _ a] Suc.prems(2)
    by (auto simp: host_inv_def no_empty_def)
  show ?case
  proof (cases "so_errCode out = None \<and> so_reclaim out \<noteq> None")
    case False
    then have "core_of w' = core_of w1"
      using Suc.prems(3) a by (auto simp: set_room_def split: option.splits)
    then show ?thesis using w1 host_inv_core by blast
  next
    case True
    then obtain s r where sr: "so_reclaim out = Some s" "so_room out = Some r" "so_errCode out = None"
      using Suc.prems(3) a by (auto split: option.splits)
    obtain w2 ok where re: "Room_reattach r x s w1 = (w2, ok)" by fastforce
    have "core_of w2 = core_of w1" using core_Room_reattach [of r x s w1] unfolding re by simp
    then have w2: "core_of w2 = core_of w" unfolding join_reclaim [OF a sr(1)] by simp
    show ?thesis
    proof (cases ok)
      case True
      then have "w' = take_seat_identity x r s (removeGrace (st_resumeToken (seat_at w2 s)) w2)"
        using Suc.prems(3) a sr re by simp
      then show ?thesis
        using Suc.prems(2) w2
        by (simp add: host_inv_def take_seat_identity_def removeGrace_def core_graces no_empty_def
            hosts_def host_ok_def)
    next
      case False
      then show ?thesis
        using Suc.IH [of w2] Suc.prems a sr re w2 host_inv_core [OF w2] by simp
    qed
  qed
qed

lemma leave_host_inv:
  assumes ok: "core_ok own (core_of w)" and h: "host_inv w"
  shows "host_inv (Room_leave r x w)"
proof (cases "findSeatLocked w r x")
  case (Some s)
  note at = found_seat_own [OF core_struct [OF ok] Some]
  have "hosts (core_of (leaveSeatLocked r s w))"
    using leaveSeat_hosts seats_okD(1) [OF core_struct [OF ok], of r] h by (simp add: host_inv_def)
  from depart_host_inv [OF leaveSeat_core_ok [OF ok at(1)] this only_room_leave h]
  show ?thesis using Some by (simp add: Room_leave_def Let_def)
qed (use h in \<open>simp add: Room_leave_def\<close>)

lemma command_host_inv:
  assumes ok: "core_ok own (core_of w)" and h: "host_inv w" and c: "room_command x typ p e = Some f"
  shows "host_inv (f r w)"
proof -
  have d: "distinct (seats_of w r)" using seats_okD(1) [OF core_struct [OF ok], of r] by simp
  have "no_empty (core_of (Room_startMatch r x force e w)) = no_empty (core_of w)" for force
    by (simp add: Room_startMatch_def core_start_match split: option.split)
  moreover have "no_empty (core_of (Room_transferHost r x pid w)) = no_empty (core_of w)" for pid
    by (simp add: Room_transferHost_def Let_def split: option.split)
  ultimately show ?thesis
    using c h kick_hosts [OF _ d] kick_no_empty [OF ok] startMatch_hosts transferHost_hosts finish_hosts
      finish_no_empty [OF ok]
    by (auto simp: host_inv_def room_command_def split: payload.splits if_splits)
qed

lemma route_host_inv:
  assumes ok: "core_ok own (core_of w)" and h: "host_inv w" and r: "route x ty sz p t e w = Some w'"
  shows "host_inv w'"
proof -
  have snd: "host_inv (send x m w)" for m using h host_inv_core [of "send x m w" w] by simp
  have wr: "host_inv (withRoom x f w)" if "\<And>r. host_inv (f r w)" for f
    using that snd by (simp add: withRoom_def split: option.split)
  from r show ?thesis
  proof (cases rule: route_cases)
    case (relayed eb)
    have "host_inv (Room_relayEventBatch r x eb t w)" for r
      using h host_inv_core [of "Room_relayEventBatch r x eb t w" w] by simp
    then show ?thesis using relayed wr by simp
  next
    case (left r)
    have "host_inv (set_room x y v) = host_inv v" for y v
      by (rule host_inv_core) (simp add: set_room_def)
    then show ?thesis using left leave_host_inv [OF ok h] by simp
  next
    case created
    then show ?thesis using enter_create_host_inv [OF ok h, of 1 x e w'] by (simp only: numeral_2_eq_2 One_nat_def)
  qed (use snd wr command_host_inv [OF ok h] enter_join_host_inv [OF ok h] in blast)+
qed

lemma hello_core: "core_of (fst (handleHello x p e w)) = core_of w \<or>
    (\<exists>gs. core_of (fst (handleHello x p e w)) = (core_of w)\<lparr>c_graces := gs\<rparr>)"
proof -
  have re: "core_of w2 = core_of w1" if "Room_reattach r x s w1 = (w2, b)" for r s w1 w2 b
    using core_Room_reattach [of r x s w1] unfolding that by simp
  have cl: "\<exists>gs. core_of w1 = (core_of w)\<lparr>c_graces := gs\<rparr> \<or> core_of w1 = core_of w"
    if "claimGrace t w = (w1, y)" for t w1 y
    using that by (auto simp: claimGrace_def core_graces split: option.splits)
  show ?thesis
    using cl by (auto simp: handleHello_def fresh_hello_def take_seat_identity_def re
        split: payload.split prod.split option.split)
qed

lemma hello_host_inv: "host_inv w \<Longrightarrow> host_inv (fst (handleHello x p e w))"
proof -
  have "hosts (c\<lparr>c_graces := gs\<rparr>) = hosts c" "no_empty (c\<lparr>c_graces := gs\<rparr>) = no_empty c" for c gs
    by (rule hosts_cong no_empty_cong; simp)+
  then show "host_inv w \<Longrightarrow> host_inv (fst (handleHello x p e w))"
    using hello_core [of x p e w] by (auto simp: host_inv_def)
qed

lemma budget_core: "core_of (fst (take_budget x typ w)) = core_of w"
  by (auto simp: take_budget_def Let_def split: prod.split)

lemma readLoop_host_inv:
  assumes ok: "core_ok own (core_of w)" and h: "host_inv w"
    and r: "readLoop_step x inb e w = Some (w', c)"
  shows "host_inv w'"
proof -
  have snd: "host_inv (send x m w)" for m using h host_inv_core [of "send x m w" w] by simp
  have routed: "host_inv v" if "take_budget x ty w = (w1, b)" "route x ty sz p t e w1 = Some v"
    for ty w1 b sz p t v
  proof -
    have c: "core_of w1 = core_of w" using budget_core [of x ty w] that(1) by simp
    show ?thesis by (rule route_host_inv [OF _ _ that(2), of own]) (use ok h host_inv_core [OF c] c in simp_all)
  qed
  have budget: "host_inv w1" if "take_budget x ty w = (w1, b)" for ty w1 b
    using budget_core [of x ty w] that h host_inv_core [of w1 w] by simp
  show ?thesis
  proof (cases inb)
    case (InFrame ty sz p)
    then have d: "dispatch x ty sz p (w_now w) e w = Some (w', c)"
      using r by (simp add: readLoop_step_def)
    obtain w1 b where bu: "take_budget x ty w = (w1, b)" by fastforce
    show ?thesis
    proof (cases "s_helloDone (w_sessions w x)")
      case True
      then show ?thesis
        using d bu budget [OF bu] routed [OF bu] by (auto simp: dispatch_def split: if_splits)
    next
      case False
      then show ?thesis
        using d snd hello_host_inv [OF h, of x p e] by (auto simp: dispatch_def split: if_splits)
    qed
  qed (use r snd in \<open>auto simp: readLoop_step_def\<close>)
qed

lemma reapIdle_host_inv:
  assumes ok: "core_ok own (core_of w)" and h: "host_inv w"
  shows "host_inv (reapIdleRooms now order w)"
proof -
  define P where "P = (\<lambda>(v, em). core_ok own (core_of v) \<and> hosts (core_of v) \<and>
    (\<forall>code r. reg_rooms v code = Some r \<longrightarrow> seats_of v r = [] \<longrightarrow> code \<in> set em))"
  have step: "P (reap_room now r vem)" if P: "P vem" for r vem
  proof -
    obtain v em where vem: "vem = (v, em)" by fastforce
    have v: "core_ok own (core_of v)" "hosts (core_of v)"
      "\<And>code r. reg_rooms v code = Some r \<Longrightarrow> seats_of v r = [] \<Longrightarrow> code \<in> set em"
      using P by (auto simp: P_def vem)
    have only: "reg_rooms (close_room r v) = reg_rooms v"
      "\<And>r'. r' \<noteq> r \<Longrightarrow> seats_of (close_room r v) r' = seats_of v r'"
      using only_room_close [of r v] by (auto simp: only_room_def)
    have code: "r_code (w_rooms (close_room r v) r) = code" if "reg_rooms v code = Some r" for code
      using table_okD(1) [OF struct_okD(4) [OF core_struct [OF close_room_core_ok [OF v(1), of r]]], of code r]
        that only(1) by simp
    have "\<And>code r'. reg_rooms v code = Some r' \<Longrightarrow> seats_of (close_room r v) r' = [] \<Longrightarrow>
        code \<in> set em \<or> code = r_code (w_rooms (close_room r v) r)"
      using v(3) only(2) code by metis
    then show ?thesis
      using v close_room_core_ok [OF v(1)] close_room_hosts [OF v(1,2)] only(1)
      by (auto simp: P_def vem reap_room_def Let_def split: prod.split)
  qed
  have "P (fold (reap_room now) order (w, []))"
    by (rule fold_invariant_set) (use ok h step in \<open>auto simp: P_def host_inv_def no_empty_def\<close>)
  then obtain v em where v: "fold (reap_room now) order (w, []) = (v, em)" "P (v, em)"
    by (metis surj_pair)
  have "hosts (core_of (fold removeIfEmptyLocked ss v))" for ss
    by (rule fold_invariant_set [of "\<lambda>v. hosts (core_of v)"]) (use v(2) in \<open>auto simp: P_def\<close>)
  moreover have "(\<forall>code r. reg_rooms (fold removeIfEmptyLocked ss v) code = Some r \<longrightarrow>
         reg_rooms v code = Some r \<and> (code \<in> set ss \<longrightarrow> seats_of v r \<noteq> [])) \<and>
      w_rooms (fold removeIfEmptyLocked ss v) = w_rooms v" for ss
  proof (induction ss rule: rev_induct)
    case (snoc c ss)
    then show ?case
      by (auto simp: removeIfEmptyLocked_def [of c] Room_empty_def split: option.splits if_splits)
  qed simp
  ultimately show ?thesis
    using v by (auto simp: reapIdleRooms_def host_inv_def no_empty_def P_def) blast
qed

lemma timer_host_inv:
  assumes ok: "core_ok own (core_of w)" and h: "host_inv w"
  shows "host_inv (onDeadline r mid w)" "host_inv (onFinishWindow r mid w)"
    "host_inv (fst (sweepAfk r mid w))" "own s = r \<Longrightarrow> host_inv (onGraceExpire r s w)"
proof -
  have hs: "hosts (core_of w)" using h by (simp add: host_inv_def)
  have d: "distinct (seats_of w r)" using seats_okD(1) [OF core_struct [OF ok], of r] by simp
  show "host_inv (onDeadline r mid w)" "host_inv (onFinishWindow r mid w)"
    using h depart_host_inv [OF force_end_core_ok [OF ok] force_end_hosts [OF hs] only_room_force_end h]
    by (simp_all add: onDeadline_def onFinishWindow_def onDeadline_locked_def onFinishWindow_locked_def Let_def)
  obtain v b where v: "sweepAfk_locked r mid w = (v, b)" by fastforce
  have vok: "core_ok own (core_of v)" "hosts (core_of v)" "only_room r w v"
    using sweepAfk_core_ok [OF ok, of r mid] sweepAfk_hosts [OF hs, of r mid] only_room_sweep [of r w mid] v
    by simp_all
  have same: "host_inv v" if "\<not> b"
    using sweep_not_ended [of r mid w v] v that vok(2) h by (simp add: host_inv_def no_empty_def)
  have skip: "host_inv v" if "\<not> match_guard w r mid"
    using v that h by (auto simp: sweepAfk_locked_def match_guard_def split: option.splits if_splits)
  show "host_inv (fst (sweepAfk r mid w))"
    using v same skip depart_host_inv [OF vok h] by (auto simp: sweepAfk_def)
  show "host_inv (onGraceExpire r s w)" if own: "own s = r"
  proof -
    let ?v = "onGraceExpire_locked r s w"
    have "core_ok own (core_of (removeGrace t ?v))" for t
      by (intro removeGrace_core_ok grace_expire_core_ok ok own)
    moreover have "hosts (core_of (removeGrace t ?v))" for t
      using grace_expire_hosts [OF hs d] by (simp add: removeGrace_def)
    moreover have "only_room r w (removeGrace t ?v)" for t
      using only_room_grace_expire [of r w s] by (simp add: only_room_def removeGrace_def)
    ultimately show ?thesis
      unfolding onGraceExpire_def Let_def by (rule depart_host_inv [OF _ _ _ h])
  qed
qed

lemma grace_noop:
  assumes "seatIndexByIDLocked w r (st_playerID (seat_at w s)) < 0"
  shows "onGraceExpire_locked r s w = w"
  using assms by (simp add: onGraceExpire_locked_def Let_def)

lemma grace_timer_sections:
  assumes ok: "core_ok own (core_of w)"
    and at: "s \<in> set (seats_of w r) \<or> seatIndexByIDLocked w r (st_playerID (seat_at w s)) < 0"
  shows "sections own w (onGraceExpire r s w)" and "host_inv w \<Longrightarrow> host_inv (onGraceExpire r s w)"
proof -
  have own: "own s = r" if "s \<in> set (seats_of w r)" using seats_okD(4) [OF core_struct [OF ok]] that by simp
  have skip: "onGraceExpire r s w =
      removeIfEmptyLocked (r_code (w_rooms w r)) (removeGrace (st_resumeToken (seat_at w s)) w)"
    if "seatIndexByIDLocked w r (st_playerID (seat_at w s)) < 0"
    using that by (simp add: onGraceExpire_def Let_def grace_noop removeGrace_def)
  show "sections own w (onGraceExpire r s w)"
    using at own grace_expire_sections [of own s r w] skip
      path2 [OF section_step.Remove_grace section_step.Drop_room] by metis
  have "host_inv (removeIfEmptyLocked (r_code (w_rooms w r)) (removeGrace t w))" if "host_inv w" for t
    using depart_host_inv [OF removeGrace_core_ok [OF ok, of t], of r w] that
    by (simp add: only_room_def removeGrace_def host_inv_def)
  then show "host_inv w \<Longrightarrow> host_inv (onGraceExpire r s w)"
    using at own timer_host_inv(4) [OF ok, of s r] skip by metis
qed

lemma server_step_tidy:
  assumes "server_step w w'" "tidy w"
  shows "tidy w'"
proof -
  obtain own where ok: "core_ok own (core_of w)" and h: "host_inv w"
    using assms(2) by (auto simp: tidy_def host_inv_def)
  have path: "tidy v" if "sections own w v" "host_inv v" for v
    using that sections_core_ok [OF _ ok] by (auto simp: tidy_def host_inv_def)
  have same: "tidy v" if "core_of v = core_of w" for v
    using that assms(2) by (simp add: tidy_def)
  from assms(1) show ?thesis
  proof (cases rule: server_step.cases)
    case (Frame x inb e c)
    from readLoop_sections [OF Frame, of own] obtain R
      where "sections (own(w_nextSeat w := R)) w w'" by blast
    moreover have "core_ok (own(w_nextSeat w := R)) (core_of w)" by (rule core_ok_own [OF ok]) simp
    ultimately have "core_ok (own(w_nextSeat w := R)) (core_of w')" by (rule sections_core_ok)
    moreover have "host_inv w'" by (rule readLoop_host_inv [OF ok h Frame])
    ultimately show ?thesis by (auto simp: tidy_def host_inv_def)
  next
    case (Teardown x)
    have "host_inv (disconnect_arm s (addGrace t r s (disconnect_detach r s w)))" for t r s
      using h host_inv_core [OF core_disconnect_arm] host_inv_core [OF core_disconnect_detach]
      by (simp add: addGrace_def)
    then have "host_inv (fst (Room_disconnect r x w))" for r
      using h by (simp add: Room_disconnect_def Let_def split: option.split)
    then have "host_inv w'"
      using h host_inv_core [OF core_upd_sess] by (simp add: Teardown serve_teardown_def Let_def split: option.split)
    then show ?thesis using sections_core_ok [OF teardown_sections [OF ok] ok] Teardown
      by (auto simp: tidy_def host_inv_def)
  next
    case (Idle_sweep now order)
    then show ?thesis
      using reapIdle_core_ok [OF ok] reapIdle_host_inv [OF ok h] by (auto simp: tidy_def host_inv_def)
  qed (use timer_sections timer_host_inv(1-3) [OF ok h] grace_timer_sections [OF ok] h same path in auto)
qed

end
