(* ===== verification/Ws_Properties.thy ===== *)
theory Ws_Properties
  imports Ws_Handlers
begin

text \<open>
  The properties of the realtime transport, over every interleaving of its critical sections and
  over its complete handlers, with the small concrete servers their witnesses run on.
\<close>

section \<open>Concrete servers for the witnesses\<close>

definition demo_env :: env where
  "demo_env = \<lparr>e_nicks = [0, 1, 2, 3, 4, 5], e_codes = [[0, 0, 0, 0, 0, 0]], e_matchID = ''m1'',
     e_seed = 7, e_playerID = ''p0'', e_resumeToken = ''t0'', e_upper = (\<lambda>x. x),
     e_restricted = (\<lambda>_. False)\<rparr>"

text \<open>One account connected and past its hello; then the same account in a room of its own.\<close>

definition demo_connected :: world where
  "demo_connected =
     upd_sess 0 (\<lambda>x. x\<lparr>s_helloDone := True, s_playerID := ''p0'', s_resumeToken := ''t0''\<rparr>)
       (serve_open True ''ann'' ''u1'' (NewRegistry True 0))"

definition demo_created :: world where
  "demo_created = fst (the (Registry_create 0 demo_env demo_connected))"

text \<open>Two guests in a lobby, and the same two in a match.\<close>

definition demo_lobby :: world where
  "demo_lobby = (NewRegistry False 1000)
     \<lparr>w_sessions := (\<lambda>i. (newSession False [] [])
        \<lparr>s_helloDone := True, s_playerID := (if i = 0 then ''p0'' else ''p1''), s_room := Some 0\<rparr>),
      w_nextSess := 2,
      w_seats := (\<lambda>i. blankSeat\<lparr>st_sess := Some i, st_playerID := (if i = 0 then ''p0'' else ''p1''),
        st_nick := ''Guest-1000'', st_isGuest := True, st_ready := True\<rparr>),
      w_nextSeat := 2,
      w_rooms := (\<lambda>r. (newRoom ''222222'' 0)\<lparr>r_seats := (if r = 0 then [0, 1] else []), r_hostID := ''p0''\<rparr>),
      w_nextRoom := 1, reg_rooms := [''222222'' \<mapsto> 0]\<rparr>"

definition demo_match :: world where
  "demo_match = start_match 0 demo_env demo_lobby"

lemma demo_create_some: "Registry_create 0 demo_env demo_connected \<noteq> None"
  by code_simp

lemma demo_create: "\<exists>out. Registry_create 0 demo_env demo_connected = Some (demo_created, out)"
proof -
  obtain w out where "Registry_create 0 demo_env demo_connected = Some (w, out)"
    using demo_create_some by (metis not_None_eq surj_pair)
  then show ?thesis by (simp add: demo_created_def)
qed

lemma demo_connected_reachable: "reachable (\<lambda>_. 0) demo_connected"
  unfolding demo_connected_def
  by (intro reachable.Step [OF _ section_step.Session] reachable.Step [OF _ section_step.Open] reachable.Init)

lemma demo_created_reachable: "reachable (\<lambda>_. 0) demo_created"
proof -
  obtain out where cr: "Registry_create 0 demo_env demo_connected = Some (demo_created, out)"
    using demo_create by blast
  have "section_step (\<lambda>_. 0) demo_connected demo_created"
    by (rule section_step.Create [OF cr]) (simp add: demo_connected_def serve_open_def NewRegistry_def)
  then show ?thesis by (rule reachable.Step [OF demo_connected_reachable])
qed

lemma demo_created_seat:
  "seats_of demo_created 0 = [0] \<and> st_userID (seat_at demo_created 0) = ''u1''"
  by code_simp

text \<open>A guest joins that room, and the host starts a match.\<close>

lemma demo_created_facts:
  "w_nextSess demo_created = 1" "w_nextSeat demo_created = 1" "reg_rooms demo_created ''222222'' = Some 0"
  "st_nick (seat_at demo_created 0) = ''ann''" "st_sess (seat_at demo_created 0) = Some 0"
  "st_playerID (seat_at demo_created 0) = ''p0''" "host_of demo_created 0 = ''p0''"
  "r_inMatch (w_rooms demo_created 0) = False"
  by code_simp+

definition demo_guest :: world where
  "demo_guest = upd_sess 1 (\<lambda>x. x\<lparr>s_helloDone := True, s_playerID := ''p1'', s_resumeToken := ''t1''\<rparr>)
     (serve_open False [] [] demo_created)"

definition demo_joined :: world where
  "demo_joined = fst (the (Registry_join ''222222'' 1 demo_env demo_guest))"

definition demo_racing :: world where
  "demo_racing = Room_startMatch 0 0 True demo_env demo_joined"

lemma demo_guest_reachable: "reachable (\<lambda>_. 0) demo_guest"
  unfolding demo_guest_def
  by (intro reachable.Step [OF _ section_step.Session] reachable.Step [OF _ section_step.Open]
      demo_created_reachable)

lemma Room_seat_seats:
  assumes "Room_seat r x h ds w = Some (w', True)"
  shows "\<exists>st. w_seats w' = (w_seats w)(w_nextSeat w := st)"
  using assms
  by (auto simp: Room_seat_def Let_def indexSeat_def touchLocked_def split: option.splits if_splits)

lemma room_code_chars:
  assumes "c \<in> set (newRoomCode bs)"
  shows "byte c < 128" "\<not> IsSpace (byte c)" "upper_rune up (byte c) = byte c"
proof -
  have "0 < length roomCodeAlphabet" by (simp add: roomCodeAlphabet_def)
  then have c: "c \<in> set roomCodeAlphabet"
    using assms by (auto simp: newRoomCode_def)
  have "list_all (\<lambda>c. byte c < 128 \<and> \<not> IsSpace (byte c) \<and> upper_rune up (byte c) = byte c) roomCodeAlphabet"
    by (simp add: roomCodeAlphabet_def byte_def IsSpace_def upper_rune_def)
  then show "byte c < 128" "\<not> IsSpace (byte c)" "upper_rune up (byte c) = byte c"
    using c by (auto simp: list_all_iff)
qed

lemma normalizeCode_newRoomCode: "normalizeCode up (newRoomCode bs) = newRoomCode bs"
proof -
  have a: "ascii (newRoomCode bs)" using room_code_chars(1) by (auto simp: ascii_def)
  have "TrimSpace (newRoomCode bs) = newRoomCode bs"
    by (rule TrimSpace_ascii [OF a]) (use room_code_chars(2) in auto)
  then show ?thesis
    using ToUpper_ascii [OF a, of up] room_code_chars(3)
    by (simp add: normalizeCode_def byte_def map_idI)
qed

lemma demo_code: "normalizeCode (\<lambda>x. x) ''222222'' = ''222222''"
proof -
  have "newRoomCode [0, 0, 0, 0, 0, 0] = ''222222''" by (simp add: newRoomCode_def roomCodeAlphabet_def)
  then show ?thesis using normalizeCode_newRoomCode by metis
qed

lemma demo_nick: "guest_nick 0 = ''Guest-1000''"
  by code_simp

lemma demo_seating: "\<exists>w. Room_seat 0 1 False (e_nicks demo_env) demo_guest = Some (w, True)"
proof -
  have free: "\<not> roomCapacity \<le> length (seats_of demo_guest 0)"
    using demo_created_seat by (simp add: demo_guest_def serve_open_def roomCapacity_def)
  have id: "identityLocked demo_guest 0 1 (e_nicks demo_env) = Some (''Guest-1000'', True)"
    using demo_created_seat demo_created_facts(1,4)
    by (simp add: demo_guest_def serve_open_def identityLocked_def newSession_def demo_env_def
        nickTakenLocked_def demo_nick Let_def)
  show ?thesis unfolding Room_seat_def if_not_P [OF free] id option.case prod.case Let_def by blast
qed

lemma demo_join:
  "Registry_join ''222222'' 1 demo_env demo_guest =
     Some (demo_joined, \<lparr>so_room = Some 0, so_reclaim = None, so_errCode = None\<rparr>)"
  and demo_seat: "Room_seat 0 1 False (e_nicks demo_env) demo_guest = Some (demo_joined, True)"
proof -
  obtain w where w: "Room_seat 0 1 False (e_nicks demo_env) demo_guest = Some (w, True)"
    using demo_seating by blast
  have up: "e_upper demo_env = (\<lambda>x. x)" by (simp add: demo_env_def)
  have "reg_rooms demo_guest ''222222'' = Some 0" "s_userID (w_sessions demo_guest 1) = []"
    "\<not> Room_full demo_guest 0"
    using demo_created_facts demo_created_seat
    by (simp_all add: demo_guest_def serve_open_def newSession_def Room_full_def roomCapacity_def)
  then have "Registry_join ''222222'' 1 demo_env demo_guest =
      Some (w, \<lparr>so_room = Some 0, so_reclaim = None, so_errCode = None\<rparr>)"
    using w by (simp add: Registry_join_def up demo_code seatOfUser_def join_seat_def)
  then show "Registry_join ''222222'' 1 demo_env demo_guest =
      Some (demo_joined, \<lparr>so_room = Some 0, so_reclaim = None, so_errCode = None\<rparr>)"
    "Room_seat 0 1 False (e_nicks demo_env) demo_guest = Some (demo_joined, True)"
    using w by (simp_all add: demo_joined_def)
qed

lemma demo_joined_facts:
  "seats_of demo_joined 0 = [0, 1]" "st_sess (seat_at demo_joined 0) = Some 0"
  "st_playerID (seat_at demo_joined 0) = ''p0''" "host_of demo_joined 0 = ''p0''"
  "r_inMatch (w_rooms demo_joined 0) = False" "reachable (\<lambda>_. 0) demo_joined"
proof -
  obtain st where st: "w_seats demo_joined = (w_seats demo_guest)(w_nextSeat demo_guest := st)"
    using Room_seat_seats [OF demo_seat] by blast
  have g: "w_seats demo_guest = w_seats demo_created" "w_rooms demo_guest = w_rooms demo_created"
    "w_nextSeat demo_guest = 1"
    using demo_created_facts by (simp_all add: demo_guest_def serve_open_def)
  note core = core_Room_seat(1) [OF demo_seat]
  show "seats_of demo_joined 0 = [0, 1]"
    using arg_cong [OF core, of "\<lambda>c. c_seats c 0"] g demo_created_seat by (simp add: Let_def)
  show "host_of demo_joined 0 = ''p0''"
    using arg_cong [OF core, of "\<lambda>c. c_host c 0"] g demo_created_facts by (simp add: Let_def)
  show "r_inMatch (w_rooms demo_joined 0) = False"
    using arg_cong [OF core, of "\<lambda>c. c_inMatch c 0"] g demo_created_facts by (simp add: Let_def)
  show "st_sess (seat_at demo_joined 0) = Some 0" "st_playerID (seat_at demo_joined 0) = ''p0''"
    using st g demo_created_facts by simp_all
  show "reachable (\<lambda>_. 0) demo_joined"
    by (rule reachable.Step [OF demo_guest_reachable section_step.Join [OF demo_join]]) simp
qed

lemma demo_racing_reachable: "reachable (\<lambda>_. 0) demo_racing"
  unfolding demo_racing_def by (intro reachable.Step [OF demo_joined_facts(6) section_step.Start])

lemma demo_racing_match: "\<exists>m. match_of demo_racing 0 = Some m"
proof -
  have "demo_racing = start_match 0 demo_env demo_joined"
    using demo_joined_facts(1-5) by (simp add: demo_racing_def Room_startMatch_def findSeatLocked_def)
  then have "c_roster (core_of demo_racing) 0 = c_roster (a_start 0 (core_of demo_joined)) 0"
    using core_start_match [of 0 demo_env demo_joined] by simp
  then show ?thesis by (auto simp: roster_of_def)
qed

section \<open>Invariants over every interleaving\<close>

text \<open>
  C1. In every state the server can reach, by any interleaving of the critical sections of its
  connections, timers and reaper: each room holds at most five distinct seats, a seat belongs to
  one room for ever, the account index is exactly the accounts' seats, occupied rooms are in the
  table under their code, and a room has a match exactly while it is in one, the match has not
  ended, its racing seats are exactly the racing seats of the room, and at least one still races.
\<close>

theorem reachable_invariant:
  assumes "reachable own w"
  shows "core_ok own (core_of w)"
  using assms by (rule reachable_core_ok)

theorem reachable_invariant_witness: "core_ok (\<lambda>_. 0) (core_of demo_created)"
  by (rule reachable_invariant [OF demo_created_reachable])

text \<open>
  C2. One seat per account: in every reachable state two seats held by the same account are the
  same seat of the same room, and the account index finds it.
\<close>

theorem one_seat_per_account:
  assumes "reachable own w" "s \<in> set (seats_of w r)" "st_userID (seat_at w s) = u" "u \<noteq> []"
  shows "seatOfUser w u = Some (r, s) \<and>
         (\<forall>r' s'. s' \<in> set (seats_of w r') \<longrightarrow> st_userID (seat_at w s') = u \<longrightarrow> r' = r \<and> s' = s)"
proof -
  have ix: "index_ok (core_of w)"
    by (rule struct_okD(3) [OF core_struct [OF reachable_core_ok [OF assms(1)]]])
  have here: "reg_users w u = Some (r, s)" using index_okD [OF ix, of u r s] assms(2-4) by simp
  moreover have "reg_users w u = Some (r', s')"
    if "s' \<in> set (seats_of w r')" "st_userID (seat_at w s') = u" for r' s'
    using index_okD [OF ix, of u r' s'] that assms(4) by simp
  ultimately show ?thesis using assms(4) by (fastforce simp: seatOfUser_def)
qed

theorem one_seat_per_account_witness: "seatOfUser demo_created ''u1'' = Some (0, 0)"
  using one_seat_per_account [OF demo_created_reachable, of 0 0 "''u1''"] demo_created_seat by simp

text \<open>
  C3. In every reachable state a room is marked as in a match exactly when it has a match, a room without one has no
  racing seat, and a match that is there has not ended: at least one seat of the frozen roster still races, and the
  racing seats of the roster are exactly the racing seats of the room.
\<close>

theorem running_match:
  assumes "reachable own w"
  shows "(r_inMatch (w_rooms w r) \<longleftrightarrow> match_of w r \<noteq> None) \<and>
    (match_of w r = None \<longrightarrow> (\<forall>s \<in> set (seats_of w r). st_status (seat_at w s) \<noteq> seatActive)) \<and>
    (\<forall>m. match_of w r = Some m \<longrightarrow> \<not> m_ended m \<and> distinct (m_roster m) \<and>
       (\<exists>s \<in> set (m_roster m). st_status (seat_at w s) = seatActive) \<and>
       {s \<in> set (m_roster m). st_status (seat_at w s) = seatActive} =
       {s \<in> set (seats_of w r). st_status (seat_at w s) = seatActive})"
proof -
  note ok = reachable_core_ok [OF assms]
  note st = core_struct [OF ok]
  note M = struct_okD(2) [OF st, of r, unfolded match_ok_def]
  have none: "c_roster (core_of w) r = None \<longleftrightarrow> match_of w r = None" by (simp add: roster_of_def)
  have running: "\<not> m_ended m \<and> distinct (m_roster m) \<and> (\<exists>s \<in> set (m_roster m). st_status (seat_at w s) = seatActive) \<and>
      {s \<in> set (m_roster m). st_status (seat_at w s) = seatActive} = {s \<in> set (seats_of w r). st_status (seat_at w s) = seatActive}"
    if "match_of w r = Some m" for m
  proof -
    have ro: "c_roster (core_of w) r = Some (m_roster m, m_ended m)" using that by (simp add: roster_of_SomeI)
    note D = match_okD [OF struct_okD(2) [OF st] ro]
    have "{s \<in> set (m_roster m). st_status (seat_at w s) = seatActive} =
          {s \<in> set (seats_of w r). st_status (seat_at w s) = seatActive}"
      using D(4,6) seats_okD(4) [OF st, of _ r] by auto
    moreover have "\<exists>s \<in> set (m_roster m). st_status (seat_at w s) = seatActive"
      using ok ro unfolding core_ok_def live_def by (metis core_of_simps(8))
    ultimately show ?thesis using D(1,2,5) by simp
  qed
  have "r_inMatch (w_rooms w r) \<longleftrightarrow> match_of w r \<noteq> None" using M none by simp
  moreover have "\<forall>s \<in> set (seats_of w r). st_status (seat_at w s) \<noteq> seatActive" if "match_of w r = None"
    using M none that by simp
  ultimately show ?thesis using running by (intro conjI) blast+
qed

theorem running_match_witness:
  "r_inMatch (w_rooms demo_racing 0) \<and> (\<exists>m. match_of demo_racing 0 = Some m \<and> \<not> m_ended m)"
  using running_match [OF demo_racing_reachable, of 0] demo_racing_match by blast

section \<open>Complete handlers\<close>

text \<open>
  A frame a connection reads is handled by a path of critical sections, each of which is a
  step of the interleaving semantics; the one seat it may create belongs to the room \<open>R\<close> it is
  created in.
\<close>

lemma frame_is_sections:
  assumes "readLoop_step x inb e w = Some (w', c)"
  shows "\<exists>R. (section_step (own(w_nextSeat w := R)))\<^sup>*\<^sup>* w w'"
  using assms by (rule readLoop_sections)

definition demo_hello :: world where
  "demo_hello = fst (the (readLoop_step 0 (InFrame TypeHello 60 (PHello 1 [])) demo_env
     (serve_open True ''ann'' ''u1'' (NewRegistry True 0))))"

definition demo_room :: world where
  "demo_room = fst (the (readLoop_step 0 (InFrame TypeCreateRoom 24 NoPayload) demo_env demo_hello))"

lemma demo_hello_step:
  "\<exists>c. readLoop_step 0 (InFrame TypeHello 60 (PHello 1 [])) demo_env
     (serve_open True ''ann'' ''u1'' (NewRegistry True 0)) = Some (demo_hello, c)"
proof -
  have "readLoop_step 0 (InFrame TypeHello 60 (PHello 1 [])) demo_env
     (serve_open True ''ann'' ''u1'' (NewRegistry True 0)) \<noteq> None" by code_simp
  then show ?thesis unfolding demo_hello_def by (metis fst_conv not_None_eq option.sel surj_pair)
qed

lemma demo_room_step:
  "\<exists>c. readLoop_step 0 (InFrame TypeCreateRoom 24 NoPayload) demo_env demo_hello = Some (demo_room, c)"
proof -
  have "readLoop_step 0 (InFrame TypeCreateRoom 24 NoPayload) demo_env demo_hello \<noteq> None" by code_simp
  then show ?thesis unfolding demo_room_def by (metis fst_conv not_None_eq option.sel surj_pair)
qed

lemma init_tidy: "tidy (NewRegistry hasStore now)"
  using init_core_ok by (auto simp: tidy_def hosts_def host_ok_def no_empty_def NewRegistry_def newRoom_def)

lemma server_reach_tidy: "server_step\<^sup>*\<^sup>* (NewRegistry hasStore now) w \<Longrightarrow> tidy w"
  by (induction rule: rtranclp_induct) (auto intro: init_tidy server_step_tidy)

text \<open>
  C4. When handlers run one after the other, every room in the table is occupied, every occupied
  room is in the table under its code, and its host is one of its seats.
\<close>

theorem host_is_seated:
  assumes "server_step\<^sup>*\<^sup>* (NewRegistry hasStore now) w"
  shows "(\<forall>code r. reg_rooms w code = Some r \<longrightarrow> seats_of w r \<noteq> []) \<and>
         (\<forall>r. seats_of w r \<noteq> [] \<longrightarrow> reg_rooms w (r_code (w_rooms w r)) = Some r \<and>
              (\<exists>s \<in> set (seats_of w r). st_playerID (seat_at w s) = host_of w r))"
proof -
  obtain own where ok: "core_ok own (core_of w)" "hosts (core_of w)" "no_empty (core_of w)"
    using server_reach_tidy [OF assms] by (auto simp: tidy_def)
  then show ?thesis
    using table_okD(2) [OF struct_okD(4) [OF core_struct [OF ok(1)]]]
    by (auto simp: no_empty_def hosts_def host_ok_def)
qed

lemma demo_room_reachable: "server_step\<^sup>*\<^sup>* (NewRegistry True 0) demo_room"
  using server_step.Connect server_step.Frame demo_hello_step demo_room_step
  by (meson rtranclp.rtrancl_refl rtranclp.rtrancl_into_rtrancl)

lemma demo_room_seats: "seats_of demo_room 0 = [0]"
  by code_simp

theorem host_is_seated_witness: "st_playerID (seat_at demo_room 0) = host_of demo_room 0"
  using host_is_seated [OF demo_room_reachable] demo_room_seats by (metis list.distinct(1) list.set_intros(1)
      empty_iff empty_set set_ConsD)

end
