(* ===== verification/Ws_Races.thy ===== *)
theory Ws_Races
  imports Ws_Properties
begin

text \<open>
  Orders of events the transport does not survive as it means to: a send on the closed queue of a
  player who finished and then left, a join that lands between the departure of a room's last
  player and the removal of the room, and a take-over of a seat whose previous owner is still
  replaying its backlog.
\<close>

section \<open>A send on a closed queue\<close>

lemma trySend_panic_mono: "w_panicked w \<Longrightarrow> w_panicked (trySend x m w)"
  by (simp add: trySend_def)

lemma trySend_closed [simp]: "s_closed (w_sessions (trySend x m w) y) = s_closed (w_sessions w y)"
  by (simp add: trySend_def)

lemma broadcast_step_panic:
  assumes "st_playerID (seat_at w s) \<noteq> pid" "st_sess (seat_at w s) = Some x"
    "\<not> st_disconnected (seat_at w s)" "s_closed (w_sessions w x)"
  shows "s \<in> set ss \<Longrightarrow> w_panicked (fold (\<lambda>s w.
      if st_playerID (seat_at w s) = pid \<and> status \<noteq> StatusFinished then w
      else case st_sess (seat_at w s) of None \<Rightarrow> w
        | Some y \<Rightarrow> if st_disconnected (seat_at w s) then w else trySend y (PeerStatus pid status) w) ss w)"
    (is "_ \<Longrightarrow> w_panicked (fold ?f ss w)")
proof -
  have mono: "w_panicked v \<Longrightarrow> w_panicked (fold ?f ts v)" for ts v
    by (rule fold_invariant_set) (auto simp: trySend_panic_mono split: option.split)
  have seats: "w_seats (?f t v) = w_seats v" "s_closed (w_sessions (?f t v) y) = s_closed (w_sessions v y)" for t v y
    by (auto split: option.split)
  show "s \<in> set ss \<Longrightarrow> w_panicked (fold ?f ss w)"
    using assms
  proof (induction ss arbitrary: w)
    case (Cons t ss)
    show ?case
    proof (cases "t = s")
      case True
      have "w_panicked (?f s w)" using Cons.prems by (simp add: trySend_def)
      then show ?thesis using True mono by simp
    next
      case False
      then have "s \<in> set ss" using Cons.prems(1) by simp
      then show ?thesis using Cons.IH [of "?f t w"] Cons.prems(2-) seats by simp
    qed
  qed simp
qed

lemma leave_after_finish:
  assumes m: "match_of w r = Some m" and s: "findSeatLocked w r x = Some s"
    and fin: "st_status (seat_at w s) \<noteq> seatActive"
    and t: "t \<in> set (m_roster m)" "st_status (seat_at w t) = seatActive"
  shows "match_of (leaveSeatLocked r s w) r = Some m" "w_seats (leaveSeatLocked r s w) = w_seats w"
proof -
  have not_all: "\<not> allTerminalLocked v r" if "match_of v r = Some m" "w_seats v = w_seats w" for v
    using that t by (auto simp: allTerminalLocked_def list_all_iff)
  show "match_of (leaveSeatLocked r s w) r = Some m" "w_seats (leaveSeatLocked r s w) = w_seats w"
    using fin m by (simp_all add: leaveSeatLocked_def Let_def not_all)
qed

text \<open>
  C5. A player who has finished leaves while others still race, and its connection then ends: the
  seat stays in the frozen roster with a pointer to the ended session, whose queue is closed, so
  the next \<open>peer_status\<close> about another player sends on a closed channel and panics.
\<close>

theorem finished_leaver_panics:
  assumes m: "match_of w r = Some m" and room: "s_room (w_sessions w x) = Some r"
    and s: "findSeatLocked w r x = Some s" "s \<in> set (m_roster m)"
    and fin: "st_status (seat_at w s) = StatusFinished" "\<not> st_disconnected (seat_at w s)"
    and t: "t \<in> set (m_roster m)" "st_status (seat_at w t) = seatActive"
    and other: "pid \<noteq> st_playerID (seat_at w s)"
  shows "w_panicked (broadcastPeerStatusLocked r pid status (serve_teardown x (handleLeave x w)))"
proof -
  define v where "v = handleLeave x w"
  have l: "match_of (leaveSeatLocked r s w) r = Some m" "w_seats (leaveSeatLocked r s w) = w_seats w"
    using leave_after_finish [OF m s(1) _ t] fin by simp_all
  have v: "match_of v r = Some m" "w_seats v = w_seats w" "s_room (w_sessions v x) = None"
    using room s(1) l by (simp_all add: v_def handleLeave_def Room_leave_def Let_def set_room_def)
  define u where "u = serve_teardown x v"
  have u: "match_of u r = Some m" "w_seats u = w_seats w" "s_closed (w_sessions u x)"
    using v by (simp_all add: u_def serve_teardown_def)
  have sx: "st_sess (seat_at w s) = Some x" using s(1) by (auto simp: findSeatLocked_def dest: find_first_Some)
  show ?thesis
    unfolding v_def [symmetric] u_def [symmetric] broadcastPeerStatusLocked_def u(1) option.case
    by (rule broadcast_step_panic [where s = s and x = x]) (use u sx s(2) fin(2) other in simp_all)
qed

definition demo_one_finished :: world where
  "demo_one_finished = Room_finish 0 1 ''m1'' False demo_match"

lemma demo_one_finished_facts:
  "map_option m_roster (match_of demo_one_finished 0) = Some [0, 1]"
  "s_room (w_sessions demo_one_finished 1) = Some 0" "findSeatLocked demo_one_finished 0 1 = Some 1"
  "st_status (seat_at demo_one_finished 1) = StatusFinished" "st_disconnected (seat_at demo_one_finished 1) = False"
  "st_status (seat_at demo_one_finished 0) = seatActive" "st_playerID (seat_at demo_one_finished 1) = ''p1''"
  by code_simp+

theorem finished_leaver_panics_witness:
  "w_panicked (broadcastPeerStatusLocked 0 ''p0'' StatusFinished (serve_teardown 1 (handleLeave 1 demo_one_finished)))"
proof -
  obtain m where m: "match_of demo_one_finished 0 = Some m" "m_roster m = [0, 1]"
    using demo_one_finished_facts(1) by auto
  show ?thesis
    by (rule finished_leaver_panics [OF m(1), where s = 1 and t = 0])
      (use demo_one_finished_facts m(2) in simp_all)
qed

section \<open>A join into an emptied room\<close>

text \<open>
  A join that arrives after the last player left a room and before the registry dropped it is
  accepted: the joiner sits alone in a room whose host is not seated, and the registry call of the
  departure then keeps the room because it is occupied.
\<close>

theorem join_emptied_room_hostless:
  assumes ok: "core_ok own (core_of w)"
    and room: "reg_rooms w (normalizeCode (e_upper e) code) = Some r" "seats_of w r = []"
    and joiner: "s_userID (w_sessions w x) = []" "s_playerID (w_sessions w x) \<noteq> host_of w r"
    and nick: "identityLocked w r x (e_nicks e) = Some (nick, g)"
  shows "\<exists>w' out. Registry_join code x e w = Some (w', out) \<and> so_errCode out = None \<and>
           seats_of w' r = [w_nextSeat w] \<and> \<not> host_ok (core_of w') r \<and>
           reg_rooms (removeIfEmptyLocked (r_code (w_rooms w r)) w') (normalizeCode (e_upper e) code) = Some r"
proof -
  have free: "\<not> roomCapacity \<le> length (seats_of w r)" using room(2) by (simp add: roomCapacity_def)
  obtain w' where w': "Room_seat r x False (e_nicks e) w = Some (w', True)"
    unfolding Room_seat_def if_not_P [OF free] nick option.case prod.case Let_def by blast
  note core = core_Room_seat(1) [OF w']
  have seats: "seats_of w' r = [w_nextSeat w]"
    using arg_cong [OF core, of "\<lambda>c. c_seats c r"] room(2) by (simp add: Let_def)
  have "\<not> host_ok (core_of w') r"
    using joiner(2) room(2) unfolding core host_ok_def by (simp add: Let_def)
  moreover have "Registry_join code x e w =
      Some (w', \<lparr>so_room = Some r, so_reclaim = None, so_errCode = None\<rparr>)"
    using w' room joiner(1) free
    by (simp add: Registry_join_def seatOfUser_def Room_full_def join_seat_def)
  moreover have "reg_rooms w' = reg_rooms w"
    using arg_cong [OF core, of c_rooms] by (simp add: Let_def)
  moreover have "r_code (w_rooms w r) = normalizeCode (e_upper e) code"
    using table_okD(1) [OF struct_okD(4) [OF core_struct [OF ok]], of "normalizeCode (e_upper e) code" r] room(1)
    by simp
  ultimately show ?thesis
    using room(1) seats by (auto simp: removeIfEmptyLocked_def Room_empty_def split: option.split)
qed

text \<open>The lone host of a room leaves; the section after it is the guest's join.\<close>

definition demo_emptied :: world where
  "demo_emptied = Room_leave_locked 0 0 demo_guest"

lemma demo_emptied_ok: "core_ok (\<lambda>_. 0) (core_of demo_emptied)"
  unfolding demo_emptied_def by (intro leave_locked_core_ok reachable_core_ok [OF demo_guest_reachable])

lemma demo_emptied_facts:
  "reg_rooms demo_emptied ''222222'' = Some 0" "seats_of demo_emptied 0 = []"
  "s_userID (w_sessions demo_emptied 1) = []" "s_playerID (w_sessions demo_emptied 1) = ''p1''"
  "host_of demo_emptied 0 = []" "s_authed (w_sessions demo_emptied 1) = False"
  by code_simp+

theorem join_emptied_room_hostless_witness:
  "\<exists>w' out. Registry_join ''222222'' 1 demo_env demo_emptied = Some (w', out) \<and> \<not> host_ok (core_of w') 0"
proof -
  have up: "e_upper demo_env = (\<lambda>x. x)" by (simp add: demo_env_def)
  have id: "identityLocked demo_emptied 0 1 (e_nicks demo_env) = Some (''Guest-1000'', True)"
    using demo_emptied_facts
    by (simp add: identityLocked_def demo_env_def nickTakenLocked_def demo_nick Let_def)
  show ?thesis
    using join_emptied_room_hostless [OF demo_emptied_ok _ _ _ _ id, of "''222222''"]
      demo_emptied_facts by (auto simp: up demo_code)
qed

section \<open>Taking over a seat that is being resumed\<close>

text \<open>
  A connection resumes a disconnected seat; before its drain loop takes the room lock again,
  a second connection of the account detaches the seat to take it over; the drain loop then marks
  the seat live although no connection holds it. The seat is neither connected nor disconnected:
  the second connection cannot attach to it, and neither can any later one of the account, which
  is answered an internal error.
\<close>

theorem takeover_during_resume_strands_seat:
  assumes at: "s \<in> set (seats_of w r)" and dis: "st_disconnected (seat_at w s)"
    and w': "w' = reattach_live r s mid (Room_detachSeat r s (reattach_begin r x s w))"
    and acc: "s_userID (w_sessions w y) = u" "u \<noteq> []" "reg_users w u = Some (r, s)"
    and room: "reg_rooms w (normalizeCode (e_upper e) code) = Some r"
  shows "st_sess (seat_at w' s) = None \<and> \<not> st_disconnected (seat_at w' s) \<and>
         enterRoom 2 y (Registry_join code y e) w' =
           Some (send y (NewError CodeInternal ''could not take a seat; try again'') w')"
proof -
  define w1 where "w1 = reattach_begin r x s w"
  define w2 where "w2 = Room_detachSeat r s w1"
  have w1: "st_sess (seat_at w1 s) = Some x" "w_rooms w1 = w_rooms w" "reg_users w1 = reg_users w"
    "reg_rooms w1 = reg_rooms w" "\<And>z. s_userID (w_sessions w1 z) = s_userID (w_sessions w z)"
    "st_playerID (seat_at w1 s) = st_playerID (seat_at w s)"
    "\<And>t. st_playerID (seat_at w1 t) = st_playerID (seat_at w t)"
    by (simp_all add: w1_def reattach_begin_def Let_def)
  have here: "\<not> seatIndexByIDLocked w1 r (st_playerID (seat_at w1 s)) < 0"
    unfolding seatIndexByIDLocked_def index_from_neg_iff using at by (auto simp: list_ex_iff w1)
  have w2: "st_sess (seat_at w2 s) = None" "w_rooms w2 = w_rooms w" "reg_users w2 = reg_users w"
    "reg_rooms w2 = reg_rooms w" "\<And>z. s_userID (w_sessions w2 z) = s_userID (w_sessions w z)"
    using here w1 by (simp_all add: w2_def Room_detachSeat_def Let_def)
  have "w' = reattach_live r s mid w2" by (simp add: w' w2_def w1_def)
  then have v: "st_sess (seat_at w' s) = None" "\<not> st_disconnected (seat_at w' s)"
    "reg_users w' = reg_users w" "reg_rooms w' = reg_rooms w"
    "\<And>z. s_userID (w_sessions w' z) = s_userID (w_sessions w z)"
    using w2 by (simp_all add: reattach_live_def Let_def)
  have join: "Registry_join code y e w' = Some (w', \<lparr>so_room = Some r, so_reclaim = Some s, so_errCode = None\<rparr>)"
    using v acc room by (simp add: Registry_join_def seatOfUser_def Room_detachSeat_def)
  have "Room_reattach r y s w' = (w', False)" using v(2) by (simp add: Room_reattach_def)
  then show ?thesis using v(1,2) join by (simp add: numeral_2_eq_2)
qed

definition demo_dropped :: world where
  "demo_dropped = disconnect_detach 0 0 demo_created"

lemma demo_dropped_facts:
  "seats_of demo_dropped 0 = [0]" "st_disconnected (seat_at demo_dropped 0) = True"
  "s_userID (w_sessions demo_dropped 0) = ''u1''" "reg_users demo_dropped ''u1'' = Some (0, 0)"
  "reg_rooms demo_dropped ''222222'' = Some 0"
  by code_simp+

theorem takeover_during_resume_strands_seat_witness:
  "st_sess (seat_at (reattach_live 0 0 False (Room_detachSeat 0 0 (reattach_begin 0 5 0 demo_dropped))) 0) = None"
proof -
  have up: "e_upper demo_env = (\<lambda>x. x)" by (simp add: demo_env_def)
  show ?thesis
    using takeover_during_resume_strands_seat [of 0 demo_dropped 0 _ False 5 0 "''u1''" demo_env "''222222''"]
      demo_dropped_facts by (simp add: up demo_code)
qed

end
