(* ===== verification/Ws_Matches.thy ===== *)
theory Ws_Matches
  imports Ws_Properties
begin

text \<open>
  What the operations of a match do: the end of a match and what its players are told, the idle
  share, the gate of \<open>start_match\<close>, the capture of event batches, and the replay after a resume.
\<close>

section \<open>Frames handed to a connection\<close>

lemma accepted_trySend:
  "accepted_frames (trySend y m w) x =
   accepted_frames w x @
     (if y = x \<and> \<not> s_closed (w_sessions w x) \<and> length (s_outbound (w_sessions w x)) < outboundBuffer
      then [m] else [])"
  by (simp add: accepted_frames_def trySend_def)

lemma accepted_upd [simp]:
  "accepted_frames (upd_seat s f w) x = accepted_frames w x"
  "accepted_frames (upd_room r g w) x = accepted_frames w x"
  "accepted_frames (w\<lparr>w_persists := ps\<rparr>) x = accepted_frames w x"
  "accepted_frames (removeSeatLocked r i w) x = accepted_frames w x"
  "accepted_frames (reassignHostLocked r w) x = accepted_frames w x"
  by (simp_all add: accepted_frames_def)

lemma outbound_trySend_other: "y \<noteq> x \<Longrightarrow> s_outbound (w_sessions (trySend y m w) x) = s_outbound (w_sessions w x)"
  by (simp add: trySend_def)

lemma announce_sess [simp]: "st_sess (seat_at (announce_end r msg t w) s) = st_sess (seat_at w s)"
  by (simp add: announce_end_def split: option.split)

lemma announce_seat_other:
  "t \<noteq> s \<Longrightarrow> seat_at (announce_end r msg t w) s = seat_at w s"
  by (simp add: announce_end_def split: option.split)

lemma announce_none:
  assumes "\<forall>t \<in> set ts. st_sess (seat_at u t) \<noteq> Some x"
  shows "accepted_frames (fold (announce_end r msg) ts u) x = accepted_frames u x"
  using assms
proof (induction ts arbitrary: u)
  case (Cons t ts)
  have "accepted_frames (announce_end r msg t u) x = accepted_frames u x"
    using Cons.prems by (simp add: announce_end_def accepted_trySend split: option.split)
  then show ?case using Cons.IH [of "announce_end r msg t u"] Cons.prems by simp
qed simp

text \<open>A connection that holds exactly one seat of the roster is handed the announcement once.\<close>

lemma announce_once:
  assumes "s \<in> set ss" "distinct ss" "st_sess (seat_at w s) = Some x"
    and "\<And>t. t \<in> set ss \<Longrightarrow> st_sess (seat_at w t) = Some x \<Longrightarrow> t = s"
    and "\<not> s_closed (w_sessions w x)" "length (s_outbound (w_sessions w x)) < outboundBuffer"
  shows "accepted_frames (fold (announce_end r msg) ss w) x = accepted_frames w x @ [msg]"
  using assms
proof (induction ss arbitrary: w)
  case (Cons t ss)
  let ?v = "announce_end r msg t w"
  show ?case
  proof (cases "t = s")
    case True
    have v: "accepted_frames ?v x = accepted_frames w x @ [msg]"
      using True Cons.prems(3,5,6) by (simp add: announce_end_def accepted_trySend)
    have "\<forall>t \<in> set ss. st_sess (seat_at ?v t) \<noteq> Some x"
      using Cons.prems(2,4) True announce_sess by (metis distinct.simps(2) list.set_intros(2))
    then show ?thesis using v announce_none by simp
  next
    case False
    have other: "st_sess (seat_at w t) \<noteq> Some x" using Cons.prems(4) [of t] False by auto
    have v: "accepted_frames ?v x = accepted_frames w x" "s_closed (w_sessions ?v x) = s_closed (w_sessions w x)"
      "s_outbound (w_sessions ?v x) = s_outbound (w_sessions w x)"
      using other by (auto simp: announce_end_def accepted_trySend outbound_trySend_other split: option.split)
    have "accepted_frames (fold (announce_end r msg) ss ?v) x = accepted_frames ?v x @ [msg]"
    proof (rule Cons.IH)
      show "q = s" if "q \<in> set ss" "st_sess (seat_at ?v q) = Some x" for q
        using Cons.prems(4) [of q] that by simp
      show "s \<in> set ss" "distinct ss" using Cons.prems(1,2) False by simp_all
    qed (use Cons.prems(3,5,6) v in simp_all)
    then show ?thesis using v(1) by simp
  qed
qed simp

lemma announce_backlog:
  assumes "s \<in> set ss" "distinct ss" "st_sess (seat_at w s) = None" "st_disconnected (seat_at w s)"
    and "\<exists>t \<in> set (seats_of w r). st_playerID (seat_at w t) = st_playerID (seat_at w s)"
  shows "st_backlog (seat_at (fold (announce_end r msg) ss w) s) = st_backlog (seat_at w s) @ [msg]"
  using assms
proof (induction ss arbitrary: w)
  case (Cons t ss)
  let ?v = "announce_end r msg t w"
  have pids: "st_playerID (seat_at ?v q) = st_playerID (seat_at w q)" for q
    by (simp add: announce_end_def split: option.split)
  show ?case
  proof (cases "t = s")
    case True
    have "\<not> seatIndexByIDLocked w r (st_playerID (seat_at w s)) < 0"
      unfolding seatIndexByIDLocked_def index_from_neg_iff using Cons.prems(5) by (auto simp: list_ex_iff)
    then have v: "st_backlog (seat_at ?v s) = st_backlog (seat_at w s) @ [msg]"
      using True Cons.prems(3,4) by (simp add: announce_end_def)
    have "st_backlog (seat_at (fold (announce_end r msg) ts u) s) = st_backlog (seat_at u s)" if "s \<notin> set ts" for ts u
      using that by (induction ts arbitrary: u) (simp_all add: announce_seat_other)
    then show ?thesis using v True Cons.prems(2) by simp
  next
    case False
    then show ?thesis
      using Cons.IH [of ?v] Cons.prems announce_seat_other [OF False] by (simp add: pids)
  qed
qed simp

section \<open>The end of a match\<close>

lemma match_end_results:
  "match_end_frame w m reason =
     MatchEnd (m_id m) reason (map (\<lambda>s. match_result_of (seat_at w s) (m_goAtMs m) (w_now w)) (m_roster m))"
  by (simp add: match_end_frame_def)

lemma result_fields:
  "mr_playerID (match_result_of st g e) = st_playerID st"
  "mr_status (match_result_of st g e) = (if st_status st = seatActive then StatusDNF else st_status st)"
  "mr_finishedAtMs (match_result_of st g e) = (if st_status st = StatusFinished then Some (st_finishedAtMs st) else None)"
  by (simp_all add: match_result_of_def final_status_def Let_def)

end
