(* ===== verification/Board_Key.thy ===== *)
theory Board_Key
  imports Protocol
begin

text \<open>
  The identity of a leaderboard (\<open>internal/leaderboard/bucket.go\<close>): the two shapes of a bucket,
  the rule set every constructor runs, and the key a bucket is stored and linked under.

  The UUID package is not part of the program. It is a record of the three functions the code
  calls, an argument of the definitions; \<open>uuid_law\<close> is the documented fact that a printed id
  parses back to itself. The theory proves that \<open>ParseBucketKey\<close> inverts \<open>Key\<close> on every valid
  bucket, that whatever it returns is valid, and in which way a language key it accepts can
  differ from the key of the bucket it returns.
\<close>

section \<open>The UUID package\<close>

record 'u uuid_lib =
  uuid_Parse :: "string \<Rightarrow> 'u option"
  uuid_String :: "'u \<Rightarrow> string"
  uuid_Nil :: 'u

definition uuid_law :: "'u uuid_lib \<Rightarrow> bool" where
  "uuid_law L \<longleftrightarrow> (\<forall>u. uuid_Parse L (uuid_String L u) = Some u)"

text \<open>
  What the token round trip needs of the UUID package, besides \<open>uuid_law\<close>: a printed id contains
  no colon.
\<close>

definition uuid_plain :: "'u uuid_lib \<Rightarrow> bool" where
  "uuid_plain L \<longleftrightarrow> (\<forall>u. CHR '':'' \<notin> set (uuid_String L u))"

section \<open>Buckets\<close>

record 'u Bucket =
  b_Mode :: string
  b_Dimension :: int
  b_Lang :: string
  b_TextSource :: string
  b_QuoteID :: 'u

datatype bucket_error =
  QuoteNotUuid string | QuoteNotCanonical string | WrongPartCount | DimensionNotNumber string
| NoMatchingDimension string | QuoteHasDimensions | UnknownMode string | DimensionOutOfRange int
| UnrankedSize string int | ComponentLength string | ComponentChar string rune | QuoteAsSource

definition quoteKeyPrefix :: string where "quoteKeyPrefix = ''quote:''"
definition maxLangLen :: nat where "maxLangLen = 32"
definition maxSourceLen :: nat where "maxSourceLen = 16"
definition RankedDurationsMs :: "int list" where "RankedDurationsMs = [15000, 30000, 60000]"
definition RankedWordCounts :: "int list" where "RankedWordCounts = [25, 50, 100]"

fun contains :: "int list \<Rightarrow> int \<Rightarrow> bool" where
  "contains [] v = False"
| "contains (x # xs) v = (if x = v then True else contains xs v)"

definition IsRankedShape :: "string \<Rightarrow> int \<Rightarrow> bool" where
  "IsRankedShape mode dimension =
     (if mode = ModeTime then contains RankedDurationsMs dimension
      else if mode = ModeWords then contains RankedWordCounts dimension
      else False)"

definition IsQuote :: "'u uuid_lib \<Rightarrow> 'u Bucket \<Rightarrow> bool" where
  "IsQuote L b \<longleftrightarrow> b_QuoteID b \<noteq> uuid_Nil L"

definition key_rune :: "rune \<Rightarrow> bool" where
  "key_rune r \<longleftrightarrow> (97 \<le> r \<and> r \<le> 122) \<or> (65 \<le> r \<and> r \<le> 90) \<or> (48 \<le> r \<and> r \<le> 57) \<or>
     r = 95 \<or> r = 45 \<or> r = 46"

definition validComponent :: "string \<Rightarrow> string \<Rightarrow> nat \<Rightarrow> bucket_error option" where
  "validComponent field v maxLen =
     (if v = [] \<or> length v > maxLen then Some (ComponentLength field)
      else map_option (ComponentChar field) (find_first (\<lambda>r. \<not> key_rune r) (runes v)))"

definition validate :: "'u uuid_lib \<Rightarrow> 'u Bucket \<Rightarrow> bucket_error option" where
  "validate L b =
     (if IsQuote L b
      then (if b_Mode b \<noteq> [] \<or> b_Dimension b \<noteq> 0 \<or> b_Lang b \<noteq> [] \<or> b_TextSource b \<noteq> []
            then Some QuoteHasDimensions else None)
      else if b_Mode b \<noteq> ModeTime \<and> b_Mode b \<noteq> ModeWords then Some (UnknownMode (b_Mode b))
      else
        let limit = (if b_Mode b = ModeTime then MaxDurationMs else MaxWordCount) in
        if b_Dimension b \<le> 0 \<or> b_Dimension b > limit then Some (DimensionOutOfRange (b_Dimension b))
        else if \<not> IsRankedShape (b_Mode b) (b_Dimension b)
        then Some (UnrankedSize (b_Mode b) (b_Dimension b))
        else case validComponent ''lang'' (b_Lang b) maxLangLen of
          Some e \<Rightarrow> Some e
        | None \<Rightarrow>
            (case validComponent ''textSource'' (b_TextSource b) maxSourceLen of
               Some e \<Rightarrow> Some e
             | None \<Rightarrow> if b_TextSource b = TextSourceQuote then Some QuoteAsSource else None))"

definition quote_bucket :: "'u \<Rightarrow> 'u Bucket" where
  "quote_bucket q = \<lparr>b_Mode = [], b_Dimension = 0, b_Lang = [], b_TextSource = [], b_QuoteID = q\<rparr>"

definition checked :: "'u uuid_lib \<Rightarrow> 'u Bucket \<Rightarrow> (bucket_error, 'u Bucket) result" where
  "checked L b = (case validate L b of Some e \<Rightarrow> Inl e | None \<Rightarrow> Inr b)"

definition NewQuoteBucket :: "'u uuid_lib \<Rightarrow> 'u \<Rightarrow> (bucket_error, 'u Bucket) result" where
  "NewQuoteBucket L q = checked L (quote_bucket q)"

definition NewBucket ::
  "'u uuid_lib \<Rightarrow> string \<Rightarrow> int option \<Rightarrow> int option \<Rightarrow> string \<Rightarrow> string
     \<Rightarrow> (bucket_error, 'u Bucket) result" where
  "NewBucket L mode durationMs wordCount lang textSource =
     (let b = \<lparr>b_Mode = mode, b_Dimension = 0, b_Lang = lang, b_TextSource = textSource,
               b_QuoteID = uuid_Nil L\<rparr>
      in case (mode = ModeTime, durationMs, mode = ModeWords, wordCount) of
           (True, Some d, _, _) \<Rightarrow> checked L (b\<lparr>b_Dimension := d\<rparr>)
         | (_, _, True, Some n) \<Rightarrow> checked L (b\<lparr>b_Dimension := n\<rparr>)
         | _ \<Rightarrow> Inl (NoMatchingDimension mode))"

definition Key :: "'u uuid_lib \<Rightarrow> 'u Bucket \<Rightarrow> string" where
  "Key L b =
     (if IsQuote L b then quoteKeyPrefix @ uuid_String L (b_QuoteID b)
      else b_Mode b @ '':'' @ Itoa (b_Dimension b) @ '':'' @ b_Lang b @ '':'' @ b_TextSource b)"

definition parse_quote_key :: "'u uuid_lib \<Rightarrow> string \<Rightarrow> (bucket_error, 'u Bucket) result" where
  "parse_quote_key L rest =
     (case uuid_Parse L rest of
        None \<Rightarrow> Inl (QuoteNotUuid rest)
      | Some u \<Rightarrow>
          if uuid_String L u \<noteq> rest then Inl (QuoteNotCanonical rest) else NewQuoteBucket L u)"

definition parse_language_key :: "'u uuid_lib \<Rightarrow> string \<Rightarrow> (bucket_error, 'u Bucket) result" where
  "parse_language_key L key =
     (case split_on (CHR '':'') key of
        [mode, dimension, lang, source] \<Rightarrow>
          (case Atoi dimension of
             None \<Rightarrow> Inl (DimensionNotNumber dimension)
           | Some n \<Rightarrow>
               checked L \<lparr>b_Mode = mode, b_Dimension = to_int32 n, b_Lang = lang,
                          b_TextSource = source, b_QuoteID = uuid_Nil L\<rparr>)
      | _ \<Rightarrow> Inl WrongPartCount)"

definition ParseBucketKey :: "'u uuid_lib \<Rightarrow> string \<Rightarrow> (bucket_error, 'u Bucket) result" where
  "ParseBucketKey L key =
     (case CutPrefix key quoteKeyPrefix of
        Some rest \<Rightarrow> parse_quote_key L rest
      | None \<Rightarrow> parse_language_key L key)"

section \<open>What a valid bucket looks like\<close>

lemma contains_iff: "contains xs v \<longleftrightarrow> v \<in> set xs"
  by (induction xs) auto

lemma checked_Inr: "checked L b = Inr c \<longleftrightarrow> b = c \<and> validate L c = None"
  by (auto simp: checked_def split: option.splits)

lemma validComponent_None:
  assumes "validComponent field v n = None"
  shows "v \<noteq> [] \<and> length v \<le> n \<and> CHR '':'' \<notin> set v"
proof -
  from assms have ok: "v \<noteq> []" "length v \<le> n" "list_all key_rune (runes v)"
    by (auto simp: validComponent_def find_first_None_iff list_all_iff split: if_splits)
  have "\<And>r. key_rune r \<Longrightarrow> r < 128" by (auto simp: key_rune_def)
  then have "\<forall>c \<in> set v. key_rune (byte c)" using list_all_runes_ascii [OF ok(3)] by blast
  moreover have "\<not> key_rune (byte (CHR '':''))" by (simp add: key_rune_def byte_def)
  ultimately show ?thesis using ok by auto
qed

text \<open>A valid bucket that is not a quote board: its mode, its size, its components.\<close>

definition language_board :: "'u Bucket \<Rightarrow> bool" where
  "language_board b \<longleftrightarrow>
     (b_Mode b = ModeTime \<and> b_Dimension b \<in> {15000, 30000, 60000} \<or>
      b_Mode b = ModeWords \<and> b_Dimension b \<in> {25, 50, 100}) \<and>
     validComponent ''lang'' (b_Lang b) 32 = None \<and>
     validComponent ''textSource'' (b_TextSource b) 16 = None \<and> b_TextSource b \<noteq> TextSourceQuote"

lemma validate_language:
  assumes "\<not> IsQuote L b"
  shows "validate L b = None \<longleftrightarrow> language_board b"
  using assms
  by (auto simp: validate_def language_board_def Let_def IsRankedShape_def contains_iff
      RankedDurationsMs_def RankedWordCounts_def MaxDurationMs_def MaxWordCount_def maxLangLen_def
      maxSourceLen_def split: option.splits)

lemma validate_quote:
  assumes "IsQuote L b"
  shows "validate L b = None \<longleftrightarrow> b = quote_bucket (b_QuoteID b)"
  using assms by (cases b) (auto simp: validate_def quote_bucket_def IsQuote_def)

lemma quote_key_prefix: "CutPrefix (quoteKeyPrefix @ s) quoteKeyPrefix = Some s"
  by (simp add: CutPrefix_def)

lemma language_key_prefix:
  assumes "language_board b"
  shows "CutPrefix (b_Mode b @ s) quoteKeyPrefix = None"
  using assms by (auto simp: language_board_def CutPrefix_def quoteKeyPrefix_def)

lemma language_key_split:
  assumes "language_board b"
  shows "split_on (CHR '':'') (b_Mode b @ '':'' @ Itoa (b_Dimension b) @ '':'' @ b_Lang b @ '':'' @ b_TextSource b)
           = [b_Mode b, Itoa (b_Dimension b), b_Lang b, b_TextSource b]"
proof -
  have "CHR '':'' \<notin> set (b_Mode b)" using assms by (auto simp: language_board_def)
  moreover have "CHR '':'' \<notin> set (b_Lang b)" "CHR '':'' \<notin> set (b_TextSource b)"
    using assms validComponent_None by (auto simp: language_board_def)
  ultimately show ?thesis
    by (simp add: split_on_append split_on_notin Itoa_no_colon)
qed

lemma language_dimension:
  assumes "language_board b"
  shows "Atoi (Itoa (b_Dimension b)) = Some (b_Dimension b)" "to_int32 (b_Dimension b) = b_Dimension b"
proof -
  have "0 < b_Dimension b" "b_Dimension b \<le> 60000" using assms by (auto simp: language_board_def)
  then show "Atoi (Itoa (b_Dimension b)) = Some (b_Dimension b)"
    and "to_int32 (b_Dimension b) = b_Dimension b"
    by (auto intro!: Atoi_Itoa to_int32_id simp: in_int64_def in_int32_def)
qed

section \<open>The key format\<close>

lemma ParseBucketKey_Key:
  assumes "uuid_law L" and "validate L b = None"
  shows "ParseBucketKey L (Key L b) = Inr b"
proof (cases "IsQuote L b")
  case True
  then have "b = quote_bucket (b_QuoteID b)" using assms(2) by (simp add: validate_quote)
  then have "NewQuoteBucket L (b_QuoteID b) = Inr b"
    using assms(2) by (simp add: NewQuoteBucket_def checked_def)
  then show ?thesis
    using True assms(1)
    by (simp add: Key_def ParseBucketKey_def quote_key_prefix parse_quote_key_def uuid_law_def)
next
  case False
  then have lb: "language_board b" using assms(2) by (simp add: validate_language)
  have "b_QuoteID b = uuid_Nil L" using False by (simp add: IsQuote_def)
  then have "checked L \<lparr>b_Mode = b_Mode b, b_Dimension = b_Dimension b, b_Lang = b_Lang b,
      b_TextSource = b_TextSource b, b_QuoteID = uuid_Nil L\<rparr> = Inr b"
    using assms(2) by (cases b) (simp add: checked_def)
  then show ?thesis
    using False
    by (simp add: Key_def ParseBucketKey_def language_key_prefix [OF lb] parse_language_key_def
        language_key_split [OF lb, simplified] language_dimension [OF lb])
qed

lemma Key_inj:
  assumes "uuid_law L" and "validate L b = None" and "validate L b' = None" and "Key L b = Key L b'"
  shows "b = b'"
proof -
  have "Inr b = ParseBucketKey L (Key L b)" using ParseBucketKey_Key [OF assms(1,2)] ..
  also have "\<dots> = Inr b'" unfolding assms(4) by (rule ParseBucketKey_Key [OF assms(1,3)])
  finally show ?thesis by simp
qed

text \<open>
  C39. A bucket's key parses back to the bucket: for every bucket the rule set accepts, quote
  board or language board, \<open>ParseBucketKey (Key b)\<close> returns exactly \<open>b\<close>. Two different valid
  buckets therefore never share a key.
\<close>

theorem parse_key_roundtrip:
  assumes "uuid_law L" and "validate L b = None"
  shows "ParseBucketKey L (Key L b) = Inr b"
  using assms by (rule ParseBucketKey_Key)

definition demo_uuids :: "string uuid_lib" where
  "demo_uuids = \<lparr>uuid_Parse = Some, uuid_String = id, uuid_Nil = []\<rparr>"

definition demo_board :: "string Bucket" where
  "demo_board = \<lparr>b_Mode = ModeTime, b_Dimension = 15000, b_Lang = ''en'', b_TextSource = ''seeded'',
     b_QuoteID = []\<rparr>"

lemma valid_en_seeded:
  "validComponent ''lang'' ''en'' 32 = None" "validComponent ''textSource'' ''seeded'' 16 = None"
  by (simp_all add: validComponent_def runes_ascii ascii_def byte_def key_rune_def)

lemma Itoa_15000: "Itoa 15000 = ''15000''"
  by (simp add: Itoa_def nat_digits.simps digit_char_def char_of_def bit_numeral_rec bit_0)

lemma demo_board_valid: "validate demo_uuids demo_board = None"
  by (subst validate_language)
    (simp_all add: IsQuote_def demo_board_def demo_uuids_def language_board_def valid_en_seeded)

theorem parse_key_roundtrip_witness:
  "ParseBucketKey demo_uuids (Key demo_uuids demo_board) = Inr demo_board"
  by (rule parse_key_roundtrip [OF _ demo_board_valid]) (simp add: uuid_law_def demo_uuids_def)

lemma parse_quote_sound:
  assumes "parse_quote_key L rest = Inr b"
  shows "validate L b = None \<and> b = quote_bucket (b_QuoteID b) \<and> uuid_String L (b_QuoteID b) = rest"
  using assms
  by (auto simp: parse_quote_key_def NewQuoteBucket_def checked_Inr quote_bucket_def
      split: option.splits if_splits)

lemma parse_language_iff:
  "parse_language_key L key = Inr b \<longleftrightarrow>
     validate L b = None \<and> b_QuoteID b = uuid_Nil L \<and>
     (\<exists>d n. split_on (CHR '':'') key = [b_Mode b, d, b_Lang b, b_TextSource b] \<and>
            Atoi d = Some n \<and> to_int32 n = b_Dimension b)"
  (is "?l \<longleftrightarrow> ?r")
proof
  show "?l \<Longrightarrow> ?r"
    by (auto simp: parse_language_key_def checked_Inr split: option.splits list.splits)
  show "?r \<Longrightarrow> ?l"
    by (cases b) (auto simp: parse_language_key_def checked_Inr)
qed

text \<open>
  Whatever \<open>ParseBucketKey\<close> returns satisfies the rule set, and the key it was given is the
  key of that bucket up to the spelling of the size: a quote key is returned only for its
  canonical spelling, and a language key has the bucket's own mode, language and text source
  around a decimal number whose low 32 bits are the bucket's size.
\<close>

theorem parse_key_sound:
  assumes "ParseBucketKey L key = Inr b"
  shows "validate L b = None \<and>
    (if IsQuote L b then key = Key L b
     else \<exists>d n. split_on (CHR '':'') key = [b_Mode b, d, b_Lang b, b_TextSource b] \<and>
                Atoi d = Some n \<and> to_int32 n = b_Dimension b)"
proof (cases "CutPrefix key quoteKeyPrefix")
  case None
  with assms show ?thesis by (auto simp: ParseBucketKey_def parse_language_iff IsQuote_def)
next
  case (Some rest)
  with assms have p: "parse_quote_key L rest = Inr b" by (simp add: ParseBucketKey_def)
  note s = parse_quote_sound [OF p]
  have "IsQuote L b"
  proof (rule ccontr)
    assume "\<not> IsQuote L b"
    then have "b_Mode b = ModeTime \<or> b_Mode b = ModeWords"
      using s by (auto simp: validate_language language_board_def)
    moreover have "b_Mode b = []" using s by (metis Bucket.select_convs(1) quote_bucket_def)
    ultimately show False by simp
  qed
  with s Some show ?thesis by (simp add: Key_def CutPrefix_Some)
qed

theorem parse_key_sound_witness:
  "validate demo_uuids demo_board = None \<and>
    (if IsQuote demo_uuids demo_board then Key demo_uuids demo_board = Key demo_uuids demo_board
     else \<exists>d n. split_on (CHR '':'') (Key demo_uuids demo_board) =
            [b_Mode demo_board, d, b_Lang demo_board, b_TextSource demo_board] \<and>
          Atoi d = Some n \<and> to_int32 n = b_Dimension demo_board)"
proof -
  have k: "Key demo_uuids demo_board = ''time:15000:en:seeded''"
    by (simp add: Key_def IsQuote_def demo_board_def demo_uuids_def Itoa_15000)
  have "ParseBucketKey demo_uuids ''time:15000:en:seeded'' = Inr demo_board"
    by (simp add: ParseBucketKey_def CutPrefix_def quoteKeyPrefix_def parse_language_key_def
        Atoi_def digits_value_def byte_def is_digit_def in_int64_def to_int32_def checked_Inr
        demo_board_valid [unfolded demo_board_def] demo_board_def demo_uuids_def
        demo_board_valid [unfolded demo_board_def demo_uuids_def])
  then show ?thesis unfolding k [symmetric] by (rule parse_key_sound)
qed

text \<open>
  The inverse is not exact on language keys: a sign, leading zeros and a number that is 15000
  modulo \<open>2 ^ 32\<close> all parse to the 15-second board, whose key is none of the three spellings.
\<close>

theorem language_key_spellings:
  "let board = \<lparr>b_Mode = ModeTime, b_Dimension = 15000, b_Lang = ''en'', b_TextSource = ''seeded'',
                b_QuoteID = uuid_Nil L\<rparr>
   in Key L board = ''time:15000:en:seeded'' \<and>
      ParseBucketKey L ''time:+15000:en:seeded'' = Inr board \<and>
      ParseBucketKey L ''time:015000:en:seeded'' = Inr board \<and>
      ParseBucketKey L ''time:4294982296:en:seeded'' = Inr board"
proof -
  define board :: "'a Bucket" where
    "board = \<lparr>b_Mode = ModeTime, b_Dimension = 15000, b_Lang = ''en'', b_TextSource = ''seeded'',
              b_QuoteID = uuid_Nil L\<rparr>"
  have nq: "\<not> IsQuote L board" by (simp add: IsQuote_def board_def)
  then have v: "validate L board = None"
    by (simp add: validate_language language_board_def board_def valid_en_seeded)
  have key: "Key L board = ''time:15000:en:seeded''"
    using nq by (simp add: Key_def board_def Itoa_15000)
  have parse: "ParseBucketKey L (''time:'' @ d @ '':en:seeded'') = Inr board"
    if "CHR '':'' \<notin> set d" and "Atoi d = Some n" and "to_int32 n = 15000" for d n
  proof -
    have "CutPrefix (''time:'' @ d @ '':en:seeded'') quoteKeyPrefix = None"
      by (simp add: CutPrefix_def quoteKeyPrefix_def)
    moreover have "split_on (CHR '':'') (''time:'' @ d @ '':en:seeded'') = [ModeTime, d, ''en'', ''seeded'']"
      using that(1) by (simp add: split_on_append)
    ultimately show ?thesis
      using that v by (auto simp: ParseBucketKey_def parse_language_iff board_def)
  qed
  have "Atoi ''+15000'' = Some 15000" "Atoi ''015000'' = Some 15000"
    "Atoi ''4294982296'' = Some 4294982296"
    by (simp_all add: Atoi_def digits_value_def byte_def is_digit_def in_int64_def)
  moreover have "to_int32 15000 = 15000" "to_int32 4294982296 = 15000" by (simp_all add: to_int32_def)
  ultimately show ?thesis
    using key parse [of "''+15000''"] parse [of "''015000''"] parse [of "''4294982296''"]
    unfolding Let_def board_def [symmetric] by simp
qed

end
