(* ===== verification/Httpx.thy ===== *)
theory Httpx
  imports Go_Strings
begin

text \<open>
  The HTTP-boundary helpers of \<open>internal/platform/httpx/httpx.go\<close>: the clamp of a page limit, the
  \<open>If-None-Match\<close> comparison and the opaque cursor token of the paginated lists.

  \<open>base64.RawURLEncoding\<close> is written out: three bytes become four characters of the URL alphabet,
  a rest of one or two bytes becomes two or three characters without padding; the decoder skips
  line breaks, as Go's does. The theory proves the bounds of the clamp and that a cursor decodes
  to the fields it was built from.
\<close>

section \<open>Limits and entity tags\<close>

definition ParseLimit :: "string \<Rightarrow> int \<Rightarrow> int \<Rightarrow> int" where
  "ParseLimit raw def maxAllowed =
     (if raw = [] then def
      else case Atoi raw of
        None \<Rightarrow> def
      | Some n \<Rightarrow> if n \<le> 0 then def else if n > maxAllowed then maxAllowed else n)"

definition TrimPrefix :: "string \<Rightarrow> string \<Rightarrow> string" where
  "TrimPrefix s p = (case CutPrefix s p of Some t \<Rightarrow> t | None \<Rightarrow> s)"

definition ETagMatches :: "string \<Rightarrow> string \<Rightarrow> bool" where
  "ETagMatches ifNoneMatch etag =
     (if ifNoneMatch = [] then False
      else list_ex (\<lambda>c. let candidate = TrimSpace c
                       in candidate = ''*'' \<or> TrimPrefix candidate ''W/'' = etag)
             (split_on (CHR '','') ifNoneMatch))"

lemma ParseLimit_bounds:
  assumes "1 \<le> d" and "d \<le> m"
  shows "1 \<le> ParseLimit raw d m \<and> ParseLimit raw d m \<le> m"
  using assms by (auto simp: ParseLimit_def split: option.split)

section \<open>Base64 without padding\<close>

definition b64_alphabet :: string where
  "b64_alphabet = ''ABCDEFGHIJKLMNOPQRSTUVWXYZabcdefghijklmnopqrstuvwxyz0123456789-_''"

definition b64_char :: "nat \<Rightarrow> char" where
  "b64_char n = b64_alphabet ! n"

fun find_index :: "'a \<Rightarrow> 'a list \<Rightarrow> nat option" where
  "find_index x [] = None"
| "find_index x (y # ys) = (if y = x then Some 0 else map_option Suc (find_index x ys))"

definition b64_value :: "char \<Rightarrow> nat option" where
  "b64_value c = find_index c b64_alphabet"

fun b64_encode :: "nat list \<Rightarrow> string" where
  "b64_encode [] = []"
| "b64_encode [a] = map b64_char [a div 4, a mod 4 * 16]"
| "b64_encode [a, b] = map b64_char [a div 4, a mod 4 * 16 + b div 16, b mod 16 * 4]"
| "b64_encode (a # b # c # bs) =
     map b64_char [a div 4, a mod 4 * 16 + b div 16, b mod 16 * 4 + c div 64, c mod 64] @ b64_encode bs"

fun b64_groups :: "nat list \<Rightarrow> nat list option" where
  "b64_groups [] = Some []"
| "b64_groups [w] = None"
| "b64_groups [w, x] = Some [w * 4 + x div 16]"
| "b64_groups [w, x, y] = Some [w * 4 + x div 16, x mod 16 * 16 + y div 4]"
| "b64_groups (w # x # y # z # vs) =
     map_option (\<lambda>bs. (w * 4 + x div 16) # (x mod 16 * 16 + y div 4) # (y mod 4 * 64 + z) # bs)
       (b64_groups vs)"

definition b64_decode :: "string \<Rightarrow> nat list option" where
  "b64_decode s =
     (let cs = filter (\<lambda>c. c \<noteq> char_of (10::nat) \<and> c \<noteq> char_of (13::nat)) s
      in if list_all (\<lambda>c. b64_value c \<noteq> None) cs then b64_groups (map (the \<circ> b64_value) cs) else None)"

definition EncodeToString :: "string \<Rightarrow> string" where
  "EncodeToString s = b64_encode (map byte s)"

definition DecodeString :: "string \<Rightarrow> string option" where
  "DecodeString s = map_option (map char_of) (b64_decode s)"

section \<open>Cursors\<close>

fun Join :: "string list \<Rightarrow> string \<Rightarrow> string" where
  "Join [] sep = []"
| "Join [s] sep = s"
| "Join (s # t # ss) sep = s @ sep @ Join (t # ss) sep"

definition EncodeCursor :: "string list \<Rightarrow> string" where
  "EncodeCursor parts = EncodeToString (Join parts '':'')"

definition DecodeCursor :: "string \<Rightarrow> nat \<Rightarrow> string list option" where
  "DecodeCursor token n =
     (case DecodeString token of
        None \<Rightarrow> None
      | Some b \<Rightarrow> let parts = split_on (CHR '':'') b in if length parts \<noteq> n then None else Some parts)"

section \<open>Round trips\<close>

lemma b64_value_char:
  assumes "n < 64"
  shows "b64_value (b64_char n) = Some n"
proof -
  have "list_all (\<lambda>n. b64_value (b64_char n) = Some n) [0..<64]" by code_simp
  with assms show ?thesis by (auto simp: list_all_iff)
qed

lemma b64_char_plain:
  assumes "n < 64"
  shows "b64_char n \<noteq> char_of (10::nat) \<and> b64_char n \<noteq> char_of (13::nat)"
proof -
  have "list_all (\<lambda>n. b64_char n \<noteq> char_of (10::nat) \<and> b64_char n \<noteq> char_of (13::nat)) [0..<64]"
    by code_simp
  with assms show ?thesis by (auto simp: list_all_iff)
qed

text \<open>The six-bit values the encoder writes.\<close>

fun b64_sextets :: "nat list \<Rightarrow> nat list" where
  "b64_sextets [] = []"
| "b64_sextets [a] = [a div 4, a mod 4 * 16]"
| "b64_sextets [a, b] = [a div 4, a mod 4 * 16 + b div 16, b mod 16 * 4]"
| "b64_sextets (a # b # c # bs) =
     [a div 4, a mod 4 * 16 + b div 16, b mod 16 * 4 + c div 64, c mod 64] @ b64_sextets bs"

lemma b64_encode_sextets: "b64_encode bs = map b64_char (b64_sextets bs)"
  by (induction bs rule: b64_encode.induct) simp_all

lemma b64_sextets_less:
  assumes "\<forall>b \<in> set bs. b < 256"
  shows "\<forall>v \<in> set (b64_sextets bs). v < 64"
  using assms by (induction bs rule: b64_sextets.induct) auto

lemma b64_groups_sextets:
  assumes "\<forall>b \<in> set bs. b < 256"
  shows "b64_groups (b64_sextets bs) = Some bs"
  using assms
proof (induction bs rule: b64_sextets.induct)
  case (4 a b c bs)
  then have "a < 256" "b < 256" "c < 256" by auto
  then have "b div 16 < 16" "c div 64 < 4" by auto
  with 4 show ?case
    by (simp add: mult.commute)
qed auto

lemma b64_decode_encode:
  assumes "\<forall>b \<in> set bs. b < 256"
  shows "b64_decode (b64_encode bs) = Some bs"
proof -
  let ?vs = "b64_sextets bs"
  have less: "\<forall>v \<in> set ?vs. v < 64" by (rule b64_sextets_less [OF assms])
  have "filter (\<lambda>c. c \<noteq> char_of (10::nat) \<and> c \<noteq> char_of (13::nat)) (map b64_char ?vs) = map b64_char ?vs"
    using less b64_char_plain by (auto simp: filter_id_conv)
  moreover have "list_all (\<lambda>c. b64_value c \<noteq> None) (map b64_char ?vs)"
    using less by (auto simp: list_all_iff b64_value_char)
  moreover have "map (the \<circ> b64_value) (map b64_char ?vs) = ?vs"
    using less by (simp add: map_idI b64_value_char)
  ultimately show ?thesis
    by (simp add: b64_decode_def b64_encode_sextets Let_def b64_groups_sextets [OF assms])
qed

lemma DecodeString_EncodeToString: "DecodeString (EncodeToString s) = Some s"
proof -
  have "map (char_of \<circ> byte) s = s" by (simp add: map_idI byte_def)
  moreover have "\<forall>b \<in> set (map byte s). b < 256" by (auto simp: byte_less)
  ultimately show ?thesis by (simp add: DecodeString_def EncodeToString_def b64_decode_encode)
qed

lemma split_on_Join:
  assumes "parts \<noteq> []" and "\<forall>f \<in> set parts. c \<notin> set f"
  shows "split_on c (Join parts [c]) = parts"
  using assms by (induction parts "[c]" rule: Join.induct) (auto simp: split_on_append split_on_notin)

lemma b64_encode_Nil: "b64_encode bs = [] \<longleftrightarrow> bs = []"
  by (cases bs rule: b64_encode.cases) simp_all

lemma EncodeCursor_nonempty: "EncodeCursor (a # b # parts) \<noteq> []"
  by (simp add: EncodeCursor_def EncodeToString_def b64_encode_Nil)

lemma DecodeCursor_EncodeCursor:
  assumes "parts \<noteq> []" and "\<forall>f \<in> set parts. CHR '':'' \<notin> set f"
  shows "DecodeCursor (EncodeCursor parts) (length parts) = Some parts"
  using assms by (simp add: DecodeCursor_def EncodeCursor_def DecodeString_EncodeToString split_on_Join)

text \<open>
  A pagination cursor decodes to the fields it was built from, whenever no field contains the
  separating colon: the token survives the base64 encoding, the split and the field count.
\<close>

theorem cursor_roundtrip:
  assumes "parts \<noteq> []" and "\<forall>f \<in> set parts. CHR '':'' \<notin> set f"
  shows "DecodeCursor (EncodeCursor parts) (length parts) = Some parts"
  using assms by (rule DecodeCursor_EncodeCursor)

theorem cursor_roundtrip_witness:
  "DecodeCursor (EncodeCursor [''1700000000000000000'', ''0b0e'']) (length [''1700000000000000000'', ''0b0e''])
     = Some [''1700000000000000000'', ''0b0e'']"
  by (rule cursor_roundtrip) simp_all

end
