(* ===== verification/Keyset.thy ===== *)
theory Keyset
  imports Prelude
begin

text \<open>
  Keyset pagination as an interface: what a page handler relies on when it asks its store for the rows
  after a cursor. The run lists, the leaderboards and the quotes are interpreted in these locales; what their clients
  get by walking the pages is proved here once.
\<close>

text \<open>One page: a row more than asked for tells whether there is another page.\<close>

definition page_of ::
  "('c option \<Rightarrow> nat \<Rightarrow> 'r list) \<Rightarrow> ('r \<Rightarrow> 'c) \<Rightarrow> nat \<Rightarrow> 'c option \<Rightarrow> 'r list \<times> 'c option" where
  "page_of list_rows key limit after =
     (let rows = list_rows after (limit + 1)
      in if length rows > limit then (take limit rows, Some (key (rows ! (limit - 1))))
         else (rows, None))"

text \<open>A client that follows the returned tokens from \<open>token\<close>, at most \<open>n\<close> requests; the empty token ends the walk.\<close>

fun walk :: "(string \<Rightarrow> ('v list \<times> string) option) \<Rightarrow> nat \<Rightarrow> string \<Rightarrow> 'v list option" where
  "walk handle 0 token = None"
| "walk handle (Suc n) token =
     (case handle token of
        None \<Rightarrow> None
      | Some (rows, next) \<Rightarrow> if next = [] then Some rows else map_option (\<lambda>rest. rows @ rest) (walk handle n next))"

text \<open>\<open>ORDER BY\<close> on a key that no two rows share.\<close>

lemma sort_key_strict:
  assumes "distinct (map f xs)"
  shows "sorted_wrt (\<lambda>a b. f a < f b) (sort_key f xs)"
proof -
  have "distinct (map f (sort_key f xs))" using assms by (simp add: distinct_map)
  then have "sorted_wrt (<) (map f (sort_key f xs))" by (simp add: strict_sorted_iff)
  then show ?thesis by (simp add: sorted_wrt_map)
qed

section \<open>A keyset source\<close>

text \<open>
  \<open>rows_all\<close> are the rows in strictly descending order of their keys. A listing without a cursor takes a
  prefix of them, a listing after the cursor of a row a prefix of the rows below it. \<open>sound\<close> is what the
  stored data must satisfy for the store to keep its promises.
\<close>

locale keyset_source =
  fixes sound :: bool
    and list_rows :: "'c option \<Rightarrow> nat \<Rightarrow> 'r list"
    and key :: "'r \<Rightarrow> 'c"
    and below :: "'c \<Rightarrow> 'c \<Rightarrow> bool"
    and rows_all :: "'r list"
  assumes descending: "sound \<Longrightarrow> sorted_wrt (\<lambda>a b. below (key b) (key a)) rows_all"
    and below_irrefl: "\<not> below c c"
    and below_asym: "below c d \<Longrightarrow> \<not> below d c"
    and list_first: "sound \<Longrightarrow> list_rows None n = take n rows_all"
    and list_after: "\<lbrakk>sound; r \<in> set rows_all\<rbrakk> \<Longrightarrow>
      list_rows (Some (key r)) n = take n (filter (\<lambda>x. below (key x) (key r)) rows_all)"
begin

text \<open>Two positions of the list compare as their indices do.\<close>

lemma below_nth_iff:
  assumes "sound" and "i < length rows_all" and "j < length rows_all"
  shows "below (key (rows_all ! j)) (key (rows_all ! i)) \<longleftrightarrow> i < j"
proof (cases i j rule: linorder_cases)
  case less
  then show ?thesis using sorted_wrt_nth_less [OF descending, of i j] assms by simp
next
  case equal
  then show ?thesis by (simp add: below_irrefl)
next
  case greater
  then show ?thesis using sorted_wrt_nth_less [OF descending, of j i] assms below_asym by simp
qed

lemma below_nth:
  assumes "sound" and "i < length rows_all"
  shows "filter (\<lambda>r. below (key r) (key (rows_all ! i))) rows_all = drop (Suc i) rows_all"
  using assms by (intro filter_from_index) (simp add: below_nth_iff Suc_le_eq)

lemma above_nth:
  assumes "sound" and "i < length rows_all"
  shows "filter (\<lambda>r. below (key (rows_all ! i)) (key r)) rows_all = take i rows_all"
  using assms by (intro filter_to_index) (simp add: below_nth_iff)

text \<open>The page after the first \<open>k\<close> rows: the next rows, and the cursor of its last row if more follow.\<close>

definition cursor_at :: "nat \<Rightarrow> 'c option" where
  "cursor_at k = (if k = 0 then None else Some (key (rows_all ! (k - 1))))"

lemma list_at:
  assumes "sound" and "k \<le> length rows_all"
  shows "list_rows (cursor_at k) n = take n (drop k rows_all)"
proof (cases k)
  case 0
  then show ?thesis using assms(1) by (simp add: cursor_at_def list_first)
next
  case (Suc i)
  then have "i < length rows_all" using assms by simp
  then show ?thesis using Suc assms(1) by (simp add: cursor_at_def list_after below_nth)
qed

lemma page_at:
  assumes "sound" and "k \<le> length rows_all" and "1 \<le> limit"
  shows "page_of list_rows key limit (cursor_at k) =
    (if k + limit < length rows_all then (take limit (drop k rows_all), cursor_at (k + limit))
     else (drop k rows_all, None))"
proof -
  have "(take (limit + 1) (drop k rows_all)) ! (limit - 1) = rows_all ! (k + (limit - 1))"
    if "k + limit < length rows_all"
    using that assms(3) by simp
  then show ?thesis
    using assms unfolding page_of_def Let_def list_at [OF assms(1,2)]
    by (auto simp: cursor_at_def min_def)
qed

text \<open>
  A handler that serves the pages under tokens: from any position, enough requests deliver the rest of the list.
  \<open>n\<close> requests with a page size of \<open>limit\<close> suffice when at most \<open>n * limit\<close> rows remain.
\<close>

lemma walk_at:
  assumes "sound" and "1 \<le> limit" and "token None = []" and "\<And>c. token (Some c) \<noteq> []"
    and handle: "\<And>k. k \<le> length rows_all \<Longrightarrow> handle (token (cursor_at k)) =
      (let (rows, next) = page_of list_rows key limit (cursor_at k) in Some (map view rows, token next))"
    and "k \<le> length rows_all" and "length rows_all \<le> k + n * limit" and "0 < n"
  shows "walk handle n (token (cursor_at k)) = Some (map view (drop k rows_all))"
  using assms(6-8)
proof (induction n arbitrary: k)
  case (Suc n)
  note page = page_at [OF assms(1) Suc.prems(1) assms(2)]
  show ?case
  proof (cases "k + limit < length rows_all")
    case False
    then show ?thesis unfolding walk.simps handle [OF Suc.prems(1)] page by (simp add: assms(3))
  next
    case True
    then have n: "0 < n" using Suc.prems(2) by (cases n) auto
    have "token (cursor_at (k + limit)) \<noteq> []" using assms(2,4) by (auto simp: cursor_at_def)
    moreover have "walk handle n (token (cursor_at (k + limit))) = Some (map view (drop (k + limit) rows_all))"
      using True n Suc.prems(2) by (intro Suc.IH) auto
    moreover have "map view (take limit (drop k rows_all)) @ map view (drop (k + limit) rows_all) = map view (drop k rows_all)"
      by (metis append_take_drop_id drop_drop add.commute map_append)
    ultimately show ?thesis unfolding walk.simps handle [OF Suc.prems(1)] page using True by simp
  qed
qed simp

end

section \<open>A ranking\<close>

text \<open>A keyset source that is also read upwards, nearest row last, and that counts the rows above a row.\<close>

locale ranking_source = keyset_source sound list_rows key below rows_all
  for sound :: bool and list_rows :: "'c option \<Rightarrow> nat \<Rightarrow> 'r list" and key :: "'r \<Rightarrow> 'c"
    and below :: "'c \<Rightarrow> 'c \<Rightarrow> bool" and rows_all :: "'r list" +
  fixes list_above :: "'c \<Rightarrow> nat \<Rightarrow> 'r list"
    and count_above :: "'c \<Rightarrow> nat"
  assumes above_rows: "\<lbrakk>sound; r \<in> set rows_all\<rbrakk> \<Longrightarrow>
      list_above (key r) n = rev (take n (rev (filter (\<lambda>x. below (key r) (key x)) rows_all)))"
    and above_count: "\<lbrakk>sound; r \<in> set rows_all\<rbrakk> \<Longrightarrow>
      count_above (key r) = length (filter (\<lambda>x. below (key r) (key x)) rows_all)"
begin

lemma count_at:
  assumes "sound" and "i < length rows_all"
  shows "count_above (key (rows_all ! i)) = i"
  using assms by (simp add: above_count above_nth)

lemma after_at:
  assumes "sound" and "i < length rows_all"
  shows "list_rows (Some (key (rows_all ! i))) n = take n (drop (Suc i) rows_all)"
  using assms by (simp add: list_after below_nth)

lemma above_at:
  assumes "sound" and "i < length rows_all"
  shows "list_above (key (rows_all ! i)) n = drop (i - n) (take i rows_all)"
  using assms by (simp add: above_rows above_nth rev_take rev_drop)

end

end
