(* ===== verification/Run_List.thy ===== *)
theory Run_List
  imports Board_Key Httpx Keyset "HOL-Library.DAList"
begin

text \<open>
  The paginated list of a player's own runs (\<open>internal/runs/handler.go\<close>, \<open>handleList\<close>, over the two
  listing queries of \<open>internal/runs/queries.sql\<close>): keyset pagination on \<open>(created_at, id)\<close>, newest
  first, with an opaque cursor token.

  The queries are interpreted as a \<open>keyset_source\<close> (theory \<open>Keyset\<close>), which gives what a client gets by
  following the cursors. Ids are ordered (PostgreSQL orders a \<open>uuid\<close> by its bytes), so \<open>'u\<close> is a linear order.
\<close>

section \<open>Rows, cursors and queries\<close>

record 'u summary_row =
  rr_ID :: 'u
  rr_UserID :: 'u
  rr_CreatedAt :: int

text \<open>The \<open>runs\<close> table: the primary key \<open>id\<close> with the owner and the creation time.\<close>

type_synonym 'u run_table = "('u, 'u \<times> int) alist"

definition table_rows :: "'u run_table \<Rightarrow> 'u summary_row list" where
  "table_rows table =
     map (\<lambda>(rid, owner, created). \<lparr>rr_ID = rid, rr_UserID = owner, rr_CreatedAt = created\<rparr>)
       (DAList.impl_of table)"

type_synonym 'u cursor = "int \<times> 'u"

definition cursor_of :: "'u summary_row \<Rightarrow> 'u cursor" where
  "cursor_of row = (rr_CreatedAt row, rr_ID row)"

definition key_less :: "('u::linorder) cursor \<Rightarrow> 'u cursor \<Rightarrow> bool" where
  "key_less a b \<longleftrightarrow> fst a < fst b \<or> (fst a = fst b \<and> snd a < snd b)"

text \<open>\<open>ORDER BY created_at DESC, id DESC\<close>: insertion by the composite key, newest first.\<close>

fun insert_desc :: "('u::linorder) summary_row \<Rightarrow> 'u summary_row list \<Rightarrow> 'u summary_row list" where
  "insert_desc x [] = [x]"
| "insert_desc x (y # ys) =
     (if key_less (cursor_of y) (cursor_of x) then x # y # ys else y # insert_desc x ys)"

definition order_desc :: "('u::linorder) summary_row list \<Rightarrow> 'u summary_row list" where
  "order_desc rows = foldr insert_desc rows []"

definition ListRunsFirst :: "('u::linorder) run_table \<Rightarrow> 'u \<Rightarrow> nat \<Rightarrow> 'u summary_row list" where
  "ListRunsFirst table userID n =
     take n (order_desc (filter (\<lambda>r. rr_UserID r = userID) (table_rows table)))"

definition ListRunsAfter ::
  "('u::linorder) run_table \<Rightarrow> 'u \<Rightarrow> int \<Rightarrow> 'u \<Rightarrow> nat \<Rightarrow> 'u summary_row list" where
  "ListRunsAfter table userID createdAt rid n =
     take n (order_desc (filter (\<lambda>r. rr_UserID r = userID \<and> rr_CreatedAt r \<le> createdAt \<and>
       (rr_CreatedAt r < createdAt \<or> (rr_CreatedAt r = createdAt \<and> rr_ID r < rid))) (table_rows table)))"

definition ListRuns ::
  "('u::linorder) run_table \<Rightarrow> 'u \<Rightarrow> 'u cursor option \<Rightarrow> nat \<Rightarrow> 'u summary_row list" where
  "ListRuns table userID after limit =
     (case after of
        None \<Rightarrow> ListRunsFirst table userID limit
      | Some (createdAt, rid) \<Rightarrow> ListRunsAfter table userID createdAt rid limit)"

section \<open>The handler\<close>

definition defaultLimit :: int where "defaultLimit = 20"
definition maxLimit :: int where "maxLimit = 100"

definition encodeCursor :: "'u uuid_lib \<Rightarrow> 'u cursor \<Rightarrow> string" where
  "encodeCursor L c = EncodeCursor [Itoa (fst c), uuid_String L (snd c)]"

definition decodeCursor :: "'u uuid_lib \<Rightarrow> string \<Rightarrow> 'u cursor option" where
  "decodeCursor L token =
     (case DecodeCursor token 2 of
        Some [nanos, rid] \<Rightarrow>
          (case Atoi nanos of
             None \<Rightarrow> None
           | Some n \<Rightarrow> (case uuid_Parse L rid of None \<Rightarrow> None | Some u \<Rightarrow> Some (n, u)))
      | _ \<Rightarrow> None)"

text \<open>\<open>handleList\<close>: \<open>None\<close> is the 400 for an invalid cursor; the token is empty on the last page.\<close>

definition handleList ::
  "('u::linorder) uuid_lib \<Rightarrow> 'u run_table \<Rightarrow> 'u \<Rightarrow> string \<Rightarrow> string
     \<Rightarrow> ('u summary_row list \<times> string) option" where
  "handleList L table userID rawLimit rawCursor =
     (let limit = nat (ParseLimit rawLimit defaultLimit maxLimit) in
      case (if rawCursor = [] then Some None else map_option Some (decodeCursor L rawCursor)) of
        None \<Rightarrow> None
      | Some after \<Rightarrow>
          let (rows, next) = page_of (ListRuns table userID) cursor_of limit after
          in Some (rows, case next of None \<Rightarrow> [] | Some c \<Rightarrow> encodeCursor L c))"

text \<open>A client that asks for the first page and follows the returned tokens, at most \<open>n\<close> requests.\<close>

fun follow ::
  "('u::linorder) uuid_lib \<Rightarrow> 'u run_table \<Rightarrow> 'u \<Rightarrow> string \<Rightarrow> nat \<Rightarrow> string \<Rightarrow> 'u summary_row list option"
where
  "follow L table userID rawLimit 0 token = None"
| "follow L table userID rawLimit (Suc n) token =
     (case handleList L table userID rawLimit token of
        None \<Rightarrow> None
      | Some (rows, next) \<Rightarrow>
          if next = [] then Some rows
          else map_option (\<lambda>rest. rows @ rest) (follow L table userID rawLimit n next))"

section \<open>The queries are a keyset source\<close>

definition key_desc :: "('u::linorder) summary_row \<Rightarrow> 'u summary_row \<Rightarrow> bool" where
  "key_desc a b \<longleftrightarrow> key_less (cursor_of b) (cursor_of a)"

lemma key_less_irrefl: "\<not> key_less c c"
  by (simp add: key_less_def)

lemma key_less_asym: "key_less c d \<Longrightarrow> \<not> key_less d c"
  by (auto simp: key_less_def)

lemma key_less_trans: "key_less a b \<Longrightarrow> key_less b c \<Longrightarrow> key_less a c"
  by (auto simp: key_less_def)

lemma key_less_total: "c \<noteq> d \<Longrightarrow> key_less c d \<or> key_less d c"
  by (cases c; cases d) (auto simp: key_less_def)

lemma set_insert_desc: "set (insert_desc x ys) = insert x (set ys)"
  by (induction ys) auto

lemma set_order_desc: "set (order_desc rows) = set rows"
  by (induction rows) (simp_all add: order_desc_def set_insert_desc)

lemma insert_desc_sorted:
  assumes "sorted_wrt key_desc ys" and "cursor_of x \<notin> cursor_of ` set ys"
  shows "sorted_wrt key_desc (insert_desc x ys)"
  using assms
proof (induction ys)
  case (Cons y ys)
  show ?case
  proof (cases "key_less (cursor_of y) (cursor_of x)")
    case True
    then show ?thesis
      using Cons.prems by (auto simp: key_desc_def intro: key_less_trans)
  next
    case False
    then have "key_desc y x"
      using Cons.prems key_less_total [of "cursor_of x" "cursor_of y"] by (auto simp: key_desc_def)
    then show ?thesis using False Cons by (auto simp: set_insert_desc)
  qed
qed simp

lemma order_desc_sorted:
  assumes "distinct (map cursor_of rows)"
  shows "sorted_wrt key_desc (order_desc rows)"
  using assms
proof (induction rows)
  case Nil
  then show ?case by (simp add: order_desc_def)
next
  case (Cons x rows)
  then have "sorted_wrt key_desc (insert_desc x (order_desc rows))"
    by (intro insert_desc_sorted) (auto simp: set_order_desc)
  then show ?case by (simp add: order_desc_def)
qed

text \<open>Two strictly descending lists with the same rows are the same list.\<close>

lemma key_desc_unique:
  assumes "sorted_wrt key_desc xs" and "sorted_wrt key_desc ys" and "set xs = set ys"
  shows "xs = ys"
  using assms
proof (induction xs arbitrary: ys)
  case (Cons x xs)
  then obtain y ys' where ys: "ys = y # ys'" by (cases ys) auto
  have irr: "\<not> key_desc a a" for a :: "'a summary_row" by (simp add: key_desc_def key_less_irrefl)
  have asym: "key_desc a b \<Longrightarrow> \<not> key_desc b a" for a b :: "'a summary_row"
    by (simp add: key_desc_def key_less_asym)
  have "x = y"
  proof (rule ccontr)
    assume "x \<noteq> y"
    then have "x \<in> set ys'" "y \<in> set xs" using Cons.prems(3) ys by auto
    then have "key_desc y x" "key_desc x y" using Cons.prems ys by auto
    then show False using asym by blast
  qed
  moreover have "x \<notin> set xs" "y \<notin> set ys'" using Cons.prems ys irr by auto
  ultimately have "set xs = set ys'" using Cons.prems(3) ys by auto
  then show ?case using Cons ys \<open>x = y\<close> by simp
qed simp

lemma order_desc_filter:
  assumes "distinct (map cursor_of rows)"
  shows "filter P (order_desc rows) = order_desc (filter P rows)"
proof (rule key_desc_unique)
  show "sorted_wrt key_desc (filter P (order_desc rows))"
    by (rule sorted_wrt_filter [OF order_desc_sorted [OF assms]])
  show "sorted_wrt key_desc (order_desc (filter P rows))"
    using assms by (intro order_desc_sorted) (simp add: distinct_map_filter)
qed (simp add: set_order_desc)

text \<open>The rows of one user, newest first: what the listing as a whole has to deliver.\<close>

definition runs_of :: "('u::linorder) run_table \<Rightarrow> 'u \<Rightarrow> 'u summary_row list" where
  "runs_of table userID = order_desc (filter (\<lambda>r. rr_UserID r = userID) (table_rows table))"

lemma distinct_cursors: "distinct (map cursor_of (table_rows table))"
proof -
  have "distinct (map (snd \<circ> cursor_of) (table_rows table))"
    using DAList.impl_of [of table]
    by (simp add: cursor_of_def comp_def table_rows_def split_beta)
  then show ?thesis by (metis distinct_map map_map)
qed

lemma distinct_cursors_filter: "distinct (map cursor_of (filter P (table_rows table)))"
  by (simp add: distinct_cursors distinct_map_filter)

lemma ListRuns_after:
  "ListRuns table userID (Some c) n
     = take n (filter (\<lambda>r. key_less (cursor_of r) c) (runs_of table userID))"
proof -
  have "(rr_UserID r = userID \<and> rr_CreatedAt r \<le> fst c \<and>
      (rr_CreatedAt r < fst c \<or> (rr_CreatedAt r = fst c \<and> rr_ID r < snd c))) \<longleftrightarrow>
      (rr_UserID r = userID \<and> key_less (cursor_of r) c)" for r
    by (auto simp: key_less_def cursor_of_def)
  then show ?thesis
    by (simp add: ListRuns_def ListRunsAfter_def runs_of_def split_beta
        order_desc_filter [OF distinct_cursors_filter])
qed

interpretation run_listing: keyset_source True "ListRuns table userID" cursor_of key_less "runs_of table userID"
  for table :: "('u::linorder) run_table" and userID :: 'u
proof unfold_locales
  show "sorted_wrt (\<lambda>a b. key_less (cursor_of b) (cursor_of a)) (runs_of table userID)"
    using order_desc_sorted [OF distinct_cursors_filter]
    unfolding runs_of_def key_desc_def [abs_def] .
  show "ListRuns table userID (Some c) n
      = take n (filter (\<lambda>r. key_less (cursor_of r) c) (runs_of table userID))" for c n
    by (rule ListRuns_after)
qed (auto simp: key_less_irrefl key_less_asym ListRuns_def ListRunsFirst_def runs_of_def)

section \<open>Following the tokens\<close>

lemma decode_encode_cursor:
  assumes "uuid_law L" and "uuid_plain L" and "in_int64 (fst c)"
  shows "decodeCursor L (encodeCursor L c) = Some c"
proof -
  have "DecodeCursor (EncodeCursor [Itoa (fst c), uuid_String L (snd c)]) 2
      = Some [Itoa (fst c), uuid_String L (snd c)]"
    using DecodeCursor_EncodeCursor [of "[Itoa (fst c), uuid_String L (snd c)]"] assms(2)
    by (simp add: uuid_plain_def Itoa_no_colon numeral_2_eq_2)
  then show ?thesis
    using assms by (simp add: decodeCursor_def encodeCursor_def Atoi_Itoa uuid_law_def)
qed

lemma encodeCursor_nonempty: "encodeCursor L c \<noteq> []"
  by (simp add: encodeCursor_def EncodeCursor_nonempty)

text \<open>The token that stands for a position, the empty token for the start.\<close>

definition token_at :: "'u uuid_lib \<Rightarrow> 'u cursor option \<Rightarrow> string" where
  "token_at L after = (case after of None \<Rightarrow> [] | Some c \<Rightarrow> encodeCursor L c)"

definition times_ok :: "'u summary_row list \<Rightarrow> bool" where
  "times_ok rows \<longleftrightarrow> (\<forall>r \<in> set rows. in_int64 (rr_CreatedAt r))"

lemma handleList_at:
  assumes "uuid_law L" and "uuid_plain L" and "times_ok (runs_of table userID)"
    and "k \<le> length (runs_of table userID)"
  shows "handleList L table userID rawLimit (token_at L (run_listing.cursor_at table userID k)) =
    (let (rows, next) = page_of (ListRuns table userID) cursor_of
           (nat (ParseLimit rawLimit defaultLimit maxLimit)) (run_listing.cursor_at table userID k)
     in Some (rows, token_at L next))"
proof -
  let ?after = "run_listing.cursor_at table userID k"
  have "in_int64 (fst c)" if "?after = Some c" for c
  proof -
    have "0 < k" "c = cursor_of (runs_of table userID ! (k - 1))"
      using that by (auto simp: run_listing.cursor_at_def split: if_splits)
    moreover have "runs_of table userID ! (k - 1) \<in> set (runs_of table userID)"
      using \<open>0 < k\<close> assms(4) by simp
    ultimately show ?thesis using assms(3) by (simp add: times_ok_def cursor_of_def)
  qed
  then have dec: "(if token_at L ?after = [] then Some None
      else map_option Some (decodeCursor L (token_at L ?after))) = Some ?after"
    using assms by (auto simp: token_at_def encodeCursor_nonempty decode_encode_cursor split: option.split)
  show ?thesis unfolding handleList_def Let_def dec by (simp add: token_at_def split_beta)
qed

text \<open>
  From any position, enough requests deliver the rest of the list: \<open>n\<close> requests with a page size
  of \<open>limit\<close> suffice when at most \<open>n * limit\<close> rows remain.
\<close>

lemma page_limit_pos: "1 \<le> nat (ParseLimit rawLimit defaultLimit maxLimit)"
proof -
  have "1 \<le> ParseLimit rawLimit defaultLimit maxLimit"
    using ParseLimit_bounds [of defaultLimit maxLimit rawLimit] by (simp add: defaultLimit_def maxLimit_def)
  then show ?thesis by linarith
qed

lemma follow_walk: "follow L table userID rawLimit n token = walk (handleList L table userID rawLimit) n token"
  by (induction n arbitrary: token) (simp_all split: option.split)

lemma follow_at:
  assumes "uuid_law L" and "uuid_plain L" and "times_ok (runs_of table userID)"
    and "k \<le> length (runs_of table userID)"
    and "length (runs_of table userID) \<le> k + n * nat (ParseLimit rawLimit defaultLimit maxLimit)"
    and "0 < n"
  shows "follow L table userID rawLimit n (token_at L (run_listing.cursor_at table userID k))
    = Some (drop k (runs_of table userID))"
  using run_listing.walk_at [where view = id and handle = "handleList L table userID rawLimit", OF TrueI page_limit_pos _ _ _ assms(4-6)]
    handleList_at [OF assms(1-3), of _ rawLimit]
  by (simp add: follow_walk token_at_def encodeCursor_nonempty)

lemma key_desc_distinct: "sorted_wrt key_desc xs \<Longrightarrow> distinct xs"
  by (induction xs) (auto simp: key_desc_def key_less_irrefl)

lemma runs_of_complete:
  "set (runs_of table userID) = {r \<in> set (table_rows table). rr_UserID r = userID}"
  by (auto simp: runs_of_def set_order_desc)

lemma runs_of_desc: "sorted_wrt key_desc (runs_of table userID)"
  unfolding runs_of_def by (rule order_desc_sorted [OF distinct_cursors_filter])

text \<open>
  C37. A client that follows the cursors of \<open>GET /runs\<close> from the first page receives exactly the
  caller's runs, each once, strictly newest first, whatever page size it asks for: after as many
  requests as there are runs plus one the walk has ended, and no row is skipped or repeated at a
  page boundary, equal timestamps included.
\<close>

theorem follow_delivers_all:
  assumes "uuid_law L" and "uuid_plain L" and "times_ok (table_rows table)"
    and "length (table_rows table) < n"
  shows "\<exists>rows. follow L table userID rawLimit n [] = Some rows \<and>
    set rows = {r \<in> set (table_rows table). rr_UserID r = userID} \<and> sorted_wrt key_desc rows"
proof -
  let ?limit = "nat (ParseLimit rawLimit defaultLimit maxLimit)"
  have "length (runs_of table userID) = card (set (runs_of table userID))"
    by (simp add: distinct_card key_desc_distinct [OF runs_of_desc])
  also have "\<dots> \<le> length (table_rows table)"
    using card_mono [of "set (table_rows table)" "set (runs_of table userID)"]
    by (metis (no_types, lifting) List.finite_set card_length le_trans mem_Collect_eq runs_of_complete subsetI)
  finally have "length (runs_of table userID) \<le> n" using assms(4) by simp
  then have "length (runs_of table userID) \<le> 0 + n * ?limit"
    using page_limit_pos [of rawLimit] by (metis add_0 le_trans mult_le_mono2 nat_mult_1_right)
  moreover have "times_ok (runs_of table userID)"
    using assms(3) by (auto simp: times_ok_def runs_of_complete)
  ultimately have "follow L table userID rawLimit n
      (token_at L (run_listing.cursor_at table userID 0)) = Some (drop 0 (runs_of table userID))"
    using assms by (intro follow_at) auto
  then show ?thesis
    by (simp add: token_at_def run_listing.cursor_at_def runs_of_complete runs_of_desc)
qed

text \<open>A page size of one over three runs of two players, two of them created at the same instant.\<close>

definition demo_ids :: "nat uuid_lib" where
  "demo_ids = \<lparr>uuid_Parse = (\<lambda>s. Some (length s)), uuid_String = (\<lambda>u. replicate u (CHR ''a'')),
     uuid_Nil = 0\<rparr>"

definition demo_table :: "nat run_table" where
  "demo_table = DAList.update 11 (1, 500) (DAList.update 12 (1, 500) (DAList.update 13 (2, 700) DAList.empty))"

lemma demo_rows:
  "table_rows demo_table =
     [\<lparr>rr_ID = 13, rr_UserID = 2, rr_CreatedAt = 700\<rparr>, \<lparr>rr_ID = 12, rr_UserID = 1, rr_CreatedAt = 500\<rparr>,
      \<lparr>rr_ID = 11, rr_UserID = 1, rr_CreatedAt = 500\<rparr>]"
  by (simp add: table_rows_def demo_table_def DAList.update.rep_eq DAList.empty.rep_eq)

theorem follow_delivers_all_witness:
  "\<exists>rows. follow demo_ids demo_table 1 ''1'' 4 [] = Some rows \<and>
    set rows = {r \<in> set (table_rows demo_table). rr_UserID r = 1} \<and> sorted_wrt key_desc rows"
  by (rule follow_delivers_all)
    (simp_all add: demo_rows uuid_law_def uuid_plain_def demo_ids_def times_ok_def in_int64_def)

end
