(* ===== verification/Ingest.thy ===== *)
theory Ingest
  imports Board_Key Httpx Token_Bucket
begin

text \<open>
  Run ingestion (\<open>internal/runs\<close>): the structural validation of a submitted run
  (\<open>validate.go\<close>) and the handler around it (\<open>handler.go\<close>).

  JSON documents are decoded values (\<open>raw\<close> in the prelude) and gzip is an argument. An API error keeps its HTTP status and its machine code, and for a plain 400 the
  message, which is all that tells two of them apart.
\<close>

section \<open>Errors\<close>

datatype apiError =
  ErrUnauthorized | ErrRateLimited | ErrPayloadTooLarge | ErrNotFound | ErrRestricted | ErrInternal
| BadRequest string
| Unprocessable string
| Conflict string
| Unavailable

fun error_status :: "apiError \<Rightarrow> nat" where
  "error_status ErrUnauthorized = 401"
| "error_status ErrRateLimited = 429"
| "error_status ErrPayloadTooLarge = 413"
| "error_status ErrNotFound = 404"
| "error_status ErrRestricted = 403"
| "error_status ErrInternal = 500"
| "error_status (BadRequest _) = 400"
| "error_status (Unprocessable _) = 422"
| "error_status (Conflict _) = 409"
| "error_status Unavailable = 503"

section \<open>Requests\<close>

record text_source_env =
  ts_Kind :: string
  ts_QuoteID :: string
  ts_QuoteHash :: string
  ts_Text :: string

text \<open>\<open>adoptedFromRunId\<close>: absent, the literal \<open>null\<close>, a JSON string, or any other JSON value.\<close>

datatype adopted = AdoptedAbsent | AdoptedNull | AdoptedString string | AdoptedOther

record setupEnvelope =
  se_AdoptedFromRunID :: adopted
  se_Generation :: "text_source_env option option"

record log_event =
  ev_Seq :: "int option"
  ev_Kind :: string
  ev_Code :: string

record logEnvelope =
  le_Version :: "int option"
  le_Events :: "log_event list"

record ingestRequest =
  rq_Mode :: string
  rq_DurationMs :: "int option"
  rq_WordCount :: "int option"
  rq_Lang :: string
  rq_Seed :: "int option"
  rq_DictHash :: string
  rq_Setup :: "setupEnvelope raw"
  rq_Log :: "logEnvelope raw"
  rq_ClientMetrics :: string
  rq_ClientScore :: string
  rq_ScoreVersion :: "int option"
  rq_Restarts :: "int option"

record 'u CreateRunParams =
  p_UserID :: 'u
  p_Mode :: string
  p_DurationMs :: "int option"
  p_WordCount :: "int option"
  p_Lang :: string
  p_Seed :: int
  p_DictHash :: string
  p_Setup :: string
  p_ClientMetrics :: string
  p_ClientScore :: string
  p_ScoreVersion :: int
  p_Log :: string
  p_LogBytes :: int
  p_Restarts :: int

section \<open>Limits\<close>

definition minEvents :: nat where "minEvents = 1"
definition maxEvents :: nat where "maxEvents = 120000"
definition maxEventsV2 :: nat where "maxEventsV2 = 480000"
definition maxLogBytesV1 :: nat where "maxLogBytesV1 = 13 * 2 ^ 19"
definition seedMax :: int where "seedMax = 2 ^ 32 - 1"
definition maxModeLen :: nat where "maxModeLen = 32"
definition maxRunLangLen :: nat where "maxRunLangLen = 32"
definition maxDictHashLen :: nat where "maxDictHashLen = 64"
definition maxRestarts :: int where "maxRestarts = 10000"
definition maxBodyBytes :: nat where "maxBodyBytes = 50 * 2 ^ 19"
definition KnownScoreVersions :: "int list" where "KnownScoreVersions = [1, 2, 3]"
definition KnownLogVersions :: "int list" where "KnownLogVersions = [1, 2]"
definition logVersionTelemetry :: int where "logVersionTelemetry = 2"

definition isKnownLogVersion :: "int \<Rightarrow> bool" where
  "isKnownLogVersion v = list_ex (\<lambda>known. known = v) KnownLogVersions"

definition isKnownScoreVersion :: "int \<Rightarrow> bool" where
  "isKnownScoreVersion v = list_ex (\<lambda>known. known = v) KnownScoreVersions"

section \<open>The checks\<close>

definition validateOpaqueField :: "string \<Rightarrow> string \<Rightarrow> nat \<Rightarrow> apiError option" where
  "validateOpaqueField name v maxLen =
     (if v = [] then Some (BadRequest (name @ '' is required''))
      else if length v > maxLen then Some (BadRequest (name @ '' is too long''))
      else None)"

definition parseSetupEnvelope :: "setupEnvelope raw \<Rightarrow> (apiError, setupEnvelope) result" where
  "parseSetupEnvelope setup =
     (case raw_value setup of
        None \<Rightarrow> Inl (Unprocessable ''invalid_text_source'')
      | Some env \<Rightarrow> Inr env)"

definition isCanonicalUUID :: "'u uuid_lib \<Rightarrow> string \<Rightarrow> bool" where
  "isCanonicalUUID L s = (case uuid_Parse L s of None \<Rightarrow> False | Some u \<Rightarrow> uuid_String L u = s)"

definition validateAdoptedFrom :: "'u uuid_lib \<Rightarrow> setupEnvelope \<Rightarrow> apiError option" where
  "validateAdoptedFrom L env =
     (case se_AdoptedFromRunID env of
        AdoptedAbsent \<Rightarrow> None
      | AdoptedNull \<Rightarrow> None
      | AdoptedString v \<Rightarrow>
          if isCanonicalUUID L v then None else Some (Unprocessable ''invalid_adopted_from'')
      | AdoptedOther \<Rightarrow> Some (Unprocessable ''invalid_adopted_from''))"

definition validateTextSource :: "'u uuid_lib \<Rightarrow> setupEnvelope \<Rightarrow> (apiError, string) result" where
  "validateTextSource L env =
     (case se_Generation env of
        Some (Some src) \<Rightarrow>
          if ts_Kind src = TextSourceSeeded then Inr TextSourceSeeded
          else if ts_Kind src \<noteq> TextSourceQuote then Inl (Unprocessable ''invalid_text_source'')
          else if length (ts_Text src) > 0 then Inl (Unprocessable ''quote_text_submitted'')
          else if \<not> isCanonicalUUID L (ts_QuoteID src) then Inl (Unprocessable ''invalid_text_source'')
          else if ts_QuoteHash src = [] \<or> length (ts_QuoteHash src) > maxDictHashLen
          then Inl (Unprocessable ''invalid_text_source'')
          else Inr TextSourceQuote
      | _ \<Rightarrow> Inr TextSourceSeeded)"

definition validateDimensions :: "ingestRequest \<Rightarrow> string \<Rightarrow> apiError option" where
  "validateDimensions req textSource =
     (if textSource = TextSourceQuote
      then (if rq_DurationMs req \<noteq> None \<or> rq_WordCount req \<noteq> None
            then Some (Unprocessable ''invalid_dimensions'') else None)
      else case (rq_DurationMs req, rq_WordCount req) of
        (Some _, Some _) \<Rightarrow> Some (Unprocessable ''invalid_dimensions'')
      | (Some d, None) \<Rightarrow>
          if d \<le> 0 then Some (Unprocessable ''invalid_dimensions'')
          else if d > MaxDurationMs then Some (Unprocessable ''duration_too_long'') else None
      | (None, Some n) \<Rightarrow>
          if n \<le> 0 then Some (Unprocessable ''invalid_dimensions'')
          else if n > MaxWordCount then Some (Unprocessable ''word_count_too_large'') else None
      | (None, None) \<Rightarrow> Some (Unprocessable ''invalid_dimensions''))"

definition key_byte :: "nat \<Rightarrow> bool" where
  "key_byte c \<longleftrightarrow> (97 \<le> c \<and> c \<le> 122) \<or> (65 \<le> c \<and> c \<le> 90) \<or> (48 \<le> c \<and> c \<le> 57)"

definition isKeyCode :: "string \<Rightarrow> bool" where
  "isKeyCode s =
     (if length s < 1 \<or> length s > 32 then False else list_all (\<lambda>c. key_byte (byte c)) s)"

fun validate_events :: "bool \<Rightarrow> int \<Rightarrow> log_event list \<Rightarrow> apiError option" where
  "validate_events telemetryAllowed prev [] = None"
| "validate_events telemetryAllowed prev (event # events) =
     (case ev_Seq event of
        None \<Rightarrow> Some (Unprocessable ''non_monotonic_seq'')
      | Some sq \<Rightarrow>
          if sq \<le> prev then Some (Unprocessable ''non_monotonic_seq'')
          else if (ev_Kind event = ''down'' \<or> ev_Kind event = ''up'') \<and> \<not> telemetryAllowed
          then Some (Unprocessable ''malformed_log'')
          else if (ev_Kind event = ''down'' \<or> ev_Kind event = ''up'') \<and> \<not> isKeyCode (ev_Code event)
          then Some (Unprocessable ''malformed_log'')
          else validate_events telemetryAllowed sq events)"

definition validateLog :: "logEnvelope raw \<Rightarrow> apiError option" where
  "validateLog lg =
     (case raw_value lg of
        None \<Rightarrow> Some (Unprocessable ''malformed_log'')
      | Some env \<Rightarrow>
          (case le_Version env of
             None \<Rightarrow> Some (Unprocessable ''unsupported_log_version'')
           | Some v \<Rightarrow>
               if \<not> isKnownLogVersion v then Some (Unprocessable ''unsupported_log_version'')
               else
                 let telemetryAllowed = (v = logVersionTelemetry);
                     n = length (le_Events env);
                     eventCap = (if telemetryAllowed then maxEventsV2 else maxEvents)
                 in if \<not> telemetryAllowed \<and> length (raw_bytes lg) > maxLogBytesV1
                    then Some (Unprocessable ''log_too_large'')
                    else if n < minEvents then Some (Unprocessable ''empty_log'')
                    else if n > eventCap then Some (Unprocessable ''too_many_events'')
                    else validate_events telemetryAllowed (-1) (le_Events env)))"

text \<open>The restart counter: absent is zero.\<close>

definition validate_restarts :: "ingestRequest \<Rightarrow> (apiError, int) result" where
  "validate_restarts req =
     (case rq_Restarts req of
        None \<Rightarrow> Inr 0
      | Some n \<Rightarrow> if n < 0 \<or> n > maxRestarts then Inl (Unprocessable ''invalid_restarts'') else Inr n)"

definition create_params :: "'u \<Rightarrow> ingestRequest \<Rightarrow> int \<Rightarrow> string \<Rightarrow> 'u CreateRunParams" where
  "create_params userID req restarts gz =
     \<lparr>p_UserID = userID, p_Mode = rq_Mode req, p_DurationMs = rq_DurationMs req,
      p_WordCount = rq_WordCount req, p_Lang = rq_Lang req, p_Seed = the (rq_Seed req),
      p_DictHash = rq_DictHash req, p_Setup = raw_bytes (rq_Setup req),
      p_ClientMetrics = rq_ClientMetrics req, p_ClientScore = rq_ClientScore req,
      p_ScoreVersion = the (rq_ScoreVersion req), p_Log = gz,
      p_LogBytes = to_int32 (int (length (raw_bytes (rq_Log req)))), p_Restarts = restarts\<rparr>"

text \<open>
  \<open>validateIngest\<close>, in the order of the source: the required payloads and the score version, the
  opaque fields and the seed, then the setup envelope, the log and the compression.
\<close>

definition check_fields :: "ingestRequest \<Rightarrow> apiError option" where
  "check_fields req =
     (if length (raw_bytes (rq_Setup req)) = 0 then Some (BadRequest ''setup is required'')
      else if length (rq_ClientMetrics req) = 0 then Some (BadRequest ''clientMetrics is required'')
      else if length (rq_ClientScore req) = 0 then Some (BadRequest ''clientScore is required'')
      else if length (raw_bytes (rq_Log req)) = 0 then Some (BadRequest ''log is required'')
      else if rq_ScoreVersion req = None \<or> \<not> isKnownScoreVersion (the (rq_ScoreVersion req))
      then Some (Unprocessable ''unsupported_score_version'')
      else case validateOpaqueField ''mode'' (rq_Mode req) maxModeLen of
        Some e \<Rightarrow> Some e
      | None \<Rightarrow>
          (case validateOpaqueField ''lang'' (rq_Lang req) maxRunLangLen of
             Some e \<Rightarrow> Some e
           | None \<Rightarrow>
               (case validateOpaqueField ''dictHash'' (rq_DictHash req) maxDictHashLen of
                  Some e \<Rightarrow> Some e
                | None \<Rightarrow>
                    (case rq_Seed req of
                       None \<Rightarrow> Some (BadRequest ''seed is required'')
                     | Some s \<Rightarrow>
                         if s < 0 \<or> s > seedMax then Some (Unprocessable ''seed_out_of_range'')
                         else None))))"

definition validateIngest ::
  "'u uuid_lib \<Rightarrow> (string \<Rightarrow> string option) \<Rightarrow> 'u \<Rightarrow> ingestRequest
     \<Rightarrow> (apiError, 'u CreateRunParams) result" where
  "validateIngest L gzipLog userID req =
     (case check_fields req of
        Some e \<Rightarrow> Inl e
      | None \<Rightarrow>
     (case parseSetupEnvelope (rq_Setup req) of
        Inl e \<Rightarrow> Inl e
      | Inr env \<Rightarrow>
     (case validateTextSource L env of
        Inl e \<Rightarrow> Inl e
      | Inr kind \<Rightarrow>
     (case validateAdoptedFrom L env of
        Some e \<Rightarrow> Inl e
      | None \<Rightarrow>
     (case validateDimensions req kind of
        Some e \<Rightarrow> Inl e
      | None \<Rightarrow>
     (case validate_restarts req of
        Inl e \<Rightarrow> Inl e
      | Inr restarts \<Rightarrow>
     (case validateLog (rq_Log req) of
        Some e \<Rightarrow> Inl e
      | None \<Rightarrow>
     (case gzipLog (raw_bytes (rq_Log req)) of
        None \<Rightarrow> Inl ErrInternal
      | Some gz \<Rightarrow> Inr (create_params userID req restarts gz)))))))))"

section \<open>What is accepted\<close>

text \<open>
  The contract a client can read: which requests are accepted, without an order of checks and
  without error codes.
\<close>

definition canonical_id :: "'u uuid_lib \<Rightarrow> string \<Rightarrow> bool" where
  "canonical_id L s \<longleftrightarrow> (\<exists>u. uuid_Parse L s = Some u \<and> uuid_String L u = s)"

definition quote_of :: "setupEnvelope \<Rightarrow> text_source_env option" where
  "quote_of env =
     (case se_Generation env of
        Some (Some src) \<Rightarrow> if ts_Kind src = TextSourceSeeded then None else Some src
      | _ \<Rightarrow> None)"

definition setup_ok :: "'u uuid_lib \<Rightarrow> setupEnvelope \<Rightarrow> bool" where
  "setup_ok L env \<longleftrightarrow>
     (case quote_of env of
        None \<Rightarrow> True
      | Some src \<Rightarrow> ts_Kind src = TextSourceQuote \<and> ts_Text src = [] \<and> canonical_id L (ts_QuoteID src) \<and>
                    ts_QuoteHash src \<noteq> [] \<and> length (ts_QuoteHash src) \<le> 64) \<and>
     (case se_AdoptedFromRunID env of
        AdoptedString v \<Rightarrow> canonical_id L v
      | AdoptedOther \<Rightarrow> False
      | _ \<Rightarrow> True)"

definition dims_ok :: "ingestRequest \<Rightarrow> setupEnvelope \<Rightarrow> bool" where
  "dims_ok req env \<longleftrightarrow>
     (if quote_of env \<noteq> None then rq_DurationMs req = None \<and> rq_WordCount req = None
      else (\<exists>d. rq_DurationMs req = Some d \<and> rq_WordCount req = None \<and> 0 < d \<and> d \<le> 3600000) \<or>
           (\<exists>n. rq_WordCount req = Some n \<and> rq_DurationMs req = None \<and> 0 < n \<and> n \<le> 3000))"

text \<open>
  A log: a known version, within its caps, every event numbered, the numbers non-negative and
  strictly increasing, and key telemetry only in version 2 and only with a plausible key code.
\<close>

definition telemetry_ok :: "bool \<Rightarrow> log_event \<Rightarrow> bool" where
  "telemetry_ok allowed ev \<longleftrightarrow>
     (ev_Kind ev = ''down'' \<or> ev_Kind ev = ''up'' \<longrightarrow> allowed \<and> isKeyCode (ev_Code ev))"

definition seqs_ok :: "int \<Rightarrow> log_event list \<Rightarrow> bool" where
  "seqs_ok prev evs \<longleftrightarrow>
     (\<exists>seqs. map ev_Seq evs = map Some seqs \<and> sorted_wrt (<) (prev # seqs))"

definition log_ok :: "nat \<Rightarrow> logEnvelope \<Rightarrow> bool" where
  "log_ok sz env \<longleftrightarrow>
     ((le_Version env = Some 1 \<and> sz \<le> 6815744 \<and> length (le_Events env) \<le> 120000) \<or>
      (le_Version env = Some 2 \<and> length (le_Events env) \<le> 480000)) \<and>
     le_Events env \<noteq> [] \<and> seqs_ok (-1) (le_Events env) \<and>
     list_all (telemetry_ok (le_Version env = Some 2)) (le_Events env)"

definition restarts_of :: "ingestRequest \<Rightarrow> int" where
  "restarts_of req = (case rq_Restarts req of None \<Rightarrow> 0 | Some n \<Rightarrow> n)"

definition fields_ok :: "ingestRequest \<Rightarrow> bool" where
  "fields_ok req \<longleftrightarrow>
     raw_bytes (rq_Setup req) \<noteq> [] \<and> rq_ClientMetrics req \<noteq> [] \<and> rq_ClientScore req \<noteq> [] \<and>
     raw_bytes (rq_Log req) \<noteq> [] \<and> rq_ScoreVersion req \<in> {Some 1, Some 2, Some 3} \<and>
     1 \<le> length (rq_Mode req) \<and> length (rq_Mode req) \<le> 32 \<and>
     1 \<le> length (rq_Lang req) \<and> length (rq_Lang req) \<le> 32 \<and>
     1 \<le> length (rq_DictHash req) \<and> length (rq_DictHash req) \<le> 64 \<and>
     (\<exists>s. rq_Seed req = Some s \<and> 0 \<le> s \<and> s < 2 ^ 32)"

definition run_ok :: "'u uuid_lib \<Rightarrow> ingestRequest \<Rightarrow> bool" where
  "run_ok L req \<longleftrightarrow>
     fields_ok req \<and>
     (\<exists>env. raw_value (rq_Setup req) = Some env \<and> setup_ok L env \<and> dims_ok req env) \<and>
     (case rq_Restarts req of None \<Rightarrow> True | Some n \<Rightarrow> 0 \<le> n \<and> n \<le> 10000) \<and>
     (\<exists>env. raw_value (rq_Log req) = Some env \<and> log_ok (length (raw_bytes (rq_Log req))) env)"

lemma isCanonicalUUID_iff: "isCanonicalUUID L s \<longleftrightarrow> canonical_id L s"
  by (auto simp: isCanonicalUUID_def canonical_id_def split: option.splits)

lemma check_fields_iff: "check_fields req = None \<longleftrightarrow> fields_ok req"
proof -
  have opaque: "validateOpaqueField f v n = None \<longleftrightarrow> 1 \<le> length v \<and> length v \<le> n" for f v n
    by (cases v) (auto simp: validateOpaqueField_def)
  have seed: "(case rq_Seed req of None \<Rightarrow> Some e1 | Some s \<Rightarrow> if s < 0 \<or> s > seedMax then Some e2 else None)
      = None \<longleftrightarrow> (\<exists>s. rq_Seed req = Some s \<and> 0 \<le> s \<and> s < 2 ^ 32)" for e1 e2 :: apiError
    by (auto simp: seedMax_def split: option.split)
  have "(rq_ScoreVersion req = None \<or> \<not> isKnownScoreVersion (the (rq_ScoreVersion req))) \<longleftrightarrow>
        rq_ScoreVersion req \<notin> {Some 1, Some 2, Some 3}"
    by (auto simp: isKnownScoreVersion_def KnownScoreVersions_def)
  then show ?thesis
    unfolding check_fields_def fields_ok_def
    by (simp add: chain_simps opaque seed maxModeLen_def maxRunLangLen_def maxDictHashLen_def)
qed

lemma validateTextSource_iff:
  "validateAdoptedFrom L env = None \<and> validateTextSource L env = Inr kind \<longleftrightarrow>
     setup_ok L env \<and> kind = (if quote_of env = None then TextSourceSeeded else TextSourceQuote)"
  by (auto simp: validateTextSource_def validateAdoptedFrom_def setup_ok_def quote_of_def
      isCanonicalUUID_iff maxDictHashLen_def split: option.splits adopted.splits)

lemma validateDimensions_iff:
  "validateDimensions req (if quote_of env = None then TextSourceSeeded else TextSourceQuote) = None
     \<longleftrightarrow> dims_ok req env"
  by (auto simp: validateDimensions_def dims_ok_def MaxDurationMs_def MaxWordCount_def
      split: option.splits)

lemma seqs_ok_Nil: "seqs_ok prev []"
  by (simp add: seqs_ok_def)

lemma seqs_ok_Cons:
  "seqs_ok prev (ev # evs) \<longleftrightarrow> (\<exists>s. ev_Seq ev = Some s \<and> prev < s \<and> seqs_ok s evs)"
proof
  assume "seqs_ok prev (ev # evs)"
  then obtain s ss where "ev_Seq ev = Some s" "map ev_Seq evs = map Some ss"
    "sorted_wrt (<) (prev # s # ss)"
    unfolding seqs_ok_def by (auto simp: Cons_eq_map_conv map_eq_Cons_conv)
  then show "\<exists>s. ev_Seq ev = Some s \<and> prev < s \<and> seqs_ok s evs"
    unfolding seqs_ok_def by auto
next
  assume "\<exists>s. ev_Seq ev = Some s \<and> prev < s \<and> seqs_ok s evs"
  then obtain s ss where "ev_Seq ev = Some s" "prev < s" "map ev_Seq evs = map Some ss"
    "sorted_wrt (<) (s # ss)" unfolding seqs_ok_def by auto
  then show "seqs_ok prev (ev # evs)"
    unfolding seqs_ok_def by (intro exI [of _ "s # ss"]) auto
qed

lemma validate_events_iff:
  "validate_events allowed prev evs = None \<longleftrightarrow> seqs_ok prev evs \<and> list_all (telemetry_ok allowed) evs"
  by (induction allowed prev evs rule: validate_events.induct)
    (auto simp: seqs_ok_Nil seqs_ok_Cons telemetry_ok_def split: option.splits)

lemma isKnownLogVersion_iff: "isKnownLogVersion v \<longleftrightarrow> v = 1 \<or> v = 2"
  by (auto simp: isKnownLogVersion_def KnownLogVersions_def)

lemma validateLog_iff:
  "validateLog lg = None \<longleftrightarrow> (\<exists>env. raw_value lg = Some env \<and> log_ok (length (raw_bytes lg)) env)"
  by (auto simp: validateLog_def log_ok_def Let_def isKnownLogVersion_iff validate_events_iff
      logVersionTelemetry_def maxLogBytesV1_def minEvents_def maxEvents_def maxEventsV2_def
      split: option.splits if_splits)

lemma validateIngest_Inr:
  "validateIngest L gzipLog userID req = Inr p \<longleftrightarrow>
     run_ok L req \<and>
     (\<exists>gz. gzipLog (raw_bytes (rq_Log req)) = Some gz \<and>
           p = create_params userID req (restarts_of req) gz)"
  (is "?l \<longleftrightarrow> ?r")
proof -
  have restarts: "validate_restarts req = Inr n \<longleftrightarrow>
      (case rq_Restarts req of None \<Rightarrow> True | Some n \<Rightarrow> 0 \<le> n \<and> n \<le> 10000) \<and>
      n = restarts_of req" for n
    by (auto simp: restarts_of_def validate_restarts_def maxRestarts_def split: option.split)
  have env_iff: "parseSetupEnvelope (rq_Setup req) = Inr env \<longleftrightarrow> raw_value (rq_Setup req) = Some env" for env
    by (auto simp: parseSetupEnvelope_def split: option.split)
  have "?l \<longleftrightarrow> check_fields req = None \<and>
      (\<exists>env. raw_value (rq_Setup req) = Some env \<and>
        (\<exists>kind. (validateAdoptedFrom L env = None \<and> validateTextSource L env = Inr kind) \<and>
          validateDimensions req kind = None)) \<and>
      (\<exists>n. validate_restarts req = Inr n \<and> validateLog (rq_Log req) = None \<and>
        (\<exists>gz. gzipLog (raw_bytes (rq_Log req)) = Some gz \<and> create_params userID req n gz = p))"
    unfolding validateIngest_def chain_simps env_iff by blast
  also have "\<dots> \<longleftrightarrow> ?r"
    unfolding validateTextSource_iff check_fields_iff restarts validateLog_iff run_ok_def
    using validateDimensions_iff by auto
  finally show ?thesis .
qed

text \<open>
  C7. A submission is accepted exactly when it meets the contract \<open>run_ok\<close> and its log could be
  compressed, and the row to insert is then the request's own: the raw payloads byte for byte,
  the seed and the score version it declared, and a restart count of zero when none was sent. A
  seeded run has at most 3 000 words; the 10 000 of the repository's documentation are out of date.
\<close>

theorem ingest_accepts_iff:
  "validateIngest L gzipLog userID req = Inr p \<longleftrightarrow>
     run_ok L req \<and>
     (\<exists>gz. gzipLog (raw_bytes (rq_Log req)) = Some gz \<and>
           p = create_params userID req (restarts_of req) gz)"
  by (rule validateIngest_Inr)

text \<open>The classes of refusal: a bad request, an unprocessable one, or a log that would not compress.\<close>

lemma validate_refusals:
  assumes "validateIngest L gzipLog userID req = Inl e"
  shows "error_status e \<in> {400, 422} \<or> (e = ErrInternal \<and> gzipLog (raw_bytes (rq_Log req)) = None)"
proof -
  have opaque: "validateOpaqueField f v n = Some e \<Longrightarrow> error_status e = 400" for f v n e
    by (auto simp: validateOpaqueField_def split: if_splits)
  have fields: "check_fields req = Some e \<Longrightarrow> error_status e \<in> {400, 422}" for e
    by (auto simp: check_fields_def dest: opaque split: if_splits option.splits)
  have source: "validateTextSource L env = Inl e \<Longrightarrow> error_status e = 422" for env e
    by (auto simp: validateTextSource_def split: if_splits option.splits)
  have adopted: "validateAdoptedFrom L env = Some e \<Longrightarrow> error_status e = 422" for env e
    by (auto simp: validateAdoptedFrom_def split: if_splits adopted.splits)
  have dims: "validateDimensions req kind = Some e \<Longrightarrow> error_status e = 422" for kind e
    by (auto simp: validateDimensions_def split: if_splits option.splits)
  have rest: "validate_restarts req = Inl e \<Longrightarrow> error_status e = 422"
    "parseSetupEnvelope (rq_Setup req) = Inl e \<Longrightarrow> error_status e = 422" for e
    by (auto simp: validate_restarts_def parseSetupEnvelope_def split: if_splits option.splits)
  have events: "validate_events t prev evs = Some e \<Longrightarrow> error_status e = 422" for t prev evs e
    by (induction t prev evs rule: validate_events.induct) (auto split: if_splits option.splits)
  have lg: "validateLog (rq_Log req) = Some e \<Longrightarrow> error_status e = 422" for e
    by (auto simp: validateLog_def Let_def dest: events split: if_splits option.splits)
  show ?thesis
    using assms unfolding validateIngest_def
    by (auto split: option.splits sum.splits dest: fields source adopted dims rest lg)
qed

section \<open>The ingest handler\<close>

text \<open>
  \<open>POST /runs\<close>. The session's user, the moderation lookup (\<open>None\<close> when none is wired, and then its
  answer or its failure), the body as it was read, and the store's insert are arguments; the
  per-user limiter is the one of \<open>Token_Bucket\<close>. The result is the limiter and the store after the
  request, and the answer.
\<close>

datatype body = BodyTooLarge | BodyNotJSON | Body ingestRequest

datatype 'r answer = Refused apiError | Stored 'r

definition restriction_of :: "('u \<Rightarrow> bool option) option \<Rightarrow> 'u \<Rightarrow> bool option" where
  "restriction_of restrictions userID =
     (case restrictions of None \<Rightarrow> Some False | Some isRestricted \<Rightarrow> isRestricted userID)"

definition handleIngest ::
  "'u uuid_lib \<Rightarrow> (string \<Rightarrow> string option) \<Rightarrow> ('u CreateRunParams \<Rightarrow> 's \<Rightarrow> ('s \<times> 'r) option)
     \<Rightarrow> ('u \<Rightarrow> bool option) option \<Rightarrow> int \<Rightarrow> 'u option \<Rightarrow> body \<Rightarrow> limiter \<Rightarrow> 's
     \<Rightarrow> limiter \<times> 's \<times> 'r answer" where
  "handleIngest L gzipLog CreateRun restrictions now user bd lm store =
     (case user of
        None \<Rightarrow> (lm, store, Refused ErrUnauthorized)
      | Some userID \<Rightarrow>
          let (lm1, ok) = limiter_allow lm (uuid_String L userID) now in
          if \<not> ok then (lm1, store, Refused ErrRateLimited)
          else
            case restriction_of restrictions userID of
              None \<Rightarrow> (lm1, store, Refused ErrInternal)
            | Some True \<Rightarrow> (lm1, store, Refused ErrRestricted)
            | Some False \<Rightarrow>
                (case bd of
                   BodyTooLarge \<Rightarrow> (lm1, store, Refused ErrPayloadTooLarge)
                 | BodyNotJSON \<Rightarrow> (lm1, store, Refused (BadRequest ''request body is not valid JSON''))
                 | Body req \<Rightarrow>
                     (case validateIngest L gzipLog userID req of
                        Inl e \<Rightarrow> (lm1, store, Refused e)
                      | Inr p \<Rightarrow>
                          (case CreateRun p store of
                             None \<Rightarrow> (lm1, store, Refused ErrInternal)
                           | Some (store1, r) \<Rightarrow> (lm1, store1, Stored r)))))"

text \<open>
  \<open>POST /runs\<close> writes to the store only for a request it answers with 202, and such a request
  came from a signed-in, unrestricted, unthrottled account with a body that meets the contract;
  the one write is the insert of exactly that request's row. Every refusal leaves the store as it
  was.
\<close>

theorem ingest_stores_valid_only:
  assumes "handleIngest L gzipLog CreateRun restrictions now user bd lm store = (lm', store', ans)"
  shows "case ans of
      Refused e \<Rightarrow> store' = store
    | Stored r \<Rightarrow> \<exists>userID req gz.
        user = Some userID \<and> bd = Body req \<and> run_ok L req \<and>
        snd (limiter_allow lm (uuid_String L userID) now) \<and>
        restriction_of restrictions userID = Some False \<and>
        gzipLog (raw_bytes (rq_Log req)) = Some gz \<and>
        CreateRun (create_params userID req (restarts_of req) gz) store
          = Some (store', r)"
  using assms unfolding handleIngest_def Let_def
  by (auto simp: validateIngest_Inr split: option.splits sum.splits prod.splits bool.splits body.splits
      answer.splits if_splits)

text \<open>A one-event, 15-second run with an empty setup, and a store that counts its rows.\<close>

definition demo_run :: ingestRequest where
  "demo_run =
     \<lparr>rq_Mode = ModeTime, rq_DurationMs = Some 15000, rq_WordCount = None, rq_Lang = ''en'',
      rq_Seed = Some 7, rq_DictHash = ''d'',
      rq_Setup = \<lparr>raw_bytes = ''{}'',
        raw_value = Some \<lparr>se_AdoptedFromRunID = AdoptedAbsent, se_Generation = None\<rparr>\<rparr>,
      rq_Log = \<lparr>raw_bytes = ''{}'',
        raw_value = Some \<lparr>le_Version = Some 1,
          le_Events = [\<lparr>ev_Seq = Some 0, ev_Kind = ''insert'', ev_Code = []\<rparr>]\<rparr>\<rparr>,
      rq_ClientMetrics = ''{}'', rq_ClientScore = ''{}'', rq_ScoreVersion = Some 3, rq_Restarts = None\<rparr>"

lemma demo_run_validates:
  "validateIngest demo_uuids Some ''u'' demo_run = Inr (create_params ''u'' demo_run 0 ''{}'')"
  unfolding validateIngest_Inr run_ok_def fields_ok_def setup_ok_def dims_ok_def log_ok_def seqs_ok_def
  by (simp add: demo_run_def quote_of_def telemetry_ok_def restarts_of_def) (rule exI [of _ "[0]"], simp)

theorem ingest_stores_valid_only_witness:
  "\<exists>userID req gz.
     Some ''u'' = Some userID \<and> Body demo_run = Body req \<and> run_ok demo_uuids req \<and>
     snd (limiter_allow (NewInMemoryRateLimiter 1 5) (uuid_String demo_uuids userID) 0) \<and>
     restriction_of None userID = Some False \<and> Some (raw_bytes (rq_Log req)) = Some gz \<and>
     Some (Suc 0, ()) = Some (1 :: nat, ())"
proof -
  have "handleIngest demo_uuids Some (\<lambda>p n. Some (Suc n, ())) None 0 (Some ''u'') (Body demo_run)
      (NewInMemoryRateLimiter 1 5) 0 =
    (fst (limiter_allow (NewInMemoryRateLimiter 1 5) ''u'' 0), 1, Stored ())"
    by (simp add: handleIngest_def demo_run_validates restriction_of_def limiter_allow_def
        limiter_take_def limiter_sweep_def NewInMemoryRateLimiter_def refill_tokens_def last_of_def
        demo_uuids_def [THEN arg_cong [of _ _ uuid_String]])
  from ingest_stores_valid_only [OF this] show ?thesis by simp
qed

end
