(* ===== verification/Go_Float.thy ===== *)
theory Go_Float
  imports Prelude
begin

text \<open>
  \<open>float64\<close> as the review policy uses it: a finite value, an infinity, or not-a-number, with the
  IEEE rules for comparing and combining them. Finite arithmetic is exact: rounding to 53 bits is
  not modelled, and no property of the development depends on it.
\<close>

datatype float64 = Fin rat | PInf | NInf | NaN

definition f_zero :: float64 where "f_zero = Fin 0"

fun f_add :: "float64 \<Rightarrow> float64 \<Rightarrow> float64" where
  "f_add (Fin a) (Fin b) = Fin (a + b)"
| "f_add NaN b = NaN"
| "f_add a NaN = NaN"
| "f_add PInf NInf = NaN"
| "f_add NInf PInf = NaN"
| "f_add PInf b = PInf"
| "f_add NInf b = NInf"
| "f_add (Fin a) PInf = PInf"
| "f_add (Fin a) NInf = NInf"

definition f_inf_times :: "bool \<Rightarrow> rat \<Rightarrow> float64" where
  "f_inf_times positive a =
     (if a = 0 then NaN else if (0 < a) = positive then PInf else NInf)"

fun f_mul :: "float64 \<Rightarrow> float64 \<Rightarrow> float64" where
  "f_mul (Fin a) (Fin b) = Fin (a * b)"
| "f_mul NaN b = NaN"
| "f_mul a NaN = NaN"
| "f_mul PInf (Fin b) = f_inf_times True b"
| "f_mul (Fin a) PInf = f_inf_times True a"
| "f_mul NInf (Fin b) = f_inf_times False b"
| "f_mul (Fin a) NInf = f_inf_times False a"
| "f_mul PInf PInf = PInf"
| "f_mul NInf NInf = PInf"
| "f_mul PInf NInf = NInf"
| "f_mul NInf PInf = NInf"

text \<open>The comparisons; every one with a not-a-number is false.\<close>

fun f_le :: "float64 \<Rightarrow> float64 \<Rightarrow> bool" where
  "f_le (Fin a) (Fin b) = (a \<le> b)"
| "f_le NaN b = False"
| "f_le a NaN = False"
| "f_le NInf b = True"
| "f_le a PInf = True"
| "f_le PInf b = False"
| "f_le a NInf = False"

definition f_lt :: "float64 \<Rightarrow> float64 \<Rightarrow> bool" where
  "f_lt a b \<longleftrightarrow> f_le a b \<and> \<not> f_le b a"

definition f_finite :: "float64 \<Rightarrow> bool" where
  "f_finite x \<longleftrightarrow> (case x of Fin _ \<Rightarrow> True | _ \<Rightarrow> False)"

text \<open>\<open>math.Round\<close>: to the nearest integer, halves away from zero.\<close>

definition round_rat :: "rat \<Rightarrow> rat" where
  "round_rat q = (if q < 0 then - of_int \<lfloor>- q + 1 / 2\<rfloor> else of_int \<lfloor>q + 1 / 2\<rfloor>)"

fun f_round :: "float64 \<Rightarrow> float64" where
  "f_round (Fin q) = Fin (round_rat q)"
| "f_round x = x"

lemma f_add_NaN [simp]: "f_add a NaN = NaN"
  by (cases a) simp_all

lemma f_mul_NaN [simp]: "f_mul a NaN = NaN"
  by (cases a) simp_all

lemma f_le_NaN [simp]: "\<not> f_le a NaN"
  by (cases a) simp_all

lemma f_finite_iff: "f_finite x \<longleftrightarrow> (\<exists>q. x = Fin q)"
  by (cases x) (simp_all add: f_finite_def)

lemma f_add_finite: "f_finite a \<Longrightarrow> f_finite b \<Longrightarrow> f_finite (f_add a b)"
  by (cases a; cases b) (simp_all add: f_finite_def)

lemma f_mul_finite: "f_finite a \<Longrightarrow> f_finite b \<Longrightarrow> f_finite (f_mul a b)"
  by (cases a; cases b) (simp_all add: f_finite_def)

lemma f_round_finite: "f_finite (f_round a) \<longleftrightarrow> f_finite a"
  by (cases a) (simp_all add: f_finite_def)

lemma f_add_commute: "f_add a b = f_add b a"
  by (cases a; cases b) (simp_all add: add.commute)

lemma f_add_left_commute: "f_add a (f_add b c) = f_add b (f_add a c)"
  by (cases a; cases b; cases c) (simp_all add: add.left_commute)

end
