(* ===== verification/Policy.thy ===== *)
theory Policy
  imports Go_Strings Go_Float "HOL-Library.Multiset"
begin

text \<open>
  The review policy (\<open>internal/replay/policy\<close>): the judge interface, the open default that judges
  nothing (\<open>judge.go\<close>, \<open>provide_off.go\<close>), the mapping of a judge's version onto the database column
  (\<open>version.go\<close>) and the flag-scoring rule set of the \<open>anticheat\<close> build (\<open>review_anticheat.go\<close>).

  \<open>strconv.ParseFloat\<close> is an argument; like the original it may return an infinity or
  not-a-number. The locale \<open>judge_contract\<close> states what the decision path relies on; both judges of the
  program are interpretations of it.
\<close>

section \<open>The judge interface\<close>

record Flag =
  fl_Code :: string
  fl_Score :: float64
  fl_Detail :: string

record RunMeta =
  rm_DurationSec :: float64
  rm_ScoreVersion :: int

record judgement =
  j_Suspicion :: float64
  j_NeedsReview :: bool
  j_Reasons :: "string list"
  j_Threshold :: float64
  j_UnknownFlags :: "string list"

record Judge =
  jd_Judge :: "Flag list \<Rightarrow> RunMeta \<Rightarrow> judgement"
  jd_Version :: string

definition VersionNone :: string where "VersionNone = ''none''"
definition ColumnNone :: int where "ColumnNone = 0"

definition empty_judgement :: judgement where
  "empty_judgement =
     \<lparr>j_Suspicion = f_zero, j_NeedsReview = False, j_Reasons = [], j_Threshold = f_zero, j_UnknownFlags = []\<rparr>"

definition Noop :: Judge where
  "Noop = \<lparr>jd_Judge = (\<lambda>flags meta. empty_judgement), jd_Version = VersionNone\<rparr>"

definition IsNoop :: "Judge option \<Rightarrow> bool" where
  "IsNoop j = (case j of None \<Rightarrow> True | Some j \<Rightarrow> jd_Version j = VersionNone)"

datatype version_error = EmptyVersion | NotDecimal string | VersionRange string

definition ParseVersion :: "string \<Rightarrow> (version_error, int) result" where
  "ParseVersion v =
     (if v = VersionNone then Inr ColumnNone
      else if v = [] then Inl EmptyVersion
      else case Atoi v of
        None \<Rightarrow> Inl (NotDecimal v)
      | Some n \<Rightarrow> if n \<le> 0 \<or> n > 32767 then Inl (VersionRange v) else Inr n)"

section \<open>The review policy\<close>

definition FlagMultiGraphemeInsert :: string where "FlagMultiGraphemeInsert = ''multi-grapheme-insert''"
definition FlagPaste :: string where "FlagPaste = ''paste''"
definition FlagMinInterval :: string where "FlagMinInterval = ''min-interval''"
definition FlagUniformIntervals :: string where "FlagUniformIntervals = ''uniform-intervals''"
definition FlagZeroVariance :: string where "FlagZeroVariance = ''zero-variance''"
definition FlagSuperhumanBurst :: string where "FlagSuperhumanBurst = ''superhuman-burst''"
definition FlagAfkHeavy :: string where "FlagAfkHeavy = ''afk-heavy''"
definition FlagTrailingAfk :: string where "FlagTrailingAfk = ''trailing-afk''"
definition FlagUnpairedKeyup :: string where "FlagUnpairedKeyup = ''unpaired-keyup''"
definition FlagCanaryGrapheme :: string where "FlagCanaryGrapheme = ''canary-grapheme''"
definition FlagCanaryCommit :: string where "FlagCanaryCommit = ''canary-commit''"

lemmas flag_codes =
  FlagMultiGraphemeInsert_def FlagPaste_def FlagMinInterval_def FlagUniformIntervals_def
  FlagZeroVariance_def FlagSuperhumanBurst_def FlagAfkHeavy_def FlagTrailingAfk_def
  FlagUnpairedKeyup_def FlagCanaryGrapheme_def FlagCanaryCommit_def

definition TelemetryOnlyFlags :: "string list" where
  "TelemetryOnlyFlags = [FlagUnpairedKeyup]"

definition defaultFlagWeights :: "string \<rightharpoonup> float64" where
  "defaultFlagWeights = map_of
     [(FlagZeroVariance, Fin 1), (FlagCanaryGrapheme, Fin 1), (FlagUniformIntervals, Fin (9 / 10)),
      (FlagSuperhumanBurst, Fin (8 / 10)), (FlagPaste, Fin (8 / 10)), (FlagCanaryCommit, Fin (6 / 10)),
      (FlagMultiGraphemeInsert, Fin (5 / 10)), (FlagMinInterval, Fin (3 / 10)),
      (FlagAfkHeavy, Fin (2 / 100)), (FlagTrailingAfk, Fin (2 / 100)), (FlagUnpairedKeyup, Fin 0)]"

definition currentVersion :: int where "currentVersion = 4"
definition defaultReviewThreshold :: float64 where "defaultReviewThreshold = Fin 1"
definition defaultSustainedBurstSec :: float64 where "defaultSustainedBurstSec = Fin 10"

definition ruleBotCadence :: string where "ruleBotCadence = ''bot_cadence''"
definition ruleSustainedSuperhuman :: string where "ruleSustainedSuperhuman = ''sustained_superhuman''"

record reviewPolicy =
  rp_version :: int
  rp_weights :: "string \<rightharpoonup> float64"
  rp_reviewThreshold :: float64
  rp_sustainedBurstSec :: float64

definition forcesReview :: "string \<Rightarrow> bool" where
  "forcesReview rule \<longleftrightarrow> rule = ruleBotCadence"

text \<open>A Go map read of an absent key is zero.\<close>

definition weight_of :: "reviewPolicy \<Rightarrow> string \<Rightarrow> float64" where
  "weight_of p code = (case rp_weights p code of None \<Rightarrow> f_zero | Some w \<Rightarrow> w)"

definition suspicion :: "reviewPolicy \<Rightarrow> Flag list \<Rightarrow> float64" where
  "suspicion p flags =
     fold (\<lambda>f total. f_add total (f_mul (weight_of p (fl_Code f)) (fl_Score f))) flags f_zero"

definition unknownFlagCodes :: "reviewPolicy \<Rightarrow> Flag list \<Rightarrow> string list" where
  "unknownFlagCodes p flags =
     Compact (sort_Strings (map fl_Code (filter (\<lambda>f. rp_weights p (fl_Code f) = None) flags)))"

definition present :: "Flag list \<Rightarrow> string \<Rightarrow> bool" where
  "present flags code = list_ex (\<lambda>f. fl_Code f = code) flags"

definition combinations :: "reviewPolicy \<Rightarrow> Flag list \<Rightarrow> RunMeta \<Rightarrow> string list" where
  "combinations p flags meta =
     (if present flags FlagUniformIntervals \<and> present flags FlagZeroVariance
      then [ruleBotCadence] else []) @
     (if present flags FlagSuperhumanBurst \<and> f_le (rp_sustainedBurstSec p) (rm_DurationSec meta)
      then [ruleSustainedSuperhuman] else [])"

definition review_Judge :: "reviewPolicy \<Rightarrow> Flag list \<Rightarrow> RunMeta \<Rightarrow> judgement" where
  "review_Judge p flags meta =
     (let sus = suspicion p flags;
          reasons = combinations p flags meta;
          forced = list_ex forcesReview reasons
      in \<lparr>j_Suspicion = sus, j_NeedsReview = (forced \<or> f_le (rp_reviewThreshold p) sus),
          j_Reasons = reasons, j_Threshold = rp_reviewThreshold p,
          j_UnknownFlags = unknownFlagCodes p flags\<rparr>)"

definition review_judge :: "reviewPolicy \<Rightarrow> Judge" where
  "review_judge p = \<lparr>jd_Judge = review_Judge p, jd_Version = Itoa (rp_version p)\<rparr>"

section \<open>Configuration\<close>

record Config =
  c_FlagWeights :: string
  c_ReviewThreshold :: float64
  c_SustainedBurstSec :: float64

datatype policy_error =
  NotCodeWeight string | UnknownFlagCode string | BadWeight string | NegativeWeight string | NoPolicy

definition IsZero :: "Config \<Rightarrow> bool" where
  "IsZero c \<longleftrightarrow> c_FlagWeights c = [] \<and> c_ReviewThreshold c = f_zero \<and> c_SustainedBurstSec c = f_zero"

text \<open>The build without a policy: the open judge, with a warning when a knob is set.\<close>

definition Provide_off :: "Config \<Rightarrow> Judge \<times> policy_error option" where
  "Provide_off cfg = (if \<not> IsZero cfg then (Noop, Some NoPolicy) else (Noop, None))"

text \<open>\<open>strings.Cut\<close> at the first separator.\<close>

definition Cut :: "string \<Rightarrow> char \<Rightarrow> (string \<times> string) option" where
  "Cut s c =
     (if c \<in> set s then Some (takeWhile (\<lambda>x. x \<noteq> c) s, tl (dropWhile (\<lambda>x. x \<noteq> c) s)) else None)"

definition override_weight ::
  "(string \<Rightarrow> float64 option) \<Rightarrow> string \<Rightarrow> reviewPolicy \<Rightarrow> (policy_error, reviewPolicy) result" where
  "override_weight ParseFloat part0 p =
     (let part = TrimSpace part0 in
      if part = [] then Inr p
      else case Cut part (CHR ''='') of
        None \<Rightarrow> Inl (NotCodeWeight part)
      | Some (code0, raw) \<Rightarrow>
          let code = TrimSpace code0 in
          if rp_weights p code = None then Inl (UnknownFlagCode code)
          else case ParseFloat (TrimSpace raw) of
            None \<Rightarrow> Inl (BadWeight code)
          | Some w \<Rightarrow>
              if f_lt w f_zero then Inl (NegativeWeight code)
              else Inr (p\<lparr>rp_weights := (rp_weights p)(code \<mapsto> w)\<rparr>))"

fun override_weights ::
  "(string \<Rightarrow> float64 option) \<Rightarrow> string list \<Rightarrow> reviewPolicy \<Rightarrow> (policy_error, reviewPolicy) result" where
  "override_weights ParseFloat [] p = Inr p"
| "override_weights ParseFloat (part # parts) p =
     (case override_weight ParseFloat part p of
        Inl e \<Rightarrow> Inl e
      | Inr q \<Rightarrow> override_weights ParseFloat parts q)"

definition applyWeightOverrides ::
  "(string \<Rightarrow> float64 option) \<Rightarrow> string \<Rightarrow> reviewPolicy \<Rightarrow> (policy_error, reviewPolicy) result" where
  "applyWeightOverrides ParseFloat spec p = override_weights ParseFloat (split_on (CHR '','') spec) p"

definition default_policy :: reviewPolicy where
  "default_policy =
     \<lparr>rp_version = currentVersion, rp_weights = defaultFlagWeights,
      rp_reviewThreshold = defaultReviewThreshold, rp_sustainedBurstSec = defaultSustainedBurstSec\<rparr>"

definition Provide ::
  "(string \<Rightarrow> float64 option) \<Rightarrow> Config \<Rightarrow> (policy_error, reviewPolicy) result" where
  "Provide ParseFloat cfg =
     (let p1 = (if f_lt f_zero (c_ReviewThreshold cfg)
                then default_policy\<lparr>rp_reviewThreshold := c_ReviewThreshold cfg\<rparr> else default_policy);
          p2 = (if f_lt f_zero (c_SustainedBurstSec cfg)
                then p1\<lparr>rp_sustainedBurstSec := c_SustainedBurstSec cfg\<rparr> else p1)
      in applyWeightOverrides ParseFloat (c_FlagWeights cfg) p2)"

section \<open>The contract of a judge\<close>

text \<open>
  What the decision path relies on: the version can be stored, and a judge that stores as "none"
  sends nothing to review.
\<close>

locale judge_contract =
  fixes J :: Judge
  assumes storable: "\<exists>n. ParseVersion (jd_Version J) = Inr n \<and> 0 \<le> n \<and> n \<le> 32767"
    and silent: "ParseVersion (jd_Version J) = Inr ColumnNone \<Longrightarrow> \<not> j_NeedsReview (jd_Judge J flags meta)"

lemma Itoa_not_none: "Itoa n \<noteq> VersionNone"
proof
  assume "Itoa n = VersionNone"
  then have "CHR ''n'' \<in> set (Itoa n)" by (simp add: VersionNone_def)
  then have "is_digit (CHR ''n'')"
    using nat_digits_all [of "nat n"] nat_digits_all [of "nat (- n)"]
    by (auto simp: Itoa_def list_all_iff split: if_splits)
  then show False by (simp add: is_digit_def byte_def)
qed

lemma ParseVersion_Itoa:
  assumes "0 < n" and "n \<le> 32767"
  shows "ParseVersion (Itoa n) = Inr n"
  using assms by (auto simp: ParseVersion_def Itoa_not_none Atoi_Itoa in_int64_def) (simp add: Itoa_def)

interpretation noop: judge_contract Noop
  by unfold_locales (auto simp: Noop_def ParseVersion_def ColumnNone_def empty_judgement_def)

lemma review_contract:
  assumes "rp_version p = currentVersion"
  shows "judge_contract (review_judge p)"
  by unfold_locales
    (use assms in \<open>auto simp: review_judge_def ParseVersion_Itoa currentVersion_def ColumnNone_def\<close>)

interpretation review: judge_contract "review_judge default_policy"
  by (rule review_contract) (simp add: default_policy_def)

section \<open>Suspicion\<close>

lemma suspicion_mset:
  assumes "mset flags = mset flags'"
  shows "suspicion p flags = suspicion p flags'"
  unfolding suspicion_def
  by (rule fold_permuted_eq [where P = "\<lambda>_. True", OF assms])
    (simp_all add: f_add_commute [of _ "f_mul _ _"] f_add_left_commute)

lemma insert_string_commute: "insert_string s (insert_string t us) = insert_string t (insert_string s us)"
proof (induction us)
  case Nil
  then show ?case using bytes_le_antisym [of s t] bytes_le_total [of s t] by auto
next
  case (Cons u us)
  show ?case
    using Cons bytes_le_antisym [of s t] bytes_le_total [of s t] bytes_le_trans [of s t u]
      bytes_le_trans [of t s u] by auto
qed

lemma sort_Strings_mset:
  assumes "mset ss = mset ts"
  shows "sort_Strings ss = sort_Strings ts"
  unfolding sort_Strings_def foldr_conv_fold
  by (rule fold_permuted_eq [where P = "\<lambda>_. True"]) (use assms insert_string_commute in auto)

lemma present_mset: "mset flags = mset flags' \<Longrightarrow> present flags code = present flags' code"
  by (metis list_ex_iff mset_eq_setD present_def)

text \<open>
  A judgement does not depend on the order in which the core reports its flags: two runs that
  raise the same flags with the same severities get the same suspicion, the same rules, the same
  routing and the same list of unknown codes.
\<close>

theorem judgement_order_independent:
  assumes "mset flags = mset flags'"
  shows "review_Judge p flags meta = review_Judge p flags' meta"
proof -
  have "mset (map fl_Code (filter P flags)) = mset (map fl_Code (filter P flags'))" for P
    using assms by simp
  then have "unknownFlagCodes p flags = unknownFlagCodes p flags'"
    unfolding unknownFlagCodes_def by (metis sort_Strings_mset)
  then show ?thesis
    by (simp add: review_Judge_def Let_def suspicion_mset [OF assms] combinations_def
        present_mset [OF assms])
qed

definition demo_flag :: "string \<Rightarrow> rat \<Rightarrow> Flag" where
  "demo_flag code sc = \<lparr>fl_Code = code, fl_Score = Fin sc, fl_Detail = []\<rparr>"

definition demo_meta :: RunMeta where
  "demo_meta = \<lparr>rm_DurationSec = Fin 15, rm_ScoreVersion = 3\<rparr>"

theorem judgement_order_independent_witness:
  "review_Judge default_policy [demo_flag FlagPaste 1, demo_flag ''new'' 1] demo_meta =
   review_Judge default_policy [demo_flag ''new'' 1, demo_flag FlagPaste 1] demo_meta"
  by (rule judgement_order_independent) (simp add: add_mset_commute)

section \<open>What the default weights can and cannot do\<close>

lemma suspicion_Nil: "suspicion p [] = f_zero"
  by (simp add: suspicion_def)

lemma suspicion_snoc:
  "suspicion p (flags @ [f]) = f_add (suspicion p flags) (f_mul (weight_of p (fl_Code f)) (fl_Score f))"
  by (simp add: suspicion_def)

text \<open>The suspicion of finitely weighted flags is the weighted sum of their severities.\<close>

fun fin_of :: "float64 \<Rightarrow> rat" where
  "fin_of (Fin q) = q"
| "fin_of _ = 0"

lemma suspicion_sum:
  assumes "\<forall>f \<in> set flags. f_finite (fl_Score f)" and "\<forall>c. f_finite (weight_of p c)"
  shows "suspicion p flags = Fin (\<Sum>f \<leftarrow> flags. fin_of (weight_of p (fl_Code f)) * fin_of (fl_Score f))"
  using assms
proof (induction flags rule: rev_induct)
  case Nil
  then show ?case by (simp add: suspicion_Nil f_zero_def)
next
  case (snoc f flags)
  obtain w v where "weight_of p (fl_Code f) = Fin w" "fl_Score f = Fin v"
    using snoc.prems by (metis f_finite_iff in_set_conv_decomp)
  then show ?case using snoc by (simp add: suspicion_snoc)
qed

lemma weight_of_default:
  "weight_of default_policy c =
     (if c = FlagZeroVariance then Fin 1 else if c = FlagCanaryGrapheme then Fin 1
      else if c = FlagUniformIntervals then Fin (9 / 10) else if c = FlagSuperhumanBurst then Fin (8 / 10)
      else if c = FlagPaste then Fin (8 / 10) else if c = FlagCanaryCommit then Fin (6 / 10)
      else if c = FlagMultiGraphemeInsert then Fin (5 / 10) else if c = FlagMinInterval then Fin (3 / 10)
      else if c = FlagAfkHeavy then Fin (2 / 100) else if c = FlagTrailingAfk then Fin (2 / 100)
      else Fin 0)"
  by (simp add: weight_of_def default_policy_def defaultFlagWeights_def f_zero_def)

lemma default_weights_finite: "f_finite (weight_of default_policy c)"
  by (simp add: weight_of_default f_finite_def)

lemma default_weight_le:
  "c \<notin> {FlagZeroVariance, FlagCanaryGrapheme} \<Longrightarrow> fin_of (weight_of default_policy c) \<le> 9 / 10"
  "0 \<le> fin_of (weight_of default_policy c)"
  by (simp_all add: weight_of_default)

lemma sum_list_filter_zero:
  fixes g :: "'a \<Rightarrow> rat"
  assumes "\<And>x. \<not> P x \<Longrightarrow> g x = 0"
  shows "(\<Sum>x \<leftarrow> filter P xs. g x) = (\<Sum>x \<leftarrow> xs. g x)"
  using assms by (induction xs) auto

text \<open>
  Keyboard telemetry is recorded and never scored: dropping every telemetry-only flag from a
  report changes neither the suspicion of the default policy, nor the rules that fire, nor whether
  the run is routed to review.
\<close>

theorem telemetry_never_scores:
  assumes "\<forall>f \<in> set flags. f_finite (fl_Score f)"
  shows "let scored = filter (\<lambda>f. fl_Code f \<notin> set TelemetryOnlyFlags) flags;
             a = review_Judge default_policy flags meta; b = review_Judge default_policy scored meta
         in j_Suspicion a = j_Suspicion b \<and> j_Reasons a = j_Reasons b \<and> j_NeedsReview a = j_NeedsReview b"
proof -
  let ?scored = "filter (\<lambda>f. fl_Code f \<notin> set TelemetryOnlyFlags) flags"
  have "weight_of default_policy FlagUnpairedKeyup = Fin 0"
    by (simp add: weight_of_default flag_codes)
  then have "suspicion default_policy ?scored = suspicion default_policy flags"
    using assms default_weights_finite
    by (simp add: suspicion_sum TelemetryOnlyFlags_def) (rule sum_list_filter_zero, simp)
  moreover have "present ?scored c = present flags c" if "c \<noteq> FlagUnpairedKeyup" for c
    using that by (auto simp: present_def list_ex_iff TelemetryOnlyFlags_def)
  then have "combinations default_policy ?scored meta = combinations default_policy flags meta"
    by (simp add: combinations_def flag_codes)
  ultimately show ?thesis by (simp add: review_Judge_def Let_def)
qed

theorem telemetry_never_scores_witness:
  "let flags = [demo_flag FlagUnpairedKeyup 1, demo_flag FlagPaste 1];
       scored = filter (\<lambda>f. fl_Code f \<notin> set TelemetryOnlyFlags) flags;
       a = review_Judge default_policy flags demo_meta; b = review_Judge default_policy scored demo_meta
   in j_Suspicion a = j_Suspicion b \<and> j_Reasons a = j_Reasons b \<and> j_NeedsReview a = j_NeedsReview b"
  using telemetry_never_scores [of "[demo_flag FlagUnpairedKeyup 1, demo_flag FlagPaste 1]" demo_meta]
  by (simp add: demo_flag_def f_finite_def)

text \<open>
  No single flag other than the two the policy treats as proof (zero variance, an invisible
  grapheme in the log) sends a run to review by itself, however severe: under the default weights a
  run that raises exactly one such flag, with a severity between 0 and 1, is not routed.
\<close>

theorem single_flag_not_reviewed:
  assumes "fl_Score f = Fin sev" and "0 \<le> sev" and "sev \<le> 1"
    and "fl_Code f \<notin> {FlagZeroVariance, FlagCanaryGrapheme}"
  shows "\<not> j_NeedsReview (review_Judge default_policy [f] meta)"
proof -
  let ?w = "fin_of (weight_of default_policy (fl_Code f))"
  have "suspicion default_policy [f] = Fin (?w * sev)"
    using assms(1) default_weights_finite by (simp add: suspicion_sum f_finite_def)
  moreover have "?w * sev \<le> 9 / 10 * 1"
    using assms default_weight_le by (intro mult_mono) auto
  moreover have "\<not> list_ex forcesReview (combinations default_policy [f] meta)"
    using assms(4)
    by (auto simp: combinations_def present_def forcesReview_def ruleBotCadence_def
        ruleSustainedSuperhuman_def)
  ultimately show ?thesis
    by (simp add: review_Judge_def Let_def default_policy_def defaultReviewThreshold_def)
qed

theorem single_flag_not_reviewed_witness:
  "\<not> j_NeedsReview (review_Judge default_policy [demo_flag FlagPaste 1] demo_meta)"
  by (rule single_flag_not_reviewed [of _ 1]) (simp_all add: demo_flag_def flag_codes)

text \<open>
  The weight override accepts not-a-number: \<open>paste=NaN\<close> parses, is not negative, and replaces the
  weight. From then on no run that raises \<open>paste\<close> reaches the threshold, whatever else it raises,
  because every comparison with the resulting suspicion is false; only the bot-cadence shape is
  still routed.
\<close>

theorem nan_weight_disables_review:
  assumes "ParseFloat ''NaN'' = Some NaN"
  shows "\<exists>p. Provide ParseFloat \<lparr>c_FlagWeights = ''paste=NaN'', c_ReviewThreshold = f_zero,
               c_SustainedBurstSec = f_zero\<rparr> = Inr p \<and>
    (\<forall>flags meta. present flags FlagPaste \<longrightarrow>
       j_NeedsReview (review_Judge p flags meta) =
         (present flags FlagUniformIntervals \<and> present flags FlagZeroVariance))"
proof -
  let ?p = "default_policy\<lparr>rp_weights := defaultFlagWeights(FlagPaste \<mapsto> NaN)\<rparr>"
  have trim: "TrimSpace ''paste=NaN'' = ''paste=NaN''" "TrimSpace ''paste'' = ''paste''"
    "TrimSpace ''NaN'' = ''NaN''"
    by (simp_all add: TrimSpace_ascii ascii_def byte_def IsSpace_def)
  have "override_weight ParseFloat ''paste=NaN'' default_policy = Inr ?p"
    using assms
    by (simp add: override_weight_def trim Cut_def Let_def f_lt_def default_policy_def
        defaultFlagWeights_def flag_codes)
  then have "Provide ParseFloat \<lparr>c_FlagWeights = ''paste=NaN'', c_ReviewThreshold = f_zero,
               c_SustainedBurstSec = f_zero\<rparr> = Inr ?p"
    by (simp add: Provide_def applyWeightOverrides_def f_lt_def f_zero_def)
  moreover have "suspicion ?p flags = NaN" if "present flags FlagPaste" for flags
    using that
  proof (induction flags rule: rev_induct)
    case (snoc f flags)
    then show ?case
      by (cases "fl_Code f = FlagPaste")
        (auto simp: suspicion_snoc present_def weight_of_def)
  qed (simp add: present_def)
  moreover have "list_ex forcesReview (combinations ?p flags meta) \<longleftrightarrow>
      present flags FlagUniformIntervals \<and> present flags FlagZeroVariance" for flags meta
    by (simp add: combinations_def forcesReview_def ruleBotCadence_def ruleSustainedSuperhuman_def)
  ultimately show ?thesis by (auto simp: review_Judge_def Let_def)
qed

theorem nan_weight_disables_review_witness:
  "\<exists>p. Provide (\<lambda>s. if s = ''NaN'' then Some NaN else None)
          \<lparr>c_FlagWeights = ''paste=NaN'', c_ReviewThreshold = f_zero, c_SustainedBurstSec = f_zero\<rparr> = Inr p \<and>
    (\<forall>flags meta. present flags FlagPaste \<longrightarrow>
       j_NeedsReview (review_Judge p flags meta) =
         (present flags FlagUniformIntervals \<and> present flags FlagZeroVariance))"
  by (rule nan_weight_disables_review) simp

end
