(* ===== verification/Decide.thy ===== *)
theory Decide
  imports Policy Board_Key
begin

text \<open>
  How a replayed run becomes a verdict (\<open>internal/replay/decide.go\<close>) and how a stored run is replayed
  (\<open>Judge\<close>, \<open>quoteRefOf\<close>, \<open>resolveQuote\<close> and \<open>CanariesArmedAt\<close> of \<open>worker.go\<close>).

  The JavaScript core, gzip and the two registries are arguments. JSON documents are the values
  they decode to. Numbers out of JSON are finite and therefore rationals; what the policy computes
  with them may not be finite, and \<open>encoding/json\<close> refuses to marshal such a number, which
  \<open>withValidation\<close> answers with a fallback document.
\<close>

section \<open>Runs, results and decisions\<close>

datatype run_status = Pending | Accepted | Flagged | Rejected

record CharObservation =
  co_Char :: string
  co_Presses :: int
  co_Errors :: int
  co_IntervalSumMs :: rat
  co_IntervalCount :: int

record client_metrics =
  cm_WPM :: "rat option"
  cm_Raw :: "rat option"
  cm_Acc :: "rat option"

record server_metrics =
  sm_WPM :: rat
  sm_Raw :: rat
  sm_Accuracy :: rat

text \<open>
  The server's metrics document: its bytes, what they decode to for the comparison, and what they
  decode to for the duration, two separate reads of the source.
\<close>

record metrics_raw =
  mx_bytes :: string
  mx_doc :: "server_metrics option"
  mx_duration :: "rat option"

record text_source_ref =
  tr_Kind :: string
  tr_QuoteID :: string
  tr_QuoteHash :: string

record PendingRun =
  pr_DictHash :: string
  pr_ScoreVersion :: int
  pr_Seed :: int
  pr_Setup :: "text_source_ref option raw"
  pr_ClientMetrics :: "client_metrics raw"
  pr_ClientScore :: "rat option raw"
  pr_Log :: string
  pr_Attempts :: int
  pr_CreatedAt :: int

record Result =
  rs_Verdict :: string
  rs_Reason :: string
  rs_Flags :: "Flag list"
  rs_Metrics :: metrics_raw
  rs_Score :: "rat raw"
  rs_CharObservations :: "CharObservation list"

datatype replay_error =
  ErrUnknownDict
| ErrUnknownQuote string
| ErrReplayTimeout string
| OtherError string

fun error_text :: "replay_error \<Rightarrow> string" where
  "error_text ErrUnknownDict = ''replay: unknown dict_hash''"
| "error_text (ErrUnknownQuote m) = m"
| "error_text (ErrReplayTimeout m) = m"
| "error_text (OtherError m) = m"

record divergence =
  dv_Field :: string
  dv_Client :: "rat option"
  dv_Server :: rat

record policyDoc =
  pd_Version :: int
  pd_Suspicion :: float64
  pd_Threshold :: float64
  pd_Rules :: "string list"
  pd_UnknownFlags :: "string list"

record validationDoc =
  vd_Verdict :: string
  vd_Reason :: string
  vd_Flags :: "Flag list"
  vd_Policy :: "policyDoc option"
  vd_Divergence :: "divergence option"

record Decision =
  d_Status :: run_status
  d_ServerMetrics :: "metrics_raw option"
  d_ServerScore :: "rat raw option"
  d_Validation :: validationDoc
  d_BundleSHA :: string
  d_PolicyVersion :: int
  d_Attempts :: int
  d_LastError :: string
  d_CharObservations :: "CharObservation list option"

definition verdictValid :: string where "verdictValid = ''valid''"
definition verdictInvalid :: string where "verdictInvalid = ''invalid''"
definition verdictError :: string where "verdictError = ''error''"

definition ReasonUnknownDict :: string where "ReasonUnknownDict = ''unknown_dict''"
definition ReasonUnknownQuote :: string where "ReasonUnknownQuote = ''unknown_quote''"
definition ReasonReplayTimeout :: string where "ReasonReplayTimeout = ''replay_timeout''"
definition ReasonReplayError :: string where "ReasonReplayError = ''replay_error''"
definition ReasonScoreMismatch :: string where "ReasonScoreMismatch = ''score_mismatch''"
definition ReasonMetricMismatch :: string where "ReasonMetricMismatch = ''metric_mismatch''"
definition ReasonSuspicionThreshold :: string where "ReasonSuspicionThreshold = ''suspicion_threshold''"
definition ReasonBotPattern :: string where "ReasonBotPattern = ''bot_pattern''"

lemmas reason_codes =
  ReasonUnknownDict_def ReasonUnknownQuote_def ReasonReplayTimeout_def ReasonReplayError_def
  ReasonScoreMismatch_def ReasonMetricMismatch_def ReasonSuspicionThreshold_def ReasonBotPattern_def

definition metricTolerance :: rat where "metricTolerance = 1 / 10 ^ 9"

section \<open>The decider\<close>

record Decider =
  dc_judge :: Judge
  dc_version :: int
  dc_rejudging :: bool

definition NewDecider :: "Judge option \<Rightarrow> (version_error, Decider) result" where
  "NewDecider j =
     (let judge = (case j of None \<Rightarrow> Noop | Some j \<Rightarrow> j) in
      case ParseVersion (jd_Version judge) of
        Inl e \<Rightarrow> Inl e
      | Inr v \<Rightarrow> Inr \<lparr>dc_judge = judge, dc_version = v, dc_rejudging = False\<rparr>)"

definition ForRejudgement :: "Decider \<Rightarrow> Decider" where
  "ForRejudgement p = p\<lparr>dc_rejudging := True\<rparr>"

text \<open>\<open>json.Marshal\<close> of the document: it fails on a number that is not finite.\<close>

definition marshals :: "validationDoc \<Rightarrow> bool" where
  "marshals doc \<longleftrightarrow>
     list_all (\<lambda>f. f_finite (fl_Score f)) (vd_Flags doc) \<and>
     (case vd_Policy doc of
        None \<Rightarrow> True
      | Some p \<Rightarrow> f_finite (pd_Suspicion p) \<and> f_finite (pd_Threshold p))"

definition fallbackDoc :: validationDoc where
  "fallbackDoc =
     \<lparr>vd_Verdict = verdictError, vd_Reason = ReasonReplayError, vd_Flags = [], vd_Policy = None,
      vd_Divergence = None\<rparr>"

definition withValidation :: "Decision \<Rightarrow> run_status \<Rightarrow> validationDoc \<Rightarrow> string \<Rightarrow> Decision" where
  "withValidation d status doc lastError =
     d\<lparr>d_Status := status, d_Validation := (if marshals doc then doc else fallbackDoc),
       d_LastError := lastError\<rparr>"

definition compareScore :: "rat option raw \<Rightarrow> rat raw \<Rightarrow> (string, divergence option) result" where
  "compareScore client server =
     (case raw_value server of
        None \<Rightarrow> Inl ''replay: decode server score''
      | Some s \<Rightarrow>
          (case raw_value client of
             None \<Rightarrow> Inl ''replay: decode client score''
           | Some c \<Rightarrow>
               if c = Some s then Inr None
               else Inr (Some \<lparr>dv_Field = ''total'', dv_Client = c, dv_Server = s\<rparr>)))"

definition metric_differs :: "rat option \<Rightarrow> rat \<Rightarrow> bool" where
  "metric_differs client server =
     (case client of None \<Rightarrow> True | Some c \<Rightarrow> \<bar>c - server\<bar> > metricTolerance)"

definition compareMetrics ::
  "client_metrics raw \<Rightarrow> metrics_raw \<Rightarrow> (string, divergence option) result" where
  "compareMetrics client server =
     (case mx_doc server of
        None \<Rightarrow> Inl ''replay: decode server metrics''
      | Some s \<Rightarrow>
          (case raw_value client of
             None \<Rightarrow> Inl ''replay: decode client metrics''
           | Some c \<Rightarrow>
               Inr (map_option (\<lambda>(field, client, server).
                      \<lparr>dv_Field = field, dv_Client = client, dv_Server = server\<rparr>)
                 (find_first (\<lambda>(field, client, server). metric_differs client server)
                    [(''wpm'', cm_WPM c, sm_WPM s), (''raw'', cm_Raw c, sm_Raw s),
                     (''acc'', cm_Acc c, sm_Accuracy s)]))))"

definition runSeconds :: "metrics_raw \<Rightarrow> float64" where
  "runSeconds metrics =
     (if mx_bytes metrics = [] then f_zero
      else case mx_duration metrics of None \<Rightarrow> f_zero | Some d \<Rightarrow> Fin d)"

definition roundSuspicion :: "float64 \<Rightarrow> float64" where
  "roundSuspicion v = f_mul (f_round (f_mul v (Fin (10 ^ 6)))) (Fin (1 / 10 ^ 6))"

definition plain_doc :: "string \<Rightarrow> string \<Rightarrow> validationDoc" where
  "plain_doc verdict reason =
     \<lparr>vd_Verdict = verdict, vd_Reason = reason, vd_Flags = [], vd_Policy = None, vd_Divergence = None\<rparr>"

definition base_decision :: "string \<Rightarrow> Decider \<Rightarrow> PendingRun \<Rightarrow> Decision" where
  "base_decision bundleSHA p run =
     \<lparr>d_Status = Pending, d_ServerMetrics = None, d_ServerScore = None,
      d_Validation = plain_doc [] [], d_BundleSHA = bundleSHA, d_PolicyVersion = dc_version p,
      d_Attempts = pr_Attempts run, d_LastError = [], d_CharObservations = None\<rparr>"

definition policy_block :: "Decider \<Rightarrow> judgement \<Rightarrow> policyDoc option" where
  "policy_block p verdict =
     (if dc_version p \<noteq> ColumnNone
      then Some \<lparr>pd_Version = dc_version p, pd_Suspicion = roundSuspicion (j_Suspicion verdict),
                 pd_Threshold = j_Threshold verdict, pd_Rules = j_Reasons verdict,
                 pd_UnknownFlags = j_UnknownFlags verdict\<rparr>
      else None)"

text \<open>
  The part of \<open>Decide\<close> that runs when the log replayed cleanly: the judge is consulted, the score and
  (except in a re-judgement) the metrics are compared, and the judge's routing comes last.
\<close>

definition decide_clean :: "Decider \<Rightarrow> PendingRun \<Rightarrow> Result \<Rightarrow> Decision \<Rightarrow> Decision" where
  "decide_clean p run res base0 =
     (let base = base0\<lparr>d_ServerMetrics := Some (rs_Metrics res), d_ServerScore := Some (rs_Score res),
                       d_CharObservations := Some (rs_CharObservations res)\<rparr>;
          verdict = jd_Judge (dc_judge p) (rs_Flags res)
                      \<lparr>rm_DurationSec = runSeconds (rs_Metrics res), rm_ScoreVersion = pr_ScoreVersion run\<rparr>;
          doc = \<lparr>vd_Verdict = verdictValid, vd_Reason = [], vd_Flags = rs_Flags res,
                 vd_Policy = policy_block p verdict, vd_Divergence = None\<rparr>;
          undecodable = (\<lambda>err.
            withValidation (base\<lparr>d_Attempts := to_int16 (pr_Attempts run + 1)\<rparr>) Flagged
              (doc\<lparr>vd_Verdict := verdictError, vd_Reason := ReasonReplayError\<rparr>) err);
          mismatch = (\<lambda>reason d.
            withValidation base Flagged (doc\<lparr>vd_Reason := reason, vd_Divergence := Some d\<rparr>) []);
          routed =
            (if j_NeedsReview verdict
             then withValidation base Flagged
                    (doc\<lparr>vd_Reason := (if j_Reasons verdict \<noteq> [] then ReasonBotPattern
                                        else ReasonSuspicionThreshold)\<rparr>) []
             else withValidation base Accepted doc [])
      in case compareScore (pr_ClientScore run) (rs_Score res) of
           Inl err \<Rightarrow> undecodable err
         | Inr (Some d) \<Rightarrow> mismatch ReasonScoreMismatch d
         | Inr None \<Rightarrow>
             if dc_rejudging p then routed
             else case compareMetrics (pr_ClientMetrics run) (rs_Metrics res) of
               Inl err \<Rightarrow> undecodable err
             | Inr (Some d) \<Rightarrow> mismatch ReasonMetricMismatch d
             | Inr None \<Rightarrow> routed)"

definition Decide ::
  "string \<Rightarrow> Decider \<Rightarrow> PendingRun \<Rightarrow> Result \<Rightarrow> replay_error option \<Rightarrow> Decision" where
  "Decide bundleSHA p run res replayErr =
     (let base = base_decision bundleSHA p run;
          failed = base\<lparr>d_Attempts := to_int16 (pr_Attempts run + 1)\<rparr>
      in case replayErr of
           Some ErrUnknownDict \<Rightarrow>
             withValidation base Flagged (plain_doc verdictError ReasonUnknownDict)
               (''dict_hash '' @ pr_DictHash run @ '' is not in the registry'')
         | Some (ErrUnknownQuote m) \<Rightarrow>
             withValidation base Flagged (plain_doc verdictError ReasonUnknownQuote) m
         | Some (ErrReplayTimeout m) \<Rightarrow>
             withValidation failed Flagged (plain_doc verdictError ReasonReplayTimeout) m
         | Some (OtherError m) \<Rightarrow>
             withValidation failed Flagged (plain_doc verdictError ReasonReplayError) m
         | None \<Rightarrow>
             if rs_Verdict res = verdictInvalid
             then withValidation base Rejected
                    ((plain_doc verdictInvalid (rs_Reason res))\<lparr>vd_Flags := rs_Flags res\<rparr>) []
             else decide_clean p run res base)"

section \<open>Replaying a stored run\<close>

text \<open>\<open>None\<close> is the zero instant: no epoch has been set.\<close>

definition CanariesArmedAt :: "int \<Rightarrow> int option \<Rightarrow> bool" where
  "CanariesArmedAt createdAt epoch = (case epoch of None \<Rightarrow> False | Some e \<Rightarrow> \<not> createdAt < e)"

record 'u quoteRef =
  qr_ID :: 'u
  qr_Hash :: string

definition quoteRefOf ::
  "'u uuid_lib \<Rightarrow> text_source_ref option raw \<Rightarrow> (replay_error, 'u quoteRef option) result" where
  "quoteRefOf L st =
     (case raw_value st of
        None \<Rightarrow> Inl (OtherError ''replay: setup.generation is unreadable'')
      | Some None \<Rightarrow> Inr None
      | Some (Some src) \<Rightarrow>
          if tr_Kind src \<noteq> TextSourceQuote then Inr None
          else case uuid_Parse L (tr_QuoteID src) of
            None \<Rightarrow> Inl (ErrUnknownQuote ''quoteId is not a uuid'')
          | Some u \<Rightarrow> Inr (Some \<lparr>qr_ID = u, qr_Hash = tr_QuoteHash src\<rparr>))"

text \<open>
  The quote resolver is absent, fails (\<open>Inl\<close>), knows no such quote (\<open>Inr None\<close>) or answers with a text and
  its hash.
\<close>

type_synonym 'u resolver = "('u \<Rightarrow> (string, (string \<times> string) option) result) option"

definition resolveQuote :: "'u resolver \<Rightarrow> 'u quoteRef \<Rightarrow> (replay_error, string \<times> string) result" where
  "resolveQuote quotes ref =
     (case quotes of
        None \<Rightarrow> Inl (ErrUnknownQuote ''this worker has no quote registry wired in'')
      | Some resolve \<Rightarrow>
          (case resolve (qr_ID ref) of
             Inl err \<Rightarrow> Inl (OtherError err)
           | Inr None \<Rightarrow> Inl (ErrUnknownQuote ''no such quote in the registry'')
           | Inr (Some (text, hash)) \<Rightarrow>
               if hash \<noteq> qr_Hash ref then Inl (ErrUnknownQuote ''the quote has another hash'')
               else Inr (text, hash)))"

record replay_input =
  in_Seed :: int
  in_DictHash :: string
  in_DictBody :: "string option"
  in_Quote :: "(string \<times> string) option"
  in_Setup :: "text_source_ref option raw"
  in_Log :: string
  in_ScoreVersion :: int
  in_CanariesArmed :: bool

definition text_of ::
  "'u uuid_lib \<Rightarrow> (string \<Rightarrow> string option) \<Rightarrow> 'u resolver \<Rightarrow> PendingRun
     \<Rightarrow> (replay_error, string option \<times> (string \<times> string) option) result" where
  "text_of L Body quotes run =
     (case quoteRefOf L (pr_Setup run) of
        Inl e \<Rightarrow> Inl e
      | Inr (Some ref) \<Rightarrow> (case resolveQuote quotes ref of Inl e \<Rightarrow> Inl e | Inr q \<Rightarrow> Inr (None, Some q))
      | Inr None \<Rightarrow> (case Body (pr_DictHash run) of None \<Rightarrow> Inl ErrUnknownDict | Some b \<Rightarrow> Inr (Some b, None)))"

definition noResult :: Result where
  "noResult = \<lparr>rs_Verdict = [], rs_Reason = [], rs_Flags = [], rs_Metrics = \<lparr>mx_bytes = [], mx_doc = None, mx_duration = None\<rparr>,
     rs_Score = \<lparr>raw_bytes = [], raw_value = None\<rparr>, rs_CharObservations = []\<rparr>"

definition judge_run ::
  "string \<Rightarrow> 'u uuid_lib \<Rightarrow> (replay_input \<Rightarrow> (replay_error, Result) result) \<Rightarrow> (string \<Rightarrow> string option)
     \<Rightarrow> (string \<Rightarrow> string option) \<Rightarrow> 'u resolver \<Rightarrow> Decider \<Rightarrow> PendingRun \<Rightarrow> int option \<Rightarrow> Decision" where
  "judge_run bundleSHA L Replay gunzip Body quotes decider run canaryEpoch =
     (case text_of L Body quotes run of
        Inl e \<Rightarrow> Decide bundleSHA decider run noResult (Some e)
      | Inr (body, quote) \<Rightarrow>
          (case gunzip (pr_Log run) of
             None \<Rightarrow> Decide bundleSHA decider run noResult (Some (OtherError ''replay: decompress log''))
           | Some lg \<Rightarrow>
               (case Replay
                       \<lparr>in_Seed = pr_Seed run, in_DictHash = pr_DictHash run, in_DictBody = body,
                        in_Quote = quote, in_Setup = pr_Setup run, in_Log = lg,
                        in_ScoreVersion = pr_ScoreVersion run,
                        in_CanariesArmed = CanariesArmedAt (pr_CreatedAt run) canaryEpoch\<rparr> of
                  Inl e \<Rightarrow> Decide bundleSHA decider run noResult (Some e)
                | Inr res \<Rightarrow> Decide bundleSHA decider run res None)))"

section \<open>What a decision says\<close>

lemma withValidation_simps [simp]:
  "d_Status (withValidation d st doc err) = st"
  "d_LastError (withValidation d st doc err) = err"
  "d_Attempts (withValidation d st doc err) = d_Attempts d"
  "d_PolicyVersion (withValidation d st doc err) = d_PolicyVersion d"
  "d_BundleSHA (withValidation d st doc err) = d_BundleSHA d"
  "d_ServerMetrics (withValidation d st doc err) = d_ServerMetrics d"
  "d_ServerScore (withValidation d st doc err) = d_ServerScore d"
  "d_CharObservations (withValidation d st doc err) = d_CharObservations d"
  "d_Validation (withValidation d st doc err) = (if marshals doc then doc else fallbackDoc)"
  by (simp_all add: withValidation_def)

lemma base_decision_simps [simp]:
  "d_Attempts (base_decision b p run) = pr_Attempts run"
  "d_PolicyVersion (base_decision b p run) = dc_version p"
  "d_BundleSHA (base_decision b p run) = b"
  by (simp_all add: base_decision_def)

definition verdict_of :: "Decider \<Rightarrow> PendingRun \<Rightarrow> Result \<Rightarrow> judgement" where
  "verdict_of p run res = jd_Judge (dc_judge p) (rs_Flags res)
     \<lparr>rm_DurationSec = runSeconds (rs_Metrics res), rm_ScoreVersion = pr_ScoreVersion run\<rparr>"

text \<open>The numbers agree: the totals exactly, the metrics within the tolerance unless re-judging.\<close>

definition numbers_agree :: "bool \<Rightarrow> PendingRun \<Rightarrow> Result \<Rightarrow> bool" where
  "numbers_agree rejudging run res \<longleftrightarrow>
     (\<exists>t. raw_value (rs_Score res) = Some t \<and> raw_value (pr_ClientScore run) = Some (Some t)) \<and>
     (rejudging \<or>
      (\<exists>s c w r a. mx_doc (rs_Metrics res) = Some s \<and> raw_value (pr_ClientMetrics run) = Some c \<and>
         cm_WPM c = Some w \<and> cm_Raw c = Some r \<and> cm_Acc c = Some a \<and>
         \<bar>w - sm_WPM s\<bar> \<le> metricTolerance \<and> \<bar>r - sm_Raw s\<bar> \<le> metricTolerance \<and>
         \<bar>a - sm_Accuracy s\<bar> \<le> metricTolerance))"

lemma compareScore_agree:
  "compareScore client server = Inr None \<longleftrightarrow>
     (\<exists>t. raw_value server = Some t \<and> raw_value client = Some (Some t))"
  by (auto simp: compareScore_def split: option.splits)

lemma compareMetrics_agree:
  "compareMetrics client server = Inr None \<longleftrightarrow>
     (\<exists>s c w r a. mx_doc server = Some s \<and> raw_value client = Some c \<and>
         cm_WPM c = Some w \<and> cm_Raw c = Some r \<and> cm_Acc c = Some a \<and>
         \<bar>w - sm_WPM s\<bar> \<le> metricTolerance \<and> \<bar>r - sm_Raw s\<bar> \<le> metricTolerance \<and>
         \<bar>a - sm_Accuracy s\<bar> \<le> metricTolerance)"
  by (auto simp: compareMetrics_def metric_differs_def not_less split: option.splits if_splits)

lemma decide_clean_status:
  "d_Status (decide_clean p run res base) =
     (if numbers_agree (dc_rejudging p) run res \<and> \<not> j_NeedsReview (verdict_of p run res)
      then Accepted else Flagged)"
proof -
  have agree: "numbers_agree (dc_rejudging p) run res \<longleftrightarrow>
      compareScore (pr_ClientScore run) (rs_Score res) = Inr None \<and>
      (dc_rejudging p \<or> compareMetrics (pr_ClientMetrics run) (rs_Metrics res) = Inr None)"
    by (simp add: numbers_agree_def compareScore_agree compareMetrics_agree)
  show ?thesis
    unfolding agree decide_clean_def Let_def verdict_of_def
    by (auto split: sum.splits option.splits)
qed

lemma Decide_status:
  "d_Status (Decide b p run res err) =
     (if err \<noteq> None then Flagged
      else if rs_Verdict res = verdictInvalid then Rejected
      else if numbers_agree (dc_rejudging p) run res \<and> \<not> j_NeedsReview (verdict_of p run res)
      then Accepted else Flagged)"
  by (auto simp: Decide_def Let_def decide_clean_status split: option.splits replay_error.splits)

text \<open>
  C8. A run is accepted exactly when the replay succeeded, the core did not call the log invalid, the
  client's total equals the server's, each of the client's three metrics is within \<open>10\<^sup>-\<^sup>9\<close> of the
  server's (a comparison a re-judgement skips), and the judge does not ask for review. It is
  rejected exactly when the core called the log invalid; everything else is flagged, and no
  decision leaves a run pending.
\<close>

theorem decide_status_table:
  "(d_Status (Decide b p run res err) = Accepted \<longleftrightarrow>
      err = None \<and> rs_Verdict res \<noteq> verdictInvalid \<and> numbers_agree (dc_rejudging p) run res \<and>
      \<not> j_NeedsReview (verdict_of p run res)) \<and>
   (d_Status (Decide b p run res err) = Rejected \<longleftrightarrow> err = None \<and> rs_Verdict res = verdictInvalid) \<and>
   d_Status (Decide b p run res err) \<noteq> Pending"
  by (simp add: Decide_status)

section \<open>What a judge can change\<close>

text \<open>The same decider with another judge in it.\<close>

definition rejudge_with :: "Judge \<Rightarrow> int \<Rightarrow> Decider \<Rightarrow> Decider" where
  "rejudge_with J v p = p\<lparr>dc_judge := J, dc_version := v\<rparr>"

lemma decide_clean_numbers:
  "d_Attempts (decide_clean p run res base) =
     (case compareScore (pr_ClientScore run) (rs_Score res) of
        Inl _ \<Rightarrow> to_int16 (pr_Attempts run + 1)
      | Inr (Some _) \<Rightarrow> d_Attempts base
      | Inr None \<Rightarrow>
          if dc_rejudging p then d_Attempts base
          else (case compareMetrics (pr_ClientMetrics run) (rs_Metrics res) of
                  Inl _ \<Rightarrow> to_int16 (pr_Attempts run + 1) | Inr _ \<Rightarrow> d_Attempts base))"
  "d_ServerMetrics (decide_clean p run res base) = Some (rs_Metrics res)"
  "d_ServerScore (decide_clean p run res base) = Some (rs_Score res)"
  "d_CharObservations (decide_clean p run res base) = Some (rs_CharObservations res)"
  by (auto simp: decide_clean_def Let_def split: sum.splits option.splits)

lemma decide_clean_error:
  "d_LastError (decide_clean p run res base) =
     (case compareScore (pr_ClientScore run) (rs_Score res) of
        Inl e \<Rightarrow> e
      | Inr (Some _) \<Rightarrow> []
      | Inr None \<Rightarrow>
          if dc_rejudging p then []
          else (case compareMetrics (pr_ClientMetrics run) (rs_Metrics res) of Inl e \<Rightarrow> e | Inr _ \<Rightarrow> []))"
  by (auto simp: decide_clean_def Let_def split: sum.splits option.splits)

lemma rejudge_with_simps [simp]:
  "dc_rejudging (rejudge_with J v p) = dc_rejudging p" "dc_judge (rejudge_with J v p) = J"
  "dc_version (rejudge_with J v p) = v"
  by (simp_all add: rejudge_with_def)

text \<open>
  A judge can only take a run the hard rules would accept and flag it. Compare any decider with
  the same decider under the open judge: either both decide the same status, or the open one accepts
  and this judge asked for review. The attempt count, the recorded error and the stored server
  numbers are the same in both, whatever the judge is.
\<close>

theorem judge_only_demotes:
  "let d = Decide b p run res err; d0 = Decide b (rejudge_with Noop ColumnNone p) run res err in
     (d_Status d = d_Status d0 \<or>
      d_Status d0 = Accepted \<and> d_Status d = Flagged \<and> j_NeedsReview (verdict_of p run res)) \<and>
     d_Attempts d = d_Attempts d0 \<and> d_LastError d = d_LastError d0 \<and>
     d_ServerMetrics d = d_ServerMetrics d0 \<and> d_ServerScore d = d_ServerScore d0 \<and>
     d_CharObservations d = d_CharObservations d0"
proof -
  have base: "d_Attempts (base_decision b (rejudge_with Noop ColumnNone p) run) = d_Attempts (base_decision b p run)"
    "d_ServerMetrics (base_decision b q run) = None" "d_ServerScore (base_decision b q run) = None"
    "d_CharObservations (base_decision b q run) = None" for q
    by (simp_all add: base_decision_def)
  have "d_Attempts (Decide b p run res err) = d_Attempts (Decide b (rejudge_with Noop ColumnNone p) run res err)"
    "d_LastError (Decide b p run res err) = d_LastError (Decide b (rejudge_with Noop ColumnNone p) run res err)"
    "d_ServerMetrics (Decide b p run res err) = d_ServerMetrics (Decide b (rejudge_with Noop ColumnNone p) run res err)"
    "d_ServerScore (Decide b p run res err) = d_ServerScore (Decide b (rejudge_with Noop ColumnNone p) run res err)"
    "d_CharObservations (Decide b p run res err) = d_CharObservations (Decide b (rejudge_with Noop ColumnNone p) run res err)"
    unfolding Decide_def Let_def
    by (simp_all add: decide_clean_numbers decide_clean_error base
        split: option.split replay_error.split sum.split)
  moreover have "\<not> j_NeedsReview (verdict_of (rejudge_with Noop ColumnNone p) run res)"
    by (simp add: verdict_of_def Noop_def empty_judgement_def)
  ultimately show ?thesis by (simp add: Let_def Decide_status)
qed

text \<open>Every judge that meets the contract can be bound, and one that stores as "none" decides like the open one.\<close>

context judge_contract
begin

lemma decider_built:
  "\<exists>v. NewDecider (Some J) = Inr \<lparr>dc_judge = J, dc_version = v, dc_rejudging = False\<rparr> \<and> 0 \<le> v \<and> v \<le> 32767"
  using storable by (auto simp: NewDecider_def)

lemma silent_status:
  assumes "ParseVersion (jd_Version J) = Inr ColumnNone"
  shows "d_Status (Decide b (rejudge_with J v p) run res err) =
    d_Status (Decide b (rejudge_with Noop ColumnNone p) run res err)"
  using silent [OF assms] by (simp add: Decide_status verdict_of_def Noop_def empty_judgement_def)

end

lemma NewDecider_default: "NewDecider None = NewDecider (Some Noop)"
  by (simp add: NewDecider_def)

text \<open>
  The worker always has a decider: the open judge, a missing judge and the review policy with
  its default weights are all bound, with a version that fits the column, and only the first two
  store as "no policy".
\<close>

theorem deciders_exist:
  "NewDecider None = Inr \<lparr>dc_judge = Noop, dc_version = ColumnNone, dc_rejudging = False\<rparr> \<and>
   NewDecider (Some Noop) = NewDecider None \<and>
   (\<exists>v. NewDecider (Some (review_judge default_policy)) =
          Inr \<lparr>dc_judge = review_judge default_policy, dc_version = v, dc_rejudging = False\<rparr> \<and>
        0 < v \<and> v \<le> 32767)"
proof -
  obtain v where v: "NewDecider (Some (review_judge default_policy)) =
      Inr \<lparr>dc_judge = review_judge default_policy, dc_version = v, dc_rejudging = False\<rparr>" "0 \<le> v" "v \<le> 32767"
    using review.decider_built by blast
  moreover have "v \<noteq> 0"
    using v(1) by (auto simp: NewDecider_def review_judge_def default_policy_def ParseVersion_Itoa
        currentVersion_def)
  ultimately show ?thesis
    by (auto simp: NewDecider_default) (simp add: NewDecider_def Noop_def ParseVersion_def)
qed

section \<open>Attempts\<close>

definition in_int16 :: "int \<Rightarrow> bool" where
  "in_int16 n \<longleftrightarrow> - (2 ^ 15) \<le> n \<and> n < 2 ^ 15"

definition undecodable :: "Decider \<Rightarrow> PendingRun \<Rightarrow> Result \<Rightarrow> bool" where
  "undecodable p run res \<longleftrightarrow>
     \<not> is_ok (compareScore (pr_ClientScore run) (rs_Score res)) \<or>
     (compareScore (pr_ClientScore run) (rs_Score res) = Inr None \<and> \<not> dc_rejudging p \<and>
      \<not> is_ok (compareMetrics (pr_ClientMetrics run) (rs_Metrics res)))"

definition failed_replay :: "Decider \<Rightarrow> PendingRun \<Rightarrow> Result \<Rightarrow> replay_error option \<Rightarrow> bool" where
  "failed_replay p run res err \<longleftrightarrow>
     (case err of
        Some ErrUnknownDict \<Rightarrow> False
      | Some (ErrUnknownQuote _) \<Rightarrow> False
      | Some _ \<Rightarrow> True
      | None \<Rightarrow> rs_Verdict res \<noteq> verdictInvalid \<and> undecodable p run res)"

text \<open>
  The attempt counter moves exactly on a failed replay: it goes up by one when the core timed
  out or failed or its numbers could not be decoded, and stays put for an unknown dictionary, an
  unresolvable quote and every decided run. The counter is a 16-bit column: at 32767 the next
  failure makes it negative.
\<close>

theorem attempts_count_failures:
  assumes "in_int16 (pr_Attempts run)"
  shows "d_Attempts (Decide b p run res err) =
    (if \<not> failed_replay p run res err then pr_Attempts run
     else if pr_Attempts run = 32767 then -32768
     else pr_Attempts run + 1)"
proof -
  have "to_int16 (pr_Attempts run + 1) =
      (if pr_Attempts run = 32767 then -32768 else pr_Attempts run + 1)"
    using assms by (auto simp: to_int16_def in_int16_def)
  then show ?thesis
    unfolding Decide_def Let_def failed_replay_def
    by (auto simp: decide_clean_numbers undecodable_def is_ok_def
        split: option.split replay_error.split sum.split)
qed

section \<open>Two reasons a reader of the audit document should know\<close>

definition demo_submission :: PendingRun where
  "demo_submission =
     \<lparr>pr_DictHash = ''d'', pr_ScoreVersion = 3, pr_Seed = 7,
      pr_Setup = \<lparr>raw_bytes = ''{}'', raw_value = Some None\<rparr>,
      pr_ClientMetrics = \<lparr>raw_bytes = ''m'', raw_value = Some \<lparr>cm_WPM = Some 80, cm_Raw = Some 90, cm_Acc = Some 1\<rparr>\<rparr>,
      pr_ClientScore = \<lparr>raw_bytes = ''s'', raw_value = Some (Some 1000)\<rparr>, pr_Log = [],
      pr_Attempts = 0, pr_CreatedAt = 0\<rparr>"

definition demo_result :: "Flag list \<Rightarrow> Result" where
  "demo_result flags =
     \<lparr>rs_Verdict = verdictValid, rs_Reason = [], rs_Flags = flags,
      rs_Metrics = \<lparr>mx_bytes = ''m'', mx_doc = Some \<lparr>sm_WPM = 80, sm_Raw = 90, sm_Accuracy = 1\<rparr>, mx_duration = Some 15\<rparr>,
      rs_Score = \<lparr>raw_bytes = ''s'', raw_value = Some 1000\<rparr>,
      rs_CharObservations =
        [\<lparr>co_Char = ''a'', co_Presses = 3, co_Errors = 1, co_IntervalSumMs = 250, co_IntervalCount = 2\<rparr>]\<rparr>"

definition decider_for :: "reviewPolicy \<Rightarrow> Decider" where
  "decider_for p = \<lparr>dc_judge = review_judge p, dc_version = currentVersion, dc_rejudging = False\<rparr>"

theorem attempts_count_failures_witness:
  "d_Attempts (Decide [] (decider_for default_policy) demo_submission noResult (Some (ErrReplayTimeout []))) =
    (if \<not> failed_replay (decider_for default_policy) demo_submission noResult (Some (ErrReplayTimeout []))
     then pr_Attempts demo_submission
     else if pr_Attempts demo_submission = 32767 then -32768 else pr_Attempts demo_submission + 1)"
  by (rule attempts_count_failures) (simp add: demo_submission_def in_int16_def)

lemma decide_clean_routed:
  assumes "numbers_agree (dc_rejudging p) run res"
  shows "d_Validation (decide_clean p run res base) =
    (let verdict = verdict_of p run res;
         doc = \<lparr>vd_Verdict = verdictValid,
                vd_Reason = (if \<not> j_NeedsReview verdict then []
                             else if j_Reasons verdict \<noteq> [] then ReasonBotPattern
                             else ReasonSuspicionThreshold),
                vd_Flags = rs_Flags res, vd_Policy = policy_block p verdict, vd_Divergence = None\<rparr>
     in if marshals doc then doc else fallbackDoc)"
proof -
  have "compareScore (pr_ClientScore run) (rs_Score res) = Inr None"
    "dc_rejudging p \<or> compareMetrics (pr_ClientMetrics run) (rs_Metrics res) = Inr None"
    using assms by (auto simp: numbers_agree_def compareScore_agree compareMetrics_agree)
  then show ?thesis
    by (auto simp: decide_clean_def Let_def verdict_of_def)
qed

lemma demo_agree: "numbers_agree r demo_submission (demo_result flags)"
  by (auto simp: numbers_agree_def demo_submission_def demo_result_def metricTolerance_def)

lemma demo_decide:
  "Decide b p demo_submission (demo_result flags) None =
     decide_clean p demo_submission (demo_result flags) (base_decision b p demo_submission)"
  by (simp add: Decide_def Let_def demo_result_def verdictValid_def verdictInvalid_def)

text \<open>
  A run routed by its magnitude can be recorded as routed by its shape. A sustained superhuman
  burst does not force review, but it is a reason; a run with that reason whose suspicion reaches the
  threshold (a burst and a paste of full severity over 15 seconds) is flagged because of the
  threshold and its audit document says \<open>bot_pattern\<close>.
\<close>

theorem threshold_recorded_as_bot_pattern:
  "let flags = [demo_flag FlagSuperhumanBurst 1, demo_flag FlagPaste 1];
       d = Decide b (decider_for default_policy) demo_submission (demo_result flags) None;
       verdict = verdict_of (decider_for default_policy) demo_submission (demo_result flags)
   in d_Status d = Flagged \<and> \<not> list_ex forcesReview (j_Reasons verdict) \<and>
      f_le (j_Threshold verdict) (j_Suspicion verdict) \<and>
      vd_Reason (d_Validation d) = ReasonBotPattern"
proof -
  let ?flags = "[demo_flag FlagSuperhumanBurst 1, demo_flag FlagPaste 1]"
  let ?verdict = "verdict_of (decider_for default_policy) demo_submission (demo_result ?flags)"
  have susp: "suspicion default_policy ?flags = Fin (16 / 10)"
    by (simp add: suspicion_def demo_flag_def weight_of_default flag_codes f_zero_def)
  have rules: "combinations default_policy ?flags m = [ruleSustainedSuperhuman]"
    if "rm_DurationSec m = Fin 15" for m
    using that
    by (simp add: combinations_def present_def demo_flag_def flag_codes default_policy_def
        defaultSustainedBurstSec_def)
  have v: "?verdict = review_Judge default_policy ?flags \<lparr>rm_DurationSec = Fin 15, rm_ScoreVersion = 3\<rparr>"
    by (simp add: verdict_of_def decider_for_def review_judge_def demo_result_def demo_submission_def
        runSeconds_def)
  have "j_Reasons ?verdict = [ruleSustainedSuperhuman]" "j_Suspicion ?verdict = Fin (16 / 10)"
    "j_Threshold ?verdict = Fin 1" "j_NeedsReview ?verdict"
    unfolding v review_Judge_def Let_def
    by (simp_all add: susp rules default_policy_def [THEN arg_cong [of _ _ rp_reviewThreshold]]
        defaultReviewThreshold_def)
  moreover from this have "marshals \<lparr>vd_Verdict = verdictValid, vd_Reason = ReasonBotPattern,
      vd_Flags = ?flags, vd_Policy = policy_block (decider_for default_policy) ?verdict,
      vd_Divergence = None\<rparr>"
    by (simp add: marshals_def demo_flag_def policy_block_def f_finite_def roundSuspicion_def)
  ultimately show ?thesis
    by (simp add: Let_def demo_decide decide_clean_status decide_clean_routed demo_agree forcesReview_def
        ruleBotCadence_def ruleSustainedSuperhuman_def demo_result_def [THEN arg_cong [of _ _ rs_Flags]])
qed

text \<open>
  The audit document of an accepted run can say \<open>error\<close>: when the suspicion is not a number (which
  a weight override can cause) the document does not marshal, and the run is accepted with the
  fallback document, verdict \<open>error\<close> and reason \<open>replay_error\<close>, although nothing failed.
\<close>

theorem nonfinite_suspicion_document:
  assumes "d_Status (Decide b p run res err) = Accepted" and "dc_version p \<noteq> ColumnNone"
    and "j_Suspicion (verdict_of p run res) = NaN"
  shows "vd_Verdict (d_Validation (Decide b p run res err)) = verdictError \<and>
    vd_Reason (d_Validation (Decide b p run res err)) = ReasonReplayError \<and>
    d_LastError (Decide b p run res err) = []"
proof -
  have acc: "err = None" "rs_Verdict res \<noteq> verdictInvalid" "numbers_agree (dc_rejudging p) run res"
    using assms(1) by (auto simp: Decide_status split: if_splits)
  then have "compareScore (pr_ClientScore run) (rs_Score res) = Inr None"
    "dc_rejudging p \<or> compareMetrics (pr_ClientMetrics run) (rs_Metrics res) = Inr None"
    by (auto simp: numbers_agree_def compareScore_agree compareMetrics_agree)
  then show ?thesis
    using acc assms(2,3)
    by (auto simp: Decide_def Let_def decide_clean_routed decide_clean_error marshals_def policy_block_def
        roundSuspicion_def f_finite_def fallbackDoc_def)
qed

definition nan_policy :: reviewPolicy where
  "nan_policy = default_policy\<lparr>rp_weights := defaultFlagWeights(FlagPaste \<mapsto> NaN)\<rparr>"

theorem nonfinite_suspicion_document_witness:
  "let d = Decide [] (decider_for nan_policy) demo_submission (demo_result [demo_flag FlagPaste 1]) None
   in vd_Verdict (d_Validation d) = verdictError \<and> vd_Reason (d_Validation d) = ReasonReplayError \<and>
      d_LastError d = []"
proof -
  have v: "verdict_of (decider_for nan_policy) demo_submission (demo_result [demo_flag FlagPaste 1]) =
      \<lparr>j_Suspicion = NaN, j_NeedsReview = False, j_Reasons = [], j_Threshold = Fin 1, j_UnknownFlags = []\<rparr>"
    by (simp add: verdict_of_def decider_for_def review_judge_def review_Judge_def Let_def
        demo_result_def suspicion_def demo_flag_def weight_of_def nan_policy_def combinations_def
        present_def flag_codes unknownFlagCodes_def sort_Strings_def default_policy_def
        defaultReviewThreshold_def)
  show ?thesis
    unfolding Let_def
    by (rule nonfinite_suspicion_document)
      (simp_all add: v demo_decide decide_clean_status demo_agree, simp add: decider_for_def
        currentVersion_def ColumnNone_def)
qed

end
