(* ===== verification/Keyboard.thy ===== *)
theory Keyboard
  imports Decide
begin

text \<open>
  The keyboard heatmap: the layout index (\<open>internal/keyboard/keyboard.go\<close>) and the projection of a
  run's per-character observations onto physical keys (\<open>internal/keyboard/pgstore/pgstore.go\<close>), which
  runs inside the verdict transaction.

  A layout document is its decoded value. \<open>user_keyboard_profile\<close> is a partial map from a user and a
  key to a row; \<open>keyboard_projected_runs\<close> is the set of stamped runs. The theory proves that no
  observation is lost in the fold onto keys, that a contribution is counted at most once, and that
  a demotion takes out what the acceptance put in.
\<close>

section \<open>Layouts\<close>

record LayoutKey =
  k_ID :: string
  k_Row :: int
  k_Col :: int
  k_Finger :: string
  k_Hand :: string
  k_Chars :: "string list"
  k_Width :: int

record Layout =
  ly_Name :: string
  ly_Label :: string
  ly_Keys :: "LayoutKey list"

record Layouts =
  lys_all :: "Layout list"
  lys_byName :: "string \<rightharpoonup> (string \<rightharpoonup> string)"

datatype layout_error = NoNameOrKeys | DuplicateChar string string | MissingLayout string

definition OtherKey :: string where "OtherKey = ''other''"

fun index_chars ::
  "string \<Rightarrow> string list \<Rightarrow> (string \<rightharpoonup> string) \<Rightarrow> (layout_error, string \<rightharpoonup> string) result" where
  "index_chars kid [] index = Inr index"
| "index_chars kid (ch # chs) index =
     (case index ch of
        Some prev \<Rightarrow> if prev \<noteq> kid then Inl (DuplicateChar ch prev)
                     else index_chars kid chs (index(ch \<mapsto> kid))
      | None \<Rightarrow> index_chars kid chs (index(ch \<mapsto> kid)))"

fun index_keys :: "LayoutKey list \<Rightarrow> (string \<rightharpoonup> string) \<Rightarrow> (layout_error, string \<rightharpoonup> string) result" where
  "index_keys [] index = Inr index"
| "index_keys (k # ks) index =
     (case index_chars (k_ID k) (k_Chars k) index of
        Inl e \<Rightarrow> Inl e
      | Inr index' \<Rightarrow> index_keys ks index')"

fun load_layouts :: "Layout list \<Rightarrow> Layouts \<Rightarrow> (layout_error, Layouts) result" where
  "load_layouts [] l = Inr l"
| "load_layouts (layout # layouts) l =
     (if ly_Name layout = [] \<or> ly_Keys layout = [] then Inl NoNameOrKeys
      else case index_keys (ly_Keys layout) Map.empty of
        Inl e \<Rightarrow> Inl e
      | Inr index \<Rightarrow>
          load_layouts layouts
            (l\<lparr>lys_all := lys_all l @ [layout], lys_byName := (lys_byName l)(ly_Name layout \<mapsto> index)\<rparr>))"

definition Load :: "Layout list \<Rightarrow> (layout_error, Layouts) result" where
  "Load docs =
     (case load_layouts docs \<lparr>lys_all = [], lys_byName = Map.empty\<rparr> of
        Inl e \<Rightarrow> Inl e
      | Inr l \<Rightarrow>
          if lys_byName l ''qwerty'' = None then Inl (MissingLayout ''qwerty'')
          else if lys_byName l ''jcuken'' = None then Inl (MissingLayout ''jcuken'')
          else Inr l)"

definition LayoutFor :: "(rune \<Rightarrow> rune) \<Rightarrow> string \<Rightarrow> string" where
  "LayoutFor lo lang =
     (let lower = ToLower lo lang
      in if HasPrefix lower ''ru'' \<or> Contains lower ''russian'' then ''jcuken'' else ''qwerty'')"

definition KeyOf :: "(rune \<Rightarrow> rune) \<Rightarrow> Layouts \<Rightarrow> string \<Rightarrow> string \<Rightarrow> string" where
  "KeyOf lo l lang ch =
     (case (case lys_byName l (LayoutFor lo lang) of None \<Rightarrow> None | Some index \<Rightarrow> index ch) of
        Some kid \<Rightarrow> kid
      | None \<Rightarrow> OtherKey)"

section \<open>The projection\<close>

record keyDelta =
  kd_presses :: int
  kd_errors :: int
  kd_intervals :: int
  kd_intervalSum :: rat

definition zeroDelta :: keyDelta where
  "zeroDelta = \<lparr>kd_presses = 0, kd_errors = 0, kd_intervals = 0, kd_intervalSum = 0\<rparr>"

definition add_observation :: "keyDelta \<Rightarrow> CharObservation \<Rightarrow> keyDelta" where
  "add_observation d ob =
     d\<lparr>kd_presses := kd_presses d + co_Presses ob, kd_errors := kd_errors d + co_Errors ob,
       kd_intervalSum := kd_intervalSum d + co_IntervalSumMs ob,
       kd_intervals := kd_intervals d + co_IntervalCount ob\<rparr>"

definition fold_observation ::
  "(string \<Rightarrow> string) \<Rightarrow> CharObservation \<Rightarrow> (string \<rightharpoonup> keyDelta) \<Rightarrow> (string \<rightharpoonup> keyDelta)" where
  "fold_observation key_of ob deltas =
     (let kid = key_of (co_Char ob);
          d = (case deltas kid of None \<Rightarrow> zeroDelta | Some d \<Rightarrow> d)
      in deltas(kid \<mapsto> add_observation d ob))"

definition key_deltas :: "(string \<Rightarrow> string) \<Rightarrow> CharObservation list \<Rightarrow> (string \<rightharpoonup> keyDelta)" where
  "key_deltas key_of obs = fold (fold_observation key_of) obs Map.empty"

definition plus_delta :: "keyDelta \<Rightarrow> keyDelta \<Rightarrow> keyDelta" where
  "plus_delta a b =
     \<lparr>kd_presses = kd_presses a + kd_presses b, kd_errors = kd_errors a + kd_errors b,
      kd_intervals = kd_intervals a + kd_intervals b, kd_intervalSum = kd_intervalSum a + kd_intervalSum b\<rparr>"

text \<open>\<open>GREATEST(0, p - t)\<close> on every counter.\<close>

definition minus_delta :: "keyDelta \<Rightarrow> keyDelta \<Rightarrow> keyDelta" where
  "minus_delta a b =
     \<lparr>kd_presses = max 0 (kd_presses a - kd_presses b), kd_errors = max 0 (kd_errors a - kd_errors b),
      kd_intervals = max 0 (kd_intervals a - kd_intervals b),
      kd_intervalSum = max 0 (kd_intervalSum a - kd_intervalSum b)\<rparr>"

type_synonym 'u key_profile = "'u \<times> string \<rightharpoonup> keyDelta"

definition upsert_profile :: "'u \<Rightarrow> (string \<rightharpoonup> keyDelta) \<Rightarrow> 'u key_profile \<Rightarrow> 'u key_profile" where
  "upsert_profile user deltas profile =
     (\<lambda>(u, kid).
        if u \<noteq> user then profile (u, kid)
        else case (profile (u, kid), deltas kid) of
          (p, None) \<Rightarrow> p
        | (None, Some d) \<Rightarrow> Some d
        | (Some p, Some d) \<Rightarrow> Some (plus_delta p d))"

definition reverse_profile :: "'u \<Rightarrow> (string \<rightharpoonup> keyDelta) \<Rightarrow> 'u key_profile \<Rightarrow> 'u key_profile" where
  "reverse_profile user deltas profile =
     (\<lambda>(u, kid).
        if u \<noteq> user then profile (u, kid)
        else case (profile (u, kid), deltas kid) of
          (Some p, Some d) \<Rightarrow> Some (minus_delta p d)
        | (p, _) \<Rightarrow> p)"

record ('r, 'u) keyboard_state =
  kb_profile :: "'u key_profile"
  kb_stamped :: "'r set"

definition ProjectKeyboard ::
  "(string \<Rightarrow> string \<Rightarrow> string) \<Rightarrow> 'u \<Rightarrow> string \<Rightarrow> 'r \<Rightarrow> bool \<Rightarrow> CharObservation list
     \<Rightarrow> ('r, 'u) keyboard_state \<Rightarrow> ('r, 'u) keyboard_state" where
  "ProjectKeyboard key_of user lang runID accepted obs kb =
     (let stamped = (runID \<in> kb_stamped kb);
          add = (accepted \<and> \<not> stamped \<and> length obs > 0);
          reverse = (\<not> accepted \<and> stamped \<and> length obs > 0);
          deltas = key_deltas (key_of lang) obs
      in if add
         then kb\<lparr>kb_profile := upsert_profile user deltas (kb_profile kb),
                 kb_stamped := insert runID (kb_stamped kb)\<rparr>
         else if reverse
         then kb\<lparr>kb_profile := reverse_profile user deltas (kb_profile kb),
                 kb_stamped := kb_stamped kb - {runID}\<rparr>
         else kb)"

section \<open>Counters\<close>

text \<open>The four counters of a row, read uniformly as rationals.\<close>

datatype counter = Presses | Errors | Intervals | IntervalSum

fun reading :: "counter \<Rightarrow> keyDelta \<Rightarrow> rat" where
  "reading Presses d = of_int (kd_presses d)"
| "reading Errors d = of_int (kd_errors d)"
| "reading Intervals d = of_int (kd_intervals d)"
| "reading IntervalSum d = kd_intervalSum d"

fun observed :: "counter \<Rightarrow> CharObservation \<Rightarrow> rat" where
  "observed Presses ob = of_int (co_Presses ob)"
| "observed Errors ob = of_int (co_Errors ob)"
| "observed Intervals ob = of_int (co_IntervalCount ob)"
| "observed IntervalSum ob = co_IntervalSumMs ob"

lemma reading_simps [simp]:
  "reading c zeroDelta = 0"
  "reading c (plus_delta a b) = reading c a + reading c b"
  "reading c (add_observation a ob) = reading c a + observed c ob"
  by (cases c; simp add: zeroDelta_def plus_delta_def add_observation_def)+

lemma reading_minus [simp]: "reading c (minus_delta a b) = max 0 (reading c a - reading c b)"
  by (cases c) (simp_all add: minus_delta_def of_int_max)

text \<open>A key without a row reads as zero.\<close>

definition count_of :: "keyDelta option \<Rightarrow> counter \<Rightarrow> rat" where
  "count_of row c = (case row of None \<Rightarrow> 0 | Some d \<Rightarrow> reading c d)"

lemma count_of_simps [simp]: "count_of None c = 0" "count_of (Some d) c = reading c d"
  by (simp_all add: count_of_def)

section \<open>The fold onto keys\<close>

definition on_key :: "(string \<Rightarrow> string) \<Rightarrow> string \<Rightarrow> CharObservation \<Rightarrow> bool" where
  "on_key key_of kid = (\<lambda>ob. key_of (co_Char ob) = kid)"

lemma fold_deltas:
  "count_of (fold (fold_observation key_of) obs deltas kid) c =
     count_of (deltas kid) c + (\<Sum>ob\<leftarrow>filter (on_key key_of kid) obs. observed c ob)"
  by (induction obs arbitrary: deltas)
    (auto simp: fold_observation_def Let_def on_key_def split: option.split)

lemma key_deltas_count:
  "count_of (key_deltas key_of obs kid) c = (\<Sum>ob\<leftarrow>filter (on_key key_of kid) obs. observed c ob)"
  by (simp add: key_deltas_def fold_deltas)

lemma dom_fold_deltas:
  "dom (fold (fold_observation key_of) obs deltas) = dom deltas \<union> (\<lambda>ob. key_of (co_Char ob)) ` set obs"
  by (induction obs arbitrary: deltas) (auto simp: fold_observation_def Let_def)

lemma dom_key_deltas: "dom (key_deltas key_of obs) = (\<lambda>ob. key_of (co_Char ob)) ` set obs"
  by (simp add: key_deltas_def dom_fold_deltas)

text \<open>Summing a function over the classes of a list gives its sum over the list.\<close>

lemma sum_classes:
  fixes g :: "'a \<Rightarrow> rat"
  assumes "finite K" and "f ` set xs \<subseteq> K"
  shows "(\<Sum>k\<in>K. \<Sum>x\<leftarrow>filter (\<lambda>x. f x = k) xs. g x) = sum_list (map g xs)"
  using assms(2)
proof (induction xs)
  case (Cons x xs)
  have "(\<Sum>k\<in>K. \<Sum>y\<leftarrow>filter (\<lambda>y. f y = k) (x # xs). g y) =
      (\<Sum>k\<in>K. (if k = f x then g x else 0) + (\<Sum>y\<leftarrow>filter (\<lambda>y. f y = k) xs. g y))"
    by (rule sum.cong) auto
  also have "\<dots> = g x + sum_list (map g xs)"
    using Cons assms(1) by (simp add: sum.distrib)
  finally show ?case by simp
qed simp

text \<open>
  No observation is lost or counted twice when a run's characters are folded onto physical
  keys: each key's contribution is the sum over exactly the characters that map to it, and over all
  keys (the reserved key for unmapped characters included) every counter adds up to the run's total.
\<close>

theorem fold_loses_nothing:
  "let deltas = key_deltas (KeyOf lo l lang) obs in
     (\<forall>kid c. count_of (deltas kid) c =
        (\<Sum>ob\<leftarrow>filter (\<lambda>ob. KeyOf lo l lang (co_Char ob) = kid) obs. observed c ob)) \<and>
     finite (dom deltas) \<and>
     (\<forall>c. (\<Sum>kid\<in>dom deltas. count_of (deltas kid) c) = (\<Sum>ob\<leftarrow>obs. observed c ob))"
proof -
  let ?key = "\<lambda>ob. KeyOf lo l lang (co_Char ob)"
  have each: "count_of (key_deltas (KeyOf lo l lang) obs kid) c =
      (\<Sum>ob\<leftarrow>filter (\<lambda>ob. ?key ob = kid) obs. observed c ob)" for kid c
    by (simp add: key_deltas_count on_key_def)
  have "(\<Sum>kid\<in>?key ` set obs. count_of (key_deltas (KeyOf lo l lang) obs kid) c) =
      (\<Sum>ob\<leftarrow>obs. observed c ob)" for c
    unfolding each by (rule sum_classes) auto
  then show ?thesis by (simp add: Let_def each dom_key_deltas)
qed

section \<open>Exactly once\<close>

text \<open>
  The aggregates are the sum of the contributions of the stamped runs, for an assignment of an
  owner, a language and observations to every run.
\<close>

record 'u run_facts =
  rf_user :: 'u
  rf_lang :: string
  rf_obs :: "CharObservation list"

definition contribution ::
  "(string \<Rightarrow> string \<Rightarrow> string) \<Rightarrow> ('r \<Rightarrow> 'u run_facts) \<Rightarrow> 'r \<Rightarrow> string \<Rightarrow> counter \<Rightarrow> rat" where
  "contribution key_of facts r kid c =
     count_of (key_deltas (key_of (rf_lang (facts r))) (rf_obs (facts r)) kid) c"

definition tallies ::
  "(string \<Rightarrow> string \<Rightarrow> string) \<Rightarrow> ('r \<Rightarrow> 'u run_facts) \<Rightarrow> ('r, 'u) keyboard_state \<Rightarrow> bool" where
  "tallies key_of facts kb \<longleftrightarrow>
     finite (kb_stamped kb) \<and>
     (\<forall>u kid c. count_of (kb_profile kb (u, kid)) c =
        (\<Sum>r\<in>{r \<in> kb_stamped kb. rf_user (facts r) = u}. contribution key_of facts r kid c))"

definition nonneg_obs :: "CharObservation list \<Rightarrow> bool" where
  "nonneg_obs obs \<longleftrightarrow>
     list_all (\<lambda>ob. 0 \<le> co_Presses ob \<and> 0 \<le> co_Errors ob \<and> 0 \<le> co_IntervalCount ob \<and>
       0 \<le> co_IntervalSumMs ob) obs"

lemma contribution_nonneg: "nonneg_obs (rf_obs (facts r)) \<Longrightarrow> 0 \<le> contribution key_of facts r kid c"
  unfolding contribution_def key_deltas_count nonneg_obs_def
  by (cases c) (auto simp: list_all_iff intro!: sum_list_nonneg)

text \<open>
  A verdict about a run: whether it accepts it, and whether the log replayed. Without a replay there are no observations.
\<close>

type_synonym 'r kb_verdict = "'r \<times> bool \<times> bool"

definition verdict_obs :: "('r \<Rightarrow> 'u run_facts) \<Rightarrow> 'r kb_verdict \<Rightarrow> CharObservation list" where
  "verdict_obs facts v = (case v of (r, accepted, replayed) \<Rightarrow> if replayed then rf_obs (facts r) else [])"

definition project ::
  "(string \<Rightarrow> string \<Rightarrow> string) \<Rightarrow> ('r \<Rightarrow> 'u run_facts) \<Rightarrow> 'r kb_verdict
     \<Rightarrow> ('r, 'u) keyboard_state \<Rightarrow> ('r, 'u) keyboard_state" where
  "project key_of facts v kb =
     (case v of (r, accepted, replayed) \<Rightarrow>
        ProjectKeyboard key_of (rf_user (facts r)) (rf_lang (facts r)) r accepted (verdict_obs facts v) kb)"

lemma count_upsert:
  "count_of (upsert_profile u deltas p (u', kid)) c =
     count_of (p (u', kid)) c + (if u' = u then count_of (deltas kid) c else 0)"
  by (auto simp: upsert_profile_def split: option.split)

lemma count_reverse:
  assumes "0 \<le> count_of (p (u', kid)) c - count_of (deltas kid) c" and "0 \<le> count_of (deltas kid) c"
  shows "count_of (reverse_profile u deltas p (u', kid)) c =
     count_of (p (u', kid)) c - (if u' = u then count_of (deltas kid) c else 0)"
  using assms by (auto simp: reverse_profile_def split: option.split)


lemma tallies_add:
  assumes "tallies key_of facts kb" and "r \<notin> kb_stamped kb" and "rf_user (facts r) = u"
  shows "tallies key_of facts
    (kb\<lparr>kb_profile := upsert_profile u (key_deltas (key_of (rf_lang (facts r))) (rf_obs (facts r))) (kb_profile kb),
        kb_stamped := insert r (kb_stamped kb)\<rparr>)"
proof -
  have "{x \<in> insert r (kb_stamped kb). rf_user (facts x) = v} =
      (if v = u then insert r {x \<in> kb_stamped kb. rf_user (facts x) = v}
       else {x \<in> kb_stamped kb. rf_user (facts x) = v})" for v
    using assms(3) by auto
  then show ?thesis
    using assms unfolding tallies_def
    by (simp add: count_upsert sum.insert_if add.commute flip: contribution_def)
qed

lemma tallies_remove:
  assumes "tallies key_of facts kb" and "r \<in> kb_stamped kb" and "rf_user (facts r) = u"
    and "\<forall>x. nonneg_obs (rf_obs (facts x))"
  shows "tallies key_of facts
    (kb\<lparr>kb_profile := reverse_profile u (key_deltas (key_of (rf_lang (facts r))) (rf_obs (facts r))) (kb_profile kb),
        kb_stamped := kb_stamped kb - {r}\<rparr>)"
proof -
  let ?deltas = "key_deltas (key_of (rf_lang (facts r))) (rf_obs (facts r))"
  let ?own = "\<lambda>S v. {x \<in> S. rf_user (facts x) = v}"
  have pos: "0 \<le> contribution key_of facts x kid c" for x kid c
    using assms(4) by (simp add: contribution_nonneg)
  have fin: "finite (kb_stamped kb)" using assms(1) by (simp add: tallies_def)
  have split: "(\<Sum>x\<in>?own (kb_stamped kb) u. contribution key_of facts x kid c) =
      contribution key_of facts r kid c +
      (\<Sum>x\<in>?own (kb_stamped kb - {r}) u. contribution key_of facts x kid c)" for kid c
  proof -
    have "?own (kb_stamped kb) u = insert r (?own (kb_stamped kb - {r}) u)"
      using assms(2,3) by auto
    then show ?thesis using fin by simp
  qed
  have others: "?own (kb_stamped kb - {r}) v = ?own (kb_stamped kb) v" if "v \<noteq> u" for v
    using that assms(3) by auto
  have "count_of (reverse_profile u ?deltas (kb_profile kb) (v, kid)) c =
      (\<Sum>x\<in>?own (kb_stamped kb - {r}) v. contribution key_of facts x kid c)" for v kid c
  proof (cases "v = u")
    case True
    have now: "count_of (kb_profile kb (u, kid)) c =
        contribution key_of facts r kid c +
        (\<Sum>x\<in>?own (kb_stamped kb - {r}) u. contribution key_of facts x kid c)"
      using assms(1) split by (simp add: tallies_def)
    have delta: "count_of (?deltas kid) c = contribution key_of facts r kid c"
      by (simp add: contribution_def)
    have "0 \<le> (\<Sum>x\<in>?own (kb_stamped kb - {r}) u. contribution key_of facts x kid c)"
      by (rule sum_nonneg) (rule pos)
    then show ?thesis
      using True now pos [of r kid c] by (simp add: count_reverse delta)
  next
    case False
    then show ?thesis
      using assms(1) others by (simp add: tallies_def reverse_profile_def)
  qed
  then show ?thesis using fin by (simp add: tallies_def)
qed

lemma project_stamps:
  "kb_stamped (project key_of facts (r, acc, replayed) kb) =
     (if verdict_obs facts (r, acc, replayed) = [] then kb_stamped kb
      else if acc then insert r (kb_stamped kb) else kb_stamped kb - {r})"
  by (auto simp: project_def ProjectKeyboard_def Let_def)

lemma project_tallies:
  assumes "tallies key_of facts kb" and "\<forall>x. nonneg_obs (rf_obs (facts x))"
  shows "tallies key_of facts (project key_of facts (r, acc, replayed) kb)"
proof -
  note add = tallies_add [OF assms(1), of r, OF _ refl]
  note remove = tallies_remove [OF assms(1), of r, OF _ refl assms(2)]
  show ?thesis
    using assms(1) add remove by (cases replayed) (simp_all add: project_def verdict_obs_def ProjectKeyboard_def Let_def)
qed

text \<open>The last verdict about a run that came with observations, if there is one.\<close>

definition verdict_in :: "('r \<Rightarrow> 'u run_facts) \<Rightarrow> 'r kb_verdict list \<Rightarrow> 'r \<Rightarrow> bool option" where
  "verdict_in facts verdicts r =
     map_option (fst \<circ> snd) (find_first (\<lambda>v. fst v = r \<and> verdict_obs facts v \<noteq> []) (rev verdicts))"

lemma fold_stamps:
  "r \<in> kb_stamped (fold (project key_of facts) verdicts kb) \<longleftrightarrow>
    (case verdict_in facts verdicts r of None \<Rightarrow> r \<in> kb_stamped kb | Some acc \<Rightarrow> acc)"
proof (induction verdicts rule: rev_induct)
  case (snoc v vs)
  obtain r' acc replayed where v: "v = (r', acc, replayed)" by (cases v)
  show ?case
    using snoc by (cases "verdict_obs facts v = []") (auto simp: v verdict_in_def project_stamps)
qed (simp add: verdict_in_def)


definition demo_facts :: "nat \<Rightarrow> nat run_facts" where
  "demo_facts r = \<lparr>rf_user = r mod 2, rf_lang = ''en'',
     rf_obs = [\<lparr>co_Char = ''a'', co_Presses = 3, co_Errors = 1, co_IntervalSumMs = 250, co_IntervalCount = 2\<rparr>]\<rparr>"


section \<open>A change of the bundle\<close>

text \<open>
  Once a demotion has taken a run's stamp, no further verdict short of an acceptance moves the aggregates: what the
  reversal left over, because the log replayed to other observations than it was counted with, stays.
\<close>

lemma residue_stays:
  assumes "r \<notin> kb_stamped kb"
  shows "fold (\<lambda>(obs, key_of). ProjectKeyboard key_of user lang r False obs) passes kb = kb"
  using assms by (induction passes) (auto simp: ProjectKeyboard_def Let_def)

end
