(* ===== verification/Run_DB.thy ===== *)
theory Run_DB
  imports Keyboard "HOL-Library.DAList"
begin

text \<open>
  The tables the verdict path writes and the statements it writes them with: \<open>runs\<close>, \<open>run_verdicts\<close>,
  \<open>run_status_overrides\<close>, \<open>leaderboard_entries\<close> and the keyboard aggregates
  (\<open>internal/replay/replaydb\<close>, \<open>internal/runs/runsdb\<close> and the migrations).

  A table with a primary key is an association list with distinct keys, so that a query has an order
  to list rows in and a key has at most one row. A run's row extends what the worker claims of it by
  its lifecycle columns and by what the schema's functions read out of its setup document
  (\<open>run_text_source_kind\<close>, \<open>run_quote_id\<close>, \<open>run_adopted_from\<close>, \<open>run_mods\<close>): the document itself never
  changes after the insert. \<open>validated_at\<close>, which nothing reads back, is left out.
\<close>

section \<open>Tables\<close>

record 'u run = PendingRun +
  r_UserID :: 'u
  r_Mode :: string
  r_DurationMs :: "int option"
  r_WordCount :: "int option"
  r_Lang :: string
  r_TextSourceKind :: string
  r_QuoteID :: "'u option"
  r_AdoptedFrom :: "'u option"
  r_Mods :: string
  r_Status :: run_status
  r_LastError :: "string option"

record 'u verdict =
  v_UserID :: 'u
  v_ServerMetrics :: "metrics_raw option"
  v_ServerScore :: "rat raw option"
  v_Validation :: validationDoc
  v_BundleSha :: "string option"
  v_PolicyVersion :: "int option"

record 'u override =
  ov_RunID :: 'u
  ov_FromStatus :: run_status
  ov_ToStatus :: run_status
  ov_Reason :: string
  ov_DecidedBy :: 'u

record 'u board_entry =
  be_RunID :: 'u
  be_Score :: int
  be_Wpm :: rat
  be_Raw :: rat
  be_Acc :: rat
  be_Grade :: string
  be_Mods :: string
  be_AchievedAt :: int
  be_QuoteSource :: "string option"

record 'u db =
  db_runs :: "('u, 'u run) alist"
  db_verdicts :: "('u, 'u verdict) alist"
  db_overrides :: "'u override list"
  db_quotes :: "'u \<rightharpoonup> string"
  db_verified :: "'u set"
  db_entries :: "(string \<times> 'u, 'u board_entry) alist"
  db_keyboard :: "('u, 'u) keyboard_state"

abbreviation run_row :: "'u db \<Rightarrow> 'u \<Rightarrow> 'u run option" where
  "run_row db rid \<equiv> DAList.lookup (db_runs db) rid"

abbreviation verdict_row :: "'u db \<Rightarrow> 'u \<Rightarrow> 'u verdict option" where
  "verdict_row db rid \<equiv> DAList.lookup (db_verdicts db) rid"

section \<open>Statements\<close>

text \<open>\<open>UPDATE runs SET ... WHERE id = rid\<close>; a missing row is no row.\<close>

definition update_run :: "'u \<Rightarrow> ('u run \<Rightarrow> 'u run) \<Rightarrow> 'u db \<Rightarrow> 'u db" where
  "update_run rid f db = db\<lparr>db_runs := DAList.map_entry rid f (db_runs db)\<rparr>"

definition nullif_empty :: "string \<Rightarrow> string option" where
  "nullif_empty s = (if s = [] then None else Some s)"

definition ApplyRunOutcome :: "'u \<Rightarrow> run_status \<Rightarrow> int \<Rightarrow> string \<Rightarrow> 'u db \<Rightarrow> 'u db" where
  "ApplyRunOutcome rid status attempts lastError =
     update_run rid (\<lambda>r. r\<lparr>r_Status := status, pr_Attempts := attempts, r_LastError := nullif_empty lastError\<rparr>)"

definition SetRunStatus :: "'u \<Rightarrow> run_status \<Rightarrow> 'u db \<Rightarrow> 'u db" where
  "SetRunStatus rid status = update_run rid (\<lambda>r. r\<lparr>r_Status := status\<rparr>)"

record verdict_params =
  vp_ServerMetrics :: "metrics_raw option"
  vp_ServerScore :: "rat raw option"
  vp_Validation :: validationDoc
  vp_BundleSha :: "string option"
  vp_PolicyVersion :: "int option"

definition toVerdictParams :: "Decision \<Rightarrow> verdict_params" where
  "toVerdictParams d =
     \<lparr>vp_ServerMetrics = d_ServerMetrics d, vp_ServerScore = d_ServerScore d,
      vp_Validation = d_Validation d,
      vp_BundleSha = (if d_BundleSHA d \<noteq> [] then Some (d_BundleSHA d) else None),
      vp_PolicyVersion = (if d_PolicyVersion d > 0 then Some (d_PolicyVersion d) else None)\<rparr>"

text \<open>
  The user id comes from the run's row, and an existing verdict keeps its own (\<open>INSERT ... SELECT\<close> with
  \<open>ON CONFLICT DO UPDATE\<close>). Without a run there is nothing to select and nothing is written.
\<close>

definition UpsertRunVerdict :: "'u \<Rightarrow> verdict_params \<Rightarrow> 'u db \<Rightarrow> 'u db" where
  "UpsertRunVerdict rid p db =
     (case run_row db rid of
        None \<Rightarrow> db
      | Some r \<Rightarrow>
          let owner = (case verdict_row db rid of None \<Rightarrow> r_UserID r | Some v \<Rightarrow> v_UserID v)
          in db\<lparr>db_verdicts := DAList.update rid
               \<lparr>v_UserID = owner, v_ServerMetrics = vp_ServerMetrics p, v_ServerScore = vp_ServerScore p,
                v_Validation = vp_Validation p, v_BundleSha = vp_BundleSha p,
                v_PolicyVersion = vp_PolicyVersion p\<rparr> (db_verdicts db)\<rparr>)"

definition InsertRunStatusOverride :: "'u override \<Rightarrow> 'u db \<Rightarrow> 'u db" where
  "InsertRunStatusOverride ov db = db\<lparr>db_overrides := db_overrides db @ [ov]\<rparr>"

definition overridden :: "'u db \<Rightarrow> 'u \<Rightarrow> bool" where
  "overridden db rid \<longleftrightarrow> list_ex (\<lambda>o'. ov_RunID o' = rid) (db_overrides db)"

section \<open>The claims\<close>

text \<open>\<open>ORDER BY created_at\<close>: the order of equal timestamps is the table's.\<close>

fun insert_oldest :: "('u \<times> 'u run) \<Rightarrow> ('u \<times> 'u run) list \<Rightarrow> ('u \<times> 'u run) list" where
  "insert_oldest x [] = [x]"
| "insert_oldest x (y # ys) =
     (if pr_CreatedAt (snd x) \<le> pr_CreatedAt (snd y) then x # y # ys else y # insert_oldest x ys)"

definition oldest_first :: "('u \<times> 'u run) list \<Rightarrow> ('u \<times> 'u run) list" where
  "oldest_first rows = foldr insert_oldest rows []"

text \<open>
  \<open>FOR UPDATE SKIP LOCKED\<close>: \<open>locked\<close> are the rows another transaction holds; they are stepped over.
\<close>

definition claim :: "('u \<times> 'u run \<Rightarrow> bool) \<Rightarrow> 'u set \<Rightarrow> nat \<Rightarrow> 'u db \<Rightarrow> ('u \<times> 'u run) list" where
  "claim P locked n db =
     take n (filter (\<lambda>row. fst row \<notin> locked) (oldest_first (filter P (DAList.impl_of (db_runs db)))))"

definition ClaimPendingRuns :: "'u set \<Rightarrow> nat \<Rightarrow> 'u db \<Rightarrow> ('u \<times> 'u run) list" where
  "ClaimPendingRuns = claim (\<lambda>(rid, r). r_Status r = Pending)"

text \<open>\<open>IS DISTINCT FROM\<close> and the \<open>NULL\<close> test are equality on options.\<close>

definition stale :: "int \<Rightarrow> string \<Rightarrow> 'u db \<Rightarrow> 'u \<Rightarrow> bool" where
  "stale policyVersion bundleSHA db rid \<longleftrightarrow>
     (case verdict_row db rid of
        None \<Rightarrow> False
      | Some v \<Rightarrow>
          (case v_PolicyVersion v of None \<Rightarrow> True | Some pv \<Rightarrow> pv < policyVersion) \<or>
          v_BundleSha v \<noteq> Some bundleSHA) \<and>
     \<not> overridden db rid"

definition ClaimStalePolicyRuns ::
  "int \<Rightarrow> string \<Rightarrow> 'u set \<Rightarrow> nat \<Rightarrow> 'u db \<Rightarrow> ('u \<times> 'u run) list" where
  "ClaimStalePolicyRuns policyVersion bundleSHA locked n db =
     claim (\<lambda>(rid, r). stale policyVersion bundleSHA db rid) locked n db"

definition toPendingRun :: "'u run \<Rightarrow> PendingRun" where
  "toPendingRun r = PendingRun.truncate r"

section \<open>Lemmas about the statements\<close>

lemma lookup_map_entry:
  "DAList.lookup (DAList.map_entry k f al) =
     (case DAList.lookup al k of None \<Rightarrow> DAList.lookup al | Some v \<Rightarrow> (DAList.lookup al)(k \<mapsto> f v))"
  by transfer (auto simp: map_of_map_entry fun_upd_idem split: option.split)

lemma row_in_table: "(k, v) \<in> set (DAList.impl_of al) \<longleftrightarrow> DAList.lookup al k = Some v"
  by (simp add: DAList.lookup.rep_eq)

lemma run_row_update:
  "run_row (update_run rid f db) = (case run_row db rid of None \<Rightarrow> run_row db | Some r \<Rightarrow> (run_row db)(rid \<mapsto> f r))"
  by (simp add: update_run_def lookup_map_entry)

lemma verdict_row_upsert:
  "verdict_row (UpsertRunVerdict rid p db) r =
     (if r = rid \<and> run_row db rid \<noteq> None
      then Some \<lparr>v_UserID = (case verdict_row db rid of None \<Rightarrow> r_UserID (the (run_row db rid)) | Some v \<Rightarrow> v_UserID v),
                 v_ServerMetrics = vp_ServerMetrics p, v_ServerScore = vp_ServerScore p,
                 v_Validation = vp_Validation p, v_BundleSha = vp_BundleSha p,
                 v_PolicyVersion = vp_PolicyVersion p\<rparr>
      else verdict_row db r)"
  by (auto simp: UpsertRunVerdict_def Let_def lookup_update split: option.split)

lemma update_run_simps [simp]:
  "db_verdicts (update_run rid f db) = db_verdicts db"
  "db_overrides (update_run rid f db) = db_overrides db"
  "db_quotes (update_run rid f db) = db_quotes db"
  "db_verified (update_run rid f db) = db_verified db"
  "db_entries (update_run rid f db) = db_entries db"
  "db_keyboard (update_run rid f db) = db_keyboard db"
  by (simp_all add: update_run_def)

lemma UpsertRunVerdict_simps [simp]:
  "db_runs (UpsertRunVerdict rid p db) = db_runs db"
  "db_overrides (UpsertRunVerdict rid p db) = db_overrides db"
  "db_quotes (UpsertRunVerdict rid p db) = db_quotes db"
  "db_verified (UpsertRunVerdict rid p db) = db_verified db"
  "db_entries (UpsertRunVerdict rid p db) = db_entries db"
  "db_keyboard (UpsertRunVerdict rid p db) = db_keyboard db"
  by (simp_all add: UpsertRunVerdict_def Let_def split: option.split)

lemma set_insert_oldest: "set (insert_oldest x ys) = insert x (set ys)"
  by (induction ys) auto

lemma length_insert_oldest: "length (insert_oldest x ys) = Suc (length ys)"
  by (induction ys) auto

lemma set_oldest_first: "set (oldest_first rows) = set rows"
  unfolding oldest_first_def by (induction rows) (auto simp: set_insert_oldest)

lemma length_oldest_first: "length (oldest_first rows) = length rows"
  unfolding oldest_first_def by (induction rows) (auto simp: length_insert_oldest)

lemma sorted_insert_oldest:
  "sorted_wrt (\<lambda>a b. pr_CreatedAt (snd a) \<le> pr_CreatedAt (snd b)) ys \<Longrightarrow>
   sorted_wrt (\<lambda>a b. pr_CreatedAt (snd a) \<le> pr_CreatedAt (snd b)) (insert_oldest x ys)"
  by (induction ys) (auto simp: set_insert_oldest)

lemma sorted_oldest_first:
  "sorted_wrt (\<lambda>a b. pr_CreatedAt (snd a) \<le> pr_CreatedAt (snd b)) (oldest_first rows)"
  unfolding oldest_first_def by (induction rows) (auto simp: sorted_insert_oldest)

lemma distinct_insert_oldest:
  "distinct (map fst ys) \<and> fst x \<notin> fst ` set ys \<Longrightarrow> distinct (map fst (insert_oldest x ys))"
  by (induction ys) (auto simp: set_insert_oldest)

lemma distinct_oldest_first: "distinct (map fst rows) \<Longrightarrow> distinct (map fst (oldest_first rows))"
  unfolding oldest_first_def
proof (induction rows)
  case (Cons x rows)
  have "set (foldr insert_oldest rows []) = set rows"
    using set_oldest_first [of rows] by (simp add: oldest_first_def)
  with Cons show ?case by (simp add: distinct_insert_oldest)
qed simp

lemma distinct_claim: "distinct (map fst (claim P locked n db))"
proof -
  have "distinct (map fst (filter P (DAList.impl_of (db_runs db))))"
    by (simp add: distinct_map_filter)
  then have "distinct (map fst (oldest_first (filter P (DAList.impl_of (db_runs db)))))"
    by (rule distinct_oldest_first)
  then show ?thesis
    unfolding claim_def take_map [symmetric] by (simp add: distinct_map_filter)
qed

lemma set_claim:
  "(rid, r) \<in> set (claim P locked n db) \<Longrightarrow> run_row db rid = Some r \<and> P (rid, r) \<and> rid \<notin> locked"
  unfolding claim_def by (auto dest!: in_set_takeD simp: set_oldest_first row_in_table)

text \<open>A claim is empty only when nothing matches that is not locked.\<close>

lemma claim_empty:
  assumes "claim P locked n db = []" and "n > 0"
  shows "\<forall>rid r. run_row db rid = Some r \<longrightarrow> P (rid, r) \<longrightarrow> rid \<in> locked"
proof (intro allI impI)
  fix rid r assume row: "run_row db rid = Some r" "P (rid, r)"
  have "filter (\<lambda>row. fst row \<notin> locked) (oldest_first (filter P (DAList.impl_of (db_runs db)))) = []"
    using assms by (auto simp: claim_def)
  then have "\<forall>row \<in> set (filter P (DAList.impl_of (db_runs db))). fst row \<in> locked"
    by (simp add: filter_empty_conv set_oldest_first)
  then show "rid \<in> locked" using row by (auto simp: row_in_table)
qed

end
