(* ===== verification/Board_Projection.thy ===== *)
theory Board_Projection
  imports Run_DB "HOL-Library.Product_Lexorder"
begin

text \<open>
  The write side of the leaderboards (\<open>internal/leaderboard/pgstore/pgstore.go\<close> and the statements of
  \<open>leaderboarddb\<close>): which runs are eligible (the view \<open>leaderboard_eligible_runs\<close>), the one statement that
  writes a cell, the projection the verdict transaction calls and the offline rebuild.

  PostgreSQL's access to a number in a JSON document is the argument \<open>num\<close>: \<open>num doc key\<close> is the number
  under \<open>key\<close>, or nothing when \<open>jsonb_typeof\<close> is not \<open>number\<close>. A statement can fail, which rolls its
  transaction back: the cast of a total to \<open>bigint\<close>, the \<open>CHECK\<close> that a score is below \<open>2 ^ 24\<close>, the unique
  index on \<open>run_id\<close>.

  \<open>boards_current\<close> says that every cell shows the player's best eligible run. It is kept by every write
  that touches one run and then projects it, and established by a rebuild.
\<close>

section \<open>Eligible runs\<close>

type_synonym jsonb_num = "string \<Rightarrow> string \<Rightarrow> rat option"

record 'u eligible =
  el_RunID :: 'u
  el_UserID :: 'u
  el_Mode :: string
  el_DurationMs :: "int option"
  el_WordCount :: "int option"
  el_Lang :: string
  el_Kind :: string
  el_QuoteID :: "'u option"
  el_Total :: rat
  el_Wpm :: rat
  el_Raw :: rat
  el_Acc :: rat
  el_Mods :: string
  el_AchievedAt :: int

text \<open>\<open>LEFT JOIN quotes q ON q.id = run_quote_id(setup)\<close>: an id that names no quote reads as none.\<close>

definition resolved_quote :: "'u db \<Rightarrow> 'u run \<Rightarrow> 'u option" where
  "resolved_quote db r =
     (case r_QuoteID r of None \<Rightarrow> None | Some q \<Rightarrow> if db_quotes db q = None then None else Some q)"

definition ranked_shape :: "'u run \<Rightarrow> bool" where
  "ranked_shape r \<longleftrightarrow>
     (r_Mode r = ''time'' \<and> r_DurationMs r \<in> {Some 15000, Some 30000, Some 60000}) \<or>
     (r_Mode r = ''words'' \<and> r_WordCount r \<in> {Some 25, Some 50, Some 100})"

definition may_rank :: "'u db \<Rightarrow> 'u run \<Rightarrow> bool" where
  "may_rank db r \<longleftrightarrow>
     r_Status r = Accepted \<and> r_AdoptedFrom r = None \<and>
     (resolved_quote db r \<noteq> None \<or> (r_TextSourceKind r = ''seeded'' \<and> ranked_shape r))"

definition doc_num :: "jsonb_num \<Rightarrow> string option \<Rightarrow> string \<Rightarrow> rat option" where
  "doc_num num doc key = (case doc of None \<Rightarrow> None | Some bytes \<Rightarrow> num bytes key)"

definition eligible_run :: "jsonb_num \<Rightarrow> 'u db \<Rightarrow> 'u \<Rightarrow> 'u eligible option" where
  "eligible_run num db rid =
     (case (run_row db rid, verdict_row db rid) of
        (Some r, Some v) \<Rightarrow>
          if \<not> may_rank db r then None
          else (case (doc_num num (map_option raw_bytes (v_ServerScore v)) ''total'',
                      doc_num num (map_option mx_bytes (v_ServerMetrics v)) ''wpm'',
                      doc_num num (map_option mx_bytes (v_ServerMetrics v)) ''raw'',
                      doc_num num (map_option mx_bytes (v_ServerMetrics v)) ''accuracy'') of
                  (Some tot, Some wpm, Some rw, Some acc) \<Rightarrow>
                    Some \<lparr>el_RunID = rid, el_UserID = r_UserID r, el_Mode = r_Mode r,
                          el_DurationMs = r_DurationMs r, el_WordCount = r_WordCount r, el_Lang = r_Lang r,
                          el_Kind = r_TextSourceKind r, el_QuoteID = resolved_quote db r, el_Total = tot,
                          el_Wpm = wpm, el_Raw = rw, el_Acc = acc, el_Mods = r_Mods r,
                          el_AchievedAt = pr_CreatedAt r\<rparr>
                | _ \<Rightarrow> None)
      | _ \<Rightarrow> None)"

definition eligible_runs :: "jsonb_num \<Rightarrow> 'u db \<Rightarrow> 'u eligible list" where
  "eligible_runs num db = List.map_filter (\<lambda>row. eligible_run num db (fst row)) (DAList.impl_of (db_runs db))"

text \<open>The deployment's barrier: off, or the player holds a verified email identity.\<close>

definition email_gate :: "bool \<Rightarrow> 'u db \<Rightarrow> 'u \<Rightarrow> bool" where
  "email_gate requireVerifiedEmail db user \<longleftrightarrow> \<not> requireVerifiedEmail \<or> user \<in> db_verified db"

section \<open>Cells\<close>

record 'u cell =
  c_UserID :: 'u
  c_QuoteID :: "'u option"
  c_Mode :: string
  c_DurationMs :: "int option"
  c_WordCount :: "int option"
  c_Lang :: string
  c_Kind :: string

definition cell_bucket :: "'u uuid_lib \<Rightarrow> 'u cell \<Rightarrow> (bucket_error, 'u Bucket) result" where
  "cell_bucket L c =
     (case c_QuoteID c of
        Some q \<Rightarrow> NewQuoteBucket L q
      | None \<Rightarrow> NewBucket L (c_Mode c) (c_DurationMs c) (c_WordCount c) (c_Lang c) (c_Kind c))"

definition RunBucketCell :: "'u db \<Rightarrow> 'u \<Rightarrow> 'u cell option" where
  "RunBucketCell db rid =
     map_option (\<lambda>r. \<lparr>c_UserID = r_UserID r, c_QuoteID = resolved_quote db r, c_Mode = r_Mode r,
                      c_DurationMs = r_DurationMs r, c_WordCount = r_WordCount r, c_Lang = r_Lang r,
                      c_Kind = r_TextSourceKind r\<rparr>) (run_row db rid)"

definition cell_of :: "'u eligible \<Rightarrow> 'u cell" where
  "cell_of e =
     \<lparr>c_UserID = el_UserID e, c_QuoteID = el_QuoteID e, c_Mode = el_Mode e, c_DurationMs = el_DurationMs e,
      c_WordCount = el_WordCount e, c_Lang = el_Lang e, c_Kind = el_Kind e\<rparr>"

text \<open>The siblings of a cell, matched on its components: a quote cell asks for its quote alone.\<close>

definition in_cell :: "'u cell \<Rightarrow> 'u eligible \<Rightarrow> bool" where
  "in_cell c e \<longleftrightarrow>
     el_UserID e = c_UserID c \<and> el_QuoteID e = c_QuoteID c \<and>
     (el_QuoteID e \<noteq> None \<or>
      (el_Mode e = c_Mode c \<and> el_DurationMs e = c_DurationMs c \<and> el_WordCount e = c_WordCount c \<and>
       el_Lang e = c_Lang c \<and> el_Kind e = c_Kind c))"

section \<open>The statement that writes a cell\<close>

text \<open>\<open>ORDER BY score DESC, achieved_at ASC, run_id ASC LIMIT 1\<close>.\<close>

definition better :: "('u::linorder) eligible \<Rightarrow> 'u eligible \<Rightarrow> bool" where
  "better a b \<longleftrightarrow>
     el_Total a > el_Total b \<or>
     (el_Total a = el_Total b \<and>
      (el_AchievedAt a < el_AchievedAt b \<or>
       (el_AchievedAt a = el_AchievedAt b \<and> el_RunID a < el_RunID b)))"

fun best_of :: "('u::linorder) eligible list \<Rightarrow> 'u eligible option" where
  "best_of [] = None"
| "best_of (e # es) =
     (case best_of es of None \<Rightarrow> Some e | Some b \<Rightarrow> if better b e then Some b else Some e)"

definition run_grade :: "rat \<Rightarrow> string" where
  "run_grade acc =
     (if acc \<ge> 1 then ''SS'' else if acc \<ge> 98 / 100 then ''S'' else if acc \<ge> 95 / 100 then ''A''
      else if acc \<ge> 9 / 10 then ''B'' else ''C'')"

definition entry_of :: "'u db \<Rightarrow> 'u eligible \<Rightarrow> 'u board_entry" where
  "entry_of db b =
     \<lparr>be_RunID = el_RunID b, be_Score = \<lfloor>el_Total b\<rfloor>, be_Wpm = el_Wpm b, be_Raw = el_Raw b, be_Acc = el_Acc b,
      be_Grade = run_grade (el_Acc b), be_Mods = el_Mods b, be_AchievedAt = el_AchievedAt b,
      be_QuoteSource = (case el_QuoteID b of None \<Rightarrow> None | Some q \<Rightarrow> db_quotes db q)\<rparr>"

text \<open>\<open>::bigint\<close> takes the whole numbers of 64 bits.\<close>

definition is_bigint :: "rat \<Rightarrow> bool" where
  "is_bigint x \<longleftrightarrow> of_int \<lfloor>x\<rfloor> = x \<and> - (2 ^ 63) \<le> \<lfloor>x\<rfloor> \<and> \<lfloor>x\<rfloor> < 2 ^ 63"

definition score_packable :: "int \<Rightarrow> bool" where
  "score_packable s \<longleftrightarrow> 0 \<le> s \<and> s < 16777216"

datatype board_error = NotBigint | ScoreNotPackable | RunHeldTwice | UnrankableCell bucket_error

definition held_elsewhere :: "'u db \<Rightarrow> string \<times> 'u \<Rightarrow> 'u \<Rightarrow> bool" where
  "held_elsewhere db slot rid \<longleftrightarrow>
     list_ex (\<lambda>(s, e). s \<noteq> slot \<and> be_RunID e = rid) (DAList.impl_of (db_entries db))"

definition write_entry :: "string \<times> 'u \<Rightarrow> 'u eligible \<Rightarrow> 'u db \<Rightarrow> (board_error, 'u db) result" where
  "write_entry slot b db =
     (if \<not> score_packable \<lfloor>el_Total b\<rfloor> then Inl ScoreNotPackable
      else case DAList.lookup (db_entries db) slot of
        Some e \<Rightarrow>
          if be_RunID e = el_RunID b then Inr db
          else if held_elsewhere db slot (el_RunID b) then Inl RunHeldTwice
          else Inr (db\<lparr>db_entries := DAList.update slot (entry_of db b) (db_entries db)\<rparr>)
      | None \<Rightarrow>
          if held_elsewhere db slot (el_RunID b) then Inl RunHeldTwice
          else Inr (db\<lparr>db_entries := DAList.update slot (entry_of db b) (db_entries db)\<rparr>))"

definition RecomputeLeaderboardCell ::
  "jsonb_num \<Rightarrow> bool \<Rightarrow> string \<Rightarrow> 'u cell \<Rightarrow> ('u::linorder) db \<Rightarrow> (board_error, 'u db) result" where
  "RecomputeLeaderboardCell num requireVerifiedEmail key c db =
     (let candidates = filter (\<lambda>e. in_cell c e \<and> email_gate requireVerifiedEmail db (c_UserID c))
            (eligible_runs num db);
          slot = (key, c_UserID c)
      in if list_ex (\<lambda>e. \<not> is_bigint (el_Total e)) candidates then Inl NotBigint
         else case best_of candidates of
           None \<Rightarrow> Inr (db\<lparr>db_entries := DAList.delete slot (db_entries db)\<rparr>)
         | Some b \<Rightarrow> write_entry slot b db)"

definition ProjectRun ::
  "jsonb_num \<Rightarrow> 'u uuid_lib \<Rightarrow> bool \<Rightarrow> 'u \<Rightarrow> ('u::linorder) db \<Rightarrow> (board_error, 'u db) result" where
  "ProjectRun num L requireVerifiedEmail rid db =
     (case RunBucketCell db rid of
        None \<Rightarrow> Inr db
      | Some c \<Rightarrow>
          (case cell_bucket L c of
             Inl e \<Rightarrow> Inr db
           | Inr b \<Rightarrow> RecomputeLeaderboardCell num requireVerifiedEmail (Key L b) c db))"

section \<open>The rebuild\<close>

text \<open>
  The distinct coordinates of the eligible runs. The statement's \<open>ORDER BY\<close>, which depends on the
  database's collation, only fixes the order of the walk.
\<close>

definition EnumerateLeaderboardCells :: "jsonb_num \<Rightarrow> bool \<Rightarrow> 'u db \<Rightarrow> 'u cell list" where
  "EnumerateLeaderboardCells num requireVerifiedEmail db =
     remdups (map cell_of
       (filter (\<lambda>e. email_gate requireVerifiedEmail db (el_UserID e)) (eligible_runs num db)))"

definition ClearLeaderboard :: "'u db \<Rightarrow> 'u db" where
  "ClearLeaderboard db = db\<lparr>db_entries := DAList.empty\<rparr>"

definition CountLeaderboardEntries :: "'u db \<Rightarrow> nat" where
  "CountLeaderboardEntries db = length (DAList.impl_of (db_entries db))"

record RebuildStats =
  st_Before :: nat
  st_After :: nat
  st_Cells :: nat

definition slot_name :: "'u uuid_lib \<Rightarrow> string \<Rightarrow> 'u \<Rightarrow> string" where
  "slot_name L key user = key @ ''|'' @ uuid_String L user"

fun rebuild_cells ::
  "jsonb_num \<Rightarrow> 'u uuid_lib \<Rightarrow> bool \<Rightarrow> 'u cell list \<Rightarrow> string list \<Rightarrow> ('u::linorder) db
     \<Rightarrow> (board_error, string list \<times> 'u db) result" where
  "rebuild_cells num L requireVerifiedEmail [] seen db = Inr (seen, db)"
| "rebuild_cells num L requireVerifiedEmail (c # cs) seen db =
     (case cell_bucket L c of
        Inl e \<Rightarrow> Inl (UnrankableCell e)
      | Inr b \<Rightarrow>
          let slot = slot_name L (Key L b) (c_UserID c)
          in if slot \<in> set seen then rebuild_cells num L requireVerifiedEmail cs seen db
             else (case RecomputeLeaderboardCell num requireVerifiedEmail (Key L b) c db of
                     Inl e \<Rightarrow> Inl e
                   | Inr db' \<Rightarrow> rebuild_cells num L requireVerifiedEmail cs (slot # seen) db'))"

definition Rebuild ::
  "jsonb_num \<Rightarrow> 'u uuid_lib \<Rightarrow> bool \<Rightarrow> ('u::linorder) db \<Rightarrow> (board_error, RebuildStats \<times> 'u db) result" where
  "Rebuild num L requireVerifiedEmail db =
     (case rebuild_cells num L requireVerifiedEmail (EnumerateLeaderboardCells num requireVerifiedEmail db) []
             (ClearLeaderboard db) of
        Inl e \<Rightarrow> Inl e
      | Inr (seen, db') \<Rightarrow>
          Inr (\<lparr>st_Before = CountLeaderboardEntries db, st_After = CountLeaderboardEntries db',
                st_Cells = length seen\<rparr>, db'))"


section \<open>The best of a list\<close>

text \<open>The order is the lexicographic one on a key, newest total first.\<close>

definition rank_key :: "'u eligible \<Rightarrow> rat \<times> int \<times> 'u" where
  "rank_key e = (- el_Total e, el_AchievedAt e, el_RunID e)"

lemma better_rank: "better a b \<longleftrightarrow> rank_key a < rank_key b"
  by (auto simp: better_def rank_key_def less_prod_def')

lemma better_total: "better a b \<or> better b a \<or> el_RunID a = el_RunID b"
  unfolding better_rank by (metis (no_types) linorder_less_linear prod.inject rank_key_def)

lemma best_of_None [simp]: "best_of es = None \<longleftrightarrow> es = []"
  by (cases es) (auto split: option.splits)

lemma best_of_Some: "best_of es = Some b \<Longrightarrow> b \<in> set es \<and> (\<forall>e \<in> set es. \<not> better e b)"
proof (induction es arbitrary: b)
  case (Cons x es)
  have irrefl: "\<not> better x x" by (simp add: better_def)
  show ?case
  proof (cases "best_of es")
    case None
    with Cons.prems irrefl show ?thesis by simp
  next
    case (Some c)
    note IH = Cons.IH [OF Some]
    show ?thesis
    proof (cases "better c x")
      case True
      with Some IH Cons.prems show ?thesis by (auto simp: better_rank)
    next
      case False
      then have "\<forall>e \<in> set es. \<not> better e x" using IH by (auto simp: better_rank)
      with False Some Cons.prems irrefl show ?thesis by auto
    qed
  qed
qed simp

text \<open>With one row per run the best does not depend on the order of the rows.\<close>

lemma best_of_cong:
  assumes "set es = set es'" and "inj_on el_RunID (set es)"
  shows "best_of es = best_of es'"
proof (cases "best_of es")
  case None
  then show ?thesis using assms(1) by (metis best_of_None set_empty)
next
  case (Some b)
  then have "es' \<noteq> []" using assms(1) by (metis best_of_None option.distinct(1) set_empty)
  then obtain c where c: "best_of es' = Some c" by fastforce
  have "b \<in> set es" "c \<in> set es" "\<not> better b c" "\<not> better c b"
    using best_of_Some [OF Some] best_of_Some [OF c] assms(1) by auto
  then have "b = c" using assms(2) better_total [of b c] by (auto dest: inj_onD)
  with Some c show ?thesis by simp
qed

section \<open>Rows of the view\<close>

lemma eligible_runD:
  assumes "eligible_run num db rid = Some e"
  shows "el_RunID e = rid" and "RunBucketCell db rid = Some (cell_of e)"
    and "\<exists>r. run_row db rid = Some r \<and> may_rank db r \<and> r_UserID r = el_UserID e"
  using assms
  by (auto simp: eligible_run_def RunBucketCell_def cell_of_def split: option.splits if_splits)

lemma set_eligible_runs: "set (eligible_runs num db) = {e. \<exists>rid. eligible_run num db rid = Some e}"
proof -
  have "e \<in> set (eligible_runs num db) \<longleftrightarrow>
      (\<exists>rid r. run_row db rid = Some r \<and> eligible_run num db rid = Some e)" for e
    by (force simp: eligible_runs_def List.map_filter_def image_iff row_in_table)
  moreover have "eligible_run num db rid = Some e \<Longrightarrow> \<exists>r. run_row db rid = Some r" for rid e
    using eligible_runD(3) by fastforce
  ultimately show ?thesis by blast
qed

lemma eligible_inj: "inj_on el_RunID (set (eligible_runs num db))"
proof (rule inj_onI)
  fix x y assume "x \<in> set (eligible_runs num db)" "y \<in> set (eligible_runs num db)" "el_RunID x = el_RunID y"
  then obtain rid rid' where "eligible_run num db rid = Some x" "eligible_run num db rid' = Some y"
    by (auto simp: set_eligible_runs)
  moreover from this have "rid = rid'" using \<open>el_RunID x = el_RunID y\<close> eligible_runD(1) by metis
  ultimately show "x = y" by simp
qed

lemma eligible_row: "e \<in> set (eligible_runs num db) \<longleftrightarrow> eligible_run num db (el_RunID e) = Some e"
  by (auto simp: set_eligible_runs dest: eligible_runD(1))

section \<open>A cell and its board\<close>

text \<open>The \<open>CHECK\<close> constraint of the \<open>runs\<close> table.\<close>

definition one_dimension :: "'u run \<Rightarrow> bool" where
  "one_dimension r \<longleftrightarrow>
     (if r_TextSourceKind r = ''quote'' then r_DurationMs r = None \<and> r_WordCount r = None
      else (r_DurationMs r = None) \<noteq> (r_WordCount r = None))"

definition runs_ok :: "'u db \<Rightarrow> bool" where
  "runs_ok db \<longleftrightarrow> (\<forall>rid r. run_row db rid = Some r \<longrightarrow> one_dimension r)"

definition cell_ok :: "'u cell \<Rightarrow> bool" where
  "cell_ok c \<longleftrightarrow>
     (if c_Kind c = ''quote'' then c_DurationMs c = None \<and> c_WordCount c = None
      else (c_DurationMs c = None) \<noteq> (c_WordCount c = None))"

lemma RunBucketCell_ok:
  assumes "runs_ok db" and "RunBucketCell db rid = Some c"
  shows "cell_ok c"
proof -
  obtain r where r: "run_row db rid = Some r" "c_Kind c = r_TextSourceKind r"
      "c_DurationMs c = r_DurationMs r" "c_WordCount c = r_WordCount r"
    using assms(2) by (auto simp: RunBucketCell_def)
  have "one_dimension r" using assms(1) r(1) by (simp add: runs_ok_def)
  then show ?thesis by (simp only: one_dimension_def cell_ok_def r)
qed

lemma checked_eq: "checked L b = Inr c \<longleftrightarrow> c = b \<and> validate L c = None"
  by (auto simp: checked_Inr)

lemma NewBucket_Inr:
  "NewBucket L m d w lang src = Inr b \<longleftrightarrow>
     (\<exists>n. (m = ModeTime \<and> d = Some n \<or> m = ModeWords \<and> w = Some n) \<and>
        b = \<lparr>b_Mode = m, b_Dimension = n, b_Lang = lang, b_TextSource = src, b_QuoteID = uuid_Nil L\<rparr>) \<and>
     validate L b = None"
  unfolding NewBucket_def Let_def
  by (cases d; cases w; cases "m = ModeTime"; cases "m = ModeWords")
    (simp_all add: checked_eq)

lemma cell_bucket_valid: "cell_bucket L c = Inr b \<Longrightarrow> validate L b = None"
  by (auto simp: cell_bucket_def NewQuoteBucket_def checked_Inr NewBucket_Inr split: option.splits)

lemma NewQuoteBucket_Inr:
  "NewQuoteBucket L q = Inr b \<longleftrightarrow> b = quote_bucket q \<and> q \<noteq> uuid_Nil L"
proof (cases "q = uuid_Nil L")
  case True
  then have "\<not> IsQuote L (quote_bucket q)" by (simp add: IsQuote_def quote_bucket_def)
  moreover have "\<not> language_board (quote_bucket q)" by (simp add: language_board_def quote_bucket_def)
  ultimately have "validate L (quote_bucket q) \<noteq> None" by (simp only: validate_language not_False_eq_True)
  with True show ?thesis by (auto simp: NewQuoteBucket_def checked_Inr)
next
  case False
  then have "IsQuote L (quote_bucket q)" by (simp add: IsQuote_def quote_bucket_def)
  then have "validate L (quote_bucket q) = None" by (simp add: validate_quote) (simp add: quote_bucket_def)
  with False show ?thesis by (auto simp: NewQuoteBucket_def checked_Inr)
qed

text \<open>Two cells of the table's rows name the same board exactly when the statement matches them.\<close>

lemma same_bucket_iff:
  assumes "cell_bucket L c = Inr b" and "cell_bucket L c' = Inr b'" and "cell_ok c" and "cell_ok c'"
  shows "b = b' \<longleftrightarrow>
    c_QuoteID c = c_QuoteID c' \<and>
    (c_QuoteID c \<noteq> None \<or>
     c_Mode c = c_Mode c' \<and> c_DurationMs c = c_DurationMs c' \<and> c_WordCount c = c_WordCount c' \<and>
     c_Lang c = c_Lang c' \<and> c_Kind c = c_Kind c')"
proof -
  have lang: "\<not> IsQuote L x \<and> b_Mode x = c_Mode k \<and> b_Lang x = c_Lang k \<and> b_TextSource x = c_Kind k \<and>
      b_QuoteID x = uuid_Nil L \<and>
      (c_Mode k = ModeTime \<and> c_DurationMs k = Some (b_Dimension x) \<and> c_WordCount k = None \<or>
       c_Mode k = ModeWords \<and> c_WordCount k = Some (b_Dimension x) \<and> c_DurationMs k = None)"
    if "cell_bucket L k = Inr x" "c_QuoteID k = None" "cell_ok k" for k x
    using that by (auto simp: cell_bucket_def NewBucket_Inr cell_ok_def IsQuote_def split: if_splits)
  have quote: "x = quote_bucket q \<and> q \<noteq> uuid_Nil L"
    if "cell_bucket L k = Inr x" "c_QuoteID k = Some q" for k x q
    using that by (simp add: cell_bucket_def NewQuoteBucket_Inr)
  show ?thesis
  proof (cases "c_QuoteID c"; cases "c_QuoteID c'")
    assume none: "c_QuoteID c = None" "c_QuoteID c' = None"
    note l = lang [OF assms(1) none(1) assms(3)] lang [OF assms(2) none(2) assms(4)]
    then show ?thesis using none by (cases b; cases b') auto
  next
    fix q assume q: "c_QuoteID c = None" "c_QuoteID c' = Some q"
    then show ?thesis
      using lang [OF assms(1) q(1) assms(3)] quote [OF assms(2) q(2)] by (auto simp: quote_bucket_def)
  next
    fix q assume q: "c_QuoteID c = Some q" "c_QuoteID c' = None"
    then show ?thesis
      using lang [OF assms(2) q(2) assms(4)] quote [OF assms(1) q(1)] by (auto simp: quote_bucket_def)
  next
    fix q q' assume q: "c_QuoteID c = Some q" "c_QuoteID c' = Some q'"
    then show ?thesis
      using quote [OF assms(1) q(1)] quote [OF assms(2) q(2)] by (auto simp: quote_bucket_def)
  qed
qed

text \<open>The board an eligible run competes on: its cell's key.\<close>

definition on_board :: "'u uuid_lib \<Rightarrow> string \<Rightarrow> 'u \<Rightarrow> 'u eligible \<Rightarrow> bool" where
  "on_board L key user e \<longleftrightarrow>
     el_UserID e = user \<and> (case cell_bucket L (cell_of e) of Inl err \<Rightarrow> False | Inr b \<Rightarrow> Key L b = key)"

lemma in_cell_on_board:
  assumes "uuid_law L" and "runs_ok db" and "eligible_run num db rid = Some e"
    and "cell_bucket L c = Inr b" and "cell_ok c"
  shows "in_cell c e \<longleftrightarrow> on_board L (Key L b) (c_UserID c) e"
proof -
  have ok: "cell_ok (cell_of e)"
    using RunBucketCell_ok [OF assms(2) eligible_runD(2) [OF assms(3)]] .
  have cellE: "c_UserID (cell_of e) = el_UserID e" "c_QuoteID (cell_of e) = el_QuoteID e"
    "c_Mode (cell_of e) = el_Mode e" "c_DurationMs (cell_of e) = el_DurationMs e"
    "c_WordCount (cell_of e) = el_WordCount e" "c_Lang (cell_of e) = el_Lang e" "c_Kind (cell_of e) = el_Kind e"
    by (simp_all add: cell_of_def)
  show ?thesis
  proof (cases "cell_bucket L (cell_of e)")
    case (Inr b')
    have "Key L b' = Key L b \<longleftrightarrow> b' = b"
      using Key_inj [OF assms(1)] cell_bucket_valid [OF Inr] cell_bucket_valid [OF assms(4)] by metis
    then show ?thesis
      using same_bucket_iff [OF Inr assms(4) ok assms(5)] Inr by (auto simp: on_board_def in_cell_def cellE)
  next
    case (Inl err)
    have "\<not> in_cell c e"
    proof
      assume "in_cell c e"
      then have "cell_bucket L (cell_of e) = cell_bucket L c"
        by (auto simp: in_cell_def cell_bucket_def cellE split: option.split)
      with Inl assms(4) show False by simp
    qed
    with Inl show ?thesis by (simp add: on_board_def)
  qed
qed


section \<open>What the boards should show\<close>

definition board_best ::
  "jsonb_num \<Rightarrow> 'u uuid_lib \<Rightarrow> bool \<Rightarrow> ('u::linorder) db \<Rightarrow> string \<Rightarrow> 'u \<Rightarrow> 'u eligible option" where
  "board_best num L req db key user =
     best_of (filter (\<lambda>e. on_board L key user e \<and> email_gate req db user) (eligible_runs num db))"

definition boards_current :: "jsonb_num \<Rightarrow> 'u uuid_lib \<Rightarrow> bool \<Rightarrow> ('u::linorder) db \<Rightarrow> bool" where
  "boards_current num L req db \<longleftrightarrow>
     (\<forall>key user. map_option be_RunID (DAList.lookup (db_entries db) (key, user)) =
                map_option el_RunID (board_best num L req db key user))"

lemma eligible_inj_filter: "inj_on el_RunID (set (filter P (eligible_runs num db)))"
  using eligible_inj by (rule inj_on_subset) auto

lemma board_best_cong:
  assumes "\<And>e. on_board L key user e \<Longrightarrow>
      e \<in> set (eligible_runs num db) \<longleftrightarrow> e \<in> set (eligible_runs num db')"
    and "db_verified db' = db_verified db"
  shows "board_best num L req db' key user = board_best num L req db key user"
  unfolding board_best_def using assms eligible_inj_filter
  by (intro best_of_cong) (auto simp: email_gate_def)

text \<open>The view reads the runs, their verdicts and the quotes.\<close>

lemma view_cong:
  assumes "db_runs db' = db_runs db" and "db_verdicts db' = db_verdicts db" and "db_quotes db' = db_quotes db"
  shows "eligible_run num db' = eligible_run num db" and "eligible_runs num db' = eligible_runs num db"
    and "RunBucketCell db' = RunBucketCell db"
proof -
  have quote: "resolved_quote db' = resolved_quote db"
    unfolding resolved_quote_def assms ..
  then have rank: "may_rank db' = may_rank db" by (simp add: may_rank_def fun_eq_iff)
  show el: "eligible_run num db' = eligible_run num db"
    by (rule ext) (unfold eligible_run_def assms quote rank, rule refl)
  show "eligible_runs num db' = eligible_runs num db" unfolding eligible_runs_def el assms ..
  show "RunBucketCell db' = RunBucketCell db" unfolding RunBucketCell_def quote assms ..
qed

lemma view_frame [simp]:
  "eligible_run num (db\<lparr>db_entries := es\<rparr>) = eligible_run num db"
  "eligible_run num (db\<lparr>db_keyboard := kb\<rparr>) = eligible_run num db"
  "eligible_runs num (db\<lparr>db_entries := es\<rparr>) = eligible_runs num db"
  "eligible_runs num (db\<lparr>db_keyboard := kb\<rparr>) = eligible_runs num db"
  "RunBucketCell (db\<lparr>db_entries := es\<rparr>) = RunBucketCell db"
  "RunBucketCell (db\<lparr>db_keyboard := kb\<rparr>) = RunBucketCell db"
  by (rule view_cong; simp)+

lemma best_frame [simp]:
  "board_best num L req (db\<lparr>db_entries := es\<rparr>) = board_best num L req db"
  "board_best num L req (db\<lparr>db_keyboard := kb\<rparr>) = board_best num L req db"
  by (simp_all add: board_best_def email_gate_def fun_eq_iff)

lemma current_keyboard [simp]:
  "boards_current num L req (db\<lparr>db_keyboard := kb\<rparr>) = boards_current num L req db"
  by (simp add: boards_current_def)

lemma write_entry_Inr:
  assumes "write_entry slot b db = Inr db'"
  shows "\<exists>es. db' = db\<lparr>db_entries := es\<rparr> \<and>
    map_option be_RunID (DAList.lookup es slot) = Some (el_RunID b) \<and>
    (\<forall>s. s \<noteq> slot \<longrightarrow> DAList.lookup es s = DAList.lookup (db_entries db) s)"
proof (cases "\<exists>e. DAList.lookup (db_entries db) slot = Some e \<and> be_RunID e = el_RunID b")
  case True
  with assms have "db' = db" by (auto simp: write_entry_def split: if_splits)
  with True show ?thesis by (intro exI [of _ "db_entries db"]) auto
next
  case False
  with assms have "db' = db\<lparr>db_entries := DAList.update slot (entry_of db b) (db_entries db)\<rparr>"
    by (auto simp: write_entry_def split: option.splits if_splits)
  then show ?thesis
    by (intro exI [of _ "DAList.update slot (entry_of db b) (db_entries db)"])
      (simp add: lookup_update entry_of_def)
qed

lemma candidates_on_board:
  assumes "uuid_law L" and "runs_ok db" and "cell_bucket L c = Inr b" and "cell_ok c"
  shows "filter (\<lambda>e. in_cell c e \<and> email_gate req db (c_UserID c)) (eligible_runs num db) =
    filter (\<lambda>e. on_board L (Key L b) (c_UserID c) e \<and> email_gate req db (c_UserID c)) (eligible_runs num db)"
  using in_cell_on_board [OF assms(1,2) _ assms(3,4)] by (intro filter_cong) (auto simp: eligible_row)

text \<open>The statement sets its cell to the best run of the board and touches nothing else.\<close>

lemma recompute_Inr:
  assumes "uuid_law L" and "runs_ok db" and "cell_bucket L c = Inr b" and "cell_ok c"
    and "RecomputeLeaderboardCell num req (Key L b) c db = Inr db'"
  shows "\<exists>es. db' = db\<lparr>db_entries := es\<rparr> \<and>
    map_option be_RunID (DAList.lookup es (Key L b, c_UserID c)) =
      map_option el_RunID (board_best num L req db (Key L b) (c_UserID c)) \<and>
    (\<forall>s. s \<noteq> (Key L b, c_UserID c) \<longrightarrow> DAList.lookup es s = DAList.lookup (db_entries db) s)"
proof -
  let ?best = "board_best num L req db (Key L b) (c_UserID c)"
  have res: "(case ?best of
        None \<Rightarrow> Inr (db\<lparr>db_entries := DAList.delete (Key L b, c_UserID c) (db_entries db)\<rparr>)
      | Some e \<Rightarrow> write_entry (Key L b, c_UserID c) e db) = Inr db'"
    using assms(5) candidates_on_board [OF assms(1-4), of req num]
    by (auto simp: RecomputeLeaderboardCell_def Let_def board_best_def split: if_splits)
  show ?thesis
  proof (cases ?best)
    case None
    with res show ?thesis
      by (intro exI [of _ "DAList.delete (Key L b, c_UserID c) (db_entries db)"]) auto
  next
    case (Some e)
    with res have "write_entry (Key L b, c_UserID c) e db = Inr db'" by simp
    from write_entry_Inr [OF this] Some show ?thesis by simp
  qed
qed

section \<open>Keeping the boards current\<close>

text \<open>A write that concerns one run: only that run's eligibility may change, and its cell does not.\<close>

definition touches :: "jsonb_num \<Rightarrow> 'u \<Rightarrow> 'u db \<Rightarrow> 'u db \<Rightarrow> bool" where
  "touches num rid db db' \<longleftrightarrow>
     (\<forall>r. r \<noteq> rid \<longrightarrow> eligible_run num db' r = eligible_run num db r) \<and>
     RunBucketCell db' rid = RunBucketCell db rid \<and> db_entries db' = db_entries db \<and>
     db_verified db' = db_verified db \<and> runs_ok db'"

lemma board_best_touched:
  assumes "touches num rid db db'"
    and "\<And>c b. RunBucketCell db rid = Some c \<Longrightarrow> cell_bucket L c = Inr b \<Longrightarrow> (key, user) \<noteq> (Key L b, c_UserID c)"
  shows "board_best num L req db' key user = board_best num L req db key user"
proof (rule board_best_cong)
  fix e assume board: "on_board L key user e"
  have own: "el_RunID e \<noteq> rid" if "eligible_run num d (el_RunID e) = Some e" "RunBucketCell d rid = RunBucketCell db rid" for d
  proof
    assume "el_RunID e = rid"
    then have cell: "RunBucketCell db rid = Some (cell_of e)" using eligible_runD(2) that by metis
    obtain b where "cell_bucket L (cell_of e) = Inr b" "Key L b = key" "el_UserID e = user"
      using board by (auto simp: on_board_def split: sum.splits)
    with assms(2) [OF cell] show False by (simp add: cell_of_def)
  qed
  show "e \<in> set (eligible_runs num db) \<longleftrightarrow> e \<in> set (eligible_runs num db')"
    using assms(1) own [of db] own [of db'] unfolding eligible_row touches_def by metis
qed (use assms(1) in \<open>simp add: touches_def\<close>)

lemma ProjectRun_current:
  assumes "uuid_law L" and "boards_current num L req db" and "touches num rid db db1"
    and "ProjectRun num L req rid db1 = Inr db2"
  shows "boards_current num L req db2"
proof -
  have cell: "RunBucketCell db1 rid = RunBucketCell db rid" and ok: "runs_ok db1"
    and entries: "db_entries db1 = db_entries db"
    using assms(3) by (simp_all add: touches_def)
  show ?thesis
  proof (cases "\<exists>c b. RunBucketCell db rid = Some c \<and> cell_bucket L c = Inr b")
    case False
    then have "db2 = db1" using assms(4) cell by (auto simp: ProjectRun_def split: option.splits sum.splits)
    moreover have "board_best num L req db1 key user = board_best num L req db key user" for key user
      using False by (intro board_best_touched [OF assms(3)]) auto
    ultimately show ?thesis using assms(2) entries by (simp add: boards_current_def)
  next
    case True
    then obtain c b where cb: "RunBucketCell db rid = Some c" "cell_bucket L c = Inr b" by blast
    have cok: "cell_ok c" using RunBucketCell_ok [OF ok] cb(1) cell by simp
    have "RecomputeLeaderboardCell num req (Key L b) c db1 = Inr db2"
      using assms(4) cb cell by (simp add: ProjectRun_def)
    then obtain es where es: "db2 = db1\<lparr>db_entries := es\<rparr>"
      "map_option be_RunID (DAList.lookup es (Key L b, c_UserID c)) =
         map_option el_RunID (board_best num L req db1 (Key L b) (c_UserID c))"
      "\<forall>s. s \<noteq> (Key L b, c_UserID c) \<longrightarrow> DAList.lookup es s = DAList.lookup (db_entries db1) s"
      using recompute_Inr [OF assms(1) ok cb(2) cok] by blast
    have "map_option be_RunID (DAList.lookup es (key, user)) =
        map_option el_RunID (board_best num L req db1 key user)" for key user
    proof (cases "(key, user) = (Key L b, c_UserID c)")
      case False
      then have "board_best num L req db1 key user = board_best num L req db key user"
        using cb by (intro board_best_touched [OF assms(3)]) auto
      then show ?thesis using False es(3) entries assms(2) by (simp add: boards_current_def)
    qed (use es(2) in simp)
    then show ?thesis using es(1) by (simp add: boards_current_def)
  qed
qed


section \<open>When the statement cannot fail\<close>

lemma on_board_unique: "on_board L key user e \<Longrightarrow> on_board L key' user' e \<Longrightarrow> (key, user) = (key', user')"
  by (auto simp: on_board_def split: sum.splits)

definition board_ready :: "'u uuid_lib \<Rightarrow> 'u eligible \<Rightarrow> bool" where
  "board_ready L e \<longleftrightarrow>
     is_ok (cell_bucket L (cell_of e)) \<and> is_bigint (el_Total e) \<and> score_packable \<lfloor>el_Total e\<rfloor>"

text \<open>Every slot but one shows a run of its own board.\<close>

definition slots_own :: "jsonb_num \<Rightarrow> 'u uuid_lib \<Rightarrow> 'u db \<Rightarrow> string \<times> 'u \<Rightarrow> bool" where
  "slots_own num L db slot \<longleftrightarrow>
     (\<forall>key user e. (key, user) \<noteq> slot \<longrightarrow> DAList.lookup (db_entries db) (key, user) = Some e \<longrightarrow>
        (\<exists>x \<in> set (eligible_runs num db). el_RunID x = be_RunID e \<and> on_board L key user x))"

lemma board_best_Some:
  assumes "board_best num L req db key user = Some e"
  shows "e \<in> set (eligible_runs num db)" and "on_board L key user e" and "email_gate req db user"
  using best_of_Some [OF assms [unfolded board_best_def]] by auto

lemma current_slots_own:
  assumes "boards_current num L req db"
  shows "slots_own num L db slot"
  unfolding slots_own_def
proof (intro allI impI)
  fix key user e assume "DAList.lookup (db_entries db) (key, user) = Some e"
  then have "map_option el_RunID (board_best num L req db key user) = Some (be_RunID e)"
    using assms unfolding boards_current_def by (metis option.map(2))
  then obtain z where "board_best num L req db key user = Some z" "el_RunID z = be_RunID e" by auto
  then show "\<exists>x \<in> set (eligible_runs num db). el_RunID x = be_RunID e \<and> on_board L key user x"
    using board_best_Some by (intro bexI [of _ z]) auto
qed

lemma held_elsewhere_iff:
  "held_elsewhere db slot rid \<longleftrightarrow>
     (\<exists>s e. s \<noteq> slot \<and> DAList.lookup (db_entries db) s = Some e \<and> be_RunID e = rid)"
proof -
  have "held_elsewhere db slot rid \<longleftrightarrow>
      (\<exists>p \<in> set (DAList.impl_of (db_entries db)). fst p \<noteq> slot \<and> be_RunID (snd p) = rid)"
    by (simp add: held_elsewhere_def list_ex_iff case_prod_beta)
  also have "\<dots> \<longleftrightarrow> (\<exists>s e. (s, e) \<in> set (DAList.impl_of (db_entries db)) \<and> s \<noteq> slot \<and> be_RunID e = rid)"
    by (metis fst_conv prod.collapse snd_conv)
  finally show ?thesis unfolding row_in_table by blast
qed

lemma recompute_total:
  assumes "uuid_law L" and "runs_ok db" and "cell_bucket L c = Inr b" and "cell_ok c"
    and "slots_own num L db (Key L b, c_UserID c)"
    and ready: "\<forall>e \<in> set (eligible_runs num db). on_board L (Key L b) (c_UserID c) e \<longrightarrow>
      email_gate req db (c_UserID c) \<longrightarrow> is_bigint (el_Total e) \<and> score_packable \<lfloor>el_Total e\<rfloor>"
  shows "\<exists>db'. RecomputeLeaderboardCell num req (Key L b) c db = Inr db'"
proof -
  let ?slot = "(Key L b, c_UserID c)"
  let ?cands = "filter (\<lambda>e. on_board L (Key L b) (c_UserID c) e \<and> email_gate req db (c_UserID c)) (eligible_runs num db)"
  have ready': "\<forall>e \<in> set ?cands. is_bigint (el_Total e) \<and> score_packable \<lfloor>el_Total e\<rfloor>"
    using ready by simp
  have "\<not> held_elsewhere db ?slot (el_RunID e)" if "best_of ?cands = Some e" for e
  proof
    assume "held_elsewhere db ?slot (el_RunID e)"
    then obtain s x where sx: "s \<noteq> ?slot" "DAList.lookup (db_entries db) s = Some x" "be_RunID x = el_RunID e"
      unfolding held_elsewhere_iff by blast
    obtain key user where "s = (key, user)" by (cases s)
    with sx have x: "(key, user) \<noteq> ?slot"
      "DAList.lookup (db_entries db) (key, user) = Some x" "be_RunID x = el_RunID e" by simp_all
    then obtain y where "y \<in> set (eligible_runs num db)" "el_RunID y = el_RunID e" "on_board L key user y"
      using assms(5) [unfolded slots_own_def, rule_format, OF x(1,2)] x(3) by auto
    moreover have "e \<in> set (eligible_runs num db)" "on_board L (Key L b) (c_UserID c) e"
      using best_of_Some [OF that] by auto
    ultimately have "on_board L key user e" "on_board L (Key L b) (c_UserID c) e"
      by (auto dest: inj_onD [OF eligible_inj])
    with x(1) on_board_unique show False by metis
  qed
  moreover have "score_packable \<lfloor>el_Total e\<rfloor>" if "best_of ?cands = Some e" for e
    using best_of_Some [OF that] ready' by auto
  moreover have "\<not> list_ex (\<lambda>e. \<not> is_bigint (el_Total e)) ?cands"
    using ready' by (auto simp: list_ex_iff)
  ultimately show ?thesis
    using candidates_on_board [OF assms(1-4), of req num]
    by (auto simp: RecomputeLeaderboardCell_def Let_def write_entry_def split: option.split)
qed

text \<open>After a write that concerned one run, projecting it succeeds when the totals are storable.\<close>

definition scores_ok :: "jsonb_num \<Rightarrow> 'u db \<Rightarrow> bool" where
  "scores_ok num db \<longleftrightarrow>
     (\<forall>e \<in> set (eligible_runs num db). is_bigint (el_Total e) \<and> score_packable \<lfloor>el_Total e\<rfloor>)"

lemma ProjectRun_total:
  assumes "uuid_law L" and "boards_current num L req db" and "touches num rid db db1" and "scores_ok num db1"
  shows "\<exists>db2. ProjectRun num L req rid db1 = Inr db2"
proof (cases "\<exists>c b. RunBucketCell db1 rid = Some c \<and> cell_bucket L c = Inr b")
  case False
  then show ?thesis by (auto simp: ProjectRun_def split: option.split sum.split)
next
  case True
  then obtain c b where cb: "RunBucketCell db1 rid = Some c" "cell_bucket L c = Inr b" by blast
  have t: "RunBucketCell db1 rid = RunBucketCell db rid" "runs_ok db1" "db_entries db1 = db_entries db"
    using assms(3) by (simp_all add: touches_def)
  have "slots_own num L db1 (Key L b, c_UserID c)"
    unfolding slots_own_def
  proof (intro allI impI)
    fix key user e
    assume other: "(key, user) \<noteq> (Key L b, c_UserID c)" and "DAList.lookup (db_entries db1) (key, user) = Some e"
    then have "map_option el_RunID (board_best num L req db key user) = Some (be_RunID e)"
      using assms(2) t(3) unfolding boards_current_def by (metis option.map(2))
    then obtain z where z: "board_best num L req db key user = Some z" "el_RunID z = be_RunID e" by auto
    have "board_best num L req db1 key user = board_best num L req db key user"
      using cb t(1) other by (intro board_best_touched [OF assms(3)]) auto
    with z board_best_Some [of num L req db1 key user z]
    show "\<exists>x \<in> set (eligible_runs num db1). el_RunID x = be_RunID e \<and> on_board L key user x"
      by (intro bexI [of _ z]) auto
  qed
  then show ?thesis
    using recompute_total [OF assms(1) t(2) cb(2) RunBucketCell_ok [OF t(2) cb(1)]] cb assms(4)
    by (simp add: ProjectRun_def scores_ok_def)
qed

section \<open>The rebuild\<close>

definition uuid_plain_slot :: "'u uuid_lib \<Rightarrow> bool" where
  "uuid_plain_slot L \<longleftrightarrow> (\<forall>u. CHR ''|'' \<notin> set (uuid_String L u))"

lemma slot_name_inj:
  assumes "uuid_law L" and "uuid_plain_slot L" and "slot_name L k u = slot_name L k' u'"
  shows "k = k' \<and> u = u'"
proof -
  let ?f = "\<lambda>s. takeWhile (\<lambda>c. c \<noteq> CHR ''|'') (rev s)"
  have "?f (slot_name L k u) = rev (uuid_String L u)" for k u
    using assms(2) by (simp add: slot_name_def uuid_plain_slot_def takeWhile_append takeWhile_eq_all_conv)
  then have "uuid_String L u = uuid_String L u'" using assms(3) by (metis rev_rev_ident)
  then have "u = u'" using assms(1) by (metis option.inject uuid_law_def)
  with assms(3) show ?thesis by (simp add: slot_name_def)
qed

definition boards_exact :: "jsonb_num \<Rightarrow> 'u uuid_lib \<Rightarrow> bool \<Rightarrow> ('u::linorder) db \<Rightarrow> bool" where
  "boards_exact num L req db \<longleftrightarrow>
     (\<forall>key user. DAList.lookup (db_entries db) (key, user) =
        map_option (entry_of db) (board_best num L req db key user))"

lemma exact_current: "boards_exact num L req db \<Longrightarrow> boards_current num L req db"
  by (simp add: boards_exact_def boards_current_def option.map_comp comp_def entry_of_def)

text \<open>The slots named in \<open>seen\<close> are rebuilt, every other slot is empty.\<close>

definition rebuilt ::
  "jsonb_num \<Rightarrow> 'u uuid_lib \<Rightarrow> bool \<Rightarrow> string list \<Rightarrow> ('u::linorder) db \<Rightarrow> bool" where
  "rebuilt num L req seen db \<longleftrightarrow>
     (\<forall>key user. DAList.lookup (db_entries db) (key, user) =
        (if slot_name L key user \<in> set seen
         then map_option (entry_of db) (board_best num L req db key user) else None))"

lemma entry_of_frame [simp]: "entry_of (db\<lparr>db_entries := es\<rparr>) = entry_of db"
  by (simp add: entry_of_def fun_eq_iff cong: option.case_cong)

lemma runs_ok_frame [simp]: "runs_ok (db\<lparr>db_entries := es\<rparr>) = runs_ok db"
  by (simp add: runs_ok_def)

lemma rebuilt_slots_own:
  assumes "rebuilt num L req seen db"
  shows "slots_own num L db slot"
  unfolding slots_own_def
proof (intro allI impI)
  fix key user e assume "DAList.lookup (db_entries db) (key, user) = Some e"
  then obtain z where "board_best num L req db key user = Some z" "e = entry_of db z"
    using assms by (auto simp: rebuilt_def split: if_splits)
  then show "\<exists>x \<in> set (eligible_runs num db). el_RunID x = be_RunID e \<and> on_board L key user x"
    using board_best_Some by (intro bexI [of _ z]) (auto simp: entry_of_def)
qed

lemma rebuilt_step:
  assumes "uuid_law L" and "uuid_plain_slot L" and "runs_ok db" and "cell_bucket L c = Inr b" and "cell_ok c"
    and "rebuilt num L req seen db" and "slot_name L (Key L b) (c_UserID c) \<notin> set seen"
    and "RecomputeLeaderboardCell num req (Key L b) c db = Inr db'"
  shows "rebuilt num L req (slot_name L (Key L b) (c_UserID c) # seen) db' \<and> (\<exists>es. db' = db\<lparr>db_entries := es\<rparr>)"
proof -
  let ?slot = "(Key L b, c_UserID c)"
  obtain es where es: "db' = db\<lparr>db_entries := es\<rparr>"
    "\<forall>s. s \<noteq> ?slot \<longrightarrow> DAList.lookup es s = DAList.lookup (db_entries db) s"
    using recompute_Inr [OF assms(1,3,4,5,8)] by blast
  have empty: "DAList.lookup (db_entries db) ?slot = None"
    using assms(6,7) by (simp add: rebuilt_def)
  have res: "(case board_best num L req db (Key L b) (c_UserID c) of
        None \<Rightarrow> Inr (db\<lparr>db_entries := DAList.delete ?slot (db_entries db)\<rparr>)
      | Some e \<Rightarrow> write_entry ?slot e db) = Inr db'"
    using assms(8) candidates_on_board [OF assms(1,3,4,5), of req num]
    by (auto simp: RecomputeLeaderboardCell_def Let_def board_best_def split: if_splits)
  have "DAList.lookup (db_entries db') ?slot = map_option (entry_of db) (board_best num L req db (Key L b) (c_UserID c))"
  proof (cases "board_best num L req db (Key L b) (c_UserID c)")
    case None
    with res show ?thesis by auto
  next
    case (Some e)
    with res empty show ?thesis by (auto simp: write_entry_def split: if_splits)
  qed
  then have here: "DAList.lookup es ?slot = map_option (entry_of db) (board_best num L req db (Key L b) (c_UserID c))"
    using es(1) by simp
  have "DAList.lookup es (key, user) =
      (if slot_name L key user \<in> set (slot_name L (Key L b) (c_UserID c) # seen)
       then map_option (entry_of db) (board_best num L req db key user) else None)" for key user
  proof (cases "(key, user) = ?slot")
    case True
    with here show ?thesis by simp
  next
    case False
    then have "slot_name L key user \<noteq> slot_name L (Key L b) (c_UserID c)"
      using slot_name_inj [OF assms(1,2)] by blast
    with False es(2) assms(6) show ?thesis by (simp add: rebuilt_def)
  qed
  with es(1) show ?thesis by (auto simp: rebuilt_def)
qed

lemma rebuild_cells_Inr:
  assumes "uuid_law L" and "uuid_plain_slot L"
  shows "rebuild_cells num L req cs seen db = Inr (seen', db') \<Longrightarrow> runs_ok db \<Longrightarrow>
     \<forall>c \<in> set cs. cell_ok c \<Longrightarrow> rebuilt num L req seen db \<Longrightarrow>
     rebuilt num L req seen' db' \<and> (\<exists>es. db' = db\<lparr>db_entries := es\<rparr>) \<and> set seen \<subseteq> set seen' \<and>
     (\<forall>c \<in> set cs. \<exists>b. cell_bucket L c = Inr b \<and> slot_name L (Key L b) (c_UserID c) \<in> set seen')"
proof (induction cs arbitrary: seen db)
  case Nil
  then show ?case by (auto intro: exI [of _ "db_entries db"])
next
  case (Cons c cs)
  obtain b where b: "cell_bucket L c = Inr b"
    using Cons.prems(1) by (auto split: sum.splits)
  let ?slot = "slot_name L (Key L b) (c_UserID c)"
  show ?case
  proof (cases "?slot \<in> set seen")
    case True
    then have "rebuild_cells num L req cs seen db = Inr (seen', db')" using Cons.prems(1) b by (simp add: Let_def)
    from Cons.IH [OF this] Cons.prems True b show ?thesis by auto
  next
    case False
    then obtain db1 where db1: "RecomputeLeaderboardCell num req (Key L b) c db = Inr db1"
      and rest: "rebuild_cells num L req cs (?slot # seen) db1 = Inr (seen', db')"
      using Cons.prems(1) b by (auto simp: Let_def split: sum.splits)
    obtain es where step: "rebuilt num L req (?slot # seen) db1" "db1 = db\<lparr>db_entries := es\<rparr>"
      using rebuilt_step [OF assms Cons.prems(2) b _ Cons.prems(4) False db1] Cons.prems(3) by auto
    then have "rebuilt num L req seen' db' \<and> (\<exists>es. db' = db1\<lparr>db_entries := es\<rparr>) \<and> set (?slot # seen) \<subseteq> set seen' \<and>
        (\<forall>c \<in> set cs. \<exists>b. cell_bucket L c = Inr b \<and> slot_name L (Key L b) (c_UserID c) \<in> set seen')"
      using Cons.IH [OF rest] Cons.prems by simp
    then show ?thesis using b step(2) by auto
  qed
qed

lemma cells_ok: "runs_ok db \<Longrightarrow> c \<in> set (EnumerateLeaderboardCells num req db) \<Longrightarrow> cell_ok c"
  unfolding EnumerateLeaderboardCells_def
  by (auto simp: eligible_row dest: eligible_runD(2) intro: RunBucketCell_ok)

lemma Rebuild_exact:
  assumes "uuid_law L" and "uuid_plain_slot L" and "runs_ok db" and "Rebuild num L req db = Inr (stats, db')"
  shows "boards_exact num L req db' \<and> (\<exists>es. db' = db\<lparr>db_entries := es\<rparr>)"
proof -
  let ?cells = "EnumerateLeaderboardCells num req db"
  obtain seen where run: "rebuild_cells num L req ?cells [] (ClearLeaderboard db) = Inr (seen, db')"
    using assms(4) by (auto simp: Rebuild_def split: sum.splits)
  have start: "rebuilt num L req [] (ClearLeaderboard db)" "runs_ok (ClearLeaderboard db)"
    using assms(3) by (simp_all add: rebuilt_def ClearLeaderboard_def)
  obtain es where res: "rebuilt num L req seen db'" "db' = db\<lparr>db_entries := es\<rparr>"
    "\<forall>c \<in> set ?cells. \<exists>b. cell_bucket L c = Inr b \<and> slot_name L (Key L b) (c_UserID c) \<in> set seen"
    using rebuild_cells_Inr [OF assms(1,2) run start(2) _ start(1)] cells_ok [OF assms(3)]
    by (auto simp: ClearLeaderboard_def)
  have "slot_name L key user \<in> set seen" if "board_best num L req db key user = Some e" for key user e
  proof -
    note e = board_best_Some [OF that]
    then have "cell_of e \<in> set ?cells"
      by (auto simp: EnumerateLeaderboardCells_def on_board_def)
    then obtain b where "cell_bucket L (cell_of e) = Inr b" "slot_name L (Key L b) (el_UserID e) \<in> set seen"
      using res(3) by (force simp: cell_of_def)
    then show ?thesis using e(2) by (simp add: on_board_def)
  qed
  then have "boards_exact num L req db'"
    using res(1,2) unfolding rebuilt_def boards_exact_def
    by (metis best_frame(1) option.exhaust option.map(1))
  then show ?thesis using res(2) by blast
qed

lemma Rebuild_total:
  assumes "uuid_law L" and "uuid_plain_slot L" and "runs_ok db"
    and ready: "\<forall>e \<in> set (eligible_runs num db). email_gate req db (el_UserID e) \<longrightarrow> board_ready L e"
  shows "\<exists>stats db'. Rebuild num L req db = Inr (stats, db')"
proof -
  have "\<exists>res. rebuild_cells num L req cs seen d = Inr res"
    if "rebuilt num L req seen d" "\<exists>es. d = db\<lparr>db_entries := es\<rparr>"
      "\<forall>c \<in> set cs. cell_ok c \<and> is_ok (cell_bucket L c)" for cs seen d
    using that
  proof (induction cs arbitrary: seen d)
    case (Cons c cs)
    obtain b where b: "cell_bucket L c = Inr b" using Cons.prems(3) by (auto simp: is_ok_def split: sum.splits)
    obtain es where d: "d = db\<lparr>db_entries := es\<rparr>" using Cons.prems(2) by blast
    have okd: "runs_ok d"
      and ready': "\<forall>e \<in> set (eligible_runs num d). email_gate req d (el_UserID e) \<longrightarrow> board_ready L e"
      using d assms(3) ready by (simp_all add: email_gate_def)
    obtain d1 where d1: "RecomputeLeaderboardCell num req (Key L b) c d = Inr d1"
      using recompute_total [OF assms(1) okd b _ rebuilt_slots_own [OF Cons.prems(1)]] Cons.prems(3) ready'
      by (force simp: board_ready_def on_board_def)
    show ?case
    proof (cases "slot_name L (Key L b) (c_UserID c) \<in> set seen")
      case True
      then show ?thesis using Cons b by (simp add: Let_def)
    next
      case False
      from rebuilt_step [OF assms(1,2) okd b _ Cons.prems(1) False d1] Cons.prems(3)
      obtain es' where "rebuilt num L req (slot_name L (Key L b) (c_UserID c) # seen) d1"
        "d1 = d\<lparr>db_entries := es'\<rparr>" by auto
      moreover from this have "\<exists>es. d1 = db\<lparr>db_entries := es\<rparr>" using d by auto
      ultimately have "\<exists>res. rebuild_cells num L req cs (slot_name L (Key L b) (c_UserID c) # seen) d1 = Inr res"
        using Cons.IH [of _ d1] Cons.prems(3) by simp
      then show ?thesis using b d1 False by (simp add: Let_def)
    qed
  qed simp
  moreover have "\<forall>c \<in> set (EnumerateLeaderboardCells num req db). cell_ok c \<and> is_ok (cell_bucket L c)"
    using cells_ok [OF assms(3)] ready
    by (auto simp: EnumerateLeaderboardCells_def board_ready_def)
  moreover have "rebuilt num L req [] (ClearLeaderboard db)" "\<exists>es. ClearLeaderboard db = db\<lparr>db_entries := es\<rparr>"
    by (auto simp: rebuilt_def ClearLeaderboard_def)
  ultimately obtain seen' d' where
    "rebuild_cells num L req (EnumerateLeaderboardCells num req db) [] (ClearLeaderboard db) = Inr (seen', d')"
    by (metis surj_pair)
  then show ?thesis by (simp add: Rebuild_def)
qed

end
