(* ===== verification/Replay_Queue.thy ===== *)
theory Replay_Queue
  imports Board_Projection
begin

text \<open>
  The verdict transaction (\<open>internal/replay/pgstore/pgstore.go\<close>), the worker's batches
  (\<open>internal/replay/worker.go\<close>) and the revalidation pass of \<open>cmd/replayctl\<close>.

  A transaction takes the database to its successor and a result; when any statement fails the
  database is the one it started from. The leaderboard projector and the keyboard projector are the
  seams of the source: either may be absent. The locale \<open>projector\<close> is the contract the transaction relies
  on, and \<open>ProjectRun\<close> is interpreted in it.
\<close>

section \<open>The verdict transaction\<close>

datatype tx_error = BoardFailed board_error | RunMissing

type_synonym 'u projector = "'u \<Rightarrow> 'u db \<Rightarrow> (board_error, 'u db) result"

definition board_step :: "'u projector option \<Rightarrow> 'u \<Rightarrow> 'u db \<Rightarrow> (tx_error, 'u db) result" where
  "board_step projector rid db =
     (case projector of
        None \<Rightarrow> Inr db
      | Some f \<Rightarrow> (case f rid db of Inl e \<Rightarrow> Inl (BoardFailed e) | Inr db' \<Rightarrow> Inr db'))"

definition keyboard_step ::
  "(string \<Rightarrow> string \<Rightarrow> string) option \<Rightarrow> 'u \<Rightarrow> bool \<Rightarrow> CharObservation list \<Rightarrow> 'u db
     \<Rightarrow> (tx_error, 'u db) result" where
  "keyboard_step keyboard rid accepted obs db =
     (case keyboard of
        None \<Rightarrow> Inr db
      | Some key_of \<Rightarrow>
          (case run_row db rid of
             None \<Rightarrow> Inl RunMissing
           | Some r \<Rightarrow>
               Inr (db\<lparr>db_keyboard :=
                      ProjectKeyboard key_of (r_UserID r) (r_Lang r) rid accepted obs (db_keyboard db)\<rparr>)))"

definition observations :: "Decision \<Rightarrow> CharObservation list" where
  "observations d = (case d_CharObservations d of None \<Rightarrow> [] | Some obs \<Rightarrow> obs)"

definition write_verdict :: "'u \<Rightarrow> Decision \<Rightarrow> 'u db \<Rightarrow> 'u db" where
  "write_verdict rid d db =
     ApplyRunOutcome rid (d_Status d) (d_Attempts d) (d_LastError d)
       (UpsertRunVerdict rid (toVerdictParams d) db)"

definition apply_decision ::
  "'u projector option \<Rightarrow> (string \<Rightarrow> string \<Rightarrow> string) option \<Rightarrow> 'u \<Rightarrow> Decision \<Rightarrow> 'u db
     \<Rightarrow> (tx_error, 'u db) result" where
  "apply_decision projector keyboard rid d db =
     (case board_step projector rid (write_verdict rid d db) of
        Inl e \<Rightarrow> Inl e
      | Inr db' \<Rightarrow> keyboard_step keyboard rid (d_Status d = Accepted) (observations d) db')"

fun decide_all ::
  "'u projector option \<Rightarrow> (string \<Rightarrow> string \<Rightarrow> string) option \<Rightarrow> (PendingRun \<Rightarrow> Decision)
     \<Rightarrow> ('u \<times> 'u run) list \<Rightarrow> 'u db \<Rightarrow> (tx_error, 'u db) result" where
  "decide_all projector keyboard decide [] db = Inr db"
| "decide_all projector keyboard decide ((rid, r) # rows) db =
     (case apply_decision projector keyboard rid (decide (toPendingRun r)) db of
        Inl e \<Rightarrow> Inl e
      | Inr db' \<Rightarrow> decide_all projector keyboard decide rows db')"

definition inTx ::
  "'u projector option \<Rightarrow> (string \<Rightarrow> string \<Rightarrow> string) option \<Rightarrow> (PendingRun \<Rightarrow> Decision)
     \<Rightarrow> ('u \<times> 'u run) list \<Rightarrow> 'u db \<Rightarrow> 'u db \<times> (tx_error, nat) result" where
  "inTx projector keyboard decide rows db =
     (case decide_all projector keyboard decide rows db of
        Inl e \<Rightarrow> (db, Inl e)
      | Inr db' \<Rightarrow> (db', Inr (length rows)))"

definition ProcessBatch ::
  "'u projector option \<Rightarrow> (string \<Rightarrow> string \<Rightarrow> string) option \<Rightarrow> 'u set \<Rightarrow> nat
     \<Rightarrow> (PendingRun \<Rightarrow> Decision) \<Rightarrow> 'u db \<Rightarrow> 'u db \<times> (tx_error, nat) result" where
  "ProcessBatch projector keyboard locked limit decide db =
     inTx projector keyboard decide (ClaimPendingRuns locked limit db) db"

definition ProcessStalePolicyBatch ::
  "'u projector option \<Rightarrow> (string \<Rightarrow> string \<Rightarrow> string) option \<Rightarrow> int \<Rightarrow> string \<Rightarrow> 'u set \<Rightarrow> nat
     \<Rightarrow> (PendingRun \<Rightarrow> Decision) \<Rightarrow> 'u db \<Rightarrow> 'u db \<times> (tx_error, nat) result" where
  "ProcessStalePolicyBatch projector keyboard policyVersion bundleSHA locked limit decide db =
     inTx projector keyboard decide (ClaimStalePolicyRuns policyVersion bundleSHA locked limit db) db"

section \<open>The worker\<close>

definition maxLogBytes :: nat where "maxLogBytes = 16 * 2 ^ 20"

text \<open>\<open>inflate\<close> is the decompressor; the size limit applies to what it returns.\<close>

definition gunzip :: "(string \<Rightarrow> string option) \<Rightarrow> string \<Rightarrow> string option" where
  "gunzip inflate gz =
     (case inflate gz of
        None \<Rightarrow> None
      | Some rw \<Rightarrow> if length rw > maxLogBytes then None else Some rw)"

definition DefaultBatchSize :: int where "DefaultBatchSize = 20"

text \<open>
  What a worker is wired with. An absent decider stands for the zero value, which \<open>withDefaults\<close>
  replaces by the open judge; the intervals and timeouts of the configuration do not appear.
\<close>

record 'u worker =
  w_projector :: "'u projector option"
  w_keyboard :: "(string \<Rightarrow> string \<Rightarrow> string) option"
  w_uuids :: "'u uuid_lib"
  w_Replay :: "replay_input \<Rightarrow> (replay_error, Result) result"
  w_inflate :: "string \<Rightarrow> string option"
  w_Body :: "string \<Rightarrow> string option"
  w_quotes :: "'u resolver"
  w_bundleSHA :: string
  w_BatchSize :: int
  w_Decider :: "Decider option"
  w_CanaryEpoch :: "int option"

definition batch_size :: "'u worker \<Rightarrow> nat" where
  "batch_size w = nat (if w_BatchSize w \<le> 0 then DefaultBatchSize else w_BatchSize w)"

definition worker_decider :: "'u worker \<Rightarrow> Decider" where
  "worker_decider w =
     (case w_Decider w of
        Some p \<Rightarrow> p
      | None \<Rightarrow> (case NewDecider (Some Noop) of
                   Inr p \<Rightarrow> p
                 | Inl e \<Rightarrow> \<lparr>dc_judge = Noop, dc_version = 0, dc_rejudging = False\<rparr>))"

definition worker_judge :: "'u worker \<Rightarrow> Decider \<Rightarrow> PendingRun \<Rightarrow> Decision" where
  "worker_judge w p run =
     judge_run (w_bundleSHA w) (w_uuids w) (w_Replay w) (gunzip (w_inflate w)) (w_Body w) (w_quotes w) p run
       (w_CanaryEpoch w)"

definition RunBatch :: "'u worker \<Rightarrow> 'u set \<Rightarrow> 'u db \<Rightarrow> 'u db \<times> (tx_error, nat) result" where
  "RunBatch w locked db =
     ProcessBatch (w_projector w) (w_keyboard w) locked (batch_size w) (worker_judge w (worker_decider w)) db"

definition RevalidateBatch :: "'u worker \<Rightarrow> 'u set \<Rightarrow> 'u db \<Rightarrow> 'u db \<times> (tx_error, nat) result" where
  "RevalidateBatch w locked db =
     ProcessStalePolicyBatch (w_projector w) (w_keyboard w) (dc_version (worker_decider w)) (w_bundleSHA w) locked
       (batch_size w) (worker_judge w (ForRejudgement (worker_decider w))) db"

text \<open>The loop of \<open>replayctl revalidate\<close>: until the limit is reached or a batch claims nothing.\<close>

function revalidate ::
  "'u worker \<Rightarrow> nat \<Rightarrow> nat \<Rightarrow> 'u db \<Rightarrow> 'u db \<times> nat \<times> tx_error option" where
  "revalidate w limit so_far db =
     (if so_far < limit
      then (case RevalidateBatch w {} db of
              (db', Inl e) \<Rightarrow> (db', so_far, Some e)
            | (db', Inr n) \<Rightarrow> if n = 0 then (db', so_far, None) else revalidate w limit (so_far + n) db')
      else (db, so_far, None))"
  by pat_completeness auto
termination by (relation "measure (\<lambda>(w, limit, so_far, db). limit - so_far)") auto

declare revalidate.simps [simp del]

section \<open>What a transaction writes\<close>

lemma write_verdict_simps [simp]:
  "db_overrides (write_verdict rid d db) = db_overrides db"
  "db_quotes (write_verdict rid d db) = db_quotes db"
  "db_verified (write_verdict rid d db) = db_verified db"
  "db_entries (write_verdict rid d db) = db_entries db"
  "db_keyboard (write_verdict rid d db) = db_keyboard db"
  by (simp_all add: write_verdict_def ApplyRunOutcome_def)

definition outcome :: "Decision \<Rightarrow> 'u run \<Rightarrow> 'u run" where
  "outcome d r = r\<lparr>r_Status := d_Status d, pr_Attempts := d_Attempts d, r_LastError := nullif_empty (d_LastError d)\<rparr>"

lemma write_verdict_runs:
  "run_row (write_verdict rid d db) r =
     (if r = rid then map_option (outcome d) (run_row db rid) else run_row db r)"
  by (simp add: write_verdict_def ApplyRunOutcome_def run_row_update outcome_def split: option.split)

lemma write_verdict_verdicts:
  "verdict_row (write_verdict rid d db) r =
     (if r = rid \<and> run_row db rid \<noteq> None
      then Some \<lparr>v_UserID = (case verdict_row db rid of None \<Rightarrow> r_UserID (the (run_row db rid)) | Some v \<Rightarrow> v_UserID v),
                 v_ServerMetrics = d_ServerMetrics d, v_ServerScore = d_ServerScore d,
                 v_Validation = d_Validation d,
                 v_BundleSha = (if d_BundleSHA d \<noteq> [] then Some (d_BundleSHA d) else None),
                 v_PolicyVersion = (if d_PolicyVersion d > 0 then Some (d_PolicyVersion d) else None)\<rparr>
      else verdict_row db r)"
  by (auto simp: write_verdict_def ApplyRunOutcome_def verdict_row_upsert toVerdictParams_def)


text \<open>Two writes that concern one run: the verdict, and an operator's decision.\<close>

definition write_override :: "'u override \<Rightarrow> 'u db \<Rightarrow> 'u db" where
  "write_override ov db = InsertRunStatusOverride ov (SetRunStatus (ov_RunID ov) (ov_ToStatus ov) db)"

lemma write_override_simps [simp]:
  "db_verdicts (write_override ov db) = db_verdicts db"
  "db_overrides (write_override ov db) = db_overrides db @ [ov]"
  "db_quotes (write_override ov db) = db_quotes db"
  "db_verified (write_override ov db) = db_verified db"
  "db_entries (write_override ov db) = db_entries db"
  "db_keyboard (write_override ov db) = db_keyboard db"
  by (simp_all add: write_override_def InsertRunStatusOverride_def SetRunStatus_def)

lemma write_override_runs:
  "run_row (write_override ov db) r =
     (if r = ov_RunID ov then map_option (\<lambda>r. r\<lparr>r_Status := ov_ToStatus ov\<rparr>) (run_row db r) else run_row db r)"
  by (simp add: write_override_def InsertRunStatusOverride_def SetRunStatus_def run_row_update split: option.split)

section \<open>The invariant of the tables\<close>

text \<open>A verdict row exists exactly for a run that is no longer pending.\<close>

definition judged_ok :: "'u db \<Rightarrow> bool" where
  "judged_ok db \<longleftrightarrow>
     (\<forall>rid. verdict_row db rid \<noteq> None \<longleftrightarrow> (\<exists>r. run_row db rid = Some r \<and> r_Status r \<noteq> Pending))"

text \<open>The newest decision of an operator about a run.\<close>

definition last_override :: "'u db \<Rightarrow> 'u \<Rightarrow> 'u override option" where
  "last_override db rid = find_first (\<lambda>ov. ov_RunID ov = rid) (rev (db_overrides db))"

definition human_ok :: "'u db \<Rightarrow> bool" where
  "human_ok db \<longleftrightarrow>
     (\<forall>rid r ov. run_row db rid = Some r \<longrightarrow> last_override db rid = Some ov \<longrightarrow>
        r_Status r = ov_ToStatus ov \<and> ov_ToStatus ov \<noteq> Pending)"

definition tables_ok :: "'u db \<Rightarrow> bool" where
  "tables_ok db \<longleftrightarrow> runs_ok db \<and> judged_ok db \<and> human_ok db"

lemma overridden_iff: "overridden db rid \<longleftrightarrow> last_override db rid \<noteq> None"
  by (auto simp: overridden_def last_override_def find_first_None_iff list_ex_iff)

lemma outcome_simps [simp]:
  "r_Status (outcome d r) = d_Status d" "one_dimension (outcome d r) = one_dimension r"
  by (simp_all add: outcome_def one_dimension_def)

lemma one_dimension_status [simp]: "one_dimension (r\<lparr>r_Status := st\<rparr>) = one_dimension r"
  by (simp add: one_dimension_def)

lemma write_verdict_ok:
  assumes "tables_ok db" and "run_row db rid \<noteq> None" and "\<not> overridden db rid" and "d_Status d \<noteq> Pending"
  shows "tables_ok (write_verdict rid d db)"
  unfolding tables_ok_def
proof (intro conjI)
  show "runs_ok (write_verdict rid d db)"
    using assms(1) by (auto simp: tables_ok_def runs_ok_def write_verdict_runs split: if_splits)
  show "judged_ok (write_verdict rid d db)"
    using assms by (auto simp: tables_ok_def judged_ok_def write_verdict_runs write_verdict_verdicts)
  show "human_ok (write_verdict rid d db)"
    using assms by (auto simp: tables_ok_def human_ok_def write_verdict_runs overridden_iff last_override_def
        split: if_splits)
qed

lemma write_override_ok:
  assumes "tables_ok db" and "run_row db (ov_RunID ov) = Some r" and "r_Status r \<noteq> Pending"
    and "ov_ToStatus ov \<noteq> Pending"
  shows "tables_ok (write_override ov db)"
  unfolding tables_ok_def
proof (intro conjI)
  show "runs_ok (write_override ov db)"
    using assms(1) by (auto simp: tables_ok_def runs_ok_def write_override_runs split: if_splits)
  have "verdict_row db (ov_RunID ov) \<noteq> None"
    using assms(1-3) by (auto simp: tables_ok_def judged_ok_def)
  then show "judged_ok (write_override ov db)"
    using assms unfolding tables_ok_def judged_ok_def by (auto simp: write_override_runs)
  show "human_ok (write_override ov db)"
    using assms by (auto simp: tables_ok_def human_ok_def write_override_runs last_override_def split: if_splits)
qed

section \<open>Both writes concern one run\<close>

lemma resolved_quote_cong: "db_quotes db' = db_quotes db \<Longrightarrow> resolved_quote db' = resolved_quote db"
  by (rule ext) (simp add: resolved_quote_def split: option.split)

lemma eligible_run_cong:
  assumes "run_row db' r = run_row db r" and "verdict_row db' r = verdict_row db r"
    and "db_quotes db' = db_quotes db"
  shows "eligible_run num db' r = eligible_run num db r"
proof -
  note quote = resolved_quote_cong [OF assms(3)]
  then have rank: "may_rank db' = may_rank db" by (simp add: may_rank_def fun_eq_iff)
  show ?thesis unfolding eligible_run_def assms quote rank ..
qed

lemma touches_write_verdict:
  assumes "tables_ok db"
  shows "touches num rid db (write_verdict rid d db)"
proof -
  have "resolved_quote (write_verdict rid d db) = resolved_quote db"
    by (rule resolved_quote_cong) simp
  moreover have "resolved_quote db (outcome d r) = resolved_quote db r" for r
    by (simp add: resolved_quote_def outcome_def)
  ultimately have "RunBucketCell (write_verdict rid d db) rid = RunBucketCell db rid"
    by (simp add: RunBucketCell_def write_verdict_runs option.map_comp comp_def outcome_def)
  moreover have "runs_ok (write_verdict rid d db)"
    using assms by (auto simp: tables_ok_def runs_ok_def write_verdict_runs split: if_splits)
  moreover have "eligible_run num (write_verdict rid d db) r = eligible_run num db r" if "r \<noteq> rid" for r
    by (rule eligible_run_cong) (use that in \<open>simp_all add: write_verdict_runs write_verdict_verdicts\<close>)
  ultimately show ?thesis by (simp add: touches_def)
qed

lemma touches_write_override:
  assumes "tables_ok db"
  shows "touches num (ov_RunID ov) db (write_override ov db)"
proof -
  have "resolved_quote (write_override ov db) = resolved_quote db"
    by (rule resolved_quote_cong) simp
  moreover have "resolved_quote db (r\<lparr>r_Status := st\<rparr>) = resolved_quote db r" for r st
    by (simp add: resolved_quote_def)
  ultimately have "RunBucketCell (write_override ov db) (ov_RunID ov) = RunBucketCell db (ov_RunID ov)"
    by (simp add: RunBucketCell_def write_override_runs option.map_comp comp_def)
  moreover have "runs_ok (write_override ov db)"
    using assms by (auto simp: tables_ok_def runs_ok_def write_override_runs split: if_splits)
  moreover have "eligible_run num (write_override ov db) r = eligible_run num db r" if "r \<noteq> ov_RunID ov" for r
    by (rule eligible_run_cong) (use that in \<open>simp_all add: write_override_runs\<close>)
  ultimately show ?thesis by (simp add: touches_def)
qed

lemma tables_ok_frame [simp]:
  "tables_ok (db\<lparr>db_entries := es\<rparr>) = tables_ok db"
  "tables_ok (db\<lparr>db_keyboard := kb\<rparr>) = tables_ok db"
  by (simp_all add: tables_ok_def runs_ok_def judged_ok_def human_ok_def last_override_def)

lemma overridden_frame [simp]:
  "overridden (db\<lparr>db_entries := es\<rparr>) = overridden db"
  "overridden (db\<lparr>db_keyboard := kb\<rparr>) = overridden db"
  "overridden (write_verdict rid d db) = overridden db"
  by (simp_all add: overridden_def fun_eq_iff)

section \<open>The projector's contract\<close>

text \<open>
  What the two writers of a run's status rely on: projecting a run after a write that concerned only
  that run makes the boards current again, and writes nothing but board entries.
\<close>

locale board_projector =
  fixes project_run :: "'u projector"
    and current :: "'u db \<Rightarrow> bool"
    and touched :: "'u \<Rightarrow> 'u db \<Rightarrow> 'u db \<Rightarrow> bool"
  assumes restores: "\<lbrakk>current db; touched rid db db1; project_run rid db1 = Inr db2\<rbrakk> \<Longrightarrow> current db2"
    and only_boards: "project_run rid db = Inr db' \<Longrightarrow> \<exists>es. db' = db\<lparr>db_entries := es\<rparr>"
    and verdict_touches: "tables_ok db \<Longrightarrow> touched rid db (write_verdict rid d db)"
    and override_touches: "tables_ok db \<Longrightarrow> touched (ov_RunID ov) db (write_override ov db)"
    and current_kb: "current (db\<lparr>db_keyboard := kb\<rparr>) = current db"
begin

lemma apply_decision_frame:
  assumes "apply_decision (Some project_run) keyboard rid d db = Inr db'"
  shows "\<exists>es kb. db' = (write_verdict rid d db)\<lparr>db_entries := es, db_keyboard := kb\<rparr>"
proof -
  obtain db1 where p: "project_run rid (write_verdict rid d db) = Inr db1"
    and k: "keyboard_step keyboard rid (d_Status d = Accepted) (observations d) db1 = Inr db'"
    using assms by (auto simp: apply_decision_def board_step_def split: sum.splits)
  obtain es where "db1 = (write_verdict rid d db)\<lparr>db_entries := es\<rparr>" using only_boards [OF p] by blast
  moreover have "\<exists>kb. db' = db1\<lparr>db_keyboard := kb\<rparr>"
    using k by (auto simp: keyboard_step_def intro: exI [of _ "db_keyboard db'"] split: option.splits)
  ultimately show ?thesis by auto
qed

lemma apply_decision_keeps:
  assumes "tables_ok db" and "current db" and "run_row db rid \<noteq> None" and "\<not> overridden db rid"
    and "d_Status d \<noteq> Pending" and "apply_decision (Some project_run) keyboard rid d db = Inr db'"
  shows "tables_ok db' \<and> current db'"
proof -
  obtain db1 where p: "project_run rid (write_verdict rid d db) = Inr db1"
    and k: "keyboard_step keyboard rid (d_Status d = Accepted) (observations d) db1 = Inr db'"
    using assms(6) by (auto simp: apply_decision_def board_step_def split: sum.splits)
  have "current db1" using restores [OF assms(2) verdict_touches p] assms(1) .
  moreover have "\<exists>kb. db' = db1\<lparr>db_keyboard := kb\<rparr>"
    using k by (auto simp: keyboard_step_def intro: exI [of _ "db_keyboard db'"] split: option.splits)
  ultimately have "current db'" using current_kb by auto
  moreover have "tables_ok db'"
    using apply_decision_frame [OF assms(6)] write_verdict_ok [OF assms(1,3-5)] by auto
  ultimately show ?thesis by blast
qed

lemma decide_all_keeps:
  assumes "\<And>run. d_Status (decide run) \<noteq> Pending"
  shows "decide_all (Some project_run) keyboard decide rows db = Inr db' \<Longrightarrow> tables_ok db \<Longrightarrow> current db \<Longrightarrow>
    \<forall>(rid, r) \<in> set rows. run_row db rid \<noteq> None \<and> \<not> overridden db rid \<Longrightarrow> tables_ok db' \<and> current db'"
proof (induction rows arbitrary: db)
  case (Cons row rows)
  obtain rid r where row: "row = (rid, r)" by (cases row)
  obtain db1 where step: "apply_decision (Some project_run) keyboard rid (decide (toPendingRun r)) db = Inr db1"
    and rest: "decide_all (Some project_run) keyboard decide rows db1 = Inr db'"
    using Cons.prems(1) row by (auto split: sum.splits)
  have ok: "tables_ok db1 \<and> current db1"
    using apply_decision_keeps [OF Cons.prems(2,3) _ _ assms step] Cons.prems(4) row by auto
  obtain es kb where "db1 = (write_verdict rid (decide (toPendingRun r)) db)\<lparr>db_entries := es, db_keyboard := kb\<rparr>"
    using apply_decision_frame [OF step] by blast
  then have "\<forall>(rid, r) \<in> set rows. run_row db1 rid \<noteq> None \<and> \<not> overridden db1 rid"
    using Cons.prems(4) row by (auto simp: write_verdict_runs)
  then show ?case using Cons.IH [OF rest] ok by blast
qed simp

text \<open>A batch, committed or rolled back, leaves the tables consistent and the boards current.\<close>

lemma inTx_keeps:
  assumes "\<And>run. d_Status (decide run) \<noteq> Pending" and "tables_ok db" and "current db"
    and "\<forall>(rid, r) \<in> set rows. run_row db rid \<noteq> None \<and> \<not> overridden db rid"
    and "inTx (Some project_run) keyboard decide rows db = (db', res)"
  shows "tables_ok db' \<and> current db'"
proof (cases "decide_all (Some project_run) keyboard decide rows db")
  case (Inl e)
  with assms show ?thesis by (auto simp: inTx_def)
next
  case (Inr db1)
  with decide_all_keeps [OF assms(1) Inr assms(2-4)] assms(5) show ?thesis by (simp add: inTx_def)
qed

lemma override_keeps:
  assumes "tables_ok db" and "current db" and "run_row db (ov_RunID ov) = Some r" and "r_Status r \<noteq> Pending"
    and "ov_ToStatus ov \<noteq> Pending" and "project_run (ov_RunID ov) (write_override ov db) = Inr db'"
  shows "tables_ok db' \<and> current db'"
  using restores [OF assms(2) override_touches assms(6)] only_boards [OF assms(6)]
    write_override_ok [OF assms(1,3-5)] assms(1) by auto

end


section \<open>The leaderboard is such a projector\<close>

lemma ProjectRun_only_boards:
  assumes "ProjectRun num L req rid db = Inr db'"
  shows "\<exists>es. db' = db\<lparr>db_entries := es\<rparr>"
proof -
  have "\<exists>es. db = db\<lparr>db_entries := es\<rparr>" by (rule exI [of _ "db_entries db"]) simp
  then show ?thesis
    using assms
    by (auto simp: ProjectRun_def RecomputeLeaderboardCell_def Let_def
        split: option.splits sum.splits if_splits dest: write_entry_Inr)
qed

interpretation boards: board_projector
  "ProjectRun num L req" "\<lambda>db. uuid_law L \<and> boards_current num L req db" "touches num"
  for num :: jsonb_num and L :: "('u::linorder) uuid_lib" and req :: bool
  by unfold_locales
    (auto intro: ProjectRun_current touches_write_verdict touches_write_override dest: ProjectRun_only_boards)

section \<open>The decisions of a worker\<close>

lemma judge_run_decides:
  "\<exists>res err. judge_run b L Replay unzip Body quotes p run epoch = Decide b p run res err"
  unfolding judge_run_def by (auto split: sum.split option.split)

lemma decide_clean_stamps:
  "d_BundleSHA (decide_clean p run res base) = d_BundleSHA base"
  "d_PolicyVersion (decide_clean p run res base) = d_PolicyVersion base"
  unfolding decide_clean_def Let_def by (simp_all split: sum.split option.split)

lemma Decide_stamps:
  "d_BundleSHA (Decide b p run res err) = b"
  "d_PolicyVersion (Decide b p run res err) = dc_version p"
  unfolding Decide_def Let_def by (simp_all add: decide_clean_stamps split: option.split replay_error.split)

lemma worker_judge_simps:
  "d_Status (worker_judge w p run) \<noteq> Pending"
  "d_BundleSHA (worker_judge w p run) = w_bundleSHA w"
  "d_PolicyVersion (worker_judge w p run) = dc_version p"
proof -
  obtain res err where "worker_judge w p run = Decide (w_bundleSHA w) p run res err"
    unfolding worker_judge_def using judge_run_decides by blast
  then show "d_Status (worker_judge w p run) \<noteq> Pending"
    "d_BundleSHA (worker_judge w p run) = w_bundleSHA w"
    "d_PolicyVersion (worker_judge w p run) = dc_version p"
    by (simp_all add: Decide_status Decide_stamps)
qed

lemma claimed_pending:
  assumes "tables_ok db"
  shows "\<forall>(rid, r) \<in> set (ClaimPendingRuns locked n db). run_row db rid \<noteq> None \<and> \<not> overridden db rid"
proof (rule ballI, clarify, rule conjI)
  fix rid r assume "(rid, r) \<in> set (ClaimPendingRuns locked n db)"
  then have row: "run_row db rid = Some r" "r_Status r = Pending"
    unfolding ClaimPendingRuns_def by (auto dest: set_claim)
  then show "run_row db rid \<noteq> None" by simp
  show "\<not> overridden db rid"
    using assms row unfolding overridden_iff tables_ok_def human_ok_def by (metis option.exhaust)
qed

lemma claimed_stale:
  "\<forall>(rid, r) \<in> set (ClaimStalePolicyRuns v b locked n db). run_row db rid \<noteq> None \<and> \<not> overridden db rid"
  unfolding ClaimStalePolicyRuns_def by (auto dest!: set_claim simp: stale_def)

end
