(* ===== verification/Run_Overrides.thy ===== *)
theory Run_Overrides
  imports Replay_Queue Ingest
begin

text \<open>
  The operator's half of the verdict: \<open>internal/runs/override.go\<close> (the HTTP handler) and
  \<open>internal/runs/pgstore/overrides.go\<close> (the transaction that moves a status, records the decision and
  projects the run).
\<close>

section \<open>The transaction\<close>

record 'u OverrideParams =
  op_RunID :: 'u
  op_ToStatus :: run_status
  op_Reason :: string
  op_DecidedBy :: 'u

datatype override_error = RunNotFound | RunNotJudged | StatusUnchanged | ProjectFailed board_error

definition OverrideRunStatus ::
  "'u projector option \<Rightarrow> 'u OverrideParams \<Rightarrow> 'u db \<Rightarrow> 'u db \<times> (override_error, 'u override) result" where
  "OverrideRunStatus projector p db =
     (case run_row db (op_RunID p) of
        None \<Rightarrow> (db, Inl RunNotFound)
      | Some current \<Rightarrow>
          if r_Status current = Pending then (db, Inl RunNotJudged)
          else if r_Status current = op_ToStatus p then (db, Inl StatusUnchanged)
          else
            let ov = \<lparr>ov_RunID = op_RunID p, ov_FromStatus = r_Status current, ov_ToStatus = op_ToStatus p,
                      ov_Reason = op_Reason p, ov_DecidedBy = op_DecidedBy p\<rparr>;
                db1 = InsertRunStatusOverride ov (SetRunStatus (op_RunID p) (op_ToStatus p) db)
            in case projector of
                 None \<Rightarrow> (db1, Inr ov)
               | Some f \<Rightarrow>
                   (case f (op_RunID p) db1 of
                      Inl e \<Rightarrow> (db, Inl (ProjectFailed e))
                    | Inr db2 \<Rightarrow> (db2, Inr ov)))"

section \<open>The handler\<close>

record overrideRequest =
  oq_Status :: string
  oq_Reason :: string

fun parse_status :: "string \<Rightarrow> run_status option" where
  "parse_status s =
     (if s = ''accepted'' then Some Accepted
      else if s = ''flagged'' then Some Flagged
      else if s = ''rejected'' then Some Rejected
      else None)"

text \<open>
  \<open>wired\<close> says whether a moderator is attached, \<open>user\<close> is the caller, \<open>rawID\<close> the path parameter and \<open>body\<close>
  the decoded request, if it decodes.
\<close>

definition handleOverrideStatus ::
  "'u uuid_lib \<Rightarrow> bool \<Rightarrow> 'u projector option \<Rightarrow> 'u option \<Rightarrow> string \<Rightarrow> overrideRequest option \<Rightarrow> 'u db
     \<Rightarrow> 'u db \<times> (apiError, 'u override) result" where
  "handleOverrideStatus L wired projector user rawID bd db =
     (if \<not> wired then (db, Inl Unavailable)
      else case user of
        None \<Rightarrow> (db, Inl ErrUnauthorized)
      | Some actor \<Rightarrow>
      (case uuid_Parse L rawID of
         None \<Rightarrow> (db, Inl (BadRequest ''run id is not a uuid''))
       | Some rid \<Rightarrow>
       (case bd of
          None \<Rightarrow> (db, Inl (BadRequest ''body is not valid json''))
        | Some req \<Rightarrow>
        (case parse_status (oq_Status req) of
           None \<Rightarrow> (db, Inl (BadRequest ''status must be one of accepted, flagged, rejected''))
         | Some status \<Rightarrow>
             if TrimSpace (oq_Reason req) = [] then (db, Inl (BadRequest ''reason is required''))
             else
               (case OverrideRunStatus projector
                       \<lparr>op_RunID = rid, op_ToStatus = status, op_Reason = TrimSpace (oq_Reason req),
                        op_DecidedBy = actor\<rparr> db of
                  (db', Inl RunNotFound) \<Rightarrow> (db', Inl ErrNotFound)
                | (db', Inl RunNotJudged) \<Rightarrow> (db', Inl (Conflict ''run has not been judged yet''))
                | (db', Inl StatusUnchanged) \<Rightarrow> (db', Inl (Conflict ''run already has that status''))
                | (db', Inl (ProjectFailed e)) \<Rightarrow> (db', Inl ErrInternal)
                | (db', Inr ov) \<Rightarrow> (db', Inr ov))))))"

section \<open>Lemmas\<close>

lemma parse_status_not_pending: "parse_status s = Some st \<Longrightarrow> st \<noteq> Pending"
  by (auto split: if_splits)

declare parse_status.simps [simp del]

lemma override_frame:
  "OverrideRunStatus projector p db = (db', Inl e) \<Longrightarrow> db' = db"
  by (auto simp: OverrideRunStatus_def Let_def split: option.splits if_splits sum.splits)

lemma override_Inr:
  assumes "OverrideRunStatus projector p db = (db', Inr ov)"
  shows "\<exists>r. run_row db (ov_RunID ov) = Some r \<and> r_Status r \<noteq> Pending \<and> ov_RunID ov = op_RunID p \<and>
    ov_FromStatus ov = r_Status r \<and> ov_ToStatus ov = op_ToStatus p \<and> r_Status r \<noteq> op_ToStatus p \<and>
    (case projector of None \<Rightarrow> db' = write_override ov db | Some f \<Rightarrow> f (ov_RunID ov) (write_override ov db) = Inr db')"
  using assms
  by (auto simp: OverrideRunStatus_def Let_def write_override_def split: option.splits if_splits sum.splits)

text \<open>What the handler does to the database is nothing, or one override to a judged status.\<close>

lemma handleOverrideStatus_cases:
  assumes "handleOverrideStatus L wired projector user rawID bd db = (db', res)"
  obtains (refused) e where "res = Inl e" "db' = db"
  | (moved) p ov where "OverrideRunStatus projector p db = (db', Inr ov)" "res = Inr ov" "op_ToStatus p \<noteq> Pending"
      "op_Reason p \<noteq> []" "user = Some (op_DecidedBy p)"
  using assms parse_status_not_pending
  unfolding handleOverrideStatus_def
  by (auto split: option.splits if_splits sum.splits override_error.splits prod.splits dest: override_frame)

end
