(* ===== verification/Run_Lifecycle.thy ===== *)
theory Run_Lifecycle
  imports Run_Overrides
begin

text \<open>
  The life of a run across components: submitted over HTTP, judged by a worker, judged again by a
  revalidation pass, overruled by an operator, shown on a board, rebuilt offline. \<open>db_step\<close> is one such
  transaction, by any caller with any request, worker configuration, core and set of rows locked by
  others; \<open>reachable_db\<close> are the databases any sequence of them leads to.

  A change of the quote registry or of a player's verified identities is not a step: the boards follow
  such a change only with the next projection or rebuild, which the program documents.
\<close>

section \<open>The insert\<close>

text \<open>What the schema's functions and the worker read out of a stored document.\<close>

record 'u stored_reads =
  sr_Ref :: "string \<Rightarrow> text_source_ref option option"
  sr_Kind :: "string \<Rightarrow> string"
  sr_QuoteID :: "string \<Rightarrow> 'u option"
  sr_AdoptedFrom :: "string \<Rightarrow> 'u option"
  sr_Mods :: "string \<Rightarrow> string"
  sr_Metrics :: "string \<Rightarrow> client_metrics option"
  sr_Score :: "string \<Rightarrow> rat option option"

definition new_run :: "'u stored_reads \<Rightarrow> int \<Rightarrow> 'u CreateRunParams \<Rightarrow> 'u run" where
  "new_run reads now p =
     \<lparr>pr_DictHash = p_DictHash p, pr_ScoreVersion = p_ScoreVersion p, pr_Seed = p_Seed p,
      pr_Setup = \<lparr>raw_bytes = p_Setup p, raw_value = sr_Ref reads (p_Setup p)\<rparr>,
      pr_ClientMetrics = \<lparr>raw_bytes = p_ClientMetrics p, raw_value = sr_Metrics reads (p_ClientMetrics p)\<rparr>,
      pr_ClientScore = \<lparr>raw_bytes = p_ClientScore p, raw_value = sr_Score reads (p_ClientScore p)\<rparr>,
      pr_Log = p_Log p, pr_Attempts = 0, pr_CreatedAt = now,
      r_UserID = p_UserID p, r_Mode = p_Mode p, r_DurationMs = p_DurationMs p, r_WordCount = p_WordCount p,
      r_Lang = p_Lang p, r_TextSourceKind = sr_Kind reads (p_Setup p), r_QuoteID = sr_QuoteID reads (p_Setup p),
      r_AdoptedFrom = sr_AdoptedFrom reads (p_Setup p), r_Mods = sr_Mods reads (p_Setup p),
      r_Status = Pending, r_LastError = None\<rparr>"

text \<open>
  \<open>INSERT INTO runs\<close>: it fails on the \<open>CHECK\<close> of the dimensions and on a taken id, and the row lands
  pending. \<open>rid\<close> and \<open>now\<close> are the column defaults \<open>gen_random_uuid()\<close> and \<open>now()\<close>.
\<close>

definition CreateRun ::
  "'u stored_reads \<Rightarrow> 'u \<Rightarrow> int \<Rightarrow> 'u CreateRunParams \<Rightarrow> 'u db \<Rightarrow> ('u db \<times> 'u \<times> run_status \<times> int) option" where
  "CreateRun reads rid now p db =
     (let row = new_run reads now p
      in if \<not> one_dimension row \<or> run_row db rid \<noteq> None then None
         else Some (db\<lparr>db_runs := DAList.update rid row (db_runs db)\<rparr>, rid, Pending, now))"

section \<open>Transactions\<close>

inductive db_step :: "jsonb_num \<Rightarrow> ('u::linorder) uuid_lib \<Rightarrow> bool \<Rightarrow> 'u db \<Rightarrow> 'u db \<Rightarrow> bool"
  for num L req where
  ingest: "\<lbrakk>\<not> overridden db rid;
     handleIngest L gz (CreateRun reads rid created) restrictions now user bd lm db = (lm', db', ans)\<rbrakk>
     \<Longrightarrow> db_step num L req db db'"
| batch: "\<lbrakk>w_projector w = Some (ProjectRun num L req); RunBatch w locked db = (db', res)\<rbrakk>
     \<Longrightarrow> db_step num L req db db'"
| rejudge: "\<lbrakk>w_projector w = Some (ProjectRun num L req); RevalidateBatch w locked db = (db', res)\<rbrakk>
     \<Longrightarrow> db_step num L req db db'"
| override: "handleOverrideStatus L wired (Some (ProjectRun num L req)) user rawID ob db = (db', ores)
     \<Longrightarrow> db_step num L req db db'"
| rebuild: "Rebuild num L req db = Inr (stats, db') \<Longrightarrow> db_step num L req db db'"

inductive reachable_db :: "jsonb_num \<Rightarrow> ('u::linorder) uuid_lib \<Rightarrow> bool \<Rightarrow> 'u db \<Rightarrow> bool" for num L req where
  start: "\<lbrakk>db_runs db = DAList.empty; db_verdicts db = DAList.empty; db_overrides db = [];
     db_entries db = DAList.empty\<rbrakk> \<Longrightarrow> reachable_db num L req db"
| step: "\<lbrakk>reachable_db num L req db; db_step num L req db db'\<rbrakk> \<Longrightarrow> reachable_db num L req db'"

definition db_ok :: "jsonb_num \<Rightarrow> ('u::linorder) uuid_lib \<Rightarrow> bool \<Rightarrow> 'u db \<Rightarrow> bool" where
  "db_ok num L req db \<longleftrightarrow> tables_ok db \<and> boards_current num L req db"

section \<open>Every transaction keeps the tables consistent and the boards current\<close>

lemma CreateRun_ok:
  assumes "db_ok num L req db" and "\<not> overridden db rid" and "CreateRun reads rid now p db = Some (db', res)"
  shows "db_ok num L req db'"
proof -
  let ?row = "new_run reads now p"
  have new: "run_row db rid = None" "one_dimension ?row"
    and db': "db' = db\<lparr>db_runs := DAList.update rid ?row (db_runs db)\<rparr>"
    using assms(3) by (auto simp: CreateRun_def Let_def split: if_splits)
  have status: "r_Status ?row = Pending" by (simp add: new_run_def)
  have noverdict: "verdict_row db rid = None"
    using assms(1) new(1) unfolding db_ok_def tables_ok_def judged_ok_def by (metis option.distinct(1))
  have noverride: "last_override db rid = None" using assms(2) by (simp add: overridden_iff)
  have tables: "tables_ok db'"
    using assms(1) new noverride noverdict status unfolding db' db_ok_def tables_ok_def
    by (auto simp: runs_ok_def judged_ok_def human_ok_def last_override_def lookup_update split: if_splits)
  have "eligible_run num db' r = eligible_run num db r" for r
  proof (cases "r = rid")
    case True
    then show ?thesis using noverdict by (simp add: eligible_run_def db' split: option.split)
  next
    case False
    then show ?thesis by (intro eligible_run_cong) (simp_all add: db' lookup_update)
  qed
  then have "board_best num L req db' key user = board_best num L req db key user" for key user
    by (intro board_best_cong) (simp_all add: eligible_row db')
  then have "boards_current num L req db'"
    using assms(1) by (simp add: db_ok_def boards_current_def db')
  with tables show ?thesis by (simp add: db_ok_def)
qed

lemma handleIngest_store:
  assumes "handleIngest L gz create restrictions now user bd lm store = (lm', store', ans)"
  shows "store' = store \<or> (\<exists>p r. create p store = Some (store', r))"
  using assms unfolding handleIngest_def Let_def
  by (auto split: option.splits sum.splits prod.splits bool.splits body.splits if_splits)

lemma batch_ok:
  assumes "uuid_law L" and "db_ok num L req db" and "w_projector w = Some (ProjectRun num L req)"
    and "RunBatch w locked db = (db', res)"
  shows "db_ok num L req db'"
proof -
  have "tables_ok db' \<and> uuid_law L \<and> boards_current num L req db'"
    using assms claimed_pending [of db locked "batch_size w"] worker_judge_simps(1)
    by (intro boards.inTx_keeps [of "worker_judge w (worker_decider w)" db L num req
          "ClaimPendingRuns locked (batch_size w) db" "w_keyboard w"])
      (simp_all add: RunBatch_def ProcessBatch_def db_ok_def)
  then show ?thesis by (simp add: db_ok_def)
qed

lemma rejudge_ok:
  assumes "uuid_law L" and "db_ok num L req db" and "w_projector w = Some (ProjectRun num L req)"
    and "RevalidateBatch w locked db = (db', res)"
  shows "db_ok num L req db'"
proof -
  have "tables_ok db' \<and> uuid_law L \<and> boards_current num L req db'"
    using assms claimed_stale [of _ _ locked "batch_size w" db] worker_judge_simps(1)
    by (intro boards.inTx_keeps [of "worker_judge w (ForRejudgement (worker_decider w))" db L num req
          "ClaimStalePolicyRuns (dc_version (worker_decider w)) (w_bundleSHA w) locked (batch_size w) db" "w_keyboard w"])
      (simp_all add: RevalidateBatch_def ProcessStalePolicyBatch_def db_ok_def)
  then show ?thesis by (simp add: db_ok_def)
qed

lemma override_ok:
  assumes "uuid_law L" and "db_ok num L req db"
    and "handleOverrideStatus L wired (Some (ProjectRun num L req)) user rawID ob db = (db', res)"
  shows "db_ok num L req db'"
  using assms(3)
proof (cases rule: handleOverrideStatus_cases)
  case (refused e)
  with assms(2) show ?thesis by simp
next
  case (moved p ov)
  obtain r where r: "run_row db (ov_RunID ov) = Some r" "r_Status r \<noteq> Pending" "ov_ToStatus ov \<noteq> Pending"
    "ProjectRun num L req (ov_RunID ov) (write_override ov db) = Inr db'"
    using override_Inr [OF moved(1)] moved(3) by auto
  then show ?thesis
    using boards.override_keeps [of db L num req ov r db'] assms(1,2) by (simp add: db_ok_def)
qed

lemma rebuild_ok:
  assumes "uuid_law L" and "uuid_plain_slot L" and "db_ok num L req db" and "Rebuild num L req db = Inr (stats, db')"
  shows "db_ok num L req db'"
proof -
  have "runs_ok db" using assms(3) by (simp add: db_ok_def tables_ok_def)
  then show ?thesis
    using Rebuild_exact [OF assms(1,2) _ assms(4)] assms(3) exact_current by (auto simp: db_ok_def)
qed

lemma db_step_ok:
  assumes "uuid_law L" and "uuid_plain_slot L" and "db_step num L req db db'" and "db_ok num L req db"
  shows "db_ok num L req db'"
  using assms(3,4)
proof cases
  case (ingest rid gz reads created restrictions now user bd lm lm' ans)
  from handleIngest_store [OF ingest(2)] CreateRun_ok [OF assms(4) ingest(1)] assms(4)
  show ?thesis by (metis prod.exhaust)
next
  case (batch w locked res)
  then show ?thesis using batch_ok assms(1,4) by blast
next
  case (rejudge w locked res)
  then show ?thesis using rejudge_ok assms(1,4) by blast
next
  case (override wired user rawID ob ores)
  then show ?thesis using override_ok assms(1,4) by blast
next
  case (rebuild stats)
  then show ?thesis using rebuild_ok assms(1,2,4) by blast
qed

lemma start_ok:
  assumes "db_runs db = DAList.empty" "db_verdicts db = DAList.empty" "db_overrides db = []"
    "db_entries db = DAList.empty"
  shows "db_ok num L req db"
proof -
  have "eligible_runs num db = []" by (simp add: eligible_runs_def assms DAList.empty.rep_eq List.map_filter_simps)
  then show ?thesis
    using assms by (simp add: db_ok_def tables_ok_def runs_ok_def judged_ok_def human_ok_def last_override_def
        boards_current_def board_best_def)
qed

lemma reachable_ok:
  assumes "reachable_db num L req db" and "uuid_law L" and "uuid_plain_slot L"
  shows "db_ok num L req db"
  using assms(1)
proof induction
  case (start db)
  then show ?case by (rule start_ok)
next
  case (step db db')
  then show ?case using db_step_ok assms(2,3) by blast
qed

end
