(* ===== verification/Queue_Progress.thy ===== *)
theory Queue_Progress
  imports Run_Lifecycle
begin

text \<open>
  Progress of the queue and of the revalidation pass: what one committed batch changes, that batches
  drain the queue, that a revalidation pass leaves nothing stale and that a second pass finds nothing.
\<close>

section \<open>What a committed batch changes\<close>

context board_projector
begin

lemma decide_all_frame:
  "decide_all (Some project_run) keyboard decide rows db = Inr db' \<Longrightarrow> distinct (map fst rows) \<Longrightarrow>
   \<forall>(rid, r) \<in> set rows. run_row db rid = Some r \<Longrightarrow>
   (\<forall>rid. run_row db' rid = (case map_of rows rid of
        None \<Rightarrow> run_row db rid | Some r \<Rightarrow> Some (outcome (decide (toPendingRun r)) r))) \<and>
   (\<forall>rid. rid \<notin> fst ` set rows \<longrightarrow> verdict_row db' rid = verdict_row db rid) \<and>
   (\<forall>(rid, r) \<in> set rows. \<exists>v d. verdict_row db' rid = Some v \<and> d = decide (toPendingRun r) \<and>
      v_ServerScore v = d_ServerScore d \<and> v_ServerMetrics v = d_ServerMetrics d \<and>
      v_BundleSha v = (if d_BundleSHA d \<noteq> [] then Some (d_BundleSHA d) else None) \<and>
      v_PolicyVersion v = (if d_PolicyVersion d > 0 then Some (d_PolicyVersion d) else None)) \<and>
   db_overrides db' = db_overrides db"
proof (induction rows arbitrary: db)
  case (Cons row rows)
  obtain rid r where row: "row = (rid, r)" by (cases row)
  let ?d = "decide (toPendingRun r)"
  obtain db1 where step: "apply_decision (Some project_run) keyboard rid ?d db = Inr db1"
    and rest: "decide_all (Some project_run) keyboard decide rows db1 = Inr db'"
    using Cons.prems(1) row by (auto split: sum.splits)
  obtain es kb where db1: "db1 = (write_verdict rid ?d db)\<lparr>db_entries := es, db_keyboard := kb\<rparr>"
    using apply_decision_frame [OF step] by blast
  have fresh: "rid \<notin> fst ` set rows" and dist: "distinct (map fst rows)" using Cons.prems(2) row by auto
  have here: "run_row db rid = Some r" using Cons.prems(3) row by simp
  have rows1: "\<forall>(rid, r) \<in> set rows. run_row db1 rid = Some r"
  proof (rule ballI, clarify)
    fix x y assume "(x, y) \<in> set rows"
    then have "x \<noteq> rid" "run_row db x = Some y" using fresh Cons.prems(3) by force+
    then show "run_row db1 x = Some y" by (simp add: db1 write_verdict_runs)
  qed
  note IH = Cons.IH [OF rest dist rows1]
  have "run_row db1 rid = Some (outcome ?d r)" "\<forall>x. x \<noteq> rid \<longrightarrow> run_row db1 x = run_row db x"
    using here by (simp_all add: db1 write_verdict_runs)
  moreover have "map_of rows rid = None" using fresh by (simp add: map_of_eq_None_iff)
  ultimately have runs: "\<forall>x. run_row db' x = (case map_of (row # rows) x of
        None \<Rightarrow> run_row db x | Some r \<Rightarrow> Some (outcome (decide (toPendingRun r)) r))"
    using IH row by (auto split: option.split)
  have "verdict_row db' rid = verdict_row db1 rid" using IH fresh by blast
  then have "\<exists>v. verdict_row db' rid = Some v \<and>
      v_ServerScore v = d_ServerScore ?d \<and> v_ServerMetrics v = d_ServerMetrics ?d \<and>
      v_BundleSha v = (if d_BundleSHA ?d \<noteq> [] then Some (d_BundleSHA ?d) else None) \<and>
      v_PolicyVersion v = (if d_PolicyVersion ?d > 0 then Some (d_PolicyVersion ?d) else None)"
    using here by (simp add: db1 write_verdict_verdicts)
  moreover have "\<forall>x. x \<noteq> rid \<longrightarrow> verdict_row db1 x = verdict_row db x"
    by (simp add: db1 write_verdict_verdicts)
  ultimately show ?case using IH row runs by (auto simp: db1)
qed simp

end

section \<open>Claims and counts\<close>

definition matching :: "('u \<times> 'u run \<Rightarrow> bool) \<Rightarrow> 'u db \<Rightarrow> 'u set" where
  "matching P db = {rid. \<exists>r. run_row db rid = Some r \<and> P (rid, r)}"

lemma matching_rows: "matching P db = fst ` set (filter P (DAList.impl_of (db_runs db)))"
  by (force simp: matching_def row_in_table)

lemma card_matching: "card (matching P db) = length (filter P (DAList.impl_of (db_runs db)))"
proof -
  have "distinct (map fst (filter P (DAList.impl_of (db_runs db))))" by (simp add: distinct_map_filter)
  then have "card (set (map fst (filter P (DAList.impl_of (db_runs db))))) =
      length (map fst (filter P (DAList.impl_of (db_runs db))))" by (rule distinct_card)
  then show ?thesis by (simp add: matching_rows)
qed

lemma finite_matching: "finite (matching P db)"
  by (simp add: matching_rows)

lemma claim_length: "length (claim P {} n db) = min n (card (matching P db))"
  by (simp add: claim_def card_matching length_oldest_first min.commute)

lemma claim_subset: "fst ` set (claim P locked n db) \<subseteq> matching P db"
  by (auto simp: matching_def dest!: set_claim)

lemma card_claim: "card (fst ` set (claim P locked n db)) = length (claim P locked n db)"
  using distinct_card [OF distinct_claim [of P locked n db]] by simp

lemma claim_rows: "\<forall>(rid, r) \<in> set (claim P locked n db). run_row db rid = Some r"
  by (auto dest: set_claim)

section \<open>Draining the queue\<close>

abbreviation is_pending :: "'u \<times> 'u run \<Rightarrow> bool" where
  "is_pending row \<equiv> r_Status (snd row) = Pending"

lemma ClaimPendingRuns_claim: "ClaimPendingRuns = claim is_pending"
  unfolding ClaimPendingRuns_def by (simp add: case_prod_beta')

lemma RunBatch_pending:
  assumes "w_projector w = Some (ProjectRun num L req)" and "RunBatch w locked db = (db', Inr n)"
  shows "matching is_pending db' =
      matching is_pending db - fst ` set (ClaimPendingRuns locked (batch_size w) db)"
    and "n = length (ClaimPendingRuns locked (batch_size w) db)"
proof -
  let ?rows = "ClaimPendingRuns locked (batch_size w) db"
  let ?decide = "worker_judge w (worker_decider w)"
  have run: "decide_all (Some (ProjectRun num L req)) (w_keyboard w) ?decide ?rows db = Inr db'"
    and "n = length ?rows"
    using assms by (auto simp: RunBatch_def ProcessBatch_def inTx_def split: sum.splits)
  then show "n = length ?rows" by simp
  have rows: "distinct (map fst ?rows)" "\<forall>(rid, r) \<in> set ?rows. run_row db rid = Some r"
    unfolding ClaimPendingRuns_claim by (rule distinct_claim, rule claim_rows)
  have after: "run_row db' rid = (case map_of ?rows rid of
      None \<Rightarrow> run_row db rid | Some r \<Rightarrow> Some (outcome (?decide (toPendingRun r)) r))" for rid
    using boards.decide_all_frame [OF run rows] by blast
  have "rid \<in> matching is_pending db' \<longleftrightarrow> rid \<in> matching is_pending db \<and> rid \<notin> fst ` set ?rows" for rid
  proof (cases "map_of ?rows rid")
    case None
    then have "run_row db' rid = run_row db rid" using after [of rid] by simp
    moreover have "rid \<notin> fst ` set ?rows" using None by (simp add: map_of_eq_None_iff)
    ultimately show ?thesis by (simp add: matching_def)
  next
    case (Some r)
    then have "rid \<in> fst ` set ?rows" by (force dest: map_of_SomeD)
    then show ?thesis using Some after [of rid] worker_judge_simps(1) by (simp add: matching_def)
  qed
  then show "matching is_pending db' = matching is_pending db - fst ` set ?rows" by blast
qed

text \<open>The totals a worker's decisions store are whole numbers below \<open>2 ^ 24\<close>.\<close>

definition totals_ok :: "jsonb_num \<Rightarrow> 'u worker \<Rightarrow> Decider \<Rightarrow> bool" where
  "totals_ok num w p \<longleftrightarrow>
     (\<forall>run t. doc_num num (map_option raw_bytes (d_ServerScore (worker_judge w p run))) ''total'' = Some t \<longrightarrow>
        is_bigint t \<and> score_packable \<lfloor>t\<rfloor>)"

lemma eligible_total:
  assumes "eligible_run num db rid = Some e"
  shows "\<exists>v. verdict_row db rid = Some v \<and>
    doc_num num (map_option raw_bytes (v_ServerScore v)) ''total'' = Some (el_Total e)"
  using assms by (auto simp: eligible_run_def split: option.splits if_splits)

lemma scores_ok_write:
  assumes "scores_ok num db" and "totals_ok num w p"
  shows "scores_ok num (write_verdict rid (worker_judge w p run) db)"
  unfolding scores_ok_def
proof
  let ?db = "write_verdict rid (worker_judge w p run) db"
  fix e assume "e \<in> set (eligible_runs num ?db)"
  then have e: "eligible_run num ?db (el_RunID e) = Some e" by (simp add: eligible_row)
  show "is_bigint (el_Total e) \<and> score_packable \<lfloor>el_Total e\<rfloor>"
  proof (cases "el_RunID e = rid")
    case True
    obtain v where v: "verdict_row ?db rid = Some v"
      "doc_num num (map_option raw_bytes (v_ServerScore v)) ''total'' = Some (el_Total e)"
      using eligible_total [OF e] True by blast
    have "run_row ?db rid \<noteq> None" using eligible_runD(3) [OF e] True by auto
    then have "run_row db rid \<noteq> None" by (auto simp: write_verdict_runs)
    with v(1) have "v_ServerScore v = d_ServerScore (worker_judge w p run)"
      by (auto simp: write_verdict_verdicts)
    with v(2) assms(2) show ?thesis by (auto simp: totals_ok_def)
  next
    case False
    then have "eligible_run num db (el_RunID e) = Some e"
      using e eligible_run_cong [of ?db "el_RunID e" db]
      by (simp add: write_verdict_runs write_verdict_verdicts)
    then show ?thesis using assms(1) by (simp add: scores_ok_def eligible_row)
  qed
qed

lemma scores_ok_frame [simp]:
  "scores_ok num (db\<lparr>db_entries := es\<rparr>) = scores_ok num db"
  "scores_ok num (db\<lparr>db_keyboard := kb\<rparr>) = scores_ok num db"
  by (simp_all add: scores_ok_def)

lemma keyboard_step_total:
  assumes "run_row db rid \<noteq> None"
  shows "\<exists>kb. keyboard_step keyboard rid accepted obs db = Inr (db\<lparr>db_keyboard := kb\<rparr>)"
proof (cases keyboard)
  case None
  then show ?thesis by (intro exI [of _ "db_keyboard db"]) (simp add: keyboard_step_def)
next
  case (Some key_of)
  then show ?thesis using assms by (auto simp: keyboard_step_def)
qed

lemma decide_all_total:
  assumes "uuid_law L" and "totals_ok num w p"
  shows "db_ok num L req db \<Longrightarrow> scores_ok num db \<Longrightarrow>
    \<forall>(rid, r) \<in> set rows. run_row db rid \<noteq> None \<and> \<not> overridden db rid \<Longrightarrow>
    \<exists>db'. decide_all (Some (ProjectRun num L req)) keyboard (worker_judge w p) rows db = Inr db' \<and> scores_ok num db'"
proof (induction rows arbitrary: db)
  case (Cons row rows)
  obtain rid r where row: "row = (rid, r)" by (cases row)
  let ?d = "worker_judge w p (toPendingRun r)"
  let ?db = "write_verdict rid ?d db"
  have ok: "tables_ok db" "boards_current num L req db" using Cons.prems(1) by (simp_all add: db_ok_def)
  have scores: "scores_ok num ?db" using scores_ok_write Cons.prems(2) assms(2) .
  obtain db1 where p: "ProjectRun num L req rid ?db = Inr db1"
    using ProjectRun_total [OF assms(1) ok(2) touches_write_verdict [OF ok(1)] scores] by blast
  obtain es where db1: "db1 = ?db\<lparr>db_entries := es\<rparr>" using ProjectRun_only_boards [OF p] by blast
  have "run_row db rid \<noteq> None" "\<not> overridden db rid" using Cons.prems(3) row by auto
  then have "run_row db1 rid \<noteq> None" by (simp add: db1 write_verdict_runs)
  from keyboard_step_total [OF this] obtain kb where k:
    "keyboard_step keyboard rid (d_Status ?d = Accepted) (observations ?d) db1 = Inr (db1\<lparr>db_keyboard := kb\<rparr>)"
    by blast
  let ?db2 = "db1\<lparr>db_keyboard := kb\<rparr>"
  have step: "apply_decision (Some (ProjectRun num L req)) keyboard rid ?d db = Inr ?db2"
    using p k by (simp add: apply_decision_def board_step_def)
  have "tables_ok ?db2 \<and> uuid_law L \<and> boards_current num L req ?db2"
    using boards.apply_decision_keeps [OF ok(1) _ \<open>run_row db rid \<noteq> None\<close> \<open>\<not> overridden db rid\<close>
        worker_judge_simps(1) step] assms(1) ok(2) by simp
  then have "db_ok num L req ?db2" by (simp add: db_ok_def)
  moreover have "scores_ok num ?db2" using scores by (simp add: db1)
  moreover have "\<forall>(rid, r) \<in> set rows. run_row ?db2 rid \<noteq> None \<and> \<not> overridden ?db2 rid"
    using Cons.prems(3) row by (auto simp: db1 write_verdict_runs)
  ultimately obtain db' where
    "decide_all (Some (ProjectRun num L req)) keyboard (worker_judge w p) rows ?db2 = Inr db'" "scores_ok num db'"
    using Cons.IH by blast
  then show ?case using step row by auto
qed auto

text \<open>A worker's consecutive batches, until one fails.\<close>

fun run_batches :: "'u worker \<Rightarrow> nat \<Rightarrow> 'u db \<Rightarrow> (tx_error, 'u db) result" where
  "run_batches w 0 db = Inr db"
| "run_batches w (Suc k) db =
     (case RunBatch w {} db of (db', Inl e) \<Rightarrow> Inl e | (db', Inr n) \<Rightarrow> run_batches w k db')"

lemma run_batches_drain:
  assumes "uuid_law L" and "w_projector w = Some (ProjectRun num L req)" and "totals_ok num w (worker_decider w)"
  shows "db_ok num L req db \<Longrightarrow> scores_ok num db \<Longrightarrow> card (matching is_pending db) \<le> k * batch_size w \<Longrightarrow>
    \<exists>db'. run_batches w k db = Inr db' \<and> matching is_pending db' = {}"
proof (induction k arbitrary: db)
  case 0
  then show ?case using finite_matching [of is_pending db] by auto
next
  case (Suc k)
  have ok: "tables_ok db" using Suc.prems(1) by (simp add: db_ok_def)
  obtain db1 where d: "decide_all (Some (ProjectRun num L req)) (w_keyboard w) (worker_judge w (worker_decider w))
      (ClaimPendingRuns {} (batch_size w) db) db = Inr db1" and scores: "scores_ok num db1"
    using decide_all_total [OF assms(1,3) Suc.prems(1,2) claimed_pending [OF ok]] by blast
  then have run: "RunBatch w {} db = (db1, Inr (length (ClaimPendingRuns {} (batch_size w) db)))"
    using assms(2) by (simp add: RunBatch_def ProcessBatch_def inTx_def)
  have "db_ok num L req db1" using batch_ok [OF assms(1) Suc.prems(1) assms(2) run] .
  moreover have "card (matching is_pending db1) = card (matching is_pending db) - min (batch_size w) (card (matching is_pending db))"
    using RunBatch_pending(1) [OF assms(2) run] claim_subset [of is_pending "{}" "batch_size w" db]
    by (simp add: ClaimPendingRuns_claim card_Diff_subset card_claim claim_length)
  ultimately show ?case using Suc.IH [of db1] Suc.prems(3) scores run by auto
qed

section \<open>Revalidation\<close>

text \<open>The verdicts a pass of this worker would judge again.\<close>

abbreviation outdated :: "'u worker \<Rightarrow> 'u db \<Rightarrow> 'u \<times> 'u run \<Rightarrow> bool" where
  "outdated w db row \<equiv> stale (dc_version (worker_decider w)) (w_bundleSHA w) db (fst row)"

definition stale_runs :: "'u worker \<Rightarrow> 'u db \<Rightarrow> 'u set" where
  "stale_runs w db = matching (outdated w db) db"

lemma ClaimStalePolicyRuns_claim:
  "ClaimStalePolicyRuns (dc_version (worker_decider w)) (w_bundleSHA w) locked n db = claim (outdated w db) locked n db"
  unfolding ClaimStalePolicyRuns_def by (simp add: case_prod_beta')

lemma dc_version_rejudge [simp]: "dc_version (ForRejudgement p) = dc_version p"
  by (simp add: ForRejudgement_def)

definition stamps_ok :: "'u worker \<Rightarrow> bool" where
  "stamps_ok w \<longleftrightarrow> dc_version (worker_decider w) > 0 \<and> w_bundleSHA w \<noteq> []"

lemma RevalidateBatch_stale:
  assumes "w_projector w = Some (ProjectRun num L req)" and "stamps_ok w"
    and "RevalidateBatch w locked db = (db', Inr n)"
  shows "stale_runs w db' = stale_runs w db - fst ` set (claim (outdated w db) locked (batch_size w) db)"
proof -
  let ?rows = "claim (outdated w db) locked (batch_size w) db"
  let ?decide = "worker_judge w (ForRejudgement (worker_decider w))"
  have run: "decide_all (Some (ProjectRun num L req)) (w_keyboard w) ?decide ?rows db = Inr db'"
    using assms(1,3)
    by (auto simp: RevalidateBatch_def ProcessStalePolicyBatch_def ClaimStalePolicyRuns_claim inTx_def split: sum.splits)
  note frame = boards.decide_all_frame [OF run distinct_claim claim_rows]
  have over: "overridden db' = overridden db" using frame by (simp add: overridden_def fun_eq_iff)
  have "rid \<in> stale_runs w db' \<longleftrightarrow> rid \<in> stale_runs w db \<and> rid \<notin> fst ` set ?rows" for rid
  proof (cases "map_of ?rows rid")
    case None
    then have out: "rid \<notin> fst ` set ?rows" by (simp add: map_of_eq_None_iff)
    have "run_row db' rid = run_row db rid" using frame [THEN conjunct1, rule_format, of rid] None by simp
    moreover have "verdict_row db' rid = verdict_row db rid" using frame out by blast
    ultimately show ?thesis using out over by (simp add: stale_runs_def matching_def stale_def)
  next
    case (Some r)
    then have "(rid, r) \<in> set ?rows" by (rule map_of_SomeD)
    from frame [THEN conjunct2, THEN conjunct2, THEN conjunct1, THEN bspec, OF this]
    obtain v where "verdict_row db' rid = Some v"
      "v_BundleSha v = (if w_bundleSHA w \<noteq> [] then Some (w_bundleSHA w) else None)"
      "v_PolicyVersion v = (if dc_version (worker_decider w) > 0 then Some (dc_version (worker_decider w)) else None)"
      unfolding prod.case by (elim exE conjE) (simp add: worker_judge_simps)
    then have "\<not> stale (dc_version (worker_decider w)) (w_bundleSHA w) db' rid"
      using assms(2) by (simp add: stale_def stamps_ok_def)
    then show ?thesis using \<open>(rid, r) \<in> set ?rows\<close> by (force simp: stale_runs_def matching_def)
  qed
  then show ?thesis by blast
qed

lemma revalidate_drains:
  assumes "uuid_law L" and "w_projector w = Some (ProjectRun num L req)" and "stamps_ok w"
    and "totals_ok num w (ForRejudgement (worker_decider w))"
  shows "db_ok num L req db \<Longrightarrow> scores_ok num db \<Longrightarrow> so_far + card (stale_runs w db) \<le> limit \<Longrightarrow>
    \<exists>db'. revalidate w limit so_far db = (db', so_far + card (stale_runs w db), None) \<and> stale_runs w db' = {}"
proof (induction "card (stale_runs w db)" arbitrary: so_far db rule: less_induct)
  case less
  let ?rows = "claim (outdated w db) {} (batch_size w) db"
  have rows: "\<forall>(rid, r) \<in> set ?rows. run_row db rid \<noteq> None \<and> \<not> overridden db rid"
    using claimed_stale [of "dc_version (worker_decider w)" "w_bundleSHA w" "{}" "batch_size w" db]
    unfolding ClaimStalePolicyRuns_claim .
  obtain db1 where "decide_all (Some (ProjectRun num L req)) (w_keyboard w)
      (worker_judge w (ForRejudgement (worker_decider w))) ?rows db = Inr db1" and scores: "scores_ok num db1"
    using decide_all_total [OF assms(1,4) less.prems(1,2) rows] by blast
  then have run: "RevalidateBatch w {} db = (db1, Inr (length ?rows))"
    using assms(2) by (simp add: RevalidateBatch_def ProcessStalePolicyBatch_def ClaimStalePolicyRuns_claim inTx_def)
  have after: "stale_runs w db1 = stale_runs w db - fst ` set ?rows"
    using RevalidateBatch_stale [OF assms(2,3) run] .
  have sub: "fst ` set ?rows \<subseteq> stale_runs w db" unfolding stale_runs_def by (rule claim_subset)
  have len: "length ?rows = min (batch_size w) (card (stale_runs w db))"
    by (simp add: claim_length stale_runs_def)
  have card: "card (stale_runs w db1) = card (stale_runs w db) - length ?rows"
    using after sub by (simp add: card_Diff_subset card_claim)
  have pos: "batch_size w > 0" by (simp add: batch_size_def DefaultBatchSize_def)
  show ?case
  proof (cases "card (stale_runs w db) = 0")
    case True
    then have none: "stale_runs w db = {}" by (simp add: stale_runs_def finite_matching)
    then have "stale_runs w db1 = {}" using after by simp
    then show ?thesis using True len run none by (subst revalidate.simps) simp
  next
    case False
    then have "length ?rows > 0" using pos len by simp
    then have dec: "card (stale_runs w db1) < card (stale_runs w db)" using card False by simp
    have ok: "db_ok num L req db1" using rejudge_ok [OF assms(1) less.prems(1) assms(2) run] .
    have less_limit: "so_far < limit" using less.prems(3) False by linarith
    have le: "length ?rows \<le> card (stale_runs w db)" using len by simp
    obtain db' where "revalidate w limit (so_far + length ?rows) db1
        = (db', so_far + length ?rows + card (stale_runs w db1), None)" "stale_runs w db' = {}"
      using less.hyps [OF dec ok scores, of "so_far + length ?rows"] less.prems(3) card le by auto
    then show ?thesis
      using less_limit card le run \<open>length ?rows > 0\<close> by (subst revalidate.simps) auto
  qed
qed

end
