(* ===== verification/Lifecycle_Properties.thy ===== *)
theory Lifecycle_Properties
  imports Queue_Progress
begin

text \<open>
  The properties of a run's life across ingest, worker, operator and boards, each with a concrete
  database on which it applies. The fixtures come first: ids written in unary, a replay core that
  always answers the same clean result, one submission.
\<close>

lemma length_table: "length (DAList.impl_of t) = card (dom (DAList.lookup t))"
proof -
  have "dom (DAList.lookup t) = set (map fst (DAList.impl_of t))"
    by (simp add: DAList.lookup.rep_eq dom_map_of_conv_image_fst)
  then show ?thesis by (metis DAList.impl_of_distinct distinct_card length_map)
qed

section \<open>Fixtures\<close>

definition unary_ids :: "nat uuid_lib" where
  "unary_ids =
     \<lparr>uuid_Parse = (\<lambda>s. if list_all (\<lambda>c. c = CHR ''a'') s then Some (length s) else None),
      uuid_String = (\<lambda>n. replicate n (CHR ''a'')), uuid_Nil = 0\<rparr>"

lemma unary_ids_laws: "uuid_law unary_ids" "uuid_plain_slot unary_ids"
  by (auto simp: uuid_law_def uuid_plain_slot_def unary_ids_def list_all_iff)

definition demo_num :: jsonb_num where
  "demo_num doc key = (if key = ''total'' then (if doc = ''big'' then Some 16777216 else Some 1000) else Some 1)"

definition empty_db :: "nat db" where
  "empty_db =
     \<lparr>db_runs = DAList.empty, db_verdicts = DAList.empty, db_overrides = [], db_quotes = Map.empty,
      db_verified = {}, db_entries = DAList.empty, db_keyboard = \<lparr>kb_profile = Map.empty, kb_stamped = {}\<rparr>\<rparr>"

definition demo_reads :: "nat stored_reads" where
  "demo_reads =
     \<lparr>sr_Ref = (\<lambda>_. Some None), sr_Kind = (\<lambda>_. ''seeded''), sr_QuoteID = (\<lambda>_. None),
      sr_AdoptedFrom = (\<lambda>_. None), sr_Mods = (\<lambda>_. []),
      sr_Metrics = (\<lambda>_. Some \<lparr>cm_WPM = Some 80, cm_Raw = Some 90, cm_Acc = Some 1\<rparr>),
      sr_Score = (\<lambda>_. Some (Some 1000))\<rparr>"

text \<open>A worker of the default review policy over a core that finds nothing.\<close>

definition demo_worker :: "nat worker" where
  "demo_worker =
     \<lparr>w_projector = Some (ProjectRun demo_num unary_ids False), w_keyboard = Some (\<lambda>lang c. c),
      w_uuids = unary_ids, w_Replay = (\<lambda>_. Inr (demo_result [])), w_inflate = Some, w_Body = Some,
      w_quotes = None, w_bundleSHA = ''b2'', w_BatchSize = 1,
      w_Decider = Some (decider_for default_policy), w_CanaryEpoch = None\<rparr>"

definition demo_row :: "nat run" where
  "demo_row = new_run demo_reads 5 (create_params 9 demo_run 0 ''{}'')"

definition queued_db :: "nat db" where
  "queued_db = empty_db\<lparr>db_runs := DAList.update 3 demo_row DAList.empty\<rparr>"

lemma demo_run_unary:
  "validateIngest unary_ids Some 9 demo_run = Inr (create_params 9 demo_run 0 ''{}'')"
  unfolding validateIngest_Inr run_ok_def fields_ok_def setup_ok_def dims_ok_def log_ok_def seqs_ok_def
  by (simp add: demo_run_def quote_of_def telemetry_ok_def restarts_of_def) (rule exI [of _ "[0]"], simp)

lemma demo_row_dimension: "one_dimension demo_row"
  by (simp add: demo_row_def new_run_def create_params_def demo_run_def demo_reads_def one_dimension_def)

lemma demo_ingest:
  "\<exists>lm. handleIngest unary_ids Some (CreateRun demo_reads 3 5) None 0 (Some 9) (Body demo_run)
      (NewInMemoryRateLimiter 1 5) empty_db = (lm, queued_db, Stored (3, Pending, 5))"
  by (simp add: handleIngest_def demo_run_unary restriction_of_def limiter_allow_def
        limiter_take_def limiter_sweep_def NewInMemoryRateLimiter_def refill_tokens_def last_of_def
        CreateRun_def Let_def demo_row_def [symmetric] demo_row_dimension queued_db_def empty_db_def)

lemma empty_reachable: "reachable_db num L req empty_db"
  by (rule reachable_db.start) (simp_all add: empty_db_def)

lemma queued_reachable: "reachable_db demo_num unary_ids False queued_db"
proof -
  obtain lm where "handleIngest unary_ids Some (CreateRun demo_reads 3 5) None 0 (Some 9) (Body demo_run)
      (NewInMemoryRateLimiter 1 5) empty_db = (lm, queued_db, Stored (3, Pending, 5))"
    using demo_ingest by blast
  moreover have "\<not> overridden empty_db 3" by (simp add: overridden_def empty_db_def)
  ultimately show ?thesis using db_step.ingest empty_reachable reachable_db.step by metis
qed

lemma demo_text: "text_of unary_ids Some None (toPendingRun demo_row) = Inr (Some ''d'', None)"
  by (simp add: text_of_def quoteRefOf_def toPendingRun_def PendingRun.defs demo_row_def new_run_def create_params_def
      demo_reads_def demo_run_def)

lemma demo_judgement:
  "worker_judge demo_worker p (toPendingRun demo_row) =
     decide_clean p (toPendingRun demo_row) (demo_result []) (base_decision ''b2'' p (toPendingRun demo_row))"
proof -
  have "gunzip Some (pr_Log (toPendingRun demo_row)) = Some ''{}''"
    by (simp add: gunzip_def maxLogBytes_def toPendingRun_def PendingRun.defs demo_row_def new_run_def create_params_def)
  then show ?thesis
    by (simp add: worker_judge_def judge_run_def demo_worker_def demo_text Decide_def Let_def)
      (simp add: demo_result_def verdictValid_def verdictInvalid_def)
qed

text \<open>A core whose totals are whole numbers below \<open>2 ^ 24\<close>.\<close>

definition core_totals :: "jsonb_num \<Rightarrow> (replay_input \<Rightarrow> (replay_error, Result) result) \<Rightarrow> bool" where
  "core_totals num Replay \<longleftrightarrow>
     (\<forall>inp res t. Replay inp = Inr res \<longrightarrow> num (raw_bytes (rs_Score res)) ''total'' = Some t \<longrightarrow>
        is_bigint t \<and> score_packable \<lfloor>t\<rfloor>)"

lemma Decide_score:
  "d_ServerScore (Decide b p run res err) = (if err = None then d_ServerScore (Decide b p run res None) else None)"
  "d_ServerScore (Decide b p run res None) \<in> {None, Some (rs_Score res)}"
  by (auto simp: Decide_def Let_def base_decision_def decide_clean_numbers split: option.split replay_error.split)

lemma worker_score:
  "d_ServerScore (worker_judge w p run) = None \<or>
   (\<exists>inp res. w_Replay w inp = Inr res \<and> d_ServerScore (worker_judge w p run) = Some (rs_Score res))"
proof -
  have "(\<exists>e. worker_judge w p run = Decide (w_bundleSHA w) p run noResult (Some e)) \<or>
    (\<exists>inp res. w_Replay w inp = Inr res \<and> worker_judge w p run = Decide (w_bundleSHA w) p run res None)"
    unfolding worker_judge_def judge_run_def by (auto split: sum.split option.split)
  then show ?thesis using Decide_score by (metis (no_types) insertE option.distinct(1) singletonD)
qed

lemma core_totals_ok: "core_totals num (w_Replay w) \<Longrightarrow> totals_ok num w p"
  using worker_score [of w p] unfolding core_totals_def totals_ok_def doc_num_def
  by (metis (no_types, lifting) option.case option.distinct(1) option.simps(8,9))

lemma demo_totals: "core_totals demo_num (w_Replay demo_worker)"
  by (simp add: core_totals_def demo_worker_def demo_result_def demo_num_def is_bigint_def score_packable_def)

section \<open>One batch of the fixture\<close>

lemma demo_pending: "toPendingRun demo_row = demo_submission\<lparr>pr_Log := ''{}'', pr_CreatedAt := 5,
    pr_ClientMetrics := \<lparr>raw_bytes = ''{}'', raw_value = raw_value (pr_ClientMetrics demo_submission)\<rparr>,
    pr_ClientScore := \<lparr>raw_bytes = ''{}'', raw_value = raw_value (pr_ClientScore demo_submission)\<rparr>\<rparr>"
  by (simp add: toPendingRun_def PendingRun.defs demo_row_def new_run_def create_params_def demo_reads_def demo_run_def
      demo_submission_def)

lemma demo_accepted:
  "d_Status (worker_judge demo_worker p (toPendingRun demo_row)) =
     (if j_NeedsReview (jd_Judge (dc_judge p) [] \<lparr>rm_DurationSec = Fin 15, rm_ScoreVersion = 3\<rparr>) then Flagged else Accepted)"
  unfolding demo_judgement decide_clean_status
  by (simp add: demo_pending numbers_agree_def demo_submission_def demo_result_def metricTolerance_def verdict_of_def
      runSeconds_def)

lemma demo_not_reviewed: "\<not> j_NeedsReview (jd_Judge (dc_judge (decider_for default_policy)) [] meta)"
  by (simp add: decider_for_def review_judge_def review_Judge_def suspicion_def combinations_def default_policy_def
      present_def defaultReviewThreshold_def f_zero_def ruleBotCadence_def ruleSustainedSuperhuman_def forcesReview_def)

definition judged_db :: "nat db" where
  "judged_db = fst (RunBatch demo_worker {} queued_db)"

lemma queued_row: "run_row queued_db rid = (if rid = 3 then Some demo_row else None)"
  "verdict_row queued_db rid = None" "db_overrides queued_db = []" "db_entries queued_db = DAList.empty"
  "DAList.impl_of (db_runs queued_db) = [(3, demo_row)]"
  by (simp_all add: queued_db_def empty_db_def lookup_update DAList.update.rep_eq DAList.empty.rep_eq)

lemma queued_ok: "db_ok demo_num unary_ids False queued_db" "scores_ok demo_num queued_db"
  using reachable_ok [OF queued_reachable] unary_ids_laws
  by (simp_all add: scores_ok_def set_eligible_runs eligible_run_def queued_row split: option.splits)

lemma demo_worker_simps [simp]:
  "w_projector demo_worker = Some (ProjectRun demo_num unary_ids False)" "batch_size demo_worker = 1"
  "worker_decider demo_worker = decider_for default_policy" "w_keyboard demo_worker = Some (\<lambda>lang c. c)"
  by (simp_all add: demo_worker_def batch_size_def worker_decider_def)

lemma queued_claim: "ClaimPendingRuns {} (Suc n) queued_db = [(3, demo_row)]"
proof -
  have "r_Status demo_row = Pending" by (simp add: demo_row_def new_run_def)
  then show ?thesis by (simp add: ClaimPendingRuns_def claim_def queued_row oldest_first_def)
qed

lemma demo_batch: "RunBatch demo_worker {} queued_db = (judged_db, Inr 1)"
proof -
  have "tables_ok queued_db" using queued_ok by (simp add: db_ok_def)
  then obtain db' where "decide_all (Some (ProjectRun demo_num unary_ids False)) (w_keyboard demo_worker)
      (worker_judge demo_worker (decider_for default_policy)) (ClaimPendingRuns {} 1 queued_db) queued_db = Inr db'"
    using decide_all_total [OF unary_ids_laws(1) core_totals_ok [OF demo_totals] queued_ok claimed_pending] by blast
  then have "RunBatch demo_worker {} queued_db = (db', Inr 1)"
    using queued_claim [of 0] by (simp add: RunBatch_def ProcessBatch_def inTx_def)
  then show ?thesis by (simp add: judged_db_def)
qed

lemma judged_reachable: "reachable_db demo_num unary_ids False judged_db"
  using reachable_db.step [OF queued_reachable db_step.batch [OF demo_worker_simps(1) demo_batch]] .

lemma judged_runs:
  "run_row judged_db rid = (if rid = 3
     then Some (outcome (worker_judge demo_worker (decider_for default_policy) (toPendingRun demo_row)) demo_row) else None)"
  "scores_ok demo_num judged_db"
  "\<exists>v. verdict_row judged_db 3 = Some v \<and> v_BundleSha v = Some ''b2'' \<and>
     v_ServerScore v \<noteq> None \<and> v_ServerMetrics v \<noteq> None"
  "db_overrides judged_db = []"
proof -
  have run: "decide_all (Some (ProjectRun demo_num unary_ids False)) (Some (\<lambda>lang c. c))
      (worker_judge demo_worker (decider_for default_policy)) [(3, demo_row)] queued_db = Inr judged_db"
    using demo_batch queued_claim [of 0]
    by (auto simp: RunBatch_def ProcessBatch_def inTx_def split: sum.splits)
  have "\<forall>(rid, r) \<in> set [(3, demo_row)]. run_row queued_db rid = Some r" by (simp add: queued_row)
  note frame = boards.decide_all_frame [OF run _ this]
  show "\<exists>v. verdict_row judged_db 3 = Some v \<and> v_BundleSha v = Some ''b2'' \<and>
      v_ServerScore v \<noteq> None \<and> v_ServerMetrics v \<noteq> None"
    using frame
    by (auto simp: worker_judge_simps demo_worker_def [THEN arg_cong [of _ _ w_bundleSHA]] demo_judgement decide_clean_numbers)
  show "db_overrides judged_db = []" using frame by (simp add: queued_row)
  from frame [THEN conjunct1, rule_format, of rid]
  show "run_row judged_db rid = (if rid = 3
     then Some (outcome (worker_judge demo_worker (decider_for default_policy) (toPendingRun demo_row)) demo_row) else None)"
    by (simp add: queued_row)
  show "scores_ok demo_num judged_db"
    using decide_all_total [OF unary_ids_laws(1) core_totals_ok [OF demo_totals] queued_ok,
        of "[(3, demo_row)]" "Some (\<lambda>lang c. c)" "decider_for default_policy"] run
    by (simp add: queued_row overridden_def)
qed

lemmas judged_verdict = judged_runs(3)

lemma judged_row: "\<exists>r. run_row judged_db 3 = Some r \<and> r_Status r = Accepted"
  by (simp add: judged_runs demo_accepted demo_not_reviewed)

section \<open>The life of a run\<close>

text \<open>
  C9. In every database that any sequence of submissions, worker batches, revalidation batches,
  overrides and rebuilds leads to, a verdict row exists exactly for the runs that are no longer
  pending, and a run an operator has decided on carries the status of the last decision: no later
  batch or pass has overruled it, and it is never sent back to the queue.
\<close>

theorem verdicts_and_decisions:
  assumes "reachable_db num L req db" and "uuid_law L" and "uuid_plain_slot L"
  shows "(verdict_row db rid \<noteq> None \<longleftrightarrow> (\<exists>r. run_row db rid = Some r \<and> r_Status r \<noteq> Pending)) \<and>
    (\<forall>r ov. run_row db rid = Some r \<and> last_override db rid = Some ov \<longrightarrow>
       r_Status r = ov_ToStatus ov \<and> r_Status r \<noteq> Pending)"
  using reachable_ok [OF assms] unfolding db_ok_def tables_ok_def judged_ok_def human_ok_def by auto

theorem verdicts_and_decisions_witness:
  "verdict_row judged_db 3 \<noteq> None \<and> verdict_row queued_db 3 = None"
  using verdicts_and_decisions [OF judged_reachable unary_ids_laws, of 3]
    verdicts_and_decisions [OF queued_reachable unary_ids_laws, of 3] judged_row
  by (auto simp: queued_row)

text \<open>
  C10. In every reachable database each cell of each board names the player's best eligible run of that
  board, by score, then by time, then by id, and a player without an eligible run has no cell: every
  transaction that moves a status keeps the boards current, and a rolled back one does not touch them.
\<close>

theorem boards_show_the_best:
  assumes "reachable_db num L req db" and "uuid_law L" and "uuid_plain_slot L"
  shows "map_option be_RunID (DAList.lookup (db_entries db) (key, user)) =
    map_option el_RunID (board_best num L req db key user)"
  using reachable_ok [OF assms] by (simp add: db_ok_def boards_current_def)

theorem boards_show_the_best_witness:
  "map_option be_RunID (DAList.lookup (db_entries judged_db) (''time:15000:en:seeded'', 9)) =
    map_option el_RunID (board_best demo_num unary_ids False judged_db ''time:15000:en:seeded'' 9)"
  by (rule boards_show_the_best [OF judged_reachable unary_ids_laws])

text \<open>
  C11. When every eligible run has a valid board and a storable total, a rebuild of a reachable database
  succeeds. It changes nothing but the cells, every cell names the same run as before, the two counts
  the command prints agree, and each cell holds the numbers of its run's current verdict.
\<close>

theorem rebuild_reproduces:
  assumes "reachable_db num L req db" and "uuid_law L" and "uuid_plain_slot L"
    and "\<forall>e \<in> set (eligible_runs num db). email_gate req db (el_UserID e) \<longrightarrow> board_ready L e"
  shows "\<exists>stats db' es. Rebuild num L req db = Inr (stats, db') \<and> db' = db\<lparr>db_entries := es\<rparr> \<and>
    st_Before stats = st_After stats \<and> boards_exact num L req db' \<and>
    (\<forall>slot. map_option be_RunID (DAList.lookup es slot) = map_option be_RunID (DAList.lookup (db_entries db) slot))"
proof -
  have ok: "runs_ok db" "boards_current num L req db"
    using reachable_ok [OF assms(1-3)] by (simp_all add: db_ok_def tables_ok_def)
  obtain stats db' where run: "Rebuild num L req db = Inr (stats, db')"
    using Rebuild_total [OF assms(2,3) ok(1) assms(4)] by blast
  obtain es where ex: "boards_exact num L req db'" "db' = db\<lparr>db_entries := es\<rparr>"
    using Rebuild_exact [OF assms(2,3) ok(1) run] by blast
  have same: "map_option be_RunID (DAList.lookup es slot) = map_option be_RunID (DAList.lookup (db_entries db) slot)" for slot
    using exact_current [OF ex(1)] ok(2) by (cases slot) (simp add: boards_current_def ex(2))
  then have "dom (DAList.lookup es) = dom (DAList.lookup (db_entries db))"
    by (metis (no_types, opaque_lifting) domIff map_option_is_None subsetI subset_antisym)
  then have "st_Before stats = st_After stats"
    using run by (auto simp: Rebuild_def CountLeaderboardEntries_def ex(2) length_table split: sum.splits)
  with run ex same show ?thesis by blast
qed

lemma demo_bucket:
  "cell_bucket unary_ids \<lparr>c_UserID = u, c_QuoteID = None, c_Mode = ModeTime, c_DurationMs = Some 15000,
      c_WordCount = None, c_Lang = ''en'', c_Kind = ''seeded''\<rparr> =
    Inr \<lparr>b_Mode = ModeTime, b_Dimension = 15000, b_Lang = ''en'', b_TextSource = ''seeded'', b_QuoteID = 0\<rparr>"
proof -
  have "validate unary_ids
      \<lparr>b_Mode = ModeTime, b_Dimension = 15000, b_Lang = ''en'', b_TextSource = ''seeded'', b_QuoteID = 0\<rparr> = None"
    by (subst validate_language)
      (simp_all add: IsQuote_def unary_ids_def language_board_def valid_en_seeded)
  then show ?thesis by (simp add: cell_bucket_def NewBucket_def checked_def unary_ids_def Let_def)
qed

lemma judged_ready: "\<forall>e \<in> set (eligible_runs demo_num judged_db). board_ready unary_ids e"
proof
  fix e assume "e \<in> set (eligible_runs demo_num judged_db)"
  then have e: "eligible_run demo_num judged_db (el_RunID e) = Some e" by (simp add: eligible_row)
  then have "el_RunID e = 3" using eligible_runD(3) [OF e] by (auto simp: judged_runs split: if_splits)
  then have "Some (cell_of e) = RunBucketCell judged_db 3" using eligible_runD(2) [OF e] by simp
  also have "\<dots> = Some \<lparr>c_UserID = 9, c_QuoteID = None, c_Mode = ModeTime, c_DurationMs = Some 15000,
      c_WordCount = None, c_Lang = ''en'', c_Kind = ''seeded''\<rparr>"
    by (simp add: RunBucketCell_def judged_runs outcome_def resolved_quote_def demo_row_def new_run_def
        create_params_def demo_run_def demo_reads_def)
  finally have "is_ok (cell_bucket unary_ids (cell_of e))" by (simp add: demo_bucket is_ok_def)
  then show "board_ready unary_ids e"
    using judged_runs(2) \<open>e \<in> set (eligible_runs demo_num judged_db)\<close> by (simp add: board_ready_def scores_ok_def)
qed

lemma judged_best:
  "\<exists>b. board_best demo_num unary_ids False judged_db ''time:15000:en:seeded'' 9 = Some b \<and> el_RunID b = 3"
proof -
  obtain r where r: "run_row judged_db 3 = Some r" "may_rank judged_db r"
    using demo_accepted [of "decider_for default_policy"] demo_not_reviewed
    by (simp add: judged_runs may_rank_def ranked_shape_def outcome_def)
      (simp add: demo_row_def new_run_def create_params_def demo_run_def demo_reads_def)
  obtain v sc mx where v: "verdict_row judged_db 3 = Some v" "v_ServerScore v = Some sc" "v_ServerMetrics v = Some mx"
    using judged_verdict by auto
  have some: "\<exists>x. demo_num doc key = Some x" for doc key by (simp add: demo_num_def)
  obtain t wpm rw acc where "demo_num (raw_bytes sc) ''total'' = Some t" "demo_num (mx_bytes mx) ''wpm'' = Some wpm"
    "demo_num (mx_bytes mx) ''raw'' = Some rw" "demo_num (mx_bytes mx) ''accuracy'' = Some acc"
    using some by metis
  then obtain e where e: "eligible_run demo_num judged_db 3 = Some e"
    using r v by (simp add: eligible_run_def doc_num_def)
  have cell: "cell_of e = \<lparr>c_UserID = 9, c_QuoteID = None, c_Mode = ModeTime, c_DurationMs = Some 15000,
      c_WordCount = None, c_Lang = ''en'', c_Kind = ''seeded''\<rparr>"
    using eligible_runD(2) [OF e]
    by (simp add: RunBucketCell_def judged_runs outcome_def resolved_quote_def demo_row_def new_run_def
        create_params_def demo_run_def demo_reads_def)
  then have "el_UserID e = 9" by (simp add: cell_of_def)
  then have "on_board unary_ids ''time:15000:en:seeded'' 9 e"
    unfolding on_board_def cell demo_bucket by (simp add: Key_def IsQuote_def unary_ids_def Itoa_15000)
  then have "board_best demo_num unary_ids False judged_db ''time:15000:en:seeded'' 9 \<noteq> None"
    using e eligible_runD(1) [OF e] by (auto simp: board_best_def filter_empty_conv eligible_row email_gate_def)
  moreover have "el_RunID b = 3" if "b \<in> set (eligible_runs demo_num judged_db)" for b
    using eligible_runD(3) [of demo_num judged_db "el_RunID b" b] that
    by (auto simp: eligible_row judged_runs split: if_splits)
  ultimately show ?thesis using board_best_Some(1) by fastforce
qed

lemma judged_only_board:
  assumes "board_best demo_num unary_ids False judged_db key user = Some b"
  shows "(key, user) = (''time:15000:en:seeded'', 9)"
proof -
  obtain b' where b': "board_best demo_num unary_ids False judged_db ''time:15000:en:seeded'' 9 = Some b'" "el_RunID b' = 3"
    using judged_best by blast
  have "el_RunID b = 3"
    using eligible_runD(3) [of demo_num judged_db "el_RunID b" b] board_best_Some(1) [OF assms]
    by (auto simp: eligible_row judged_runs split: if_splits)
  then have "b = b'" using board_best_Some(1) [OF assms] board_best_Some(1) [OF b'(1)] b'(2) by (simp add: eligible_row)
  then show ?thesis
    using on_board_unique [OF board_best_Some(2) [OF assms]] board_best_Some(2) [OF b'(1)] by blast
qed

theorem rebuild_reproduces_witness:
  "\<exists>stats db' es. Rebuild demo_num unary_ids False judged_db = Inr (stats, db') \<and>
    db' = judged_db\<lparr>db_entries := es\<rparr> \<and> st_Before stats = st_After stats \<and> boards_exact demo_num unary_ids False db' \<and>
    (\<forall>slot. map_option be_RunID (DAList.lookup es slot) =
       map_option be_RunID (DAList.lookup (db_entries judged_db) slot))"
  using judged_ready by (intro rebuild_reproduces [OF judged_reachable unary_ids_laws]) simp

section \<open>Progress\<close>

text \<open>
  C14. The queue drains: over a core whose totals are storable, on a reachable database whose stored totals
  are, no batch of a worker fails, and as many batches as the queue needs leave no run pending.
\<close>

theorem queue_drains:
  assumes "reachable_db num L req db" and "uuid_law L" and "uuid_plain_slot L"
    and "w_projector w = Some (ProjectRun num L req)" and "core_totals num (w_Replay w)" and "scores_ok num db"
    and "card {rid. \<exists>r. run_row db rid = Some r \<and> r_Status r = Pending} \<le> k * batch_size w"
  shows "\<exists>db'. run_batches w k db = Inr db' \<and> (\<forall>rid r. run_row db' rid = Some r \<longrightarrow> r_Status r \<noteq> Pending)"
  using run_batches_drain [OF assms(2,4) core_totals_ok [OF assms(5)] reachable_ok [OF assms(1-3)] assms(6)] assms(7)
  by (auto simp: matching_def)

theorem queue_drains_witness:
  "\<exists>db'. run_batches demo_worker 1 queued_db = Inr db' \<and>
    (\<forall>rid r. run_row db' rid = Some r \<longrightarrow> r_Status r \<noteq> Pending)"
proof -
  have "card {rid. \<exists>r. run_row queued_db rid = Some r \<and> r_Status r = Pending} \<le> card {3 :: nat}"
    by (rule card_mono) (auto simp: queued_row split: if_splits)
  then show ?thesis
    by (intro queue_drains [OF queued_reachable unary_ids_laws _ demo_totals queued_ok(2)]) simp_all
qed

text \<open>
  C15. Over a core whose totals are storable, on a reachable database whose stored totals are, a revalidation pass with
  room for every stale verdict ends without an error, reports as many runs as were stale, and leaves none stale: each is
  stamped with the worker's policy version and bundle, so a second pass reports nothing. The worker projects the boards,
  its policy has a version and its bundle a digest, as the command requires. Without storable totals the pass can fail,
  as the queue does.
\<close>

theorem revalidate_converges:
  assumes "reachable_db num L req db" and "uuid_law L" and "uuid_plain_slot L"
    and "w_projector w = Some (ProjectRun num L req)" and "core_totals num (w_Replay w)" and "scores_ok num db"
    and "dc_version (worker_decider w) > 0" and "w_bundleSHA w \<noteq> []"
    and "card (stale_runs w db) \<le> limit"
  shows "\<exists>db'. revalidate w limit 0 db = (db', card (stale_runs w db), None) \<and> stale_runs w db' = {} \<and>
    (\<exists>db''. revalidate w limit 0 db' = (db'', 0, None))"
proof -
  have stamps: "stamps_ok w" using assms(7,8) by (simp add: stamps_ok_def)
  obtain db' where run: "revalidate w limit 0 db = (db', card (stale_runs w db), None)" "stale_runs w db' = {}"
    using revalidate_drains [OF assms(2,4) stamps core_totals_ok [OF assms(5)] reachable_ok [OF assms(1-3)] assms(6),
        of 0 limit] assms(9) by auto
  have "claim (outdated w db') {} n db' = []" for n
    using claim_subset [of "outdated w db'" "{}" n db'] run(2) by (simp add: stale_runs_def)
  then have "RevalidateBatch w {} db' = (db', Inr 0)"
    by (simp add: RevalidateBatch_def ProcessStalePolicyBatch_def ClaimStalePolicyRuns_claim inTx_def)
  then have "\<exists>db''. revalidate w limit 0 db' = (db'', 0, None)" by (subst revalidate.simps) simp
  with run show ?thesis by blast
qed

definition next_worker :: "nat worker" where
  "next_worker = demo_worker\<lparr>w_bundleSHA := ''b3''\<rparr>"

lemma next_worker_simps [simp]:
  "w_projector next_worker = Some (ProjectRun demo_num unary_ids False)"
  "worker_decider next_worker = decider_for default_policy" "w_bundleSHA next_worker = ''b3''"
  "w_Replay next_worker = w_Replay demo_worker"
  by (simp_all add: next_worker_def worker_decider_def demo_worker_def)

lemma judged_stale: "stale_runs next_worker judged_db = {3}"
  using judged_verdict
  by (auto simp: stale_runs_def matching_def stale_def overridden_def judged_runs(1,4) split: if_splits)

theorem revalidate_converges_witness:
  "\<exists>db'. revalidate next_worker 5 0 judged_db = (db', 1, None) \<and> stale_runs next_worker db' = {} \<and>
    (\<exists>db''. revalidate next_worker 5 0 db' = (db'', 0, None))"
  using revalidate_converges [OF judged_reachable unary_ids_laws next_worker_simps(1) _ judged_runs(2), of 5] demo_totals
  by (simp add: judged_stale decider_for_def currentVersion_def)

section \<open>An operator's decision\<close>

text \<open>A heat map that another one becomes by the projection of a verdict on some run but \<open>rid\<close>.\<close>

definition other_projected :: "'r \<Rightarrow> ('r, 'u) keyboard_state \<Rightarrow> ('r, 'u) keyboard_state \<Rightarrow> bool" where
  "other_projected rid kb kb' \<longleftrightarrow>
     (\<exists>key_of user lang r accepted obs. r \<noteq> rid \<and> kb' = ProjectKeyboard key_of user lang r accepted obs kb)"

lemma ProjectKeyboard_other:
  "r \<noteq> rid \<Longrightarrow> rid \<in> kb_stamped (ProjectKeyboard key_of user lang r accepted obs kb) \<longleftrightarrow> rid \<in> kb_stamped kb"
  by (auto simp: ProjectKeyboard_def Let_def)

lemma other_projected_stamp:
  "(other_projected rid)\<^sup>*\<^sup>* kb kb' \<Longrightarrow> rid \<in> kb_stamped kb' \<longleftrightarrow> rid \<in> kb_stamped kb"
  by (induction rule: rtranclp_induct) (auto simp: other_projected_def ProjectKeyboard_other)

lemma keyboard_step_other:
  assumes "keyboard_step keyboard r accepted obs db = Inr db'" and "r \<noteq> rid"
  shows "(other_projected rid)\<^sup>*\<^sup>* (db_keyboard db) (db_keyboard db')"
proof (cases "db_keyboard db' = db_keyboard db")
  case False
  then obtain key_of user lang where "db_keyboard db' = ProjectKeyboard key_of user lang r accepted obs (db_keyboard db)"
    using assms(1) by (fastforce simp: keyboard_step_def split: option.splits)
  then have "other_projected rid (db_keyboard db) (db_keyboard db')" using assms(2) unfolding other_projected_def by blast
  then show ?thesis by blast
qed simp

context board_projector
begin

lemma decide_all_keyboard:
  "decide_all (Some project_run) keyboard decide rows db = Inr db' \<Longrightarrow> r \<notin> fst ` set rows \<Longrightarrow>
   (other_projected r)\<^sup>*\<^sup>* (db_keyboard db) (db_keyboard db')"
proof (induction rows arbitrary: db)
  case (Cons row rows)
  obtain rid row' where row: "row = (rid, row')" by (cases row)
  obtain db0 db1 where p: "project_run rid (write_verdict rid (decide (toPendingRun row')) db) = Inr db0"
    and k: "keyboard_step keyboard rid (d_Status (decide (toPendingRun row')) = Accepted)
        (observations (decide (toPendingRun row'))) db0 = Inr db1"
    and rest: "decide_all (Some project_run) keyboard decide rows db1 = Inr db'"
    using Cons.prems(1) row by (auto simp: apply_decision_def board_step_def split: sum.splits)
  have "db_keyboard db0 = db_keyboard db" using only_boards [OF p] by auto
  moreover have "rid \<noteq> r" "r \<notin> fst ` set rows" using Cons.prems(2) row by auto
  ultimately show ?case using rtranclp_trans [OF keyboard_step_other [OF k] Cons.IH [OF rest]] by simp
qed simp

end

lemma inTx_untouched:
  assumes "inTx (Some (ProjectRun num L req)) keyboard decide (claim P locked n db) db = (db', res)"
    and "rid \<notin> fst ` set (claim P locked n db)"
  shows "verdict_row db' rid = verdict_row db rid \<and> db_overrides db' = db_overrides db \<and>
    (other_projected rid)\<^sup>*\<^sup>* (db_keyboard db) (db_keyboard db')"
proof (cases "decide_all (Some (ProjectRun num L req)) keyboard decide (claim P locked n db) db")
  case (Inl e)
  with assms(1) show ?thesis by (simp add: inTx_def)
next
  case (Inr db1)
  with assms(1) have "db1 = db'" by (simp add: inTx_def)
  with Inr have run: "decide_all (Some (ProjectRun num L req)) keyboard decide (claim P locked n db) db = Inr db'" by simp
  show ?thesis
    using boards.decide_all_frame [OF run distinct_claim claim_rows] boards.decide_all_keyboard [OF run assms(2)] assms(2)
    by blast
qed

text \<open>Once an operator has decided on a run, no transaction moves its verdict row or projects it onto the heat map.\<close>

lemma decided_step:
  assumes "uuid_law L" and "uuid_plain_slot L" and "db_ok num L req db" and "db_step num L req db db'"
    and "overridden db rid"
  shows "verdict_row db' rid = verdict_row db rid \<and> overridden db' rid \<and>
    (other_projected rid)\<^sup>*\<^sup>* (db_keyboard db) (db_keyboard db')"
  using assms(4)
proof cases
  case (ingest rid' gz reads created restrictions now user bd lm lm' ans)
  then have "db' = db \<or> (\<exists>p res. CreateRun reads rid' created p db = Some (db', res))"
    using handleIngest_store [OF ingest(2)] by simp
  with assms(5) show ?thesis by (auto simp: CreateRun_def Let_def overridden_def split: if_splits)
next
  case (batch w locked res)
  have "rid \<notin> fst ` set (claim is_pending locked (batch_size w) db)"
    using claimed_pending [of db locked "batch_size w"] assms(3,5) by (force simp: db_ok_def ClaimPendingRuns_claim)
  then show ?thesis
    using batch inTx_untouched [of num L req "w_keyboard w" _ is_pending locked "batch_size w" db db' res rid] assms(5)
    by (simp add: RunBatch_def ProcessBatch_def ClaimPendingRuns_claim overridden_def)
next
  case (rejudge w locked res)
  have "rid \<notin> fst ` set (claim (outdated w db) locked (batch_size w) db)"
    using assms(5) by (auto dest!: set_claim simp: stale_def)
  then show ?thesis
    using rejudge inTx_untouched [of num L req "w_keyboard w" _ "outdated w db" locked "batch_size w" db db' res rid] assms(5)
    by (simp add: RevalidateBatch_def ProcessStalePolicyBatch_def ClaimStalePolicyRuns_claim overridden_def)
next
  case (override wired user rawID ob ores)
  from override show ?thesis
  proof (cases rule: handleOverrideStatus_cases)
    case (refused e)
    with assms(5) show ?thesis by simp
  next
    case (moved p ov)
    obtain es where "db' = (write_override ov db)\<lparr>db_entries := es\<rparr>"
      using override_Inr [OF moved(1)] ProjectRun_only_boards by fastforce
    with assms(5) show ?thesis by (simp add: overridden_def)
  qed
next
  case (rebuild stats)
  then obtain es where "db' = db\<lparr>db_entries := es\<rparr>"
    using Rebuild_exact [OF assms(1,2) _ rebuild] assms(3) by (auto simp: db_ok_def tables_ok_def)
  with assms(5) show ?thesis by simp
qed

lemma decided_steps:
  assumes "(db_step num L req)\<^sup>*\<^sup>* db db'" and "uuid_law L" and "uuid_plain_slot L" and "db_ok num L req db"
    and "overridden db rid"
  shows "db_ok num L req db' \<and> overridden db' rid \<and> verdict_row db' rid = verdict_row db rid \<and>
    (other_projected rid)\<^sup>*\<^sup>* (db_keyboard db) (db_keyboard db')"
  using assms(1)
proof induction
  case base
  with assms show ?case by simp
next
  case (step db1 db2)
  then have "(other_projected rid)\<^sup>*\<^sup>* (db_keyboard db1) (db_keyboard db2)"
    using decided_step [OF assms(2,3) _ step(2), of rid] by blast
  with step have "(other_projected rid)\<^sup>*\<^sup>* (db_keyboard db) (db_keyboard db2)" by (metis rtranclp_trans)
  with step show ?case using decided_step [OF assms(2,3) _ step(2), of rid] db_step_ok [OF assms(2,3) step(2)] by simp
qed

text \<open>
  C18. After an operator has moved a run's status, the decision is all that speaks for the run. The override leaves the
  heat map as it was; in every later database the run's verdict row is the one of before the decision, and whatever has
  happened to the heat map since are projections of verdicts on other runs. So a run that was counted stays counted when
  the operator rejects it, and one that was not stays uncounted when the operator accepts it.
\<close>

theorem override_freezes_verdict_and_heatmap:
  assumes "reachable_db num L req db" and "uuid_law L" and "uuid_plain_slot L"
    and "handleOverrideStatus L wired (Some (ProjectRun num L req)) user rawID ob db = (db1, Inr ov)"
    and "(db_step num L req)\<^sup>*\<^sup>* db1 db2"
  shows "db_keyboard db1 = db_keyboard db \<and>
    verdict_row db2 (ov_RunID ov) = verdict_row db (ov_RunID ov) \<and> overridden db2 (ov_RunID ov) \<and>
    (other_projected (ov_RunID ov))\<^sup>*\<^sup>* (db_keyboard db1) (db_keyboard db2) \<and>
    (ov_RunID ov \<in> kb_stamped (db_keyboard db2) \<longleftrightarrow> ov_RunID ov \<in> kb_stamped (db_keyboard db))"
  using assms(4)
proof (cases rule: handleOverrideStatus_cases)
  case (moved p ov')
  then obtain es where db1: "db1 = (write_override ov db)\<lparr>db_entries := es\<rparr>"
    using override_Inr [OF moved(1)] ProjectRun_only_boards by fastforce
  have "overridden db1 (ov_RunID ov)" by (simp add: db1 overridden_def)
  moreover have "db_ok num L req db1" using override_ok [OF assms(2) reachable_ok [OF assms(1-3)] assms(4)] .
  ultimately have later: "overridden db2 (ov_RunID ov)" "verdict_row db2 (ov_RunID ov) = verdict_row db1 (ov_RunID ov)"
    "(other_projected (ov_RunID ov))\<^sup>*\<^sup>* (db_keyboard db1) (db_keyboard db2)"
    using decided_steps [OF assms(5,2,3)] by blast+
  then show ?thesis using other_projected_stamp [OF later(3)] by (simp add: db1)
qed simp

definition reject_request :: overrideRequest where
  "reject_request = \<lparr>oq_Status = ''rejected'', oq_Reason = ''x''\<rparr>"

lemma demo_override:
  "\<exists>db1 ov. handleOverrideStatus unary_ids True (Some (ProjectRun demo_num unary_ids False)) (Some 7) ''aaa''
     (Some reject_request) judged_db = (db1, Inr ov) \<and> ov_RunID ov = 3"
proof -
  let ?ov = "\<lparr>ov_RunID = 3, ov_FromStatus = Accepted, ov_ToStatus = Rejected, ov_Reason = ''x'', ov_DecidedBy = 7\<rparr>"
  have ok: "tables_ok judged_db" "boards_current demo_num unary_ids False judged_db"
    using reachable_ok [OF judged_reachable unary_ids_laws] by (simp_all add: db_ok_def)
  have "scores_ok demo_num (write_override ?ov judged_db)"
    by (simp add: scores_ok_def set_eligible_runs eligible_run_def write_override_runs judged_runs may_rank_def
        split: option.splits)
  then obtain db1 where p: "ProjectRun demo_num unary_ids False 3 (write_override ?ov judged_db) = Inr db1"
    using ProjectRun_total [OF unary_ids_laws(1) ok(2) touches_write_override [OF ok(1), of _ ?ov]] by auto
  have "uuid_Parse unary_ids ''aaa'' = Some 3" by (simp add: unary_ids_def)
  moreover have "TrimSpace ''x'' = ''x''" by code_simp
  moreover obtain r where "run_row judged_db 3 = Some r" "r_Status r = Accepted" using judged_row by blast
  ultimately have "handleOverrideStatus unary_ids True (Some (ProjectRun demo_num unary_ids False)) (Some 7) ''aaa''
      (Some reject_request) judged_db = (db1, Inr ?ov)"
    using p by (simp add: handleOverrideStatus_def OverrideRunStatus_def reject_request_def parse_status.simps Let_def
        write_override_def)
  then show ?thesis by fastforce
qed

lemma demo_counted:
  "3 \<in> kb_stamped (db_keyboard judged_db)" "count_of (kb_profile (db_keyboard judged_db) (9, ''a'')) Presses = 3"
proof -
  let ?d = "worker_judge demo_worker (decider_for default_policy) (toPendingRun demo_row)"
  let ?db = "write_verdict 3 ?d queued_db"
  have "decide_all (Some (ProjectRun demo_num unary_ids False)) (Some (\<lambda>lang c. c))
      (worker_judge demo_worker (decider_for default_policy)) [(3, demo_row)] queued_db = Inr judged_db"
    using demo_batch queued_claim [of 0]
    by (auto simp: RunBatch_def ProcessBatch_def inTx_def split: sum.splits)
  then obtain db0 where p: "ProjectRun demo_num unary_ids False 3 ?db = Inr db0"
    and k: "keyboard_step (Some (\<lambda>lang c. c)) 3 (d_Status ?d = Accepted) (observations ?d) db0 = Inr judged_db"
    by (auto simp: apply_decision_def board_step_def split: sum.splits)
  obtain es where db0: "db0 = ?db\<lparr>db_entries := es\<rparr>" using ProjectRun_only_boards [OF p] by blast
  have row: "run_row db0 3 = Some (outcome ?d demo_row)" by (simp add: db0 write_verdict_runs queued_row)
  have user: "r_UserID (outcome ?d demo_row) = 9"
    by (simp add: outcome_def demo_row_def new_run_def create_params_def)
  have obs: "observations ?d =
      [\<lparr>co_Char = ''a'', co_Presses = 3, co_Errors = 1, co_IntervalSumMs = 250, co_IntervalCount = 2\<rparr>]"
    unfolding demo_judgement by (simp add: observations_def decide_clean_numbers demo_result_def)
  have "d_Status ?d = Accepted" by (simp add: demo_accepted demo_not_reviewed)
  moreover have "db_keyboard db0 = \<lparr>kb_profile = Map.empty, kb_stamped = {}\<rparr>" by (simp add: db0 queued_db_def empty_db_def)
  ultimately have "db0\<lparr>db_keyboard := ProjectKeyboard (\<lambda>lang c. c) 9 (r_Lang (outcome ?d demo_row)) 3 True
      [\<lparr>co_Char = ''a'', co_Presses = 3, co_Errors = 1, co_IntervalSumMs = 250, co_IntervalCount = 2\<rparr>]
      \<lparr>kb_profile = Map.empty, kb_stamped = {}\<rparr>\<rparr> = judged_db"
    using k row user obs by (simp add: keyboard_step_def)
  from arg_cong [OF this, of db_keyboard, symmetric] show "3 \<in> kb_stamped (db_keyboard judged_db)" "count_of (kb_profile (db_keyboard judged_db) (9, ''a'')) Presses = 3"
    by (simp_all add: ProjectKeyboard_def count_upsert key_deltas_count on_key_def)
qed

text \<open>Run 3 is rejected by an operator; a pass of the next bundle and a batch of its worker leave it counted.\<close>

theorem override_freezes_verdict_and_heatmap_witness:
  "\<exists>db1 ov db2. handleOverrideStatus unary_ids True (Some (ProjectRun demo_num unary_ids False)) (Some 7) ''aaa''
     (Some reject_request) judged_db = (db1, Inr ov) \<and> ov_RunID ov = 3 \<and>
     db2 = fst (RunBatch next_worker {} (fst (RevalidateBatch next_worker {} db1))) \<and>
     verdict_row db2 3 = verdict_row judged_db 3 \<and> overridden db2 3 \<and> 3 \<in> kb_stamped (db_keyboard db2) \<and>
     count_of (kb_profile (db_keyboard db1) (9, ''a'')) Presses = 3"
proof -
  obtain db1 ov where ov: "handleOverrideStatus unary_ids True (Some (ProjectRun demo_num unary_ids False)) (Some 7) ''aaa''
     (Some reject_request) judged_db = (db1, Inr ov)" "ov_RunID ov = 3"
    using demo_override by blast
  let ?db = "fst (RevalidateBatch next_worker {} db1)"
  let ?db2 = "fst (RunBatch next_worker {} ?db)"
  have "db_step demo_num unary_ids False db1 ?db"
    by (rule db_step.rejudge [OF next_worker_simps(1)]) (rule prod.collapse [symmetric])
  moreover have "db_step demo_num unary_ids False ?db ?db2"
    by (rule db_step.batch [OF next_worker_simps(1)]) (rule prod.collapse [symmetric])
  ultimately have steps: "(db_step demo_num unary_ids False)\<^sup>*\<^sup>* db1 ?db2" by simp
  from override_freezes_verdict_and_heatmap [OF judged_reachable unary_ids_laws ov(1) steps] ov demo_counted
  show ?thesis by auto
qed

section \<open>Where the pipeline stops\<close>

lemma ProjectRun_keeps_entry:
  assumes "uuid_law L" and "runs_ok db" and "DAList.lookup (db_entries db) (key, user) = Some e"
    and "board_best num L req db key user = Some b" and "be_RunID e = el_RunID b"
    and "ProjectRun num L req (el_RunID b) db = Inr db1"
  shows "DAList.lookup (db_entries db1) (key, user) = Some e"
proof -
  note best = board_best_Some [OF assms(4)]
  then have cell: "RunBucketCell db (el_RunID b) = Some (cell_of b)" using eligible_runD(2) by (simp add: eligible_row)
  obtain bk where bk: "cell_bucket L (cell_of b) = Inr bk" "Key L bk = key" "c_UserID (cell_of b) = user"
    using best(2) by (auto simp: on_board_def cell_of_def split: sum.splits)
  have "RecomputeLeaderboardCell num req key (cell_of b) db = Inr db1"
    using assms(6) cell bk by (simp add: ProjectRun_def)
  then have "write_entry (key, user) b db = Inr db1"
    using candidates_on_board [OF assms(1,2) bk(1) RunBucketCell_ok [OF assms(2) cell], of req num] bk assms(4)
    by (auto simp: RecomputeLeaderboardCell_def Let_def board_best_def split: if_splits)
  then show ?thesis using assms(3,5) by (auto simp: write_entry_def split: if_splits)
qed

text \<open>
  A player's cell keeps the numbers of the first projection of its run. When a run that is its player's
  best is judged again and stays the best, the projection leaves the cell as it was, whatever the new
  verdict's speed, accuracy, score and grade are; only a rebuild writes them.
\<close>

theorem rejudged_best_keeps_old_numbers:
  assumes "uuid_law L" and "uuid_plain_slot L" and "runs_ok db"
    and "DAList.lookup (db_entries db) (key, user) = Some e"
    and "board_best num L req db key user = Some b" and "be_RunID e = el_RunID b"
    and "ProjectRun num L req (el_RunID b) db = Inr db1" and "Rebuild num L req db = Inr (stats, db2)"
  shows "DAList.lookup (db_entries db1) (key, user) = Some e \<and>
    DAList.lookup (db_entries db2) (key, user) = Some (entry_of db b)"
proof
  show "DAList.lookup (db_entries db1) (key, user) = Some e"
    using ProjectRun_keeps_entry [OF assms(1,3-7)] .
  obtain es where "boards_exact num L req db2" "db2 = db\<lparr>db_entries := es\<rparr>"
    using Rebuild_exact [OF assms(1-3,8)] by blast
  then show "DAList.lookup (db_entries db2) (key, user) = Some (entry_of db b)"
    using assms(5) by (simp add: boards_exact_def)
qed

text \<open>The cell of run 3 as an earlier bundle wrote it, with a speed of 2 words per minute.\<close>

definition old_cell :: "nat board_entry" where
  "old_cell = \<lparr>be_RunID = 3, be_Score = 7, be_Wpm = 2, be_Raw = 2, be_Acc = 0, be_Grade = ''C'', be_Mods = [],
     be_AchievedAt = 5, be_QuoteSource = None\<rparr>"

definition old_cell_db :: "nat db" where
  "old_cell_db = judged_db\<lparr>db_entries := DAList.update (''time:15000:en:seeded'', 9) old_cell DAList.empty\<rparr>"

theorem rejudged_best_keeps_old_numbers_witness:
  "\<exists>b db1 db2 stats. ProjectRun demo_num unary_ids False 3 old_cell_db = Inr db1 \<and>
     Rebuild demo_num unary_ids False old_cell_db = Inr (stats, db2) \<and>
     DAList.lookup (db_entries db1) (''time:15000:en:seeded'', 9) = Some old_cell \<and>
     DAList.lookup (db_entries db2) (''time:15000:en:seeded'', 9) = Some (entry_of old_cell_db b) \<and>
     be_RunID (entry_of old_cell_db b) = be_RunID old_cell \<and> be_Score (entry_of old_cell_db b) \<noteq> be_Score old_cell"
proof -
  let ?slot = "(''time:15000:en:seeded'', 9 :: nat)"
  obtain b where b: "board_best demo_num unary_ids False old_cell_db (fst ?slot) (snd ?slot) = Some b" "el_RunID b = 3"
    using judged_best by (auto simp: old_cell_db_def)
  have e: "DAList.lookup (db_entries old_cell_db) ?slot = Some old_cell"
    by (simp add: old_cell_db_def lookup_update)
  have ok: "runs_ok old_cell_db"
    using reachable_ok [OF judged_reachable unary_ids_laws] by (simp add: db_ok_def tables_ok_def old_cell_db_def)
  have elig: "eligible_runs demo_num old_cell_db = eligible_runs demo_num judged_db" by (simp add: old_cell_db_def)
  have "\<forall>e \<in> set (eligible_runs demo_num old_cell_db). email_gate False old_cell_db (el_UserID e) \<longrightarrow> board_ready unary_ids e"
    using judged_ready elig by simp
  then obtain stats db2 where rb: "Rebuild demo_num unary_ids False old_cell_db = Inr (stats, db2)"
    using Rebuild_total [OF unary_ids_laws ok] by blast
  have "boards_current demo_num unary_ids False old_cell_db"
  proof -
    have best: "board_best demo_num unary_ids False judged_db key user = None" if "(key, user) \<noteq> ?slot" for key user
      using judged_only_board that by (metis not_None_eq)
    show ?thesis
      using b e best by (auto simp: boards_current_def old_cell_db_def lookup_update old_cell_def)
  qed
  moreover have "touches demo_num 3 old_cell_db old_cell_db" using ok by (simp add: touches_def)
  moreover have "scores_ok demo_num old_cell_db" using judged_runs(2) by (simp add: old_cell_db_def)
  ultimately obtain db1 where pr: "ProjectRun demo_num unary_ids False 3 old_cell_db = Inr db1"
    using ProjectRun_total [OF unary_ids_laws(1)] by blast
  have "DAList.lookup (db_entries db1) ?slot = Some old_cell \<and>
      DAList.lookup (db_entries db2) ?slot = Some (entry_of old_cell_db b)"
    using rejudged_best_keeps_old_numbers [OF unary_ids_laws ok, of "fst ?slot" "snd ?slot" old_cell demo_num False b db1 stats db2]
      e b pr rb by (simp add: old_cell_def)
  moreover have "el_Total b = 1000 \<or> el_Total b = 16777216"
    using eligible_total [of demo_num old_cell_db "el_RunID b" b] board_best_Some(1) [OF b(1)]
    by (auto simp: eligible_row doc_num_def demo_num_def split: option.splits if_splits)
  ultimately show ?thesis using pr rb b(2) by (intro exI) (auto simp: entry_of_def old_cell_def)
qed

lemma rebuild_cells_blocked:
  "c \<in> set cs \<Longrightarrow> cell_bucket L c = Inl err \<Longrightarrow> \<exists>e. rebuild_cells num L req cs seen db = Inl e"
proof (induction cs arbitrary: seen db)
  case (Cons x cs)
  then show ?case by (cases "x = c") (auto simp: Let_def split: sum.split)
qed simp

text \<open>
  One eligible run whose coordinates are no valid board, for instance a language name with a space,
  which the submission endpoint accepts and the view does not exclude, makes every rebuild fail.
\<close>

theorem unrankable_run_blocks_rebuild:
  assumes "eligible_run num db rid = Some e" and "email_gate req db (el_UserID e)"
    and "cell_bucket L (cell_of e) = Inl err"
  shows "\<exists>e. Rebuild num L req db = Inl e"
proof -
  have "e \<in> set (eligible_runs num db)" using assms(1) eligible_runD(1) [OF assms(1)] by (simp add: eligible_row)
  then have "cell_of e \<in> set (EnumerateLeaderboardCells num req db)"
    using assms(2) by (auto simp: EnumerateLeaderboardCells_def)
  from rebuild_cells_blocked [OF this assms(3), of num req "[]" "ClearLeaderboard db"]
  show ?thesis by (auto simp: Rebuild_def)
qed

definition spaced_run :: ingestRequest where
  "spaced_run = demo_run\<lparr>rq_Lang := ''a b''\<rparr>"

lemma spaced_run_accepted:
  "validateIngest unary_ids Some 9 spaced_run = Inr (create_params 9 spaced_run 0 ''{}'')"
  unfolding validateIngest_Inr run_ok_def fields_ok_def setup_ok_def dims_ok_def log_ok_def seqs_ok_def
  by (simp add: spaced_run_def demo_run_def quote_of_def telemetry_ok_def restarts_of_def) (rule exI [of _ "[0]"], simp)

definition spaced_row :: "nat run" where
  "spaced_row = (new_run demo_reads 5 (create_params 9 spaced_run 0 ''{}''))\<lparr>r_Status := Accepted\<rparr>"

definition spaced_verdict :: "nat verdict" where
  "spaced_verdict =
     \<lparr>v_UserID = 9, v_ServerMetrics = Some (rs_Metrics (demo_result [])),
      v_ServerScore = Some (rs_Score (demo_result [])), v_Validation = plain_doc verdictValid [],
      v_BundleSha = Some ''b2'', v_PolicyVersion = Some 1\<rparr>"

definition spaced_db :: "nat db" where
  "spaced_db = empty_db\<lparr>db_runs := DAList.update 3 spaced_row DAList.empty,
     db_verdicts := DAList.update 3 spaced_verdict DAList.empty\<rparr>"

lemma spaced_row_fields:
  "r_UserID spaced_row = 9" "r_Mode spaced_row = ModeTime" "r_DurationMs spaced_row = Some 15000"
  "r_Lang spaced_row = ''a b''" "r_TextSourceKind spaced_row = ''seeded''" "r_QuoteID spaced_row = None"
  "r_AdoptedFrom spaced_row = None" "r_Status spaced_row = Accepted"
  by (simp_all add: spaced_row_def new_run_def create_params_def spaced_run_def demo_run_def demo_reads_def)

lemma spaced_lang: "validComponent ''lang'' ''a b'' 32 \<noteq> None"
  by (simp add: validComponent_def runes_ascii ascii_def byte_def key_rune_def)

theorem unrankable_run_blocks_rebuild_witness:
  "(\<exists>p. validateIngest unary_ids Some 9 spaced_run = Inr p) \<and> (\<exists>e. Rebuild demo_num unary_ids False spaced_db = Inl e)"
proof -
  obtain e where e: "eligible_run demo_num spaced_db 3 = Some e" "el_Lang e = ''a b''" "el_QuoteID e = None"
      "el_Mode e = ModeTime" "el_DurationMs e = Some 15000"
    by (simp add: eligible_run_def spaced_db_def empty_db_def lookup_update may_rank_def ranked_shape_def doc_num_def
        demo_num_def spaced_verdict_def demo_result_def spaced_row_fields resolved_quote_def)
  have "validate unary_ids \<lparr>b_Mode = ModeTime, b_Dimension = 15000, b_Lang = ''a b'', b_TextSource = el_Kind e,
      b_QuoteID = uuid_Nil unary_ids\<rparr> \<noteq> None"
    using spaced_lang by (subst validate_language) (simp_all add: IsQuote_def language_board_def)
  then have "\<exists>err. cell_bucket unary_ids (cell_of e) = Inl err"
    using e by (auto simp: cell_bucket_def cell_of_def NewBucket_def Let_def checked_def split: option.split)
  then show ?thesis using unrankable_run_blocks_rebuild [OF e(1)] spaced_run_accepted by (auto simp: email_gate_def)
qed

lemma oversized_projection:
  assumes "tables_ok db" and "scores_ok num db" and "eligible_run num (write_verdict rid d db) rid = Some e"
    and "email_gate req db (el_UserID e)" and "cell_bucket L (cell_of e) = Inr b"
    and "is_bigint (el_Total e)" and "16777216 \<le> el_Total e"
  shows "ProjectRun num L req rid (write_verdict rid d db) = Inl ScoreNotPackable"
proof -
  let ?db = "write_verdict rid d db"
  let ?cands = "filter (\<lambda>x. in_cell (cell_of e) x \<and> email_gate req ?db (c_UserID (cell_of e))) (eligible_runs num ?db)"
  note touched = touches_write_verdict [OF assms(1), of num rid d, unfolded touches_def]
  have gate: "email_gate req ?db (c_UserID (cell_of e))" using assms(4) touched by (simp add: email_gate_def cell_of_def)
  have "e \<in> set ?cands"
    using gate assms(3) eligible_runD(1) [OF assms(3)] by (simp add: eligible_row in_cell_def cell_of_def)
  then obtain best where best: "best_of ?cands = Some best" by (metis best_of_None empty_iff empty_set not_None_eq)
  have "\<not> better e best" using best_of_Some [OF best] \<open>e \<in> set ?cands\<close> by blast
  then have "\<not> score_packable \<lfloor>el_Total best\<rfloor>" using assms(7) by (simp add: better_def score_packable_def le_floor_iff)
  then have refused: "write_entry slot best ?db = Inl ScoreNotPackable" for slot by (simp add: write_entry_def)
  have "is_bigint (el_Total x)" if "x \<in> set (eligible_runs num ?db)" for x
  proof (cases "el_RunID x = rid")
    case True
    then show ?thesis using that assms(3,6) by (simp add: eligible_row)
  next
    case False
    then have "x \<in> set (eligible_runs num db)" using that touched by (simp add: eligible_row)
    then show ?thesis using assms(2) by (simp add: scores_ok_def)
  qed
  then have whole: "\<not> list_ex (\<lambda>x. \<not> is_bigint (el_Total x)) ?cands" by (auto simp: list_ex_iff)
  show ?thesis
    unfolding ProjectRun_def eligible_runD(2) [OF assms(3)] option.case assms(5) sum.case RecomputeLeaderboardCell_def Let_def
      if_not_P [OF whole] best by (rule refused)
qed

text \<open>
  C40. A run with too large a total wedges the queue. When the oldest pending run of a database with storable totals
  is one that the worker's verdict makes eligible for a board with a whole total of \<open>2 ^ 24\<close> or more, the projection
  violates the \<open>CHECK\<close> of the column, and the batch fails and is rolled back with everything else it had claimed.
  However often the worker tries, the database stays as it is and the same error comes back.
\<close>

theorem oversized_total_wedges_queue:
  assumes "reachable_db num L req db" and "uuid_law L" and "uuid_plain_slot L" and "scores_ok num db"
    and "w_projector w = Some (ProjectRun num L req)" and "ClaimPendingRuns {} (batch_size w) db = (rid, r) # rows"
    and "eligible_run num (write_verdict rid (worker_judge w (worker_decider w) (toPendingRun r)) db) rid = Some e"
    and "email_gate req db (el_UserID e)" and "cell_bucket L (cell_of e) = Inr b"
    and "is_bigint (el_Total e)" and "16777216 \<le> el_Total e"
  shows "((fst \<circ> RunBatch w {}) ^^ k) db = db \<and> snd (RunBatch w {} (((fst \<circ> RunBatch w {}) ^^ k) db)) = Inl (BoardFailed ScoreNotPackable)"
proof -
  have "tables_ok db" using reachable_ok [OF assms(1-3)] by (simp add: db_ok_def)
  from oversized_projection [OF this assms(4,7-11)]
  have batch: "RunBatch w {} db = (db, Inl (BoardFailed ScoreNotPackable))"
    using assms(5,6) by (simp add: RunBatch_def ProcessBatch_def inTx_def apply_decision_def board_step_def)
  have "((fst \<circ> RunBatch w {}) ^^ k) db = db" by (induction k) (simp_all add: batch)
  then show ?thesis by (simp add: batch)
qed

definition big_worker :: "nat worker" where
  "big_worker = demo_worker\<lparr>w_Replay := (\<lambda>_. Inr ((demo_result [])\<lparr>rs_Score := \<lparr>raw_bytes = ''big'', raw_value = Some 16777216\<rparr>\<rparr>))\<rparr>"

definition big_reads :: "nat stored_reads" where
  "big_reads = demo_reads\<lparr>sr_Score := (\<lambda>_. Some (Some 16777216))\<rparr>"

definition big_row :: "nat run" where
  "big_row = new_run big_reads 5 (create_params 9 demo_run 0 ''{}'')"

definition big_db :: "nat db" where
  "big_db = empty_db\<lparr>db_runs := DAList.update 3 big_row DAList.empty\<rparr>"

lemma big_row_fields:
  "r_UserID big_row = 9" "r_Mode big_row = ModeTime" "r_DurationMs big_row = Some 15000" "r_WordCount big_row = None"
  "r_Lang big_row = ''en''" "r_TextSourceKind big_row = ''seeded''" "r_QuoteID big_row = None"
  "r_AdoptedFrom big_row = None" "r_Status big_row = Pending"
  by (simp_all add: big_row_def new_run_def create_params_def demo_run_def demo_reads_def big_reads_def)

lemma big_text: "text_of unary_ids Some None (toPendingRun big_row) = Inr (Some ''d'', None)"
  by (simp add: text_of_def quoteRefOf_def toPendingRun_def PendingRun.defs big_row_def new_run_def create_params_def
      demo_reads_def big_reads_def demo_run_def)

lemma big_judgement:
  "worker_judge big_worker p (toPendingRun big_row) =
     decide_clean p (toPendingRun big_row) ((demo_result [])\<lparr>rs_Score := \<lparr>raw_bytes = ''big'', raw_value = Some 16777216\<rparr>\<rparr>)
       (base_decision ''b2'' p (toPendingRun big_row))"
proof -
  have "gunzip Some (pr_Log (toPendingRun big_row)) = Some ''{}''"
    by (simp add: gunzip_def maxLogBytes_def toPendingRun_def PendingRun.defs big_row_def new_run_def create_params_def)
  then show ?thesis
    by (simp add: worker_judge_def judge_run_def demo_worker_def big_worker_def big_text Decide_def Let_def)
      (simp add: demo_result_def verdictValid_def verdictInvalid_def)
qed

lemma big_accepted: "d_Status (worker_judge big_worker (decider_for default_policy) (toPendingRun big_row)) = Accepted"
  unfolding big_judgement decide_clean_status
  by (simp add: numbers_agree_def demo_result_def metricTolerance_def verdict_of_def runSeconds_def demo_not_reviewed
      toPendingRun_def PendingRun.defs big_row_def new_run_def create_params_def demo_reads_def big_reads_def demo_run_def)

lemma big_eligible:
  "\<exists>e. eligible_run demo_num (write_verdict 3 (worker_judge big_worker (decider_for default_policy) (toPendingRun big_row)) big_db) 3 = Some e \<and>
     el_Total e = 16777216 \<and> cell_of e = \<lparr>c_UserID = 9, c_QuoteID = None, c_Mode = ModeTime, c_DurationMs = Some 15000,
      c_WordCount = None, c_Lang = ''en'', c_Kind = ''seeded''\<rparr>"
proof -
  let ?d = "worker_judge big_worker (decider_for default_policy) (toPendingRun big_row)"
  let ?db = "write_verdict 3 ?d big_db"
  have runs: "run_row ?db rid = (if rid = 3 then Some (outcome ?d big_row) else None)" for rid
    by (simp add: write_verdict_runs big_db_def empty_db_def lookup_update)
  have cell: "RunBucketCell ?db 3 = Some \<lparr>c_UserID = 9, c_QuoteID = None, c_Mode = ModeTime, c_DurationMs = Some 15000,
      c_WordCount = None, c_Lang = ''en'', c_Kind = ''seeded''\<rparr>"
    by (simp add: RunBucketCell_def runs outcome_def resolved_quote_def big_row_fields)
  have rank: "may_rank ?db (outcome ?d big_row)"
    using big_accepted by (simp add: may_rank_def ranked_shape_def outcome_def big_row_fields)
  obtain v where v: "verdict_row ?db 3 = Some v" "v_ServerScore v = Some \<lparr>raw_bytes = ''big'', raw_value = Some 16777216\<rparr>"
    "v_ServerMetrics v = Some (rs_Metrics (demo_result []))"
    by (simp add: write_verdict_verdicts big_db_def empty_db_def lookup_update big_judgement decide_clean_numbers)
  obtain e where e: "eligible_run demo_num ?db 3 = Some e" "el_Total e = 16777216"
    using v rank by (simp add: eligible_run_def runs doc_num_def demo_num_def demo_result_def)
  then show ?thesis using eligible_runD(2) [OF e(1)] cell by simp
qed

lemma big_reachable: "reachable_db demo_num unary_ids False big_db"
proof -
  have dim: "one_dimension big_row"
    by (simp add: big_row_def new_run_def create_params_def demo_run_def demo_reads_def big_reads_def one_dimension_def)
  obtain lm where "handleIngest unary_ids Some (CreateRun big_reads 3 5) None 0 (Some 9) (Body demo_run)
      (NewInMemoryRateLimiter 1 5) empty_db = (lm, big_db, Stored (3, Pending, 5))"
    by (simp add: handleIngest_def demo_run_unary restriction_of_def limiter_allow_def
        limiter_take_def limiter_sweep_def NewInMemoryRateLimiter_def refill_tokens_def last_of_def
        CreateRun_def Let_def big_row_def [symmetric] dim big_db_def empty_db_def)
  moreover have "\<not> overridden empty_db 3" by (simp add: overridden_def empty_db_def)
  ultimately show ?thesis using db_step.ingest empty_reachable reachable_db.step by metis
qed

theorem oversized_total_wedges_queue_witness:
  "((fst \<circ> RunBatch big_worker {}) ^^ 100) big_db = big_db \<and>
   snd (RunBatch big_worker {} (((fst \<circ> RunBatch big_worker {}) ^^ 100) big_db)) = Inl (BoardFailed ScoreNotPackable)"
proof -
  have w: "w_projector big_worker = Some (ProjectRun demo_num unary_ids False)" "batch_size big_worker = 1"
    "worker_decider big_worker = decider_for default_policy"
    by (simp_all add: big_worker_def demo_worker_def batch_size_def worker_decider_def)
  have "r_Status big_row = Pending" by (simp add: big_row_def new_run_def)
  then have claim: "ClaimPendingRuns {} (batch_size big_worker) big_db = [(3, big_row)]"
    by (simp add: ClaimPendingRuns_def claim_def big_db_def empty_db_def DAList.update.rep_eq DAList.empty.rep_eq
        oldest_first_def w)
  have scores: "scores_ok demo_num big_db"
    by (simp add: scores_ok_def set_eligible_runs eligible_run_def big_db_def empty_db_def lookup_update split: option.splits)
  obtain e where e: "eligible_run demo_num (write_verdict 3 (worker_judge big_worker (decider_for default_policy) (toPendingRun big_row)) big_db) 3 = Some e"
    "el_Total e = 16777216" "cell_of e = \<lparr>c_UserID = 9, c_QuoteID = None, c_Mode = ModeTime, c_DurationMs = Some 15000,
      c_WordCount = None, c_Lang = ''en'', c_Kind = ''seeded''\<rparr>"
    using big_eligible by blast
  show ?thesis
    by (rule oversized_total_wedges_queue [OF big_reachable unary_ids_laws scores w(1) claim e(1) [folded w(3)], unfolded e(3), OF _ demo_bucket])
      (simp_all add: e(2) email_gate_def is_bigint_def)
qed

text \<open>
  The worker refuses what the endpoint accepted: the endpoint bounds the bytes of a version 1 log only,
  the worker decompresses at most 16 MiB, so an accepted run with a longer log is flagged with a replay error
  by every worker, whatever its core would find.
\<close>

theorem long_log_always_flagged:
  assumes "validateIngest L gz user req = Inr p" and "length (raw_bytes (rq_Log req)) > maxLogBytes"
    and "\<And>bytes z. gz bytes = Some z \<Longrightarrow> w_inflate w z = Some bytes"
  shows "d_Status (worker_judge w d (toPendingRun (new_run reads now p))) = Flagged \<and>
    d_ServerScore (worker_judge w d (toPendingRun (new_run reads now p))) = None"
proof -
  have "w_inflate w (p_Log p) = Some (raw_bytes (rq_Log req))"
    using assms(1,3) by (auto simp: validateIngest_Inr create_params_def)
  then have "gunzip (w_inflate w) (pr_Log (toPendingRun (new_run reads now p))) = None"
    using assms(2) by (simp add: gunzip_def toPendingRun_def PendingRun.defs new_run_def)
  then have "\<exists>e. worker_judge w d (toPendingRun (new_run reads now p)) =
      Decide (w_bundleSHA w) d (toPendingRun (new_run reads now p)) noResult (Some e)"
    by (auto simp: worker_judge_def judge_run_def split: sum.split)
  then show ?thesis by (auto simp: Decide_status Decide_score(1))
qed

definition long_run :: ingestRequest where
  "long_run = demo_run\<lparr>rq_Log := \<lparr>raw_bytes = replicate (Suc maxLogBytes) (CHR ''x''),
     raw_value = Some \<lparr>le_Version = Some 2, le_Events = [\<lparr>ev_Seq = Some 0, ev_Kind = ''insert'', ev_Code = []\<rparr>]\<rparr>\<rparr>\<rparr>"

lemma long_run_accepted: "\<exists>p. validateIngest unary_ids Some 9 long_run = Inr p"
  unfolding validateIngest_Inr run_ok_def fields_ok_def setup_ok_def dims_ok_def log_ok_def seqs_ok_def
  by (simp add: long_run_def demo_run_def quote_of_def telemetry_ok_def restarts_of_def) (rule exI [of _ "[0]"], simp)

theorem long_log_always_flagged_witness:
  "\<exists>p. validateIngest unary_ids Some 9 long_run = Inr p \<and>
     d_Status (worker_judge demo_worker (decider_for default_policy) (toPendingRun (new_run demo_reads 5 p))) = Flagged"
proof -
  obtain p where p: "validateIngest unary_ids Some 9 long_run = Inr p" using long_run_accepted by blast
  have "d_Status (worker_judge demo_worker (decider_for default_policy) (toPendingRun (new_run demo_reads 5 p))) = Flagged"
    using long_log_always_flagged [OF p, of demo_worker] by (simp add: long_run_def demo_worker_def)
  with p show ?thesis by blast
qed

end
