(* ===== verification/Board_Reads.thy ===== *)
theory Board_Reads
  imports Board_Projection Httpx Keyset
begin

text \<open>
  The read side of the leaderboards: the queries over the views \<open>leaderboard_ranked\<close> and
  \<open>leaderboard_rows\<close> (\<open>leaderboarddb\<close>), the store (\<open>leaderboard/pgstore\<close>) and the public handlers
  (\<open>leaderboard/handler.go\<close>): a page of a board from the top, after a cursor, before a cursor or around
  the caller, the caller's own rank, and the board index.

  A board is ordered by a packed key, \<open>score << 32\<close> minus the second it was achieved in, then by the exact
  time and the player. The theory proves that this is the order by score, time and player, interprets the
  queries as a \<open>ranking_source\<close>, and derives what the handlers answer.

  A stored time is in microseconds, a \<open>time.Time\<close> in nanoseconds.
\<close>

section \<open>Views\<close>

record 'u board_reads =
  rd_entries :: "(string \<times> 'u, 'u board_entry) alist"
  rd_banned :: "'u set"
  rd_names :: "'u \<rightharpoonup> string"

definition leaderboard_ranked :: "'u board_reads \<Rightarrow> string \<Rightarrow> ('u \<times> 'u board_entry) list" where
  "leaderboard_ranked R key =
     map (\<lambda>((k, u), e). (u, e))
       (filter (\<lambda>((k, u), e). k = key \<and> u \<notin> rd_banned R) (DAList.impl_of (rd_entries R)))"

definition leaderboard_rows :: "'u board_reads \<Rightarrow> string \<Rightarrow> ('u \<times> string \<times> 'u board_entry) list" where
  "leaderboard_rows R key =
     List.map_filter (\<lambda>(u, e). map_option (\<lambda>name. (u, name, e)) (rd_names R u)) (leaderboard_ranked R key)"

text \<open>\<open><<\<close> on a \<open>bigint\<close> drops the bits above 64; the subtraction fails when it leaves the range.\<close>

definition to_int64 :: "int \<Rightarrow> int" where
  "to_int64 n = (n + 2 ^ 63) mod 2 ^ 64 - 2 ^ 63"

definition packed :: "int \<Rightarrow> int \<Rightarrow> int" where
  "packed score achieved = to_int64 (score * 2 ^ 32) - achieved div 1000000"

definition leaderboard_sort_key :: "int \<Rightarrow> int \<Rightarrow> int option" where
  "leaderboard_sort_key score achieved = (let k = packed score achieved in if in_int64 k then Some k else None)"

section \<open>Queries\<close>

record 'u rank_cursor =
  cu_Score :: int
  cu_AchievedAt :: int
  cu_UserID :: 'u

text \<open>A \<open>time.Time\<close> reaches the database in whole microseconds.\<close>

definition ts_param :: "int \<Rightarrow> int" where
  "ts_param nanos = nanos div 1000"

definition row_rank :: "'u \<Rightarrow> 'u board_entry \<Rightarrow> int \<times> int \<times> 'u" where
  "row_rank u e = (- packed (be_Score e) (be_AchievedAt e), be_AchievedAt e, u)"

text \<open>\<open>ORDER BY sort_key DESC, achieved_at ASC, user_id ASC\<close>.\<close>

definition rank_order :: "(('u::linorder) \<times> string \<times> 'u board_entry) list \<Rightarrow> ('u \<times> string \<times> 'u board_entry) list" where
  "rank_order rows = sort_key (\<lambda>(u, name, e). row_rank u e) rows"

text \<open>The two continuation predicates, below and above a position with packed key \<open>k\<close>.\<close>

definition row_below :: "int \<Rightarrow> ('u::linorder) rank_cursor \<Rightarrow> 'u \<Rightarrow> 'u board_entry \<Rightarrow> bool" where
  "row_below k c u e \<longleftrightarrow>
     (let sk = packed (be_Score e) (be_AchievedAt e); t = ts_param (cu_AchievedAt c)
      in sk \<le> k \<and> (sk < k \<or> be_AchievedAt e > t \<or> (be_AchievedAt e = t \<and> u > cu_UserID c)))"

definition row_above :: "int \<Rightarrow> ('u::linorder) rank_cursor \<Rightarrow> 'u \<Rightarrow> 'u board_entry \<Rightarrow> bool" where
  "row_above k c u e \<longleftrightarrow>
     (let sk = packed (be_Score e) (be_AchievedAt e); t = ts_param (cu_AchievedAt c)
      in sk \<ge> k \<and> (sk > k \<or> be_AchievedAt e < t \<or> (be_AchievedAt e = t \<and> u < cu_UserID c)))"

definition ListLeaderboardPageFirst ::
  "('u::linorder) board_reads \<Rightarrow> string \<Rightarrow> nat \<Rightarrow> ('u \<times> string \<times> 'u board_entry) list" where
  "ListLeaderboardPageFirst R key n = take n (rank_order (leaderboard_rows R key))"

definition ListLeaderboardPageAfter ::
  "('u::linorder) board_reads \<Rightarrow> string \<Rightarrow> 'u rank_cursor \<Rightarrow> nat \<Rightarrow> ('u \<times> string \<times> 'u board_entry) list option" where
  "ListLeaderboardPageAfter R key c n =
     map_option (\<lambda>k. take n (rank_order (filter (\<lambda>(u, name, e). row_below k c u e) (leaderboard_rows R key))))
       (leaderboard_sort_key (cu_Score c) (ts_param (cu_AchievedAt c)))"

text \<open>The upward page is read in the reversed order, nearest first; the order is total, so that is \<open>rev\<close>.\<close>

definition ListLeaderboardPageBefore ::
  "('u::linorder) board_reads \<Rightarrow> string \<Rightarrow> 'u rank_cursor \<Rightarrow> nat \<Rightarrow> ('u \<times> string \<times> 'u board_entry) list option" where
  "ListLeaderboardPageBefore R key c n =
     map_option (\<lambda>k. take n (rev (rank_order (filter (\<lambda>(u, name, e). row_above k c u e) (leaderboard_rows R key)))))
       (leaderboard_sort_key (cu_Score c) (ts_param (cu_AchievedAt c)))"

definition CountLeaderboardAbove :: "('u::linorder) board_reads \<Rightarrow> string \<Rightarrow> 'u rank_cursor \<Rightarrow> nat option" where
  "CountLeaderboardAbove R key c =
     map_option (\<lambda>k. length (filter (\<lambda>(u, e). row_above k c u e) (leaderboard_ranked R key)))
       (leaderboard_sort_key (cu_Score c) (ts_param (cu_AchievedAt c)))"

definition GetLeaderboardEntry ::
  "'u board_reads \<Rightarrow> string \<Rightarrow> 'u \<Rightarrow> ('u \<times> string \<times> 'u board_entry) option" where
  "GetLeaderboardEntry R key user =
     (case filter (\<lambda>(u, name, e). u = user) (leaderboard_rows R key) of [] \<Rightarrow> None | row # _ \<Rightarrow> Some row)"

section \<open>The store\<close>

record 'u Entry =
  e_Rank :: int
  e_UserID :: 'u
  e_DisplayName :: string
  e_RunID :: 'u
  e_Score :: int
  e_WPM :: rat
  e_Raw :: rat
  e_Acc :: rat
  e_Grade :: string
  e_Mods :: string
  e_Source :: string
  e_AchievedAt :: int

definition null_text :: "string option \<Rightarrow> string" where
  "null_text s = (case s of None \<Rightarrow> [] | Some t \<Rightarrow> t)"

fun rowToEntry :: "'u \<times> string \<times> 'u board_entry \<Rightarrow> 'u Entry" where
  "rowToEntry (u, name, e) =
     \<lparr>e_Rank = 0, e_UserID = u, e_DisplayName = name, e_RunID = be_RunID e, e_Score = be_Score e,
      e_WPM = be_Wpm e, e_Raw = be_Raw e, e_Acc = be_Acc e, e_Grade = be_Grade e, e_Mods = be_Mods e,
      e_Source = null_text (be_QuoteSource e), e_AchievedAt = be_AchievedAt e * 1000\<rparr>"

definition Page ::
  "('u::linorder) uuid_lib \<Rightarrow> 'u board_reads \<Rightarrow> 'u Bucket \<Rightarrow> 'u rank_cursor option \<Rightarrow> nat \<Rightarrow> 'u Entry list option" where
  "Page L R b after limit =
     (case after of
        None \<Rightarrow> Some (map rowToEntry (ListLeaderboardPageFirst R (Key L b) limit))
      | Some c \<Rightarrow> map_option (map rowToEntry) (ListLeaderboardPageAfter R (Key L b) c limit))"

definition PageBefore ::
  "('u::linorder) uuid_lib \<Rightarrow> 'u board_reads \<Rightarrow> 'u Bucket \<Rightarrow> 'u rank_cursor \<Rightarrow> nat \<Rightarrow> 'u Entry list option" where
  "PageBefore L R b before limit =
     map_option (\<lambda>rows. rev (map rowToEntry rows)) (ListLeaderboardPageBefore R (Key L b) before limit)"

definition RankAbove ::
  "('u::linorder) uuid_lib \<Rightarrow> 'u board_reads \<Rightarrow> 'u Bucket \<Rightarrow> 'u rank_cursor \<Rightarrow> nat option" where
  "RankAbove L R b c = CountLeaderboardAbove R (Key L b) c"

datatype read_error = NoEntry | QueryFailed

definition EntryFor ::
  "('u::linorder) uuid_lib \<Rightarrow> 'u board_reads \<Rightarrow> 'u Bucket \<Rightarrow> 'u \<Rightarrow> (read_error, 'u Entry) result" where
  "EntryFor L R b user =
     (case GetLeaderboardEntry R (Key L b) user of
        None \<Rightarrow> Inl NoEntry
      | Some row \<Rightarrow>
          let entry = rowToEntry row
          in case RankAbove L R b \<lparr>cu_Score = e_Score entry, cu_AchievedAt = e_AchievedAt entry, cu_UserID = e_UserID entry\<rparr> of
               None \<Rightarrow> Inl QueryFailed
             | Some outranking \<Rightarrow> Inr (entry\<lparr>e_Rank := int outranking + 1\<rparr>))"

section \<open>Handlers\<close>

definition boardDefaultLimit :: int where "boardDefaultLimit = 50"
definition boardMaxLimit :: int where "boardMaxLimit = 100"

datatype board_api_error =
  UnknownBucket | BadCursor | ConflictingAsks | BadAround | BoardUnauthorized | BoardRateLimited | BoardInternal

fun board_error_status :: "board_api_error \<Rightarrow> nat" where
  "board_error_status UnknownBucket = 404"
| "board_error_status BadCursor = 400"
| "board_error_status ConflictingAsks = 400"
| "board_error_status BadAround = 400"
| "board_error_status BoardUnauthorized = 401"
| "board_error_status BoardRateLimited = 429"
| "board_error_status BoardInternal = 500"

record 'u pageResponse =
  pg_Bucket :: string
  pg_Entries :: "'u Entry list"
  pg_PrevCursor :: string
  pg_NextCursor :: string

datatype 'u board_answer = BoardRefused board_api_error | NoContent | Ranked "'u pageResponse" | Mine string "'u Entry"

definition encodeRank :: "'u uuid_lib \<Rightarrow> 'u rank_cursor \<Rightarrow> string" where
  "encodeRank L c = EncodeCursor [Itoa (cu_Score c), Itoa (cu_AchievedAt c), uuid_String L (cu_UserID c)]"

definition decodeRank :: "'u uuid_lib \<Rightarrow> string \<Rightarrow> 'u rank_cursor option" where
  "decodeRank L token =
     (case DecodeCursor token 3 of
        Some [score, nanos, user] \<Rightarrow>
          (case Atoi score of
             None \<Rightarrow> None
           | Some s \<Rightarrow>
               (case Atoi nanos of
                  None \<Rightarrow> None
                | Some t \<Rightarrow>
                    (case uuid_Parse L user of
                       None \<Rightarrow> None
                     | Some u \<Rightarrow> Some \<lparr>cu_Score = s, cu_AchievedAt = t, cu_UserID = u\<rparr>)))
      | _ \<Rightarrow> None)"

definition cursorFor :: "'u Entry \<Rightarrow> 'u rank_cursor" where
  "cursorFor e = \<lparr>cu_Score = e_Score e, cu_AchievedAt = e_AchievedAt e, cu_UserID = e_UserID e\<rparr>"

definition cursorOf :: "'u uuid_lib \<Rightarrow> 'u Entry \<Rightarrow> string" where
  "cursorOf L e = encodeRank L (cursorFor e)"

definition ranked_from :: "int \<Rightarrow> 'u Entry list \<Rightarrow> 'u Entry list" where
  "ranked_from firstRank rows = map (\<lambda>(i, e). e\<lparr>e_Rank := firstRank + int i\<rparr>) (enumerate 0 rows)"

definition pageView :: "'u uuid_lib \<Rightarrow> 'u Bucket \<Rightarrow> 'u Entry list \<Rightarrow> int \<Rightarrow> string \<Rightarrow> 'u pageResponse" where
  "pageView L b rows firstRank next =
     \<lparr>pg_Bucket = Key L b, pg_Entries = ranked_from firstRank rows, pg_PrevCursor = [], pg_NextCursor = next\<rparr>"

definition handleBefore ::
  "('u::linorder) uuid_lib \<Rightarrow> 'u board_reads \<Rightarrow> 'u Bucket \<Rightarrow> string \<Rightarrow> nat \<Rightarrow> 'u board_answer" where
  "handleBefore L R b raw limit =
     (case decodeRank L raw of
        None \<Rightarrow> BoardRefused BadCursor
      | Some cur \<Rightarrow>
          (case PageBefore L R b cur limit of
             None \<Rightarrow> BoardRefused BoardInternal
           | Some rows \<Rightarrow>
               (case RankAbove L R b cur of
                  None \<Rightarrow> BoardRefused BoardInternal
                | Some outranking \<Rightarrow>
                    let firstRank = int outranking + 1 - int (length rows);
                        prev = (if length rows > 0 \<and> firstRank > 1 then cursorOf L (rows ! 0) else [])
                    in Ranked ((pageView L b rows firstRank [])\<lparr>pg_PrevCursor := prev\<rparr>))))"

text \<open>The rows above the caller, and the answer once the rows below are known.\<close>

definition around_view ::
  "('u::linorder) uuid_lib \<Rightarrow> 'u board_reads \<Rightarrow> 'u Bucket \<Rightarrow> 'u Entry \<Rightarrow> nat \<Rightarrow> 'u Entry list \<Rightarrow> string \<Rightarrow> 'u board_answer" where
  "around_view L R b me wantAbove below_rows next =
     (case (if wantAbove > 0 then PageBefore L R b (cursorFor me) wantAbove else Some []) of
        None \<Rightarrow> BoardRefused BoardInternal
      | Some above_rows \<Rightarrow>
          let page_rows = above_rows @ me # below_rows;
              firstRank = e_Rank me - int (length above_rows);
              prev = (if firstRank > 1 then cursorOf L (page_rows ! 0) else [])
          in Ranked ((pageView L b page_rows firstRank next)\<lparr>pg_PrevCursor := prev\<rparr>))"

text \<open>
  The window around the caller. \<open>wantAbove\<close> rows above and the rest below; what the board cannot fill
  below is spent above.
\<close>

definition around_window ::
  "('u::linorder) uuid_lib \<Rightarrow> 'u board_reads \<Rightarrow> 'u Bucket \<Rightarrow> nat \<Rightarrow> 'u Entry \<Rightarrow> 'u board_answer" where
  "around_window L R b limit me =
     (let rankAbove = nat (e_Rank me - 1);
          wantAbove = (if (limit - 1) div 2 > rankAbove then rankAbove else (limit - 1) div 2);
          wantBelow = limit - 1 - wantAbove
      in case Page L R b (Some (cursorFor me)) (wantBelow + 1) of
           None \<Rightarrow> BoardRefused BoardInternal
         | Some rows \<Rightarrow>
             if length rows > wantBelow
             then let below_rows = take wantBelow rows;
                      next = (if wantBelow > 0 then cursorOf L (below_rows ! (wantBelow - 1)) else cursorOf L me)
                  in around_view L R b me wantAbove below_rows next
             else let spare = min (limit - 1 - length rows) rankAbove
                  in around_view L R b me (if spare > wantAbove then spare else wantAbove) rows [])"

definition handleAround ::
  "('u::linorder) uuid_lib \<Rightarrow> 'u board_reads \<Rightarrow> 'u option \<Rightarrow> 'u Bucket \<Rightarrow> string \<Rightarrow> nat \<Rightarrow> 'u board_answer" where
  "handleAround L R caller b around limit =
     (if around \<noteq> ''me'' then BoardRefused BadAround
      else case caller of
        None \<Rightarrow> BoardRefused BoardUnauthorized
      | Some user \<Rightarrow>
          (case EntryFor L R b user of
             Inl NoEntry \<Rightarrow> NoContent
           | Inl QueryFailed \<Rightarrow> BoardRefused BoardInternal
           | Inr me \<Rightarrow> around_window L R b limit me))"

record page_query =
  pq_Limit :: string
  pq_Cursor :: string
  pq_Before :: string
  pq_Around :: string

text \<open>The position of a downward page: page one, or after a cursor whose rank is counted.\<close>

definition page_start ::
  "('u::linorder) uuid_lib \<Rightarrow> 'u board_reads \<Rightarrow> 'u Bucket \<Rightarrow> string
     \<Rightarrow> (board_api_error, 'u rank_cursor option \<times> int) result" where
  "page_start L R b raw =
     (if raw = [] then Inr (None, 1)
      else case decodeRank L raw of
        None \<Rightarrow> Inl BadCursor
      | Some cur \<Rightarrow>
          (case RankAbove L R b cur of
             None \<Rightarrow> Inl BoardInternal
           | Some outranking \<Rightarrow> Inr (Some cur, int outranking + 2)))"

definition handlePage ::
  "('u::linorder) uuid_lib \<Rightarrow> 'u board_reads \<Rightarrow> 'u option \<Rightarrow> string \<Rightarrow> page_query \<Rightarrow> 'u board_answer" where
  "handlePage L R caller rawBucket q =
     (case ParseBucketKey L rawBucket of
        Inl e \<Rightarrow> BoardRefused UnknownBucket
      | Inr b \<Rightarrow>
          let limit = nat (ParseLimit (pq_Limit q) boardDefaultLimit boardMaxLimit)
          in if length (filter (\<lambda>p. p \<noteq> []) [pq_Cursor q, pq_Before q, pq_Around q]) > 1
             then BoardRefused ConflictingAsks
             else if pq_Around q \<noteq> [] then handleAround L R caller b (pq_Around q) limit
             else if pq_Before q \<noteq> [] then handleBefore L R b (pq_Before q) limit
             else case page_start L R b (pq_Cursor q) of
               Inl e \<Rightarrow> BoardRefused e
             | Inr (after, firstRank) \<Rightarrow>
                 (case Page L R b after (limit + 1) of
                    None \<Rightarrow> BoardRefused BoardInternal
                  | Some rows \<Rightarrow>
                      let more = (length rows > limit);
                          page_rows = (if more then take limit rows else rows);
                          next = (if more then cursorOf L (page_rows ! (limit - 1)) else [])
                      in Ranked (pageView L b page_rows firstRank next)))"

definition handleMe ::
  "('u::linorder) uuid_lib \<Rightarrow> 'u board_reads \<Rightarrow> 'u option \<Rightarrow> string \<Rightarrow> 'u board_answer" where
  "handleMe L R caller rawBucket =
     (case ParseBucketKey L rawBucket of
        Inl e \<Rightarrow> BoardRefused UnknownBucket
      | Inr b \<Rightarrow>
          (case caller of
             None \<Rightarrow> BoardRefused BoardUnauthorized
           | Some user \<Rightarrow>
               (case EntryFor L R b user of
                  Inl NoEntry \<Rightarrow> NoContent
                | Inl QueryFailed \<Rightarrow> BoardRefused BoardInternal
                | Inr entry \<Rightarrow> Mine (Key L b) entry)))"

section \<open>The board index\<close>

text \<open>The order of the index is the database's collation of the keys; here the table's.\<close>

definition ListLeaderboardBuckets :: "'u board_reads \<Rightarrow> (string \<times> nat) list" where
  "ListLeaderboardBuckets R =
     map (\<lambda>k. (k, length (leaderboard_ranked R k)))
       (filter (\<lambda>k. leaderboard_ranked R k \<noteq> []) (remdups (map (fst \<circ> fst) (DAList.impl_of (rd_entries R)))))"

fun parse_counts :: "'u uuid_lib \<Rightarrow> (string \<times> nat) list \<Rightarrow> ('u Bucket \<times> nat) list option" where
  "parse_counts L [] = Some []"
| "parse_counts L ((k, n) # rows) =
     (case ParseBucketKey L k of
        Inl e \<Rightarrow> None
      | Inr b \<Rightarrow> map_option (\<lambda>rest. (b, n) # rest) (parse_counts L rows))"

definition Buckets :: "'u uuid_lib \<Rightarrow> 'u board_reads \<Rightarrow> ('u Bucket \<times> nat) list option" where
  "Buckets L R = parse_counts L (ListLeaderboardBuckets R)"

record 'u bucketView =
  bv_Bucket :: string
  bv_QuoteID :: "'u option"
  bv_Mode :: string
  bv_DurationMs :: "int option"
  bv_WordCount :: "int option"
  bv_Lang :: string
  bv_TextSource :: string
  bv_Entries :: nat

definition toBucketView :: "'u uuid_lib \<Rightarrow> 'u Bucket \<Rightarrow> nat \<Rightarrow> 'u bucketView" where
  "toBucketView L b entries =
     (let v = \<lparr>bv_Bucket = Key L b, bv_QuoteID = None, bv_Mode = [], bv_DurationMs = None, bv_WordCount = None,
               bv_Lang = [], bv_TextSource = [], bv_Entries = entries\<rparr>
      in if IsQuote L b then v\<lparr>bv_QuoteID := Some (b_QuoteID b)\<rparr>
         else let v1 = v\<lparr>bv_Mode := b_Mode b, bv_Lang := b_Lang b, bv_TextSource := b_TextSource b\<rparr>
              in if b_Mode b = ModeTime then v1\<lparr>bv_DurationMs := Some (b_Dimension b)\<rparr>
                 else v1\<lparr>bv_WordCount := Some (b_Dimension b)\<rparr>)"

text \<open>\<open>allowed\<close> is the limiter's answer, \<open>withdrawn\<close> the quotes out of circulation, if they can be read.\<close>

definition handleBuckets ::
  "'u uuid_lib \<Rightarrow> 'u board_reads \<Rightarrow> bool \<Rightarrow> 'u set option \<Rightarrow> (board_api_error, 'u bucketView list) result" where
  "handleBuckets L R allowed withdrawn =
     (if \<not> allowed then Inl BoardRateLimited
      else case Buckets L R of
        None \<Rightarrow> Inl BoardInternal
      | Some counts \<Rightarrow>
          (case withdrawn of
             None \<Rightarrow> Inl BoardInternal
           | Some gone \<Rightarrow>
               Inr (map (\<lambda>(b, n). toBucketView L b n)
                 (filter (\<lambda>(b, n). \<not> (IsQuote L b \<and> b_QuoteID b \<in> gone)) counts))))"

section \<open>The packed order\<close>

definition time_ok :: "int \<Rightarrow> bool" where
  "time_ok t \<longleftrightarrow> 0 \<le> t \<and> t < 2 ^ 32 * 1000000"

definition entry_ok :: "'u board_entry \<Rightarrow> bool" where
  "entry_ok e \<longleftrightarrow> score_packable (be_Score e) \<and> time_ok (be_AchievedAt e)"

lemma to_int64_id: "in_int64 n \<Longrightarrow> to_int64 n = n"
  by (simp add: in_int64_def to_int64_def)

lemma packed_eq:
  assumes "score_packable s"
  shows "packed s t = s * 2 ^ 32 - t div 1000000"
proof -
  have "in_int64 (s * 2 ^ 32)" using assms by (simp add: in_int64_def score_packable_def)
  then show ?thesis by (simp add: packed_def to_int64_id)
qed

lemma time_ok_seconds: "time_ok t \<Longrightarrow> 0 \<le> t div 1000000 \<and> t div 1000000 < 2 ^ 32"
  by (auto simp: time_ok_def pos_imp_zdiv_nonneg_iff div_less_iff_less_mult)

lemma sort_key_exists:
  assumes "score_packable s" and "time_ok t"
  shows "leaderboard_sort_key s t = Some (packed s t)"
proof -
  have "- (2 ^ 63) \<le> packed s t" "packed s t < 2 ^ 63"
    using assms(1) time_ok_seconds [OF assms(2)] by (simp_all add: packed_eq score_packable_def)
  then show ?thesis by (simp add: leaderboard_sort_key_def Let_def in_int64_def)
qed

text \<open>A higher score dominates; within a score the packed key orders by second and the time breaks the tie.\<close>

lemma packed_order:
  assumes "score_packable s" "time_ok t" "score_packable s'" "time_ok t'"
  shows "(- packed s t, t) < (- packed s' t', t') \<longleftrightarrow> (- s, t) < (- s', t')"
proof -
  define q q' where "q = t div 1000000" and "q' = t' div 1000000"
  have q: "0 \<le> q" "q < 2 ^ 32" "0 \<le> q'" "q' < 2 ^ 32"
    using time_ok_seconds assms(2,4) by (simp_all add: q_def q'_def)
  have p: "packed s t = s * 2 ^ 32 - q" "packed s' t' = s' * 2 ^ 32 - q'"
    using assms(1,3) by (simp_all add: packed_eq q_def q'_def)
  have mono: "q < q' \<Longrightarrow> t < t'" "t < t' \<Longrightarrow> q \<le> q'" "q' < q \<Longrightarrow> t' < t" "t = t' \<Longrightarrow> q = q'"
    unfolding q_def q'_def by (auto simp: zdiv_mono1)
  show ?thesis
  proof (cases s s' rule: linorder_cases)
    case less
    then have "packed s t < packed s' t'" unfolding p using q by simp
    with less show ?thesis by (auto simp: less_prod_def')
  next
    case equal
    then show ?thesis using mono unfolding p by (auto simp: less_prod_def')
  next
    case greater
    then have "packed s' t' < packed s t" unfolding p using q by simp
    with greater show ?thesis by (auto simp: less_prod_def')
  qed
qed

section \<open>The queries rank a board\<close>

definition board_ok :: "'u board_reads \<Rightarrow> bool" where
  "board_ok R \<longleftrightarrow>
     (\<forall>((k, u), e) \<in> set (DAList.impl_of (rd_entries R)). entry_ok e \<and> rd_names R u \<noteq> None)"

text \<open>The reference: the visible players of a board by score, time and id.\<close>

definition cursor_rank :: "'u rank_cursor \<Rightarrow> int \<times> int \<times> 'u" where
  "cursor_rank c = (- cu_Score c, cu_AchievedAt c, cu_UserID c)"

definition ranks_below :: "('u::linorder) rank_cursor \<Rightarrow> 'u rank_cursor \<Rightarrow> bool" where
  "ranks_below c d \<longleftrightarrow> cursor_rank d < cursor_rank c"

definition ranking :: "('u::linorder) board_reads \<Rightarrow> string \<Rightarrow> 'u Entry list" where
  "ranking R key = map rowToEntry (rank_order (leaderboard_rows R key))"

lemma triple_less: "(a, b, c) < (a', b', c') \<longleftrightarrow> (a, b) < (a', b') \<or> (a, b) = (a', b') \<and> c < c'"
  for a a' :: "'a::linorder" and b b' :: "'b::linorder" and c c' :: "'c::linorder"
  by (auto simp: less_prod_def')

lemma row_rank_less:
  fixes u :: "'u::linorder"
  assumes "entry_ok e" and "entry_ok e'"
  shows "row_rank u e < row_rank u' e' \<longleftrightarrow>
    cursor_rank (cursorFor (rowToEntry (u, name, e))) < cursor_rank (cursorFor (rowToEntry (u', name', e')))"
proof -
  let ?p = "\<lambda>e. (- packed (be_Score e) (be_AchievedAt e), be_AchievedAt e)"
  let ?s = "\<lambda>e. (- be_Score e, be_AchievedAt e)"
  have less: "?p e < ?p e' \<longleftrightarrow> ?s e < ?s e'" "?p e' < ?p e \<longleftrightarrow> ?s e' < ?s e"
    using packed_order assms by (simp_all add: entry_ok_def)
  then have eq: "?p e = ?p e' \<longleftrightarrow> ?s e = ?s e'" by (metis linorder_neqE order_less_irrefl)
  have "row_rank u e < row_rank u' e' \<longleftrightarrow> (- be_Score e, be_AchievedAt e, u) < (- be_Score e', be_AchievedAt e', u')"
    using less(1) eq by (simp only: row_rank_def triple_less)
  then show ?thesis by (auto simp: cursor_rank_def cursorFor_def less_prod_def')
qed

text \<open>The continuation predicates, read at the position of a row, compare the ranks.\<close>

lemma row_below_rank:
  "row_below (packed (be_Score e') (be_AchievedAt e')) (cursorFor (rowToEntry (u', name', e'))) u e \<longleftrightarrow>
     row_rank u' e' < row_rank u e"
  by (auto simp: row_below_def row_rank_def Let_def cursorFor_def ts_param_def less_prod_def')

lemma row_above_rank:
  "row_above (packed (be_Score e') (be_AchievedAt e')) (cursorFor (rowToEntry (u', name', e'))) u e \<longleftrightarrow>
     row_rank u e < row_rank u' e'"
  by (auto simp: row_above_def row_rank_def Let_def cursorFor_def ts_param_def less_prod_def')

lemma ranked_row: "(u, e) \<in> set (leaderboard_ranked R key) \<longleftrightarrow>
    DAList.lookup (rd_entries R) (key, u) = Some e \<and> u \<notin> rd_banned R"
  by (force simp: leaderboard_ranked_def row_in_table)

lemma distinct_ranked: "distinct (map fst (leaderboard_ranked R key))"
proof -
  let ?F = "filter (\<lambda>((k, u), e). k = key \<and> u \<notin> rd_banned R) (DAList.impl_of (rd_entries R))"
  have "distinct (map fst ?F)" by (simp add: distinct_map_filter)
  moreover have "inj_on (\<lambda>x. snd (fst x)) (set ?F)" if "distinct (map fst ?F)"
    using that by (auto simp: inj_on_def distinct_map)
  ultimately show ?thesis
    by (auto simp: leaderboard_ranked_def comp_def case_prod_beta distinct_map)
qed

lemma rows_named:
  assumes "board_ok R"
  shows "leaderboard_rows R key = map (\<lambda>(u, e). (u, the (rd_names R u), e)) (leaderboard_ranked R key)"
proof -
  have "\<exists>name. rd_names R u = Some name" if "(u, e) \<in> set (leaderboard_ranked R key)" for u e
    using assms that by (force simp: board_ok_def ranked_row row_in_table [symmetric])
  then show ?thesis
    unfolding leaderboard_rows_def List.map_filter_def
    by (auto simp: comp_def case_prod_beta intro!: map_cong filter_True) fastforce+
qed

lemma named_row_ok:
  assumes "board_ok R" and "(u, name, e) \<in> set (leaderboard_rows R key)"
  shows "entry_ok e"
  using assms by (force simp: rows_named ranked_row row_in_table [symmetric] board_ok_def)

declare rowToEntry.simps [simp del]

lemma row_rank_rows:
  fixes R :: "('u::linorder) board_reads"
  assumes "board_ok R" and "x \<in> set (leaderboard_rows R key)" and "entry_ok e"
  shows "row_rank u e < row_rank (fst x) (snd (snd x)) \<longleftrightarrow>
      ranks_below (cursorFor (rowToEntry x)) (cursorFor (rowToEntry (u, name, e)))"
    and "row_rank (fst x) (snd (snd x)) < row_rank u e \<longleftrightarrow>
      ranks_below (cursorFor (rowToEntry (u, name, e))) (cursorFor (rowToEntry x))"
proof -
  obtain u' name' e' where x: "x = (u', name', e')" by (metis prod_cases3)
  then have "entry_ok e'" using named_row_ok [OF assms(1)] assms(2) by auto
  from row_rank_less [OF assms(3) this, of u u' name name'] row_rank_less [OF this assms(3), of u' u name' name]
  show "row_rank u e < row_rank (fst x) (snd (snd x)) \<longleftrightarrow>
      ranks_below (cursorFor (rowToEntry x)) (cursorFor (rowToEntry (u, name, e)))"
    and "row_rank (fst x) (snd (snd x)) < row_rank u e \<longleftrightarrow>
      ranks_below (cursorFor (rowToEntry (u, name, e))) (cursorFor (rowToEntry x))"
    by (simp_all add: x ranks_below_def)
qed

lemma rank_order_strict:
  fixes R :: "('u::linorder) board_reads"
  assumes "board_ok R"
  shows "sorted_wrt (<) (map (\<lambda>(u, name, e). row_rank u e) (rank_order (leaderboard_rows R key)))"
proof -
  let ?rank = "\<lambda>(u, name, e). row_rank u e" and ?rows = "leaderboard_rows R key"
  have "distinct (map fst ?rows)"
    using distinct_ranked [of R key] by (simp add: rows_named [OF assms] comp_def case_prod_beta)
  moreover have "map fst ?rows = map (snd \<circ> snd) (map ?rank ?rows)"
    by (simp add: row_rank_def comp_def case_prod_beta)
  ultimately have "distinct (map (snd \<circ> snd) (map ?rank ?rows))" by simp
  then have "distinct (map ?rank ?rows)" using distinct_map by blast
  then have "distinct (map ?rank (sort_key ?rank ?rows))" by (simp add: distinct_map)
  then show ?thesis by (simp add: strict_sorted_iff rank_order_def)
qed

text \<open>A row of the board, its entry and its place in the reference order.\<close>

lemma ranking_descending:
  assumes "board_ok R"
  shows "sorted_wrt (\<lambda>a b. ranks_below (cursorFor b) (cursorFor a)) (ranking R key)"
proof -
  have "sorted_wrt (\<lambda>(u, name, e) (u', name', e'). row_rank u e < row_rank u' e')
      (rank_order (leaderboard_rows R key))"
    using rank_order_strict [OF assms, of key] by (simp add: sorted_wrt_map case_prod_unfold)
  then have "sorted_wrt (\<lambda>a b. ranks_below (cursorFor (rowToEntry b)) (cursorFor (rowToEntry a)))
      (rank_order (leaderboard_rows R key))"
  proof (rule sorted_wrt_mono_rel [rotated])
    fix a b assume in_rows: "a \<in> set (rank_order (leaderboard_rows R key))" "b \<in> set (rank_order (leaderboard_rows R key))"
      and less: "(\<lambda>(u, name, e) (u', name', e'). row_rank u e < row_rank u' e') a b"
    obtain u name e where a: "a = (u, name, e)" by (metis prod_cases3)
    then have "entry_ok e" using in_rows(1) named_row_ok [OF assms] by (simp add: rank_order_def)
    with in_rows(2) less show "ranks_below (cursorFor (rowToEntry b)) (cursorFor (rowToEntry a))"
      using row_rank_rows(1) [OF assms, of b key e u name] by (simp add: a rank_order_def case_prod_unfold)
  qed
  then show ?thesis by (simp add: ranking_def sorted_wrt_map)
qed

lemma ranking_row:
  assumes "r \<in> set (ranking R key)"
  obtains u name e where "r = rowToEntry (u, name, e)" "(u, name, e) \<in> set (leaderboard_rows R key)"
  using assms by (auto simp: ranking_def rank_order_def)

lemma row_sort_key:
  assumes "entry_ok e"
  shows "leaderboard_sort_key (cu_Score (cursorFor (rowToEntry (u, name, e))))
      (ts_param (cu_AchievedAt (cursorFor (rowToEntry (u, name, e))))) = Some (packed (be_Score e) (be_AchievedAt e))"
  using assms by (simp add: cursorFor_def ts_param_def entry_ok_def sort_key_exists rowToEntry.simps)

text \<open>The three continuation queries at the position of a row that is or once was on the board.\<close>

lemma Page_at:
  fixes R :: "('u::linorder) board_reads"
  assumes "board_ok R" and "entry_ok e" and "r = rowToEntry (u, name, e)"
  shows "Page L R b (Some (cursorFor r)) n =
      Some (take n (filter (\<lambda>x. ranks_below (cursorFor x) (cursorFor r)) (ranking R (Key L b))))"
proof -
  let ?rows = "leaderboard_rows R (Key L b)"
  have "filter (\<lambda>(u', name', e'). row_below (packed (be_Score e) (be_AchievedAt e)) (cursorFor r) u' e') ?rows =
      filter (\<lambda>x. ranks_below (cursorFor (rowToEntry x)) (cursorFor r)) ?rows"
    using row_rank_rows(1) [OF assms(1) _ assms(2)]
    by (intro filter_cong) (simp_all add: row_below_rank assms(3) case_prod_unfold)
  then show ?thesis
    using row_sort_key [OF assms(2), of u name, folded assms(3)]
    by (simp add: Page_def ListLeaderboardPageAfter_def ranking_def rank_order_def filter_sort filter_map comp_def take_map)
qed

lemma PageBefore_at:
  fixes R :: "('u::linorder) board_reads"
  assumes "board_ok R" and "entry_ok e" and "r = rowToEntry (u, name, e)"
  shows "PageBefore L R b (cursorFor r) n =
      Some (rev (take n (rev (filter (\<lambda>x. ranks_below (cursorFor r) (cursorFor x)) (ranking R (Key L b))))))"
proof -
  let ?rows = "leaderboard_rows R (Key L b)"
  have "filter (\<lambda>(u', name', e'). row_above (packed (be_Score e) (be_AchievedAt e)) (cursorFor r) u' e') ?rows =
      filter (\<lambda>x. ranks_below (cursorFor r) (cursorFor (rowToEntry x))) ?rows"
    using row_rank_rows(2) [OF assms(1) _ assms(2)]
    by (intro filter_cong) (simp_all add: row_above_rank assms(3) case_prod_unfold)
  then show ?thesis
    using row_sort_key [OF assms(2), of u name, folded assms(3)]
    by (simp add: PageBefore_def ListLeaderboardPageBefore_def ranking_def rank_order_def filter_sort filter_map comp_def
        take_map rev_map)
qed

lemma RankAbove_at:
  fixes R :: "('u::linorder) board_reads"
  assumes "board_ok R" and "entry_ok e" and "r = rowToEntry (u, name, e)"
  shows "RankAbove L R b (cursorFor r) =
      Some (length (filter (\<lambda>x. ranks_below (cursorFor r) (cursorFor x)) (ranking R (Key L b))))"
proof -
  let ?ranked = "leaderboard_ranked R (Key L b)" and ?name = "\<lambda>(u, e). (u, the (rd_names R u), e)"
  have "filter (\<lambda>(u', e'). row_above (packed (be_Score e) (be_AchievedAt e)) (cursorFor r) u' e') ?ranked =
      filter (\<lambda>x. ranks_below (cursorFor r) (cursorFor (rowToEntry (?name x)))) ?ranked"
  proof (rule filter_cong [OF refl])
    fix x assume x: "x \<in> set ?ranked"
    then have "?name x \<in> set (leaderboard_rows R (Key L b))" by (simp add: rows_named [OF assms(1)])
    from row_rank_rows(2) [OF assms(1) this assms(2), of u name]
    show "(case x of (u', e') \<Rightarrow> row_above (packed (be_Score e) (be_AchievedAt e)) (cursorFor r) u' e') \<longleftrightarrow>
        ranks_below (cursorFor r) (cursorFor (rowToEntry (?name x)))"
      by (simp add: assms(3) row_above_rank case_prod_unfold)
  qed
  then show ?thesis
    using row_sort_key [OF assms(2), of u name, folded assms(3)]
    by (simp add: RankAbove_def CountLeaderboardAbove_def ranking_def rank_order_def filter_sort filter_map comp_def
        rows_named [OF assms(1)])
qed

lemma ranking_entry:
  assumes "board_ok R" and "r \<in> set (ranking R key)"
  obtains u name e where "entry_ok e" "r = rowToEntry (u, name, e)" "(u, name, e) \<in> set (leaderboard_rows R key)"
  using ranking_row [OF assms(2)] named_row_ok [OF assms(1)] by metis

lemma queries_at_row:
  assumes "board_ok R" and "r \<in> set (ranking R (Key L b))"
  shows "Page L R b (Some (cursorFor r)) n =
      Some (take n (filter (\<lambda>x. ranks_below (cursorFor x) (cursorFor r)) (ranking R (Key L b))))"
    and "PageBefore L R b (cursorFor r) n =
      Some (rev (take n (rev (filter (\<lambda>x. ranks_below (cursorFor r) (cursorFor x)) (ranking R (Key L b))))))"
    and "RankAbove L R b (cursorFor r) =
      Some (length (filter (\<lambda>x. ranks_below (cursorFor r) (cursorFor x)) (ranking R (Key L b))))"
  using ranking_entry [OF assms] Page_at [OF assms(1)] PageBefore_at [OF assms(1)] RankAbove_at [OF assms(1)] by metis+

lemma Page_first: "Page L R b None n = Some (take n (ranking R (Key L b)))"
  by (simp add: Page_def ListLeaderboardPageFirst_def ranking_def take_map)

interpretation board: ranking_source "board_ok R" "\<lambda>c n. case Page L R b c n of None \<Rightarrow> [] | Some rows \<Rightarrow> rows"
  cursorFor ranks_below "ranking R (Key L b)"
  "\<lambda>c n. case PageBefore L R b c n of None \<Rightarrow> [] | Some rows \<Rightarrow> rows"
  "\<lambda>c. case RankAbove L R b c of None \<Rightarrow> 0 | Some n \<Rightarrow> n"
  for L :: "('u::linorder) uuid_lib" and R b
proof unfold_locales
  show "board_ok R \<Longrightarrow> sorted_wrt (\<lambda>a b. ranks_below (cursorFor b) (cursorFor a)) (ranking R (Key L b))"
    by (rule ranking_descending)
qed (auto simp: ranks_below_def [of c c for c] ranks_below_def [of c d for c d] Page_first queries_at_row
    dest: order_less_imp_not_less)

end
