(* ===== verification/Board_Pages.thy ===== *)
theory Board_Pages
  imports Board_Reads
begin

text \<open>
  What a reader of a board gets from \<open>leaderboard/handler.go\<close>: the walk down a board by cursors, the window
  around the caller and the caller's rank, derived from the interpretation of the queries as a
  \<open>ranking_source\<close> (theory \<open>Board_Reads\<close>).
\<close>

section \<open>Tokens\<close>

lemma decode_encode_rank:
  assumes "uuid_law L" and "uuid_plain L" and "in_int64 (cu_Score c)" and "in_int64 (cu_AchievedAt c)"
  shows "decodeRank L (encodeRank L c) = Some c"
proof -
  let ?parts = "[Itoa (cu_Score c), Itoa (cu_AchievedAt c), uuid_String L (cu_UserID c)]"
  have "DecodeCursor (EncodeCursor ?parts) 3 = Some ?parts"
    using DecodeCursor_EncodeCursor [of ?parts] assms(2)
    by (simp add: uuid_plain_def Itoa_no_colon numeral_3_eq_3)
  then show ?thesis using assms by (simp add: decodeRank_def encodeRank_def Atoi_Itoa uuid_law_def)
qed

lemma encodeRank_nonempty: "encodeRank L c \<noteq> []"
  by (simp add: encodeRank_def EncodeCursor_nonempty)

lemma cursorOf_nonempty: "cursorOf L e \<noteq> []"
  by (simp add: cursorOf_def encodeRank_nonempty)

lemma decode_row_cursor:
  assumes "uuid_law L" and "uuid_plain L" and "entry_ok e"
  shows "decodeRank L (cursorOf L (rowToEntry (u, name, e))) = Some (cursorFor (rowToEntry (u, name, e)))"
  using assms unfolding cursorOf_def
  by (intro decode_encode_rank)
    (auto simp: cursorFor_def rowToEntry.simps entry_ok_def score_packable_def time_ok_def in_int64_def)

section \<open>Pages\<close>

abbreviation board_limit :: "string \<Rightarrow> nat" where
  "board_limit rawLimit \<equiv> nat (ParseLimit rawLimit boardDefaultLimit boardMaxLimit)"

lemma board_limit_pos: "1 \<le> board_limit rawLimit"
  using ParseLimit_bounds [of boardDefaultLimit boardMaxLimit rawLimit]
  by (simp add: boardDefaultLimit_def boardMaxLimit_def) linarith

definition ask_cursor :: "string \<Rightarrow> string \<Rightarrow> page_query" where
  "ask_cursor rawLimit token = \<lparr>pq_Limit = rawLimit, pq_Cursor = token, pq_Before = [], pq_Around = []\<rparr>"

definition ask_around :: "string \<Rightarrow> page_query" where
  "ask_around rawLimit = \<lparr>pq_Limit = rawLimit, pq_Cursor = [], pq_Before = [], pq_Around = ''me''\<rparr>"

text \<open>The token after the first \<open>k\<close> rows, empty for the start.\<close>

definition rank_token :: "'u uuid_lib \<Rightarrow> 'u Entry list \<Rightarrow> nat \<Rightarrow> string" where
  "rank_token L rows k = (if k = 0 then [] else cursorOf L (rows ! (k - 1)))"

lemma rank_token_nonempty: "0 < k \<Longrightarrow> rank_token L rows k \<noteq> []"
  by (simp add: rank_token_def cursorOf_nonempty)

lemma RankAbove_nth:
  assumes "board_ok R" and "i < length (ranking R (Key L b))"
  shows "RankAbove L R b (cursorFor (ranking R (Key L b) ! i)) = Some i"
  using board.above_nth [OF assms] by (simp add: queries_at_row(3) [OF assms(1)] assms(2))

lemma Page_nth:
  assumes "board_ok R" and "i < length (ranking R (Key L b))"
  shows "Page L R b (Some (cursorFor (ranking R (Key L b) ! i))) n = Some (take n (drop (Suc i) (ranking R (Key L b))))"
  using board.below_nth [OF assms] by (simp add: queries_at_row(1) [OF assms(1)] assms(2))

lemma PageBefore_nth:
  assumes "board_ok R" and "i < length (ranking R (Key L b))"
  shows "PageBefore L R b (cursorFor (ranking R (Key L b) ! i)) n = Some (drop (i - n) (take i (ranking R (Key L b))))"
proof -
  have "rev (take n (rev (take i (ranking R (Key L b))))) = drop (i - n) (take i (ranking R (Key L b)))"
    using assms(2) by (subst rev_take) simp
  then show ?thesis using board.above_nth [OF assms] assms(2) by (simp add: queries_at_row(2) [OF assms(1)])
qed

lemma decode_rank_token:
  assumes "uuid_law L" and "uuid_plain L" and "board_ok R" and "i < length (ranking R key)"
  shows "decodeRank L (cursorOf L (ranking R key ! i)) = Some (cursorFor (ranking R key ! i))"
  using ranking_entry [OF assms(3) nth_mem [OF assms(4)]] decode_row_cursor [OF assms(1,2)] by metis

lemma page_start_at:
  assumes "uuid_law L" and "uuid_plain L" and "board_ok R" and "k \<le> length (ranking R (Key L b))"
  shows "page_start L R b (rank_token L (ranking R (Key L b)) k) =
    Inr (if k = 0 then None else Some (cursorFor (ranking R (Key L b) ! (k - 1))), int k + 1)"
proof (cases k)
  case (Suc i)
  then have "i < length (ranking R (Key L b))" using assms(4) by simp
  then show ?thesis
    using decode_rank_token [OF assms(1-3)] RankAbove_nth [OF assms(3)]
    by (simp add: page_start_def rank_token_def Suc cursorOf_nonempty)
qed (simp add: page_start_def rank_token_def)

lemma Page_from:
  assumes "board_ok R" and "k \<le> length (ranking R (Key L b))"
  shows "Page L R b (if k = 0 then None else Some (cursorFor (ranking R (Key L b) ! (k - 1)))) n =
    Some (take n (drop k (ranking R (Key L b))))"
  using assms by (cases k) (simp_all add: Page_first Page_nth)

lemma handlePage_at:
  fixes rawLimit :: string
  assumes "uuid_law L" and "uuid_plain L" and "board_ok R" and "ParseBucketKey L rawBucket = Inr b"
    and "k \<le> length (ranking R (Key L b))"
  defines "xs \<equiv> ranking R (Key L b)" and "limit \<equiv> board_limit rawLimit"
  shows "handlePage L R caller rawBucket (ask_cursor rawLimit (rank_token L xs k)) =
    Ranked (pageView L b (take limit (drop k xs)) (int k + 1)
      (if k + limit < length xs then rank_token L xs (k + limit) else []))"
proof -
  have token: "(length xs - k > limit) = (k + limit < length xs)" by linarith
  have "take limit (take (limit + 1) (drop k xs)) ! (limit - 1) = xs ! (k + limit - 1)" if "k + limit < length xs"
    using that board_limit_pos [of rawLimit] by (simp add: limit_def)
  then show ?thesis
    using page_start_at [OF assms(1-3,5)] Page_from [OF assms(3,5), of "limit + 1"] board_limit_pos [of rawLimit]
    by (auto simp: handlePage_def ask_cursor_def assms(4) Let_def xs_def [symmetric] limit_def [symmetric]
        rank_token_def min_def token)
qed

text \<open>A client that asks for page one of a board and follows the cursors down, at most \<open>n\<close> requests.\<close>

fun follow_board ::
  "('u::linorder) uuid_lib \<Rightarrow> 'u board_reads \<Rightarrow> 'u option \<Rightarrow> string \<Rightarrow> string \<Rightarrow> nat \<Rightarrow> string \<Rightarrow> 'u Entry list option"
where
  "follow_board L R caller rawBucket rawLimit 0 token = None"
| "follow_board L R caller rawBucket rawLimit (Suc n) token =
     (case handlePage L R caller rawBucket (ask_cursor rawLimit token) of
        Ranked page \<Rightarrow>
          if pg_NextCursor page = [] then Some (pg_Entries page)
          else map_option (\<lambda>rest. pg_Entries page @ rest)
                 (follow_board L R caller rawBucket rawLimit n (pg_NextCursor page))
      | _ \<Rightarrow> None)"

lemma ranked_from_append: "ranked_from r (xs @ ys) = ranked_from r xs @ ranked_from (r + int (length xs)) ys"
  by (auto simp: ranked_from_def enumerate_append_eq enumerate_eq_zip map_zip_map2 zip_map1 
      intro!: nth_equalityI simp: nth_append)

lemma ranked_from_split:
  assumes "k + m \<le> length xs"
  shows "ranked_from r (drop k xs) = ranked_from r (take m (drop k xs)) @ ranked_from (r + int m) (drop (k + m) xs)"
proof -
  have "length (take m (drop k xs)) = m" using assms by simp
  then show ?thesis
    using ranked_from_append [of r "take m (drop k xs)" "drop m (drop k xs)", unfolded append_take_drop_id]
    by (simp add: add.commute)
qed

lemma ranked_from_nth: "i < length xs \<Longrightarrow> ranked_from r xs ! i = (xs ! i)\<lparr>e_Rank := r + int i\<rparr>"
  by (simp add: ranked_from_def nth_enumerate_eq)

lemma length_ranked_from [simp]: "length (ranked_from r xs) = length xs"
  by (simp add: ranked_from_def)

lemma follow_board_at:
  assumes "uuid_law L" and "uuid_plain L" and "board_ok R" and "ParseBucketKey L rawBucket = Inr b"
    and "k \<le> length (ranking R (Key L b))"
    and "length (ranking R (Key L b)) \<le> k + n * board_limit rawLimit" and "0 < n"
  shows "follow_board L R caller rawBucket rawLimit n (rank_token L (ranking R (Key L b)) k) =
    Some (ranked_from (int k + 1) (drop k (ranking R (Key L b))))"
  using assms(5-7)
proof (induction n arbitrary: k)
  case (Suc n)
  let ?xs = "ranking R (Key L b)" and ?limit = "board_limit rawLimit"
  note page = handlePage_at [OF assms(1-4) Suc.prems(1), of caller rawLimit]
  show ?case
  proof (cases "k + ?limit < length ?xs")
    case False
    then show ?thesis by (simp add: page pageView_def)
  next
    case True
    then have n: "0 < n" using Suc.prems(2) by (cases n) auto
    have "follow_board L R caller rawBucket rawLimit n (rank_token L ?xs (k + ?limit)) =
        Some (ranked_from (int (k + ?limit) + 1) (drop (k + ?limit) ?xs))"
      using True n Suc.prems(2) by (intro Suc.IH) auto
    moreover have "ranked_from (int k + 1) (take ?limit (drop k ?xs)) @ ranked_from (int (k + ?limit) + 1) (drop (k + ?limit) ?xs)
        = ranked_from (int k + 1) (drop k ?xs)"
      using True ranked_from_split [of k ?limit ?xs "int k + 1"] by (simp only: of_nat_add ac_simps)
    moreover have "rank_token L ?xs (k + ?limit) \<noteq> []"
      using board_limit_pos [of rawLimit] by (intro rank_token_nonempty) linarith
    ultimately show ?thesis using True by (simp add: page pageView_def)
  qed
qed simp

section \<open>The caller's own row\<close>

lemma row_unique:
  assumes "board_ok R" and "(u, name, e) \<in> set (leaderboard_rows R key)" and "(u, name', e') \<in> set (leaderboard_rows R key)"
  shows "name' = name \<and> e' = e"
  using assms(2,3) by (auto simp: rows_named [OF assms(1)] ranked_row)

lemma GetLeaderboardEntry_row:
  assumes "board_ok R" and "(u, name, e) \<in> set (leaderboard_rows R key)"
  shows "GetLeaderboardEntry R key u = Some (u, name, e)"
proof -
  have "(u, name, e) \<in> set (filter (\<lambda>(v, n, d). v = u) (leaderboard_rows R key))" using assms(2) by simp
  then obtain row rest where rows: "filter (\<lambda>(v, n, d). v = u) (leaderboard_rows R key) = row # rest"
    by (cases "filter (\<lambda>(v, n, d). v = u) (leaderboard_rows R key)") auto
  then have "row \<in> set (filter (\<lambda>(v, n, d). v = u) (leaderboard_rows R key))" by simp
  then have "row = (u, name, e)" using row_unique [OF assms] by auto
  with rows show ?thesis by (simp add: GetLeaderboardEntry_def)
qed

lemma EntryFor_at:
  assumes "board_ok R" and "i < length (ranking R (Key L b))"
  shows "EntryFor L R b (e_UserID (ranking R (Key L b) ! i)) = Inr ((ranking R (Key L b) ! i)\<lparr>e_Rank := int i + 1\<rparr>)"
proof -
  obtain u name e where r: "ranking R (Key L b) ! i = rowToEntry (u, name, e)"
    and row: "(u, name, e) \<in> set (leaderboard_rows R (Key L b))"
    using ranking_entry [OF assms(1) nth_mem [OF assms(2)]] by metis
  have "e_UserID (rowToEntry (u, name, e)) = u" by (simp add: rowToEntry.simps)
  moreover have "RankAbove L R b (cursorFor (rowToEntry (u, name, e))) = Some i"
    using RankAbove_nth [OF assms] by (simp add: r)
  ultimately show ?thesis
    using GetLeaderboardEntry_row [OF assms(1) row] by (simp add: EntryFor_def r cursorFor_def)
qed

lemma EntryFor_absent:
  assumes "u \<notin> e_UserID ` set (ranking R (Key L b))"
  shows "EntryFor L R b u = Inl NoEntry"
proof -
  have "u \<notin> fst ` set (leaderboard_rows R (Key L b))"
    using assms by (force simp: ranking_def rank_order_def rowToEntry.simps)
  then have "filter (\<lambda>(v, n, d). v = u) (leaderboard_rows R (Key L b)) = []" by (force simp: filter_empty_conv)
  then show ?thesis by (simp add: EntryFor_def GetLeaderboardEntry_def)
qed

section \<open>The window around the caller\<close>

lemma window_rows:
  assumes "a \<le> i" and "i < length xs"
  shows "drop a (take i xs) @ xs ! i # take w (drop (Suc i) xs) = take (i - a + 1 + w) (drop a xs)"
proof -
  have "drop a xs = drop a (take i xs @ xs ! i # drop (Suc i) xs)" using id_take_nth_drop [OF assms(2)] by simp
  also have "\<dots> = drop a (take i xs) @ xs ! i # drop (Suc i) xs" using assms by simp
  finally show ?thesis using assms by simp
qed

lemma ranked_from_me: "ranked_from r (xs @ y\<lparr>e_Rank := k\<rparr> # ys) = ranked_from r (xs @ y # ys)"
  by (auto simp: ranked_from_def intro!: nth_equalityI simp: nth_enumerate_eq nth_append nth_Cons')

lemma cursor_ignores_rank [simp]:
  "cursorFor (r\<lparr>e_Rank := k\<rparr>) = cursorFor r" "cursorOf L (r\<lparr>e_Rank := k\<rparr>) = cursorOf L r"
  by (simp_all add: cursorFor_def cursorOf_def)

text \<open>The window starts half a page above the caller, or earlier when the board ends before the page does.\<close>

definition window_start :: "nat \<Rightarrow> nat \<Rightarrow> nat \<Rightarrow> nat" where
  "window_start limit n i = min (i - (limit - 1) div 2) (n - limit)"

lemma window_more:
  fixes n i limit h :: nat
  assumes "i < n" and "1 \<le> limit" and "h \<le> limit - 1" and "n - Suc i > limit - 1 - min i h"
  shows "min (i - h) (n - limit) = i - min i h" and "min i h + 1 + (limit - 1 - min i h) = limit"
    and "i - min i h + limit < n" and "Suc i + (limit - 1 - min i h) = i - min i h + limit"
proof -
  obtain d where d: "limit = Suc d" using assms(2) by (cases limit) auto
  obtain m where m: "n = Suc (i + m)" using assms(1) less_iff_Suc_add by auto
  have "h \<le> d" "m > d - min i h" using assms(3,4) by (simp_all add: d m)
  then show "min (i - h) (n - limit) = i - min i h" and "min i h + 1 + (limit - 1 - min i h) = limit"
    and "i - min i h + limit < n" and "Suc i + (limit - 1 - min i h) = i - min i h + limit"
    unfolding d m by (cases "h \<le> i"; simp add: min_def; arith)+
qed

lemma window_last:
  fixes n i limit h :: nat
  assumes "i < n" and "1 \<le> limit" and "h \<le> limit - 1" and "\<not> n - Suc i > limit - 1 - min i h"
  shows "min (i - h) (n - limit) = i - max (min (limit - 1 - (n - Suc i)) i) (min i h)"
    and "n \<le> min (i - h) (n - limit) + limit"
proof -
  obtain d where d: "limit = Suc d" using assms(2) by (cases limit) auto
  obtain m where m: "n = Suc (i + m)" using assms(1) less_iff_Suc_add by auto
  have "h \<le> d" "m \<le> d - min i h" using assms(3,4) by (simp_all add: d m)
  then show "min (i - h) (n - limit) = i - max (min (limit - 1 - (n - Suc i)) i) (min i h)"
    and "n \<le> min (i - h) (n - limit) + limit"
    unfolding d m by (cases "h \<le> i"; simp add: min_def max_def; arith)+
qed

lemma around_view_at:
  assumes "board_ok R" and "i < length (ranking R (Key L b))" and "w \<le> i"
  defines "xs \<equiv> ranking R (Key L b)"
  shows "around_view L R b ((xs ! i)\<lparr>e_Rank := int i + 1\<rparr>) w (take m (drop (Suc i) xs)) next =
    Ranked ((pageView L b (take (w + 1 + m) (drop (i - w) xs)) (int (i - w) + 1) next)
      \<lparr>pg_PrevCursor := if 0 < i - w then cursorOf L (xs ! (i - w)) else []\<rparr>)"
proof -
  let ?me = "(xs ! i)\<lparr>e_Rank := int i + 1\<rparr>" and ?below = "take m (drop (Suc i) xs)"
  have i: "i < length xs" using assms(2) by (simp add: xs_def)
  define A where "A = drop (i - w) (take i xs)"
  have fetch: "(if w > 0 then PageBefore L R b (cursorFor ?me) w else Some []) = Some A"
    using PageBefore_nth [OF assms(1,2)] i by (simp add: xs_def A_def)
  have len: "length A = w" using i assms(3) by (simp add: A_def)
  have rows: "ranked_from r (A @ ?me # ?below) = ranked_from r (take (w + 1 + m) (drop (i - w) xs))" for r
    using window_rows [of "i - w" i xs m] i assms(3) by (simp add: ranked_from_me A_def)
  have first: "cursorOf L ((A @ ?me # ?below) ! 0) = cursorOf L (xs ! (i - w))"
    using i assms(3) by (cases "w = 0") (simp_all add: nth_append A_def)
  have rank: "e_Rank ?me - int w = int (i - w) + 1" using assms(3) by simp
  then have above1: "e_Rank ?me - int w > 1 \<longleftrightarrow> 0 < i - w" by linarith
  show ?thesis unfolding around_view_def fetch Let_def option.case len above1 unfolding rank pageView_def rows first ..
qed

lemma around_window_at:
  assumes "board_ok R" and "i < length (ranking R (Key L b))" and "1 \<le> limit"
  defines "xs \<equiv> ranking R (Key L b)"
  defines "a \<equiv> window_start limit (length xs) i"
  shows "around_window L R b limit ((xs ! i)\<lparr>e_Rank := int i + 1\<rparr>) =
    Ranked ((pageView L b (take limit (drop a xs)) (int a + 1)
        (if a + limit < length xs then rank_token L xs (a + limit) else []))
      \<lparr>pg_PrevCursor := if 0 < a then cursorOf L (xs ! a) else []\<rparr>)"
proof -
  let ?n = "length xs" and ?me = "(xs ! i)\<lparr>e_Rank := int i + 1\<rparr>" and ?h = "(limit - 1) div 2"
  define wa wb where "wa = min i ?h" and "wb = limit - 1 - wa"
  have i: "i < ?n" and h: "?h \<le> limit - 1" using assms(2) by (simp_all add: xs_def)
  have wa: "(if ?h > i then i else ?h) = wa" by (simp add: wa_def)
  define rows where "rows = take (wb + 1) (drop (Suc i) xs)"
  have fetch: "Page L R b (Some (cursorFor ?me)) (wb + 1) = Some rows"
    using Page_nth [OF assms(1,2)] by (simp add: xs_def rows_def)
  have above: "nat (e_Rank ?me - 1) = i" by simp
  note step = around_window_def [of L R b limit ?me, unfolded Let_def above wa, folded wb_def, unfolded fetch option.case]
  note view = around_view_at [OF assms(1,2), folded xs_def]
  have more_iff: "length rows > wb \<longleftrightarrow> ?n - Suc i > wb" by (auto simp: rows_def)
  show ?thesis
  proof (cases "?n - Suc i > wb")
    case True
    note more = window_more [OF i assms(3) h, folded wa_def, folded wb_def, OF True]
    have a: "a = i - wa" using more(1) by (simp add: a_def window_start_def)
    have "(if wb > 0 then cursorOf L (take wb rows ! (wb - 1)) else cursorOf L ?me) = rank_token L xs (a + limit)"
      using True more(4) by (auto simp: rank_token_def a rows_def simp flip: more(4))
    moreover have "take wb rows = take wb (drop (Suc i) xs)" by (simp add: rows_def min_def)
    moreover have "a + limit < ?n" using more(3) by (simp add: a)
    moreover have "wa \<le> i" by (simp add: wa_def)
    ultimately show ?thesis using True view [of wa wb] more(2) by (simp add: step more_iff a)
  next
    case False
    note last = window_last [OF i assms(3) h, folded wa_def, folded wb_def, OF False]
    have rows: "rows = take (?n - Suc i) (drop (Suc i) xs)" and len: "length rows = ?n - Suc i"
      using False by (simp_all add: rows_def)
    define w where "w = max (min (limit - 1 - (?n - Suc i)) i) wa"
    have "w \<le> i" unfolding w_def wa_def by (intro max.boundedI) (rule min.cobounded2, rule min.cobounded1)
    have a: "a = i - w" using last(1) by (simp only: a_def window_start_def w_def)
    have w: "(if min (limit - 1 - length rows) i > wa then min (limit - 1 - length rows) i else wa) = w"
      unfolding w_def len by (auto simp: max_def)
    have end_a: "?n \<le> a + limit" using last(2) by (simp only: a_def window_start_def)
    then have "?n - (i - w) \<le> limit" "?n - (i - w) \<le> w + 1 + (?n - Suc i)" using a i \<open>w \<le> i\<close> by linarith+
    then have "take (w + 1 + (?n - Suc i)) (drop (i - w) xs) = take limit (drop (i - w) xs)"
      by (simp only: take_all length_drop)
    moreover have "\<not> a + limit < ?n" using end_a by simp
    moreover have "around_window L R b limit ?me = around_view L R b ?me w rows []"
      unfolding step w using False more_iff by simp
    ultimately show ?thesis
      using view [OF \<open>w \<le> i\<close>, of "?n - Suc i" "[]", folded rows] by (simp only: a if_False)
  qed
qed

section \<open>A cursor whose row has left its place\<close>

lemma length_filter_image:
  assumes "map f xs = map f ys"
  shows "length (filter (\<lambda>x. P (f x)) xs) = length (filter (\<lambda>x. P (f x)) ys)"
proof -
  have "length (filter P (map f xs)) = length (filter P (map f ys))" using assms by simp
  then show ?thesis by (simp add: filter_map comp_def)
qed

lemma filter_prefix:
  assumes "sorted_wrt (\<lambda>x y. P y \<longrightarrow> P x) xs"
  shows "filter P xs = take (length (filter P xs)) xs \<and> filter (\<lambda>x. \<not> P x) xs = drop (length (filter P xs)) xs"
  using assms
proof (induction xs)
  case (Cons x xs)
  show ?case
  proof (cases "P x")
    case False
    then have "\<forall>y \<in> set xs. \<not> P y" using Cons.prems by auto
    then show ?thesis using False by (simp add: filter_id_conv filter_empty_conv)
  qed (use Cons in auto)
qed simp

text \<open>The rows outranking a position that no row holds come first; the rows below it are all the others.\<close>

lemma gone_split:
  fixes R :: "('u::linorder) board_reads"
  assumes "board_ok R" and "c \<notin> cursorFor ` set (ranking R key)"
  defines "xs \<equiv> ranking R key"
  defines "k \<equiv> length (filter (\<lambda>x. ranks_below c (cursorFor x)) xs)"
  shows "filter (\<lambda>x. ranks_below (cursorFor x) c) xs = drop k xs"
proof -
  have "ranks_below (cursorFor x) c \<longleftrightarrow> \<not> ranks_below c (cursorFor x)" if "x \<in> set xs" for x
  proof -
    have "cursorFor x \<noteq> c" using assms(2) that by (auto simp: xs_def)
    then have "cursor_rank (cursorFor x) \<noteq> cursor_rank c"
      by (cases "cursorFor x"; cases c) (auto simp: cursor_rank_def)
    then show ?thesis unfolding ranks_below_def by (metis less_asym linorder_neqE)
  qed
  then have "filter (\<lambda>x. ranks_below (cursorFor x) c) xs = filter (\<lambda>x. \<not> ranks_below c (cursorFor x)) xs"
    by (intro filter_cong refl) simp
  moreover have "sorted_wrt (\<lambda>x y. ranks_below c (cursorFor y) \<longrightarrow> ranks_below c (cursorFor x)) xs"
    by (rule sorted_wrt_mono_rel [OF _ ranking_descending [OF assms(1), of key, folded xs_def]])
      (auto simp: ranks_below_def intro: less_trans)
  ultimately show ?thesis using filter_prefix unfolding k_def by metis
qed

section \<open>What a reader gets\<close>

text \<open>The visible ranking with its ranks.\<close>

definition ranked :: "('u::linorder) board_reads \<Rightarrow> string \<Rightarrow> 'u Entry list" where
  "ranked R key = ranked_from 1 (ranking R key)"

lemma length_ranking:
  assumes "board_ok R"
  shows "length (ranking R key) = length (leaderboard_ranked R key)"
  by (simp add: ranking_def rank_order_def rows_named [OF assms])

lemma length_ranked [simp]: "length (ranked R key) = length (ranking R key)"
  by (simp add: ranked_def)

lemma ranked_nth: "i < length (ranking R key) \<Longrightarrow> ranked R key ! i = (ranking R key ! i)\<lparr>e_Rank := int i + 1\<rparr>"
  by (simp add: ranked_def ranked_from_nth)

lemma ranked_window: "ranked_from (int k + 1) (take m (drop k (ranking R key))) = take m (drop k (ranked R key))"
  by (rule nth_equalityI) (auto simp: ranked_from_nth ranked_nth less_diff_conv ac_simps)

lemma ranks_ranked: "map e_Rank (ranked R key) = map (\<lambda>i. int i + 1) [0..<length (ranked R key)]"
  by (rule nth_equalityI) (simp_all add: ranked_nth)

lemma ranked_sorted:
  assumes "board_ok R"
  shows "sorted_wrt (\<lambda>x y. (- e_Score x, e_AchievedAt x, e_UserID x) < (- e_Score y, e_AchievedAt y, e_UserID y)) (ranked R key)"
  using ranking_descending [OF assms, of key]
  by (simp add: sorted_wrt_iff_nth_less ranked_nth ranks_below_def cursor_rank_def cursorFor_def)

lemma ranked_set:
  assumes "board_ok R"
  shows "(\<lambda>x. (e_UserID x, e_Score x, e_AchievedAt x)) ` set (ranked R key) =
    {(u, be_Score e, be_AchievedAt e * 1000) |u e. DAList.lookup (rd_entries R) (key, u) = Some e \<and> u \<notin> rd_banned R}"
proof -
  have "(\<lambda>x. (e_UserID x, e_Score x, e_AchievedAt x)) ` set (ranked R key) =
      (\<lambda>x. (e_UserID x, e_Score x, e_AchievedAt x)) ` set (ranking R key)"
    by (auto simp: set_conv_nth ranked_nth image_def)
  also have "\<dots> = (\<lambda>(u, e). (u, be_Score e, be_AchievedAt e * 1000)) ` set (leaderboard_ranked R key)"
    by (auto simp: ranking_def rank_order_def rows_named [OF assms] image_image rowToEntry.simps case_prod_unfold)
  finally show ?thesis by (force simp: ranked_row)
qed

text \<open>
  C16. A client that follows the cursors of \<open>GET /leaderboards/{bucket}\<close> from page one, with any page size,
  gets every visible player of the board exactly once, ordered by score (higher first), then time, then
  player id, with the ranks 1, 2, 3, and so on: the packed sort key, the counted first rank of a continuation
  page and the page boundaries never lose, repeat or misrank a row. As many requests as the board has visible
  rows, plus one, are enough.
\<close>

theorem board_walk_ranks_everyone:
  fixes R :: "('u::linorder) board_reads"
  assumes "uuid_law L" and "uuid_plain L" and "board_ok R" and "ParseBucketKey L rawBucket = Inr b"
    and "length (leaderboard_ranked R (Key L b)) < n"
  shows "\<exists>es. follow_board L R caller rawBucket rawLimit n [] = Some es \<and>
    map e_Rank es = map (\<lambda>i. int i + 1) [0..<length es] \<and>
    sorted_wrt (\<lambda>x y. (- e_Score x, e_AchievedAt x, e_UserID x) < (- e_Score y, e_AchievedAt y, e_UserID y)) es \<and>
    (\<lambda>x. (e_UserID x, e_Score x, e_AchievedAt x)) ` set es =
      {(u, be_Score e, be_AchievedAt e * 1000) |u e.
         DAList.lookup (rd_entries R) (Key L b, u) = Some e \<and> u \<notin> rd_banned R}"
proof -
  have "length (ranking R (Key L b)) \<le> n" using assms(5) by (simp add: length_ranking [OF assms(3)])
  then have "length (ranking R (Key L b)) \<le> 0 + n * board_limit rawLimit"
    using board_limit_pos [of rawLimit] by (metis add_0 le_trans mult_le_mono2 nat_mult_1_right)
  then have "follow_board L R caller rawBucket rawLimit n (rank_token L (ranking R (Key L b)) 0) =
      Some (ranked_from (int 0 + 1) (drop 0 (ranking R (Key L b))))"
    using assms(5) by (intro follow_board_at [OF assms(1-4)]) simp_all
  then have "follow_board L R caller rawBucket rawLimit n [] = Some (ranked R (Key L b))"
    by (simp add: rank_token_def ranked_def)
  then show ?thesis using ranks_ranked ranked_sorted [OF assms(3)] ranked_set [OF assms(3)] by blast
qed

lemma ranked_place:
  assumes "board_ok R" and "DAList.lookup (rd_entries R) (key, u) = Some e" and "u \<notin> rd_banned R"
  obtains i where "i < length (ranking R key)" "e_UserID (ranking R key ! i) = u"
proof -
  have "(u, be_Score e, be_AchievedAt e * 1000) \<in> (\<lambda>x. (e_UserID x, e_Score x, e_AchievedAt x)) ` set (ranked R key)"
    unfolding ranked_set [OF assms(1)] using assms(2,3) by blast
  then obtain x where "x \<in> set (ranked R key)" "e_UserID x = u" by auto
  then show ?thesis using that by (auto simp: in_set_conv_nth ranked_nth)
qed

text \<open>
  C17. The window around the caller. With the caller's row at place \<open>i\<close> of the board, \<open>/me\<close> answers that row
  with its exact rank and \<open>?around=me\<close> answers a contiguous slice of the ranking, exact ranks included: it is
  \<open>limit\<close> rows long whenever the board has that many, starts half a page above the caller and slides at either
  end of the board, and it offers a previous cursor exactly when rows remain above it and a next cursor exactly
  when rows remain below.
\<close>

theorem around_me_window:
  fixes R :: "('u::linorder) board_reads"
  assumes "board_ok R" and "ParseBucketKey L rawBucket = Inr b"
    and "DAList.lookup (rd_entries R) (Key L b, u) = Some e" and "u \<notin> rd_banned R"
  shows "\<exists>i page. let xs = ranked R (Key L b); limit = board_limit rawLimit;
      start = min (i - (limit - 1) div 2) (length xs - limit) in
    i < length xs \<and> e_UserID (xs ! i) = u \<and>
    handleMe L R (Some u) rawBucket = Mine (Key L b) (xs ! i) \<and>
    handlePage L R (Some u) rawBucket (ask_around rawLimit) = Ranked page \<and>
    pg_Entries page = take limit (drop start xs) \<and>
    (pg_PrevCursor page = [] \<longleftrightarrow> start = 0) \<and> (pg_NextCursor page = [] \<longleftrightarrow> length xs \<le> start + limit)"
proof -
  let ?xs = "ranking R (Key L b)" and ?limit = "board_limit rawLimit"
  obtain i where i: "i < length ?xs" "e_UserID (?xs ! i) = u" using ranked_place [OF assms(1,3,4)] .
  let ?a = "window_start ?limit (length ?xs) i"
  have entry: "EntryFor L R b u = Inr ((?xs ! i)\<lparr>e_Rank := int i + 1\<rparr>)"
    using EntryFor_at [OF assms(1) i(1)] i(2) by simp
  define page where "page = (pageView L b (take ?limit (drop ?a ?xs)) (int ?a + 1)
      (if ?a + ?limit < length ?xs then rank_token L ?xs (?a + ?limit) else []))
    \<lparr>pg_PrevCursor := if 0 < ?a then cursorOf L (?xs ! ?a) else []\<rparr>"
  have "handlePage L R (Some u) rawBucket (ask_around rawLimit) = Ranked page"
    using around_window_at [OF assms(1) i(1) board_limit_pos]
    by (simp add: handlePage_def handleAround_def ask_around_def assms(2) Let_def entry page_def)
  moreover have "handleMe L R (Some u) rawBucket = Mine (Key L b) (ranked R (Key L b) ! i)"
    by (simp add: handleMe_def assms(2) entry ranked_nth i(1))
  moreover have "0 < ?a + ?limit" using board_limit_pos [of rawLimit] by linarith
  then have "pg_NextCursor page = [] \<longleftrightarrow> length ?xs \<le> ?a + ?limit"
    using rank_token_nonempty [of "?a + ?limit" L ?xs] by (simp add: page_def pageView_def not_less)
  moreover have "pg_PrevCursor page = [] \<longleftrightarrow> ?a = 0" by (simp add: page_def cursorOf_nonempty)
  moreover have "pg_Entries page = take ?limit (drop ?a (ranked R (Key L b)))"
    by (simp add: page_def pageView_def ranked_window)
  moreover have "e_UserID (ranked R (Key L b) ! i) = u" using i by (simp add: ranked_nth)
  ultimately show ?thesis
    using i(1) unfolding Let_def length_ranked window_start_def [symmetric]
    by (intro exI [of _ i] exI [of _ page] conjI)
qed

text \<open>
  A cursor outlives its row. When the player whose row a cursor names has since improved or been banned, the
  next page starts at the right row but numbers every row on it one too high: the handler adds two to the count
  of the rows above the position, one of them for a row that is no longer there.
\<close>

theorem gone_cursor_shifts_ranks:
  fixes R :: "('u::linorder) board_reads"
  assumes "uuid_law L" and "uuid_plain L" and "board_ok R" and "ParseBucketKey L rawBucket = Inr b"
    and "entry_ok e" and "cursorFor (rowToEntry (u, name, e)) \<notin> cursorFor ` set (ranking R (Key L b))"
  shows "\<exists>page k.
    handlePage L R caller rawBucket (ask_cursor rawLimit (cursorOf L (rowToEntry (u, name, e)))) = Ranked page \<and>
    k = length (filter (\<lambda>x. ranks_below (cursorFor (rowToEntry (u, name, e))) (cursorFor x)) (ranked R (Key L b))) \<and>
    pg_Entries page = map (\<lambda>x. x\<lparr>e_Rank := e_Rank x + 1\<rparr>) (take (board_limit rawLimit) (drop k (ranked R (Key L b))))"
proof -
  let ?xs = "ranking R (Key L b)" and ?limit = "board_limit rawLimit" and ?r = "rowToEntry (u, name, e)"
  define k where "k = length (filter (\<lambda>x. ranks_below (cursorFor ?r) (cursorFor x)) ?xs)"
  have start: "page_start L R b (cursorOf L ?r) = Inr (Some (cursorFor ?r), int k + 2)"
    using decode_row_cursor [OF assms(1,2,5)] RankAbove_at [OF assms(3,5) refl]
    by (simp add: page_start_def cursorOf_nonempty k_def)
  have rows: "Page L R b (Some (cursorFor ?r)) n = Some (take n (drop k ?xs))" for n
    using gone_split [OF assms(3,6)] by (simp add: Page_at [OF assms(3,5) refl] k_def)
  have "\<exists>next. handlePage L R caller rawBucket (ask_cursor rawLimit (cursorOf L ?r)) =
      Ranked (pageView L b (take ?limit (drop k ?xs)) (int k + 2) next)"
    by (auto simp: handlePage_def ask_cursor_def assms(4) Let_def start rows min_def)
  moreover have "ranked_from (int k + 2) (take ?limit (drop k ?xs)) =
      map (\<lambda>x. x\<lparr>e_Rank := e_Rank x + 1\<rparr>) (take ?limit (drop k (ranked R (Key L b))))"
    by (rule nth_equalityI) (auto simp: ranked_from_nth ranked_nth less_diff_conv ac_simps)
  moreover have "map cursorFor (ranked R (Key L b)) = map cursorFor ?xs"
    by (rule nth_equalityI) (auto simp: ranked_nth)
  then have "k = length (filter (\<lambda>x. ranks_below (cursorFor ?r) (cursorFor x)) (ranked R (Key L b)))"
    using length_filter_image [of cursorFor ?xs "ranked R (Key L b)" "ranks_below (cursorFor ?r)"] by (simp add: k_def)
  ultimately show ?thesis by (auto simp: pageView_def)
qed

section \<open>A board of three\<close>

definition page_ids :: "nat uuid_lib" where
  "page_ids = \<lparr>uuid_Parse = (\<lambda>s. Some (length s)), uuid_String = (\<lambda>u. replicate u (CHR ''a'')), uuid_Nil = 0\<rparr>"

definition quote_board :: "nat Bucket" where
  "quote_board = quote_bucket 7"

definition board_row :: "nat \<Rightarrow> int \<Rightarrow> int \<Rightarrow> nat board_entry" where
  "board_row run score achieved =
     \<lparr>be_RunID = run, be_Score = score, be_Wpm = 80, be_Raw = 85, be_Acc = 98, be_Grade = ''A'', be_Mods = ''[]'',
      be_AchievedAt = achieved, be_QuoteSource = None\<rparr>"

text \<open>Two players tie on the score within different seconds, one is below, and the leader is banned.\<close>

definition demo_reads :: "nat board_reads" where
  "demo_reads =
     (let K = Key page_ids quote_board in
      \<lparr>rd_entries = DAList.update (K, 1) (board_row 11 900 5000000) (DAList.update (K, 2) (board_row 12 900 4000000)
         (DAList.update (K, 3) (board_row 13 500 3000000) (DAList.update (K, 4) (board_row 14 1000 2000000) DAList.empty))),
       rd_banned = {4}, rd_names = (\<lambda>u. Some ''player'')\<rparr>)"

lemma page_ids_ok: "uuid_law page_ids" "uuid_plain page_ids"
  by (simp_all add: page_ids_def uuid_law_def uuid_plain_def)

lemma quote_board_key: "ParseBucketKey page_ids (Key page_ids quote_board) = Inr quote_board"
  by (rule ParseBucketKey_Key [OF page_ids_ok(1)])
    (simp add: validate_quote IsQuote_def quote_board_def quote_bucket_def page_ids_def)

lemma demo_reads_ok: "board_ok demo_reads"
  by (simp add: board_ok_def demo_reads_def Let_def DAList.update.rep_eq DAList.empty.rep_eq entry_ok_def
      board_row_def score_packable_def time_ok_def)

lemma demo_ranked: "length (leaderboard_ranked demo_reads (Key page_ids quote_board)) = 3"
  by (simp add: leaderboard_ranked_def demo_reads_def Let_def DAList.update.rep_eq DAList.empty.rep_eq)

lemma banned_row_gone:
  assumes "board_ok R" and "u \<in> rd_banned R"
  shows "cursorFor (rowToEntry (u, name, e)) \<notin> cursorFor ` set (ranking R key)"
proof
  assume "cursorFor (rowToEntry (u, name, e)) \<in> cursorFor ` set (ranking R key)"
  then obtain u' name' e' where "(u', name', e') \<in> set (leaderboard_rows R key)"
    and "cursorFor (rowToEntry (u, name, e)) = cursorFor (rowToEntry (u', name', e'))"
    by (auto elim: ranking_row)
  then show False
    using assms(2) by (auto simp: cursorFor_def rowToEntry.simps rows_named [OF assms(1)] ranked_row)
qed

theorem board_walk_ranks_everyone_witness:
  "\<exists>es. follow_board page_ids demo_reads None (Key page_ids quote_board) ''1'' 4 [] = Some es \<and>
    map e_Rank es = map (\<lambda>i. int i + 1) [0..<length es] \<and>
    sorted_wrt (\<lambda>x y. (- e_Score x, e_AchievedAt x, e_UserID x) < (- e_Score y, e_AchievedAt y, e_UserID y)) es \<and>
    (\<lambda>x. (e_UserID x, e_Score x, e_AchievedAt x)) ` set es =
      {(u, be_Score e, be_AchievedAt e * 1000) |u e.
         DAList.lookup (rd_entries demo_reads) (Key page_ids quote_board, u) = Some e \<and> u \<notin> rd_banned demo_reads}"
  by (rule board_walk_ranks_everyone [OF page_ids_ok demo_reads_ok quote_board_key]) (simp add: demo_ranked)

theorem around_me_window_witness:
  "\<exists>i page. let xs = ranked demo_reads (Key page_ids quote_board); limit = board_limit ''2'';
      start = min (i - (limit - 1) div 2) (length xs - limit) in
    i < length xs \<and> e_UserID (xs ! i) = 1 \<and>
    handleMe page_ids demo_reads (Some 1) (Key page_ids quote_board) = Mine (Key page_ids quote_board) (xs ! i) \<and>
    handlePage page_ids demo_reads (Some 1) (Key page_ids quote_board) (ask_around ''2'') = Ranked page \<and>
    pg_Entries page = take limit (drop start xs) \<and>
    (pg_PrevCursor page = [] \<longleftrightarrow> start = 0) \<and> (pg_NextCursor page = [] \<longleftrightarrow> length xs \<le> start + limit)"
  by (rule around_me_window [OF demo_reads_ok quote_board_key, of 1 "board_row 11 900 5000000"])
    (simp_all add: demo_reads_def Let_def)

theorem gone_cursor_shifts_ranks_witness:
  "\<exists>page k.
    handlePage page_ids demo_reads None (Key page_ids quote_board)
      (ask_cursor ''10'' (cursorOf page_ids (rowToEntry (4, ''player'', board_row 14 1000 2000000)))) = Ranked page \<and>
    k = length (filter (\<lambda>x. ranks_below (cursorFor (rowToEntry (4, ''player'', board_row 14 1000 2000000))) (cursorFor x))
      (ranked demo_reads (Key page_ids quote_board))) \<and>
    pg_Entries page = map (\<lambda>x. x\<lparr>e_Rank := e_Rank x + 1\<rparr>)
      (take (board_limit ''10'') (drop k (ranked demo_reads (Key page_ids quote_board))))"
  by (rule gone_cursor_shifts_ranks [OF page_ids_ok demo_reads_ok quote_board_key])
    (simp add: entry_ok_def board_row_def score_packable_def time_ok_def,
      rule banned_row_gone [OF demo_reads_ok], simp add: demo_reads_def Let_def)

end
