(* ===== verification/Auth_Text.thy ===== *)
theory Auth_Text
  imports Httpx
begin

text \<open>
  The text rules of the accounts (\<open>internal/auth/service.go\<close>, \<open>oauth.go\<close>) and the errors their handlers
  answer (\<open>errors.go\<close>): addresses, passwords, display names and the names derived from a provider's profile.
  Go's case table above ASCII is an argument. The theory proves that every name the service writes is valid.
\<close>

section \<open>Client-facing errors\<close>

datatype auth_error =
    apiErrInvalidToken | apiErrInvalidCredentials | apiErrEmailNotVerified | apiErrRateLimited
  | apiErrUnauthorized | apiErrForbiddenOrigin | apiErrProviderUnknown | apiErrInternal | apiErrNameTaken
  | apiErrAccountExistsUseLinking | apiErrEmailAlreadySet | apiErrNoVerifiedEmail | apiErrPasswordAlreadySet
  | apiErrOverloaded | apiErrCaptchaRequired | apiErrCaptchaFailed
  | apiErrBadRequest string
  | display_name_unchanged | display_name_cooldown "int option"

fun auth_error_status :: "auth_error \<Rightarrow> nat" where
  "auth_error_status apiErrInvalidToken = 400"
| "auth_error_status apiErrInvalidCredentials = 401"
| "auth_error_status apiErrEmailNotVerified = 403"
| "auth_error_status apiErrRateLimited = 429"
| "auth_error_status apiErrUnauthorized = 401"
| "auth_error_status apiErrForbiddenOrigin = 403"
| "auth_error_status apiErrProviderUnknown = 404"
| "auth_error_status apiErrInternal = 500"
| "auth_error_status apiErrNameTaken = 409"
| "auth_error_status apiErrAccountExistsUseLinking = 409"
| "auth_error_status apiErrEmailAlreadySet = 409"
| "auth_error_status apiErrNoVerifiedEmail = 409"
| "auth_error_status apiErrPasswordAlreadySet = 409"
| "auth_error_status apiErrOverloaded = 503"
| "auth_error_status apiErrCaptchaRequired = 400"
| "auth_error_status apiErrCaptchaFailed = 400"
| "auth_error_status (apiErrBadRequest _) = 400"
| "auth_error_status display_name_unchanged = 409"
| "auth_error_status (display_name_cooldown _) = 409"

section \<open>Addresses and passwords\<close>

definition displayNameMinLen :: nat where "displayNameMinLen = 3"
definition displayNameMaxLen :: nat where "displayNameMaxLen = 20"
definition passwordMinLen :: nat where "passwordMinLen = 8"
definition passwordMaxLen :: nat where "passwordMaxLen = 128"

definition normalizeEmail :: "(rune \<Rightarrow> rune) \<Rightarrow> string \<Rightarrow> string" where
  "normalizeEmail lo email = ToLower lo (TrimSpace email)"

definition validateEmail :: "string \<Rightarrow> bool" where
  "validateEmail email =
     (case find_index (CHR ''@'') email of
        None \<Rightarrow> False
      | Some i \<Rightarrow>
          i > 0 \<and> CHR ''.'' \<in> set (drop (i + 1) email) \<and>
          \<not> list_ex (\<lambda>c. byte c \<in> {32, 9, 13, 10}) email \<and> RuneCountInString email \<le> 254)"

definition validatePassword :: "string \<Rightarrow> auth_error option" where
  "validatePassword pw =
     (if length pw < passwordMinLen \<or> length pw > passwordMaxLen
      then Some (apiErrBadRequest ''password must be between 8 and 128 characters'') else None)"

section \<open>Display names\<close>

definition name_byte :: "nat \<Rightarrow> bool" where
  "name_byte n \<longleftrightarrow>
     (97 \<le> n \<and> n \<le> 122) \<or> (65 \<le> n \<and> n \<le> 90) \<or> (48 \<le> n \<and> n \<le> 57) \<or> n = 95 \<or> n = 46 \<or> n = 45"

definition displayNameRe :: "string \<Rightarrow> bool" where
  "displayNameRe s \<longleftrightarrow> s \<noteq> [] \<and> list_all (\<lambda>c. name_byte (byte c)) s"

definition validDisplayName :: "string \<Rightarrow> bool" where
  "validDisplayName name \<longleftrightarrow>
     length name \<ge> displayNameMinLen \<and> length name \<le> displayNameMaxLen \<and> displayNameRe name"

text \<open>The loop over the runes, with the bytes written so far; it stops once the buffer is full.\<close>

fun sanitize_loop_name :: "rune list \<Rightarrow> string \<Rightarrow> string" where
  "sanitize_loop_name [] b = b"
| "sanitize_loop_name (r # rs) b =
     (let b' = (if name_byte r then b @ [char_of r] else b)
      in if length b' = displayNameMaxLen then b' else sanitize_loop_name rs b')"

definition sanitizeDisplayName :: "string \<Rightarrow> string" where
  "sanitizeDisplayName s =
     (let b = sanitize_loop_name (runes s) [] in if length b < displayNameMinLen then [] else b)"

definition choose_name_message :: string where
  "choose_name_message =
     ''please choose a display name: 3-20 characters using letters, digits, '_', '.', '-'' @ [CHR 0x27]"

definition name_rule_message :: string where
  "name_rule_message =
     ''display name must be 3-20 characters using only letters, digits, '_', '.', '-'' @ [CHR 0x27]"

definition cleanDisplayName :: "string \<Rightarrow> string \<Rightarrow> (auth_error, string) result" where
  "cleanDisplayName name0 email =
     (let name = TrimSpace name0
      in if name = []
         then let derived = (case find_index (CHR ''@'') email of
                               Some i \<Rightarrow> if i > 0 then sanitizeDisplayName (take i email) else []
                             | None \<Rightarrow> [])
              in if derived = [] then Inl (apiErrBadRequest choose_name_message) else Inr derived
         else if \<not> validDisplayName name then Inl (apiErrBadRequest name_rule_message)
         else Inr name)"

record oauthUser =
  ou_Subject :: string
  ou_Email :: string
  ou_EmailVerified :: bool
  ou_Name :: string

definition maxNameSuffix :: nat where "maxNameSuffix = 99"

definition suffixedName :: "string \<Rightarrow> nat \<Rightarrow> string" where
  "suffixedName base i =
     (if i = 0 then base
      else let suffix = Itoa (int i);
               trimmed = (if length base + length suffix > displayNameMaxLen
                          then take (displayNameMaxLen - length suffix) base else base)
           in trimmed @ suffix)"

definition oauthDisplayName :: "oauthUser \<Rightarrow> string" where
  "oauthDisplayName info =
     (let name = sanitizeDisplayName (ou_Name info)
      in if name \<noteq> [] then name
         else let local_part = (case find_index (CHR ''@'') (ou_Email info) of
                                  Some i \<Rightarrow> if i > 0 then sanitizeDisplayName (take i (ou_Email info)) else []
                                | None \<Rightarrow> [])
              in if local_part \<noteq> [] then local_part else ''player'')"

text \<open>
  GitHub reports no verification on its user document; the primary address of the list of addresses decides,
  if the list could be fetched. \<open>None\<close> is the refusal of a document without an id.
\<close>

record githubUser =
  gh_ID :: int
  gh_Login :: string
  gh_Name :: string
  gh_Email :: string

definition fetchGitHubUserInfo :: "githubUser \<Rightarrow> (string \<times> bool \<times> bool) list \<Rightarrow> oauthUser option" where
  "fetchGitHubUserInfo user emails =
     (if gh_ID user = 0 then None
      else let (email, verified) =
                 (case find_first (\<lambda>(address, primary, v). primary) emails of
                    None \<Rightarrow> (gh_Email user, False)
                  | Some (address, primary, v) \<Rightarrow> (address, v))
           in Some \<lparr>ou_Subject = Itoa (gh_ID user), ou_Email = email, ou_EmailVerified = verified,
                    ou_Name = (if gh_Name user = [] then gh_Login user else gh_Name user)\<rparr>)"

section \<open>Names the service writes\<close>

lemma sanitize_loop_chars:
  assumes "list_all (\<lambda>c. name_byte (byte c)) b" and "length b < displayNameMaxLen"
  shows "list_all (\<lambda>c. name_byte (byte c)) (sanitize_loop_name rs b) \<and>
    length (sanitize_loop_name rs b) \<le> displayNameMaxLen"
  using assms
proof (induction rs arbitrary: b)
  case (Cons r rs)
  have "name_byte r \<Longrightarrow> byte (char_of r) = r" by (auto simp: name_byte_def byte_char_of)
  then show ?case using Cons by (auto simp: Let_def)
qed simp

lemma sanitized_valid:
  assumes "sanitizeDisplayName s \<noteq> []"
  shows "validDisplayName (sanitizeDisplayName s)"
proof -
  have "list_all (\<lambda>c. name_byte (byte c)) (sanitize_loop_name (runes s) []) \<and>
      length (sanitize_loop_name (runes s) []) \<le> displayNameMaxLen"
    by (rule sanitize_loop_chars) (simp_all add: displayNameMaxLen_def)
  then show ?thesis
    using assms by (auto simp: sanitizeDisplayName_def validDisplayName_def displayNameRe_def Let_def)
qed

lemma oauth_name_valid: "validDisplayName (oauthDisplayName info)"
proof -
  have "validDisplayName ''player''" by code_simp
  then show ?thesis
    using sanitized_valid by (auto simp: oauthDisplayName_def Let_def split: option.splits)
qed

lemma clean_name_valid: "cleanDisplayName name email = Inr n \<Longrightarrow> validDisplayName n"
  by (auto simp: cleanDisplayName_def Let_def sanitized_valid split: if_splits option.splits)

lemma digit_name_byte: "is_digit c \<Longrightarrow> name_byte (byte c)"
  by (auto simp: is_digit_def name_byte_def)

lemma suffix_digits: "list_all (\<lambda>c. name_byte (byte c)) (Itoa (int i))"
  using nat_digits_all [of i] by (auto simp: Itoa_def list_all_iff digit_name_byte)

lemma suffix_length:
  assumes "i \<le> maxNameSuffix"
  shows "1 \<le> length (Itoa (int i)) \<and> length (Itoa (int i)) \<le> 2"
  using assms by (auto simp: Itoa_def maxNameSuffix_def nat_digits.simps [of i] nat_digits.simps [of "i div 10"])

lemma suffixed_valid:
  assumes "validDisplayName base" and "i \<le> maxNameSuffix"
  shows "validDisplayName (suffixedName base i)"
proof (cases i)
  case (Suc j)
  have "list_all (\<lambda>c. name_byte (byte c)) (take n base)" for n
    using assms(1) by (auto simp: validDisplayName_def displayNameRe_def list_all_iff dest: in_set_takeD)
  then show ?thesis
    using assms suffix_length [OF assms(2)] suffix_digits [of i] Suc
    by (auto simp: suffixedName_def validDisplayName_def displayNameRe_def Let_def displayNameMinLen_def
        displayNameMaxLen_def)
qed (use assms in \<open>simp add: suffixedName_def\<close>)

end
