(* ===== verification/Auth_Secrets.thy ===== *)
theory Auth_Secrets
  imports Auth_Text
begin

text \<open>
  Secrets of the accounts: the tokens of sessions and of email links (\<open>internal/auth/tokens.go\<close>) and the
  encoded password hashes (\<open>password.go\<close>). SHA-256 and argon2id are arguments, as is the randomness.
\<close>

section \<open>Tokens\<close>

definition tokenBytesLen :: nat where "tokenBytesLen = 32"

text \<open>\<open>None\<close> for \<open>raw\<close> is a failing random source.\<close>

definition newToken :: "(string \<Rightarrow> string) \<Rightarrow> string option \<Rightarrow> (string \<times> string) option" where
  "newToken sha256 raw = map_option (\<lambda>b. (EncodeToString b, sha256 b)) raw"

definition hashToken :: "(string \<Rightarrow> string) \<Rightarrow> string \<Rightarrow> string option" where
  "hashToken sha256 plaintext =
     (case DecodeString plaintext of
        None \<Rightarrow> None
      | Some raw \<Rightarrow> if length raw \<noteq> tokenBytesLen then None else Some (sha256 raw))"

section \<open>Encoded password hashes\<close>

text \<open>\<open>base64.RawStdEncoding\<close>: the URL alphabet with \<open>+\<close> and \<open>/\<close> for its last two characters.\<close>

definition std_char :: "char \<Rightarrow> char" where
  "std_char c = (if c = CHR ''-'' then CHR ''+'' else if c = CHR ''_'' then CHR ''/'' else c)"

definition url_char :: "char \<Rightarrow> char" where
  "url_char c = (if c = CHR ''+'' then CHR ''-'' else if c = CHR ''/'' then CHR ''_'' else c)"

definition EncodeStd :: "string \<Rightarrow> string" where
  "EncodeStd s = map std_char (EncodeToString s)"

definition DecodeStd :: "string \<Rightarrow> string option" where
  "DecodeStd s =
     (if CHR ''-'' \<in> set s \<or> CHR ''_'' \<in> set s then None else DecodeString (map url_char s))"

type_synonym argon2 = "string \<Rightarrow> string \<Rightarrow> int \<Rightarrow> int \<Rightarrow> int \<Rightarrow> nat \<Rightarrow> string"

definition argonMemoryKiB :: int where "argonMemoryKiB = 19 * 1024"
definition argonIterations :: int where "argonIterations = 2"
definition argonParallel :: int where "argonParallel = 1"
definition argonSaltLen :: nat where "argonSaltLen = 16"
definition argonKeyLen :: nat where "argonKeyLen = 32"
definition argonVersion :: int where "argonVersion = 19"

definition HashPassword :: "argon2 \<Rightarrow> string option \<Rightarrow> string \<Rightarrow> string option" where
  "HashPassword IDKey salt password =
     map_option (\<lambda>s.
       ''$argon2id$v='' @ Itoa argonVersion @ ''$m='' @ Itoa argonMemoryKiB @ '',t='' @ Itoa argonIterations @
       '',p='' @ Itoa argonParallel @ ''$'' @ EncodeStd s @ ''$'' @
       EncodeStd (IDKey password s argonIterations argonMemoryKiB argonParallel argonKeyLen)) salt"

text \<open>
  \<open>fmt.Sscanf\<close> with literals and \<open>%d\<close>: a verb skips spaces (a newline is an error), reads a sign if the
  operand is signed, then digits; what follows the last verb is ignored.
\<close>

fun scan_skip :: "rune list \<Rightarrow> rune list option" where
  "scan_skip [] = Some []"
| "scan_skip (r # rs) =
     (if r = 10 then None else if IsSpace r then scan_skip rs else Some (r # rs))"

definition rune_digit :: "rune \<Rightarrow> bool" where
  "rune_digit r \<longleftrightarrow> 48 \<le> r \<and> r \<le> 57"

definition rune_value :: "rune list \<Rightarrow> int" where
  "rune_value rs = foldl (\<lambda>n r. n * 10 + (int r - 48)) 0 rs"

definition scan_digits :: "rune list \<Rightarrow> (int \<times> rune list) option" where
  "scan_digits rs =
     (let ds = takeWhile rune_digit rs
      in if ds = [] \<or> rune_value ds \<ge> 2 ^ 64 then None else Some (rune_value ds, dropWhile rune_digit rs))"

definition scan_uint :: "nat \<Rightarrow> rune list \<Rightarrow> (int \<times> rune list) option" where
  "scan_uint w rs =
     (case scan_skip rs of
        None \<Rightarrow> None
      | Some rs' \<Rightarrow>
          (case scan_digits rs' of
             None \<Rightarrow> None
           | Some (n, rest) \<Rightarrow> if n < 2 ^ w then Some (n, rest) else None))"

definition scan_int :: "rune list \<Rightarrow> (int \<times> rune list) option" where
  "scan_int rs =
     (case scan_skip rs of
        None \<Rightarrow> None
      | Some rs' \<Rightarrow>
          let neg = (rs' \<noteq> [] \<and> hd rs' = 45);
              ds = (if rs' \<noteq> [] \<and> (hd rs' = 45 \<or> hd rs' = 43) then tl rs' else rs')
          in case scan_digits ds of
               None \<Rightarrow> None
             | Some (n, rest) \<Rightarrow>
                 let v = (if neg then - n else n) in if in_int64 v then Some (v, rest) else None)"

definition scan_lit :: "string \<Rightarrow> rune list \<Rightarrow> rune list option" where
  "scan_lit s rs = (if take (length s) rs = map byte s then Some (drop (length s) rs) else None)"

record argonParams =
  ap_memoryKiB :: int
  ap_iterations :: int
  ap_parallel :: int

definition scan_version :: "string \<Rightarrow> int option" where
  "scan_version s =
     (case scan_lit ''v='' (runes s) of
        None \<Rightarrow> None
      | Some rs \<Rightarrow> map_option fst (scan_int rs))"

definition scan_params :: "string \<Rightarrow> argonParams option" where
  "scan_params s =
     (case scan_lit ''m='' (runes s) of
        None \<Rightarrow> None
      | Some r1 \<Rightarrow>
          (case scan_uint 32 r1 of
             None \<Rightarrow> None
           | Some (m, r2) \<Rightarrow>
               (case scan_lit '',t='' r2 of
                  None \<Rightarrow> None
                | Some r3 \<Rightarrow>
                    (case scan_uint 32 r3 of
                       None \<Rightarrow> None
                     | Some (t, r4) \<Rightarrow>
                         (case scan_lit '',p='' r4 of
                            None \<Rightarrow> None
                          | Some r5 \<Rightarrow>
                              (case scan_uint 8 r5 of
                                 None \<Rightarrow> None
                               | Some (p, r6) \<Rightarrow>
                                   Some \<lparr>ap_memoryKiB = m, ap_iterations = t, ap_parallel = p\<rparr>))))))"

definition decodeHash :: "string \<Rightarrow> (argonParams \<times> string \<times> string) option" where
  "decodeHash encoded =
     (case split_on (CHR ''$'') encoded of
        [blank, scheme, version, params, salt64, hash64] \<Rightarrow>
          if scheme \<noteq> ''argon2id'' then None
          else if scan_version version \<noteq> Some argonVersion then None
          else (case scan_params params of
                  None \<Rightarrow> None
                | Some p \<Rightarrow>
                    (case DecodeStd salt64 of
                       None \<Rightarrow> None
                     | Some salt \<Rightarrow>
                         (case DecodeStd hash64 of None \<Rightarrow> None | Some hash \<Rightarrow> Some (p, salt, hash))))
      | _ \<Rightarrow> None)"

text \<open>\<open>None\<close> is the error for a malformed stored hash.\<close>

definition VerifyPassword :: "argon2 \<Rightarrow> string \<Rightarrow> string \<Rightarrow> bool option" where
  "VerifyPassword IDKey password encoded =
     map_option (\<lambda>(p, salt, want).
       IDKey password salt (ap_iterations p) (ap_memoryKiB p) (ap_parallel p) (length want) = want)
       (decodeHash encoded)"

section \<open>Round trips\<close>

lemma hash_of_new_token:
  assumes "newToken sha256 (Some raw) = Some (token, hash)" and "length raw = tokenBytesLen"
  shows "hashToken sha256 token = Some hash"
  using assms by (auto simp: newToken_def hashToken_def DecodeString_EncodeToString)

lemma b64_encode_chars: "set (b64_encode bs) \<subseteq> b64_char ` {..<64}" if "\<forall>b \<in> set bs. b < 256"
  using b64_sextets_less that by (force simp: b64_encode_sextets list_all_iff)

lemma std_chars:
  assumes "c \<in> b64_char ` {..<64}"
  shows "url_char (std_char c) = c \<and> std_char c \<noteq> CHR ''-'' \<and> std_char c \<noteq> CHR ''_'' \<and> std_char c \<noteq> CHR ''$''"
proof -
  have "list_all (\<lambda>n. let c = b64_char n in url_char (std_char c) = c \<and> std_char c \<noteq> CHR ''-'' \<and>
      std_char c \<noteq> CHR ''_'' \<and> std_char c \<noteq> CHR ''$'') [0..<64]" by code_simp
  with assms show ?thesis by (auto simp: list_all_iff Let_def)
qed

lemma encoded_char: "c \<in> set (EncodeToString s) \<Longrightarrow> c \<in> b64_char ` {..<64}"
  using b64_encode_chars [of "map byte s"] by (auto simp: EncodeToString_def byte_less)

lemma DecodeStd_EncodeStd: "DecodeStd (EncodeStd s) = Some s"
proof -
  have "map url_char (EncodeStd s) = EncodeToString s"
    unfolding EncodeStd_def map_map by (rule map_idI) (simp add: std_chars encoded_char)
  moreover have "CHR ''-'' \<notin> set (EncodeStd s)" "CHR ''_'' \<notin> set (EncodeStd s)"
    using std_chars encoded_char by (fastforce simp: EncodeStd_def)+
  ultimately show ?thesis by (simp add: DecodeStd_def DecodeString_EncodeToString)
qed

lemma EncodeStd_no_dollar: "CHR ''$'' \<notin> set (EncodeStd s)"
  using std_chars encoded_char by (fastforce simp: EncodeStd_def)

lemma encoded_split:
  "split_on (CHR ''$'') (''$argon2id$v=19$m=19456,t=2,p=1$'' @ EncodeStd s @ ''$'' @ EncodeStd h) =
     [[], ''argon2id'', ''v=19'', ''m=19456,t=2,p=1'', EncodeStd s, EncodeStd h]"
  using split_on_append [OF EncodeStd_no_dollar, of s "EncodeStd h"] split_on_notin [OF EncodeStd_no_dollar, of h]
  by simp

lemma HashPassword_text:
  "HashPassword IDKey (Some s) pw = Some (''$argon2id$v=19$m=19456,t=2,p=1$'' @ EncodeStd s @ ''$'' @
     EncodeStd (IDKey pw s 2 19456 1 32))"
proof -
  have "Itoa argonVersion = ''19''" "Itoa argonMemoryKiB = ''19456''" "Itoa argonIterations = ''2''" "Itoa argonParallel = ''1''"
    by (simp_all add: argonVersion_def argonMemoryKiB_def argonIterations_def argonParallel_def Itoa_def
        nat_digits.simps digit_char_def char_of_def bit_numeral_rec bit_0)
  then show ?thesis
    by (simp add: HashPassword_def argonIterations_def argonMemoryKiB_def argonParallel_def argonKeyLen_def)
qed

lemma decode_hashed:
  "decodeHash (''$argon2id$v=19$m=19456,t=2,p=1$'' @ EncodeStd s @ ''$'' @ EncodeStd h) =
     Some (\<lparr>ap_memoryKiB = 19456, ap_iterations = 2, ap_parallel = 1\<rparr>, s, h)"
proof -
  have "scan_version ''v=19'' = Some argonVersion"
    "scan_params ''m=19456,t=2,p=1'' = Some \<lparr>ap_memoryKiB = 19456, ap_iterations = 2, ap_parallel = 1\<rparr>"
    by (simp_all add: scan_version_def scan_params_def scan_lit_def scan_int_def scan_uint_def scan_digits_def
        runes_ascii ascii_def byte_def rune_digit_def rune_value_def IsSpace_def in_int64_def argonVersion_def Let_def)
  then show ?thesis unfolding decodeHash_def encoded_split by (simp add: DecodeStd_EncodeStd)
qed

text \<open>A stored hash verifies a password exactly when argon2id maps both to the same key under its salt.\<close>

lemma verify_hashed:
  assumes "HashPassword IDKey (Some s) pw = Some encoded" and "length (IDKey pw s 2 19456 1 32) = 32"
  shows "VerifyPassword IDKey pw' encoded = Some (IDKey pw' s 2 19456 1 32 = IDKey pw s 2 19456 1 32)"
proof -
  have "decodeHash encoded =
      Some (\<lparr>ap_memoryKiB = 19456, ap_iterations = 2, ap_parallel = 1\<rparr>, s, IDKey pw s 2 19456 1 32)"
    using assms(1) unfolding HashPassword_text option.inject by (metis decode_hashed)
  then show ?thesis by (simp add: VerifyPassword_def assms(2))
qed

end
