(* ===== verification/Auth_DB.thy ===== *)
theory Auth_DB
  imports Auth_Secrets Board_Key
begin

text \<open>
  The tables of the accounts (\<open>db/migrations/00001_init_auth.sql\<close> and its extensions), the statements on them
  (\<open>internal/auth/authdb\<close>) and the store built from them (\<open>internal/auth/pgstore\<close>).

  A table is a list of rows. A statement checks the constraints of the schema in PostgreSQL's order (CHECK,
  then unique and exclusion indexes, then foreign keys) and leaves the tables alone when it fails. Columns no
  code reads (the ids of identities and email tokens, \<open>updated_at\<close>) are left out. \<open>ci\<close> is PostgreSQL's
  \<open>lower\<close>, by which \<open>citext\<close> compares.
\<close>

section \<open>Tables\<close>

record 'u User =
  u_ID :: 'u
  u_DisplayName :: string
  u_CreatedAt :: int
  u_ProfilePublic :: bool
  u_KeyboardPublic :: bool
  u_Role :: string
  u_DisplayNameChangedAt :: "int option"

record 'u Identity =
  id_UserID :: 'u
  id_Provider :: string
  id_Subject :: string
  id_Email :: "string option"
  id_EmailVerified :: bool

record 'u Session =
  ss_ID :: 'u
  ss_TokenHash :: string
  ss_UserID :: 'u
  ss_CreatedAt :: int
  ss_ExpiresAt :: int
  ss_LastSeenAt :: int

record 'u EmailToken =
  et_UserID :: 'u
  et_Purpose :: string
  et_TokenHash :: string
  et_ExpiresAt :: int
  et_UsedAt :: "int option"

record 'u auth_db =
  ad_users :: "'u User list"
  ad_identities :: "'u Identity list"
  ad_credentials :: "('u \<times> string) list"
  ad_sessions :: "'u Session list"
  ad_tokens :: "'u EmailToken list"

definition ProviderEmail :: string where "ProviderEmail = ''email''"
definition ProviderGitHub :: string where "ProviderGitHub = ''github''"
definition ProviderGoogle :: string where "ProviderGoogle = ''google''"
definition PurposeVerify :: string where "PurposeVerify = ''verify''"
definition PurposeReset :: string where "PurposeReset = ''reset''"

datatype store_error =
  ErrNotFound | ErrDisplayNameTaken | ErrDisplayNameCooldown | ErrEmailOwnedByOtherUser | ErrIdentityExists | ErrOther

section \<open>Accounts\<close>

text \<open>The CHECK on \<open>display_name\<close>; its charset is ASCII, so characters are bytes.\<close>

definition display_name_check :: "string \<Rightarrow> bool" where
  "display_name_check name \<longleftrightarrow> 3 \<le> length name \<and> length name \<le> 20 \<and> displayNameRe name"

definition name_taken :: "(string \<Rightarrow> string) \<Rightarrow> 'u User list \<Rightarrow> string \<Rightarrow> bool" where
  "name_taken ci users name \<longleftrightarrow> list_ex (\<lambda>u. ci (u_DisplayName u) = ci name) users"

definition CreateUser ::
  "(string \<Rightarrow> string) \<Rightarrow> 'u \<Rightarrow> int \<Rightarrow> string \<Rightarrow> 'u auth_db \<Rightarrow> (store_error, 'u User \<times> 'u auth_db) result" where
  "CreateUser ci uid now name db =
     (if \<not> display_name_check name then Inl ErrOther
      else if list_ex (\<lambda>u. u_ID u = uid) (ad_users db) then Inl ErrOther
      else if name_taken ci (ad_users db) name then Inl ErrDisplayNameTaken
      else let u = \<lparr>u_ID = uid, u_DisplayName = name, u_CreatedAt = now, u_ProfilePublic = True,
                    u_KeyboardPublic = False, u_Role = ''player'', u_DisplayNameChangedAt = None\<rparr>
           in Inr (u, db\<lparr>ad_users := ad_users db @ [u]\<rparr>))"

definition emailPtr :: "string \<Rightarrow> string option" where
  "emailPtr email = (if email = [] then None else Some email)"

definition user_exists :: "'u auth_db \<Rightarrow> 'u \<Rightarrow> bool" where
  "user_exists db uid \<longleftrightarrow> list_ex (\<lambda>u. u_ID u = uid) (ad_users db)"

definition GetUserByID :: "'u auth_db \<Rightarrow> 'u \<Rightarrow> (store_error, 'u User) result" where
  "GetUserByID db uid =
     (case find_first (\<lambda>u. u_ID u = uid) (ad_users db) of None \<Rightarrow> Inl ErrNotFound | Some u \<Rightarrow> Inr u)"

section \<open>Identities\<close>

text \<open>\<open>verified_email_one_user\<close>: a verified address belongs to one user. A NULL address never conflicts.\<close>

definition email_owned_elsewhere :: "(string \<Rightarrow> string) \<Rightarrow> 'u Identity list \<Rightarrow> 'u \<Rightarrow> string option \<Rightarrow> bool" where
  "email_owned_elsewhere ci ids uid email =
     (case email of
        None \<Rightarrow> False
      | Some e \<Rightarrow>
          list_ex (\<lambda>i. id_EmailVerified i \<and> id_UserID i \<noteq> uid \<and> map_option ci (id_Email i) = Some (ci e)) ids)"

definition identity_check :: "(string \<Rightarrow> string) \<Rightarrow> 'u Identity \<Rightarrow> bool" where
  "identity_check ci i \<longleftrightarrow>
     id_Provider i \<in> {ProviderGitHub, ProviderGoogle, ProviderEmail} \<and>
     (id_Provider i \<noteq> ProviderEmail \<or> id_Subject i = ci (id_Subject i))"

definition identity_exists :: "'u Identity list \<Rightarrow> string \<Rightarrow> string \<Rightarrow> bool" where
  "identity_exists ids provider subject \<longleftrightarrow>
     list_ex (\<lambda>i. id_Provider i = provider \<and> id_Subject i = subject) ids"

definition CreateIdentity ::
  "(string \<Rightarrow> string) \<Rightarrow> 'u Identity \<Rightarrow> 'u auth_db \<Rightarrow> (store_error, 'u auth_db) result" where
  "CreateIdentity ci i db =
     (if \<not> identity_check ci i then Inl ErrOther
      else if identity_exists (ad_identities db) (id_Provider i) (id_Subject i) then Inl ErrIdentityExists
      else if id_EmailVerified i \<and> email_owned_elsewhere ci (ad_identities db) (id_UserID i) (id_Email i)
        then Inl ErrEmailOwnedByOtherUser
      else if \<not> user_exists db (id_UserID i) then Inl ErrOther
      else Inr (db\<lparr>ad_identities := ad_identities db @ [i]\<rparr>))"

definition found :: "'a option \<Rightarrow> (store_error, 'a) result" where
  "found x = (case x of None \<Rightarrow> Inl ErrNotFound | Some v \<Rightarrow> Inr v)"

definition IdentityByProviderSubject ::
  "'u auth_db \<Rightarrow> string \<Rightarrow> string \<Rightarrow> (store_error, 'u Identity) result" where
  "IdentityByProviderSubject db provider subject =
     found (find_first (\<lambda>i. id_Provider i = provider \<and> id_Subject i = subject) (ad_identities db))"

text \<open>An empty address is NULL, which equals nothing.\<close>

definition EmailIdentity ::
  "(string \<Rightarrow> string) \<Rightarrow> 'u auth_db \<Rightarrow> string \<Rightarrow> (store_error, 'u Identity) result" where
  "EmailIdentity ci db email =
     found (case emailPtr email of
       None \<Rightarrow> None
     | Some e \<Rightarrow> find_first (\<lambda>i. id_Provider i = ProviderEmail \<and> map_option ci (id_Email i) = Some (ci e))
                  (ad_identities db))"

definition VerifiedIdentityByEmail ::
  "(string \<Rightarrow> string) \<Rightarrow> 'u auth_db \<Rightarrow> string \<Rightarrow> (store_error, 'u Identity) result" where
  "VerifiedIdentityByEmail ci db email =
     found (case emailPtr email of
       None \<Rightarrow> None
     | Some e \<Rightarrow> find_first (\<lambda>i. map_option ci (id_Email i) = Some (ci e) \<and> id_EmailVerified i)
                  (ad_identities db))"

definition IdentitiesByUser :: "'u auth_db \<Rightarrow> 'u \<Rightarrow> 'u Identity list" where
  "IdentitiesByUser db uid = filter (\<lambda>i. id_UserID i = uid) (ad_identities db)"

text \<open>\<open>VerifyEmailIdentityByUser\<close>: the whole update fails when one of its rows would give an address a second owner.\<close>

definition MarkEmailVerified ::
  "(string \<Rightarrow> string) \<Rightarrow> 'u \<Rightarrow> 'u auth_db \<Rightarrow> (store_error, 'u auth_db) result" where
  "MarkEmailVerified ci uid db =
     (let own = (\<lambda>i. id_UserID i = uid \<and> id_Provider i = ProviderEmail)
      in if list_ex (\<lambda>i. own i \<and> email_owned_elsewhere ci (ad_identities db) uid (id_Email i)) (ad_identities db)
         then Inl ErrEmailOwnedByOtherUser
         else Inr (db\<lparr>ad_identities :=
                map (\<lambda>i. if own i then i\<lparr>id_EmailVerified := True\<rparr> else i) (ad_identities db)\<rparr>))"

section \<open>Account creation\<close>

record EmailAccountParams =
  ea_DisplayName :: string
  ea_Email :: string
  ea_PasswordHash :: string

record OAuthAccountParams =
  oa_DisplayName :: string
  oa_Provider :: string
  oa_Subject :: string
  oa_Email :: string
  oa_EmailVerified :: bool

definition UpsertCredential :: "'u \<Rightarrow> string \<Rightarrow> 'u auth_db \<Rightarrow> (store_error, 'u auth_db) result" where
  "UpsertCredential uid hash db =
     (if \<not> user_exists db uid then Inl ErrOther
      else Inr (db\<lparr>ad_credentials := (uid, hash) # filter (\<lambda>(v, h). v \<noteq> uid) (ad_credentials db)\<rparr>))"

definition UpdateCredential :: "'u \<Rightarrow> string \<Rightarrow> 'u auth_db \<Rightarrow> (store_error, 'u auth_db) result" where
  "UpdateCredential uid hash db = UpsertCredential uid hash db"

definition Credential :: "'u auth_db \<Rightarrow> 'u \<Rightarrow> (store_error, string) result" where
  "Credential db uid = found (map_option snd (find_first (\<lambda>(v, h). v = uid) (ad_credentials db)))"

definition CreateEmailAccount ::
  "(string \<Rightarrow> string) \<Rightarrow> 'u \<Rightarrow> int \<Rightarrow> EmailAccountParams \<Rightarrow> 'u auth_db \<Rightarrow> (store_error, 'u User \<times> 'u auth_db) result" where
  "CreateEmailAccount ci uid now p db =
     (case CreateUser ci uid now (ea_DisplayName p) db of
        Inl e \<Rightarrow> Inl e
      | Inr (u, db1) \<Rightarrow>
          (case CreateIdentity ci \<lparr>id_UserID = uid, id_Provider = ProviderEmail, id_Subject = ea_Email p,
                  id_Email = emailPtr (ea_Email p), id_EmailVerified = False\<rparr> db1 of
             Inl e \<Rightarrow> Inl e
           | Inr db2 \<Rightarrow>
               (case UpsertCredential uid (ea_PasswordHash p) db2 of
                  Inl e \<Rightarrow> Inl e
                | Inr db3 \<Rightarrow> Inr (u, db3))))"

definition CreateOAuthAccount ::
  "(string \<Rightarrow> string) \<Rightarrow> 'u \<Rightarrow> int \<Rightarrow> OAuthAccountParams \<Rightarrow> 'u auth_db \<Rightarrow> (store_error, 'u User \<times> 'u auth_db) result" where
  "CreateOAuthAccount ci uid now p db =
     (case CreateUser ci uid now (oa_DisplayName p) db of
        Inl e \<Rightarrow> Inl e
      | Inr (u, db1) \<Rightarrow>
          (case CreateIdentity ci \<lparr>id_UserID = uid, id_Provider = oa_Provider p, id_Subject = oa_Subject p,
                  id_Email = emailPtr (oa_Email p), id_EmailVerified = oa_EmailVerified p\<rparr> db1 of
             Inl e \<Rightarrow> Inl e
           | Inr db2 \<Rightarrow> Inr (u, db2)))"

record IdentityParams =
  ip_Provider :: string
  ip_Subject :: string
  ip_Email :: string
  ip_EmailVerified :: bool

definition LinkIdentity ::
  "(string \<Rightarrow> string) \<Rightarrow> 'u \<Rightarrow> IdentityParams \<Rightarrow> 'u auth_db \<Rightarrow> (store_error, 'u auth_db) result" where
  "LinkIdentity ci uid p db =
     CreateIdentity ci \<lparr>id_UserID = uid, id_Provider = ip_Provider p, id_Subject = ip_Subject p,
       id_Email = emailPtr (ip_Email p), id_EmailVerified = ip_EmailVerified p\<rparr> db"

section \<open>Settings and roles\<close>

definition update_user :: "'u \<Rightarrow> ('u User \<Rightarrow> 'u User) \<Rightarrow> 'u auth_db \<Rightarrow> 'u auth_db" where
  "update_user uid f db = db\<lparr>ad_users := map (\<lambda>u. if u_ID u = uid then f u else u) (ad_users db)\<rparr>"

definition UpdateUserSettings ::
  "'u \<Rightarrow> bool \<Rightarrow> bool \<Rightarrow> 'u auth_db \<Rightarrow> (store_error, 'u User \<times> 'u auth_db) result" where
  "UpdateUserSettings uid profile keyboard db =
     (let db' = update_user uid (\<lambda>u. u\<lparr>u_ProfilePublic := profile, u_KeyboardPublic := keyboard\<rparr>) db
      in case GetUserByID db' uid of Inl e \<Rightarrow> Inl e | Inr u \<Rightarrow> Inr (u, db'))"

text \<open>Thirty days in microseconds.\<close>

definition rename_interval :: int where
  "rename_interval = 30 * 24 * 60 * 60 * 1000000"

definition may_rename :: "int \<Rightarrow> 'u User \<Rightarrow> bool" where
  "may_rename now u =
     (case u_DisplayNameChangedAt u of None \<Rightarrow> True | Some t \<Rightarrow> t \<le> now - rename_interval)"

definition ChangeDisplayName ::
  "(string \<Rightarrow> string) \<Rightarrow> int \<Rightarrow> 'u \<Rightarrow> string \<Rightarrow> 'u auth_db \<Rightarrow> (store_error, 'u User \<times> 'u auth_db) result" where
  "ChangeDisplayName ci now uid name db =
     (case GetUserByID db uid of
        Inl e \<Rightarrow> Inl ErrDisplayNameCooldown
      | Inr u \<Rightarrow>
          if \<not> may_rename now u then Inl ErrDisplayNameCooldown
          else if \<not> display_name_check name then Inl ErrOther
          else if name_taken ci (filter (\<lambda>v. u_ID v \<noteq> uid) (ad_users db)) name then Inl ErrDisplayNameTaken
          else let u' = u\<lparr>u_DisplayName := name, u_DisplayNameChangedAt := Some now\<rparr>
               in Inr (u', update_user uid (\<lambda>_. u') db))"

definition PromoteAdmins :: "(string \<Rightarrow> string) \<Rightarrow> string list \<Rightarrow> 'u auth_db \<Rightarrow> nat \<times> 'u auth_db" where
  "PromoteAdmins ci emails db =
     (let picked = (\<lambda>u. u_Role u \<noteq> ''admin'' \<and>
            list_ex (\<lambda>i. id_UserID i = u_ID u \<and> id_EmailVerified i \<and>
              list_ex (\<lambda>e. map_option ci (id_Email i) = Some (ci e)) emails) (ad_identities db))
      in (length (filter picked (ad_users db)),
          db\<lparr>ad_users := map (\<lambda>u. if picked u then u\<lparr>u_Role := ''admin''\<rparr> else u) (ad_users db)\<rparr>))"

section \<open>Email tokens\<close>

definition CreateEmailToken ::
  "'u \<Rightarrow> string \<Rightarrow> string \<Rightarrow> int \<Rightarrow> 'u auth_db \<Rightarrow> (store_error, 'u auth_db) result" where
  "CreateEmailToken uid purpose hash expires db =
     (if purpose \<notin> {PurposeVerify, PurposeReset} then Inl ErrOther
      else if list_ex (\<lambda>t. et_TokenHash t = hash) (ad_tokens db) then Inl ErrOther
      else if \<not> user_exists db uid then Inl ErrOther
      else Inr (db\<lparr>ad_tokens := ad_tokens db @ [\<lparr>et_UserID = uid, et_Purpose = purpose, et_TokenHash = hash,
              et_ExpiresAt = expires, et_UsedAt = None\<rparr>]\<rparr>))"

definition DeleteUserTokens :: "'u \<Rightarrow> string \<Rightarrow> 'u auth_db \<Rightarrow> 'u auth_db" where
  "DeleteUserTokens uid purpose db =
     db\<lparr>ad_tokens := filter (\<lambda>t. \<not> (et_UserID t = uid \<and> et_Purpose t = purpose)) (ad_tokens db)\<rparr>"

definition usable :: "int \<Rightarrow> string \<Rightarrow> string \<Rightarrow> 'u EmailToken \<Rightarrow> bool" where
  "usable now hash purpose t \<longleftrightarrow>
     et_TokenHash t = hash \<and> et_Purpose t = purpose \<and> et_UsedAt t = None \<and> et_ExpiresAt t > now"

definition UseEmailToken ::
  "int \<Rightarrow> string \<Rightarrow> string \<Rightarrow> 'u auth_db \<Rightarrow> (store_error, 'u EmailToken \<times> 'u auth_db) result" where
  "UseEmailToken now hash purpose db =
     (case find_first (usable now hash purpose) (ad_tokens db) of
        None \<Rightarrow> Inl ErrNotFound
      | Some t \<Rightarrow>
          Inr (t\<lparr>et_UsedAt := Some now\<rparr>,
            db\<lparr>ad_tokens := map (\<lambda>t. if usable now hash purpose t then t\<lparr>et_UsedAt := Some now\<rparr> else t) (ad_tokens db)\<rparr>))"

definition token_retention :: int where
  "token_retention = 24 * 60 * 60 * 1000000"

definition DeleteStaleEmailTokens :: "int \<Rightarrow> 'u auth_db \<Rightarrow> 'u auth_db" where
  "DeleteStaleEmailTokens now db =
     db\<lparr>ad_tokens := filter (\<lambda>t. \<not> (et_ExpiresAt t < now - token_retention \<or>
       (case et_UsedAt t of None \<Rightarrow> False | Some used \<Rightarrow> used < now - token_retention))) (ad_tokens db)\<rparr>"

section \<open>Sessions\<close>

definition CreateSession ::
  "'u \<Rightarrow> int \<Rightarrow> string \<Rightarrow> 'u \<Rightarrow> int \<Rightarrow> 'u auth_db \<Rightarrow> (store_error, 'u auth_db) result" where
  "CreateSession sid now hash uid expires db =
     (if list_ex (\<lambda>s. ss_ID s = sid) (ad_sessions db) then Inl ErrOther
      else if list_ex (\<lambda>s. ss_TokenHash s = hash) (ad_sessions db) then Inl ErrOther
      else if \<not> user_exists db uid then Inl ErrOther
      else Inr (db\<lparr>ad_sessions := ad_sessions db @ [\<lparr>ss_ID = sid, ss_TokenHash = hash, ss_UserID = uid,
              ss_CreatedAt = now, ss_ExpiresAt = expires, ss_LastSeenAt = now\<rparr>]\<rparr>))"

definition SessionByTokenHash :: "'u auth_db \<Rightarrow> string \<Rightarrow> (store_error, 'u Session) result" where
  "SessionByTokenHash db hash = found (find_first (\<lambda>s. ss_TokenHash s = hash) (ad_sessions db))"

definition TouchSession :: "int \<Rightarrow> 'u \<Rightarrow> int \<Rightarrow> 'u auth_db \<Rightarrow> 'u auth_db" where
  "TouchSession now sid expires db =
     db\<lparr>ad_sessions :=
       map (\<lambda>s. if ss_ID s = sid then s\<lparr>ss_LastSeenAt := now, ss_ExpiresAt := expires\<rparr> else s) (ad_sessions db)\<rparr>"

definition DeleteSession :: "string \<Rightarrow> 'u auth_db \<Rightarrow> 'u auth_db" where
  "DeleteSession hash db = db\<lparr>ad_sessions := filter (\<lambda>s. ss_TokenHash s \<noteq> hash) (ad_sessions db)\<rparr>"

definition DeleteUserSessions :: "'u \<Rightarrow> 'u auth_db \<Rightarrow> 'u auth_db" where
  "DeleteUserSessions uid db = db\<lparr>ad_sessions := filter (\<lambda>s. ss_UserID s \<noteq> uid) (ad_sessions db)\<rparr>"

definition DeleteExpiredSessions :: "int \<Rightarrow> 'u auth_db \<Rightarrow> 'u auth_db" where
  "DeleteExpiredSessions now db = db\<lparr>ad_sessions := filter (\<lambda>s. \<not> ss_ExpiresAt s < now) (ad_sessions db)\<rparr>"

end
