(* ===== verification/Auth_Service.thy ===== *)
theory Auth_Service
  imports Auth_DB
begin

text \<open>
  The account service (\<open>internal/auth\<close>): sessions, registration, verification, login, password reset,
  settings and permissions. Every handler is a function of the database and of what the request
  and the environment supply; it answers with the new database, the reply, the session cookie it sets and the
  mails it sends. A body that the strict decoder refuses is \<open>None\<close>.

  Instants are in microseconds. The service's clock and the database's clock are separate. Handlers are
  modelled one at a time; a step that fails leaves what earlier steps of the handler have already written.
\<close>

section \<open>Environment\<close>

record 'u auth_lib =
  al_lower :: "rune \<Rightarrow> rune"
  al_ci :: "string \<Rightarrow> string"
  al_sha256 :: "string \<Rightarrow> string"
  al_argon :: argon2
  al_uuid :: "'u uuid_lib"

record auth_config =
  ac_FrontendOrigin :: string
  ac_SessionTTL :: int
  ac_Providers :: "(string \<times> string \<times> string) list"
  ac_dummyHash :: string

text \<open>
  The clocks, whether the hash gate grants a slot, and what the random sources yield: the raw bytes of one
  token, a salt, and the ids the database generates for a new user and a new session.
\<close>

record 'u auth_env =
  ae_now :: int
  ae_db_now :: int
  ae_slot :: bool
  ae_token :: "string option"
  ae_salt :: "string option"
  ae_user :: 'u
  ae_session :: 'u

definition hour :: int where "hour = 60 * 60 * 1000000"
definition verifyTokenTTL :: int where "verifyTokenTTL = 24 * hour"
definition resetTokenTTL :: int where "resetTokenTTL = 1 * hour"
definition sessionRefreshInterval :: int where "sessionRefreshInterval = 1 * hour"

section \<open>Permissions and views\<close>

definition PermBansRead :: string where "PermBansRead = ''bans:read''"
definition PermBansWrite :: string where "PermBansWrite = ''bans:write''"
definition PermReportsRead :: string where "PermReportsRead = ''reports:read''"
definition PermReportsWrite :: string where "PermReportsWrite = ''reports:write''"
definition PermQuotesWrite :: string where "PermQuotesWrite = ''quotes:write''"
definition PermRunsReviewRead :: string where "PermRunsReviewRead = ''runs:review''"
definition PermRunsOverride :: string where "PermRunsOverride = ''runs:override''"

definition rolePermissions :: "string \<Rightarrow> string list" where
  "rolePermissions role =
     (if role = ''admin''
      then [PermBansRead, PermBansWrite, PermReportsRead, PermReportsWrite, PermQuotesWrite, PermRunsReviewRead,
            PermRunsOverride]
      else [])"

definition Can :: "'u User \<Rightarrow> string \<Rightarrow> bool" where
  "Can u p = list_ex (\<lambda>granted. granted = p) (rolePermissions (u_Role u))"

definition Permissions :: "'u User \<Rightarrow> string list" where
  "Permissions u = rolePermissions (u_Role u)"

text \<open>A refusal is the router's own 404.\<close>

definition RequirePermission :: "string \<Rightarrow> 'u User option \<Rightarrow> bool" where
  "RequirePermission p caller = (case caller of None \<Rightarrow> False | Some u \<Rightarrow> Can u p)"

record 'u userView =
  uv_ID :: 'u
  uv_DisplayName :: string
  uv_CreatedAt :: int
  uv_Restricted :: bool
  uv_ProfilePublic :: bool
  uv_KeyboardPublic :: bool
  uv_Permissions :: "string list"
  uv_DisplayNameChangedAt :: "int option"

definition toUserView :: "'u User \<Rightarrow> 'u userView" where
  "toUserView u =
     \<lparr>uv_ID = u_ID u, uv_DisplayName = u_DisplayName u, uv_CreatedAt = u_CreatedAt u, uv_Restricted = False,
      uv_ProfilePublic = u_ProfilePublic u, uv_KeyboardPublic = u_KeyboardPublic u,
      uv_Permissions = Permissions u, uv_DisplayNameChangedAt = u_DisplayNameChangedAt u\<rparr>"

section \<open>Answers\<close>

datatype 'u auth_reply =
    Refuse auth_error
  | StatusMessage string
  | UserReply "'u userView"
  | Authorize string
  | RedirectResult string
  | RedirectLinked string

record Mail =
  ml_To :: string
  ml_Purpose :: string
  ml_Token :: string

record 'u answer =
  an_db :: "'u auth_db"
  an_reply :: "'u auth_reply"
  an_cookie :: "string option"
  an_mails :: "Mail list"

definition reply :: "'u auth_db \<Rightarrow> 'u auth_reply \<Rightarrow> 'u answer" where
  "reply db r = \<lparr>an_db = db, an_reply = r, an_cookie = None, an_mails = []\<rparr>"

definition genericEmailAccepted :: string where
  "genericEmailAccepted = ''if that email can receive mail, a message is on its way''"

definition hashPassword :: "'u auth_lib \<Rightarrow> 'u auth_env \<Rightarrow> string \<Rightarrow> (auth_error, string) result" where
  "hashPassword L E pw =
     (if \<not> ae_slot E then Inl apiErrOverloaded
      else case HashPassword (al_argon L) (ae_salt E) pw of None \<Rightarrow> Inl apiErrInternal | Some h \<Rightarrow> Inr h)"

definition verifyPassword :: "'u auth_lib \<Rightarrow> 'u auth_env \<Rightarrow> string \<Rightarrow> string \<Rightarrow> (auth_error, bool) result" where
  "verifyPassword L E pw encoded =
     (if \<not> ae_slot E then Inl apiErrOverloaded
      else case VerifyPassword (al_argon L) pw encoded of None \<Rightarrow> Inl apiErrInternal | Some b \<Rightarrow> Inr b)"

section \<open>Sessions\<close>

definition issueSession ::
  "'u auth_lib \<Rightarrow> auth_config \<Rightarrow> 'u auth_env \<Rightarrow> 'u \<Rightarrow> 'u auth_db \<Rightarrow> (string \<times> 'u auth_db) option" where
  "issueSession L C E uid db =
     (case newToken (al_sha256 L) (ae_token E) of
        None \<Rightarrow> None
      | Some (token, hash) \<Rightarrow>
          (case CreateSession (ae_session E) (ae_db_now E) hash uid (ae_now E + ac_SessionTTL C) db of
             Inl e \<Rightarrow> None
           | Inr db' \<Rightarrow> Some (token, db')))"

definition authenticate ::
  "'u auth_lib \<Rightarrow> auth_config \<Rightarrow> 'u auth_env \<Rightarrow> string option \<Rightarrow> 'u auth_db
     \<Rightarrow> (auth_error, 'u User) result \<times> 'u auth_db" where
  "authenticate L C E cookie db =
     (case cookie of
        None \<Rightarrow> (Inl apiErrUnauthorized, db)
      | Some token \<Rightarrow>
          (case hashToken (al_sha256 L) token of
             None \<Rightarrow> (Inl apiErrUnauthorized, db)
           | Some hash \<Rightarrow>
               (case SessionByTokenHash db hash of
                  Inl e \<Rightarrow> (Inl apiErrUnauthorized, db)
                | Inr session \<Rightarrow>
                    if \<not> ss_ExpiresAt session > ae_now E then (Inl apiErrUnauthorized, DeleteSession hash db)
                    else let db' = (if ae_now E - ss_LastSeenAt session > sessionRefreshInterval
                                    then TouchSession (ae_db_now E) (ss_ID session) (ae_now E + ac_SessionTTL C) db
                                    else db)
                         in case GetUserByID db' (ss_UserID session) of
                              Inl e \<Rightarrow> (Inl apiErrUnauthorized, db')
                            | Inr user \<Rightarrow> (Inr user, db'))))"

text \<open>The cookie is cleared by setting it empty.\<close>

definition handleLogout :: "'u auth_lib \<Rightarrow> string option \<Rightarrow> 'u auth_db \<Rightarrow> 'u answer" where
  "handleLogout L cookie db =
     (let db' = (case cookie of
                   None \<Rightarrow> db
                 | Some token \<Rightarrow>
                     (case hashToken (al_sha256 L) token of None \<Rightarrow> db | Some hash \<Rightarrow> DeleteSession hash db))
      in (reply db' (StatusMessage ''ok''))\<lparr>an_cookie := Some []\<rparr>)"

section \<open>Email tokens\<close>

text \<open>Deletes the user's earlier tokens of the purpose first; they stay deleted when a later step fails.\<close>

definition issueEmailToken ::
  "'u auth_lib \<Rightarrow> 'u auth_env \<Rightarrow> 'u \<Rightarrow> string \<Rightarrow> int \<Rightarrow> 'u auth_db \<Rightarrow> string option \<times> 'u auth_db" where
  "issueEmailToken L E uid purpose ttl db =
     (let db1 = DeleteUserTokens uid purpose db
      in case newToken (al_sha256 L) (ae_token E) of
           None \<Rightarrow> (None, db1)
         | Some (token, hash) \<Rightarrow>
             (case CreateEmailToken uid purpose hash (ae_now E + ttl) db1 of
                Inl e \<Rightarrow> (None, db1)
              | Inr db2 \<Rightarrow> (Some token, db2)))"

definition send_token ::
  "'u auth_lib \<Rightarrow> 'u auth_env \<Rightarrow> 'u \<Rightarrow> string \<Rightarrow> int \<Rightarrow> string \<Rightarrow> 'u auth_db \<Rightarrow> Mail list \<times> 'u auth_db" where
  "send_token L E uid purpose ttl email db =
     (case issueEmailToken L E uid purpose ttl db of
        (None, db') \<Rightarrow> ([], db')
      | (Some token, db') \<Rightarrow> ([\<lparr>ml_To = email, ml_Purpose = purpose, ml_Token = token\<rparr>], db'))"

definition sendVerification ::
  "'u auth_lib \<Rightarrow> 'u auth_env \<Rightarrow> 'u \<Rightarrow> string \<Rightarrow> 'u auth_db \<Rightarrow> Mail list \<times> 'u auth_db" where
  "sendVerification L E uid email db = send_token L E uid PurposeVerify verifyTokenTTL email db"

definition sendPasswordReset ::
  "'u auth_lib \<Rightarrow> 'u auth_env \<Rightarrow> 'u \<Rightarrow> string \<Rightarrow> 'u auth_db \<Rightarrow> Mail list \<times> 'u auth_db" where
  "sendPasswordReset L E uid email db = send_token L E uid PurposeReset resetTokenTTL email db"

definition mailed :: "'u auth_reply \<Rightarrow> Mail list \<times> 'u auth_db \<Rightarrow> 'u answer" where
  "mailed r sent = (reply (snd sent) r)\<lparr>an_mails := fst sent\<rparr>"

section \<open>Registration and login\<close>

record registerRequest =
  rq_Email :: string
  rq_Password :: string
  rq_DisplayName :: string

definition bad_body :: auth_error where
  "bad_body = apiErrBadRequest ''request body is not valid JSON''"

definition create_registered ::
  "'u auth_lib \<Rightarrow> 'u auth_env \<Rightarrow> string \<Rightarrow> string \<Rightarrow> string \<Rightarrow> 'u auth_db \<Rightarrow> 'u answer" where
  "create_registered L E displayName email hash db =
     (case CreateEmailAccount (al_ci L) (ae_user E) (ae_db_now E)
             \<lparr>ea_DisplayName = displayName, ea_Email = email, ea_PasswordHash = hash\<rparr> db of
        Inl ErrDisplayNameTaken \<Rightarrow> reply db (Refuse apiErrNameTaken)
      | Inl e \<Rightarrow> reply db (Refuse apiErrInternal)
      | Inr (user, db') \<Rightarrow>
          mailed (StatusMessage genericEmailAccepted) (sendVerification L E (u_ID user) email db'))"

definition handleRegister ::
  "'u auth_lib \<Rightarrow> 'u auth_env \<Rightarrow> registerRequest option \<Rightarrow> 'u auth_db \<Rightarrow> 'u answer" where
  "handleRegister L E body db =
     (case body of
        None \<Rightarrow> reply db (Refuse bad_body)
      | Some req \<Rightarrow>
          let email = normalizeEmail (al_lower L) (rq_Email req)
          in if \<not> validateEmail email then reply db (Refuse (apiErrBadRequest ''a valid email is required''))
             else case validatePassword (rq_Password req) of
               Some e \<Rightarrow> reply db (Refuse e)
             | None \<Rightarrow>
                 (case cleanDisplayName (rq_DisplayName req) email of
                    Inl e \<Rightarrow> reply db (Refuse e)
                  | Inr displayName \<Rightarrow>
                      (case hashPassword L E (rq_Password req) of
                         Inl e \<Rightarrow> reply db (Refuse e)
                       | Inr hash \<Rightarrow>
                           (case EmailIdentity (al_ci L) db email of
                              Inr _ \<Rightarrow> reply db (StatusMessage genericEmailAccepted)
                            | Inl _ \<Rightarrow> create_registered L E displayName email hash db))))"

definition handleVerify :: "'u auth_lib \<Rightarrow> 'u auth_env \<Rightarrow> string option \<Rightarrow> 'u auth_db \<Rightarrow> 'u answer" where
  "handleVerify L E body db =
     (case body of
        None \<Rightarrow> reply db (Refuse bad_body)
      | Some token \<Rightarrow>
          (case hashToken (al_sha256 L) token of
             None \<Rightarrow> reply db (Refuse apiErrInvalidToken)
           | Some hash \<Rightarrow>
               (case UseEmailToken (ae_db_now E) hash PurposeVerify db of
                  Inl e \<Rightarrow> reply db (Refuse apiErrInvalidToken)
                | Inr (tok, db1) \<Rightarrow>
                    (case MarkEmailVerified (al_ci L) (et_UserID tok) db1 of
                       Inl ErrEmailOwnedByOtherUser \<Rightarrow> reply db1 (Refuse apiErrAccountExistsUseLinking)
                     | Inl e \<Rightarrow> reply db1 (Refuse apiErrInternal)
                     | Inr db2 \<Rightarrow> reply db2 (StatusMessage ''email verified; you can now sign in'')))))"

definition handleResend :: "'u auth_lib \<Rightarrow> 'u auth_env \<Rightarrow> string option \<Rightarrow> 'u auth_db \<Rightarrow> 'u answer" where
  "handleResend L E body db =
     (case body of
        None \<Rightarrow> reply db (Refuse bad_body)
      | Some raw \<Rightarrow>
          let email = normalizeEmail (al_lower L) raw
          in case EmailIdentity (al_ci L) db email of
               Inr identity \<Rightarrow>
                 mailed (StatusMessage genericEmailAccepted)
                   (if id_EmailVerified identity then ([], db)
                    else sendVerification L E (id_UserID identity) email db)
             | Inl e \<Rightarrow> reply db (StatusMessage genericEmailAccepted))"

definition decoy_refusal :: "'u auth_lib \<Rightarrow> auth_config \<Rightarrow> 'u auth_env \<Rightarrow> string \<Rightarrow> auth_error" where
  "decoy_refusal L C E pw =
     (case verifyPassword L E pw (ac_dummyHash C) of Inl e \<Rightarrow> e | Inr _ \<Rightarrow> apiErrInvalidCredentials)"

definition start_session ::
  "'u auth_lib \<Rightarrow> auth_config \<Rightarrow> 'u auth_env \<Rightarrow> 'u \<Rightarrow> 'u auth_db \<Rightarrow> 'u answer" where
  "start_session L C E uid db =
     (case issueSession L C E uid db of
        None \<Rightarrow> reply db (Refuse apiErrInternal)
      | Some (token, db1) \<Rightarrow>
          (case GetUserByID db1 uid of
             Inl e \<Rightarrow> (reply db1 (Refuse apiErrInternal))\<lparr>an_cookie := Some token\<rparr>
           | Inr user \<Rightarrow> (reply db1 (UserReply (toUserView user)))\<lparr>an_cookie := Some token\<rparr>))"

definition handleLogin ::
  "'u auth_lib \<Rightarrow> auth_config \<Rightarrow> 'u auth_env \<Rightarrow> (string \<times> string) option \<Rightarrow> 'u auth_db \<Rightarrow> 'u answer" where
  "handleLogin L C E body db =
     (case body of
        None \<Rightarrow> reply db (Refuse bad_body)
      | Some (rawEmail, pw) \<Rightarrow>
          (case EmailIdentity (al_ci L) db (normalizeEmail (al_lower L) rawEmail) of
             Inl e \<Rightarrow> reply db (Refuse (decoy_refusal L C E pw))
           | Inr identity \<Rightarrow>
               (case Credential db (id_UserID identity) of
                  Inl e \<Rightarrow> reply db (Refuse (decoy_refusal L C E pw))
                | Inr hash \<Rightarrow>
                    (case verifyPassword L E pw hash of
                       Inl e \<Rightarrow> reply db (Refuse e)
                     | Inr ok \<Rightarrow>
                         if \<not> ok then reply db (Refuse apiErrInvalidCredentials)
                         else if \<not> id_EmailVerified identity then reply db (Refuse apiErrEmailNotVerified)
                         else start_session L C E (id_UserID identity) db))))"

section \<open>Password reset\<close>

definition handleResetRequest :: "'u auth_lib \<Rightarrow> 'u auth_env \<Rightarrow> string option \<Rightarrow> 'u auth_db \<Rightarrow> 'u answer" where
  "handleResetRequest L E body db =
     (case body of
        None \<Rightarrow> reply db (Refuse bad_body)
      | Some raw \<Rightarrow>
          let email = normalizeEmail (al_lower L) raw
          in case EmailIdentity (al_ci L) db email of
               Inr identity \<Rightarrow>
                 mailed (StatusMessage genericEmailAccepted) (sendPasswordReset L E (id_UserID identity) email db)
             | Inl e \<Rightarrow> reply db (StatusMessage genericEmailAccepted))"

text \<open>The steps after the token is spent: hash, store, verify the address, revoke every session.\<close>

definition complete_reset ::
  "'u auth_lib \<Rightarrow> 'u auth_env \<Rightarrow> 'u \<Rightarrow> string \<Rightarrow> 'u auth_db \<Rightarrow> 'u answer" where
  "complete_reset L E uid pw db =
     (case hashPassword L E pw of
        Inl e \<Rightarrow> reply db (Refuse e)
      | Inr newHash \<Rightarrow>
          (case UpdateCredential uid newHash db of
             Inl e \<Rightarrow> reply db (Refuse apiErrInternal)
           | Inr db1 \<Rightarrow>
               (case MarkEmailVerified (al_ci L) uid db1 of
                  Inl ErrEmailOwnedByOtherUser \<Rightarrow> reply db1 (Refuse apiErrAccountExistsUseLinking)
                | Inl e \<Rightarrow> reply db1 (Refuse apiErrInternal)
                | Inr db2 \<Rightarrow>
                    reply (DeleteUserSessions uid db2)
                      (StatusMessage ''password updated; sign in with your new password''))))"

definition handleResetConfirm ::
  "'u auth_lib \<Rightarrow> 'u auth_env \<Rightarrow> (string \<times> string) option \<Rightarrow> 'u auth_db \<Rightarrow> 'u answer" where
  "handleResetConfirm L E body db =
     (case body of
        None \<Rightarrow> reply db (Refuse bad_body)
      | Some (token, newPassword) \<Rightarrow>
          (case validatePassword newPassword of
             Some e \<Rightarrow> reply db (Refuse e)
           | None \<Rightarrow>
               (case hashToken (al_sha256 L) token of
                  None \<Rightarrow> reply db (Refuse apiErrInvalidToken)
                | Some hash \<Rightarrow>
                    (case UseEmailToken (ae_db_now E) hash PurposeReset db of
                       Inl e \<Rightarrow> reply db (Refuse apiErrInvalidToken)
                     | Inr (tok, db1) \<Rightarrow> complete_reset L E (et_UserID tok) newPassword db1))))"

section \<open>Account management\<close>

text \<open>These handlers sit behind \<open>RequireAuth\<close>; \<open>caller\<close> is the user it attached.\<close>

definition handleAddEmail ::
  "'u auth_lib \<Rightarrow> 'u auth_env \<Rightarrow> 'u User \<Rightarrow> string option \<Rightarrow> 'u auth_db \<Rightarrow> 'u answer" where
  "handleAddEmail L E caller body db =
     (case body of
        None \<Rightarrow> reply db (Refuse bad_body)
      | Some raw \<Rightarrow>
          let email = normalizeEmail (al_lower L) raw
          in if \<not> validateEmail email then reply db (Refuse (apiErrBadRequest ''a valid email is required''))
             else if list_ex (\<lambda>i. id_Provider i = ProviderEmail) (IdentitiesByUser db (u_ID caller))
               then reply db (Refuse apiErrEmailAlreadySet)
             else case LinkIdentity (al_ci L) (u_ID caller)
                         \<lparr>ip_Provider = ProviderEmail, ip_Subject = email, ip_Email = email, ip_EmailVerified = False\<rparr> db of
               Inl e \<Rightarrow>
                 reply db (Refuse (if e = ErrIdentityExists \<or> e = ErrEmailOwnedByOtherUser
                                   then apiErrAccountExistsUseLinking else apiErrInternal))
             | Inr db' \<Rightarrow>
                 mailed (StatusMessage genericEmailAccepted) (sendVerification L E (u_ID caller) email db'))"

definition handleSetPassword ::
  "'u auth_lib \<Rightarrow> 'u auth_env \<Rightarrow> 'u User \<Rightarrow> string option \<Rightarrow> 'u auth_db \<Rightarrow> 'u answer" where
  "handleSetPassword L E caller body db =
     (case body of
        None \<Rightarrow> reply db (Refuse bad_body)
      | Some pw \<Rightarrow>
          (case validatePassword pw of
             Some e \<Rightarrow> reply db (Refuse e)
           | None \<Rightarrow>
               if \<not> list_ex (\<lambda>i. id_Provider i = ProviderEmail \<and> id_EmailVerified i) (IdentitiesByUser db (u_ID caller))
               then reply db (Refuse apiErrNoVerifiedEmail)
               else (case Credential db (u_ID caller) of
                       Inr _ \<Rightarrow> reply db (Refuse apiErrPasswordAlreadySet)
                     | Inl _ \<Rightarrow>
                         (case hashPassword L E pw of
                            Inl e \<Rightarrow> reply db (Refuse e)
                          | Inr hash \<Rightarrow>
                              (case UpdateCredential (u_ID caller) hash db of
                                 Inl e \<Rightarrow> reply db (Refuse apiErrInternal)
                               | Inr db' \<Rightarrow>
                                   reply db' (StatusMessage ''password set; you can now sign in with email and password''))))))"

text \<open>\<open>restricted\<close> is the moderation lookup's answer, false when it fails.\<close>

definition HandleMe :: "'u User \<Rightarrow> bool \<Rightarrow> 'u auth_db \<Rightarrow> 'u answer" where
  "HandleMe caller restricted db = reply db (UserReply ((toUserView caller)\<lparr>uv_Restricted := restricted\<rparr>))"

definition HandleUpdateSettings ::
  "'u User \<Rightarrow> bool \<Rightarrow> (bool option \<times> bool option) option \<Rightarrow> 'u auth_db \<Rightarrow> 'u answer" where
  "HandleUpdateSettings caller restricted body db =
     (case body of
        None \<Rightarrow> reply db (Refuse bad_body)
      | Some (profile, keyboard) \<Rightarrow>
          if profile = None \<and> keyboard = None then reply db (Refuse (apiErrBadRequest ''no settings to update''))
          else (case UpdateUserSettings (u_ID caller)
                       (case profile of None \<Rightarrow> u_ProfilePublic caller | Some b \<Rightarrow> b)
                       (case keyboard of None \<Rightarrow> u_KeyboardPublic caller | Some b \<Rightarrow> b) db of
                  Inl e \<Rightarrow> reply db (Refuse apiErrInternal)
                | Inr (u, db') \<Rightarrow> HandleMe u restricted db'))"

definition HandleChangeDisplayName ::
  "'u auth_lib \<Rightarrow> 'u auth_env \<Rightarrow> 'u User \<Rightarrow> bool \<Rightarrow> string option \<Rightarrow> 'u auth_db \<Rightarrow> 'u answer" where
  "HandleChangeDisplayName L E caller restricted body db =
     (case body of
        None \<Rightarrow> reply db (Refuse bad_body)
      | Some raw \<Rightarrow>
          let name = TrimSpace raw
          in if \<not> validDisplayName name then reply db (Refuse (apiErrBadRequest name_rule_message))
             else if name = u_DisplayName caller then reply db (Refuse display_name_unchanged)
             else case ChangeDisplayName (al_ci L) (ae_db_now E) (u_ID caller) name db of
               Inl ErrDisplayNameTaken \<Rightarrow> reply db (Refuse apiErrNameTaken)
             | Inl ErrDisplayNameCooldown \<Rightarrow>
                 reply db (Refuse (display_name_cooldown
                   (map_option (\<lambda>t. t + rename_interval) (u_DisplayNameChangedAt caller))))
             | Inl e \<Rightarrow> reply db (Refuse apiErrInternal)
             | Inr (u, db') \<Rightarrow> HandleMe u restricted db')"

definition BootstrapAdmins :: "'u auth_lib \<Rightarrow> string list \<Rightarrow> 'u auth_db \<Rightarrow> nat \<times> 'u auth_db" where
  "BootstrapAdmins L emails db = (if emails = [] then (0, db) else PromoteAdmins (al_ci L) emails db)"

definition Sweep :: "int \<Rightarrow> 'u auth_db \<Rightarrow> 'u auth_db" where
  "Sweep now db = DeleteStaleEmailTokens now (DeleteExpiredSessions now db)"

end
