(* ===== verification/Auth_OAuth.thy ===== *)
theory Auth_OAuth
  imports Auth_Service Token_Bucket
begin

text \<open>
  The OAuth flows (\<open>internal/auth/oauth.go\<close>), the middleware chain (\<open>middleware.go\<close>, \<open>captcha.go\<close>,
  \<open>ratelimit.go\<close>) and the route table (\<open>handler.go\<close>, with the \<open>/me\<close> routes \<open>cmd/server\<close> mounts): every
  request that can change an account, as a step on the database and the limiter.

  The provider is an argument: what exchanging a code under a verifier and fetching the profile yields.
\<close>

section \<open>Flow cookies\<close>

text \<open>A provider without credentials is disabled; the configuration names \<open>(name, client id, client secret)\<close>.\<close>

definition buildProviders :: "auth_config \<Rightarrow> string list" where
  "buildProviders C =
     map fst (filter (\<lambda>(name, cid, secret).
       cid \<noteq> [] \<and> secret \<noteq> [] \<and> (name = ProviderGitHub \<or> name = ProviderGoogle)) (ac_Providers C))"

text \<open>
  Starting a flow sets a random state, a verifier, and, when a signed-in user links a provider, that user's id
  in plain text. The callback reads the three cookies back from the browser.
\<close>

record flow_cookies =
  fc_state :: "string option"
  fc_verifier :: "string option"
  fc_link :: "string option"

definition no_flow :: flow_cookies where
  "no_flow = \<lparr>fc_state = None, fc_verifier = None, fc_link = None\<rparr>"

definition beginOAuth ::
  "'u auth_lib \<Rightarrow> 'u auth_env \<Rightarrow> string \<Rightarrow> 'u option \<Rightarrow> flow_cookies \<Rightarrow> (string \<times> flow_cookies) option" where
  "beginOAuth L E verifier linkUser jar =
     (case newToken (al_sha256 L) (ae_token E) of
        None \<Rightarrow> None
      | Some (state, hash) \<Rightarrow>
          Some (state, \<lparr>fc_state = Some state, fc_verifier = Some verifier,
            fc_link = (case linkUser of
                         None \<Rightarrow> fc_link jar
                       | Some u \<Rightarrow> Some (uuid_String (al_uuid L) u))\<rparr>))"

definition handleOAuthStart ::
  "'u auth_lib \<Rightarrow> auth_config \<Rightarrow> 'u auth_env \<Rightarrow> string \<Rightarrow> string \<Rightarrow> flow_cookies
     \<Rightarrow> (auth_error, string \<times> flow_cookies) result" where
  "handleOAuthStart L C E provider verifier jar =
     (if provider \<notin> set (buildProviders C) then Inl apiErrProviderUnknown
      else case beginOAuth L E verifier None jar of None \<Rightarrow> Inl apiErrInternal | Some started \<Rightarrow> Inr started)"

definition handleLinkStart ::
  "'u auth_lib \<Rightarrow> auth_config \<Rightarrow> 'u auth_env \<Rightarrow> 'u User \<Rightarrow> string \<Rightarrow> string \<Rightarrow> flow_cookies
     \<Rightarrow> (auth_error, string \<times> flow_cookies) result" where
  "handleLinkStart L C E caller provider verifier jar =
     (if provider \<notin> set (buildProviders C) then Inl apiErrProviderUnknown
      else case beginOAuth L E verifier (Some (u_ID caller)) jar of
        None \<Rightarrow> Inl apiErrInternal | Some started \<Rightarrow> Inr started)"

section \<open>The callback\<close>

function create_from ::
  "'u auth_lib \<Rightarrow> 'u auth_env \<Rightarrow> string \<Rightarrow> string \<Rightarrow> oauthUser \<Rightarrow> 'u auth_db \<Rightarrow> nat
     \<Rightarrow> (store_error, 'u User \<times> 'u auth_db) result" where
  "create_from L E base provider info db i =
     (let created = CreateOAuthAccount (al_ci L) (ae_user E) (ae_db_now E)
            \<lparr>oa_DisplayName = suffixedName base i, oa_Provider = provider, oa_Subject = ou_Subject info,
             oa_Email = ou_Email info, oa_EmailVerified = ou_EmailVerified info\<rparr> db
      in if created = Inl ErrDisplayNameTaken \<and> i < maxNameSuffix
         then create_from L E base provider info db (i + 1) else created)"
  by pat_completeness auto
termination by (relation "measure (\<lambda>(L, E, base, provider, info, db, i). maxNameSuffix - i)") auto

declare create_from.simps [simp del]

definition createOAuthAccountWithName ::
  "'u auth_lib \<Rightarrow> 'u auth_env \<Rightarrow> string \<Rightarrow> string \<Rightarrow> oauthUser \<Rightarrow> 'u auth_db
     \<Rightarrow> (store_error, 'u User \<times> 'u auth_db) result" where
  "createOAuthAccountWithName L E base provider info db = create_from L E base provider info db 0"

definition login_redirect ::
  "'u auth_lib \<Rightarrow> auth_config \<Rightarrow> 'u auth_env \<Rightarrow> 'u \<Rightarrow> 'u auth_db \<Rightarrow> 'u answer" where
  "login_redirect L C E uid db =
     (case issueSession L C E uid db of
        None \<Rightarrow> reply db (Refuse apiErrInternal)
      | Some (token, db') \<Rightarrow> (reply db' (RedirectResult []))\<lparr>an_cookie := Some token\<rparr>)"

definition completeLogin ::
  "'u auth_lib \<Rightarrow> auth_config \<Rightarrow> 'u auth_env \<Rightarrow> string \<Rightarrow> oauthUser \<Rightarrow> 'u auth_db \<Rightarrow> 'u answer" where
  "completeLogin L C E provider info db =
     (case IdentityByProviderSubject db provider (ou_Subject info) of
        Inr identity \<Rightarrow> login_redirect L C E (id_UserID identity) db
      | Inl _ \<Rightarrow>
          if ou_Email info \<noteq> [] \<and> ou_EmailVerified info \<and> is_ok (VerifiedIdentityByEmail (al_ci L) db (ou_Email info))
          then reply db (RedirectResult ''account_exists_use_linking'')
          else case createOAuthAccountWithName L E (oauthDisplayName info) provider info db of
            Inl ErrEmailOwnedByOtherUser \<Rightarrow> reply db (RedirectResult ''account_exists_use_linking'')
          | Inl e \<Rightarrow> reply db (Refuse apiErrInternal)
          | Inr (user, db') \<Rightarrow> login_redirect L C E (u_ID user) db')"

definition completeLink ::
  "'u auth_lib \<Rightarrow> string \<Rightarrow> string \<Rightarrow> oauthUser \<Rightarrow> 'u auth_db \<Rightarrow> 'u answer" where
  "completeLink L provider linkUserID info db =
     (case uuid_Parse (al_uuid L) linkUserID of
        None \<Rightarrow> reply db (RedirectResult ''invalid_state'')
      | Some uid \<Rightarrow>
          (case IdentityByProviderSubject db provider (ou_Subject info) of
             Inr _ \<Rightarrow> reply db (RedirectResult ''provider_already_linked'')
           | Inl _ \<Rightarrow>
               (case LinkIdentity (al_ci L) uid \<lparr>ip_Provider = provider, ip_Subject = ou_Subject info,
                       ip_Email = ou_Email info, ip_EmailVerified = ou_EmailVerified info\<rparr> db of
                  Inl ErrEmailOwnedByOtherUser \<Rightarrow> reply db (RedirectResult ''account_exists_use_linking'')
                | Inl e \<Rightarrow> reply db (Refuse apiErrInternal)
                | Inr db' \<Rightarrow> reply db' (RedirectLinked provider))))"

record callback =
  cb_provider :: string
  cb_jar :: flow_cookies
  cb_state :: string
  cb_code :: string

datatype provider_answer = ExchangeFailed | UserInfoFailed | Profile oauthUser

type_synonym oauth_world = "string \<Rightarrow> string \<Rightarrow> string \<Rightarrow> provider_answer"

definition handleOAuthCallback ::
  "'u auth_lib \<Rightarrow> auth_config \<Rightarrow> 'u auth_env \<Rightarrow> oauth_world \<Rightarrow> callback \<Rightarrow> 'u auth_db \<Rightarrow> 'u answer" where
  "handleOAuthCallback L C E W cb db =
     (if cb_provider cb \<notin> set (buildProviders C) then reply db (Refuse apiErrProviderUnknown)
      else if cb_state cb = [] \<or> fc_state (cb_jar cb) \<noteq> Some (cb_state cb)
        then reply db (RedirectResult ''invalid_state'')
      else case fc_verifier (cb_jar cb) of
        None \<Rightarrow> reply db (RedirectResult ''invalid_state'')
      | Some verifier \<Rightarrow>
          if cb_code cb = [] then reply db (RedirectResult ''oauth_denied'')
          else case W (cb_provider cb) (cb_code cb) verifier of
            ExchangeFailed \<Rightarrow> reply db (RedirectResult ''oauth_exchange_failed'')
          | UserInfoFailed \<Rightarrow> reply db (RedirectResult ''oauth_userinfo_failed'')
          | Profile raw \<Rightarrow>
              if ou_Subject raw = [] then reply db (RedirectResult ''oauth_userinfo_failed'')
              else let info = raw\<lparr>ou_Email := normalizeEmail (al_lower L) (ou_Email raw)\<rparr>
                   in case fc_link (cb_jar cb) of
                        None \<Rightarrow> completeLogin L C E (cb_provider cb) info db
                      | Some link \<Rightarrow>
                          if link \<noteq> [] then completeLink L (cb_provider cb) link info db
                          else completeLogin L C E (cb_provider cb) info db)"

section \<open>Middleware\<close>

text \<open>No verifier disables the gate. \<open>probe\<close> is the token field of the body, \<open>None\<close> when the body is too large.\<close>

definition requireCaptcha ::
  "(string \<Rightarrow> string \<Rightarrow> bool) option \<Rightarrow> string \<Rightarrow> string option \<Rightarrow> auth_error option" where
  "requireCaptcha verifier ip probe =
     (case verifier of
        None \<Rightarrow> None
      | Some verify \<Rightarrow>
          (case probe of
             None \<Rightarrow> Some apiErrCaptchaRequired
           | Some raw \<Rightarrow>
               let token = TrimSpace raw
               in if token = [] then Some apiErrCaptchaRequired
                  else if verify token ip then None else Some apiErrCaptchaFailed))"

definition RequireOrigin :: "auth_config \<Rightarrow> bool \<Rightarrow> string \<Rightarrow> auth_error option" where
  "RequireOrigin C safe_method origin =
     (if safe_method \<or> origin = ac_FrontendOrigin C then None else Some apiErrForbiddenOrigin)"

definition rateLimit :: "limiter \<Rightarrow> string \<Rightarrow> int \<Rightarrow> limiter \<times> auth_error option" where
  "rateLimit limr ip now =
     (case limiter_allow limr ip now of (limr', ok) \<Rightarrow> (limr', if ok then None else Some apiErrRateLimited))"

section \<open>Routes\<close>

datatype auth_route =
    PostRegister "registerRequest option"
  | PostResend "string option"
  | PostResetRequest "string option"
  | PostVerify "string option"
  | PostLogin "(string \<times> string) option"
  | PostResetConfirm "(string \<times> string) option"
  | GetCallback callback
  | PostLogout
  | PostAddEmail "string option"
  | PostSetPassword "string option"
  | GetMe bool
  | PatchSettings bool "(bool option \<times> bool option) option"
  | PatchDisplayName bool "string option"

record auth_request =
  ar_route :: auth_route
  ar_ip :: string
  ar_origin :: string
  ar_cookie :: "string option"
  ar_captcha :: "string option"

fun captcha_gated :: "auth_route \<Rightarrow> bool" where
  "captcha_gated (PostRegister _) = True"
| "captcha_gated (PostResend _) = True"
| "captcha_gated (PostResetRequest _) = True"
| "captcha_gated _ = False"

fun safe_method :: "auth_route \<Rightarrow> bool" where
  "safe_method (GetCallback _) = True"
| "safe_method (GetMe _) = True"
| "safe_method _ = False"

text \<open>The \<open>/me\<close> routes are mounted outside the rate-limited subtree.\<close>

fun rate_limited :: "auth_route \<Rightarrow> bool" where
  "rate_limited (GetMe _) = False"
| "rate_limited (PatchSettings _ _) = False"
| "rate_limited (PatchDisplayName _ _) = False"
| "rate_limited _ = True"

fun authenticated_route ::
  "'u auth_lib \<Rightarrow> 'u auth_env \<Rightarrow> auth_route \<Rightarrow> string option \<Rightarrow> ('u User \<Rightarrow> 'u auth_db \<Rightarrow> 'u answer) option" where
  "authenticated_route L E PostLogout cookie = Some (\<lambda>u db. handleLogout L cookie db)"
| "authenticated_route L E (PostAddEmail body) cookie = Some (\<lambda>u db. handleAddEmail L E u body db)"
| "authenticated_route L E (PostSetPassword body) cookie = Some (\<lambda>u db. handleSetPassword L E u body db)"
| "authenticated_route L E (GetMe restricted) cookie = Some (\<lambda>u db. HandleMe u restricted db)"
| "authenticated_route L E (PatchSettings restricted body) cookie =
     Some (\<lambda>u db. HandleUpdateSettings u restricted body db)"
| "authenticated_route L E (PatchDisplayName restricted body) cookie =
     Some (\<lambda>u db. HandleChangeDisplayName L E u restricted body db)"
| "authenticated_route L E _ cookie = None"

fun public_route ::
  "'u auth_lib \<Rightarrow> auth_config \<Rightarrow> 'u auth_env \<Rightarrow> oauth_world \<Rightarrow> auth_route \<Rightarrow> 'u auth_db \<Rightarrow> 'u answer" where
  "public_route L C E W (PostRegister body) db = handleRegister L E body db"
| "public_route L C E W (PostResend body) db = handleResend L E body db"
| "public_route L C E W (PostResetRequest body) db = handleResetRequest L E body db"
| "public_route L C E W (PostVerify body) db = handleVerify L E body db"
| "public_route L C E W (PostLogin body) db = handleLogin L C E body db"
| "public_route L C E W (PostResetConfirm body) db = handleResetConfirm L E body db"
| "public_route L C E W (GetCallback cb) db = handleOAuthCallback L C E W cb db"
| "public_route L C E W _ db = reply db (Refuse apiErrInternal)"

definition RequireAuth ::
  "'u auth_lib \<Rightarrow> auth_config \<Rightarrow> 'u auth_env \<Rightarrow> string option \<Rightarrow> ('u User \<Rightarrow> 'u auth_db \<Rightarrow> 'u answer)
     \<Rightarrow> 'u auth_db \<Rightarrow> 'u answer" where
  "RequireAuth L C E cookie next db =
     (case authenticate L C E cookie db of
        (Inl e, db') \<Rightarrow> reply db' (Refuse e)
      | (Inr user, db') \<Rightarrow> next user db')"

definition route_handler ::
  "'u auth_lib \<Rightarrow> auth_config \<Rightarrow> 'u auth_env \<Rightarrow> oauth_world \<Rightarrow> auth_request \<Rightarrow> 'u auth_db \<Rightarrow> 'u answer" where
  "route_handler L C E W r db =
     (case authenticated_route L E (ar_route r) (ar_cookie r) of
        None \<Rightarrow> public_route L C E W (ar_route r) db
      | Some next \<Rightarrow> RequireAuth L C E (ar_cookie r) next db)"

text \<open>Captcha first, then the limiter, then the origin, then the handler.\<close>

definition AuthRoutes ::
  "'u auth_lib \<Rightarrow> auth_config \<Rightarrow> 'u auth_env \<Rightarrow> oauth_world \<Rightarrow> (string \<Rightarrow> string \<Rightarrow> bool) option
     \<Rightarrow> auth_request \<Rightarrow> limiter \<times> 'u auth_db \<Rightarrow> limiter \<times> 'u answer" where
  "AuthRoutes L C E W verifier r st =
     (case st of (limr, db) \<Rightarrow>
        case (if captcha_gated (ar_route r) then requireCaptcha verifier (ar_ip r) (ar_captcha r) else None) of
          Some e \<Rightarrow> (limr, reply db (Refuse e))
        | None \<Rightarrow>
            (case (if rate_limited (ar_route r) then rateLimit limr (ar_ip r) (ae_now E) else (limr, None)) of
               (limr', Some e) \<Rightarrow> (limr', reply db (Refuse e))
             | (limr', None) \<Rightarrow>
                 (case RequireOrigin C (safe_method (ar_route r)) (ar_origin r) of
                    Some e \<Rightarrow> (limr', reply db (Refuse e))
                  | None \<Rightarrow> (limr', route_handler L C E W r db))))"

end
