(* ===== verification/Auth_Invariant.thy ===== *)
theory Auth_Invariant
  imports Auth_OAuth
begin

text \<open>
  The invariant of the account tables: what the schema's constraints promise together with what only the
  handlers keep (one outstanding email token per user and purpose, an email identity's subject is its
  address, a stored password hash decodes). Every statement keeps it, hence every handler and every request of the route table.
\<close>

section \<open>The invariant\<close>

definition users_ok :: "(string \<Rightarrow> string) \<Rightarrow> 'u User list \<Rightarrow> bool" where
  "users_ok ci us \<longleftrightarrow>
     distinct (map u_ID us) \<and> distinct (map (\<lambda>u. ci (u_DisplayName u)) us) \<and>
     (\<forall>u \<in> set us. display_name_check (u_DisplayName u) \<and> u_Role u \<in> {''player'', ''admin''})"

definition one_owner :: "(string \<Rightarrow> string) \<Rightarrow> 'u Identity list \<Rightarrow> bool" where
  "one_owner ci ids \<longleftrightarrow>
     (\<forall>i \<in> set ids. \<forall>j \<in> set ids. id_EmailVerified i \<longrightarrow> id_EmailVerified j \<longrightarrow> id_Email i \<noteq> None \<longrightarrow>
        map_option ci (id_Email i) = map_option ci (id_Email j) \<longrightarrow> id_UserID i = id_UserID j)"

definition identity_ok :: "(string \<Rightarrow> string) \<Rightarrow> 'u Identity \<Rightarrow> bool" where
  "identity_ok ci i \<longleftrightarrow> identity_check ci i \<and> (id_Provider i = ProviderEmail \<longrightarrow> id_Email i = Some (id_Subject i))"

definition identities_ok :: "(string \<Rightarrow> string) \<Rightarrow> 'u set \<Rightarrow> 'u Identity list \<Rightarrow> bool" where
  "identities_ok ci uids ids \<longleftrightarrow>
     distinct (map (\<lambda>i. (id_Provider i, id_Subject i)) ids) \<and> one_owner ci ids \<and>
     (\<forall>i \<in> set ids. id_UserID i \<in> uids \<and> identity_ok ci i)"

definition credentials_ok :: "'u set \<Rightarrow> ('u \<times> string) list \<Rightarrow> bool" where
  "credentials_ok uids cs \<longleftrightarrow> distinct (map fst cs) \<and> (\<forall>c \<in> set cs. fst c \<in> uids \<and> decodeHash (snd c) \<noteq> None)"

definition sessions_ok :: "'u set \<Rightarrow> 'u Session list \<Rightarrow> bool" where
  "sessions_ok uids ss \<longleftrightarrow>
     distinct (map ss_ID ss) \<and> distinct (map ss_TokenHash ss) \<and> (\<forall>s \<in> set ss. ss_UserID s \<in> uids)"

definition tokens_ok :: "'u set \<Rightarrow> 'u EmailToken list \<Rightarrow> bool" where
  "tokens_ok uids ts \<longleftrightarrow>
     distinct (map et_TokenHash ts) \<and> distinct (map (\<lambda>t. (et_UserID t, et_Purpose t)) ts) \<and>
     (\<forall>t \<in> set ts. et_UserID t \<in> uids)"

definition user_ids :: "'u auth_db \<Rightarrow> 'u set" where
  "user_ids db = set (map u_ID (ad_users db))"

lemma user_ids_frame [simp]:
  "user_ids (db\<lparr>ad_identities := ids\<rparr>) = user_ids db" "user_ids (db\<lparr>ad_credentials := cs\<rparr>) = user_ids db"
  "user_ids (db\<lparr>ad_sessions := ss\<rparr>) = user_ids db" "user_ids (db\<lparr>ad_tokens := ts\<rparr>) = user_ids db"
  by (simp_all add: user_ids_def)

definition auth_ok :: "(string \<Rightarrow> string) \<Rightarrow> 'u auth_db \<Rightarrow> bool" where
  "auth_ok ci db \<longleftrightarrow>
     users_ok ci (ad_users db) \<and> identities_ok ci (user_ids db) (ad_identities db) \<and>
     credentials_ok (user_ids db) (ad_credentials db) \<and> sessions_ok (user_ids db) (ad_sessions db) \<and>
     tokens_ok (user_ids db) (ad_tokens db)"

lemmas auth_ok_defs = auth_ok_def users_ok_def identities_ok_def credentials_ok_def sessions_ok_def tokens_ok_def

lemma user_exists_iff: "user_exists db uid \<longleftrightarrow> uid \<in> user_ids db"
  by (auto simp: user_exists_def user_ids_def list_ex_iff)

section \<open>Statements\<close>

lemma tables_mono:
  assumes "A \<subseteq> B"
  shows "identities_ok ci A ids \<Longrightarrow> identities_ok ci B ids" and "credentials_ok A cs \<Longrightarrow> credentials_ok B cs"
    and "sessions_ok A ss \<Longrightarrow> sessions_ok B ss" and "tokens_ok A ts \<Longrightarrow> tokens_ok B ts"
  using assms by (auto simp: identities_ok_def credentials_ok_def sessions_ok_def tokens_ok_def)

lemma CreateUser_ok:
  assumes "auth_ok ci db" and "CreateUser ci uid now name db = Inr (u, db')"
  shows "auth_ok ci db' \<and> u_ID u = uid \<and> user_ids db' = insert uid (user_ids db) \<and>
    ad_identities db' = ad_identities db \<and> ad_credentials db' = ad_credentials db"
proof -
  let ?u = "\<lparr>u_ID = uid, u_DisplayName = name, u_CreatedAt = now, u_ProfilePublic = True,
    u_KeyboardPublic = False, u_Role = ''player'', u_DisplayNameChangedAt = None\<rparr>"
  have u: "u = ?u" "db' = db\<lparr>ad_users := ad_users db @ [?u]\<rparr>" and "display_name_check name"
    and "\<forall>v \<in> set (ad_users db). u_ID v \<noteq> uid" "\<forall>v \<in> set (ad_users db). ci (u_DisplayName v) \<noteq> ci name"
    using assms(2) by (auto simp: CreateUser_def name_taken_def list_ex_iff Let_def split: if_splits)
  moreover from this have "user_ids db' = insert uid (user_ids db)" by (simp add: user_ids_def)
  moreover have "users_ok ci (ad_users db @ [?u])"
    using assms(1) calculation by (force simp: auth_ok_def users_ok_def)
  ultimately show ?thesis
    using assms(1) tables_mono [OF subset_insertI [of "user_ids db" uid]] by (auto simp: auth_ok_def)
qed

lemma one_owner_insert:
  assumes "one_owner ci ids" and "\<not> (id_EmailVerified i \<and> email_owned_elsewhere ci ids (id_UserID i) (id_Email i))"
  shows "one_owner ci (ids @ [i])"
proof -
  have new: "id_UserID b = id_UserID i"
    if "b \<in> set ids" "id_EmailVerified b" "id_EmailVerified i" "id_Email i \<noteq> None"
      "map_option ci (id_Email b) = map_option ci (id_Email i)" for b
    using assms(2) that by (cases "id_Email i") (auto simp: email_owned_elsewhere_def list_ex_iff)
  show ?thesis
    unfolding one_owner_def
  proof (intro ballI impI)
    fix a b
    assume ab: "a \<in> set (ids @ [i])" "b \<in> set (ids @ [i])" "id_EmailVerified a" "id_EmailVerified b"
      "id_Email a \<noteq> None" "map_option ci (id_Email a) = map_option ci (id_Email b)"
    then have "id_Email b \<noteq> None" by (cases "id_Email b") auto
    show "id_UserID a = id_UserID b"
    proof (cases "a = i \<or> b = i")
      case True
      then show ?thesis
        using new [of a] new [of b] ab \<open>id_Email b \<noteq> None\<close> by (elim disjE) (simp_all, metis+)
    next
      case False
      then have "a \<in> set ids" "b \<in> set ids" using ab by simp_all
      then show ?thesis using assms(1) ab(3-6) unfolding one_owner_def by blast
    qed
  qed
qed

lemma CreateIdentity_ok:
  assumes "auth_ok ci db" and "CreateIdentity ci i db = Inr db'"
    and "id_Provider i = ProviderEmail \<Longrightarrow> id_Email i = Some (id_Subject i)"
  shows "auth_ok ci db'"
  using assms one_owner_insert [of ci "ad_identities db" i]
  by (auto simp: CreateIdentity_def auth_ok_def identities_ok_def identity_exists_def list_ex_iff user_exists_iff identity_ok_def
      split: if_splits) blast+

lemma MarkEmailVerified_ok:
  assumes "auth_ok ci db" and "MarkEmailVerified ci uid db = Inr db'"
  shows "auth_ok ci db'"
proof -
  let ?own = "\<lambda>i. id_UserID i = uid \<and> id_Provider i = ProviderEmail"
  let ?f = "\<lambda>i. if ?own i then i\<lparr>id_EmailVerified := True\<rparr> else i"
  have db': "db' = db\<lparr>ad_identities := map ?f (ad_identities db)\<rparr>"
    and free: "\<forall>i \<in> set (ad_identities db). ?own i \<longrightarrow> \<not> email_owned_elsewhere ci (ad_identities db) uid (id_Email i)"
    using assms(2) by (auto simp: MarkEmailVerified_def Let_def list_ex_iff split: if_splits)
  have same: "id_Provider (?f i) = id_Provider i" "id_Subject (?f i) = id_Subject i" "id_UserID (?f i) = id_UserID i"
    "id_Email (?f i) = id_Email i" for i by simp_all
  have "one_owner ci (map ?f (ad_identities db))"
  proof -
    have "id_UserID i = id_UserID j"
      if ij: "i \<in> set (ad_identities db)" "j \<in> set (ad_identities db)" "id_EmailVerified (?f i)" "id_EmailVerified (?f j)"
        "id_Email i \<noteq> None" "map_option ci (id_Email i) = map_option ci (id_Email j)" for i j
    proof (cases "?own i \<or> ?own j")
      case True
      then show ?thesis
        using free ij by (fastforce simp: email_owned_elsewhere_def list_ex_iff split: option.splits if_splits)
    next
      case False
      then have "id_EmailVerified i" "id_EmailVerified j" using ij(3,4) by (auto split: if_splits)
      then show ?thesis using assms(1) ij unfolding auth_ok_def identities_ok_def one_owner_def by blast
    qed
    then show ?thesis unfolding one_owner_def by (auto simp only: set_map same image_iff ball_simps)
  qed
  then show ?thesis
    using assms(1) by (auto simp: db' auth_ok_def identities_ok_def comp_def same identity_ok_def identity_check_def)
qed

lemma UpsertCredential_ok:
  assumes "auth_ok ci db" and "UpsertCredential uid hash db = Inr db'" and "decodeHash hash \<noteq> None"
  shows "auth_ok ci db'"
proof -
  have "credentials_ok (user_ids db) ((uid, hash) # filter (\<lambda>(v, h). v \<noteq> uid) (ad_credentials db))"
    if "uid \<in> user_ids db"
    using assms(1,3) that by (fastforce simp: auth_ok_def credentials_ok_def distinct_map_filter)
  then show ?thesis
    using assms by (auto simp: UpsertCredential_def auth_ok_def user_exists_iff split: if_splits)
qed

lemma CreateSession_ok:
  assumes "auth_ok ci db" and "CreateSession sid now hash uid expires db = Inr db'"
  shows "auth_ok ci db'"
  using assms by (auto simp: CreateSession_def auth_ok_def sessions_ok_def list_ex_iff user_exists_iff split: if_splits)

lemma CreateEmailToken_ok:
  assumes "auth_ok ci db" and "CreateEmailToken uid purpose hash expires db = Inr db'"
    and "(uid, purpose) \<notin> (\<lambda>t. (et_UserID t, et_Purpose t)) ` set (ad_tokens db)"
  shows "auth_ok ci db'"
  using assms by (auto simp: CreateEmailToken_def auth_ok_def tokens_ok_def list_ex_iff user_exists_iff split: if_splits)

lemma filtered_tables_ok:
  assumes "auth_ok ci db"
  shows "auth_ok ci (db\<lparr>ad_sessions := filter P (ad_sessions db)\<rparr>)"
    and "auth_ok ci (db\<lparr>ad_tokens := filter Q (ad_tokens db)\<rparr>)"
  using assms by (auto simp: auth_ok_def sessions_ok_def tokens_ok_def distinct_map_filter)

lemma TouchSession_ok: "auth_ok ci db \<Longrightarrow> auth_ok ci (TouchSession now sid expires db)"
  by (auto simp: TouchSession_def auth_ok_def sessions_ok_def comp_def if_distrib cong: if_cong)

lemma UseEmailToken_ok:
  assumes "auth_ok ci db" and "UseEmailToken now hash purpose db = Inr (t, db')"
  shows "auth_ok ci db'"
  using assms by (auto simp: UseEmailToken_def auth_ok_def tokens_ok_def comp_def if_distrib cong: if_cong split: option.splits)

lemma users_replaced:
  assumes "auth_ok ci db" and "map u_ID us = map u_ID (ad_users db)" and "users_ok ci us"
  shows "auth_ok ci (db\<lparr>ad_users := us\<rparr>)"
proof -
  have "user_ids (db\<lparr>ad_users := us\<rparr>) = user_ids db"
    unfolding user_ids_def by (simp add: assms(2) del: set_map)
  then show ?thesis using assms by (simp add: auth_ok_def)
qed

lemma update_user_ok:
  assumes "auth_ok ci db"
    and "\<And>u. u_ID (f u) = u_ID u \<and> u_DisplayName (f u) = u_DisplayName u \<and> u_Role (f u) = u_Role u"
  shows "auth_ok ci (update_user uid f db)"
proof -
  let ?us = "map (\<lambda>u. if u_ID u = uid then f u else u) (ad_users db)"
  have "map (\<lambda>u. ci (u_DisplayName u)) ?us = map (\<lambda>u. ci (u_DisplayName u)) (ad_users db)"
    and ids: "map u_ID ?us = map u_ID (ad_users db)"
    using assms(2) by simp_all
  moreover have "\<forall>u \<in> set ?us. display_name_check (u_DisplayName u) \<and> u_Role u \<in> {''player'', ''admin''}"
    using assms by (auto simp: auth_ok_def users_ok_def)
  ultimately have "users_ok ci ?us" using assms(1) unfolding auth_ok_def users_ok_def by (simp del: map_map set_map)
  then show ?thesis using users_replaced [OF assms(1) ids] by (simp add: update_user_def)
qed

lemma GetUserByID_Inr: "GetUserByID db uid = Inr u \<Longrightarrow> u \<in> set (ad_users db) \<and> u_ID u = uid"
  by (auto simp: GetUserByID_def dest: find_first_Some split: option.splits)

lemma UpdateUserSettings_ok:
  assumes "auth_ok ci db" and "UpdateUserSettings uid profile keyboard db = Inr (u, db')"
  shows "auth_ok ci db'"
  using assms by (auto simp: UpdateUserSettings_def Let_def intro!: update_user_ok split: sum.splits)

lemma ChangeDisplayName_ok:
  assumes "auth_ok ci db" and "ChangeDisplayName ci now uid name db = Inr (u', db')"
  shows "auth_ok ci db'"
proof -
  obtain u where u: "u \<in> set (ad_users db)" "u_ID u = uid"
    and u': "u' = u\<lparr>u_DisplayName := name, u_DisplayNameChangedAt := Some now\<rparr>"
    and db': "db' = update_user uid (\<lambda>_. u') db" and name: "display_name_check name"
    and free: "\<forall>v \<in> set (ad_users db). u_ID v \<noteq> uid \<longrightarrow> ci (u_DisplayName v) \<noteq> ci name"
    using assms(2) GetUserByID_Inr
    by (fastforce simp: ChangeDisplayName_def name_taken_def list_ex_iff Let_def split: sum.splits if_splits)
  let ?f = "\<lambda>v. if u_ID v = uid then u' else v"
  have ids: "map u_ID (map ?f (ad_users db)) = map u_ID (ad_users db)" using u by (simp add: u')
  have "inj_on (\<lambda>v. ci (u_DisplayName v)) (set (ad_users db))" "distinct (ad_users db)"
    using assms(1) by (simp_all add: auth_ok_def users_ok_def distinct_map)
  moreover have "inj_on u_ID (set (ad_users db))" using assms(1) by (simp add: auth_ok_def users_ok_def distinct_map)
  ultimately have "inj_on (\<lambda>v. ci (u_DisplayName (?f v))) (set (ad_users db))"
    using free by (auto simp: inj_on_def u' dest: sym)
  then have "distinct (map (\<lambda>v. ci (u_DisplayName v)) (map ?f (ad_users db)))"
    using \<open>distinct (ad_users db)\<close> by (simp add: distinct_map comp_def)
  moreover have "\<forall>v \<in> set (map ?f (ad_users db)). display_name_check (u_DisplayName v) \<and> u_Role v \<in> {''player'', ''admin''}"
    using assms(1) name u(1) by (auto simp: u' auth_ok_def users_ok_def)
  ultimately have "users_ok ci (map ?f (ad_users db))"
    using assms(1) ids unfolding auth_ok_def users_ok_def by (simp del: map_map set_map)
  then show ?thesis using users_replaced [OF assms(1) ids] by (simp add: db' update_user_def)
qed

lemma PromoteAdmins_ok: "auth_ok ci db \<Longrightarrow> auth_ok ci (snd (PromoteAdmins ci emails db))"
proof -
  let ?picked = "\<lambda>u. u_Role u \<noteq> ''admin'' \<and>
    list_ex (\<lambda>i. id_UserID i = u_ID u \<and> id_EmailVerified i \<and>
      list_ex (\<lambda>e. map_option ci (id_Email i) = Some (ci e)) emails) (ad_identities db)"
  let ?us = "map (\<lambda>u. if ?picked u then u\<lparr>u_Role := ''admin''\<rparr> else u) (ad_users db)"
  assume ok: "auth_ok ci db"
  have ids: "map u_ID ?us = map u_ID (ad_users db)" by simp
  have "map (\<lambda>u. ci (u_DisplayName u)) ?us = map (\<lambda>u. ci (u_DisplayName u)) (ad_users db)" by simp
  moreover have "\<forall>v \<in> set ?us. display_name_check (u_DisplayName v) \<and> u_Role v \<in> {''player'', ''admin''}"
    using ok by (auto simp: auth_ok_def users_ok_def)
  ultimately have "users_ok ci ?us" using ok ids unfolding auth_ok_def users_ok_def by (simp del: map_map set_map)
  then show ?thesis using users_replaced [OF ok ids] by (simp add: PromoteAdmins_def Let_def)
qed

section \<open>Handlers\<close>

lemma CreateEmailAccount_ok:
  assumes "auth_ok ci db" and "CreateEmailAccount ci uid now p db = Inr (u, db')" and "ea_Email p \<noteq> []"
    and "decodeHash (ea_PasswordHash p) \<noteq> None"
  shows "auth_ok ci db' \<and> u_ID u = uid"
proof -
  let ?i = "\<lparr>id_UserID = uid, id_Provider = ProviderEmail, id_Subject = ea_Email p,
    id_Email = emailPtr (ea_Email p), id_EmailVerified = False\<rparr>"
  obtain db1 db2 where 1: "CreateUser ci uid now (ea_DisplayName p) db = Inr (u, db1)"
    and 2: "CreateIdentity ci ?i db1 = Inr db2" and 3: "UpsertCredential uid (ea_PasswordHash p) db2 = Inr db'"
    using assms(2) by (auto simp: CreateEmailAccount_def split: sum.splits)
  have "auth_ok ci db1" "u_ID u = uid" using CreateUser_ok [OF assms(1) 1] by simp_all
  moreover from this(1) have "auth_ok ci db2" by (rule CreateIdentity_ok [OF _ 2]) (simp add: emailPtr_def assms(3))
  ultimately show ?thesis using UpsertCredential_ok [OF _ 3 assms(4)] by blast
qed

lemma CreateOAuthAccount_ok:
  assumes "auth_ok ci db" and "CreateOAuthAccount ci uid now p db = Inr (u, db')" and "oa_Provider p \<noteq> ProviderEmail"
  shows "auth_ok ci db' \<and> u_ID u = uid"
proof -
  let ?i = "\<lparr>id_UserID = uid, id_Provider = oa_Provider p, id_Subject = oa_Subject p,
    id_Email = emailPtr (oa_Email p), id_EmailVerified = oa_EmailVerified p\<rparr>"
  obtain db1 where 1: "CreateUser ci uid now (oa_DisplayName p) db = Inr (u, db1)"
    and 2: "CreateIdentity ci ?i db1 = Inr db'"
    using assms(2) by (auto simp: CreateOAuthAccount_def split: sum.splits)
  have "auth_ok ci db1" "u_ID u = uid" using CreateUser_ok [OF assms(1) 1] by simp_all
  then show ?thesis using CreateIdentity_ok [OF _ 2] assms(3) by simp
qed

lemma deleted_ok:
  assumes "auth_ok ci db"
  shows "auth_ok ci (DeleteSession hash db)" and "auth_ok ci (DeleteUserSessions uid db)"
    and "auth_ok ci (DeleteExpiredSessions now db)" and "auth_ok ci (DeleteUserTokens uid purpose db)"
    and "auth_ok ci (DeleteStaleEmailTokens now db)"
  using filtered_tables_ok [OF assms]
  by (simp_all add: DeleteSession_def DeleteUserSessions_def DeleteExpiredSessions_def DeleteUserTokens_def
      DeleteStaleEmailTokens_def)

lemma Sweep_ok: "auth_ok ci db \<Longrightarrow> auth_ok ci (Sweep now db)"
  by (simp add: Sweep_def deleted_ok)

lemma issueEmailToken_ok:
  assumes "auth_ok (al_ci L) db"
  shows "auth_ok (al_ci L) (snd (issueEmailToken L E uid purpose ttl db))"
proof -
  let ?db1 = "DeleteUserTokens uid purpose db"
  have "(uid, purpose) \<notin> (\<lambda>t. (et_UserID t, et_Purpose t)) ` set (ad_tokens ?db1)"
    by (auto simp: DeleteUserTokens_def)
  with deleted_ok(4) [OF assms, of uid purpose] show ?thesis
    by (auto simp: issueEmailToken_def Let_def dest: CreateEmailToken_ok split: option.splits sum.splits)
qed

lemma send_token_ok:
  assumes "auth_ok (al_ci L) db"
  shows "auth_ok (al_ci L) (snd (send_token L E uid purpose ttl email db))"
  using issueEmailToken_ok [OF assms, of E uid purpose ttl]
  by (auto simp: send_token_def split: prod.splits option.splits)

lemma issueSession_ok:
  assumes "auth_ok ci db" and "issueSession L C E uid db = Some (token, db')"
  shows "auth_ok ci db'"
  using assms by (auto simp: issueSession_def dest: CreateSession_ok split: option.splits sum.splits)

lemma authenticate_ok:
  assumes "auth_ok ci db"
  shows "auth_ok ci (snd (authenticate L C E cookie db))"
  using assms
  by (auto simp: authenticate_def Let_def deleted_ok TouchSession_ok split: option.splits sum.splits)

lemmas answer_simps = reply_def mailed_def sendVerification_def sendPasswordReset_def

lemma email_nonempty: "validateEmail email \<Longrightarrow> email \<noteq> []"
  by (auto simp: validateEmail_def)

lemma hashPassword_decodes: "hashPassword L E pw = Inr h \<Longrightarrow> decodeHash h \<noteq> None"
proof -
  assume "hashPassword L E pw = Inr h"
  then obtain s where "HashPassword (al_argon L) (Some s) pw = Some h"
    by (auto simp: hashPassword_def HashPassword_def split: if_splits option.splits)
  then show ?thesis unfolding HashPassword_text option.inject using decode_hashed by (metis option.distinct(1))
qed

lemma handleRegister_ok:
  assumes "auth_ok (al_ci L) db"
  shows "auth_ok (al_ci L) (an_db (handleRegister L E body db))"
proof -
  have created: "auth_ok (al_ci L) (an_db (create_registered L E name email hash db))"
    if "validateEmail email" "hashPassword L E pw = Inr hash" for name email pw hash
    using assms CreateEmailAccount_ok [OF assms] email_nonempty [OF that(1)] hashPassword_decodes [OF that(2)]
    by (auto simp: create_registered_def answer_simps intro: send_token_ok split: sum.splits store_error.splits)
  show ?thesis
    using assms by (auto simp: handleRegister_def answer_simps Let_def intro: created split: option.splits sum.splits)
qed

lemma handleVerify_ok:
  assumes "auth_ok (al_ci L) db"
  shows "auth_ok (al_ci L) (an_db (handleVerify L E body db))"
  using assms
  by (auto simp: handleVerify_def answer_simps intro: UseEmailToken_ok MarkEmailVerified_ok
      split: option.splits sum.splits store_error.splits)

lemma handleResend_ok:
  assumes "auth_ok (al_ci L) db"
  shows "auth_ok (al_ci L) (an_db (handleResend L E body db))"
  using assms by (auto simp: handleResend_def answer_simps Let_def send_token_ok split: option.splits sum.splits)

lemma start_session_ok:
  assumes "auth_ok ci db"
  shows "auth_ok ci (an_db (start_session L C E uid db))"
  using assms by (auto simp: start_session_def answer_simps dest: issueSession_ok split: option.splits sum.splits)

lemma handleLogin_ok:
  assumes "auth_ok (al_ci L) db"
  shows "auth_ok (al_ci L) (an_db (handleLogin L C E body db))"
  using assms start_session_ok [OF assms]
  by (auto simp: handleLogin_def reply_def split: option.splits sum.splits)

lemma handleResetRequest_ok:
  assumes "auth_ok (al_ci L) db"
  shows "auth_ok (al_ci L) (an_db (handleResetRequest L E body db))"
  using assms by (auto simp: handleResetRequest_def answer_simps Let_def send_token_ok split: option.splits sum.splits)

lemma handleResetConfirm_ok:
  assumes "auth_ok (al_ci L) db"
  shows "auth_ok (al_ci L) (an_db (handleResetConfirm L E body db))"
proof -
  have "auth_ok (al_ci L) (an_db (complete_reset L E uid pw db1))" if "auth_ok (al_ci L) db1" for uid pw db1
    using that
    by (auto simp: complete_reset_def UpdateCredential_def reply_def intro!: deleted_ok
        intro: UpsertCredential_ok [OF _ _ hashPassword_decodes] MarkEmailVerified_ok split: sum.splits store_error.splits)
  then show ?thesis
    using assms by (auto simp: handleResetConfirm_def reply_def dest: UseEmailToken_ok split: option.splits sum.splits)
qed

lemma handleLogout_ok: "auth_ok ci db \<Longrightarrow> auth_ok ci (an_db (handleLogout L cookie db))"
  by (auto simp: handleLogout_def reply_def Let_def deleted_ok split: option.splits)

lemma handleAddEmail_ok:
  assumes "auth_ok (al_ci L) db"
  shows "auth_ok (al_ci L) (an_db (handleAddEmail L E caller body db))"
proof -
  have "auth_ok (al_ci L) db'" if "email \<noteq> []" and "LinkIdentity (al_ci L) uid
      \<lparr>ip_Provider = ProviderEmail, ip_Subject = email, ip_Email = email, ip_EmailVerified = False\<rparr> db = Inr db'"
    for uid email db'
    using CreateIdentity_ok [OF assms] that by (auto simp: LinkIdentity_def emailPtr_def)
  then show ?thesis
    using assms email_nonempty
    by (auto simp: handleAddEmail_def answer_simps Let_def intro!: send_token_ok split: option.splits sum.splits)
qed

lemma handleSetPassword_ok:
  assumes "auth_ok (al_ci L) db"
  shows "auth_ok (al_ci L) (an_db (handleSetPassword L E caller body db))"
  using assms
  by (auto simp: handleSetPassword_def UpdateCredential_def reply_def intro: UpsertCredential_ok [OF _ _ hashPassword_decodes]
      split: option.splits sum.splits)

lemma settings_ok:
  assumes "auth_ok (al_ci L) db"
  shows "auth_ok (al_ci L) (an_db (HandleUpdateSettings caller restricted body db))"
    and "auth_ok (al_ci L) (an_db (HandleChangeDisplayName L E caller restricted name db))"
    and "auth_ok (al_ci L) (an_db (HandleMe caller restricted db))"
  using assms
  by (auto simp: HandleUpdateSettings_def HandleChangeDisplayName_def HandleMe_def reply_def Let_def
      dest: UpdateUserSettings_ok ChangeDisplayName_ok split: option.splits sum.splits store_error.splits prod.splits)

lemma provider_not_email: "provider \<in> set (buildProviders C) \<Longrightarrow> provider \<noteq> ProviderEmail"
  by (auto simp: buildProviders_def ProviderEmail_def ProviderGitHub_def ProviderGoogle_def)

lemma create_from_ok:
  assumes "auth_ok (al_ci L) db" and "provider \<noteq> ProviderEmail" and "create_from L E base provider info db i = Inr (u, db')"
  shows "auth_ok (al_ci L) db' \<and> u_ID u = ae_user E"
  using assms
proof (induction L E base provider info db i rule: create_from.induct)
  case (1 L E base provider info db i)
  let ?created = "CreateOAuthAccount (al_ci L) (ae_user E) (ae_db_now E)
    \<lparr>oa_DisplayName = suffixedName base i, oa_Provider = provider, oa_Subject = ou_Subject info,
     oa_Email = ou_Email info, oa_EmailVerified = ou_EmailVerified info\<rparr> db"
  show ?case
  proof (cases "?created = Inl ErrDisplayNameTaken \<and> i < maxNameSuffix")
    case True
    then show ?thesis using 1 by (simp add: create_from.simps [of L E base provider info db i] Let_def)
  next
    case False
    then have "?created = Inr (u, db')"
      using "1.prems"(3) by (simp add: create_from.simps [of L E base provider info db i] Let_def split: if_splits)
    from CreateOAuthAccount_ok [OF "1.prems"(1) this] "1.prems"(2) show ?thesis by simp
  qed
qed

lemma login_redirect_ok:
  assumes "auth_ok ci db"
  shows "auth_ok ci (an_db (login_redirect L C E uid db))"
  using assms by (auto simp: login_redirect_def reply_def dest: issueSession_ok split: option.splits)

lemma completeLogin_ok:
  assumes "auth_ok (al_ci L) db" and "provider \<noteq> ProviderEmail"
  shows "auth_ok (al_ci L) (an_db (completeLogin L C E provider info db))"
proof -
  have "auth_ok (al_ci L) (an_db (login_redirect L C E v db'))"
    if "createOAuthAccountWithName L E base provider info db = Inr (u, db')" for base u db' v
    using create_from_ok [OF assms, of E base info 0 u db'] that
    by (simp add: createOAuthAccountWithName_def login_redirect_ok)
  then show ?thesis
    using assms(1) login_redirect_ok [OF assms(1)]
    by (auto simp: completeLogin_def reply_def split: sum.splits store_error.splits)
qed

lemma completeLink_ok:
  assumes "auth_ok (al_ci L) db" and "provider \<noteq> ProviderEmail"
  shows "auth_ok (al_ci L) (an_db (completeLink L provider link info db))"
proof -
  have "auth_ok (al_ci L) db'" if "LinkIdentity (al_ci L) uid
      \<lparr>ip_Provider = provider, ip_Subject = subject, ip_Email = email, ip_EmailVerified = verified\<rparr> db = Inr db'"
    for uid subject email verified db'
    using assms(2) CreateIdentity_ok [OF assms(1) that [unfolded LinkIdentity_def, simplified]] by simp
  then show ?thesis
    using assms(1) by (auto simp: completeLink_def reply_def split: option.splits sum.splits store_error.splits)
qed

lemma handleOAuthCallback_ok:
  assumes "auth_ok (al_ci L) db"
  shows "auth_ok (al_ci L) (an_db (handleOAuthCallback L C E W cb db))"
proof (cases "cb_provider cb \<in> set (buildProviders C)")
  case True
  note steps = completeLogin_ok [OF assms provider_not_email [OF True]] completeLink_ok [OF assms provider_not_email [OF True]]
  show ?thesis
    using assms steps by (simp add: handleOAuthCallback_def reply_def Let_def split: option.split provider_answer.split)
next
  case False
  then show ?thesis using assms by (simp add: handleOAuthCallback_def reply_def)
qed

section \<open>Requests\<close>

lemma route_handler_ok:
  assumes "auth_ok (al_ci L) db"
  shows "auth_ok (al_ci L) (an_db (route_handler L C E W r db))"
proof (cases "authenticated_route L E (ar_route r) (ar_cookie r)")
  case None
  then show ?thesis
    using assms
    by (cases "ar_route r")
      (simp_all add: route_handler_def handleRegister_ok handleVerify_ok handleResend_ok handleLogin_ok
        handleResetRequest_ok handleResetConfirm_ok handleOAuthCallback_ok)
next
  case (Some handler)
  have "auth_ok (al_ci L) (an_db (handler u db'))" if "auth_ok (al_ci L) db'" for u db'
    using Some that
    by (cases "ar_route r")
      (auto simp: handleLogout_ok handleAddEmail_ok handleSetPassword_ok settings_ok)
  then show ?thesis
    using authenticate_ok [OF assms, of L C E "ar_cookie r"] Some
    by (auto simp: route_handler_def RequireAuth_def reply_def split: prod.splits sum.splits)
qed

lemma AuthRoutes_ok:
  assumes "auth_ok (al_ci L) db"
  shows "auth_ok (al_ci L) (an_db (snd (AuthRoutes L C E W verifier r (limr, db))))"
  using assms route_handler_ok [OF assms]
  by (simp add: AuthRoutes_def reply_def split: option.split prod.split)

text \<open>
  A history of the service: requests of anybody, the startup promotion and the janitor, each under an
  environment of its own.
\<close>

inductive auth_step :: "'u auth_lib \<Rightarrow> auth_config \<Rightarrow> limiter \<times> 'u auth_db \<Rightarrow> limiter \<times> 'u auth_db \<Rightarrow> bool"
  for L C where
  request: "AuthRoutes L C E W verifier r (limr, db) = (limr', a) \<Longrightarrow> auth_step L C (limr, db) (limr', an_db a)"
| bootstrap: "auth_step L C (limr, db) (limr, snd (BootstrapAdmins L emails db))"
| sweep: "auth_step L C (limr, db) (limr, Sweep now db)"

definition no_accounts :: "'u auth_db" where
  "no_accounts = \<lparr>ad_users = [], ad_identities = [], ad_credentials = [], ad_sessions = [], ad_tokens = []\<rparr>"

definition auth_reachable :: "'u auth_lib \<Rightarrow> auth_config \<Rightarrow> limiter \<Rightarrow> 'u auth_db \<Rightarrow> bool" where
  "auth_reachable L C limr0 db \<longleftrightarrow> (\<exists>limr. (auth_step L C)\<^sup>*\<^sup>* (limr0, no_accounts) (limr, db))"

lemma auth_step_ok:
  assumes "auth_step L C s s'" and "auth_ok (al_ci L) (snd s)"
  shows "auth_ok (al_ci L) (snd s')"
  using assms
proof (induction rule: auth_step.induct)
  case (request E W verifier r limr db limr' a)
  then show ?case using AuthRoutes_ok [of L db C E W verifier r limr] by simp
qed (simp_all add: BootstrapAdmins_def PromoteAdmins_ok Sweep_ok)

lemma auth_reachable_ok:
  assumes "auth_reachable L C limr0 db"
  shows "auth_ok (al_ci L) db"
proof -
  have "auth_ok (al_ci L) (snd s)" if "(auth_step L C)\<^sup>*\<^sup>* (limr0, no_accounts) s" for s
    using that
  proof (induction rule: rtranclp_induct)
    case base
    then show ?case by (simp add: no_accounts_def auth_ok_defs one_owner_def)
  qed (rule auth_step_ok)
  then show ?thesis using assms by (auto simp: auth_reachable_def)
qed

end
