(* ===== verification/Auth_Properties.thy ===== *)
theory Auth_Properties
  imports Auth_Invariant
begin

text \<open>
  What the account service promises: the invariant in the words of its constraints, password reset, the two
  anti-enumeration rules, the name search of the OAuth sign-up, and three ways in which the service does not
  do what its comments say.
\<close>

section \<open>Lookups\<close>

lemma find_first_iff_None: "find_first P xs = None \<longleftrightarrow> (\<forall>x \<in> set xs. \<not> P x)"
  by (simp add: find_first_None_iff)

lemma EmailIdentity_Inl:
  "EmailIdentity ci db email = Inl e \<longleftrightarrow> e = ErrNotFound \<and>
     (\<forall>i \<in> set (ad_identities db). email \<noteq> [] \<longrightarrow> id_Provider i = ProviderEmail \<longrightarrow> map_option ci (id_Email i) \<noteq> Some (ci email))"
  by (auto simp: EmailIdentity_def found_def emailPtr_def find_first_iff_None split: option.splits
      dest: find_first_Some)

lemma authenticate_Inr:
  assumes "authenticate L C E cookie db = (Inr user, db')"
  shows "\<exists>token hash s. cookie = Some token \<and> hashToken (al_sha256 L) token = Some hash \<and> s \<in> set (ad_sessions db) \<and>
    ss_TokenHash s = hash \<and> ss_UserID s = u_ID user \<and> ae_now E < ss_ExpiresAt s"
proof -
  obtain token hash s where s: "cookie = Some token" "hashToken (al_sha256 L) token = Some hash"
    "find_first (\<lambda>s. ss_TokenHash s = hash) (ad_sessions db) = Some s" "ae_now E < ss_ExpiresAt s"
    and user: "\<exists>db''. GetUserByID db'' (ss_UserID s) = Inr user"
    using assms
    by (auto simp: authenticate_def SessionByTokenHash_def found_def Let_def split: option.splits sum.splits if_splits)
  then show ?thesis using GetUserByID_Inr find_first_Some [OF s(3)] by metis
qed

text \<open>
  C12. In every database the service reaches, whatever requests arrive in whatever order: display names are
  valid and distinct up to case, an address is verified for at most one user, a sign-in identity belongs to one
  existing account, and a user has at most one outstanding verification token and one outstanding reset token.
\<close>

theorem accounts_invariant:
  assumes "auth_reachable L C limr db"
  shows "distinct (map (\<lambda>u. al_ci L (u_DisplayName u)) (ad_users db)) \<and>
    (\<forall>u \<in> set (ad_users db). validDisplayName (u_DisplayName u)) \<and>
    (\<forall>i \<in> set (ad_identities db). \<forall>j \<in> set (ad_identities db). \<forall>e f.
       id_EmailVerified i \<longrightarrow> id_EmailVerified j \<longrightarrow> id_Email i = Some e \<longrightarrow> id_Email j = Some f \<longrightarrow>
       al_ci L e = al_ci L f \<longrightarrow> id_UserID i = id_UserID j) \<and>
    distinct (map (\<lambda>i. (id_Provider i, id_Subject i)) (ad_identities db)) \<and>
    (\<forall>i \<in> set (ad_identities db). id_UserID i \<in> u_ID ` set (ad_users db)) \<and>
    distinct (map (\<lambda>t. (et_UserID t, et_Purpose t)) (ad_tokens db))"
proof -
  note ok = auth_reachable_ok [OF assms, unfolded auth_ok_defs]
  have "\<forall>u \<in> set (ad_users db). validDisplayName (u_DisplayName u)"
    using ok by (auto simp: display_name_check_def validDisplayName_def displayNameMinLen_def displayNameMaxLen_def)
  moreover have "id_UserID i = id_UserID j"
    if "i \<in> set (ad_identities db)" "j \<in> set (ad_identities db)" "id_EmailVerified i" "id_EmailVerified j"
      "id_Email i = Some e" "id_Email j = Some f" "al_ci L e = al_ci L f" for i j e f
  proof -
    have "one_owner (al_ci L) (ad_identities db)" using ok by simp
    from this [unfolded one_owner_def, rule_format, OF that(1-4)] that(5-7) show ?thesis by simp
  qed
  moreover have "\<forall>i \<in> set (ad_identities db). id_UserID i \<in> u_ID ` set (ad_users db)"
    using ok by (simp add: user_ids_def)
  ultimately show ?thesis using ok by (intro conjI) blast+
qed

section \<open>Password reset\<close>

lemma token_spent:
  assumes "UseEmailToken now hash purpose db = Inr (t, db')" and "distinct (map et_TokenHash (ad_tokens db))"
  shows "UseEmailToken now' hash purpose db' = Inl ErrNotFound"
    and "ad_users db' = ad_users db" and "ad_credentials db' = ad_credentials db" and "t \<in> set (ad_tokens db')"
proof -
  let ?f = "\<lambda>t. if usable now hash purpose t then t\<lparr>et_UsedAt := Some now\<rparr> else t"
  obtain t0 where t0: "find_first (usable now hash purpose) (ad_tokens db) = Some t0" "t = t0\<lparr>et_UsedAt := Some now\<rparr>"
    and db': "db' = db\<lparr>ad_tokens := map ?f (ad_tokens db)\<rparr>"
    using assms(1) by (auto simp: UseEmailToken_def split: option.splits)
  show "ad_users db' = ad_users db" "ad_credentials db' = ad_credentials db" by (simp_all add: db')
  have t0_in: "t0 \<in> set (ad_tokens db)" "usable now hash purpose t0" using find_first_Some [OF t0(1)] by simp_all
  then show "t \<in> set (ad_tokens db')" by (auto simp: db' t0(2) image_iff intro!: bexI [of _ t0])
  have "\<not> usable now' hash purpose (?f x)" if x: "x \<in> set (ad_tokens db)" for x
  proof
    assume u: "usable now' hash purpose (?f x)"
    then have "et_TokenHash x = et_TokenHash t0" using t0_in(2) by (auto simp: usable_def split: if_splits)
    then have "x = t0" using x t0_in(1) assms(2) by (auto simp: distinct_map inj_on_def)
    with u t0_in(2) show False by (simp add: usable_def)
  qed
  then have "find_first (usable now' hash purpose) (map ?f (ad_tokens db)) = None"
    unfolding find_first_iff_None set_map by blast
  then show "UseEmailToken now' hash purpose db' = Inl ErrNotFound" by (simp add: UseEmailToken_def db')
qed

text \<open>The database right after the token of \<open>uid\<close> was spent, and what a completed reset writes.\<close>

lemma complete_reset_success:
  assumes "an_reply (complete_reset L E uid pw db) = StatusMessage m"
  shows "\<exists>h db2. hashPassword L E pw = Inr h \<and> Credential (an_db (complete_reset L E uid pw db)) uid = Inr h \<and>
    an_db (complete_reset L E uid pw db) = DeleteUserSessions uid db2 \<and> ad_tokens db2 = ad_tokens db \<and>
    ad_users db2 = ad_users db"
proof -
  obtain h db1 db2 where h: "hashPassword L E pw = Inr h" and 1: "UpsertCredential uid h db = Inr db1"
    and 2: "MarkEmailVerified (al_ci L) uid db1 = Inr db2"
    and db': "an_db (complete_reset L E uid pw db) = DeleteUserSessions uid db2"
    using assms
    by (auto simp: complete_reset_def UpdateCredential_def reply_def split: sum.splits store_error.splits)
  have "ad_credentials db1 = (uid, h) # filter (\<lambda>(v, h). v \<noteq> uid) (ad_credentials db)" "ad_tokens db1 = ad_tokens db"
    "ad_users db1 = ad_users db"
    using 1 by (auto simp: UpsertCredential_def split: if_splits)
  moreover have "ad_credentials db2 = ad_credentials db1" "ad_tokens db2 = ad_tokens db1" "ad_users db2 = ad_users db1"
    using 2 by (auto simp: MarkEmailVerified_def Let_def split: if_splits)
  ultimately show ?thesis
    using h db' by (auto simp: Credential_def DeleteUserSessions_def found_def)
qed

text \<open>
  C13. A completed password reset. The token's owner can no longer be reached through any session cookie issued
  before, whatever the time and the configuration; the same link is refused from then on; and the stored
  credential is the new one: it accepts exactly the passwords that argon2id maps to the same key, the new one
  among them.
\<close>

theorem reset_locks_out:
  assumes "auth_reachable L C limr db" and "\<forall>p s t m k. length (al_argon L p s t m k 32) = 32"
    and "hashToken (al_sha256 L) token = Some hash" and "t0 \<in> set (ad_tokens db)" and "et_TokenHash t0 = hash"
    and "an_reply (handleResetConfirm L E (Some (token, pw)) db) = StatusMessage m"
  shows "let db' = an_db (handleResetConfirm L E (Some (token, pw)) db); uid = et_UserID t0 in
    (\<forall>C' E' cookie user db''. authenticate L C' E' cookie db' = (Inr user, db'') \<longrightarrow> u_ID user \<noteq> uid) \<and>
    (\<forall>E' pw'. validatePassword pw' = None \<longrightarrow>
       an_reply (handleResetConfirm L E' (Some (token, pw')) db') = Refuse apiErrInvalidToken) \<and>
    (\<exists>h s. Credential db' uid = Inr h \<and>
       (\<forall>pw'. VerifyPassword (al_argon L) pw' h = Some (al_argon L pw' s 2 19456 1 32 = al_argon L pw s 2 19456 1 32)))"
proof -
  have ok: "auth_ok (al_ci L) db" by (rule auth_reachable_ok [OF assms(1)])
  have hashes: "distinct (map et_TokenHash (ad_tokens db))" using ok by (simp add: auth_ok_defs)
  obtain t db1 where use: "UseEmailToken (ae_db_now E) hash PurposeReset db = Inr (t, db1)"
    and db': "handleResetConfirm L E (Some (token, pw)) db = complete_reset L E (et_UserID t) pw db1"
    and done_reset: "an_reply (complete_reset L E (et_UserID t) pw db1) = StatusMessage m"
    using assms(3,6) by (auto simp: handleResetConfirm_def reply_def split: option.splits sum.splits)
  have t: "et_UserID t = et_UserID t0"
  proof -
    obtain x where "x \<in> set (ad_tokens db)" "et_TokenHash x = hash" "et_UserID t = et_UserID x"
      using use by (auto simp: UseEmailToken_def usable_def dest!: find_first_Some split: option.splits)
    then show ?thesis using hashes assms(4,5) by (metis distinct_map inj_on_def)
  qed
  obtain h db2 where h: "hashPassword L E pw = Inr h" and cred: "Credential (an_db (complete_reset L E (et_UserID t) pw db1)) (et_UserID t) = Inr h"
    and dbs: "an_db (complete_reset L E (et_UserID t) pw db1) = DeleteUserSessions (et_UserID t) db2" "ad_tokens db2 = ad_tokens db1"
    using complete_reset_success [OF done_reset] by auto
  let ?db' = "DeleteUserSessions (et_UserID t) db2"
  have gone: "u_ID user \<noteq> et_UserID t" if "authenticate L C' E' cookie ?db' = (Inr user, db'')" for C' E' cookie user db''
    using authenticate_Inr [OF that] by (auto simp: DeleteUserSessions_def)
  have spent: "an_reply (handleResetConfirm L E' (Some (token, pw')) ?db') = Refuse apiErrInvalidToken"
    if "validatePassword pw' = None" for E' pw'
  proof -
    have "UseEmailToken (ae_db_now E') hash PurposeReset ?db' = Inl ErrNotFound"
      using token_spent(1) [OF use hashes, of "ae_db_now E'"] dbs(2)
      by (simp add: UseEmailToken_def DeleteUserSessions_def split: option.splits)
    then show ?thesis using that assms(3) by (simp add: handleResetConfirm_def reply_def)
  qed
  obtain s where s: "HashPassword (al_argon L) (Some s) pw = Some h"
    using h by (auto simp: hashPassword_def HashPassword_def split: if_splits option.splits)
  show ?thesis
    unfolding Let_def db' t [symmetric] dbs(1)
    using gone spent cred [unfolded dbs(1)] verify_hashed [OF s] assms(2) by blast
qed

text \<open>
  A reset confirmed while every hashing slot is busy spends its token and changes nothing else: the reply
  says overloaded, and every retry with the same link is refused as invalid.
\<close>

theorem overload_burns_reset_token:
  assumes "auth_reachable L C limr db" and "hashToken (al_sha256 L) token = Some hash"
    and "UseEmailToken (ae_db_now E) hash PurposeReset db = Inr (t, db1)" and "validatePassword pw = None"
    and "\<not> ae_slot E"
  shows "let a = handleResetConfirm L E (Some (token, pw)) db in
    an_reply a = Refuse apiErrOverloaded \<and> ad_credentials (an_db a) = ad_credentials db \<and>
    (\<forall>E' pw'. validatePassword pw' = None \<longrightarrow>
       an_reply (handleResetConfirm L E' (Some (token, pw')) (an_db a)) = Refuse apiErrInvalidToken)"
proof -
  have hashes: "distinct (map et_TokenHash (ad_tokens db))" using auth_reachable_ok [OF assms(1)] by (simp add: auth_ok_defs)
  have a: "handleResetConfirm L E (Some (token, pw)) db = reply db1 (Refuse apiErrOverloaded)"
    using assms(2-5) by (simp add: handleResetConfirm_def complete_reset_def hashPassword_def)
  show ?thesis
    unfolding a Let_def using token_spent [OF assms(3) hashes] assms(2) by (simp add: reply_def handleResetConfirm_def)
qed

section \<open>What a stranger learns\<close>

lemma registered_identity:
  assumes "auth_ok ci db" and "EmailIdentity ci db email = Inl e" and "email \<noteq> []" and "email = ci email"
  shows "\<not> identity_exists (ad_identities db) ProviderEmail email"
proof
  assume "identity_exists (ad_identities db) ProviderEmail email"
  then obtain i where "i \<in> set (ad_identities db)" "id_Provider i = ProviderEmail" "id_Subject i = email"
    by (auto simp: identity_exists_def list_ex_iff)
  moreover from this have "id_Email i = Some email"
    using assms(1) by (auto simp: auth_ok_def identities_ok_def identity_ok_def)
  ultimately show False using assms(2,3) by (auto simp: EmailIdentity_Inl)
qed

text \<open>
  What registration reveals. A well-formed registration writes nothing and answers the generic message when
  the address is registered. When it is not, the answer is the generic message only if the display name is free:
  with a name that is in use, the reply tells whether the address has an account, and the attempt leaves no trace.
\<close>

theorem register_reveals_address:
  assumes "auth_reachable L C limr db" and "normalizeEmail (al_lower L) (rq_Email req) = email"
    and "validateEmail email" and "email = al_ci L email" and "validatePassword (rq_Password req) = None"
    and "cleanDisplayName (rq_DisplayName req) email = Inr name" and "hashPassword L E (rq_Password req) = Inr h"
    and "ae_user E \<notin> u_ID ` set (ad_users db)"
  shows "an_reply (handleRegister L E (Some req) db) =
    (if is_ok (EmailIdentity (al_ci L) db email) \<or> \<not> name_taken (al_ci L) (ad_users db) name
     then StatusMessage genericEmailAccepted else Refuse apiErrNameTaken) \<and>
    (is_ok (EmailIdentity (al_ci L) db email) \<or> name_taken (al_ci L) (ad_users db) name \<longrightarrow>
       an_db (handleRegister L E (Some req) db) = db \<and> an_mails (handleRegister L E (Some req) db) = [])"
proof (cases "EmailIdentity (al_ci L) db email")
  case (Inr i)
  then show ?thesis using assms(2-7) by (simp add: handleRegister_def reply_def)
next
  case (Inl e)
  have ok: "auth_ok (al_ci L) db" by (rule auth_reachable_ok [OF assms(1)])
  have fresh: "\<not> list_ex (\<lambda>u. u_ID u = ae_user E) (ad_users db)" using assms(8) by (force simp: list_ex_iff image_iff)
  have check: "display_name_check name"
    using clean_name_valid [OF assms(6)]
    by (simp add: display_name_check_def validDisplayName_def displayNameMinLen_def displayNameMaxLen_def)
  have new: "\<not> identity_exists (ad_identities db) ProviderEmail email"
    using registered_identity [OF ok Inl email_nonempty [OF assms(3)] assms(4)] .
  have step: "handleRegister L E (Some req) db = create_registered L E name email h db"
    using assms(2-7) Inl by (simp add: handleRegister_def)
  show ?thesis
  proof (cases "name_taken (al_ci L) (ad_users db) name")
    case True
    then show ?thesis
      using Inl fresh check by (simp add: step create_registered_def CreateEmailAccount_def CreateUser_def reply_def)
  next
    case False
    then have "\<exists>u db'. CreateEmailAccount (al_ci L) (ae_user E) (ae_db_now E)
        \<lparr>ea_DisplayName = name, ea_Email = email, ea_PasswordHash = h\<rparr> db = Inr (u, db')"
      using fresh check new assms(4)
      by (simp add: CreateEmailAccount_def CreateUser_def Let_def CreateIdentity_def identity_check_def UpsertCredential_def
          user_exists_def ProviderEmail_def)
    then show ?thesis using Inl False by (auto simp: step create_registered_def answer_simps)
  qed
qed

definition matches :: "'u auth_lib \<Rightarrow> 'u auth_db \<Rightarrow> string \<Rightarrow> string \<Rightarrow> bool" where
  "matches L db email pw \<longleftrightarrow>
     (\<exists>i h. EmailIdentity (al_ci L) db (normalizeEmail (al_lower L) email) = Inr i \<and> Credential db (id_UserID i) = Inr h \<and>
        VerifyPassword (al_argon L) pw h = Some True)"

text \<open>
  C20. What a failed login reveals: nothing. In a database that requests, sweeps and promotions lead to, under a service
  whose decoy hash was generated at start-up: whenever the credentials do not match, because the address is unknown, has
  no password or the password is wrong, the database is unchanged and the answer depends only on the hashing slot, so two
  databases, and two addresses, cannot be told apart. Whether an address is verified shows only to someone who knows its
  password. When the generation of the decoy failed, an unknown address is told apart by an internal error.
\<close>

theorem login_hides_accounts:
  assumes "auth_reachable L C limr db" and "decodeHash (ac_dummyHash C) \<noteq> None" and "\<not> matches L db email pw"
  shows "handleLogin L C E (Some (email, pw)) db =
    reply db (Refuse (if ae_slot E then apiErrInvalidCredentials else apiErrOverloaded))"
proof -
  have decoy: "decoy_refusal L C E pw = (if ae_slot E then apiErrInvalidCredentials else apiErrOverloaded)"
    using assms(2) by (auto simp: decoy_refusal_def verifyPassword_def VerifyPassword_def)
  show ?thesis
  proof (cases "EmailIdentity (al_ci L) db (normalizeEmail (al_lower L) email)")
    case (Inr i)
    show ?thesis
    proof (cases "Credential db (id_UserID i)")
      case (Inr h)
      then have "(id_UserID i, h) \<in> set (ad_credentials db)"
        by (auto simp: Credential_def found_def dest!: find_first_Some split: option.splits)
      then have "decodeHash h \<noteq> None" using auth_reachable_ok [OF assms(1)] by (fastforce simp: auth_ok_def credentials_ok_def)
      then obtain b where b: "VerifyPassword (al_argon L) pw h = Some b" by (auto simp: VerifyPassword_def)
      with Inr \<open>EmailIdentity _ _ _ = Inr i\<close> assms(3) have "\<not> b" by (auto simp: matches_def)
      then show ?thesis
        using Inr \<open>EmailIdentity _ _ _ = Inr i\<close> b by (simp add: handleLogin_def verifyPassword_def)
    qed (use Inr decoy in \<open>simp add: handleLogin_def\<close>)
  qed (use decoy in \<open>simp add: handleLogin_def\<close>)
qed

section \<open>The name search of an OAuth sign-up\<close>

lemma CreateIdentity_errors: "CreateIdentity ci i db \<noteq> Inl ErrDisplayNameTaken"
  by (simp add: CreateIdentity_def)

lemma created_name_taken:
  assumes "validDisplayName (oa_DisplayName p)" and "uid \<notin> u_ID ` set (ad_users db)"
  shows "CreateOAuthAccount ci uid now p db = Inl ErrDisplayNameTaken \<longleftrightarrow> name_taken ci (ad_users db) (oa_DisplayName p)"
proof -
  have "display_name_check (oa_DisplayName p)"
    using assms(1) by (simp add: display_name_check_def validDisplayName_def displayNameMinLen_def displayNameMaxLen_def)
  moreover have "\<not> list_ex (\<lambda>u. u_ID u = uid) (ad_users db)" using assms(2) by (force simp: list_ex_iff image_iff)
  ultimately show ?thesis
    by (auto simp: CreateOAuthAccount_def CreateUser_def Let_def CreateIdentity_errors split: sum.splits)
qed

definition oauth_params :: "string \<Rightarrow> string \<Rightarrow> oauthUser \<Rightarrow> OAuthAccountParams" where
  "oauth_params name provider info =
     \<lparr>oa_DisplayName = name, oa_Provider = provider, oa_Subject = ou_Subject info, oa_Email = ou_Email info,
      oa_EmailVerified = ou_EmailVerified info\<rparr>"

definition first_free_name :: "(string \<Rightarrow> string) \<Rightarrow> 'u auth_db \<Rightarrow> string \<Rightarrow> string option" where
  "first_free_name ci db base =
     find_first (\<lambda>name. \<not> name_taken ci (ad_users db) name) (map (suffixedName base) [0..<100])"

lemma create_from_search:
  assumes "validDisplayName base" and "ae_user E \<notin> u_ID ` set (ad_users db)" and "i \<le> maxNameSuffix"
  shows "create_from L E base provider info db i =
    (case find_first (\<lambda>name. \<not> name_taken (al_ci L) (ad_users db) name) (map (suffixedName base) [i..<100]) of
       None \<Rightarrow> Inl ErrDisplayNameTaken
     | Some name \<Rightarrow> CreateOAuthAccount (al_ci L) (ae_user E) (ae_db_now E) (oauth_params name provider info) db)"
  using assms
proof (induction L E base provider info db i rule: create_from.induct)
  case (1 L E base provider info db i)
  have taken: "CreateOAuthAccount (al_ci L) (ae_user E) (ae_db_now E) (oauth_params (suffixedName base i) provider info) db =
      Inl ErrDisplayNameTaken \<longleftrightarrow> name_taken (al_ci L) (ad_users db) (suffixedName base i)"
    using created_name_taken [of "oauth_params (suffixedName base i) provider info"] suffixed_valid [OF 1(2,4)] 1(3)
    by (simp add: oauth_params_def)
  have upt: "[i..<100] = i # [Suc i..<100]" using 1(4) by (simp add: maxNameSuffix_def upt_conv_Cons)
  have last: "[Suc i..<100] = []" if "\<not> i < maxNameSuffix" using that by (simp add: maxNameSuffix_def)
  show ?case
    using 1(1) [OF refl] 1(2-4) taken last
    unfolding create_from.simps [of L E base provider info db i] upt oauth_params_def
    by (auto simp: Let_def)
qed

text \<open>
  C21. The sign-up loop against its specification. Started from the name the profile yields, the loop creates the
  account under the first of \<open>name, name1, ..., name99\<close> that no account holds up to case, whatever else the
  insertion answers there, and gives up exactly when all hundred are held.
\<close>

theorem oauth_name_search:
  assumes "ae_user E \<notin> u_ID ` set (ad_users db)"
  shows "createOAuthAccountWithName L E (oauthDisplayName info) provider info db =
    (case first_free_name (al_ci L) db (oauthDisplayName info) of
       None \<Rightarrow> Inl ErrDisplayNameTaken
     | Some name \<Rightarrow> CreateOAuthAccount (al_ci L) (ae_user E) (ae_db_now E) (oauth_params name provider info) db)"
  unfolding createOAuthAccountWithName_def first_free_name_def
  using oauth_name_valid assms by (rule create_from_search) simp

section \<open>The link cookie\<close>

lemma find_first_append:
  "find_first P (xs @ ys) = (case find_first P xs of None \<Rightarrow> find_first P ys | Some x \<Rightarrow> Some x)"
  by (induction xs) simp_all

lemma GetUserByID_member:
  assumes "auth_ok ci db" and "u \<in> set (ad_users db)"
  shows "GetUserByID db (u_ID u) = Inr u"
proof -
  have d: "distinct (map u_ID (ad_users db))" using assms(1) by (simp add: auth_ok_defs)
  obtain v where v: "find_first (\<lambda>v. u_ID v = u_ID u) (ad_users db) = Some v"
    using find_first_ex [of u "ad_users db" "\<lambda>v. u_ID v = u_ID u"] assms(2) by auto
  then have "v = u" using find_first_Some [OF v] d assms(2) by (auto simp: distinct_map dest: inj_onD)
  with v show ?thesis by (simp add: GetUserByID_def)
qed

lemma fresh_session_authenticates:
  assumes "issueSession L C E uid db = Some (token, db')" and "ae_token E = Some raw" and "length raw = tokenBytesLen"
    and "0 < ac_SessionTTL C" and "GetUserByID db uid = Inr user"
  shows "fst (authenticate L C E (Some token) db') = Inr user"
proof -
  obtain hash where nt: "newToken (al_sha256 L) (Some raw) = Some (token, hash)"
    and cs: "CreateSession (ae_session E) (ae_db_now E) hash uid (ae_now E + ac_SessionTTL C) db = Inr db'"
    using assms(1,2) by (auto simp: issueSession_def split: option.splits sum.splits)
  have old: "find_first (\<lambda>s. ss_TokenHash s = hash) (ad_sessions db) = None"
    using cs by (auto simp: CreateSession_def find_first_None_iff list_ex_iff split: if_splits)
  have "SessionByTokenHash db' hash = Inr \<lparr>ss_ID = ae_session E, ss_TokenHash = hash, ss_UserID = uid,
      ss_CreatedAt = ae_db_now E, ss_ExpiresAt = ae_now E + ac_SessionTTL C, ss_LastSeenAt = ae_db_now E\<rparr>"
    and "ad_users db' = ad_users db"
    using cs old by (auto simp: CreateSession_def SessionByTokenHash_def found_def find_first_append split: if_splits)
  then show ?thesis
    using hash_of_new_token [OF nt assms(3)] assms(4,5)
    by (simp add: authenticate_def Let_def TouchSession_def GetUserByID_def split: option.splits)
qed

definition callback_with :: "string \<Rightarrow> string \<Rightarrow> string \<Rightarrow> string \<Rightarrow> string option \<Rightarrow> callback" where
  "callback_with provider state verifier code link =
     \<lparr>cb_provider = provider, cb_jar = \<lparr>fc_state = Some state, fc_verifier = Some verifier, fc_link = link\<rparr>,
      cb_state = state, cb_code = code\<rparr>"

text \<open>
  C6. What the link cookie allows. The callback takes the account to link from a cookie that holds a user id in
  plain text and asks for no session. Whoever sets that cookie to the id of any account, and brings a provider
  account of their own with an unverified address, has it linked; their next callback without the cookie signs
  them in as that user.
\<close>

theorem link_cookie_takes_over:
  assumes "auth_reachable L C limr db" and "uuid_law (al_uuid L)" and "victim \<in> set (ad_users db)"
    and "uuid_String (al_uuid L) (u_ID victim) \<noteq> []" and "provider \<in> set (buildProviders C)"
    and "W provider code verifier = Profile me" and "W provider code' verifier' = Profile me"
    and "ou_Subject me \<noteq> []" and "\<not> ou_EmailVerified me"
    and "\<not> identity_exists (ad_identities db) provider (ou_Subject me)"
    and "state \<noteq> []" and "state' \<noteq> []" and "code \<noteq> []" and "code' \<noteq> []" and "0 < ac_SessionTTL C"
    and "ae_token E' = Some raw" and "length raw = tokenBytesLen"
    and "\<forall>s \<in> set (ad_sessions db). ss_ID s \<noteq> ae_session E' \<and> ss_TokenHash s \<noteq> al_sha256 L raw"
  shows "let a = handleOAuthCallback L C E W
           (callback_with provider state verifier code (Some (uuid_String (al_uuid L) (u_ID victim)))) db;
         a' = handleOAuthCallback L C E' W (callback_with provider state' verifier' code' None) (an_db a)
     in an_reply a = RedirectLinked provider \<and> an_reply a' = RedirectResult [] \<and>
        fst (authenticate L C E' (an_cookie a') (an_db a')) = Inr victim"
proof -
  have ok: "auth_ok (al_ci L) db" by (rule auth_reachable_ok [OF assms(1)])
  define i where "i = \<lparr>id_UserID = u_ID victim, id_Provider = provider, id_Subject = ou_Subject me,
    id_Email = emailPtr (normalizeEmail (al_lower L) (ou_Email me)), id_EmailVerified = False\<rparr>"
  let ?db1 = "db\<lparr>ad_identities := ad_identities db @ [i]\<rparr>"
  have none: "find_first (\<lambda>i. id_Provider i = provider \<and> id_Subject i = ou_Subject me) (ad_identities db) = None"
    using assms(10) by (simp add: find_first_None_iff identity_exists_def list_ex_iff)
  have p: "provider \<in> {ProviderGitHub, ProviderGoogle}" using assms(5) by (auto simp: buildProviders_def)
  have "CreateIdentity (al_ci L) i db = Inr ?db1"
    using p assms(3,10)
    by (auto simp: CreateIdentity_def identity_check_def i_def user_exists_def list_ex_iff
        ProviderEmail_def ProviderGitHub_def ProviderGoogle_def)
  then have linked: "handleOAuthCallback L C E W
      (callback_with provider state verifier code (Some (uuid_String (al_uuid L) (u_ID victim)))) db =
      reply ?db1 (RedirectLinked provider)"
    using assms(2,4-6,8,9,11,13) none
    by (simp add: handleOAuthCallback_def callback_with_def completeLink_def uuid_law_def LinkIdentity_def
        IdentityByProviderSubject_def found_def i_def)
  have user: "GetUserByID ?db1 (u_ID victim) = Inr victim"
    using GetUserByID_member [OF ok assms(3)] by (simp add: GetUserByID_def)
  have "\<exists>token db2. issueSession L C E' (u_ID victim) ?db1 = Some (token, db2)"
    using assms(3,16,18) by (auto simp: issueSession_def newToken_def CreateSession_def user_exists_def list_ex_iff)
  then obtain token db2 where s: "issueSession L C E' (u_ID victim) ?db1 = Some (token, db2)" by blast
  have "handleOAuthCallback L C E' W (callback_with provider state' verifier' code' None) ?db1 =
      (reply db2 (RedirectResult []))\<lparr>an_cookie := Some token\<rparr>"
    using assms(5,7,8,12,14) none s
    by (simp add: handleOAuthCallback_def callback_with_def completeLogin_def IdentityByProviderSubject_def found_def
        find_first_append i_def login_redirect_def)
  then show ?thesis
    using linked fresh_session_authenticates [OF s assms(16,17,15) user] by (simp add: reply_def)
qed

section \<open>Concrete instances\<close>

text \<open>
  One account registered and a reset requested, through the routes, under a limiter switched off by its zero
  parameters. The stand-ins for the libraries satisfy what the theorems ask of them: a key has the length asked
  for, a printed id parses back.
\<close>

definition demo_lib :: "nat auth_lib" where
  "demo_lib =
     \<lparr>al_lower = id, al_ci = id, al_sha256 = id,
      al_argon = (\<lambda>pw s t m k n. take n (pw @ replicate n (CHR ''k''))),
      al_uuid = \<lparr>uuid_Parse = (\<lambda>s. Some (length s)), uuid_String = (\<lambda>u. replicate u (CHR ''a'')), uuid_Nil = 0\<rparr>\<rparr>"

definition demo_hash :: "string \<Rightarrow> string" where
  "demo_hash pw = ''$argon2id$v=19$m=19456,t=2,p=1$'' @ EncodeStd ''salt'' @ ''$'' @
     EncodeStd (take 32 (pw @ replicate 32 (CHR ''k'')))"

definition demo_config :: auth_config where
  "demo_config = \<lparr>ac_FrontendOrigin = ''origin'', ac_SessionTTL = 1000, ac_Providers = [(''github'', ''id'', ''secret'')],
     ac_dummyHash = demo_hash ''decoy''\<rparr>"

definition demo_env :: "bool \<Rightarrow> char \<Rightarrow> nat \<Rightarrow> nat auth_env" where
  "demo_env slot c uid =
     \<lparr>ae_now = 0, ae_db_now = 0, ae_slot = slot, ae_token = Some (replicate 32 c), ae_salt = Some ''salt'', ae_user = uid,
      ae_session = 1\<rparr>"

definition demo_limiter :: limiter where
  "demo_limiter = NewInMemoryRateLimiter 0 0"

definition demo_token :: "char \<Rightarrow> string" where
  "demo_token c = EncodeToString (replicate 32 c)"

definition ann :: "nat User" where
  "ann = \<lparr>u_ID = 1, u_DisplayName = ''ann'', u_CreatedAt = 0, u_ProfilePublic = True, u_KeyboardPublic = False,
     u_Role = ''player'', u_DisplayNameChangedAt = None\<rparr>"

definition demo_accounts :: "nat auth_db" where
  "demo_accounts =
     \<lparr>ad_users = [ann],
      ad_identities = [\<lparr>id_UserID = 1, id_Provider = ProviderEmail, id_Subject = ''ann@x.y'', id_Email = Some ''ann@x.y'',
        id_EmailVerified = False\<rparr>],
      ad_credentials = [(1, demo_hash ''password'')], ad_sessions = [],
      ad_tokens = [\<lparr>et_UserID = 1, et_Purpose = PurposeVerify, et_TokenHash = replicate 32 (CHR ''v''),
          et_ExpiresAt = verifyTokenTTL, et_UsedAt = None\<rparr>,
        \<lparr>et_UserID = 1, et_Purpose = PurposeReset, et_TokenHash = replicate 32 (CHR ''r''),
          et_ExpiresAt = resetTokenTTL, et_UsedAt = None\<rparr>]\<rparr>"

definition demo_request :: "auth_route \<Rightarrow> auth_request" where
  "demo_request route = \<lparr>ar_route = route, ar_ip = [], ar_origin = ''origin'', ar_cookie = None, ar_captcha = None\<rparr>"

definition register_ann :: registerRequest where
  "register_ann = \<lparr>rq_Email = ''ann@x.y'', rq_Password = ''password'', rq_DisplayName = ''ann''\<rparr>"

lemma demo_account_trim: "TrimSpace ''ann@x.y'' = ''ann@x.y''" "TrimSpace ''bob@x.y'' = ''bob@x.y''" "TrimSpace ''ann'' = ''ann''"
  by (simp_all add: TrimSpace_ascii ascii_def byte_def IsSpace_def)

lemma demo_account_text:
  "normalizeEmail id ''ann@x.y'' = ''ann@x.y''" "normalizeEmail id ''bob@x.y'' = ''bob@x.y''"
  "validateEmail ''ann@x.y''" "validateEmail ''bob@x.y''" "validatePassword ''password'' = None" "validatePassword ''new-password'' = None"
  "cleanDisplayName ''ann'' ''ann@x.y'' = Inr ''ann''" "cleanDisplayName ''ann'' ''bob@x.y'' = Inr ''ann''"
  "display_name_check ''ann''"
proof -
  have valid: "validDisplayName ''ann''" by code_simp
  then show "display_name_check ''ann''"
    by (simp add: display_name_check_def validDisplayName_def displayNameMinLen_def displayNameMaxLen_def)
  show "normalizeEmail id ''ann@x.y'' = ''ann@x.y''" "normalizeEmail id ''bob@x.y'' = ''bob@x.y''"
    by (simp_all add: normalizeEmail_def demo_account_trim ToLower_def runes_ascii ascii_def byte_def lower_rune_def
        encode_runes_def encode_rune_def encode_scalar_def is_scalar_def
        char_of_def bit_numeral_rec bit_0)
  show "validateEmail ''ann@x.y''" "validateEmail ''bob@x.y''" "validatePassword ''password'' = None"
    "validatePassword ''new-password'' = None"
    by (simp_all add: validateEmail_def validatePassword_def passwordMinLen_def passwordMaxLen_def RuneCountInString_def
        runes_ascii ascii_def byte_def)
  show "cleanDisplayName ''ann'' ''ann@x.y'' = Inr ''ann''" "cleanDisplayName ''ann'' ''bob@x.y'' = Inr ''ann''"
    using valid by (simp_all add: cleanDisplayName_def demo_account_trim)
qed

lemma demo_hashed: "hashPassword demo_lib (demo_env True c u) pw = Inr (demo_hash pw)"
  by (simp add: hashPassword_def demo_env_def demo_lib_def HashPassword_text demo_hash_def)

lemma demo_new_token: "newToken (al_sha256 demo_lib) (ae_token (demo_env slot c u)) = Some (demo_token c, replicate 32 c)"
  by (simp add: newToken_def demo_lib_def demo_env_def demo_token_def)

lemma demo_hash_token: "hashToken (al_sha256 demo_lib) (demo_token c) = Some (replicate 32 c)"
  by (simp add: hashToken_def demo_token_def DecodeString_EncodeToString tokenBytesLen_def demo_lib_def)

lemma demo_env_fields:
  "ae_user (demo_env s c u) = u" "ae_now (demo_env s c u) = 0" "ae_db_now (demo_env s c u) = 0"
  "ae_slot (demo_env s c u) = s"
  by (simp_all add: demo_env_def)

lemma demo_decodes: "decodeHash (demo_hash pw) \<noteq> None"
  unfolding demo_hash_def decode_hashed by simp

lemma demo_request_step:
  assumes "auth_reachable demo_lib demo_config demo_limiter db"
  shows "auth_reachable demo_lib demo_config demo_limiter
    (an_db (route_handler demo_lib demo_config E W (demo_request route) db))"
proof -
  obtain l where l: "(auth_step demo_lib demo_config)\<^sup>*\<^sup>* (demo_limiter, no_accounts) (l, db)"
    using assms by (auto simp: auth_reachable_def)
  have "l_burst (fst s) \<le> 0" if "(auth_step demo_lib demo_config)\<^sup>*\<^sup>* (demo_limiter, no_accounts) s" for s
    using that
  proof (induction rule: rtranclp_induct)
    case base
    then show ?case by (simp add: demo_limiter_def NewInMemoryRateLimiter_def)
  next
    case (step s s')
    from step(2) show ?case using step(3)
      by cases (auto simp: AuthRoutes_def rateLimit_def limiter_allow_def split: option.splits if_splits)
  qed
  from this [OF l] have "AuthRoutes demo_lib demo_config E W None (demo_request route) (l, db) =
      (l, route_handler demo_lib demo_config E W (demo_request route) db)"
    by (auto simp: AuthRoutes_def requireCaptcha_def rateLimit_def limiter_allow_def RequireOrigin_def demo_request_def
        demo_config_def)
  from rtranclp.rtrancl_into_rtrancl [OF l auth_step.request [OF this]] show ?thesis
    unfolding auth_reachable_def by blast
qed

lemma demo_reachable: "auth_reachable demo_lib demo_config demo_limiter demo_accounts"
proof -
  let ?db1 = "an_db (handleRegister demo_lib (demo_env True (CHR ''v'') 1) (Some register_ann) no_accounts)"
  have "auth_reachable demo_lib demo_config demo_limiter no_accounts" by (auto simp: auth_reachable_def)
  from demo_request_step [OF this, of "demo_env True (CHR ''v'') 1" _ "PostRegister (Some register_ann)"]
  have 1: "auth_reachable demo_lib demo_config demo_limiter ?db1" by (simp add: route_handler_def demo_request_def)
  from demo_request_step [OF 1, of "demo_env True (CHR ''r'') 1" _ "PostResetRequest (Some ''ann@x.y'')"]
  have 2: "auth_reachable demo_lib demo_config demo_limiter
      (an_db (handleResetRequest demo_lib (demo_env True (CHR ''r'') 1) (Some ''ann@x.y'') ?db1))"
    by (simp add: route_handler_def demo_request_def)
  have id: "al_lower demo_lib = id" "al_ci demo_lib = id" by (simp_all add: demo_lib_def)
  have "?db1 = demo_accounts\<lparr>ad_tokens := take 1 (ad_tokens demo_accounts)\<rparr>"
    by (simp add: Let_def handleRegister_def register_ann_def id demo_account_text demo_hashed no_accounts_def EmailIdentity_def found_def emailPtr_def
        create_registered_def CreateEmailAccount_def CreateUser_def name_taken_def demo_env_fields CreateIdentity_def identity_check_def
        identity_exists_def user_exists_def UpsertCredential_def sendVerification_def send_token_def issueEmailToken_def
        demo_new_token DeleteUserTokens_def CreateEmailToken_def mailed_def reply_def demo_accounts_def ann_def)
  moreover have "an_db (handleResetRequest demo_lib (demo_env True (CHR ''r'') 1) (Some ''ann@x.y'')
      (demo_accounts\<lparr>ad_tokens := take 1 (ad_tokens demo_accounts)\<rparr>)) = demo_accounts"
    by (simp add: Let_def handleResetRequest_def id demo_account_text EmailIdentity_def found_def emailPtr_def demo_accounts_def ann_def demo_env_fields
        sendPasswordReset_def send_token_def issueEmailToken_def demo_new_token DeleteUserTokens_def CreateEmailToken_def
        user_exists_def mailed_def reply_def PurposeVerify_def PurposeReset_def)
  ultimately show ?thesis using 2 by simp
qed

lemma demo_ci: "al_ci demo_lib = id" "al_lower demo_lib = id"
  by (simp_all add: demo_lib_def)

theorem accounts_invariant_witness:
  "auth_reachable demo_lib demo_config demo_limiter demo_accounts \<and>
   list_all (\<lambda>u. validDisplayName (u_DisplayName u)) (ad_users demo_accounts)"
  using accounts_invariant [OF demo_reachable] demo_reachable by (simp add: list_all_iff)

lemma demo_reset_use:
  "UseEmailToken 0 (replicate 32 (CHR ''r'')) PurposeReset demo_accounts =
     Inr (\<lparr>et_UserID = 1, et_Purpose = PurposeReset, et_TokenHash = replicate 32 (CHR ''r''),
            et_ExpiresAt = resetTokenTTL, et_UsedAt = Some 0\<rparr>,
          demo_accounts\<lparr>ad_tokens := [ad_tokens demo_accounts ! 0, (ad_tokens demo_accounts ! 1)\<lparr>et_UsedAt := Some 0\<rparr>]\<rparr>)"
  by (simp add: UseEmailToken_def usable_def demo_accounts_def PurposeVerify_def PurposeReset_def resetTokenTTL_def hour_def)

lemma demo_reset_reply:
  "an_reply (handleResetConfirm demo_lib (demo_env True (CHR ''n'') 2) (Some (demo_token (CHR ''r''), ''new-password''))
     demo_accounts) = StatusMessage ''password updated; sign in with your new password''"
  unfolding handleResetConfirm_def
  by (simp add: demo_account_text demo_hash_token demo_reset_use complete_reset_def demo_hashed UpdateCredential_def
      UpsertCredential_def user_exists_def MarkEmailVerified_def email_owned_elsewhere_def demo_env_fields reply_def Let_def)
    (simp add: demo_accounts_def ann_def)

theorem reset_locks_out_witness:
  "let db' = an_db (handleResetConfirm demo_lib (demo_env True (CHR ''n'') 2)
       (Some (demo_token (CHR ''r''), ''new-password'')) demo_accounts) in
   (\<forall>C' E' cookie. fst (authenticate demo_lib C' E' cookie db') \<noteq> Inr ann) \<and>
   (\<exists>h. Credential db' 1 = Inr h \<and> VerifyPassword (al_argon demo_lib) ''new-password'' h = Some True)"
proof -
  have "ad_tokens demo_accounts ! 1 \<in> set (ad_tokens demo_accounts)"
    "et_TokenHash (ad_tokens demo_accounts ! 1) = replicate 32 (CHR ''r'')" "et_UserID (ad_tokens demo_accounts ! 1) = 1"
    "\<forall>p s t m k. length (al_argon demo_lib p s t m k 32) = 32"
    by (auto simp: demo_accounts_def demo_lib_def)
  note locked = reset_locks_out [OF demo_reachable this(4) demo_hash_token this(1,2) demo_reset_reply, unfolded Let_def this(3)]
  let ?db' = "an_db (handleResetConfirm demo_lib (demo_env True (CHR ''n'') 2)
      (Some (demo_token (CHR ''r''), ''new-password'')) demo_accounts)"
  have "fst (authenticate demo_lib C' E' cookie ?db') \<noteq> Inr ann" for C' E' cookie
  proof
    assume "fst (authenticate demo_lib C' E' cookie ?db') = Inr ann"
    then have "authenticate demo_lib C' E' cookie ?db' = (Inr ann, snd (authenticate demo_lib C' E' cookie ?db'))"
      by (simp add: prod_eq_iff)
    then have "u_ID ann \<noteq> 1" by (rule locked [THEN conjunct1, rule_format])
    then show False by (simp add: ann_def)
  qed
  moreover have "\<exists>h. Credential (an_db (handleResetConfirm demo_lib (demo_env True (CHR ''n'') 2)
      (Some (demo_token (CHR ''r''), ''new-password'')) demo_accounts)) 1 = Inr h \<and>
      VerifyPassword (al_argon demo_lib) ''new-password'' h = Some True"
    using locked [THEN conjunct2, THEN conjunct2] by auto
  ultimately show ?thesis unfolding Let_def by blast
qed

theorem overload_burns_reset_token_witness:
  "let a = handleResetConfirm demo_lib (demo_env False (CHR ''n'') 2) (Some (demo_token (CHR ''r''), ''new-password''))
       demo_accounts in
   an_reply a = Refuse apiErrOverloaded \<and>
   an_reply (handleResetConfirm demo_lib (demo_env True (CHR ''n'') 2) (Some (demo_token (CHR ''r''), ''new-password''))
     (an_db a)) = Refuse apiErrInvalidToken"
proof -
  have "ae_db_now (demo_env False (CHR ''n'') 2) = 0" "\<not> ae_slot (demo_env False (CHR ''n'') 2)"
    by (simp_all add: demo_env_def)
  with overload_burns_reset_token [OF demo_reachable demo_hash_token, of "demo_env False (CHR ''n'') 2" "CHR ''r''"]
    demo_reset_use demo_account_text(6)
  show ?thesis by (simp add: Let_def)
qed

theorem register_reveals_address_witness:
  "an_reply (handleRegister demo_lib (demo_env True (CHR ''n'') 2)
     (Some \<lparr>rq_Email = ''ann@x.y'', rq_Password = ''password'', rq_DisplayName = ''ann''\<rparr>) demo_accounts) =
     StatusMessage genericEmailAccepted \<and>
   an_reply (handleRegister demo_lib (demo_env True (CHR ''n'') 2)
     (Some \<lparr>rq_Email = ''bob@x.y'', rq_Password = ''password'', rq_DisplayName = ''ann''\<rparr>) demo_accounts) =
     Refuse apiErrNameTaken"
proof -
  have fresh: "ae_user (demo_env True (CHR ''n'') 2) \<notin> u_ID ` set (ad_users demo_accounts)"
    by (simp add: demo_env_def demo_accounts_def ann_def)
  have id: "is_ok (EmailIdentity id demo_accounts ''ann@x.y'')" "\<not> is_ok (EmailIdentity id demo_accounts ''bob@x.y'')"
    "name_taken id (ad_users demo_accounts) ''ann''"
    by (simp_all add: EmailIdentity_def emailPtr_def found_def demo_accounts_def ann_def name_taken_def)
  show ?thesis
    using register_reveals_address [OF demo_reachable refl _ _ _ _ demo_hashed fresh, of register_ann "''ann''"]
      register_reveals_address [OF demo_reachable refl _ _ _ _ demo_hashed fresh, of "register_ann\<lparr>rq_Email := ''bob@x.y''\<rparr>" "''ann''"]
    by (simp add: register_ann_def demo_ci demo_account_text id)
qed

theorem login_hides_accounts_witness:
  "handleLogin demo_lib demo_config (demo_env True (CHR ''n'') 2) (Some (''ann@x.y'', ''wrong'')) demo_accounts =
     reply demo_accounts (Refuse apiErrInvalidCredentials) \<and>
   handleLogin demo_lib demo_config (demo_env True (CHR ''n'') 2) (Some (''bob@x.y'', ''wrong'')) demo_accounts =
     reply demo_accounts (Refuse apiErrInvalidCredentials)"
proof -
  have dummy: "decodeHash (ac_dummyHash demo_config) \<noteq> None" using demo_decodes by (simp add: demo_config_def)
  have "VerifyPassword (al_argon demo_lib) ''wrong'' (demo_hash ''password'') = Some False"
    unfolding demo_hash_def VerifyPassword_def decode_hashed by (simp add: demo_lib_def)
  then have "\<not> matches demo_lib demo_accounts ''ann@x.y'' ''wrong''" "\<not> matches demo_lib demo_accounts ''bob@x.y'' ''wrong''"
    by (simp_all add: matches_def demo_ci demo_account_text EmailIdentity_def emailPtr_def found_def Credential_def demo_accounts_def)
  then show ?thesis
    using login_hides_accounts [OF demo_reachable dummy] by (simp add: demo_env_def)
qed

theorem oauth_name_search_witness:
  "is_ok (createOAuthAccountWithName demo_lib (demo_env True (CHR ''n'') 2)
     (oauthDisplayName \<lparr>ou_Subject = ''7'', ou_Email = [], ou_EmailVerified = False, ou_Name = ''ann''\<rparr>) ProviderGitHub
     \<lparr>ou_Subject = ''7'', ou_Email = [], ou_EmailVerified = False, ou_Name = ''ann''\<rparr> demo_accounts)"
proof -
  let ?info = "\<lparr>ou_Subject = ''7'', ou_Email = [], ou_EmailVerified = False, ou_Name = ''ann''\<rparr>"
  have fresh: "ae_user (demo_env True (CHR ''n'') 2) \<notin> u_ID ` set (ad_users demo_accounts)"
    by (simp add: demo_env_def demo_accounts_def ann_def)
  have "oauthDisplayName ?info = ''ann''" "suffixedName ''ann'' 0 = ''ann''" "suffixedName ''ann'' 1 = ''ann1''"
    "display_name_check ''ann1''"
    by code_simp+
  moreover have "[0..<100] = 0 # 1 # [2..<(100::nat)]" by (simp add: upt_conv_Cons numeral_2_eq_2)
  ultimately show ?thesis
    unfolding oauth_name_search [OF fresh]
    by (simp add: first_free_name_def name_taken_def demo_ci oauth_params_def CreateOAuthAccount_def CreateUser_def
        CreateIdentity_def identity_check_def identity_exists_def user_exists_def demo_accounts_def ann_def demo_env_def
        ProviderGitHub_def ProviderEmail_def Let_def)
qed

theorem link_cookie_takes_over_witness:
  "\<exists>W cookie db'. fst (authenticate demo_lib demo_config (demo_env True (CHR ''n'') 2) cookie db') = Inr ann \<and>
     an_reply (handleOAuthCallback demo_lib demo_config (demo_env True (CHR ''n'') 2) W
       (callback_with ''github'' ''s'' ''v'' ''c'' (Some ''a'')) demo_accounts) = RedirectLinked ''github''"
proof -
  let ?W = "\<lambda>p c v. Profile \<lparr>ou_Subject = ''7'', ou_Email = [], ou_EmailVerified = False, ou_Name = ''mallory''\<rparr>"
  have uuid: "uuid_law (al_uuid demo_lib)" "uuid_String (al_uuid demo_lib) (u_ID ann) = ''a''"
    by (simp_all add: uuid_law_def demo_lib_def ann_def)
  have db: "ann \<in> set (ad_users demo_accounts)" "\<not> identity_exists (ad_identities demo_accounts) ''github'' ''7''"
    "ad_sessions demo_accounts = []"
    by (simp_all add: demo_accounts_def identity_exists_def ProviderEmail_def)
  have cfg: "''github'' \<in> set (buildProviders demo_config)" "0 < ac_SessionTTL demo_config"
    by (simp_all add: buildProviders_def demo_config_def ProviderGitHub_def)
  have raw: "ae_token (demo_env True (CHR ''n'') 2) = Some (replicate 32 (CHR ''n''))"
    "length (replicate 32 (CHR ''n'')) = tokenBytesLen"
    by (simp_all add: demo_env_def tokenBytesLen_def)
  show ?thesis
    using link_cookie_takes_over [OF demo_reachable uuid(1) db(1) _ cfg(1) _ _ _ _ _ _ _ _ _ cfg(2) raw,
        of ?W "''c''" "''v''" _ "''d''" "''v''" "''s''" "''s''" "demo_env True (CHR ''n'') 2"] db(2,3) uuid(2)
    by (simp add: Let_def) blast
qed

end
