(* ===== verification/Hash_Gate.thy ===== *)
theory Hash_Gate
  imports Auth_Secrets "HOL-Library.Word"
begin

text \<open>
  The gate that bounds concurrent password hashing (\<open>internal/auth/hashgate.go\<close>): a counting semaphore with
  statistics. Every atomic operation of a request is one step, so a run is any interleaving of requests: taking
  a slot, counting the admission (two counters and a compare-and-swap loop on the peak), uncounting it and
  handing the slot on.

  The theory proves that the peak statistic never exceeds the configured limit, the claim by which the memory
  of the process is sized.
\<close>

definition HashCostBytes :: int where
  "HashCostBytes = argonMemoryKiB * 1024"

definition minHashConcurrency :: int where "minHashConcurrency = 2"
definition maxHashConcurrency :: int where "maxHashConcurrency = 64"

definition HashConcurrencyFor :: "64 word \<Rightarrow> int" where
  "HashConcurrencyFor budgetBytes =
     (let n = uint budgetBytes div HashCostBytes
      in if n < minHashConcurrency then minHashConcurrency
         else if n > maxHashConcurrency then maxHashConcurrency else n)"

section \<open>Requests at the gate\<close>

text \<open>
  \<open>Admitted n\<close> has read \<open>n\<close> back from its increment of the in-flight counter and loops to raise the peak;
  \<open>Raising n p\<close> has loaded the peak \<open>p\<close>. \<open>Uncounted\<close> has decremented the counter and still holds its slot.
\<close>

datatype gate_request = Waiting | Holding | Admitted nat | Raising nat nat | Hashing | Uncounted | Finished | Shed

record hashGate =
  hg_limit :: nat
  hg_slots :: nat
  hg_admitted :: nat
  hg_shed :: nat
  hg_peak :: nat
  hg_inFlight :: nat
  hg_requests :: "gate_request list"

definition newHashGate :: "nat \<Rightarrow> hashGate" where
  "newHashGate limit =
     \<lparr>hg_limit = limit, hg_slots = 0, hg_admitted = 0, hg_shed = 0, hg_peak = 0, hg_inFlight = 0, hg_requests = []\<rparr>"

definition at_request :: "hashGate \<Rightarrow> nat \<Rightarrow> gate_request \<Rightarrow> bool" where
  "at_request g i r \<longleftrightarrow> i < length (hg_requests g) \<and> hg_requests g ! i = r"

definition move :: "nat \<Rightarrow> gate_request \<Rightarrow> hashGate \<Rightarrow> hashGate" where
  "move i r g = g\<lparr>hg_requests := (hg_requests g)[i := r]\<rparr>"

text \<open>A limit of zero disables the gate: a slot is then always free.\<close>

inductive gate_step :: "hashGate \<Rightarrow> hashGate \<Rightarrow> bool" where
  arrive: "gate_step g (g\<lparr>hg_requests := hg_requests g @ [Waiting]\<rparr>)"
| acquire: "\<lbrakk>at_request g i Waiting; hg_limit g = 0 \<or> hg_slots g < hg_limit g\<rbrakk> \<Longrightarrow>
    gate_step g (move i Holding (g\<lparr>hg_slots := hg_slots g + 1\<rparr>))"
| shed: "at_request g i Waiting \<Longrightarrow> gate_step g (move i Shed (g\<lparr>hg_shed := hg_shed g + 1\<rparr>))"
| count: "at_request g i Holding \<Longrightarrow>
    gate_step g (move i (Admitted (hg_inFlight g + 1))
      (g\<lparr>hg_admitted := hg_admitted g + 1, hg_inFlight := hg_inFlight g + 1\<rparr>))"
| load_peak: "\<lbrakk>at_request g i (Admitted n); \<not> n \<le> hg_peak g\<rbrakk> \<Longrightarrow> gate_step g (move i (Raising n (hg_peak g)) g)"
| peak_high: "\<lbrakk>at_request g i (Admitted n); n \<le> hg_peak g\<rbrakk> \<Longrightarrow> gate_step g (move i Hashing g)"
| swap: "\<lbrakk>at_request g i (Raising n p); hg_peak g = p\<rbrakk> \<Longrightarrow> gate_step g (move i Hashing (g\<lparr>hg_peak := n\<rparr>))"
| retry: "\<lbrakk>at_request g i (Raising n p); hg_peak g \<noteq> p\<rbrakk> \<Longrightarrow> gate_step g (move i (Admitted n) g)"
| uncount: "at_request g i Hashing \<Longrightarrow> gate_step g (move i Uncounted (g\<lparr>hg_inFlight := hg_inFlight g - 1\<rparr>))"
| release: "at_request g i Uncounted \<Longrightarrow> gate_step g (move i Finished (g\<lparr>hg_slots := hg_slots g - 1\<rparr>))"

section \<open>The ceiling\<close>

text \<open>Which requests hold a slot, and which are counted as in flight.\<close>

fun holds_slot :: "gate_request \<Rightarrow> bool" where
  "holds_slot Waiting = False"
| "holds_slot Finished = False"
| "holds_slot Shed = False"
| "holds_slot _ = True"

fun counted :: "gate_request \<Rightarrow> bool" where
  "counted (Admitted n) = True"
| "counted (Raising n p) = True"
| "counted Hashing = True"
| "counted _ = False"

fun claims :: "gate_request \<Rightarrow> nat" where
  "claims (Admitted n) = n"
| "claims (Raising n p) = n"
| "claims _ = 0"

abbreviation count_requests :: "(gate_request \<Rightarrow> bool) \<Rightarrow> hashGate \<Rightarrow> nat" where
  "count_requests P g \<equiv> length (filter P (hg_requests g))"

definition gate_ok :: "hashGate \<Rightarrow> bool" where
  "gate_ok g \<longleftrightarrow>
     0 < hg_limit g \<and> hg_slots g = count_requests holds_slot g \<and> hg_inFlight g = count_requests counted g \<and>
     hg_slots g \<le> hg_limit g \<and> hg_peak g \<le> hg_limit g \<and> (\<forall>r \<in> set (hg_requests g). claims r \<le> hg_limit g)"

lemma counted_holds: "counted r \<Longrightarrow> holds_slot r"
  by (cases r) simp_all

lemma length_filter_update:
  assumes "i < length xs"
  shows "length (filter P (xs[i := y])) + (if P (xs ! i) then 1 else 0) =
    length (filter P xs) + (if P y then 1 else 0)"
proof -
  have "length (filter P xs) = length (filter P (take i xs @ xs ! i # drop (Suc i) xs))"
    using id_take_nth_drop [OF assms] by simp
  then show ?thesis by (simp add: upd_conv_take_nth_drop [OF assms])
qed

text \<open>A step moves one request and keeps the counters in line with it.\<close>

lemma gate_move:
  assumes "gate_ok g" and "at_request g i r"
    and "hg_slots g' + (if holds_slot r then 1 else 0) = hg_slots g + (if holds_slot r' then 1 else 0)"
    and "hg_inFlight g' + (if counted r then 1 else 0) = hg_inFlight g + (if counted r' then 1 else 0)"
    and "hg_requests g' = (hg_requests g)[i := r']" and "hg_limit g' = hg_limit g"
    and "hg_slots g' \<le> hg_limit g" and "hg_peak g' \<le> hg_limit g" and "claims r' \<le> hg_limit g"
  shows "gate_ok g'"
proof -
  have count: "length (filter P ((hg_requests g)[i := r'])) + (if P r then 1 else 0) =
      count_requests P g + (if P r' then 1 else 0)" for P
    using length_filter_update [of i "hg_requests g" P r'] assms(2) by (simp add: at_request_def)
  have "hg_slots g' = count_requests holds_slot g'" "hg_inFlight g' = count_requests counted g'"
    using assms(1,3,4,5) count [of holds_slot] count [of counted] by (auto simp: gate_ok_def split: if_splits)
  moreover have "\<forall>q \<in> set (hg_requests g'). claims q \<le> hg_limit g"
    using assms(1,5,9) set_update_subset_insert [of "hg_requests g" i r'] by (auto simp: gate_ok_def)
  ultimately show ?thesis using assms(1,6-8) by (simp add: gate_ok_def)
qed

lemma in_flight_le_slots: "gate_ok g \<Longrightarrow> hg_inFlight g \<le> hg_slots g"
proof -
  have "length (filter counted rs) \<le> length (filter holds_slot rs)" for rs
    by (induction rs) (auto simp: counted_holds)
  then show "gate_ok g \<Longrightarrow> hg_inFlight g \<le> hg_slots g" by (simp add: gate_ok_def)
qed

lemma request_at: "at_request g i r \<Longrightarrow> r \<in> set (hg_requests g)"
  by (auto simp: at_request_def)

lemma counters_positive:
  assumes "gate_ok g" and "at_request g i r"
  shows "holds_slot r \<Longrightarrow> 0 < hg_slots g" and "counted r \<Longrightarrow> 0 < hg_inFlight g"
proof -
  have "0 < length (filter P (hg_requests g))" if "P r" for P
    using that request_at [OF assms(2)] by (auto simp: filter_empty_conv)
  then show "holds_slot r \<Longrightarrow> 0 < hg_slots g" and "counted r \<Longrightarrow> 0 < hg_inFlight g"
    using assms(1) by (simp_all add: gate_ok_def)
qed

lemma slot_held_uncounted:
  assumes "gate_ok g" and "at_request g i Holding"
  shows "hg_inFlight g < hg_slots g"
proof -
  have "length (filter counted rs) < length (filter holds_slot rs)" if "Holding \<in> set rs" for rs
  proof -
    have sub: "length (filter counted rs) \<le> length (filter holds_slot rs)" for rs
      by (induction rs) (auto simp: counted_holds)
    from that show ?thesis
    proof (induction rs)
      case (Cons r rs)
      then show ?case using sub [of rs] by (cases r) (auto simp: less_Suc_eq_le)
    qed simp
  qed
  then show ?thesis using assms request_at by (simp add: gate_ok_def)
qed

lemma gate_step_ok:
  assumes "gate_step g g'" and "gate_ok g"
  shows "gate_ok g' \<and> hg_limit g' = hg_limit g"
  using assms
proof (cases rule: gate_step.cases)
  case arrive
  then show ?thesis using assms(2) by (auto simp: gate_ok_def)
next
  case (acquire i)
  then show ?thesis
    using assms(2) gate_move [OF assms(2) acquire(2), of g' Holding] by (simp add: move_def gate_ok_def)
next
  case (shed i)
  then show ?thesis
    using assms(2) gate_move [OF assms(2) shed(2), of g' Shed] by (simp add: move_def gate_ok_def)
next
  case (count i)
  have "hg_inFlight g + 1 \<le> hg_limit g"
    using slot_held_uncounted [OF assms(2) count(2)] assms(2) by (simp add: gate_ok_def)
  then show ?thesis
    using assms(2) count gate_move [OF assms(2) count(2), of g' "Admitted (hg_inFlight g + 1)"]
    by (simp add: move_def gate_ok_def)
next
  case (load_peak i n)
  then show ?thesis
    using assms(2) request_at [OF load_peak(2)] gate_move [OF assms(2) load_peak(2), of g' "Raising n (hg_peak g)"]
    by (auto simp: move_def gate_ok_def)
next
  case (peak_high i n)
  then show ?thesis
    using assms(2) gate_move [OF assms(2) peak_high(2), of g' Hashing] by (simp add: move_def gate_ok_def)
next
  case (swap i n p)
  then show ?thesis
    using assms(2) request_at [OF swap(2)] gate_move [OF assms(2) swap(2), of g' Hashing]
    by (auto simp: move_def gate_ok_def)
next
  case (retry i n p)
  then show ?thesis
    using assms(2) request_at [OF retry(2)] gate_move [OF assms(2) retry(2), of g' "Admitted n"]
    by (auto simp: move_def gate_ok_def)
next
  case (uncount i)
  then show ?thesis
    using assms(2) counters_positive [OF assms(2) uncount(2)] gate_move [OF assms(2) uncount(2), of g' Uncounted]
    by (simp add: move_def gate_ok_def)
next
  case (release i)
  have "hg_slots g - 1 \<le> hg_limit g" using assms(2) by (auto simp: gate_ok_def)
  with release show ?thesis
    using assms(2) counters_positive [OF assms(2) release(2)] gate_move [OF assms(2) release(2), of g' Finished]
    by (simp add: move_def gate_ok_def)
qed

lemma gate_reachable_ok:
  assumes "gate_step\<^sup>*\<^sup>* (newHashGate limit) g" and "0 < limit"
  shows "gate_ok g \<and> hg_limit g = limit"
  using assms
proof (induction rule: rtranclp_induct)
  case base
  then show ?case by (simp add: gate_ok_def newHashGate_def)
next
  case (step g g')
  then show ?case using gate_step_ok by auto
qed

lemma concurrency_bounds: "2 \<le> HashConcurrencyFor b \<and> HashConcurrencyFor b \<le> 64"
  by (simp add: HashConcurrencyFor_def minHashConcurrency_def maxHashConcurrency_def Let_def)

lemma concurrency_fits: "HashConcurrencyFor b * HashCostBytes \<le> max (uint b) (2 * HashCostBytes)"
proof -
  have "uint b div HashCostBytes * HashCostBytes \<le> uint b"
    by (simp add: HashCostBytes_def argonMemoryKiB_def minus_mod_eq_div_mult [symmetric])
  moreover have "64 < uint b div HashCostBytes \<Longrightarrow> 64 * HashCostBytes \<le> uint b div HashCostBytes * HashCostBytes"
    by (rule mult_right_mono) (simp_all add: HashCostBytes_def argonMemoryKiB_def)
  ultimately show ?thesis
    by (auto simp: HashConcurrencyFor_def minHashConcurrency_def maxHashConcurrency_def Let_def)
qed

text \<open>
  C22. The hashing gate holds its memory budget under every interleaving of requests: with the limit sized from
  a budget, no more than \<open>limit\<close> hashes ever run at once, the peak statistic, raised by a compare-and-swap loop
  that races with other requests, never reports more than the limit, and peak times 19 MiB stays within the budget
  (or within the two hashes that are always allowed).
\<close>

theorem gate_within_budget:
  assumes "gate_step\<^sup>*\<^sup>* (newHashGate (nat (HashConcurrencyFor budget))) g"
  shows "int (count_requests counted g) \<le> HashConcurrencyFor budget \<and> int (hg_peak g) \<le> HashConcurrencyFor budget \<and>
    int (hg_peak g) * HashCostBytes \<le> max (uint budget) (2 * HashCostBytes)"
proof -
  have ok: "gate_ok g" "hg_limit g = nat (HashConcurrencyFor budget)"
    using gate_reachable_ok [OF assms] concurrency_bounds [of budget] by auto
  then have le: "int (hg_peak g) \<le> HashConcurrencyFor budget" "int (count_requests counted g) \<le> HashConcurrencyFor budget"
    using in_flight_le_slots [OF ok(1)] concurrency_bounds [of budget] by (auto simp: gate_ok_def)
  moreover have "int (hg_peak g) * HashCostBytes \<le> HashConcurrencyFor budget * HashCostBytes"
    using le(1) by (rule mult_right_mono) (simp add: HashCostBytes_def argonMemoryKiB_def)
  ultimately show ?thesis using concurrency_fits [of budget] by linarith
qed

text \<open>One request, up to its admission, under the smallest limit.\<close>

definition one_admitted :: hashGate where
  "one_admitted = (newHashGate 2)\<lparr>hg_slots := 1, hg_admitted := 1, hg_inFlight := 1, hg_requests := [Admitted 1]\<rparr>"

lemma one_admitted_reachable: "gate_step\<^sup>*\<^sup>* (newHashGate 2) one_admitted"
proof -
  let ?g1 = "(newHashGate 2)\<lparr>hg_requests := [Waiting]\<rparr>"
  let ?g2 = "(newHashGate 2)\<lparr>hg_slots := 1, hg_requests := [Holding]\<rparr>"
  have s1: "gate_step (newHashGate 2) ?g1" using gate_step.arrive [of "newHashGate 2"] by (simp add: newHashGate_def)
  have s2: "gate_step ?g1 ?g2"
    using gate_step.acquire [of ?g1 0] by (simp add: at_request_def newHashGate_def move_def)
  have s3: "gate_step ?g2 one_admitted"
    using gate_step.count [of ?g2 0] by (simp add: at_request_def newHashGate_def move_def one_admitted_def)
  show ?thesis
    by (rule converse_rtranclp_into_rtranclp [of gate_step, OF s1],
        rule converse_rtranclp_into_rtranclp [of gate_step, OF s2], rule r_into_rtranclp [of gate_step, OF s3])
qed

theorem gate_within_budget_witness:
  "int (count_requests counted one_admitted) \<le> HashConcurrencyFor 0 \<and>
    int (hg_peak one_admitted) \<le> HashConcurrencyFor 0 \<and>
    int (hg_peak one_admitted) * HashCostBytes \<le> max (uint (0 :: 64 word)) (2 * HashCostBytes)"
proof -
  have "nat (HashConcurrencyFor 0) = 2" by (simp add: HashConcurrencyFor_def minHashConcurrency_def)
  then show ?thesis using gate_within_budget [of 0 one_admitted] one_admitted_reachable by simp
qed

end
