(* ===== verification/Moderation_Bans.thy ===== *)
theory Moderation_Bans
  imports Auth_DB
begin

text \<open>
  Bans (\<open>internal/moderation/moderation.go\<close>, \<open>handler.go\<close>, the statements of \<open>moderationdb\<close> and the view
  \<open>active_bans\<close> of migration 00012): who is restricted at an instant, issuing, amending and revoking, the
  resolution of what a moderator types, and the handlers.

  A statement runs at an instant of the database's clock. Issuing and revoking are two statements each, outside
  a transaction; the handlers give each its own instant, and the two halves are definitions of their own, so
  that two moderators can be interleaved. \<open>time.ParseDuration\<close> and \<open>time.Parse\<close> with RFC 3339 are arguments.
\<close>

section \<open>Tables\<close>

record 'u Ban =
  bn_ID :: 'u
  bn_UserID :: 'u
  bn_Reason :: string
  bn_IssuedBy :: "string option"
  bn_IssuedByUser :: "'u option"
  bn_IssuedAt :: int
  bn_ExpiresAt :: "int option"
  bn_RevokedAt :: "int option"
  bn_RevokedByUser :: "'u option"

record 'u Actor =
  ac_ID :: 'u
  ac_Name :: string

record 'u ban_db =
  bd_accounts :: "'u auth_db"
  bd_bans :: "'u Ban list"

section \<open>Who is restricted\<close>

definition in_force :: "int \<Rightarrow> 'u Ban \<Rightarrow> bool" where
  "in_force now b \<longleftrightarrow>
     bn_RevokedAt b = None \<and> (case bn_ExpiresAt b of None \<Rightarrow> True | Some t \<Rightarrow> t > now)"

definition active_bans :: "int \<Rightarrow> 'u Ban list \<Rightarrow> 'u list" where
  "active_bans now bans = map bn_UserID (filter (in_force now) bans)"

definition IsRestricted :: "int \<Rightarrow> 'u Ban list \<Rightarrow> 'u \<Rightarrow> bool" where
  "IsRestricted now bans uid \<longleftrightarrow> uid \<in> set (active_bans now bans)"

text \<open>\<open>Ban.Active\<close>: the display-only twin of the view's predicate, at the service's clock.\<close>

definition Ban_Active :: "'u Ban \<Rightarrow> int \<Rightarrow> bool" where
  "Ban_Active b now \<longleftrightarrow>
     bn_RevokedAt b = None \<and> (bn_ExpiresAt b = None \<or> the (bn_ExpiresAt b) > now)"

section \<open>Statements\<close>

text \<open>
  \<open>ORDER BY issued_at DESC LIMIT 1\<close>. Among rows issued at the same instant PostgreSQL may return any; the
  definition returns the first, and no theorem depends on the choice.
\<close>

fun latest :: "'u Ban list \<Rightarrow> 'u Ban option" where
  "latest [] = None"
| "latest (b # bs) =
     (case latest bs of
        None \<Rightarrow> Some b
      | Some c \<Rightarrow> Some (if bn_IssuedAt c > bn_IssuedAt b then c else b))"

definition ActiveBanFor :: "int \<Rightarrow> 'u Ban list \<Rightarrow> 'u \<Rightarrow> 'u Ban option" where
  "ActiveBanFor now bans uid =
     latest (filter (\<lambda>b. bn_UserID b = uid \<and> IsRestricted now bans (bn_UserID b) \<and> in_force now b) bans)"

definition auditID :: "'u uuid_lib \<Rightarrow> 'u Actor \<Rightarrow> 'u option" where
  "auditID L a = (if ac_ID a = uuid_Nil L then None else Some (ac_ID a))"

definition fk_ok :: "'u auth_db \<Rightarrow> 'u option \<Rightarrow> bool" where
  "fk_ok db ref \<longleftrightarrow> (case ref of None \<Rightarrow> True | Some u \<Rightarrow> user_exists db u)"

text \<open>\<open>None\<close> is a failed statement: a taken id or a reference that does not resolve.\<close>

definition InsertBan ::
  "'u \<Rightarrow> int \<Rightarrow> 'u \<Rightarrow> string \<Rightarrow> string \<Rightarrow> 'u option \<Rightarrow> int option \<Rightarrow> 'u ban_db \<Rightarrow> ('u Ban \<times> 'u ban_db) option" where
  "InsertBan bid now uid reason by byUser expires db =
     (if list_ex (\<lambda>b. bn_ID b = bid) (bd_bans db) then None
      else if \<not> user_exists (bd_accounts db) uid \<or> \<not> fk_ok (bd_accounts db) byUser then None
      else let b = \<lparr>bn_ID = bid, bn_UserID = uid, bn_Reason = reason, bn_IssuedBy = Some by, bn_IssuedByUser = byUser,
                    bn_IssuedAt = now, bn_ExpiresAt = expires, bn_RevokedAt = None, bn_RevokedByUser = None\<rparr>
           in Some (b, db\<lparr>bd_bans := bd_bans db @ [b]\<rparr>))"

definition update_bans :: "('u Ban \<Rightarrow> bool) \<Rightarrow> ('u Ban \<Rightarrow> 'u Ban) \<Rightarrow> 'u ban_db \<Rightarrow> 'u ban_db" where
  "update_bans P f db = db\<lparr>bd_bans := map (\<lambda>b. if P b then f b else b) (bd_bans db)\<rparr>"

definition UpdateBan ::
  "int \<Rightarrow> 'u \<Rightarrow> string \<Rightarrow> string \<Rightarrow> 'u option \<Rightarrow> int option \<Rightarrow> 'u ban_db \<Rightarrow> ('u Ban \<times> 'u ban_db) option" where
  "UpdateBan now bid reason by byUser expires db =
     (let P = (\<lambda>b. bn_ID b = bid);
          f = (\<lambda>b. b\<lparr>bn_Reason := reason, bn_IssuedBy := Some by, bn_IssuedByUser := byUser,
                    bn_ExpiresAt := expires, bn_IssuedAt := now\<rparr>)
      in case find_first P (bd_bans db) of
           None \<Rightarrow> None
         | Some b \<Rightarrow> if \<not> fk_ok (bd_accounts db) byUser then None else Some (f b, update_bans P f db))"

text \<open>The outer \<open>None\<close> is a failed statement, the inner one no matching row.\<close>

definition RevokeBan ::
  "int \<Rightarrow> 'u \<Rightarrow> 'u option \<Rightarrow> 'u ban_db \<Rightarrow> ('u Ban option \<times> 'u ban_db) option" where
  "RevokeBan now bid byUser db =
     (let P = (\<lambda>b. bn_ID b = bid \<and> bn_RevokedAt b = None);
          f = (\<lambda>b. b\<lparr>bn_RevokedAt := Some now, bn_RevokedByUser := byUser\<rparr>)
      in case find_first P (bd_bans db) of
           None \<Rightarrow> Some (None, db)
         | Some b \<Rightarrow> if \<not> fk_ok (bd_accounts db) byUser then None else Some (Some (f b), update_bans P f db))"

section \<open>The store\<close>

record 'u BanResult =
  br_Ban :: "'u Ban"
  br_Amended :: bool
  br_Previous :: "'u Ban option"

text \<open>\<open>Store.Ban\<close> after its lookup returned \<open>existing\<close>.\<close>

definition Ban_write ::
  "'u uuid_lib \<Rightarrow> 'u \<Rightarrow> int \<Rightarrow> 'u \<Rightarrow> string \<Rightarrow> 'u Actor \<Rightarrow> int option \<Rightarrow> 'u Ban option \<Rightarrow> 'u ban_db
     \<Rightarrow> ('u BanResult \<times> 'u ban_db) option" where
  "Ban_write L bid now uid reason by expires existing db =
     (case existing of
        None \<Rightarrow>
          map_option (\<lambda>(b, db'). (\<lparr>br_Ban = b, br_Amended = False, br_Previous = None\<rparr>, db'))
            (InsertBan bid now uid reason (ac_Name by) (auditID L by) expires db)
      | Some before \<Rightarrow>
          map_option (\<lambda>(b, db'). (\<lparr>br_Ban = b, br_Amended = True, br_Previous = Some before\<rparr>, db'))
            (UpdateBan now (bn_ID before) reason (ac_Name by) (auditID L by) expires db))"

definition Store_Ban ::
  "'u uuid_lib \<Rightarrow> 'u \<Rightarrow> int \<Rightarrow> int \<Rightarrow> 'u \<Rightarrow> string \<Rightarrow> 'u Actor \<Rightarrow> int option \<Rightarrow> 'u ban_db
     \<Rightarrow> ('u BanResult \<times> 'u ban_db) option" where
  "Store_Ban L bid now now' uid reason by expires db =
     Ban_write L bid now' uid reason by expires (ActiveBanFor now (bd_bans db) uid) db"

text \<open>\<open>Store.Unban\<close>; the inner \<open>None\<close> is \<open>ErrNotBanned\<close>.\<close>

definition Unban_write ::
  "'u uuid_lib \<Rightarrow> int \<Rightarrow> 'u Actor \<Rightarrow> 'u Ban option \<Rightarrow> 'u ban_db \<Rightarrow> ('u Ban option \<times> 'u ban_db) option" where
  "Unban_write L now by existing db =
     (case existing of
        None \<Rightarrow> Some (None, db)
      | Some b \<Rightarrow> RevokeBan now (bn_ID b) (auditID L by) db)"

definition Store_Unban ::
  "'u uuid_lib \<Rightarrow> int \<Rightarrow> int \<Rightarrow> 'u \<Rightarrow> 'u Actor \<Rightarrow> 'u ban_db \<Rightarrow> ('u Ban option \<times> 'u ban_db) option" where
  "Store_Unban L now now' uid by db = Unban_write L now' by (ActiveBanFor now (bd_bans db) uid) db"

text \<open>
  The two listings, with the display name of the account and whether the account is restricted; newest first,
  rows of the same instant in table order.
\<close>

definition ban_rows :: "int \<Rightarrow> 'u ban_db \<Rightarrow> ('u Ban \<Rightarrow> bool) \<Rightarrow> ('u Ban \<times> string \<times> bool) list" where
  "ban_rows now db P =
     concat (map (\<lambda>b. case GetUserByID (bd_accounts db) (bn_UserID b) of
                        Inl _ \<Rightarrow> []
                      | Inr u \<Rightarrow> [(b, u_DisplayName u, IsRestricted now (bd_bans db) (bn_UserID b))])
       (sort_key (\<lambda>b. - bn_IssuedAt b) (filter P (bd_bans db))))"

definition ListBans :: "int \<Rightarrow> bool \<Rightarrow> int \<Rightarrow> 'u ban_db \<Rightarrow> ('u Ban \<times> string \<times> bool) list" where
  "ListBans now onlyActive limit db = take (nat limit) (ban_rows now db (\<lambda>b. \<not> onlyActive \<or> in_force now b))"

definition History :: "int \<Rightarrow> 'u \<Rightarrow> 'u ban_db \<Rightarrow> ('u Ban \<times> string \<times> bool) list" where
  "History now uid db = ban_rows now db (\<lambda>b. bn_UserID b = uid)"

section \<open>Resolving an account\<close>

datatype 'u resolve_error = ErrNoSuchUser | ErrAmbiguousUser "'u User list"

text \<open>\<open>lower\<close> on a \<open>citext\<close> address and the equality of \<open>citext\<close> are both \<open>ci\<close>.\<close>

definition ResolveUserByEmail :: "(string \<Rightarrow> string) \<Rightarrow> 'u::linorder auth_db \<Rightarrow> string \<Rightarrow> 'u User list" where
  "ResolveUserByEmail ci db email =
     take 10 (sort_key u_ID (filter (\<lambda>u. list_ex (\<lambda>i. id_UserID i = u_ID u \<and> map_option ci (id_Email i) = Some (ci email))
       (ad_identities db)) (ad_users db)))"

definition ResolveUserByDisplayName :: "(string \<Rightarrow> string) \<Rightarrow> 'u::linorder auth_db \<Rightarrow> string \<Rightarrow> 'u User list" where
  "ResolveUserByDisplayName ci db name =
     take 10 (sort_key u_ID (filter (\<lambda>u. ci (u_DisplayName u) = ci name) (ad_users db)))"

fun first_hit :: "'u User list list \<Rightarrow> ('u resolve_error, 'u User) result" where
  "first_hit [] = Inl ErrNoSuchUser"
| "first_hit ([] # rest) = first_hit rest"
| "first_hit ([u] # rest) = Inr u"
| "first_hit ((u # v # us) # rest) = Inl (ErrAmbiguousUser (u # v # us))"

definition ResolveUser ::
  "'u uuid_lib \<Rightarrow> (string \<Rightarrow> string) \<Rightarrow> 'u::linorder auth_db \<Rightarrow> string \<Rightarrow> ('u resolve_error, 'u User) result" where
  "ResolveUser L ci db identifier =
     (case uuid_Parse L identifier of
        Some uid \<Rightarrow> (case GetUserByID db uid of Inl _ \<Rightarrow> Inl ErrNoSuchUser | Inr u \<Rightarrow> Inr u)
      | None \<Rightarrow> first_hit [ResolveUserByEmail ci db identifier, ResolveUserByDisplayName ci db identifier])"

section \<open>Handlers\<close>

record time_lib =
  tl_ParseDuration :: "string \<Rightarrow> int option"
  tl_ParseRFC3339 :: "string \<Rightarrow> int option"

text \<open>The outer \<open>None\<close> is the refusal, the inner one a permanent ban.\<close>

definition parseUntil :: "time_lib \<Rightarrow> string \<Rightarrow> int \<Rightarrow> int option option" where
  "parseUntil T until now =
     (if until = [] then Some None
      else case tl_ParseDuration T until of
        Some d \<Rightarrow> if d \<le> 0 then None else Some (Some (now + d))
      | None \<Rightarrow>
          (case tl_ParseRFC3339 T until of
             None \<Rightarrow> None
           | Some t \<Rightarrow> if \<not> t > now then None else Some (Some t)))"

record 'u banView =
  bv_ban :: "'u Ban"
  bv_DisplayName :: string
  bv_IssuedBy :: string
  bv_Active :: bool

definition toBanView :: "'u Ban \<Rightarrow> string \<Rightarrow> int \<Rightarrow> 'u banView" where
  "toBanView b name now =
     \<lparr>bv_ban = b, bv_DisplayName = name, bv_IssuedBy = (case bn_IssuedBy b of None \<Rightarrow> [] | Some s \<Rightarrow> s),
      bv_Active = Ban_Active b now\<rparr>"

datatype 'u ban_reply =
    ModError nat string
  | ModNotFound
  | AmbiguousUser "'u User list"
  | BanList "'u banView list"
  | UserBans "'u User" bool "'u banView list"
  | BanDone "'u User" "'u banView" bool "'u banView option"
  | Unbanned "'u banView option"

text \<open>The service's clock, the instants of the two statements, and the id of a new row.\<close>

record 'u ban_env =
  be_now :: int
  be_db_now :: int
  be_db_later :: int
  be_id :: 'u

definition mod_internal :: "'u ban_reply" where
  "mod_internal = ModError 500 ''internal''"

definition resolve ::
  "'u uuid_lib \<Rightarrow> (string \<Rightarrow> string) \<Rightarrow> 'u::linorder auth_db \<Rightarrow> string \<Rightarrow> ('u ban_reply, 'u User) result" where
  "resolve L ci db identifier =
     (case ResolveUser L ci db identifier of
        Inl (ErrAmbiguousUser us) \<Rightarrow> Inl (AmbiguousUser us)
      | Inl ErrNoSuchUser \<Rightarrow> Inl ModNotFound
      | Inr u \<Rightarrow> Inr u)"

definition handleListBans :: "'u ban_env \<Rightarrow> string \<Rightarrow> string \<Rightarrow> 'u ban_db \<Rightarrow> 'u ban_reply" where
  "handleListBans E active limit db =
     BanList (map (\<lambda>(b, name, r). toBanView b name (be_now E))
       (ListBans (be_db_now E) (active \<noteq> ''0'') (ParseLimit limit 100 500) db))"

definition handleUserBans ::
  "'u uuid_lib \<Rightarrow> (string \<Rightarrow> string) \<Rightarrow> 'u::linorder ban_env \<Rightarrow> string \<Rightarrow> 'u ban_db \<Rightarrow> 'u ban_reply" where
  "handleUserBans L ci E identifier db =
     (case resolve L ci (bd_accounts db) identifier of
        Inl r \<Rightarrow> r
      | Inr u \<Rightarrow>
          UserBans u (IsRestricted (be_db_later E) (bd_bans db) (u_ID u))
            (map (\<lambda>(b, name, r). toBanView b name (be_now E)) (History (be_db_now E) (u_ID u) db)))"

record banRequest =
  bq_User :: string
  bq_Reason :: string
  bq_Until :: string

definition handleBan ::
  "'u uuid_lib \<Rightarrow> time_lib \<Rightarrow> (string \<Rightarrow> string) \<Rightarrow> 'u::linorder ban_env \<Rightarrow> 'u Actor option \<Rightarrow> banRequest option \<Rightarrow> 'u ban_db
     \<Rightarrow> 'u ban_reply \<times> 'u ban_db" where
  "handleBan L T ci E actor body db =
     (case body of
        None \<Rightarrow> (ModError 400 ''bad_request'', db)
      | Some req \<Rightarrow>
          if bq_Reason req = [] then (ModError 400 ''reason_required'', db)
          else case parseUntil T (bq_Until req) (be_now E) of
            None \<Rightarrow> (ModError 400 ''bad_until'', db)
          | Some expires \<Rightarrow>
              (case resolve L ci (bd_accounts db) (bq_User req) of
                 Inl r \<Rightarrow> (r, db)
               | Inr u \<Rightarrow>
                   (case actor of
                      None \<Rightarrow> (ModNotFound, db)
                    | Some by \<Rightarrow>
                        (case Store_Ban L (be_id E) (be_db_now E) (be_db_later E) (u_ID u) (bq_Reason req) by expires db of
                           None \<Rightarrow> (mod_internal, db)
                         | Some (res, db') \<Rightarrow>
                             (BanDone u (toBanView (br_Ban res) [] (be_now E)) (br_Amended res)
                                (map_option (\<lambda>b. toBanView b [] (be_now E)) (br_Previous res)), db')))))"

definition handleUnban ::
  "'u uuid_lib \<Rightarrow> 'u ban_env \<Rightarrow> 'u Actor option \<Rightarrow> string \<Rightarrow> 'u ban_db \<Rightarrow> 'u ban_reply \<times> 'u ban_db" where
  "handleUnban L E actor target db =
     (case uuid_Parse L target of
        None \<Rightarrow> (ModError 400 ''bad_user_id'', db)
      | Some uid \<Rightarrow>
          (case actor of
             None \<Rightarrow> (ModNotFound, db)
           | Some by \<Rightarrow>
               (case Store_Unban L (be_db_now E) (be_db_later E) uid by db of
                  None \<Rightarrow> (mod_internal, db)
                | Some (None, db') \<Rightarrow> (Unbanned None, db')
                | Some (Some b, db') \<Rightarrow> (Unbanned (Some (toBanView b [] (be_now E))), db'))))"

end
