(* ===== verification/Moderation_Ban_Properties.thy ===== *)
theory Moderation_Ban_Properties
  imports Moderation_Bans
begin

text \<open>
  What the ban surface promises when its handlers run one after another, and what it does when the statements of
  two of them interleave. The specification is a timetable: for every account, the instants at which it is
  restricted. Issuing replaces an account's entry and revoking clears it, whatever rows the table holds.
\<close>

section \<open>Rows and the passing of time\<close>

lemma in_force_earlier: "in_force t b \<Longrightarrow> s \<le> t \<Longrightarrow> in_force s b"
  by (auto simp: in_force_def split: option.splits)

lemma IsRestricted_iff: "IsRestricted t bans uid \<longleftrightarrow> (\<exists>b \<in> set bans. bn_UserID b = uid \<and> in_force t b)"
  by (auto simp: IsRestricted_def active_bans_def)

lemma Ban_Active_in_force: "Ban_Active b now \<longleftrightarrow> in_force now b"
  by (auto simp: Ban_Active_def in_force_def split: option.splits)

lemma latest_None: "latest bs = None \<longleftrightarrow> bs = []"
  by (induction bs rule: latest.induct) (auto split: option.splits)

lemma latest_in: "latest bs = Some b \<Longrightarrow> b \<in> set bs"
  by (induction bs arbitrary: b rule: latest.induct) (auto split: option.splits if_splits)

lemma ActiveBanFor_None: "ActiveBanFor now bans uid = None \<longleftrightarrow> \<not> IsRestricted now bans uid"
  by (auto simp: ActiveBanFor_def latest_None filter_empty_conv IsRestricted_iff)

lemma ActiveBanFor_Some:
  "ActiveBanFor now bans uid = Some b \<Longrightarrow> b \<in> set bans \<and> bn_UserID b = uid \<and> in_force now b"
  unfolding ActiveBanFor_def by (auto dest: latest_in)

section \<open>The invariant\<close>

definition ban_ok :: "int \<Rightarrow> 'u ban_db \<Rightarrow> bool" where
  "ban_ok now db \<longleftrightarrow>
     distinct (map bn_ID (bd_bans db)) \<and>
     (\<forall>b \<in> set (bd_bans db). \<forall>c \<in> set (bd_bans db).
        in_force now b \<longrightarrow> in_force now c \<longrightarrow> bn_UserID b = bn_UserID c \<longrightarrow> b = c)"

lemma ban_ok_later: "ban_ok s db \<Longrightarrow> s \<le> t \<Longrightarrow> ban_ok t db"
  unfolding ban_ok_def by (meson in_force_earlier)

lemma ban_ok_unique:
  "\<lbrakk>ban_ok now db; b \<in> set (bd_bans db); c \<in> set (bd_bans db); in_force now b; in_force now c; bn_UserID b = bn_UserID c\<rbrakk>
     \<Longrightarrow> b = c"
  by (auto simp: ban_ok_def)

lemma same_id:
  "\<lbrakk>ban_ok now db; b \<in> set (bd_bans db); c \<in> set (bd_bans db); bn_ID b = bn_ID c\<rbrakk> \<Longrightarrow> b = c"
  by (auto simp: ban_ok_def distinct_map dest: inj_onD)

text \<open>Rewriting one row, the only one in force for its account, into another row of that account.\<close>

lemma update_one:
  assumes ok: "ban_ok now db" and b: "b \<in> set (bd_bans db)" "in_force now b" and "now \<le> later"
    and P: "\<forall>c \<in> set (bd_bans db). P c \<longleftrightarrow> c = b" and f: "bn_ID (f b) = bn_ID b" "bn_UserID (f b) = bn_UserID b"
  shows "ban_ok later (update_bans P f db)"
    and "t \<ge> later \<Longrightarrow> IsRestricted t (bd_bans (update_bans P f db)) uid =
      (if uid = bn_UserID b then in_force t (f b) else IsRestricted t (bd_bans db) uid)"
proof -
  let ?g = "\<lambda>c. if P c then f c else c"
  have bans: "bd_bans (update_bans P f db) = map ?g (bd_bans db)" by (simp add: update_bans_def)
  have g: "?g c = (if c = b then f b else c)" if "c \<in> set (bd_bans db)" for c using P that by auto
  have others: "\<not> in_force t c" if "c \<in> set (bd_bans db)" "c \<noteq> b" "bn_UserID c = bn_UserID b" "t \<ge> now" for c t
    using ban_ok_unique [OF ok that(1) b(1) _ b(2) that(3)] that(2,4) in_force_earlier by blast
  have "map bn_ID (map ?g (bd_bans db)) = map bn_ID (bd_bans db)" using f(1) g by auto
  with ok have ids: "distinct (map bn_ID (map ?g (bd_bans db)))" unfolding ban_ok_def by metis
  have "x = y" if xy: "x \<in> ?g ` set (bd_bans db)" "y \<in> ?g ` set (bd_bans db)" "in_force later x" "in_force later y"
    "bn_UserID x = bn_UserID y" for x y
  proof -
    obtain c d where c: "c \<in> set (bd_bans db)" "x = (if c = b then f b else c)" and d: "d \<in> set (bd_bans db)" "y = (if d = b then f b else d)"
      using xy(1,2) g by auto
    have owner: "e = b" if "e \<in> set (bd_bans db)" "in_force later (if e = b then f b else e)"
      "bn_UserID (if e = b then f b else e) = bn_UserID b" for e
      using others [OF that(1) _ _ \<open>now \<le> later\<close>] that(2,3) by (cases "e = b") simp_all
    show ?thesis
    proof (cases "bn_UserID x = bn_UserID b")
      case True
      then have "c = b" by (intro owner [OF c(1), folded c(2)] xy(3))
      moreover from True have "d = b" unfolding xy(5) by (intro owner [OF d(1), folded d(2)] xy(4))
      ultimately show ?thesis using c(2) d(2) by simp
    next
      case False
      have "c \<noteq> b" using False c(2) f(2) by (metis (full_types))
      moreover have "d \<noteq> b" using False d(2) f(2) xy(5) by (metis (full_types))
      ultimately have "x = c" "y = d" using c(2) d(2) by simp_all
      then show ?thesis
        using ban_ok_unique [OF ban_ok_later [OF ok \<open>now \<le> later\<close>] c(1) d(1)] xy(3-5) by simp
    qed
  qed
  then show "ban_ok later (update_bans P f db)" using ids by (simp add: ban_ok_def bans)
  show "IsRestricted t (bd_bans (update_bans P f db)) uid =
      (if uid = bn_UserID b then in_force t (f b) else IsRestricted t (bd_bans db) uid)" if "t \<ge> later"
  proof -
    have t: "t \<ge> now" using that \<open>now \<le> later\<close> by simp
    have "IsRestricted t (bd_bans (update_bans P f db)) uid \<longleftrightarrow>
        (\<exists>c \<in> set (bd_bans db). bn_UserID (if c = b then f b else c) = uid \<and> in_force t (if c = b then f b else c))"
      using g by (auto simp: bans IsRestricted_iff)
    then show ?thesis using others [OF _ _ _ t] b(1) f(2) by (auto simp: IsRestricted_iff split: if_splits)
  qed
qed

lemma InsertBan_Some:
  assumes ok: "ban_ok now db" and free: "\<not> IsRestricted now (bd_bans db) uid" and "now \<le> later"
    and ins: "InsertBan bid later uid reason by byUser expires db = Some (b, db')"
  shows "ban_ok later db'" and "bd_accounts db' = bd_accounts db"
    and "t \<ge> later \<Longrightarrow> IsRestricted t (bd_bans db') x =
      (if x = uid then (case expires of None \<Rightarrow> True | Some e \<Rightarrow> t < e) else IsRestricted t (bd_bans db) x)"
proof -
  have b: "bn_ID b = bid" "bn_UserID b = uid" "bn_RevokedAt b = None" "bn_ExpiresAt b = expires"
    and bans: "bd_bans db' = bd_bans db @ [b]" and new: "bid \<notin> bn_ID ` set (bd_bans db)"
    and "bd_accounts db' = bd_accounts db"
    using ins by (auto simp: InsertBan_def Let_def list_ex_iff split: if_splits)
  show "bd_accounts db' = bd_accounts db" by fact
  have none: "\<not> in_force t c" if "c \<in> set (bd_bans db)" "bn_UserID c = uid" "t \<ge> now" for c t
    using free that in_force_earlier by (fastforce simp: IsRestricted_iff)
  show "ban_ok later db'"
    using ban_ok_later [OF ok \<open>now \<le> later\<close>] new none b \<open>now \<le> later\<close> by (auto simp: ban_ok_def bans)
  show "IsRestricted t (bd_bans db') x =
      (if x = uid then (case expires of None \<Rightarrow> True | Some e \<Rightarrow> t < e) else IsRestricted t (bd_bans db) x)" if "t \<ge> later"
  proof -
    have "in_force t b \<longleftrightarrow> (case expires of None \<Rightarrow> True | Some e \<Rightarrow> t < e)" using b by (simp add: in_force_def)
    then show ?thesis using none that \<open>now \<le> later\<close> b(2) by (auto simp: IsRestricted_iff bans)
  qed
qed

section \<open>Issuing and revoking\<close>

lemma Store_Ban_timetable:
  assumes ok: "ban_ok now db" and "now \<le> later"
    and done_ban: "Store_Ban L bid now later uid reason by expires db = Some (res, db')"
  shows "ban_ok later db'" and "bd_accounts db' = bd_accounts db"
    and "t \<ge> later \<Longrightarrow> IsRestricted t (bd_bans db') x =
      (if x = uid then (case expires of None \<Rightarrow> True | Some e \<Rightarrow> t < e) else IsRestricted t (bd_bans db) x)"
proof -
  have "ban_ok later db' \<and> bd_accounts db' = bd_accounts db \<and>
    (t \<ge> later \<longrightarrow> IsRestricted t (bd_bans db') x =
      (if x = uid then (case expires of None \<Rightarrow> True | Some e \<Rightarrow> t < e) else IsRestricted t (bd_bans db) x))" for t x
  proof (cases "ActiveBanFor now (bd_bans db) uid")
    case None
    then obtain b where "InsertBan bid later uid reason (ac_Name by) (auditID L by) expires db = Some (b, db')"
      using done_ban by (auto simp: Store_Ban_def Ban_write_def)
    from InsertBan_Some [OF ok None [unfolded ActiveBanFor_None] \<open>now \<le> later\<close> this] show ?thesis by blast
  next
    case (Some b)
    note b = ActiveBanFor_Some [OF Some]
    let ?f = "\<lambda>c. c\<lparr>bn_Reason := reason, bn_IssuedBy := Some (ac_Name by), bn_IssuedByUser := auditID L by,
      bn_ExpiresAt := expires, bn_IssuedAt := later\<rparr>"
    have db': "db' = update_bans (\<lambda>c. bn_ID c = bn_ID b) ?f db"
      using done_ban Some by (auto simp: Store_Ban_def Ban_write_def UpdateBan_def Let_def split: option.splits if_splits)
    have P: "\<forall>c \<in> set (bd_bans db). bn_ID c = bn_ID b \<longleftrightarrow> c = b" using same_id [OF ok] b by blast
    have force: "in_force t (?f b) \<longleftrightarrow> (case expires of None \<Rightarrow> True | Some e \<Rightarrow> t < e)"
      using b by (simp add: in_force_def)
    have "bd_accounts db' = bd_accounts db" by (simp add: db' update_bans_def)
    then show ?thesis
      using update_one [OF ok _ _ \<open>now \<le> later\<close> P, of ?f] b unfolding db' force [symmetric] by simp
  qed
  then show "ban_ok later db'" "bd_accounts db' = bd_accounts db"
    "t \<ge> later \<Longrightarrow> IsRestricted t (bd_bans db') x =
      (if x = uid then (case expires of None \<Rightarrow> True | Some e \<Rightarrow> t < e) else IsRestricted t (bd_bans db) x)"
    by blast+
qed

lemma Store_Unban_timetable:
  assumes ok: "ban_ok now db" and "now \<le> later" and done_unban: "Store_Unban L now later uid by db = Some (res, db')"
  shows "ban_ok later db'" and "bd_accounts db' = bd_accounts db"
    and "t \<ge> later \<Longrightarrow> IsRestricted t (bd_bans db') x = (x \<noteq> uid \<and> IsRestricted t (bd_bans db) x)"
proof -
  have "ban_ok later db' \<and> bd_accounts db' = bd_accounts db \<and>
    (t \<ge> later \<longrightarrow> IsRestricted t (bd_bans db') x = (x \<noteq> uid \<and> IsRestricted t (bd_bans db) x))" for t x
  proof (cases "ActiveBanFor now (bd_bans db) uid")
    case None
    then have "db' = db" using done_unban by (simp add: Store_Unban_def Unban_write_def)
    moreover have "\<not> IsRestricted t (bd_bans db) uid" if "t \<ge> later"
      using None that \<open>now \<le> later\<close> in_force_earlier by (fastforce simp: ActiveBanFor_None IsRestricted_iff)
    ultimately show ?thesis using ban_ok_later [OF ok \<open>now \<le> later\<close>] by auto
  next
    case (Some b)
    note b = ActiveBanFor_Some [OF Some]
    let ?f = "\<lambda>c. c\<lparr>bn_RevokedAt := Some later, bn_RevokedByUser := auditID L by\<rparr>"
    let ?P = "\<lambda>c. bn_ID c = bn_ID b \<and> bn_RevokedAt c = None"
    have live: "bn_RevokedAt b = None" using b by (simp add: in_force_def)
    then have "find_first ?P (bd_bans db) \<noteq> None" using b by (auto simp: find_first_None_iff)
    then have db': "db' = update_bans ?P ?f db"
      using done_unban Some
      by (auto simp: Store_Unban_def Unban_write_def RevokeBan_def Let_def split: option.splits if_splits)
    have P: "\<forall>c \<in> set (bd_bans db). ?P c \<longleftrightarrow> c = b" using same_id [OF ok] b live by blast
    have "\<not> in_force t (?f b)" by (simp add: in_force_def)
    then show ?thesis
      using update_one [OF ok _ _ \<open>now \<le> later\<close> P, of ?f] b by (auto simp: db' update_bans_def)
  qed
  then show "ban_ok later db'" "bd_accounts db' = bd_accounts db"
    "t \<ge> later \<Longrightarrow> IsRestricted t (bd_bans db') x = (x \<noteq> uid \<and> IsRestricted t (bd_bans db) x)"
    by blast+
qed

section \<open>Histories\<close>

text \<open>
  Handlers one after another, the database's clock never running backwards; accounts may change in between.
\<close>

inductive ban_step :: "'u::linorder uuid_lib \<Rightarrow> time_lib \<Rightarrow> (string \<Rightarrow> string) \<Rightarrow> int \<times> 'u ban_db \<Rightarrow> int \<times> 'u ban_db \<Rightarrow> bool"
  for L T ci where
  ban: "\<lbrakk>now \<le> be_db_now E; be_db_now E \<le> be_db_later E; handleBan L T ci E actor body db = (r, db')\<rbrakk>
    \<Longrightarrow> ban_step L T ci (now, db) (be_db_later E, db')"
| unban: "\<lbrakk>now \<le> be_db_now E; be_db_now E \<le> be_db_later E; handleUnban L E actor target db = (r, db')\<rbrakk>
    \<Longrightarrow> ban_step L T ci (now, db) (be_db_later E, db')"
| accounts: "ban_step L T ci (now, db) (now, db\<lparr>bd_accounts := accounts\<rparr>)"

definition ban_reachable :: "'u::linorder uuid_lib \<Rightarrow> time_lib \<Rightarrow> (string \<Rightarrow> string) \<Rightarrow> int \<Rightarrow> 'u ban_db \<Rightarrow> bool" where
  "ban_reachable L T ci now db \<longleftrightarrow> (\<exists>start accounts. (ban_step L T ci)\<^sup>*\<^sup>* (start, \<lparr>bd_accounts = accounts, bd_bans = []\<rparr>) (now, db))"

lemma handleBan_cases:
  assumes "handleBan L T ci E actor body db = (r, db')"
  obtains "db' = db" "\<forall>u v am prev. r \<noteq> BanDone u v am prev"
  | req who u expires res where "body = Some req" "parseUntil T (bq_Until req) (be_now E) = Some expires"
      "Store_Ban L (be_id E) (be_db_now E) (be_db_later E) (u_ID u) (bq_Reason req) who expires db = Some (res, db')"
      "r = BanDone u (toBanView (br_Ban res) [] (be_now E)) (br_Amended res)
         (map_option (\<lambda>b. toBanView b [] (be_now E)) (br_Previous res))"
  using assms
  by (auto simp: handleBan_def mod_internal_def resolve_def
      split: option.splits if_splits sum.splits prod.splits resolve_error.splits)

lemma handleUnban_cases:
  assumes "handleUnban L E actor target db = (r, db')"
  obtains "db' = db" "\<forall>v. r \<noteq> Unbanned v"
  | uid who b where "uuid_Parse L target = Some uid" "Store_Unban L (be_db_now E) (be_db_later E) uid who db = Some (b, db')"
      "r = Unbanned (map_option (\<lambda>b. toBanView b [] (be_now E)) b)"
  using assms by (auto simp: handleUnban_def mod_internal_def split: option.splits prod.splits)

lemma ban_step_ok:
  assumes "ban_step L T ci s s'" and "ban_ok (fst s) (snd s)"
  shows "ban_ok (fst s') (snd s')"
  using assms
proof (induction rule: ban_step.induct)
  case (ban now E actor body db r db')
  then have ok: "ban_ok (be_db_now E) db" using ban_ok_later by auto
  from ban(3) show ?case
    by (cases rule: handleBan_cases)
      (use ok ban(2) ban_ok_later Store_Ban_timetable(1) [OF ok ban(2)] in auto)
next
  case (unban now E actor target db r db')
  then have ok: "ban_ok (be_db_now E) db" using ban_ok_later by auto
  from unban(3) show ?case
    by (cases rule: handleUnban_cases)
      (use ok unban(2) ban_ok_later Store_Unban_timetable(1) [OF ok unban(2)] in auto)
qed (simp add: ban_ok_def)

lemma ban_reachable_ok: "ban_reachable L T ci now db \<Longrightarrow> ban_ok now db"
proof -
  have "ban_ok (fst s) (snd s)" if "(ban_step L T ci)\<^sup>*\<^sup>* (start, \<lparr>bd_accounts = accounts, bd_bans = []\<rparr>) s" for s start accounts
    using that
  proof (induction rule: rtranclp_induct)
    case (step s s')
    then show ?case by (blast intro: ban_step_ok)
  qed (simp add: ban_ok_def)
  then show "ban_reachable L T ci now db \<Longrightarrow> ban_ok now db" unfolding ban_reachable_def by fastforce
qed

text \<open>
  C23. Bans against their timetable. After any history of bans and unbans, a ban that answers success restricts the
  account from then on exactly until the expiry it was given, forever if none, whatever bans came before, and
  changes nobody else's timetable.
\<close>

theorem ban_sets_timetable:
  assumes "ban_reachable L T ci start db" and "start \<le> be_db_now E" and "be_db_now E \<le> be_db_later E"
    and "handleBan L T ci E actor (Some req) db = (BanDone u v amended prev, db')"
  shows "\<exists>expires. parseUntil T (bq_Until req) (be_now E) = Some expires \<and>
    (\<forall>t x. t \<ge> be_db_later E \<longrightarrow> IsRestricted t (bd_bans db') x =
       (if x = u_ID u then (case expires of None \<Rightarrow> True | Some e \<Rightarrow> t < e) else IsRestricted t (bd_bans db) x))"
proof -
  have ok: "ban_ok (be_db_now E) db" by (rule ban_ok_later [OF ban_reachable_ok [OF assms(1)] assms(2)])
  from assms(4) show ?thesis
  proof (cases rule: handleBan_cases)
    case (2 req' who u' expires res)
    then have "Store_Ban L (be_id E) (be_db_now E) (be_db_later E) (u_ID u) (bq_Reason req) who expires db = Some (res, db')"
      "parseUntil T (bq_Until req) (be_now E) = Some expires" by auto
    then show ?thesis using Store_Ban_timetable(3) [OF ok assms(3)] by blast
  qed blast
qed

text \<open>
  C24. Revoking. After any history, an unban that answers, whether or not there was a ban to revoke, leaves the
  account unrestricted at every later instant, and every other account as it was.
\<close>

theorem unban_clears_timetable:
  assumes "ban_reachable L T ci start db" and "start \<le> be_db_now E" and "be_db_now E \<le> be_db_later E"
    and "handleUnban L E actor target db = (Unbanned b, db')"
  shows "\<exists>uid. uuid_Parse L target = Some uid \<and>
    (\<forall>t x. t \<ge> be_db_later E \<longrightarrow> IsRestricted t (bd_bans db') x = (x \<noteq> uid \<and> IsRestricted t (bd_bans db) x))"
proof -
  have ok: "ban_ok (be_db_now E) db" by (rule ban_ok_later [OF ban_reachable_ok [OF assms(1)] assms(2)])
  from assms(4) show ?thesis
  proof (cases rule: handleUnban_cases)
    case (2 uid who b')
    then show ?thesis using Store_Unban_timetable(3) [OF ok assms(3)] by blast
  qed simp
qed

section \<open>Two moderators at once\<close>

lemma Ban_write_fresh:
  assumes "Ban_write L bid t uid reason who expires None db = Some (res, db')"
  shows "\<not> br_Amended res \<and> (\<exists>x. bd_bans db' = bd_bans db @ [x] \<and> bn_ID x = bid \<and> bn_UserID x = uid \<and>
    bn_RevokedAt x = None \<and> bn_ExpiresAt x = expires)"
  using assms by (auto simp: Ban_write_def InsertBan_def Let_def split: if_splits)

text \<open>
  Two bans issued at once. When both lookups run before either write, both insert, and each moderator is told
  of a fresh ban; the unban that follows revokes one of the two and says so, and the account stays restricted.
\<close>

theorem stacked_bans_survive_unban:
  assumes "\<not> IsRestricted now (bd_bans db) uid" and "bid \<noteq> bid'"
    and "Ban_write L bid t uid reason by None (ActiveBanFor now (bd_bans db) uid) db = Some (res, db1)"
    and "Ban_write L bid' t' uid reason' by' None (ActiveBanFor now (bd_bans db) uid) db1 = Some (res', db2)"
    and "Store_Unban L s s' uid by'' db2 = Some (b, db3)"
  shows "\<not> br_Amended res \<and> \<not> br_Amended res' \<and> b \<noteq> None \<and> IsRestricted instant (bd_bans db3) uid"
proof -
  have none: "ActiveBanFor now (bd_bans db) uid = None" by (simp add: ActiveBanFor_None assms(1))
  obtain x where x: "bn_ID x = bid" "bn_UserID x = uid" "bn_RevokedAt x = None" "bn_ExpiresAt x = None" "x \<in> set (bd_bans db1)"
    and res: "\<not> br_Amended res"
    using Ban_write_fresh [OF assms(3) [unfolded none]] by auto
  obtain y where y: "bn_ID y = bid'" "bn_UserID y = uid" "bn_RevokedAt y = None" "bn_ExpiresAt y = None"
      "bd_bans db2 = bd_bans db1 @ [y]"
    and res': "\<not> br_Amended res'"
    using Ban_write_fresh [OF assms(4) [unfolded none]] by auto
  have xy: "x \<in> set (bd_bans db2)" "y \<in> set (bd_bans db2)" using x(5) y(5) by simp_all
  have force: "in_force i x" "in_force i y" for i using x y by (simp_all add: in_force_def)
  then have "ActiveBanFor s (bd_bans db2) uid \<noteq> None" using xy x(2) by (auto simp: ActiveBanFor_None IsRestricted_iff)
  then obtain c where c: "ActiveBanFor s (bd_bans db2) uid = Some c" by blast
  let ?P = "\<lambda>b. bn_ID b = bn_ID c \<and> bn_RevokedAt b = None"
  have "find_first ?P (bd_bans db2) \<noteq> None"
    using ActiveBanFor_Some [OF c] by (auto simp: find_first_None_iff in_force_def)
  then obtain f where b: "b \<noteq> None" and db3: "db3 = update_bans ?P f db2"
    using assms(5) c by (auto simp: Store_Unban_def Unban_write_def RevokeBan_def Let_def split: option.splits if_splits)
  have kept: "z \<in> set (bd_bans db3)" if "z \<in> set (bd_bans db2)" "bn_ID z \<noteq> bn_ID c" for z
    using that by (auto simp: db3 update_bans_def image_iff intro!: bexI [of _ z])
  have "x \<in> set (bd_bans db3) \<or> y \<in> set (bd_bans db3)" using kept xy x(1) y(1) assms(2) by metis
  then have "IsRestricted instant (bd_bans db3) uid" using force x(2) y(2) by (auto simp: IsRestricted_iff)
  then show ?thesis using res res' b by blast
qed

text \<open>
  A ban that amends a row which another moderator revokes between its lookup and its write: the amendment answers
  success and the account is not restricted, since the update does not ask whether the row is still in force.
\<close>

theorem amendment_of_revoked_ban:
  assumes "ban_ok now db" and "now \<le> later" and "ActiveBanFor now (bd_bans db) uid = Some before"
    and "Store_Unban L now later uid by db = Some (b, db1)"
    and "Ban_write L bid t uid reason by' expires (ActiveBanFor now (bd_bans db) uid) db1 = Some (res, db2)"
    and "instant \<ge> later"
  shows "br_Amended res \<and> \<not> IsRestricted instant (bd_bans db2) uid"
proof -
  let ?f = "\<lambda>c. c\<lparr>bn_Reason := reason, bn_IssuedBy := Some (ac_Name by'), bn_IssuedByUser := auditID L by',
      bn_ExpiresAt := expires, bn_IssuedAt := t\<rparr>"
  have before: "before \<in> set (bd_bans db)" "bn_UserID before = uid" "in_force now before"
    using ActiveBanFor_Some [OF assms(3)] by simp_all
  let ?g = "\<lambda>c. if bn_ID c = bn_ID before \<and> bn_RevokedAt c = None
      then c\<lparr>bn_RevokedAt := Some later, bn_RevokedByUser := auditID L by\<rparr> else c"
  have "find_first (\<lambda>c. bn_ID c = bn_ID before \<and> bn_RevokedAt c = None) (bd_bans db) \<noteq> None"
    using before by (auto simp: find_first_None_iff in_force_def)
  then have db1: "bd_bans db1 = map ?g (bd_bans db)"
    using assms(3,4) by (auto simp: Store_Unban_def Unban_write_def RevokeBan_def update_bans_def Let_def split: option.splits if_splits)
  have db2: "bd_bans db2 = map (\<lambda>c. if bn_ID c = bn_ID before then ?f c else c) (bd_bans db1)" and "br_Amended res"
    using assms(3,5) by (auto simp: Ban_write_def UpdateBan_def update_bans_def Let_def split: option.splits if_splits)
  have clear: "\<not> IsRestricted instant (bd_bans db1) uid"
    using Store_Unban_timetable(3) [OF assms(1,2,4,6), of uid] by simp
  have "bn_RevokedAt c \<noteq> None" if "c \<in> set (bd_bans db1)" "bn_ID c = bn_ID before" for c
    using that by (auto simp: db1)
  then show ?thesis using clear \<open>br_Amended res\<close> by (auto simp: db2 IsRestricted_iff in_force_def)
qed

section \<open>Concrete instances\<close>

text \<open>Account 1 is banned for 100 ticks by account 2.\<close>

definition ban_ids :: "nat uuid_lib" where
  "ban_ids = \<lparr>uuid_Parse = (\<lambda>s. if s = ''one'' then Some 1 else None), uuid_String = (\<lambda>u. []), uuid_Nil = 0\<rparr>"

definition ban_clock :: time_lib where
  "ban_clock = \<lparr>tl_ParseDuration = (\<lambda>s. Some 100), tl_ParseRFC3339 = (\<lambda>s. None)\<rparr>"

definition account :: "nat \<Rightarrow> string \<Rightarrow> nat User" where
  "account n name = \<lparr>u_ID = n, u_DisplayName = name, u_CreatedAt = 0, u_ProfilePublic = True, u_KeyboardPublic = False,
     u_Role = ''player'', u_DisplayNameChangedAt = None\<rparr>"

definition two_accounts :: "nat ban_db" where
  "two_accounts = \<lparr>bd_accounts = \<lparr>ad_users = [account 1 ''one'', account 2 ''two''], ad_identities = [], ad_credentials = [],
     ad_sessions = [], ad_tokens = []\<rparr>, bd_bans = []\<rparr>"

definition ban_demo_env :: "nat ban_env" where
  "ban_demo_env = \<lparr>be_now = 0, be_db_now = 0, be_db_later = 1, be_id = 7\<rparr>"

definition moderator :: "nat Actor" where
  "moderator = \<lparr>ac_ID = 2, ac_Name = ''two''\<rparr>"

definition demo_ban :: "nat Ban" where
  "demo_ban = \<lparr>bn_ID = 7, bn_UserID = 1, bn_Reason = ''r'', bn_IssuedBy = Some ''two'', bn_IssuedByUser = Some 2,
     bn_IssuedAt = 1, bn_ExpiresAt = Some 100, bn_RevokedAt = None, bn_RevokedByUser = None\<rparr>"

definition demo_ban_request :: banRequest where
  "demo_ban_request = \<lparr>bq_User = ''one'', bq_Reason = ''r'', bq_Until = ''100t''\<rparr>"

lemma two_accounts_reachable: "ban_reachable ban_ids ban_clock id 0 two_accounts"
  unfolding ban_reachable_def two_accounts_def by blast

lemmas ban_demo_defs = Let_def ban_ids_def ban_clock_def account_def two_accounts_def ban_demo_env_def moderator_def demo_ban_def
  demo_ban_request_def

lemma demo_ban_done:
  "handleBan ban_ids ban_clock id ban_demo_env (Some moderator) (Some demo_ban_request) two_accounts =
     (BanDone (account 1 ''one'') (toBanView demo_ban [] 0) False None, two_accounts\<lparr>bd_bans := [demo_ban]\<rparr>)"
  by (simp add: handleBan_def parseUntil_def resolve_def ResolveUser_def GetUserByID_def Store_Ban_def Ban_write_def
      ActiveBanFor_def InsertBan_def user_exists_def fk_ok_def auditID_def ban_demo_defs)

theorem ban_sets_timetable_witness:
  "IsRestricted 99 [demo_ban] 1 \<and> \<not> IsRestricted 100 [demo_ban] 1 \<and> \<not> IsRestricted 50 [demo_ban] 2"
proof -
  have E: "0 \<le> be_db_now ban_demo_env" "be_db_now ban_demo_env \<le> be_db_later ban_demo_env" "be_db_later ban_demo_env = 1"
    by (simp_all add: ban_demo_env_def)
  have "parseUntil ban_clock (bq_Until demo_ban_request) (be_now ban_demo_env) = Some (Some 100)"
    by (simp add: parseUntil_def ban_demo_defs)
  with ban_sets_timetable [OF two_accounts_reachable E(1,2) demo_ban_done] E(3)
  have "\<forall>t x. t \<ge> 1 \<longrightarrow> IsRestricted t [demo_ban] x = (if x = 1 then t < 100 else IsRestricted t (bd_bans two_accounts) x)"
    by (simp add: account_def)
  then have "IsRestricted 99 [demo_ban] 1 = (99 < (100 :: int))" "IsRestricted 100 [demo_ban] 1 = (100 < (100 :: int))"
    "IsRestricted 50 [demo_ban] 2 = IsRestricted 50 (bd_bans two_accounts) 2" by simp_all
  then show ?thesis by (simp add: two_accounts_def IsRestricted_iff)
qed

lemma demo_banned_reachable: "ban_reachable ban_ids ban_clock id 1 (two_accounts\<lparr>bd_bans := [demo_ban]\<rparr>)"
proof -
  have "0 \<le> be_db_now ban_demo_env" "be_db_now ban_demo_env \<le> be_db_later ban_demo_env" "be_db_later ban_demo_env = 1"
    by (simp_all add: ban_demo_env_def)
  from ban_step.ban [of 0, OF this(1,2) demo_ban_done] this(3)
  have "ban_step ban_ids ban_clock id (0, two_accounts) (1, two_accounts\<lparr>bd_bans := [demo_ban]\<rparr>)" by simp
  then show ?thesis
    unfolding ban_reachable_def two_accounts_def by (blast intro: r_into_rtranclp [of "ban_step ban_ids ban_clock id"])
qed

definition later_env :: "nat ban_env" where
  "later_env = \<lparr>be_now = 5, be_db_now = 5, be_db_later = 6, be_id = 8\<rparr>"

lemma demo_unban_done:
  "handleUnban ban_ids later_env (Some moderator) ''one'' (two_accounts\<lparr>bd_bans := [demo_ban]\<rparr>) =
     (Unbanned (Some (toBanView (demo_ban\<lparr>bn_RevokedAt := Some 6, bn_RevokedByUser := Some 2\<rparr>) [] 5)),
      two_accounts\<lparr>bd_bans := [demo_ban\<lparr>bn_RevokedAt := Some 6, bn_RevokedByUser := Some 2\<rparr>]\<rparr>)"
  by (simp add: handleUnban_def Store_Unban_def Unban_write_def RevokeBan_def ActiveBanFor_def IsRestricted_iff in_force_def
      update_bans_def fk_ok_def user_exists_def auditID_def later_env_def ban_demo_defs)

theorem unban_clears_timetable_witness:
  "\<not> IsRestricted 50 [demo_ban\<lparr>bn_RevokedAt := Some 6, bn_RevokedByUser := Some 2\<rparr>] 1 \<and> IsRestricted 50 [demo_ban] 1"
proof -
  have "1 \<le> be_db_now later_env" "be_db_now later_env \<le> be_db_later later_env" "be_db_later later_env \<le> 50"
    by (simp_all add: later_env_def)
  from unban_clears_timetable [OF demo_banned_reachable this(1,2) demo_unban_done] this(3) show ?thesis
    by (auto simp: ban_ids_def IsRestricted_iff in_force_def demo_ban_def)
qed

theorem stacked_bans_survive_unban_witness:
  "IsRestricted 1000 (bd_bans (two_accounts\<lparr>bd_bans :=
     [demo_ban\<lparr>bn_ExpiresAt := None, bn_RevokedAt := Some 6, bn_RevokedByUser := Some 2\<rparr>,
      demo_ban\<lparr>bn_ID := 8, bn_ExpiresAt := None\<rparr>]\<rparr>)) 1"
proof -
  have free: "\<not> IsRestricted 0 (bd_bans two_accounts) 1" "ActiveBanFor 0 (bd_bans two_accounts) 1 = None"
    by (simp_all add: IsRestricted_iff ActiveBanFor_None two_accounts_def)
  have first: "Ban_write ban_ids 7 1 1 ''r'' moderator None None two_accounts =
      Some (\<lparr>br_Ban = demo_ban\<lparr>bn_ExpiresAt := None\<rparr>, br_Amended = False, br_Previous = None\<rparr>,
        two_accounts\<lparr>bd_bans := [demo_ban\<lparr>bn_ExpiresAt := None\<rparr>]\<rparr>)"
    by (simp add: Ban_write_def InsertBan_def fk_ok_def user_exists_def auditID_def ban_demo_defs)
  have second: "Ban_write ban_ids 8 1 1 ''r'' moderator None None (two_accounts\<lparr>bd_bans := [demo_ban\<lparr>bn_ExpiresAt := None\<rparr>]\<rparr>) =
      Some (\<lparr>br_Ban = demo_ban\<lparr>bn_ID := 8, bn_ExpiresAt := None\<rparr>, br_Amended = False, br_Previous = None\<rparr>,
        two_accounts\<lparr>bd_bans := [demo_ban\<lparr>bn_ExpiresAt := None\<rparr>, demo_ban\<lparr>bn_ID := 8, bn_ExpiresAt := None\<rparr>]\<rparr>)"
    by (simp add: Ban_write_def InsertBan_def fk_ok_def user_exists_def auditID_def ban_demo_defs)
  have unban: "Store_Unban ban_ids 5 6 1 moderator
      (two_accounts\<lparr>bd_bans := [demo_ban\<lparr>bn_ExpiresAt := None\<rparr>, demo_ban\<lparr>bn_ID := 8, bn_ExpiresAt := None\<rparr>]\<rparr>) =
      Some (Some (demo_ban\<lparr>bn_ExpiresAt := None, bn_RevokedAt := Some 6, bn_RevokedByUser := Some 2\<rparr>),
        two_accounts\<lparr>bd_bans := [demo_ban\<lparr>bn_ExpiresAt := None, bn_RevokedAt := Some 6, bn_RevokedByUser := Some 2\<rparr>,
          demo_ban\<lparr>bn_ID := 8, bn_ExpiresAt := None\<rparr>]\<rparr>)"
    by (simp add: Store_Unban_def Unban_write_def RevokeBan_def ActiveBanFor_def IsRestricted_iff in_force_def
        update_bans_def fk_ok_def user_exists_def auditID_def ban_demo_defs)
  show ?thesis
    using stacked_bans_survive_unban [OF free(1) _ first [folded free(2)] second [folded free(2)] unban] by simp
qed

end
