(* ===== verification/Moderation_Reports.thy ===== *)
theory Moderation_Reports
  imports Moderation_Bans Token_Bucket "HOL-Library.List_Lexorder" "HOL-Library.Char_ord"
begin

text \<open>
  Player reports (\<open>internal/moderation/reports.go\<close>, \<open>reports_store.go\<close>, \<open>reports_http.go\<close>, the report
  statements of \<open>moderationdb\<close> and the table of migration 00026): filing, the moderator's queue, the detail view
  and resolution.

  A statement checks the table's CHECKs first, then the partial unique indexes, then the foreign keys. The order
  of reasons inside a queue row is that of the characters' codes.
\<close>

section \<open>Subjects\<close>

definition SubjectUser :: string where "SubjectUser = ''user''"
definition SubjectQuote :: string where "SubjectQuote = ''quote''"
definition SubjectRun :: string where "SubjectRun = ''run''"

definition reasonsBySubject :: "string \<Rightarrow> string list option" where
  "reasonsBySubject t =
     (if t = SubjectUser then Some [''offensive_name'', ''impersonation'', ''cheating'', ''other'']
      else if t = SubjectQuote then Some [''typo'', ''wrong_language'', ''offensive'', ''other'']
      else if t = SubjectRun then Some [''cheating'', ''impossible_score'', ''other'']
      else None)"

record 'u Subject =
  sj_Type :: string
  sj_ID :: 'u

definition Subject_Validate :: "'u uuid_lib \<Rightarrow> 'u Subject \<Rightarrow> bool" where
  "Subject_Validate L s \<longleftrightarrow> reasonsBySubject (sj_Type s) \<noteq> None \<and> sj_ID s \<noteq> uuid_Nil L"

definition ReasonValid :: "'u Subject \<Rightarrow> string \<Rightarrow> bool" where
  "ReasonValid s reason \<longleftrightarrow>
     (case reasonsBySubject (sj_Type s) of None \<Rightarrow> False | Some rs \<Rightarrow> list_ex (\<lambda>r. r = reason) rs)"

definition Columns :: "'u Subject \<Rightarrow> 'u option \<times> 'u option \<times> 'u option" where
  "Columns s =
     (if sj_Type s = SubjectUser then (Some (sj_ID s), None, None)
      else if sj_Type s = SubjectQuote then (None, Some (sj_ID s), None)
      else if sj_Type s = SubjectRun then (None, None, Some (sj_ID s))
      else (None, None, None))"

definition subjectOf :: "string \<Rightarrow> 'u option \<times> 'u option \<times> 'u option \<Rightarrow> 'u Subject option" where
  "subjectOf t cols =
     (case cols of (user, quote, run) \<Rightarrow>
        if t = SubjectUser then map_option (\<lambda>i. \<lparr>sj_Type = SubjectUser, sj_ID = i\<rparr>) user
        else if t = SubjectQuote then map_option (\<lambda>i. \<lparr>sj_Type = SubjectQuote, sj_ID = i\<rparr>) quote
        else if t = SubjectRun then map_option (\<lambda>i. \<lparr>sj_Type = SubjectRun, sj_ID = i\<rparr>) run
        else None)"

definition parseSubject :: "'u uuid_lib \<Rightarrow> string \<Rightarrow> string \<Rightarrow> 'u Subject option" where
  "parseSubject L t sid =
     (case uuid_Parse L sid of
        None \<Rightarrow> None
      | Some i \<Rightarrow>
          let s = \<lparr>sj_Type = t, sj_ID = i\<rparr> in if Subject_Validate L s then Some s else None)"

section \<open>The table\<close>

definition StatusOpen :: string where "StatusOpen = ''open''"
definition StatusActioned :: string where "StatusActioned = ''actioned''"
definition StatusDismissed :: string where "StatusDismissed = ''dismissed''"

record 'u report_row =
  rp_ID :: 'u
  rp_Type :: string
  rp_Columns :: "'u option \<times> 'u option \<times> 'u option"
  rp_Reporter :: 'u
  rp_Reason :: string
  rp_Comment :: "string option"
  rp_Status :: string
  rp_CreatedAt :: int
  rp_ResolvedAt :: "int option"
  rp_ResolvedBy :: "'u option"
  rp_Note :: "string option"

text \<open>A quote is its id, text, language and whether it is withdrawn; a run its id, owner and status.\<close>

record 'u report_db = "'u ban_db" +
  rb_quotes :: "('u \<times> string \<times> string \<times> bool) list"
  rb_runs :: "('u \<times> 'u \<times> string) list"
  rb_reports :: "'u report_row list"

definition subject_check :: "string \<Rightarrow> 'u option \<times> 'u option \<times> 'u option \<Rightarrow> bool" where
  "subject_check t cols \<longleftrightarrow>
     (case cols of (user, quote, run) \<Rightarrow>
        length (filter (\<lambda>c. c \<noteq> None) [user, quote, run]) = 1 \<and>
        (t \<noteq> SubjectUser \<or> user \<noteq> None) \<and> (t \<noteq> SubjectQuote \<or> quote \<noteq> None) \<and> (t \<noteq> SubjectRun \<or> run \<noteq> None))"

definition reason_check :: "string \<Rightarrow> string \<Rightarrow> bool" where
  "reason_check t reason \<longleftrightarrow>
     (case reasonsBySubject t of None \<Rightarrow> True | Some rs \<Rightarrow> reason \<in> set rs)"

definition comment_check :: "string option \<Rightarrow> bool" where
  "comment_check c \<longleftrightarrow>
     (case c of None \<Rightarrow> True | Some s \<Rightarrow> 1 \<le> RuneCountInString s \<and> RuneCountInString s \<le> 1000)"

definition report_check :: "'u report_row \<Rightarrow> bool" where
  "report_check r \<longleftrightarrow>
     rp_Type r \<in> {SubjectUser, SubjectQuote, SubjectRun} \<and> rp_Status r \<in> {StatusOpen, StatusActioned, StatusDismissed} \<and>
     subject_check (rp_Type r) (rp_Columns r) \<and> reason_check (rp_Type r) (rp_Reason r) \<and> comment_check (rp_Comment r) \<and>
     ((rp_Status r = StatusOpen) = (rp_ResolvedAt r = None)) \<and> fst (rp_Columns r) \<noteq> Some (rp_Reporter r)"

text \<open>The three partial unique indexes on open reports.\<close>

definition open_clash :: "'u report_row \<Rightarrow> 'u report_row \<Rightarrow> bool" where
  "open_clash r s \<longleftrightarrow>
     rp_Status r = StatusOpen \<and> rp_Status s = StatusOpen \<and> rp_Reporter r = rp_Reporter s \<and>
     ((fst (rp_Columns r) \<noteq> None \<and> fst (rp_Columns r) = fst (rp_Columns s)) \<or>
      (fst (snd (rp_Columns r)) \<noteq> None \<and> fst (snd (rp_Columns r)) = fst (snd (rp_Columns s))) \<or>
      (snd (snd (rp_Columns r)) \<noteq> None \<and> snd (snd (rp_Columns r)) = snd (snd (rp_Columns s))))"

definition references_ok :: "('u, 'z) report_db_scheme \<Rightarrow> 'u report_row \<Rightarrow> bool" where
  "references_ok db r \<longleftrightarrow>
     fk_ok (bd_accounts db) (fst (rp_Columns r)) \<and>
     (case fst (snd (rp_Columns r)) of None \<Rightarrow> True | Some q \<Rightarrow> q \<in> fst ` set (rb_quotes db)) \<and>
     (case snd (snd (rp_Columns r)) of None \<Rightarrow> True | Some i \<Rightarrow> i \<in> fst ` set (rb_runs db)) \<and>
     user_exists (bd_accounts db) (rp_Reporter r) \<and> fk_ok (bd_accounts db) (rp_ResolvedBy r)"

section \<open>Statements\<close>

datatype 'u created = CheckViolated | NoRow | ForeignKeyViolated | CreatedRow "'u report_row" "'u report_db"

definition CreateReport ::
  "'u \<Rightarrow> int \<Rightarrow> string \<Rightarrow> 'u option \<times> 'u option \<times> 'u option \<Rightarrow> 'u \<Rightarrow> string \<Rightarrow> string option \<Rightarrow> 'u report_db \<Rightarrow> 'u created" where
  "CreateReport rid now t cols reporter reason comment db =
     (let r = \<lparr>rp_ID = rid, rp_Type = t, rp_Columns = cols, rp_Reporter = reporter, rp_Reason = reason, rp_Comment = comment,
               rp_Status = StatusOpen, rp_CreatedAt = now, rp_ResolvedAt = None, rp_ResolvedBy = None, rp_Note = None\<rparr>
      in if \<not> report_check r then CheckViolated
         else if list_ex (\<lambda>s. rp_ID s = rid \<or> open_clash r s) (rb_reports db) then NoRow
         else if \<not> references_ok db r then ForeignKeyViolated
         else CreatedRow r (db\<lparr>rb_reports := rb_reports db @ [r]\<rparr>))"

definition on_subject :: "string \<Rightarrow> 'u option \<times> 'u option \<times> 'u option \<Rightarrow> 'u report_row \<Rightarrow> bool" where
  "on_subject t cols r \<longleftrightarrow> rp_Type r = t \<and> rp_Columns r = cols"

definition FindOpenReport ::
  "'u report_db \<Rightarrow> 'u \<Rightarrow> string \<Rightarrow> 'u option \<times> 'u option \<times> 'u option \<Rightarrow> 'u report_row option" where
  "FindOpenReport db reporter t cols =
     find_first (\<lambda>r. rp_Reporter r = reporter \<and> rp_Status r = StatusOpen \<and> on_subject t cols r) (rb_reports db)"

definition CountOpenReportsBy :: "'u report_db \<Rightarrow> 'u \<Rightarrow> nat" where
  "CountOpenReportsBy db reporter =
     length (filter (\<lambda>r. rp_Reporter r = reporter \<and> rp_Status r = StatusOpen) (rb_reports db))"

text \<open>\<open>None\<close> is a failed statement.\<close>

definition ResolveSubjectReports ::
  "int \<Rightarrow> string \<Rightarrow> 'u \<Rightarrow> string option \<Rightarrow> string \<Rightarrow> 'u option \<times> 'u option \<times> 'u option \<Rightarrow> 'u report_db
     \<Rightarrow> (nat \<times> 'u report_db) option" where
  "ResolveSubjectReports now status resolver note t cols db =
     (let P = (\<lambda>r. rp_Status r = StatusOpen \<and> on_subject t cols r);
          f = (\<lambda>r. r\<lparr>rp_Status := status, rp_ResolvedAt := Some now, rp_ResolvedBy := Some resolver, rp_Note := note\<rparr>);
          hit = filter P (rb_reports db)
      in if list_ex (\<lambda>r. \<not> report_check (f r)) hit then None
         else if hit \<noteq> [] \<and> \<not> user_exists (bd_accounts db) resolver then None
         else Some (length hit, db\<lparr>rb_reports := map (\<lambda>r. if P r then f r else r) (rb_reports db)\<rparr>))"

section \<open>The store\<close>

definition nullableText :: "string \<Rightarrow> string option" where
  "nullableText s = (if s = [] then None else Some s)"

definition deref :: "string option \<Rightarrow> string" where
  "deref s = (case s of None \<Rightarrow> [] | Some t \<Rightarrow> t)"

datatype file_error = ErrSubjectMissing | FileFailed

text \<open>The boolean is \<open>FileResult.Created\<close>.\<close>

definition File ::
  "'u \<Rightarrow> int \<Rightarrow> 'u Subject \<Rightarrow> 'u \<Rightarrow> string \<Rightarrow> string \<Rightarrow> 'u report_db
     \<Rightarrow> (file_error, 'u report_row \<times> bool \<times> 'u report_db) result" where
  "File rid now s reporter reason comment db =
     (case CreateReport rid now (sj_Type s) (Columns s) reporter reason (nullableText comment) db of
        CreatedRow r db' \<Rightarrow> Inr (r, True, db')
      | ForeignKeyViolated \<Rightarrow> Inl ErrSubjectMissing
      | CheckViolated \<Rightarrow> Inl FileFailed
      | NoRow \<Rightarrow>
          (case FindOpenReport db reporter (sj_Type s) (Columns s) of
             None \<Rightarrow> Inl FileFailed
           | Some r \<Rightarrow> Inr (r, False, db)))"

record 'u QueueItem =
  qi_Subject :: "'u Subject"
  qi_OpenReports :: nat
  qi_FirstReported :: int
  qi_LastReported :: int
  qi_Reasons :: "string list"
  qi_UserName :: string
  qi_QuoteText :: string
  qi_QuoteLang :: string
  qi_QuoteWithdrawn :: bool
  qi_RunOwnerName :: string
  qi_RunStatus :: string

definition display_name_of :: "'u auth_db \<Rightarrow> 'u option \<Rightarrow> string option" where
  "display_name_of db ref =
     (case ref of
        None \<Rightarrow> None
      | Some u \<Rightarrow> (case GetUserByID db u of Inl _ \<Rightarrow> None | Inr v \<Rightarrow> Some (u_DisplayName v)))"

text \<open>One group of the queue: the open reports of one subject; \<open>None\<close> when the stored subject is not one this build knows.\<close>

definition queue_item ::
  "'u report_db \<Rightarrow> string \<times> 'u option \<times> 'u option \<times> 'u option \<Rightarrow> 'u report_row list \<Rightarrow> 'u QueueItem option" where
  "queue_item db key rs =
     (case key of (t, user, quote, run) \<Rightarrow>
        map_option (\<lambda>s.
          let q = (case quote of None \<Rightarrow> None | Some i \<Rightarrow> map_of (rb_quotes db) i);
              ru = (case run of None \<Rightarrow> None | Some i \<Rightarrow> map_of (rb_runs db) i)
          in \<lparr>qi_Subject = s, qi_OpenReports = length rs, qi_FirstReported = Min (rp_CreatedAt ` set rs),
              qi_LastReported = Max (rp_CreatedAt ` set rs), qi_Reasons = sort (remdups (map rp_Reason rs)),
              qi_UserName = deref (display_name_of (bd_accounts db) user),
              qi_QuoteText = (case q of None \<Rightarrow> [] | Some (text, lang, w) \<Rightarrow> text),
              qi_QuoteLang = (case q of None \<Rightarrow> [] | Some (text, lang, w) \<Rightarrow> lang),
              qi_QuoteWithdrawn = (case q of None \<Rightarrow> False | Some (text, lang, w) \<Rightarrow> w),
              qi_RunOwnerName = deref (display_name_of (bd_accounts db) (map_option fst ru)),
              qi_RunStatus = (case ru of None \<Rightarrow> [] | Some (owner, status) \<Rightarrow> status)\<rparr>)
        (subjectOf t (user, quote, run)))"

definition report_key :: "'u report_row \<Rightarrow> string \<times> 'u option \<times> 'u option \<times> 'u option" where
  "report_key r = (rp_Type r, rp_Columns r)"

definition open_reports :: "'u report_db \<Rightarrow> string option \<Rightarrow> 'u report_row list" where
  "open_reports db t =
     filter (\<lambda>r. rp_Status r = StatusOpen \<and> (t = None \<or> t = Some (rp_Type r))) (rb_reports db)"

text \<open>
  \<open>ListReportQueue\<close>: groups by subject, the most reported first and the oldest first among equals. Groups equal
  in both may come in any order; the definition keeps the order of their first reports.
\<close>

definition queue_groups ::
  "'u report_db \<Rightarrow> string option \<Rightarrow> ((string \<times> 'u option \<times> 'u option \<times> 'u option) \<times> 'u report_row list) list" where
  "queue_groups db t =
     (let rs = open_reports db t
      in sort_key (\<lambda>g. - int (length (snd g))) (sort_key (\<lambda>g. Min (rp_CreatedAt ` set (snd g)))
           (map (\<lambda>k. (k, filter (\<lambda>r. report_key r = k) rs)) (remdups (map report_key rs)))))"

definition Queue :: "'u report_db \<Rightarrow> string option \<Rightarrow> int \<Rightarrow> 'u QueueItem list" where
  "Queue db t limit =
     List.map_filter (\<lambda>(k, rs). queue_item db k rs) (take (nat limit) (queue_groups db t))"

record 'u SubjectReport =
  sr_row :: "'u report_row"
  sr_ReporterName :: string
  sr_ResolverName :: string

definition ForSubject :: "'u report_db \<Rightarrow> 'u Subject \<Rightarrow> int \<Rightarrow> 'u SubjectReport list" where
  "ForSubject db s limit =
     take (nat limit) (List.map_filter (\<lambda>r. map_option (\<lambda>name.
         \<lparr>sr_row = r, sr_ReporterName = name, sr_ResolverName = deref (display_name_of (bd_accounts db) (rp_ResolvedBy r))\<rparr>)
         (display_name_of (bd_accounts db) (Some (rp_Reporter r))))
       (sort_key (\<lambda>r. - rp_CreatedAt r) (filter (on_subject (sj_Type s) (Columns s)) (rb_reports db))))"

definition Resolve :: "int \<Rightarrow> 'u Subject \<Rightarrow> string \<Rightarrow> 'u \<Rightarrow> string \<Rightarrow> 'u report_db \<Rightarrow> (nat \<times> 'u report_db) option" where
  "Resolve now s status resolver note db =
     ResolveSubjectReports now status resolver (nullableText note) (sj_Type s) (Columns s) db"

section \<open>Handlers\<close>

definition maxComment :: nat where "maxComment = 1000"
definition maxResolutionNote :: nat where "maxResolutionNote = 1000"
definition queueDefaultLimit :: int where "queueDefaultLimit = 50"
definition queueMaxLimit :: int where "queueMaxLimit = 200"
definition subjectReportsLimit :: int where "subjectReportsLimit = 200"
definition maxOpenReportsPerUser :: nat where "maxOpenReportsPerUser = 20"

datatype 'u report_reply =
    ReportError nat string
  | ReportNotFound
  | Filed nat "'u report_row"
  | QueueReply "'u QueueItem list"
  | SubjectReply "'u Subject" "'u SubjectReport list"
  | Resolved "'u Subject" string nat

record fileRequest =
  fq_Type :: string
  fq_ID :: string
  fq_Reason :: string
  fq_Comment :: string

text \<open>The clocks of the service and the database and the id of a new row.\<close>

record 'u report_env =
  re_now :: int
  re_db_now :: int
  re_id :: 'u

definition file_checked ::
  "'u report_env \<Rightarrow> 'u \<Rightarrow> 'u Subject \<Rightarrow> string \<Rightarrow> string \<Rightarrow> 'u report_db \<Rightarrow> 'u report_reply \<times> 'u report_db" where
  "file_checked E reporter s reason comment db =
     (if IsRestricted (re_db_now E) (bd_bans db) reporter then (ReportError 403 ''restricted'', db)
      else if CountOpenReportsBy db reporter \<ge> maxOpenReportsPerUser then (ReportError 429 ''too_many_open_reports'', db)
      else case File (re_id E) (re_db_now E) s reporter reason comment db of
        Inl ErrSubjectMissing \<Rightarrow> (ReportError 404 ''not_found'', db)
      | Inl FileFailed \<Rightarrow> (ReportError 500 ''internal'', db)
      | Inr (r, created, db') \<Rightarrow> (Filed (if created then 201 else 200) r, db'))"

definition handleFile ::
  "'u uuid_lib \<Rightarrow> 'u report_env \<Rightarrow> 'u option \<Rightarrow> fileRequest option \<Rightarrow> limiter \<Rightarrow> 'u report_db
     \<Rightarrow> 'u report_reply \<times> limiter \<times> 'u report_db" where
  "handleFile L E caller body limr db =
     (case caller of
        None \<Rightarrow> (ReportError 401 ''unauthorized'', limr, db)
      | Some reporter \<Rightarrow>
          (case limiter_allow limr (uuid_String L reporter) (re_now E) of (limr', allowed) \<Rightarrow>
             if \<not> allowed then (ReportError 429 ''rate_limited'', limr', db)
             else case body of
               None \<Rightarrow> (ReportError 400 ''bad_request'', limr', db)
             | Some req \<Rightarrow>
                 (case parseSubject L (fq_Type req) (fq_ID req) of
                    None \<Rightarrow> (ReportError 400 ''bad_request'', limr', db)
                  | Some s \<Rightarrow>
                      let comment = TrimSpace (fq_Comment req)
                      in if \<not> ReasonValid s (fq_Reason req) then (ReportError 400 ''bad_request'', limr', db)
                         else if RuneCountInString comment > maxComment then (ReportError 400 ''bad_request'', limr', db)
                         else (case file_checked E reporter s (fq_Reason req) comment db of
                                 (r, db') \<Rightarrow> (r, limr', db')))))"

definition handleQueue :: "string \<Rightarrow> string \<Rightarrow> 'u report_db \<Rightarrow> 'u report_reply" where
  "handleQueue t limit db =
     (if t \<noteq> [] \<and> reasonsBySubject t = None then ReportError 400 ''bad_request''
      else QueueReply (Queue db (if t = [] then None else Some t) (ParseLimit limit queueDefaultLimit queueMaxLimit)))"

definition handleSubject :: "'u uuid_lib \<Rightarrow> string \<Rightarrow> string \<Rightarrow> 'u report_db \<Rightarrow> 'u report_reply" where
  "handleSubject L t sid db =
     (case parseSubject L t sid of
        None \<Rightarrow> ReportNotFound
      | Some s \<Rightarrow> SubjectReply s (ForSubject db s subjectReportsLimit))"

definition handleResolve ::
  "'u uuid_lib \<Rightarrow> 'u report_env \<Rightarrow> 'u Actor option \<Rightarrow> string \<Rightarrow> string \<Rightarrow> (string \<times> string) option \<Rightarrow> 'u report_db
     \<Rightarrow> 'u report_reply \<times> 'u report_db" where
  "handleResolve L E actor t sid body db =
     (case parseSubject L t sid of
        None \<Rightarrow> (ReportNotFound, db)
      | Some s \<Rightarrow>
          (case body of
             None \<Rightarrow> (ReportError 400 ''bad_request'', db)
           | Some (verdict, rawNote) \<Rightarrow>
               if verdict \<noteq> StatusActioned \<and> verdict \<noteq> StatusDismissed then (ReportError 400 ''bad_request'', db)
               else let note = TrimSpace rawNote
                    in if RuneCountInString note > maxResolutionNote then (ReportError 400 ''bad_request'', db)
                       else case actor of
                         None \<Rightarrow> (ReportNotFound, db)
                       | Some a \<Rightarrow>
                           (case Resolve (re_db_now E) s verdict (ac_ID a) note db of
                              None \<Rightarrow> (ReportError 500 ''internal'', db)
                            | Some (n, db') \<Rightarrow> (Resolved s verdict n, db'))))"

end
