(* ===== verification/Moderation_Report_Properties.thy ===== *)
theory Moderation_Report_Properties
  imports Moderation_Reports "HOL-Library.Multiset"
begin

text \<open>
  What the report surfaces promise: the invariant of the table under any history of filings and resolutions, the
  complete table of answers to a filing, the closing of a subject's group, and that the queue loses nothing.
\<close>

section \<open>Subjects and their columns\<close>

lemmas subject_types = SubjectUser_def SubjectQuote_def SubjectRun_def
lemmas report_statuses = StatusOpen_def StatusActioned_def StatusDismissed_def

lemma known_types: "reasonsBySubject t \<noteq> None \<longleftrightarrow> t \<in> {SubjectUser, SubjectQuote, SubjectRun}"
  by (auto simp: reasonsBySubject_def)

lemma subjectOf_Columns:
  "sj_Type s \<in> {SubjectUser, SubjectQuote, SubjectRun} \<Longrightarrow> subjectOf (sj_Type s) (Columns s) = Some s"
  by (auto simp: subjectOf_def Columns_def subject_types)

lemma Columns_check:
  "sj_Type s \<in> {SubjectUser, SubjectQuote, SubjectRun} \<Longrightarrow> subject_check (sj_Type s) (Columns s)"
  by (auto simp: subject_check_def Columns_def subject_types)

lemma checked_subject:
  assumes "report_check r"
  shows "\<exists>s. subjectOf (rp_Type r) (rp_Columns r) = Some s \<and> sj_Type s = rp_Type r \<and> Columns s = rp_Columns r"
  using assms
  by (cases "rp_Columns r")
    (auto simp: report_check_def subject_check_def subjectOf_def Columns_def subject_types split: if_splits)

lemma clash_same_subject:
  assumes "report_check r" and "report_check s"
  shows "open_clash r s \<longleftrightarrow> rp_Status r = StatusOpen \<and> rp_Status s = StatusOpen \<and> rp_Reporter r = rp_Reporter s \<and>
    on_subject (rp_Type r) (rp_Columns r) s"
proof -
  obtain a b c d e f where "rp_Columns r = (a, b, c)" "rp_Columns s = (d, e, f)" by (metis prod_cases3)
  then show ?thesis
    using assms
    by (auto simp: report_check_def subject_check_def open_clash_def on_subject_def subject_types split: if_splits)
qed

section \<open>The invariant\<close>

definition reports_ok :: "'u report_db \<Rightarrow> bool" where
  "reports_ok db \<longleftrightarrow>
     (\<forall>r \<in> set (rb_reports db). report_check r) \<and> distinct (map rp_ID (rb_reports db)) \<and>
     (\<forall>r \<in> set (rb_reports db). \<forall>s \<in> set (rb_reports db). open_clash r s \<longrightarrow> r = s) \<and>
     (\<forall>reporter. CountOpenReportsBy db reporter \<le> maxOpenReportsPerUser)"

lemma CreateReport_row:
  assumes "CreateReport rid now t cols reporter reason comment db = CreatedRow r db'"
  shows "report_check r \<and> db' = db\<lparr>rb_reports := rb_reports db @ [r]\<rparr> \<and> rp_ID r \<notin> rp_ID ` set (rb_reports db) \<and>
    (\<forall>s \<in> set (rb_reports db). \<not> open_clash r s) \<and> rp_Reporter r = reporter \<and> rp_Status r = StatusOpen \<and>
    on_subject t cols r"
  using assms by (auto simp: CreateReport_def Let_def list_ex_iff on_subject_def split: if_splits)

lemma open_clash_sym: "open_clash r s \<longleftrightarrow> open_clash s r"
  unfolding open_clash_def by (metis (full_types))

lemma CreateReport_ok:
  assumes ok: "reports_ok db" and "CountOpenReportsBy db reporter < maxOpenReportsPerUser"
    and "CreateReport rid now t cols reporter reason comment db = CreatedRow r db'"
  shows "reports_ok db'"
proof -
  note row = CreateReport_row [OF assms(3)]
  have "CountOpenReportsBy db' x = CountOpenReportsBy db x + (if x = reporter then 1 else 0)" for x
    using row by (auto simp: CountOpenReportsBy_def)
  then have "CountOpenReportsBy db' x \<le> maxOpenReportsPerUser" for x
    using ok assms(2) by (auto simp: reports_ok_def)
  moreover have "\<forall>s \<in> set (rb_reports db). \<not> open_clash s r" using row open_clash_sym by blast
  then have "\<forall>x \<in> set (rb_reports db'). \<forall>y \<in> set (rb_reports db'). open_clash x y \<longrightarrow> x = y"
    using ok row by (auto simp: reports_ok_def)
  ultimately show ?thesis using ok row by (auto simp: reports_ok_def)
qed

lemma file_checked_ok: "reports_ok db \<Longrightarrow> reports_ok (snd (file_checked E reporter s reason comment db))"
  using CreateReport_ok [of db reporter]
  by (auto simp: file_checked_def File_def not_le split: sum.splits file_error.splits created.splits option.splits)

lemma handleFile_ok: "reports_ok db \<Longrightarrow> reports_ok (snd (snd (handleFile L E caller body limr db)))"
  using file_checked_ok [of db] by (auto simp: handleFile_def Let_def split: option.splits prod.splits) (metis snd_conv)+

lemma closed_no_clash: "rp_Status r \<noteq> StatusOpen \<Longrightarrow> \<not> open_clash r s \<and> \<not> open_clash s r"
  by (simp add: open_clash_def)

lemma length_filter_map_le:
  "(\<And>x. Q (g x) \<Longrightarrow> P x) \<Longrightarrow> length (filter Q (map g xs)) \<le> length (filter P xs)"
  by (induction xs) (auto simp: le_SucI)

lemma ResolveSubjectReports_ok:
  assumes ok: "reports_ok db" and "status \<noteq> StatusOpen"
    and res: "ResolveSubjectReports now status resolver note t cols db = Some (n, db')"
  shows "reports_ok db'"
proof -
  let ?P = "\<lambda>r. rp_Status r = StatusOpen \<and> on_subject t cols r"
  let ?f = "\<lambda>r. r\<lparr>rp_Status := status, rp_ResolvedAt := Some now, rp_ResolvedBy := Some resolver, rp_Note := note\<rparr>"
  let ?g = "\<lambda>r. if ?P r then ?f r else r"
  have db': "rb_reports db' = map ?g (rb_reports db)" and checks: "\<forall>r \<in> set (rb_reports db). ?P r \<longrightarrow> report_check (?f r)"
    using res by (auto simp: ResolveSubjectReports_def Let_def list_ex_iff split: if_splits)
  have "map rp_ID (map ?g (rb_reports db)) = map rp_ID (rb_reports db)" by simp
  then have ids: "distinct (map rp_ID (rb_reports db'))" using ok unfolding db' reports_ok_def by metis
  have "CountOpenReportsBy db' x \<le> CountOpenReportsBy db x" for x
    unfolding CountOpenReportsBy_def db' by (rule length_filter_map_le) (use assms(2) in \<open>auto split: if_splits\<close>)
  then have cap: "CountOpenReportsBy db' x \<le> maxOpenReportsPerUser" for x
    using ok le_trans unfolding reports_ok_def by blast
  have same: "?g r = r" if "rp_Status (?g r) = StatusOpen" for r using that assms(2) by (auto split: if_splits)
  have "\<forall>x \<in> set (rb_reports db'). \<forall>y \<in> set (rb_reports db'). open_clash x y \<longrightarrow> x = y"
  proof (intro ballI impI)
    fix x y assume "x \<in> set (rb_reports db')" "y \<in> set (rb_reports db')" and clash: "open_clash x y"
    then obtain r s where r: "r \<in> set (rb_reports db)" "x = ?g r" and s: "s \<in> set (rb_reports db)" "y = ?g s"
      by (auto simp: db')
    have "x = r" "y = s" using clash same r(2) s(2) by (auto simp: open_clash_def)
    then show "x = y" using ok r(1) s(1) clash by (auto simp: reports_ok_def)
  qed
  moreover have "\<forall>r \<in> set (rb_reports db'). report_check r" using ok checks by (auto simp: db' reports_ok_def)
  ultimately show ?thesis using ids cap by (simp add: reports_ok_def)
qed

lemma handleResolve_cases:
  assumes "handleResolve L E actor t sid body db = (reply, db')"
  obtains "db' = db" "\<forall>s v n. reply \<noteq> Resolved s v n"
  | s verdict remark resolver n where "parseSubject L t sid = Some s" "verdict \<in> {StatusActioned, StatusDismissed}"
      "Resolve (re_db_now E) s verdict resolver remark db = Some (n, db')" "reply = Resolved s verdict n"
  using assms by (auto simp: handleResolve_def Let_def split: option.splits prod.splits if_splits)

lemma handleResolve_ok:
  assumes "reports_ok db" and "handleResolve L E actor t sid body db = (reply, db')"
  shows "reports_ok db'"
  using assms(2)
proof (cases rule: handleResolve_cases)
  case (2 s verdict remark resolver n)
  have "verdict \<noteq> StatusOpen" using 2(2) by (auto simp: report_statuses)
  then show ?thesis using ResolveSubjectReports_ok [OF assms(1)] 2(3) by (auto simp: Resolve_def)
qed (simp add: assms(1))

section \<open>Histories\<close>

text \<open>Filings and resolutions in any order; accounts, bans, quotes and runs change as they please.\<close>

inductive report_step :: "'u uuid_lib \<Rightarrow> 'u report_db \<Rightarrow> 'u report_db \<Rightarrow> bool" for L where
  filed: "handleFile L E caller body limr db = (reply, limr', db') \<Longrightarrow> report_step L db db'"
| resolve: "handleResolve L E actor t sid body db = (reply, db') \<Longrightarrow> report_step L db db'"
| world: "rb_reports db' = rb_reports db \<Longrightarrow> report_step L db db'"

definition report_reachable :: "'u uuid_lib \<Rightarrow> 'u report_db \<Rightarrow> bool" where
  "report_reachable L db \<longleftrightarrow> (\<exists>db0. rb_reports db0 = [] \<and> (report_step L)\<^sup>*\<^sup>* db0 db)"

lemma report_step_ok: "report_step L db db' \<Longrightarrow> reports_ok db \<Longrightarrow> reports_ok db'"
proof (induction rule: report_step.induct)
  case (filed E caller body limr db reply limr' db')
  then show ?case using handleFile_ok [of db L E caller body limr] by simp
next
  case (resolve E actor t sid body db reply db')
  then show ?case by (blast intro: handleResolve_ok)
next
  case (world db' db)
  then show ?case by (simp add: reports_ok_def CountOpenReportsBy_def)
qed

lemma report_reachable_ok:
  assumes "report_reachable L db"
  shows "reports_ok db"
proof -
  obtain db0 where start: "rb_reports db0 = []" and run: "(report_step L)\<^sup>*\<^sup>* db0 db"
    using assms by (auto simp: report_reachable_def)
  from run show ?thesis
  proof (induction rule: rtranclp_induct)
    case base
    then show ?case by (simp add: reports_ok_def CountOpenReportsBy_def start)
  qed (rule report_step_ok)
qed

text \<open>
  C25. In every database reached by filings and resolutions in any order: a reporter has at most one open report on a
  subject and at most twenty in all, a report names one subject of its type with a reason of that type's
  vocabulary and never its own reporter, and it has a resolution time exactly when it is closed.
\<close>

theorem reports_invariant:
  assumes "report_reachable L db"
  shows "(\<forall>r \<in> set (rb_reports db). \<forall>s \<in> set (rb_reports db).
       rp_Status r = StatusOpen \<and> rp_Status s = StatusOpen \<and> rp_Reporter r = rp_Reporter s \<and>
       on_subject (rp_Type r) (rp_Columns r) s \<longrightarrow> r = s) \<and>
    (\<forall>reporter. CountOpenReportsBy db reporter \<le> 20) \<and>
    (\<forall>r \<in> set (rb_reports db). \<exists>s. subjectOf (rp_Type r) (rp_Columns r) = Some s \<and> ReasonValid s (rp_Reason r) \<and>
       s \<noteq> \<lparr>sj_Type = SubjectUser, sj_ID = rp_Reporter r\<rparr> \<and> (rp_Status r = StatusOpen) = (rp_ResolvedAt r = None))"
proof -
  have ok: "reports_ok db" by (rule report_reachable_ok [OF assms])
  have "\<exists>s. subjectOf (rp_Type r) (rp_Columns r) = Some s \<and> ReasonValid s (rp_Reason r) \<and>
      s \<noteq> \<lparr>sj_Type = SubjectUser, sj_ID = rp_Reporter r\<rparr> \<and> (rp_Status r = StatusOpen) = (rp_ResolvedAt r = None)"
    if r: "r \<in> set (rb_reports db)" for r
  proof -
    have check: "report_check r" using ok r by (simp add: reports_ok_def)
    obtain s where s: "subjectOf (rp_Type r) (rp_Columns r) = Some s" "sj_Type s = rp_Type r" "Columns s = rp_Columns r"
      using checked_subject [OF check] by blast
    have "ReasonValid s (rp_Reason r)"
      using check known_types [of "rp_Type r"]
      by (auto simp: ReasonValid_def s(2) report_check_def reason_check_def list_ex_iff split: option.splits)
    moreover have "s \<noteq> \<lparr>sj_Type = SubjectUser, sj_ID = rp_Reporter r\<rparr>"
    proof
      assume "s = \<lparr>sj_Type = SubjectUser, sj_ID = rp_Reporter r\<rparr>"
      then have "fst (rp_Columns r) = Some (rp_Reporter r)" unfolding s(3) [symmetric] by (simp add: Columns_def)
      then show False using check by (simp add: report_check_def)
    qed
    ultimately show ?thesis using s(1) check by (simp add: report_check_def)
  qed
  moreover have "r = s" if "r \<in> set (rb_reports db)" "s \<in> set (rb_reports db)" "rp_Status r = StatusOpen"
    "rp_Status s = StatusOpen" "rp_Reporter r = rp_Reporter s" "on_subject (rp_Type r) (rp_Columns r) s" for r s
    using ok that clash_same_subject [of r s] unfolding reports_ok_def by blast
  ultimately show ?thesis using ok by (auto simp: reports_ok_def maxOpenReportsPerUser_def)
qed

section \<open>Filing\<close>

definition new_report :: "'u report_env \<Rightarrow> 'u \<Rightarrow> 'u Subject \<Rightarrow> string \<Rightarrow> string \<Rightarrow> 'u report_row" where
  "new_report E reporter s reason comment =
     \<lparr>rp_ID = re_id E, rp_Type = sj_Type s, rp_Columns = Columns s, rp_Reporter = reporter, rp_Reason = reason,
      rp_Comment = nullableText comment, rp_Status = StatusOpen, rp_CreatedAt = re_db_now E, rp_ResolvedAt = None,
      rp_ResolvedBy = None, rp_Note = None\<rparr>"

definition subject_exists :: "'u report_db \<Rightarrow> 'u Subject \<Rightarrow> bool" where
  "subject_exists db s \<longleftrightarrow>
     (if sj_Type s = SubjectUser then user_exists (bd_accounts db) (sj_ID s)
      else if sj_Type s = SubjectQuote then sj_ID s \<in> fst ` set (rb_quotes db)
      else sj_ID s \<in> fst ` set (rb_runs db))"

lemma nullable_comment: "RuneCountInString c \<le> 1000 \<Longrightarrow> comment_check (nullableText c)"
  by (cases c) (auto simp: comment_check_def nullableText_def RuneCountInString_def runes_def rune_segments.simps Let_def
      split: prod.splits)

lemma new_report_check:
  assumes "sj_Type s \<in> {SubjectUser, SubjectQuote, SubjectRun}" and "ReasonValid s reason" and "RuneCountInString comment \<le> 1000"
  shows "report_check (new_report E reporter s reason comment) \<longleftrightarrow> s \<noteq> \<lparr>sj_Type = SubjectUser, sj_ID = reporter\<rparr>"
proof -
  have "reason_check (sj_Type s) reason" using assms(2) by (auto simp: ReasonValid_def reason_check_def list_ex_iff split: option.splits)
  moreover have "fst (Columns s) = Some reporter \<longleftrightarrow> s = \<lparr>sj_Type = SubjectUser, sj_ID = reporter\<rparr>"
    by (cases s) (auto simp: Columns_def subject_types)
  ultimately show ?thesis
    using assms(1) Columns_check [OF assms(1)] nullable_comment [OF assms(3)]
    by (simp add: report_check_def new_report_def)
qed

text \<open>
  C26. What a filing answers. For a well-formed request of an unrestricted, unthrottled player of an existing
  account: at twenty open reports it is refused, even when it repeats one of them; a report on oneself is an
  internal error; a repeat answers 200 with the report already open and writes nothing; a first report on an
  existing subject answers 201 and adds exactly that row; on a missing subject it is 404.
\<close>

theorem filing_answers:
  assumes "report_reachable L db" and "limiter_allow limr (uuid_String L reporter) (re_now E) = (limr', True)"
    and "parseSubject L (fq_Type req) (fq_ID req) = Some s" and "ReasonValid s (fq_Reason req)"
    and "RuneCountInString (TrimSpace (fq_Comment req)) \<le> 1000" and "\<not> IsRestricted (re_db_now E) (bd_bans db) reporter"
    and "user_exists (bd_accounts db) reporter" and "re_id E \<notin> rp_ID ` set (rb_reports db)"
  shows "handleFile L E (Some reporter) (Some req) limr db =
    (let r = new_report E reporter s (fq_Reason req) (TrimSpace (fq_Comment req)) in
     if CountOpenReportsBy db reporter \<ge> 20 then (ReportError 429 ''too_many_open_reports'', limr', db)
     else if s = \<lparr>sj_Type = SubjectUser, sj_ID = reporter\<rparr> then (ReportError 500 ''internal'', limr', db)
     else case FindOpenReport db reporter (sj_Type s) (Columns s) of
       Some old \<Rightarrow> (Filed 200 old, limr', db)
     | None \<Rightarrow> if subject_exists db s then (Filed 201 r, limr', db\<lparr>rb_reports := rb_reports db @ [r]\<rparr>)
               else (ReportError 404 ''not_found'', limr', db))"
proof -
  have ok: "reports_ok db" by (rule report_reachable_ok [OF assms(1)])
  define comment where "comment = TrimSpace (fq_Comment req)"
  define r where "r = new_report E reporter s (fq_Reason req) comment"
  have known: "sj_Type s \<in> {SubjectUser, SubjectQuote, SubjectRun}"
    using assms(3) known_types [of "sj_Type s"] by (auto simp: parseSubject_def Subject_Validate_def Let_def split: option.splits if_splits)
  have check: "report_check r \<longleftrightarrow> s \<noteq> \<lparr>sj_Type = SubjectUser, sj_ID = reporter\<rparr>"
    unfolding r_def using new_report_check [OF known assms(4)] assms(5) comment_def by blast
  have refs: "references_ok db r \<longleftrightarrow> subject_exists db s"
    using known assms(7)
    by (auto simp: references_ok_def r_def new_report_def Columns_def subject_exists_def fk_ok_def subject_types)
  have create: "CreateReport (re_id E) (re_db_now E) (sj_Type s) (Columns s) reporter (fq_Reason req) (nullableText comment) db =
      (if \<not> report_check r then CheckViolated
       else if list_ex (\<lambda>x. rp_ID x = re_id E \<or> open_clash r x) (rb_reports db) then NoRow
       else if \<not> references_ok db r then ForeignKeyViolated else CreatedRow r (db\<lparr>rb_reports := rb_reports db @ [r]\<rparr>))"
    by (simp add: CreateReport_def Let_def r_def new_report_def)
  have clash: "list_ex (\<lambda>x. rp_ID x = re_id E \<or> open_clash r x) (rb_reports db) \<longleftrightarrow>
      FindOpenReport db reporter (sj_Type s) (Columns s) \<noteq> None" if "report_check r"
  proof -
    have "open_clash r x \<longleftrightarrow> rp_Reporter x = reporter \<and> rp_Status x = StatusOpen \<and> on_subject (sj_Type s) (Columns s) x"
      if "x \<in> set (rb_reports db)" for x
      using clash_same_subject [OF \<open>report_check r\<close>, of x] ok that by (auto simp: reports_ok_def r_def new_report_def)
    moreover have "\<forall>x \<in> set (rb_reports db). rp_ID x \<noteq> re_id E" using assms(8) by (force simp: image_iff)
    ultimately show ?thesis by (auto simp: FindOpenReport_def find_first_None_iff list_ex_iff simp del: not_None_eq)
  qed
  have filed: "File (re_id E) (re_db_now E) s reporter (fq_Reason req) comment db =
      (if s = \<lparr>sj_Type = SubjectUser, sj_ID = reporter\<rparr> then Inl FileFailed
       else case FindOpenReport db reporter (sj_Type s) (Columns s) of
         Some old \<Rightarrow> Inr (old, False, db)
       | None \<Rightarrow> if subject_exists db s then Inr (r, True, db\<lparr>rb_reports := rb_reports db @ [r]\<rparr>) else Inl ErrSubjectMissing)"
    using check clash refs by (auto simp: File_def create split: option.splits)
  have "handleFile L E (Some reporter) (Some req) limr db =
      (case file_checked E reporter s (fq_Reason req) comment db of (a, db') \<Rightarrow> (a, limr', db'))"
    using assms(2-5) by (simp add: handleFile_def comment_def maxComment_def)
  then show ?thesis
    using assms(6)
    unfolding file_checked_def filed r_def [symmetric] comment_def [symmetric] Let_def maxOpenReportsPerUser_def
    by (simp split: option.split)
qed

section \<open>Resolving\<close>

text \<open>
  C27. A resolution closes the subject's whole group and nothing else: it answers the number of reports that were
  open on the subject, none is open on it afterwards, every other report is unchanged, and the same call again
  answers zero and writes nothing.
\<close>

theorem resolution_closes_group:
  assumes "handleResolve L E actor t sid body db = (Resolved s verdict n, db')"
  shows "n = length (filter (\<lambda>r. rp_Status r = StatusOpen \<and> on_subject (sj_Type s) (Columns s) r) (rb_reports db)) \<and>
    (\<forall>r \<in> set (rb_reports db'). on_subject (sj_Type s) (Columns s) r \<longrightarrow> rp_Status r \<noteq> StatusOpen) \<and>
    filter (\<lambda>r. \<not> on_subject (sj_Type s) (Columns s) r) (rb_reports db') =
      filter (\<lambda>r. \<not> on_subject (sj_Type s) (Columns s) r) (rb_reports db) \<and>
    handleResolve L E' actor t sid body db' = (Resolved s verdict 0, db')"
proof -
  obtain a raw where a: "actor = Some a" "body = Some (verdict, raw)" "parseSubject L t sid = Some s"
      "verdict \<in> {StatusActioned, StatusDismissed}" "\<not> RuneCountInString (TrimSpace raw) > maxResolutionNote"
    and res: "Resolve (re_db_now E) s verdict (ac_ID a) (TrimSpace raw) db = Some (n, db')"
    using assms by (auto simp: handleResolve_def Let_def split: option.splits prod.splits if_splits)
  let ?P = "\<lambda>r. rp_Status r = StatusOpen \<and> on_subject (sj_Type s) (Columns s) r"
  let ?g = "\<lambda>r. if ?P r then r\<lparr>rp_Status := verdict, rp_ResolvedAt := Some (re_db_now E),
      rp_ResolvedBy := Some (ac_ID a), rp_Note := nullableText (TrimSpace raw)\<rparr> else r"
  have n: "n = length (filter ?P (rb_reports db))" and db': "db' = db\<lparr>rb_reports := map ?g (rb_reports db)\<rparr>"
    using res by (auto simp: Resolve_def ResolveSubjectReports_def Let_def split: if_splits)
  have "verdict \<noteq> StatusOpen" using a(4) by (auto simp: report_statuses)
  then have closed: "\<forall>r \<in> set (rb_reports db'). on_subject (sj_Type s) (Columns s) r \<longrightarrow> rp_Status r \<noteq> StatusOpen"
    by (auto simp: db')
  have rest: "filter (\<lambda>r. \<not> on_subject (sj_Type s) (Columns s) r) (map ?g rs) =
      filter (\<lambda>r. \<not> on_subject (sj_Type s) (Columns s) r) rs" for rs
    by (induction rs) (auto simp: on_subject_def)
  have none: "filter ?P (rb_reports db') = []" using closed by (auto simp: filter_empty_conv)
  then have "map (\<lambda>r. if ?P r then f r else r) (rb_reports db') = rb_reports db'" for f
    by (intro map_idI) (auto simp: filter_empty_conv)
  then have "Resolve (re_db_now E') s verdict (ac_ID a) (TrimSpace raw) db' = Some (0, db')"
    by (simp add: Resolve_def ResolveSubjectReports_def none)
  moreover have "\<not> (verdict \<noteq> StatusActioned \<and> verdict \<noteq> StatusDismissed)" using a(4) by blast
  ultimately have "handleResolve L E' actor t sid body db' = (Resolved s verdict 0, db')"
    unfolding handleResolve_def a(1-3) Let_def using a(5) by simp
  moreover have "filter (\<lambda>r. \<not> on_subject (sj_Type s) (Columns s) r) (rb_reports db') =
      filter (\<lambda>r. \<not> on_subject (sj_Type s) (Columns s) r) (rb_reports db)"
    unfolding db' by (simp add: rest)
  ultimately show ?thesis using n closed by blast
qed

section \<open>The queue\<close>

lemma group_sizes:
  assumes "finite K" and "key ` set rs \<subseteq> K"
  shows "(\<Sum>k \<in> K. length (filter (\<lambda>r. key r = k) rs)) = length rs"
  using assms(2)
proof (induction rs)
  case (Cons r rs)
  have "(\<Sum>k \<in> K. length (filter (\<lambda>x. key x = k) (r # rs))) =
      (\<Sum>k \<in> K. (if key r = k then 1 else 0) + length (filter (\<lambda>x. key x = k) rs))"
    by (rule sum.cong) auto
  then show ?case using Cons assms(1) by (simp add: sum.distrib)
qed simp

lemma map_filter_all: "(\<And>x. x \<in> set xs \<Longrightarrow> f x = Some (g x)) \<Longrightarrow> List.map_filter f xs = map g xs"
  by (induction xs) (simp_all add: List.map_filter_simps)

lemma queue_groups_perm:
  "mset (queue_groups db t) =
     mset (map (\<lambda>k. (k, filter (\<lambda>r. report_key r = k) (open_reports db t))) (remdups (map report_key (open_reports db t))))"
  by (simp add: queue_groups_def Let_def)

lemma queue_group_in:
  "(k, rs) \<in> set (queue_groups db t) \<longleftrightarrow>
     k \<in> report_key ` set (open_reports db t) \<and> rs = filter (\<lambda>r. report_key r = k) (open_reports db t)"
  by (auto simp: queue_groups_def Let_def)

text \<open>Under the invariant every group becomes a queue item of its subject.\<close>

lemma queue_items:
  assumes "reports_ok db" and "(k, rs) \<in> set (queue_groups db t)"
  shows "\<exists>i. queue_item db k rs = Some i \<and> k = (sj_Type (qi_Subject i), Columns (qi_Subject i)) \<and> qi_OpenReports i = length rs \<and>
    set (qi_Reasons i) = rp_Reason ` set rs"
proof -
  obtain r where r: "r \<in> set (rb_reports db)" "k = report_key r"
    using assms(2) by (auto simp: queue_group_in open_reports_def)
  then have "report_check r" using assms(1) by (simp add: reports_ok_def)
  then obtain s where s: "subjectOf (rp_Type r) (rp_Columns r) = Some s" "sj_Type s = rp_Type r" "Columns s = rp_Columns r"
    using checked_subject by blast
  obtain a b c where cols: "rp_Columns r = (a, b, c)" by (metis prod_cases3)
  show ?thesis using s cols by (auto simp: queue_item_def r(2) report_key_def Let_def)
qed

text \<open>
  C28. The queue loses nothing. With room for every group, each open report is counted in exactly one item, the one of
  its subject, which lists its reason; subjects are listed once; and the items come most reported first.
\<close>

theorem queue_counts_every_report:
  assumes "report_reachable L db" and "int (length (rb_reports db)) \<le> limit"
  shows "sum_list (map qi_OpenReports (Queue db None limit)) = length (filter (\<lambda>r. rp_Status r = StatusOpen) (rb_reports db)) \<and>
    distinct (map qi_Subject (Queue db None limit)) \<and> sorted (rev (map qi_OpenReports (Queue db None limit))) \<and>
    (\<forall>r \<in> set (rb_reports db). rp_Status r = StatusOpen \<longrightarrow> (\<exists>i \<in> set (Queue db None limit).
       Columns (qi_Subject i) = rp_Columns r \<and> sj_Type (qi_Subject i) = rp_Type r \<and> rp_Reason r \<in> set (qi_Reasons i)))"
proof -
  have ok: "reports_ok db" by (rule report_reachable_ok [OF assms(1)])
  let ?rs = "open_reports db None" and ?gs = "queue_groups db None"
  have keys: "mset (map fst ?gs) = mset (remdups (map report_key ?rs))"
    using arg_cong [OF queue_groups_perm [of db None], of "image_mset fst"] by (simp add: image_mset.compositionality comp_def flip: mset_map)
  have "length ?gs \<le> length ?rs" using arg_cong [OF keys, of size] length_remdups_leq [of "map report_key ?rs"] by simp
  also have "\<dots> \<le> length (rb_reports db)" by (simp add: open_reports_def)
  finally have room: "take (nat limit) ?gs = ?gs" using assms(2) by simp
  define item where "item g = the (queue_item db (fst g) (snd g))" for g
  have item: "queue_item db (fst g) (snd g) = Some (item g) \<and> fst g = (sj_Type (qi_Subject (item g)), Columns (qi_Subject (item g))) \<and>
      qi_OpenReports (item g) = length (snd g) \<and> set (qi_Reasons (item g)) = rp_Reason ` set (snd g)" if "g \<in> set ?gs" for g
    using queue_items [OF ok, of "fst g" "snd g" None] that by (auto simp: item_def)
  have q: "Queue db None limit = map item ?gs"
    unfolding Queue_def room case_prod_beta by (intro map_filter_all item [THEN conjunct1])
  have sizes: "map qi_OpenReports (map item ?gs) = map (length \<circ> snd) ?gs" using item by simp
  have "mset (map (length \<circ> snd) ?gs) =
      mset (map (\<lambda>k. length (filter (\<lambda>r. report_key r = k) ?rs)) (remdups (map report_key ?rs)))"
    using arg_cong [OF queue_groups_perm [of db None], of "image_mset (length \<circ> snd)"]
    by (simp add: image_mset.compositionality comp_def flip: mset_map)
  then have "sum_list (map (length \<circ> snd) ?gs) =
      (\<Sum>k \<leftarrow> remdups (map report_key ?rs). length (filter (\<lambda>r. report_key r = k) ?rs))"
    by (metis sum_mset_sum_list)
  also have "\<dots> = (\<Sum>k \<in> report_key ` set ?rs. length (filter (\<lambda>r. report_key r = k) ?rs))"
    by (simp add: sum_list_distinct_conv_sum_set)
  also have "\<dots> = length ?rs" by (rule group_sizes) auto
  finally have total: "sum_list (map qi_OpenReports (Queue db None limit)) = length ?rs" unfolding q sizes .
  have "map (\<lambda>s. (sj_Type s, Columns s)) (map qi_Subject (map item ?gs)) = map fst ?gs" using item by (simp add: comp_def)
  note fsts = this
  have "distinct (map fst ?gs)" using keys by (metis distinct_remdups mset_eq_imp_distinct_iff)
  then have "distinct (map (\<lambda>s. (sj_Type s, Columns s)) (map qi_Subject (map item ?gs)))" unfolding fsts .
  then have subjects: "distinct (map qi_Subject (Queue db None limit))"
    unfolding q by (rule distinct_map [THEN iffD1, THEN conjunct1])
  have "sorted (map (\<lambda>g. - int (length (snd g))) ?gs)" by (simp add: queue_groups_def Let_def)
  then have order: "sorted (rev (map qi_OpenReports (Queue db None limit)))"
    unfolding q sizes by (simp add: sorted_wrt_rev sorted_map sorted_wrt_map)
  have "\<exists>i \<in> set (map item ?gs). Columns (qi_Subject i) = rp_Columns r \<and> sj_Type (qi_Subject i) = rp_Type r \<and>
      rp_Reason r \<in> set (qi_Reasons i)" if r: "r \<in> set ?rs" for r
  proof -
    let ?g = "(report_key r, filter (\<lambda>x. report_key x = report_key r) ?rs)"
    have "?g \<in> set ?gs" using r by (auto simp: queue_group_in)
    from item [OF this] r this show ?thesis by (auto simp: report_key_def intro!: bexI [of _ ?g])
  qed
  moreover have "?rs = filter (\<lambda>r. rp_Status r = StatusOpen) (rb_reports db)" by (simp add: open_reports_def)
  ultimately show ?thesis using total subjects order q by simp
qed

section \<open>Concrete instances\<close>

text \<open>Account 2 reports the display name of account 1; the limiter is switched off.\<close>

definition report_ids :: "nat uuid_lib" where
  "report_ids = \<lparr>uuid_Parse = (\<lambda>s. if s = ''one'' then Some 1 else None), uuid_String = (\<lambda>u. []), uuid_Nil = 0\<rparr>"

definition report_user :: "nat \<Rightarrow> string \<Rightarrow> nat User" where
  "report_user n name = \<lparr>u_ID = n, u_DisplayName = name, u_CreatedAt = 0, u_ProfilePublic = True, u_KeyboardPublic = False,
     u_Role = ''player'', u_DisplayNameChangedAt = None\<rparr>"

definition no_reports :: "nat report_db" where
  "no_reports = \<lparr>bd_accounts = \<lparr>ad_users = [report_user 1 ''one'', report_user 2 ''two''], ad_identities = [],
     ad_credentials = [], ad_sessions = [], ad_tokens = []\<rparr>, bd_bans = [], rb_quotes = [], rb_runs = [], rb_reports = []\<rparr>"

definition report_env0 :: "nat report_env" where
  "report_env0 = \<lparr>re_now = 0, re_db_now = 0, re_id = 7\<rparr>"

definition name_report :: fileRequest where
  "name_report = \<lparr>fq_Type = ''user'', fq_ID = ''one'', fq_Reason = ''offensive_name'', fq_Comment = []\<rparr>"

definition reported_user :: "nat Subject" where
  "reported_user = \<lparr>sj_Type = ''user'', sj_ID = 1\<rparr>"

definition first_report :: "nat report_row" where
  "first_report = new_report report_env0 2 reported_user ''offensive_name'' []"

definition one_report :: "nat report_db" where
  "one_report = no_reports\<lparr>rb_reports := [first_report]\<rparr>"

lemmas report_demo_defs = report_ids_def report_user_def no_reports_def report_env0_def name_report_def reported_user_def

lemma no_reports_reachable: "report_reachable report_ids no_reports"
  unfolding report_reachable_def by (rule exI [of _ no_reports]) (simp add: no_reports_def)

lemma demo_filing:
  "parseSubject report_ids (fq_Type name_report) (fq_ID name_report) = Some reported_user"
  "ReasonValid reported_user (fq_Reason name_report)" "TrimSpace (fq_Comment name_report) = []"
  "user_exists (bd_accounts no_reports) 2" "\<not> IsRestricted (re_db_now report_env0) (bd_bans no_reports) 2"
  "limiter_allow (NewInMemoryRateLimiter 0 0) (uuid_String report_ids 2) (re_now report_env0) = (NewInMemoryRateLimiter 0 0, True)"
  by (simp_all add: parseSubject_def Subject_Validate_def reasonsBySubject_def subject_types ReasonValid_def TrimSpace_def
      trim_by_def rune_segments.simps user_exists_def IsRestricted_def active_bans_def limiter_allow_def
      NewInMemoryRateLimiter_def report_demo_defs)

theorem filing_answers_witness:
  "handleFile report_ids report_env0 (Some 2) (Some name_report) (NewInMemoryRateLimiter 0 0) no_reports =
     (Filed 201 first_report, NewInMemoryRateLimiter 0 0, one_report)"
proof -
  have "RuneCountInString (TrimSpace (fq_Comment name_report)) \<le> 1000" "re_id report_env0 \<notin> rp_ID ` set (rb_reports no_reports)"
    by (simp_all add: demo_filing RuneCountInString_def runes_def rune_segments.simps no_reports_def)
  from filing_answers [OF no_reports_reachable demo_filing(6,1,2) this(1) demo_filing(5,4) this(2)] show ?thesis
    unfolding Let_def demo_filing(3)
    by (simp add: CountOpenReportsBy_def FindOpenReport_def subject_exists_def subject_types
        first_report_def one_report_def user_exists_def report_demo_defs)
qed

lemma one_report_reachable: "report_reachable report_ids one_report"
proof -
  let ?r = "new_report report_env0 2 reported_user ''offensive_name'' []"
  have "File 7 0 reported_user 2 ''offensive_name'' [] no_reports = Inr (?r, True, one_report)"
    by (simp add: File_def CreateReport_def Let_def report_check_def subject_check_def reason_check_def comment_check_def
        reasonsBySubject_def Columns_def references_ok_def fk_ok_def user_exists_def nullableText_def new_report_def subject_types
        report_statuses report_demo_defs one_report_def first_report_def)
  then have "handleFile report_ids report_env0 (Some 2) (Some name_report) (NewInMemoryRateLimiter 0 0) no_reports =
      (Filed 201 ?r, NewInMemoryRateLimiter 0 0, one_report)"
    using demo_filing
    by (simp add: handleFile_def Let_def file_checked_def RuneCountInString_def runes_def rune_segments.simps maxComment_def
        CountOpenReportsBy_def maxOpenReportsPerUser_def report_env0_def name_report_def)
      (simp add: no_reports_def)
  then have "report_step report_ids no_reports one_report" by (rule report_step.filed)
  then show ?thesis
    unfolding report_reachable_def by (intro exI [of _ no_reports]) (simp add: no_reports_def r_into_rtranclp)
qed

theorem reports_invariant_witness:
  "report_reachable report_ids one_report \<and> CountOpenReportsBy one_report 2 = 1 \<and> CountOpenReportsBy one_report 2 \<le> 20"
  using reports_invariant [OF one_report_reachable] one_report_reachable
  by (auto simp: CountOpenReportsBy_def one_report_def first_report_def new_report_def)

lemma demo_resolution:
  "handleResolve report_ids report_env0 (Some \<lparr>ac_ID = 1, ac_Name = ''one''\<rparr>) ''user'' ''one'' (Some (''dismissed'', [])) one_report =
     (Resolved reported_user ''dismissed'' 1, one_report\<lparr>rb_reports := [first_report\<lparr>rp_Status := ''dismissed'',
        rp_ResolvedAt := Some 0, rp_ResolvedBy := Some 1\<rparr>]\<rparr>)"
  using demo_filing(1,3)
  by (simp add: handleResolve_def Resolve_def ResolveSubjectReports_def Let_def RuneCountInString_def runes_def
      rune_segments.simps maxResolutionNote_def on_subject_def report_check_def subject_check_def reason_check_def
      comment_check_def reasonsBySubject_def Columns_def user_exists_def nullableText_def new_report_def subject_types
      report_statuses report_demo_defs one_report_def first_report_def)

theorem resolution_closes_group_witness:
  "handleResolve report_ids report_env0 (Some \<lparr>ac_ID = 1, ac_Name = ''one''\<rparr>) ''user'' ''one'' (Some (''dismissed'', []))
     (one_report\<lparr>rb_reports := [first_report\<lparr>rp_Status := ''dismissed'', rp_ResolvedAt := Some 0, rp_ResolvedBy := Some 1\<rparr>]\<rparr>) =
   (Resolved reported_user ''dismissed'' 0,
    one_report\<lparr>rb_reports := [first_report\<lparr>rp_Status := ''dismissed'', rp_ResolvedAt := Some 0, rp_ResolvedBy := Some 1\<rparr>]\<rparr>)"
  using resolution_closes_group [OF demo_resolution, of report_env0] by blast

theorem queue_counts_every_report_witness: "sum_list (map qi_OpenReports (Queue one_report None 50)) = 1"
  using queue_counts_every_report [OF one_report_reachable, of 50]
  by (simp add: open_reports_def one_report_def first_report_def new_report_def)

end
