(* ===== verification/Quotes.thy ===== *)
theory Quotes
  imports Auth_DB Decide Keyset "HOL-Library.Product_Lexorder" "HOL-Library.List_Lexorder" "HOL-Library.Char_ord"
begin

text \<open>
  The quote registry (\<open>internal/quote\<close>): the table of migrations 00007 and 00025 with its statements
  (\<open>quotedb\<close>), the import that publishes a language's corpus (\<open>corpus.Load\<close>, \<open>pgstore.Import\<close>, \<open>quotectl\<close>),
  the public reads, the moderation surface, and the resolver the replay worker reads texts through.

  The hash of a text is computed by the JavaScript core, an argument. Embedded files are an argument that maps a
  name to the document it decodes to. PostgreSQL orders \<open>lang\<close> by the collation of the database: \<open>ck\<close> is the
  sort key it assigns to a text. Instants count from Go's zero time. Ids that the database generates and its clock
  are arguments.
\<close>

section \<open>Length groups\<close>

definition LenGroupCount :: int where "LenGroupCount = 4"

definition lenGroupNames :: "string list" where
  "lenGroupNames = [''short'', ''medium'', ''long'', ''thicc'']"

definition LenGroup_Valid :: "int \<Rightarrow> bool" where
  "LenGroup_Valid g \<longleftrightarrow> g \<ge> 0 \<and> g < LenGroupCount"

definition LenGroup_String :: "int \<Rightarrow> string" where
  "LenGroup_String g =
     (if g < 0 \<or> g \<ge> LenGroupCount then ''LenGroup('' @ Itoa g @ '')'' else lenGroupNames ! nat g)"

definition ParseLenGroup :: "string \<Rightarrow> int option" where
  "ParseLenGroup s = map_option int (find_index s lenGroupNames)"

section \<open>The table\<close>

record 'u quote_row =
  qt_ID :: 'u
  qt_Lang :: string
  qt_UpstreamID :: int
  qt_Text :: string
  qt_Source :: string
  qt_Length :: int
  qt_LenGroup :: int
  qt_TextHash :: string
  qt_Superseded :: bool
  qt_CreatedAt :: int
  qt_WithdrawnAt :: "int option"
  qt_WithdrawnBy :: "'u option"
  qt_WithdrawnReason :: "string option"

record 'u quote_db =
  qd_accounts :: "'u auth_db"
  qd_quotes :: "'u quote_row list"

definition quote_check :: "'u quote_row \<Rightarrow> bool" where
  "quote_check q \<longleftrightarrow>
     qt_Length q = int (RuneCountInString (qt_Text q)) \<and> 0 \<le> qt_LenGroup q \<and> qt_LenGroup q \<le> 3 \<and> qt_Length q > 0 \<and>
     ((qt_WithdrawnAt q = None) = (qt_WithdrawnReason q = None))"

definition same_revision :: "'u quote_row \<Rightarrow> 'u quote_row \<Rightarrow> bool" where
  "same_revision p q \<longleftrightarrow>
     qt_Lang p = qt_Lang q \<and> qt_UpstreamID p = qt_UpstreamID q \<and> qt_TextHash p = qt_TextHash q"

definition published :: "'u quote_row \<Rightarrow> bool" where
  "published q \<longleftrightarrow> \<not> qt_Superseded q \<and> qt_WithdrawnAt q = None"

section \<open>Statements\<close>

definition update_quotes :: "('u quote_row \<Rightarrow> bool) \<Rightarrow> ('u quote_row \<Rightarrow> 'u quote_row) \<Rightarrow> 'u quote_db \<Rightarrow> nat \<times> 'u quote_db" where
  "update_quotes P f db =
     (length (filter P (qd_quotes db)), db\<lparr>qd_quotes := map (\<lambda>q. if P q then f q else q) (qd_quotes db)\<rparr>)"

definition CountQuotes :: "'u quote_db \<Rightarrow> nat" where
  "CountQuotes db = length (qd_quotes db)"

definition FindQuoteRevision :: "'u quote_db \<Rightarrow> string \<Rightarrow> int \<Rightarrow> string \<Rightarrow> 'u quote_row option" where
  "FindQuoteRevision db lang upstream hash =
     find_first (\<lambda>q. qt_Lang q = lang \<and> qt_UpstreamID q = upstream \<and> qt_TextHash q = hash) (qd_quotes db)"

definition GetQuote :: "'u quote_db \<Rightarrow> 'u \<Rightarrow> 'u quote_row option" where
  "GetQuote db qid = find_first (\<lambda>q. qt_ID q = qid) (qd_quotes db)"

record Incoming =
  in_UpstreamID :: int
  in_Text :: string
  in_Source :: string
  in_Length :: int
  in_LenGroup :: int
  in_TextHash :: string

definition new_revision :: "'u \<Rightarrow> int \<Rightarrow> string \<Rightarrow> Incoming \<Rightarrow> 'u quote_row" where
  "new_revision qid now lang i =
     \<lparr>qt_ID = qid, qt_Lang = lang, qt_UpstreamID = in_UpstreamID i, qt_Text = in_Text i, qt_Source = in_Source i,
      qt_Length = in_Length i, qt_LenGroup = to_int16 (in_LenGroup i), qt_TextHash = in_TextHash i, qt_Superseded = False,
      qt_CreatedAt = now, qt_WithdrawnAt = None, qt_WithdrawnBy = None, qt_WithdrawnReason = None\<rparr>"

text \<open>\<open>None\<close> is a failed statement: a violated CHECK, a taken id or a taken revision.\<close>

definition InsertQuoteRevision :: "'u \<Rightarrow> int \<Rightarrow> string \<Rightarrow> Incoming \<Rightarrow> 'u quote_db \<Rightarrow> 'u quote_db option" where
  "InsertQuoteRevision qid now lang i db =
     (let q = new_revision qid now lang i
      in if \<not> quote_check q \<or> list_ex (\<lambda>p. qt_ID p = qid \<or> same_revision p q) (qd_quotes db) then None
         else Some (db\<lparr>qd_quotes := qd_quotes db @ [q]\<rparr>))"

definition RepublishQuoteRevision :: "'u \<Rightarrow> 'u quote_db \<Rightarrow> nat \<times> 'u quote_db" where
  "RepublishQuoteRevision qid =
     update_quotes (\<lambda>q. qt_ID q = qid \<and> qt_Superseded q) (\<lambda>q. q\<lparr>qt_Superseded := False\<rparr>)"

definition SupersedeOtherRevisions :: "string \<Rightarrow> int \<Rightarrow> 'u \<Rightarrow> 'u quote_db \<Rightarrow> nat \<times> 'u quote_db" where
  "SupersedeOtherRevisions lang upstream keep =
     update_quotes (\<lambda>q. qt_Lang q = lang \<and> qt_UpstreamID q = upstream \<and> qt_ID q \<noteq> keep \<and> \<not> qt_Superseded q)
       (\<lambda>q. q\<lparr>qt_Superseded := True\<rparr>)"

text \<open>
  The browse order \<open>(lang, len_group, id)\<close> as a key, the filter shared by browsing and drawing, and the page
  after a cursor.
\<close>

definition browse_key :: "(string \<Rightarrow> string) \<Rightarrow> string \<times> int \<times> 'u \<Rightarrow> string \<times> int \<times> 'u" where
  "browse_key ck c = (case c of (lang, g, qid) \<Rightarrow> (ck lang, g, qid))"

definition position_of :: "'u quote_row \<Rightarrow> string \<times> int \<times> 'u" where
  "position_of q = (qt_Lang q, qt_LenGroup q, qt_ID q)"

definition admits :: "string option \<Rightarrow> int option \<Rightarrow> 'u quote_row \<Rightarrow> bool" where
  "admits lang g q \<longleftrightarrow>
     published q \<and> (case lang of None \<Rightarrow> True | Some l \<Rightarrow> qt_Lang q = l) \<and> (case g of None \<Rightarrow> True | Some n \<Rightarrow> qt_LenGroup q = n)"

definition ListQuotes ::
  "(string \<Rightarrow> string) \<Rightarrow> 'u::linorder quote_db \<Rightarrow> string option \<Rightarrow> int option \<Rightarrow> (string \<times> int \<times> 'u) option \<Rightarrow> nat
     \<Rightarrow> 'u quote_row list" where
  "ListQuotes ck db lang g after n =
     take n (sort_key (\<lambda>q. browse_key ck (position_of q))
       (filter (\<lambda>q. admits lang g q \<and>
           (case after of None \<Rightarrow> True | Some c \<Rightarrow> browse_key ck (position_of q) > browse_key ck c)) (qd_quotes db)))"

definition ListWithdrawnQuoteIDs :: "'u quote_db \<Rightarrow> 'u list" where
  "ListWithdrawnQuoteIDs db = map qt_ID (filter (\<lambda>q. qt_WithdrawnAt q \<noteq> None) (qd_quotes db))"

text \<open>
  \<open>random()\<close> is the argument \<open>r\<close>, at least 0 and less than 1. The candidates come in an order of PostgreSQL's
  choice; the definition takes the order of the table.
\<close>

definition PickRandomQuote :: "rat \<Rightarrow> 'u quote_db \<Rightarrow> string option \<Rightarrow> int option \<Rightarrow> 'u quote_row option" where
  "PickRandomQuote r db lang g =
     (let candidates = map qt_ID (filter (admits lang g) (qd_quotes db))
      in case drop (nat \<lfloor>r * of_nat (length candidates)\<rfloor>) candidates of
           [] \<Rightarrow> None
         | qid # _ \<Rightarrow> GetQuote db qid)"

text \<open>
  The outer \<open>None\<close> is a failed statement (the actor is no account), the inner one no such quote; the boolean is
  \<open>newly_withdrawn\<close>. A reference is checked only when the statement changes it.
\<close>

definition withdraw_row :: "int \<Rightarrow> 'u \<Rightarrow> string \<Rightarrow> 'u quote_row \<Rightarrow> 'u quote_row" where
  "withdraw_row now actor reason q =
     q\<lparr>qt_WithdrawnAt := Some (case qt_WithdrawnAt q of None \<Rightarrow> now | Some t \<Rightarrow> t),
       qt_WithdrawnBy := (if qt_WithdrawnAt q = None then Some actor else qt_WithdrawnBy q),
       qt_WithdrawnReason := (if qt_WithdrawnAt q = None then Some reason else qt_WithdrawnReason q)\<rparr>"

definition WithdrawQuote ::
  "int \<Rightarrow> 'u \<Rightarrow> string \<Rightarrow> 'u \<Rightarrow> 'u quote_db \<Rightarrow> (('u quote_row \<times> bool) option \<times> 'u quote_db) option" where
  "WithdrawQuote now actor reason qid db =
     (case GetQuote db qid of
        None \<Rightarrow> Some (None, db)
      | Some q \<Rightarrow>
          if qt_WithdrawnAt q = None \<and> \<not> user_exists (qd_accounts db) actor then None
          else let q' = withdraw_row now actor reason q
               in Some (Some (q', qt_WithdrawnAt q' = Some now),
                        snd (update_quotes (\<lambda>p. qt_ID p = qid) (withdraw_row now actor reason) db)))"

definition RestoreQuote :: "'u \<Rightarrow> 'u quote_db \<Rightarrow> nat \<times> 'u quote_db" where
  "RestoreQuote qid =
     update_quotes (\<lambda>q. qt_ID q = qid \<and> qt_WithdrawnAt q \<noteq> None)
       (\<lambda>q. q\<lparr>qt_WithdrawnAt := None, qt_WithdrawnBy := None, qt_WithdrawnReason := None\<rparr>)"

section \<open>Loading a corpus\<close>

record corpus_quote =
  cq_Text :: string
  cq_Source :: string
  cq_Length :: int
  cq_ID :: int

record corpusFile =
  cf_Language :: string
  cf_Groups :: "(int \<times> int) list"
  cf_Quotes :: "corpus_quote list"

record Language =
  lg_Lang :: string
  lg_File :: string
  lg_Quotes :: int
  lg_Groups :: "(int \<times> int) list"

datatype load_error =
    NoCorpusFile string
  | WrongLanguage string
  | WrongCount nat
  | WrongGroups
  | TwoQuotesWithID int
  | LengthsDiverge int
  | NoGroup int
  | HashFailed int

definition HashText :: "(string list \<Rightarrow> string option) \<Rightarrow> string \<Rightarrow> string option" where
  "HashText dv text = dv [text]"

fun groupOf_from :: "int \<Rightarrow> (int \<times> int) list \<Rightarrow> int \<Rightarrow> int option" where
  "groupOf_from i [] len = None"
| "groupOf_from i ((lo, hi) # gs) len = (if len \<ge> lo \<and> len \<le> hi then Some i else groupOf_from (i + 1) gs len)"

definition groupOf :: "(int \<times> int) list \<Rightarrow> int \<Rightarrow> int option" where
  "groupOf groups len = groupOf_from 0 groups len"

definition sameGroups :: "(int \<times> int) list \<Rightarrow> (int \<times> int) list \<Rightarrow> bool" where
  "sameGroups got want \<longleftrightarrow>
     want \<noteq> [] \<and> length got = length want \<and> list_all (\<lambda>(a, b). a = b) (zip got want) \<and> int (length got) = LenGroupCount"

definition TrimSuffix :: "string \<Rightarrow> string \<Rightarrow> string" where
  "TrimSuffix s ending =
     (if length ending \<le> length s \<and> drop (length s - length ending) s = ending then take (length s - length ending) s else s)"

fun load_quotes ::
  "(string list \<Rightarrow> string option) \<Rightarrow> (int \<times> int) list \<Rightarrow> int list \<Rightarrow> corpus_quote list \<Rightarrow> (load_error, Incoming list) result" where
  "load_quotes dv groups seen [] = Inr []"
| "load_quotes dv groups seen (q # qs) =
     (if cq_ID q \<in> set seen then Inl (TwoQuotesWithID (cq_ID q))
      else if int (RuneCountInString (cq_Text q)) \<noteq> cq_Length q then Inl (LengthsDiverge (cq_ID q))
      else case groupOf groups (cq_Length q) of
        None \<Rightarrow> Inl (NoGroup (cq_ID q))
      | Some g \<Rightarrow>
          (case HashText dv (cq_Text q) of
             None \<Rightarrow> Inl (HashFailed (cq_ID q))
           | Some h \<Rightarrow>
               map_sum id (\<lambda>rest. \<lparr>in_UpstreamID = cq_ID q, in_Text = cq_Text q, in_Source = cq_Source q,
                   in_Length = to_int32 (cq_Length q), in_LenGroup = g, in_TextHash = h\<rparr> # rest)
                 (load_quotes dv groups (cq_ID q # seen) qs)))"

definition corpus_Load ::
  "(string \<Rightarrow> corpusFile option) \<Rightarrow> (string list \<Rightarrow> string option) \<Rightarrow> Language \<Rightarrow> (load_error, Incoming list) result" where
  "corpus_Load read_file dv lang =
     (case read_file (lg_File lang) of
        None \<Rightarrow> Inl (NoCorpusFile (lg_File lang))
      | Some doc \<Rightarrow>
          if cf_Language doc \<noteq> TrimSuffix (lg_File lang) ''.json'' then Inl (WrongLanguage (cf_Language doc))
          else if int (length (cf_Quotes doc)) \<noteq> lg_Quotes lang then Inl (WrongCount (length (cf_Quotes doc)))
          else if \<not> sameGroups (cf_Groups doc) (lg_Groups lang) then Inl WrongGroups
          else load_quotes dv (cf_Groups doc) [] (cf_Quotes doc))"

section \<open>Publishing\<close>

datatype publish_outcome = outcomeInserted | outcomeSuperseded | outcomeUnchanged

record ImportStats =
  is_Inserted :: nat
  is_Superseded :: nat
  is_Unchanged :: nat

definition ImportStats_Total :: "ImportStats \<Rightarrow> nat" where
  "ImportStats_Total s = is_Inserted s + is_Superseded s + is_Unchanged s"

definition ImportStats_Add :: "ImportStats \<Rightarrow> ImportStats \<Rightarrow> ImportStats" where
  "ImportStats_Add s p =
     \<lparr>is_Inserted = is_Inserted s + is_Inserted p, is_Superseded = is_Superseded s + is_Superseded p,
      is_Unchanged = is_Unchanged s + is_Unchanged p\<rparr>"

definition no_stats :: ImportStats where
  "no_stats = \<lparr>is_Inserted = 0, is_Superseded = 0, is_Unchanged = 0\<rparr>"

definition count_outcome :: "publish_outcome \<Rightarrow> ImportStats \<Rightarrow> ImportStats" where
  "count_outcome out s =
     (case out of
        outcomeInserted \<Rightarrow> s\<lparr>is_Inserted := is_Inserted s + 1\<rparr>
      | outcomeSuperseded \<Rightarrow> s\<lparr>is_Superseded := is_Superseded s + 1\<rparr>
      | outcomeUnchanged \<Rightarrow> s\<lparr>is_Unchanged := is_Unchanged s + 1\<rparr>)"

definition publish :: "'u \<Rightarrow> int \<Rightarrow> string \<Rightarrow> Incoming \<Rightarrow> 'u quote_db \<Rightarrow> (publish_outcome \<times> 'u quote_db) option" where
  "publish qid now lang i db =
     (case FindQuoteRevision db lang (in_UpstreamID i) (in_TextHash i) of
        Some found_rev \<Rightarrow>
          (case RepublishQuoteRevision (qt_ID found_rev) db of (restored, db1) \<Rightarrow>
             case SupersedeOtherRevisions lang (in_UpstreamID i) (qt_ID found_rev) db1 of (retired, db2) \<Rightarrow>
               Some (if restored > 0 \<or> retired > 0 then outcomeSuperseded else outcomeUnchanged, db2))
      | None \<Rightarrow>
          (case InsertQuoteRevision qid now lang i db of
             None \<Rightarrow> None
           | Some db1 \<Rightarrow>
               (case SupersedeOtherRevisions lang (in_UpstreamID i) qid db1 of (retired, db2) \<Rightarrow>
                  Some (if retired > 0 then outcomeSuperseded else outcomeInserted, db2))))"

fun publish_all ::
  "(nat \<Rightarrow> 'u) \<Rightarrow> int \<Rightarrow> string \<Rightarrow> nat \<Rightarrow> Incoming list \<Rightarrow> ImportStats \<Rightarrow> 'u quote_db \<Rightarrow> (ImportStats \<times> 'u quote_db) option" where
  "publish_all ids now lang k [] stats db = Some (stats, db)"
| "publish_all ids now lang k (i # rest) stats db =
     (case publish (ids k) now lang i db of
        None \<Rightarrow> None
      | Some (out, db') \<Rightarrow> publish_all ids now lang (Suc k) rest (count_outcome out stats) db')"

text \<open>One transaction: \<open>None\<close> leaves the database as it was.\<close>

definition Import :: "(nat \<Rightarrow> 'u) \<Rightarrow> int \<Rightarrow> string \<Rightarrow> Incoming list \<Rightarrow> 'u quote_db \<Rightarrow> (ImportStats \<times> 'u quote_db) option" where
  "Import ids now lang quotes db = publish_all ids now lang 0 quotes no_stats db"

text \<open>
  \<open>quotectl import\<close>: the rows of the manifest in turn, each language in a transaction of its own; an error stops
  the pass and leaves the languages before it published.
\<close>

datatype import_error = LoadFailed load_error | ImportFailed string | NoManifestRow string

fun import_rows ::
  "(string \<Rightarrow> corpusFile option) \<Rightarrow> (string list \<Rightarrow> string option) \<Rightarrow> (nat \<Rightarrow> nat \<Rightarrow> 'u) \<Rightarrow> (nat \<Rightarrow> int) \<Rightarrow> string \<Rightarrow> nat \<Rightarrow> Language list
     \<Rightarrow> ImportStats \<Rightarrow> nat \<Rightarrow> 'u quote_db \<Rightarrow> (import_error, ImportStats) result \<times> 'u quote_db" where
  "import_rows read_file dv ids clock only k [] sum_so_far matched db =
     (if matched = 0 then Inl (NoManifestRow only) else Inr sum_so_far, db)"
| "import_rows read_file dv ids clock only k (lang # langs) sum_so_far matched db =
     (if only \<noteq> [] \<and> lg_Lang lang \<noteq> only then import_rows read_file dv ids clock only (Suc k) langs sum_so_far matched db
      else case corpus_Load read_file dv lang of
        Inl e \<Rightarrow> (Inl (LoadFailed e), db)
      | Inr incoming \<Rightarrow>
          (case Import (ids k) (clock k) (lg_Lang lang) incoming db of
             None \<Rightarrow> (Inl (ImportFailed (lg_Lang lang)), db)
           | Some (stats, db') \<Rightarrow>
               import_rows read_file dv ids clock only (Suc k) langs (ImportStats_Add sum_so_far stats) (matched + 1) db'))"

definition importQuotes ::
  "(string \<Rightarrow> corpusFile option) \<Rightarrow> (string list \<Rightarrow> string option) \<Rightarrow> (nat \<Rightarrow> nat \<Rightarrow> 'u) \<Rightarrow> (nat \<Rightarrow> int) \<Rightarrow> Language list \<Rightarrow> string
     \<Rightarrow> 'u quote_db \<Rightarrow> (import_error, ImportStats) result \<times> 'u quote_db" where
  "importQuotes read_file dv ids clock manifest only db =
     import_rows read_file dv ids clock only 0 manifest no_stats 0 db"

section \<open>Reads\<close>

definition Store_ByID :: "'u quote_db \<Rightarrow> 'u \<Rightarrow> 'u quote_row option" where
  "Store_ByID db qid = GetQuote db qid"

text \<open>What the worker asks the registry: the text and its hash, \<open>None\<close> when there is no such quote.\<close>

definition ResolveQuote :: "'u quote_db \<Rightarrow> 'u \<Rightarrow> (string, (string \<times> string) option) result" where
  "ResolveQuote db qid =
     (case Store_ByID db qid of None \<Rightarrow> Inr None | Some q \<Rightarrow> Inr (Some (qt_Text q, qt_TextHash q)))"

record quote_filter =
  qf_Lang :: string
  qf_Group :: "int option"

definition Store_Page ::
  "(string \<Rightarrow> string) \<Rightarrow> 'u::linorder quote_db \<Rightarrow> quote_filter \<Rightarrow> (string \<times> int \<times> 'u) option \<Rightarrow> nat \<Rightarrow> 'u quote_row list" where
  "Store_Page ck db f after limit =
     ListQuotes ck db (if qf_Lang f \<noteq> [] then Some (qf_Lang f) else None) (qf_Group f) after limit"

definition Store_Random :: "rat \<Rightarrow> 'u quote_db \<Rightarrow> quote_filter \<Rightarrow> 'u quote_row option" where
  "Store_Random r db f = PickRandomQuote r db (if qf_Lang f \<noteq> [] then Some (qf_Lang f) else None) (qf_Group f)"

record 'u metaView =
  mv_ID :: 'u
  mv_Lang :: string
  mv_UpstreamID :: int
  mv_Source :: string
  mv_Length :: int
  mv_LenGroup :: string
  mv_TextHash :: string

record 'u quoteView =
  qv_meta :: "'u metaView"
  qv_Text :: string
  qv_Superseded :: bool

record 'u withdrawalView =
  wv_Withdrawn :: bool
  wv_At :: "int option"
  wv_By :: "'u option"
  wv_Reason :: string

record 'u Withdrawal =
  wd_At :: int
  wd_By :: "'u option"
  wd_Reason :: string

definition toMetaView :: "'u quote_row \<Rightarrow> 'u metaView" where
  "toMetaView q =
     \<lparr>mv_ID = qt_ID q, mv_Lang = qt_Lang q, mv_UpstreamID = qt_UpstreamID q, mv_Source = qt_Source q,
      mv_Length = qt_Length q, mv_LenGroup = LenGroup_String (qt_LenGroup q), mv_TextHash = qt_TextHash q\<rparr>"

definition toQuoteView :: "'u quote_row \<Rightarrow> 'u quoteView" where
  "toQuoteView q = \<lparr>qv_meta = toMetaView q, qv_Text = qt_Text q, qv_Superseded = qt_Superseded q\<rparr>"

definition toWithdrawal :: "int option \<Rightarrow> 'u option \<Rightarrow> string option \<Rightarrow> 'u Withdrawal" where
  "toWithdrawal when who reason =
     (case when of
        None \<Rightarrow> \<lparr>wd_At = 0, wd_By = None, wd_Reason = []\<rparr>
      | Some t \<Rightarrow> \<lparr>wd_At = t, wd_By = who, wd_Reason = (case reason of None \<Rightarrow> [] | Some s \<Rightarrow> s)\<rparr>)"

definition in_circulation :: "'u withdrawalView" where
  "in_circulation = \<lparr>wv_Withdrawn = False, wv_At = None, wv_By = None, wv_Reason = []\<rparr>"

definition toWithdrawalView :: "'u Withdrawal \<Rightarrow> 'u withdrawalView" where
  "toWithdrawalView w =
     (if wd_At w = 0 then in_circulation
      else \<lparr>wv_Withdrawn = True, wv_At = Some (wd_At w), wv_By = wd_By w, wv_Reason = wd_Reason w\<rparr>)"

record 'u moderatedView =
  mo_ID :: 'u
  mo_Lang :: string
  mo_UpstreamID :: int
  mo_Text :: string
  mo_Source :: string
  mo_Length :: int
  mo_LenGroup :: string
  mo_Superseded :: bool
  mo_CreatedAt :: int
  mo_Withdrawal :: "'u withdrawalView"

section \<open>Handlers\<close>

datatype 'u quote_reply =
    QuoteError nat string string
  | QuotePlainNotFound
  | QuoteList "'u metaView list" string
  | QuoteFull "'u quoteView"
  | QuoteModerated "'u moderatedView"
  | QuoteWithdrawal 'u bool "'u withdrawalView"

definition quoteErrNotFound :: "'u quote_reply" where
  "quoteErrNotFound = QuoteError 404 ''not_found'' ''no such quote''"
definition quoteErrBadGroup :: "'u quote_reply" where
  "quoteErrBadGroup = QuoteError 400 ''bad_request'' ''group must be one of short, medium, long, thicc''"
definition quoteErrBadCursor :: "'u quote_reply" where
  "quoteErrBadCursor = QuoteError 400 ''bad_request'' ''invalid cursor''"
definition quoteErrInternal :: "'u quote_reply" where
  "quoteErrInternal = QuoteError 500 ''internal'' ''an unexpected error occurred''"
definition quoteErrBadWithdrawal :: "'u quote_reply" where
  "quoteErrBadWithdrawal = QuoteError 400 ''bad_request'' ''reason is required and must be at most 500 characters''"

definition quotesDefaultLimit :: int where "quotesDefaultLimit = 50"
definition quotesMaxLimit :: int where "quotesMaxLimit = 200"

definition ParseInt16 :: "string \<Rightarrow> int option" where
  "ParseInt16 s = (case Atoi s of None \<Rightarrow> None | Some n \<Rightarrow> if - 32768 \<le> n \<and> n \<le> 32767 then Some n else None)"

definition quotes_encodeCursor :: "'u uuid_lib \<Rightarrow> string \<times> int \<times> 'u \<Rightarrow> string" where
  "quotes_encodeCursor L c = (case c of (lang, g, qid) \<Rightarrow> EncodeCursor [lang, Itoa (to_int16 g), uuid_String L qid])"

definition quotes_decodeCursor :: "'u uuid_lib \<Rightarrow> string \<Rightarrow> (string \<times> int \<times> 'u) option" where
  "quotes_decodeCursor L token =
     (case DecodeCursor token 3 of
        Some [lang, raw, sid] \<Rightarrow>
          (case ParseInt16 raw of
             None \<Rightarrow> None
           | Some g \<Rightarrow>
               if \<not> LenGroup_Valid g then None
               else (case uuid_Parse L sid of None \<Rightarrow> None | Some qid \<Rightarrow> Some (lang, g, qid)))
      | _ \<Rightarrow> None)"

definition filterParam :: "string \<Rightarrow> string \<Rightarrow> quote_filter option" where
  "filterParam lang raw =
     (if raw = [] then Some \<lparr>qf_Lang = lang, qf_Group = None\<rparr>
      else case ParseLenGroup raw of None \<Rightarrow> None | Some g \<Rightarrow> Some \<lparr>qf_Lang = lang, qf_Group = Some g\<rparr>)"

definition quotes_handleList ::
  "'u uuid_lib \<Rightarrow> (string \<Rightarrow> string) \<Rightarrow> 'u::linorder quote_db \<Rightarrow> string \<Rightarrow> string \<Rightarrow> string \<Rightarrow> string \<Rightarrow> 'u quote_reply" where
  "quotes_handleList L ck db lang rawGroup rawLimit rawCursor =
     (case filterParam lang rawGroup of
        None \<Rightarrow> quoteErrBadGroup
      | Some f \<Rightarrow>
          let limit = nat (ParseLimit rawLimit quotesDefaultLimit quotesMaxLimit) in
          case (if rawCursor = [] then Some None else map_option Some (quotes_decodeCursor L rawCursor)) of
            None \<Rightarrow> quoteErrBadCursor
          | Some after \<Rightarrow>
              let (rows, next) = page_of (Store_Page ck db f) position_of limit after
              in QuoteList (map toMetaView rows) (case next of None \<Rightarrow> [] | Some c \<Rightarrow> quotes_encodeCursor L c))"

definition handleRandom :: "rat \<Rightarrow> 'u quote_db \<Rightarrow> string \<Rightarrow> string \<Rightarrow> 'u quote_reply" where
  "handleRandom r db lang rawGroup =
     (case filterParam lang rawGroup of
        None \<Rightarrow> quoteErrBadGroup
      | Some f \<Rightarrow> (case Store_Random r db f of None \<Rightarrow> quoteErrNotFound | Some q \<Rightarrow> QuoteFull (toQuoteView q)))"

definition handleByID :: "'u uuid_lib \<Rightarrow> 'u quote_db \<Rightarrow> string \<Rightarrow> 'u quote_reply" where
  "handleByID L db raw =
     (case uuid_Parse L raw of
        None \<Rightarrow> quoteErrNotFound
      | Some qid \<Rightarrow> (case Store_ByID db qid of None \<Rightarrow> quoteErrNotFound | Some q \<Rightarrow> QuoteFull (toQuoteView q)))"

section \<open>Moderation\<close>

definition maxWithdrawalReason :: nat where "maxWithdrawalReason = 500"

definition handleModerated :: "'u uuid_lib \<Rightarrow> 'u quote_db \<Rightarrow> string \<Rightarrow> 'u quote_reply" where
  "handleModerated L db raw =
     (case uuid_Parse L raw of
        None \<Rightarrow> quoteErrNotFound
      | Some qid \<Rightarrow>
          (case GetQuote db qid of
             None \<Rightarrow> quoteErrNotFound
           | Some q \<Rightarrow>
               QuoteModerated \<lparr>mo_ID = qt_ID q, mo_Lang = qt_Lang q, mo_UpstreamID = qt_UpstreamID q, mo_Text = qt_Text q,
                 mo_Source = qt_Source q, mo_Length = qt_Length q, mo_LenGroup = LenGroup_String (qt_LenGroup q),
                 mo_Superseded = qt_Superseded q, mo_CreatedAt = qt_CreatedAt q,
                 mo_Withdrawal = toWithdrawalView (toWithdrawal (qt_WithdrawnAt q) (qt_WithdrawnBy q) (qt_WithdrawnReason q))\<rparr>))"

definition handleWithdraw ::
  "'u uuid_lib \<Rightarrow> int \<Rightarrow> 'u option \<Rightarrow> string \<Rightarrow> string option \<Rightarrow> 'u quote_db \<Rightarrow> 'u quote_reply \<times> 'u quote_db" where
  "handleWithdraw L now actor raw body db =
     (case uuid_Parse L raw of
        None \<Rightarrow> (quoteErrNotFound, db)
      | Some qid \<Rightarrow>
          (case body of
             None \<Rightarrow> (quoteErrBadWithdrawal, db)
           | Some text \<Rightarrow>
               let reason = TrimSpace text
               in if reason = [] \<or> RuneCountInString reason > maxWithdrawalReason then (quoteErrBadWithdrawal, db)
                  else case actor of
                    None \<Rightarrow> (QuotePlainNotFound, db)
                  | Some a \<Rightarrow>
                      (case WithdrawQuote now a reason qid db of
                         None \<Rightarrow> (quoteErrInternal, db)
                       | Some (None, db') \<Rightarrow> (quoteErrNotFound, db')
                       | Some (Some (q, newly), db') \<Rightarrow>
                           (QuoteWithdrawal qid newly (toWithdrawalView
                              (toWithdrawal (qt_WithdrawnAt q) (qt_WithdrawnBy q) (qt_WithdrawnReason q))), db'))))"

definition handleRestore :: "'u uuid_lib \<Rightarrow> string \<Rightarrow> 'u quote_db \<Rightarrow> 'u quote_reply \<times> 'u quote_db" where
  "handleRestore L raw db =
     (case uuid_Parse L raw of
        None \<Rightarrow> (quoteErrNotFound, db)
      | Some qid \<Rightarrow> (case RestoreQuote qid db of (n, db') \<Rightarrow> (QuoteWithdrawal qid (n > 0) in_circulation, db')))"

end
