(* ===== verification/Quote_Import.thy ===== *)
theory Quote_Import
  imports Quotes
begin

text \<open>
  Imports of the quote registry: publishing a corpus is a declarative update of the table, every operation keeps
  the invariant of the table and the bytes of the rows it had.
\<close>

section \<open>Rows\<close>

definition rev_key :: "'u quote_row \<Rightarrow> string \<times> int \<times> string" where
  "rev_key q = (qt_Lang q, qt_UpstreamID q, qt_TextHash q)"

definition quote_key :: "'u quote_row \<Rightarrow> string \<times> int" where
  "quote_key q = (qt_Lang q, qt_UpstreamID q)"

text \<open>Everything of a row but the retirement flag and the withdrawal.\<close>

definition frozen_part :: "'u quote_row \<Rightarrow> 'u quote_row" where
  "frozen_part q = q\<lparr>qt_Superseded := False, qt_WithdrawnAt := None, qt_WithdrawnBy := None, qt_WithdrawnReason := None\<rparr>"

definition keys_ok :: "'u quote_row list \<Rightarrow> bool" where
  "keys_ok qs \<longleftrightarrow> distinct (map qt_ID qs) \<and> distinct (map rev_key qs)"

lemma keys_ok_id: "\<lbrakk>keys_ok qs; p \<in> set qs; q \<in> set qs; qt_ID p = qt_ID q\<rbrakk> \<Longrightarrow> p = q"
  by (simp add: keys_ok_def distinct_map inj_on_def)

lemma keys_ok_rev: "\<lbrakk>keys_ok qs; p \<in> set qs; q \<in> set qs; rev_key p = rev_key q\<rbrakk> \<Longrightarrow> p = q"
  by (simp add: keys_ok_def distinct_map inj_on_def)

lemma same_revision_iff: "same_revision p q \<longleftrightarrow> rev_key p = rev_key q"
  by (simp add: same_revision_def rev_key_def)

lemma set_superseded_id: "qt_Superseded q = b \<Longrightarrow> q\<lparr>qt_Superseded := b\<rparr> = q"
  by (cases q) simp

lemma quote_key_update [simp]:
  "quote_key (q\<lparr>qt_Superseded := b\<rparr>) = quote_key q" "rev_key (q\<lparr>qt_Superseded := b\<rparr>) = rev_key q"
  by (simp_all add: quote_key_def rev_key_def)

lemma new_revision_simps [simp]:
  "qt_ID (new_revision qid now lang i) = qid" "qt_Lang (new_revision qid now lang i) = lang"
  "qt_UpstreamID (new_revision qid now lang i) = in_UpstreamID i" "qt_TextHash (new_revision qid now lang i) = in_TextHash i"
  "qt_Superseded (new_revision qid now lang i) = False" "qt_WithdrawnAt (new_revision qid now lang i) = None"
  "qt_Text (new_revision qid now lang i) = in_Text i"
  by (simp_all add: new_revision_def)

section \<open>Publishing one quote\<close>

text \<open>The revision with the hash \<open>h\<close> becomes the current one of its key, the others are retired.\<close>

definition settle :: "string \<Rightarrow> int \<Rightarrow> string \<Rightarrow> 'u quote_row \<Rightarrow> 'u quote_row" where
  "settle lang u h q = (if quote_key q = (lang, u) then q\<lparr>qt_Superseded := (qt_TextHash q \<noteq> h)\<rparr> else q)"

definition known_revision :: "'u quote_row list \<Rightarrow> string \<Rightarrow> Incoming \<Rightarrow> bool" where
  "known_revision qs lang i \<longleftrightarrow> (lang, in_UpstreamID i, in_TextHash i) \<in> rev_key ` set qs"

lemma settle_simps [simp]:
  "qt_ID (settle lang u h q) = qt_ID q" "rev_key (settle lang u h q) = rev_key q" "quote_key (settle lang u h q) = quote_key q"
  "qt_TextHash (settle lang u h q) = qt_TextHash q" "frozen_part (settle lang u h q) = frozen_part q"
  "quote_check (settle lang u h q) = quote_check q" "qt_WithdrawnAt (settle lang u h q) = qt_WithdrawnAt q"
  by (simp_all add: settle_def rev_key_def quote_key_def frozen_part_def quote_check_def)

lemma FindQuoteRevision_None: "FindQuoteRevision db lang (in_UpstreamID i) (in_TextHash i) = None \<longleftrightarrow> \<not> known_revision (qd_quotes db) lang i"
  by (auto simp: FindQuoteRevision_def find_first_None_iff known_revision_def rev_key_def image_iff)

lemma FindQuoteRevision_Some:
  assumes "FindQuoteRevision db lang u h = Some q"
  shows "q \<in> set (qd_quotes db)" "rev_key q = (lang, u, h)" "quote_key q = (lang, u)"
  using find_first_Some [OF assms [unfolded FindQuoteRevision_def]] by (simp_all add: rev_key_def quote_key_def)

lemma republish_settles:
  assumes "keys_ok qs" and "p \<in> set qs" and "rev_key p = (lang, u, h)" and "q \<in> set qs"
  shows "(let r = (if qt_ID q = qt_ID p \<and> qt_Superseded q then q\<lparr>qt_Superseded := False\<rparr> else q)
     in if qt_Lang r = lang \<and> qt_UpstreamID r = u \<and> qt_ID r \<noteq> qt_ID p \<and> \<not> qt_Superseded r then r\<lparr>qt_Superseded := True\<rparr> else r)
     = settle lang u h q"
proof (cases "q = p")
  case True
  then show ?thesis using assms(3) by (simp add: settle_def rev_key_def quote_key_def set_superseded_id)
next
  case False
  then have i: "qt_ID q \<noteq> qt_ID p" and h: "rev_key q \<noteq> (lang, u, h)"
    using keys_ok_id [OF assms(1,4,2)] keys_ok_rev [OF assms(1,4,2)] assms(3) by auto
  then show ?thesis by (auto simp: settle_def rev_key_def quote_key_def Let_def set_superseded_id)
qed

lemma insert_settles:
  assumes "(lang, u, h) \<notin> rev_key ` set qs" and "qid \<notin> qt_ID ` set qs" and "q \<in> set qs"
  shows "(if qt_Lang q = lang \<and> qt_UpstreamID q = u \<and> qt_ID q \<noteq> qid \<and> \<not> qt_Superseded q then q\<lparr>qt_Superseded := True\<rparr> else q)
     = settle lang u h q"
proof -
  have "qt_ID q \<noteq> qid" "rev_key q \<noteq> (lang, u, h)" using assms by (auto simp: image_iff)
  then show ?thesis by (auto simp: settle_def rev_key_def quote_key_def set_superseded_id)
qed

lemma publish_rows:
  assumes "keys_ok (qd_quotes db)" and "publish qid now lang i db = Some (out, db')"
  shows "db' = db\<lparr>qd_quotes := map (settle lang (in_UpstreamID i) (in_TextHash i))
      (qd_quotes db @ (if known_revision (qd_quotes db) lang i then [] else [new_revision qid now lang i]))\<rparr>"
    and "\<not> known_revision (qd_quotes db) lang i \<Longrightarrow>
      quote_check (new_revision qid now lang i) \<and> qid \<notin> qt_ID ` set (qd_quotes db)"
proof -
  let ?u = "in_UpstreamID i" and ?h = "in_TextHash i" and ?qs = "qd_quotes db"
  have "db' = db\<lparr>qd_quotes := map (settle lang ?u ?h) (?qs @ (if known_revision ?qs lang i then [] else [new_revision qid now lang i]))\<rparr> \<and>
    (\<not> known_revision ?qs lang i \<longrightarrow> quote_check (new_revision qid now lang i) \<and> qid \<notin> qt_ID ` set ?qs)"
  proof (cases "FindQuoteRevision db lang ?u ?h")
    case None
    then have k: "\<not> known_revision ?qs lang i" by (simp add: FindQuoteRevision_None)
    from assms(2) None obtain db1 where ins: "InsertQuoteRevision qid now lang i db = Some db1"
      and db': "db' = snd (SupersedeOtherRevisions lang ?u qid db1)"
      by (auto simp: publish_def split: option.splits prod.splits)
    then have chk: "quote_check (new_revision qid now lang i)" "qid \<notin> qt_ID ` set ?qs"
      and db1: "db1 = db\<lparr>qd_quotes := ?qs @ [new_revision qid now lang i]\<rparr>"
      by (auto simp: InsertQuoteRevision_def Let_def list_ex_iff split: if_splits)
    have "map (\<lambda>q. if qt_Lang q = lang \<and> qt_UpstreamID q = ?u \<and> qt_ID q \<noteq> qid \<and> \<not> qt_Superseded q then q\<lparr>qt_Superseded := True\<rparr> else q) ?qs
        = map (settle lang ?u ?h) ?qs"
      using insert_settles [OF k [unfolded known_revision_def] chk(2)] by (intro map_cong) auto
    moreover have "settle lang ?u ?h (new_revision qid now lang i) = new_revision qid now lang i"
      by (simp add: settle_def quote_key_def set_superseded_id)
    ultimately show ?thesis
      using k chk by (simp add: db' db1 SupersedeOtherRevisions_def update_quotes_def)
  next
    case (Some p)
    then have k: "known_revision ?qs lang i" using FindQuoteRevision_None [of db lang i] by auto
    note p = FindQuoteRevision_Some [OF Some]
    from assms(2) Some have db': "db' = snd (SupersedeOtherRevisions lang ?u (qt_ID p) (snd (RepublishQuoteRevision (qt_ID p) db)))"
      by (auto simp: publish_def split: prod.splits)
    show ?thesis
      using republish_settles [OF assms(1) p(1,2)] k
      by (simp add: db' SupersedeOtherRevisions_def RepublishQuoteRevision_def update_quotes_def Let_def cong: map_cong)
  qed
  then show "db' = db\<lparr>qd_quotes := map (settle lang ?u ?h)
      (?qs @ (if known_revision ?qs lang i then [] else [new_revision qid now lang i]))\<rparr>"
    and "\<not> known_revision ?qs lang i \<Longrightarrow> quote_check (new_revision qid now lang i) \<and> qid \<notin> qt_ID ` set ?qs"
    by blast+
qed

text \<open>
  The invariant of the table: ids and revisions are unique, the CHECKs hold, and of the revisions of a key exactly
  one is current.
\<close>

definition current_of :: "'u quote_row list \<Rightarrow> string \<times> int \<Rightarrow> 'u quote_row \<Rightarrow> bool" where
  "current_of qs k q \<longleftrightarrow> q \<in> set qs \<and> quote_key q = k \<and> \<not> qt_Superseded q"

definition quotes_ok :: "'u quote_row list \<Rightarrow> bool" where
  "quotes_ok qs \<longleftrightarrow> keys_ok qs \<and> (\<forall>q \<in> set qs. quote_check q) \<and> (\<forall>k \<in> quote_key ` set qs. \<exists>!q. current_of qs k q)"

lemma quotes_ok_keys: "quotes_ok qs \<Longrightarrow> keys_ok qs"
  by (simp add: quotes_ok_def)

lemma quotes_ok_check: "\<lbrakk>quotes_ok qs; q \<in> set qs\<rbrakk> \<Longrightarrow> quote_check q"
  by (simp add: quotes_ok_def)

lemma quotes_ok_current: "\<lbrakk>quotes_ok qs; q \<in> set qs\<rbrakk> \<Longrightarrow> \<exists>!p. current_of qs (quote_key q) p"
  by (simp add: quotes_ok_def)

text \<open>The three outcomes, as the documentation of \<open>Import\<close> tabulates them.\<close>

definition publish_verdict :: "'u quote_row list \<Rightarrow> string \<Rightarrow> Incoming \<Rightarrow> publish_outcome" where
  "publish_verdict qs lang i =
     (if (lang, in_UpstreamID i) \<notin> quote_key ` set qs then outcomeInserted
      else if list_ex (\<lambda>q. rev_key q = (lang, in_UpstreamID i, in_TextHash i) \<and> \<not> qt_Superseded q) qs then outcomeUnchanged
      else outcomeSuperseded)"

lemma filter_pos: "0 < length (filter P xs) \<longleftrightarrow> (\<exists>x \<in> set xs. P x)"
  by (induction xs) auto

lemma publish_outcome_known:
  assumes "quotes_ok qs" and "p \<in> set qs" and "rev_key p = (lang, u, h)"
  shows "(0 < length (filter (\<lambda>q. qt_ID q = qt_ID p \<and> qt_Superseded q) qs) \<or>
      0 < length (filter (\<lambda>q. qt_Lang q = lang \<and> qt_UpstreamID q = u \<and> qt_ID q \<noteq> qt_ID p \<and> \<not> qt_Superseded q)
        (map (\<lambda>q. if qt_ID q = qt_ID p \<and> qt_Superseded q then q\<lparr>qt_Superseded := False\<rparr> else q) qs))) \<longleftrightarrow> qt_Superseded p"
proof -
  note keys = quotes_ok_keys [OF assms(1)]
  have key: "quote_key p = (lang, u)" using assms(3) by (simp add: rev_key_def quote_key_def)
  obtain c where "current_of qs (lang, u) c" and uniq: "\<And>q. current_of qs (lang, u) q \<Longrightarrow> q = c"
    using quotes_ok_current [OF assms(1,2)] by (auto simp: key)
  have "q = p" if "q \<in> set qs" "qt_ID q = qt_ID p" for q using keys_ok_id [OF keys that(1) assms(2) that(2)] .
  moreover have "qt_ID q = qt_ID p" if "q \<in> set qs" "qt_Lang q = lang" "qt_UpstreamID q = u" "\<not> qt_Superseded q" "\<not> qt_Superseded p" for q
    using uniq [of q] uniq [of p] that assms(2) key by (simp add: current_of_def quote_key_def)
  ultimately show ?thesis unfolding filter_pos using assms(2) by (fastforce split: if_splits)
qed

lemma publish_outcome:
  assumes "quotes_ok (qd_quotes db)" and "publish qid now lang i db = Some (out, db')"
  shows "out = publish_verdict (qd_quotes db) lang i"
proof (cases "FindQuoteRevision db lang (in_UpstreamID i) (in_TextHash i)")
  case None
  let ?u = "in_UpstreamID i" and ?qs = "qd_quotes db"
  from assms(2) None obtain db1 where ins: "InsertQuoteRevision qid now lang i db = Some db1"
    and out: "out = (if 0 < fst (SupersedeOtherRevisions lang ?u qid db1) then outcomeSuperseded else outcomeInserted)"
    by (auto simp: publish_def split: option.splits prod.splits)
  then have qid: "qid \<notin> qt_ID ` set ?qs" and db1: "db1 = db\<lparr>qd_quotes := ?qs @ [new_revision qid now lang i]\<rparr>"
    by (auto simp: InsertQuoteRevision_def Let_def list_ex_iff split: if_splits)
  have "0 < fst (SupersedeOtherRevisions lang ?u qid db1) \<longleftrightarrow> (\<exists>q \<in> set ?qs. quote_key q = (lang, ?u) \<and> \<not> qt_Superseded q)"
    using qid by (auto simp: SupersedeOtherRevisions_def update_quotes_def db1 filter_pos quote_key_def simp del: length_greater_0_conv)
  also have "\<dots> \<longleftrightarrow> (lang, ?u) \<in> quote_key ` set ?qs"
    using quotes_ok_current [OF assms(1)] by (auto simp: current_of_def image_iff) metis+
  finally have retired: "0 < fst (SupersedeOtherRevisions lang ?u qid db1) \<longleftrightarrow> (lang, ?u) \<in> quote_key ` set ?qs" .
  have "\<not> list_ex (\<lambda>q. rev_key q = (lang, ?u, in_TextHash i) \<and> \<not> qt_Superseded q) ?qs"
    using None by (force simp: list_ex_iff FindQuoteRevision_None known_revision_def image_iff)
  then show ?thesis unfolding out retired publish_verdict_def by simp
next
  case (Some p)
  let ?u = "in_UpstreamID i" and ?qs = "qd_quotes db"
  note p = FindQuoteRevision_Some [OF Some]
  from assms(2) Some have "out = (if qt_Superseded p then outcomeSuperseded else outcomeUnchanged)"
    using publish_outcome_known [OF assms(1) p(1,2)]
    by (auto simp: publish_def RepublishQuoteRevision_def SupersedeOtherRevisions_def update_quotes_def simp del: length_greater_0_conv split: if_splits)
  moreover have "(lang, ?u) \<in> quote_key ` set ?qs" using p by force
  moreover have "list_ex (\<lambda>q. rev_key q = (lang, ?u, in_TextHash i) \<and> \<not> qt_Superseded q) ?qs \<longleftrightarrow> \<not> qt_Superseded p"
    unfolding list_ex_iff using keys_ok_rev [OF quotes_ok_keys [OF assms(1)] _ p(1)] p(1,2) by metis
  ultimately show ?thesis unfolding publish_verdict_def by simp
qed

lemma publish_ok:
  assumes "quotes_ok (qd_quotes db)" and "publish qid now lang i db = Some (out, db')"
  shows "quotes_ok (qd_quotes db')"
proof -
  let ?u = "in_UpstreamID i" and ?h = "in_TextHash i"
  let ?new = "if known_revision (qd_quotes db) lang i then [] else [new_revision qid now lang i]"
  let ?all = "qd_quotes db @ ?new"
  note keys = quotes_ok_keys [OF assms(1)]
  note rows = publish_rows [OF keys assms(2)]
  have k: "keys_ok ?all"
    using keys rows(2) by (auto simp: keys_ok_def known_revision_def rev_key_def)
  have c: "\<forall>q \<in> set ?all. quote_check q" using assms(1) rows(2) by (auto simp: quotes_ok_def)
  have "\<exists>!q. current_of (map (settle lang ?u ?h) ?all) k q" if "k \<in> quote_key ` set ?all" for k
  proof (cases "k = (lang, ?u)")
    case True
    obtain p where p: "p \<in> set ?all" "rev_key p = (lang, ?u, ?h)"
    proof (cases "known_revision (qd_quotes db) lang i")
      case True
      then show ?thesis using that by (auto simp: known_revision_def)
    next
      case False
      then show ?thesis using that [of "new_revision qid now lang i"] by (simp add: rev_key_def)
    qed
    then have key: "quote_key p = (lang, ?u)" by (simp add: rev_key_def quote_key_def)
    show ?thesis
    proof (rule ex1I)
      show "current_of (map (settle lang ?u ?h) ?all) k (settle lang ?u ?h p)"
        using p key True by (auto simp: current_of_def) (auto simp: settle_def rev_key_def)
    next
      fix q
      assume q: "current_of (map (settle lang ?u ?h) ?all) k q"
      then obtain r where r: "r \<in> set ?all" "q = settle lang ?u ?h r" by (auto simp: current_of_def)
      with q True have "quote_key r = (lang, ?u)" "\<not> qt_Superseded (settle lang ?u ?h r)" by (simp_all add: current_of_def)
      then have "rev_key r = (lang, ?u, ?h)" by (simp add: settle_def rev_key_def quote_key_def)
      then have "r = p" using keys_ok_rev [OF k r(1) p(1)] p(2) by simp
      then show "q = settle lang ?u ?h p" using r by simp
    qed
  next
    case False
    have same: "current_of (map (settle lang ?u ?h) ?all) k q \<longleftrightarrow> current_of (qd_quotes db) k q" for q
    proof -
      have "q \<in> settle lang ?u ?h ` set ?all \<and> quote_key q = k \<longleftrightarrow> q \<in> set ?all \<and> quote_key q = k"
        using False by (auto simp: settle_def image_iff split: if_splits)
      moreover have "q \<in> set ?all \<and> quote_key q = k \<longleftrightarrow> q \<in> set (qd_quotes db) \<and> quote_key q = k"
        using False by (auto simp: quote_key_def)
      ultimately show ?thesis by (auto simp: current_of_def)
    qed
    have "k \<in> quote_key ` set (qd_quotes db)" using that False by (auto simp: quote_key_def split: if_splits)
    then show ?thesis unfolding same using assms(1) unfolding quotes_ok_def by blast
  qed
  moreover have "keys_ok (map (settle lang ?u ?h) ?all)"
    using k by (simp add: keys_ok_def comp_def del: map_append)
  ultimately show ?thesis
    using c by (auto simp: rows(1) quotes_ok_def image_image simp del: map_append set_append)
qed

lemma publish_total:
  assumes "known_revision (qd_quotes db) lang i \<or> quote_check (new_revision qid now lang i) \<and> qid \<notin> qt_ID ` set (qd_quotes db)"
  shows "\<exists>out db'. publish qid now lang i db = Some (out, db')"
proof (cases "FindQuoteRevision db lang (in_UpstreamID i) (in_TextHash i)")
  case None
  then have unknown: "\<not> known_revision (qd_quotes db) lang i" by (simp add: FindQuoteRevision_None)
  have "\<not> same_revision p (new_revision qid now lang i)" if "p \<in> set (qd_quotes db)" for p
    using that unknown by (auto simp: known_revision_def same_revision_iff rev_key_def image_iff)
  then have "InsertQuoteRevision qid now lang i db \<noteq> None"
    using assms unknown by (auto simp: InsertQuoteRevision_def Let_def list_ex_iff)
  then show ?thesis using None by (auto simp: publish_def split: prod.split)
qed (simp add: publish_def split: prod.split)

section \<open>Publishing a language\<close>

definition settle_all :: "string \<Rightarrow> Incoming list \<Rightarrow> 'u quote_row \<Rightarrow> 'u quote_row" where
  "settle_all lang is q = fold (\<lambda>i. settle lang (in_UpstreamID i) (in_TextHash i)) is q"

fun new_rows :: "(nat \<Rightarrow> 'u) \<Rightarrow> int \<Rightarrow> string \<Rightarrow> nat \<Rightarrow> Incoming list \<Rightarrow> 'u quote_row list \<Rightarrow> 'u quote_row list" where
  "new_rows ids now lang k [] qs = []"
| "new_rows ids now lang k (i # is) qs =
     (if known_revision qs lang i then [] else [new_revision (ids k) now lang i]) @ new_rows ids now lang (Suc k) is qs"

definition tally :: "'u quote_row list \<Rightarrow> string \<Rightarrow> Incoming list \<Rightarrow> publish_outcome \<Rightarrow> nat" where
  "tally qs lang is out = length (filter (\<lambda>i. publish_verdict qs lang i = out) is)"

lemma settle_all_Cons: "settle_all lang (i # is) q = settle_all lang is (settle lang (in_UpstreamID i) (in_TextHash i) q)"
  by (simp add: settle_all_def)

lemma settle_all_simps [simp]:
  "qt_ID (settle_all lang is q) = qt_ID q" "rev_key (settle_all lang is q) = rev_key q"
  "quote_key (settle_all lang is q) = quote_key q" "frozen_part (settle_all lang is q) = frozen_part q"
  "qt_WithdrawnAt (settle_all lang is q) = qt_WithdrawnAt q"
  by (induction "is" arbitrary: q) (simp_all add: settle_all_Cons, simp_all add: settle_all_def)

lemma settle_all_other:
  assumes "quote_key q \<notin> (\<lambda>i. (lang, in_UpstreamID i)) ` set is"
  shows "settle_all lang is q = q"
  using assms by (induction "is" arbitrary: q) (auto simp: settle_all_def settle_def)

lemma new_rows_member:
  assumes "q \<in> set (new_rows ids now lang k is qs)"
  shows "\<exists>j i. k \<le> j \<and> j < k + length is \<and> i = is ! (j - k) \<and> q = new_revision (ids j) now lang i \<and> \<not> known_revision qs lang i"
  using assms
proof (induction "is" arbitrary: k)
  case (Cons i "is")
  show ?case
  proof (cases "q \<in> set (new_rows ids now lang (Suc k) is qs)")
    case True
    then obtain j where j: "Suc k \<le> j" "j < Suc k + length is" "q = new_revision (ids j) now lang (is ! (j - Suc k))"
        "\<not> known_revision qs lang (is ! (j - Suc k))"
      using Cons.IH [OF True] by blast
    then have "(i # is) ! (j - k) = is ! (j - Suc k)" by (simp add: nth_Cons' Suc_diff_le)
    with j show ?thesis by (intro exI [of _ j] exI [of _ "is ! (j - Suc k)"]) auto
  next
    case False
    with Cons.prems have "q = new_revision (ids k) now lang i" "\<not> known_revision qs lang i" by (auto split: if_splits)
    then show ?thesis by (intro exI [of _ k] exI [of _ i]) simp
  qed
qed simp

lemma new_rows_cong:
  assumes "\<And>i. i \<in> set is \<Longrightarrow> known_revision qs' lang i = known_revision qs lang i"
  shows "new_rows ids now lang k is qs' = new_rows ids now lang k is qs"
  using assms by (induction "is" arbitrary: k) auto

text \<open>What publishing one quote leaves alone: the other quotes of the language are known or not as before.\<close>

lemma publish_other:
  assumes "keys_ok (qd_quotes db)" and "publish qid now lang i db = Some (out, db')" and "in_UpstreamID j \<noteq> in_UpstreamID i"
  shows "known_revision (qd_quotes db') lang j = known_revision (qd_quotes db) lang j"
    and "publish_verdict (qd_quotes db') lang j = publish_verdict (qd_quotes db) lang j"
proof -
  let ?new = "if known_revision (qd_quotes db) lang i then [] else [new_revision qid now lang i]"
  let ?s = "settle lang (in_UpstreamID i) (in_TextHash i)"
  have qs: "qd_quotes db' = map ?s (qd_quotes db @ ?new)" by (simp add: publish_rows(1) [OF assms(1,2)])
  have rk: "rev_key ` set (qd_quotes db') = rev_key ` set (qd_quotes db @ ?new)" by (simp add: qs image_image image_Un)
  then show known: "known_revision (qd_quotes db') lang j = known_revision (qd_quotes db) lang j"
    using assms(3) by (auto simp: known_revision_def rev_key_def)
  have kk: "quote_key ` set (qd_quotes db') = quote_key ` set (qd_quotes db @ ?new)" by (simp add: qs image_image image_Un)
  let ?R = "\<lambda>q :: 'a quote_row. rev_key q = (lang, in_UpstreamID j, in_TextHash j) \<and> \<not> qt_Superseded q"
  have R: "?R (?s q) = ?R q" for q using assms(3) by (auto simp: settle_def rev_key_def quote_key_def)
  have "list_ex ?R (qd_quotes db') = list_ex ?R (qd_quotes db @ ?new)"
    unfolding qs by (simp only: list_ex_iff set_map bex_simps R)
  also have "\<dots> = list_ex ?R (qd_quotes db)" using assms(3) by (simp add: rev_key_def)
  finally have "list_ex ?R (qd_quotes db') = list_ex ?R (qd_quotes db)" .
  moreover have "(lang, in_UpstreamID j) \<in> quote_key ` set (qd_quotes db') \<longleftrightarrow> (lang, in_UpstreamID j) \<in> quote_key ` set (qd_quotes db)"
    using assms(3) unfolding kk by (auto simp: quote_key_def)
  ultimately show "publish_verdict (qd_quotes db') lang j = publish_verdict (qd_quotes db) lang j"
    by (simp add: publish_verdict_def)
qed

definition add_tally :: "'u quote_row list \<Rightarrow> string \<Rightarrow> Incoming list \<Rightarrow> ImportStats \<Rightarrow> ImportStats" where
  "add_tally qs lang is s =
     \<lparr>is_Inserted = is_Inserted s + tally qs lang is outcomeInserted, is_Superseded = is_Superseded s + tally qs lang is outcomeSuperseded,
      is_Unchanged = is_Unchanged s + tally qs lang is outcomeUnchanged\<rparr>"

lemma add_tally_Cons:
  "add_tally qs lang (i # is) s = add_tally qs lang is (count_outcome (publish_verdict qs lang i) s)"
  by (cases "publish_verdict qs lang i") (simp_all add: add_tally_def tally_def count_outcome_def)

lemma add_tally_cong:
  assumes "\<And>i. i \<in> set is \<Longrightarrow> publish_verdict qs' lang i = publish_verdict qs lang i"
  shows "add_tally qs' lang is s = add_tally qs lang is s"
proof -
  have "tally qs' lang is out = tally qs lang is out" for out
    unfolding tally_def using assms by (intro arg_cong [where f = length] filter_cong) auto
  then show ?thesis by (simp add: add_tally_def)
qed

lemma publish_all_spec:
  assumes "quotes_ok (qd_quotes db)" and "distinct (map in_UpstreamID is)" and "publish_all ids now lang k is stats db = Some (stats', db')"
  shows "db' = db\<lparr>qd_quotes := map (settle_all lang is) (qd_quotes db @ new_rows ids now lang k is (qd_quotes db))\<rparr> \<and>
    stats' = add_tally (qd_quotes db) lang is stats \<and> quotes_ok (qd_quotes db')"
  using assms
proof (induction "is" arbitrary: k stats db)
  case Nil
  then show ?case by (simp add: settle_all_def add_tally_def tally_def)
next
  case (Cons i "is")
  obtain out db1 where db1: "publish (ids k) now lang i db = Some (out, db1)"
      "publish_all ids now lang (Suc k) is (count_outcome out stats) db1 = Some (stats', db')"
    using Cons.prems(3) by (auto split: option.splits)
  note keys = quotes_ok_keys [OF Cons.prems(1)]
  have ne: "in_UpstreamID j \<noteq> in_UpstreamID i" if "j \<in> set is" for j using Cons.prems(2) that by (auto simp: image_iff)
  note other = publish_other [OF keys db1(1) ne]
  have d: "distinct (map in_UpstreamID is)" using Cons.prems(2) by simp
  have ih: "db' = db1\<lparr>qd_quotes := map (settle_all lang is) (qd_quotes db1 @ new_rows ids now lang (Suc k) is (qd_quotes db1))\<rparr>"
      "stats' = add_tally (qd_quotes db1) lang is (count_outcome out stats)" "quotes_ok (qd_quotes db')"
    using Cons.IH [OF publish_ok [OF Cons.prems(1) db1(1)] d db1(2)] by blast+
  have new: "new_rows ids now lang (Suc k) is (qd_quotes db1) = new_rows ids now lang (Suc k) is (qd_quotes db)"
    by (rule new_rows_cong) (rule other(1))
  have "settle lang (in_UpstreamID i) (in_TextHash i) q = q" if "q \<in> set (new_rows ids now lang (Suc k) is (qd_quotes db))" for q
    using new_rows_member [OF that] ne by (force simp: settle_def quote_key_def)
  then have "map (settle_all lang is) (new_rows ids now lang (Suc k) is (qd_quotes db)) =
      map (settle_all lang (i # is)) (new_rows ids now lang (Suc k) is (qd_quotes db))"
    by (intro map_cong) (simp_all add: settle_all_Cons)
  then have "db' = db\<lparr>qd_quotes := map (settle_all lang (i # is)) (qd_quotes db @ new_rows ids now lang k (i # is) (qd_quotes db))\<rparr>"
    unfolding ih(1) new by (simp add: publish_rows(1) [OF keys db1(1)] settle_all_Cons)
  moreover have "add_tally (qd_quotes db1) lang is (count_outcome out stats) = add_tally (qd_quotes db) lang is (count_outcome out stats)"
    by (rule add_tally_cong) (rule other(2))
  then have "stats' = add_tally (qd_quotes db) lang (i # is) stats"
    unfolding ih(2) add_tally_Cons publish_outcome [OF Cons.prems(1) db1(1), symmetric] .
  ultimately show ?case using ih(3) by blast
qed

lemma settle_all_member:
  assumes "distinct (map in_UpstreamID is)" and "i \<in> set is" and "quote_key q = (lang, in_UpstreamID i)"
  shows "settle_all lang is q = q\<lparr>qt_Superseded := (qt_TextHash q \<noteq> in_TextHash i)\<rparr>"
  using assms
proof (induction "is" arbitrary: q)
  case (Cons j "is")
  show ?case
  proof (cases "j = i")
    case True
    then have "quote_key (settle lang (in_UpstreamID i) (in_TextHash i) q) \<notin> (\<lambda>i. (lang, in_UpstreamID i)) ` set is"
      using Cons.prems by (auto simp: image_iff)
    then show ?thesis using True Cons.prems by (simp add: settle_all_Cons settle_all_other) (simp add: settle_def)
  next
    case False
    then have "i \<in> set is" "in_UpstreamID j \<noteq> in_UpstreamID i" using Cons.prems by (auto simp: image_iff)
    then show ?thesis using Cons by (simp add: settle_all_Cons settle_def)
  qed
qed simp

lemma new_rows_known:
  assumes "i \<in> set is"
  shows "(lang, in_UpstreamID i, in_TextHash i) \<in> rev_key ` set (qs @ new_rows ids now lang k is qs)"
  using assms
proof (induction "is" arbitrary: k)
  case (Cons j "is")
  then show ?case
    by (cases "i = j") (auto simp: known_revision_def rev_key_def image_iff)
qed simp

text \<open>Every quote of the corpus is the current revision of its key.\<close>

definition up_to_date :: "'u quote_row list \<Rightarrow> string \<Rightarrow> Incoming list \<Rightarrow> bool" where
  "up_to_date qs lang is \<longleftrightarrow> (\<forall>i \<in> set is. \<exists>q. current_of qs (lang, in_UpstreamID i) q \<and> qt_TextHash q = in_TextHash i)"

lemma Import_spec:
  assumes "quotes_ok (qd_quotes db)" and "distinct (map in_UpstreamID is)" and "Import ids now lang is db = Some (stats, db')"
  shows "db' = db\<lparr>qd_quotes := map (settle_all lang is) (qd_quotes db @ new_rows ids now lang 0 is (qd_quotes db))\<rparr>"
    and "stats = add_tally (qd_quotes db) lang is no_stats" and "quotes_ok (qd_quotes db')"
  using publish_all_spec [OF assms(1,2) assms(3) [unfolded Import_def]] by blast+

lemma Import_up_to_date:
  assumes "quotes_ok (qd_quotes db)" and "distinct (map in_UpstreamID is)" and "Import ids now lang is db = Some (stats, db')"
  shows "up_to_date (qd_quotes db') lang is"
  unfolding up_to_date_def
proof
  fix i
  assume i: "i \<in> set is"
  let ?all = "qd_quotes db @ new_rows ids now lang 0 is (qd_quotes db)"
  obtain q where q: "q \<in> set ?all" "rev_key q = (lang, in_UpstreamID i, in_TextHash i)"
    using new_rows_known [OF i] by (metis (no_types, lifting) imageE)
  then have key: "quote_key q = (lang, in_UpstreamID i)" "qt_TextHash q = in_TextHash i" by (simp_all add: rev_key_def quote_key_def)
  then have "settle_all lang is q = q\<lparr>qt_Superseded := False\<rparr>" using settle_all_member [OF assms(2) i, of q] by simp
  then have cur: "\<not> qt_Superseded (settle_all lang is q)" by simp
  have "settle_all lang is q \<in> set (qd_quotes db')" using imageI [OF q(1), of "settle_all lang is"] by (simp add: Import_spec(1) [OF assms] image_Un)
  then have "current_of (qd_quotes db') (lang, in_UpstreamID i) (settle_all lang is q)"
    using cur key(1) by (simp add: current_of_def)
  moreover have "qt_TextHash (settle_all lang is q) = in_TextHash i" using settle_all_member [OF assms(2) i key(1)] key(2) by simp
  ultimately show "\<exists>q. current_of (qd_quotes db') (lang, in_UpstreamID i) q \<and> qt_TextHash q = in_TextHash i" by blast
qed

text \<open>Languages do not disturb each other.\<close>

lemma Import_other_language:
  assumes "quotes_ok (qd_quotes db)" and "distinct (map in_UpstreamID is)" and "Import ids now lang is db = Some (stats, db')" and "fst k \<noteq> lang"
  shows "current_of (qd_quotes db') k q \<longleftrightarrow> current_of (qd_quotes db) k q"
proof -
  have "settle_all lang is r = r" if "fst (quote_key r) \<noteq> lang" for r :: "'a quote_row"
    using that by (intro settle_all_other) auto
  then have img: "q \<in> settle_all lang is ` S \<and> quote_key q = k \<longleftrightarrow> q \<in> S \<and> quote_key q = k" for S
    using assms(4) by (force simp: image_iff)
  have new: "r \<notin> set (new_rows ids now lang 0 is (qd_quotes db))" if "quote_key r = k" for r
    using new_rows_member [of r ids now lang 0 "is" "qd_quotes db"] that assms(4) by (auto simp: quote_key_def)
  have "set (qd_quotes db') = settle_all lang is ` (set (qd_quotes db) \<union> set (new_rows ids now lang 0 is (qd_quotes db)))"
    by (simp add: Import_spec(1) [OF assms(1-3)] image_Un)
  then have "q \<in> set (qd_quotes db') \<and> quote_key q = k \<longleftrightarrow> q \<in> set (qd_quotes db) \<and> quote_key q = k"
    using img [of "set (qd_quotes db) \<union> set (new_rows ids now lang 0 is (qd_quotes db))"] new [of q] by blast
  then show ?thesis unfolding current_of_def by blast
qed

lemma publish_unchanged:
  assumes "quotes_ok (qd_quotes db)" and "current_of (qd_quotes db) (lang, in_UpstreamID i) p" and "qt_TextHash p = in_TextHash i"
  shows "publish qid now lang i db = Some (outcomeUnchanged, db)"
proof -
  have p: "p \<in> set (qd_quotes db)" "rev_key p = (lang, in_UpstreamID i, in_TextHash i)" "\<not> qt_Superseded p"
    using assms(2,3) by (simp_all add: current_of_def rev_key_def quote_key_def)
  then have k: "known_revision (qd_quotes db) lang i" by (force simp: known_revision_def)
  obtain out db' where pub: "publish qid now lang i db = Some (out, db')" using publish_total [of db lang i qid now] k by auto
  have "settle lang (in_UpstreamID i) (in_TextHash i) q = q" if q: "q \<in> set (qd_quotes db)" for q
  proof (cases "quote_key q = (lang, in_UpstreamID i)")
    case True
    have "q = p" if "\<not> qt_Superseded q"
      using quotes_ok_current [OF assms(1) q] True q that assms(2) by (auto simp: current_of_def)
    moreover have "q = p" if "qt_TextHash q = in_TextHash i"
      using keys_ok_rev [OF quotes_ok_keys [OF assms(1)] q p(1)] True that p(2) by (simp add: rev_key_def quote_key_def)
    ultimately have "qt_Superseded q = (qt_TextHash q \<noteq> in_TextHash i)" using p(3) assms(3) by auto
    then show ?thesis by (simp add: settle_def set_superseded_id)
  qed (simp add: settle_def)
  then have "db' = db" using publish_rows(1) [OF quotes_ok_keys [OF assms(1)] pub] k by (simp add: map_idI)
  moreover have "list_ex (\<lambda>q. rev_key q = (lang, in_UpstreamID i, in_TextHash i) \<and> \<not> qt_Superseded q) (qd_quotes db)"
    unfolding list_ex_iff using p by blast
  moreover have "(lang, in_UpstreamID i) \<in> quote_key ` set (qd_quotes db)" using p by (force simp: rev_key_def quote_key_def)
  ultimately show ?thesis using pub publish_outcome [OF assms(1) pub] by (simp add: publish_verdict_def)
qed

lemma publish_all_unchanged:
  assumes "quotes_ok (qd_quotes db)" and "up_to_date (qd_quotes db) lang is"
  shows "publish_all ids now lang k is stats db = Some (stats\<lparr>is_Unchanged := is_Unchanged stats + length is\<rparr>, db)"
  using assms(2)
proof (induction "is" arbitrary: k stats)
  case (Cons i "is")
  then obtain p where "current_of (qd_quotes db) (lang, in_UpstreamID i) p" "qt_TextHash p = in_TextHash i"
    by (auto simp: up_to_date_def)
  moreover have "up_to_date (qd_quotes db) lang is" using Cons.prems by (simp add: up_to_date_def)
  ultimately show ?case
    using Cons.IH by (simp add: publish_unchanged [OF assms(1)] count_outcome_def)
qed simp

section \<open>The corpus\<close>

lemma groupOf_from_range:
  assumes "groupOf_from i gs len = Some g"
  shows "i \<le> g \<and> g < i + int (length gs)"
  using assms by (induction i gs len rule: groupOf_from.induct) (fastforce split: if_splits)+

lemma map_sum_Inr: "map_sum id f r = Inr y \<longleftrightarrow> (\<exists>x. r = Inr x \<and> y = f x)"
  by (cases r) auto

definition incoming_of :: "(string list \<Rightarrow> string option) \<Rightarrow> Incoming \<Rightarrow> bool" where
  "incoming_of dv i \<longleftrightarrow>
     in_Length i = to_int32 (int (RuneCountInString (in_Text i))) \<and> 0 \<le> in_LenGroup i \<and> in_LenGroup i < 4 \<and> dv [in_Text i] = Some (in_TextHash i)"

lemma load_quotes_spec:
  assumes "load_quotes dv groups seen qs = Inr is" and "length groups = 4"
  shows "map in_UpstreamID is = map cq_ID qs \<and> map in_Text is = map cq_Text qs \<and> distinct (map in_UpstreamID is) \<and>
    in_UpstreamID ` set is \<inter> set seen = {} \<and> (\<forall>i \<in> set is. incoming_of dv i)"
  using assms
proof (induction dv groups seen qs arbitrary: "is" rule: load_quotes.induct)
  case (2 dv groups seen q qs)
  then obtain g h "is'" where g: "groupOf groups (cq_Length q) = Some g" "HashText dv (cq_Text q) = Some h"
      "cq_ID q \<notin> set seen" "int (RuneCountInString (cq_Text q)) = cq_Length q" "load_quotes dv groups (cq_ID q # seen) qs = Inr is'"
      "is = \<lparr>in_UpstreamID = cq_ID q, in_Text = cq_Text q, in_Source = cq_Source q,
             in_Length = to_int32 (cq_Length q), in_LenGroup = g, in_TextHash = h\<rparr> # is'"
    by (auto simp: map_sum_Inr split: if_splits option.splits)
  moreover have "0 \<le> g \<and> g < 4" using groupOf_from_range [OF g(1) [unfolded groupOf_def]] 2(3) by simp
  moreover have ih: "map in_UpstreamID is' = map cq_ID qs \<and> map in_Text is' = map cq_Text qs \<and> distinct (map in_UpstreamID is') \<and>
      in_UpstreamID ` set is' \<inter> set (cq_ID q # seen) = {} \<and> (\<forall>i \<in> set is'. incoming_of dv i)"
    using g(4) by (intro 2(1) [OF g(3) _ g(1,2,5) 2(3)]) simp
  moreover have "in_UpstreamID ` set is' = cq_ID ` set qs" "distinct (map cq_ID qs)" using ih by (metis set_map, metis)
  ultimately show ?case by (simp add: incoming_of_def HashText_def)
qed simp

lemma Load_spec:
  assumes "corpus_Load read_file dv lang = Inr is"
  shows "distinct (map in_UpstreamID is)" and "\<And>i. i \<in> set is \<Longrightarrow> incoming_of dv i"
proof -
  obtain doc :: corpusFile where "load_quotes dv (cf_Groups doc) [] (cf_Quotes doc) = Inr is" "sameGroups (cf_Groups doc) (lg_Groups lang)"
    using assms by (auto simp: corpus_Load_def split: option.splits if_splits)
  moreover from this(2) have "length (cf_Groups doc) = 4" by (simp add: sameGroups_def LenGroupCount_def)
  ultimately have "distinct (map in_UpstreamID is) \<and> (\<forall>i \<in> set is. incoming_of dv i)" using load_quotes_spec by blast
  then show "distinct (map in_UpstreamID is)" and "\<And>i. i \<in> set is \<Longrightarrow> incoming_of dv i" by blast+
qed

section \<open>Histories\<close>

text \<open>
  What can happen to the registry: an import with any files and hasher, a withdrawal, a restoration, and accounts
  coming and going: \<open>withdrawn_by\<close> is \<open>ON DELETE SET NULL\<close>.
\<close>

definition forget_actor :: "'u auth_db \<Rightarrow> 'u quote_row \<Rightarrow> 'u quote_row" where
  "forget_actor accounts q =
     (case qt_WithdrawnBy q of
        None \<Rightarrow> q
      | Some a \<Rightarrow> if user_exists accounts a then q else q\<lparr>qt_WithdrawnBy := None\<rparr>)"

lemma forget_actor_simps [simp]:
  "qt_ID (forget_actor accounts q) = qt_ID q" "rev_key (forget_actor accounts q) = rev_key q"
  "qt_Superseded (forget_actor accounts q) = qt_Superseded q" "frozen_part (forget_actor accounts q) = frozen_part q"
  "quote_check (forget_actor accounts q) = quote_check q"
  by (simp_all add: forget_actor_def rev_key_def frozen_part_def quote_check_def split: option.split)

inductive quote_step :: "'u uuid_lib \<Rightarrow> 'u quote_db \<Rightarrow> 'u quote_db \<Rightarrow> bool" for L where
  import_step: "quote_step L db (snd (importQuotes read_file dv ids clock manifest only db))"
| withdraw_step: "quote_step L db (snd (handleWithdraw L now actor raw body db))"
| restore_step: "quote_step L db (snd (handleRestore L raw db))"
| accounts_step: "quote_step L db (db\<lparr>qd_accounts := accounts, qd_quotes := map (forget_actor accounts) (qd_quotes db)\<rparr>)"

definition quote_reachable :: "'u uuid_lib \<Rightarrow> 'u quote_db \<Rightarrow> bool" where
  "quote_reachable L db \<longleftrightarrow> (\<exists>accounts. (quote_step L)\<^sup>*\<^sup>* \<lparr>qd_accounts = accounts, qd_quotes = []\<rparr> db)"

definition bytes_kept :: "'u quote_db \<Rightarrow> 'u quote_db \<Rightarrow> bool" where
  "bytes_kept db db' \<longleftrightarrow> prefix (map frozen_part (qd_quotes db)) (map frozen_part (qd_quotes db'))"

lemma bytes_kept_refl [simp]: "bytes_kept db db"
  by (simp add: bytes_kept_def)

lemma bytes_kept_trans: "\<lbrakk>bytes_kept a b; bytes_kept b c\<rbrakk> \<Longrightarrow> bytes_kept a c"
  unfolding bytes_kept_def by (rule prefix_order.trans)

lemma bytes_kept_map:
  assumes "\<And>q. frozen_part (g q) = frozen_part q"
  shows "bytes_kept db (db\<lparr>qd_quotes := map g (qd_quotes db)\<rparr>)"
  by (simp add: bytes_kept_def comp_def assms)

text \<open>A change of the withdrawal columns alone.\<close>

lemma quotes_ok_map:
  assumes "quotes_ok qs" and "\<And>q. qt_ID (g q) = qt_ID q \<and> rev_key (g q) = rev_key q \<and> qt_Superseded (g q) = qt_Superseded q"
    and "\<And>q. quote_check q \<Longrightarrow> quote_check (g q)"
  shows "quotes_ok (map g qs)"
proof -
  have key: "quote_key (g q) = quote_key q" for q using assms(2) [of q] by (simp add: rev_key_def quote_key_def)
  have "keys_ok (map g qs)" using quotes_ok_keys [OF assms(1)] assms(2) by (simp add: keys_ok_def comp_def)
  moreover have "\<forall>q \<in> set (map g qs). quote_check q" using assms(1,3) by (auto simp: quotes_ok_def)
  moreover have "\<exists>!q. current_of (map g qs) k q" if "k \<in> quote_key ` set (map g qs)" for k
  proof -
    have "k \<in> quote_key ` set qs" using that by (auto simp: key image_iff)
    then obtain p where p: "current_of qs k p" and uniq: "\<And>r. current_of qs k r \<Longrightarrow> r = p"
      using assms(1) unfolding quotes_ok_def by blast
    have "current_of (map g qs) k q \<longleftrightarrow> (\<exists>r. current_of qs k r \<and> q = g r)" for q
      using assms(2) key by (auto simp: current_of_def)
    then show ?thesis using p uniq by (intro ex1I [of _ "g p"]) blast+
  qed
  ultimately show ?thesis unfolding quotes_ok_def by blast
qed

lemma moderation_rows:
  "rev_key (withdraw_row now actor reason q) = rev_key q" "qt_Superseded (withdraw_row now actor reason q) = qt_Superseded q"
  "qt_ID (withdraw_row now actor reason q) = qt_ID q" "frozen_part (withdraw_row now actor reason q) = frozen_part q"
  "quote_check q \<Longrightarrow> quote_check (withdraw_row now actor reason q)"
  by (auto simp: withdraw_row_def rev_key_def frozen_part_def quote_check_def)

lemma handleWithdraw_keeps:
  assumes "quotes_ok (qd_quotes db)"
  shows "quotes_ok (qd_quotes (snd (handleWithdraw L now actor raw body db)))" and "bytes_kept db (snd (handleWithdraw L now actor raw body db))"
proof -
  have rows: "quotes_ok (map (\<lambda>p. if qt_ID p = qid then withdraw_row now a reason p else p) (qd_quotes db))" for qid a reason
    by (rule quotes_ok_map [OF assms]) (auto simp: moderation_rows)
  have frozen: "bytes_kept db (db\<lparr>qd_quotes := map (\<lambda>p. if qt_ID p = qid then withdraw_row now a reason p else p) (qd_quotes db)\<rparr>)" for qid a reason
    by (rule bytes_kept_map) (simp add: moderation_rows)
  have "quotes_ok (qd_quotes db') \<and> bytes_kept db db'" if "WithdrawQuote now a reason qid db = Some (r, db')" for a reason qid r db'
    using that assms rows frozen by (auto simp: WithdrawQuote_def update_quotes_def Let_def split: option.splits if_splits)
  then show "quotes_ok (qd_quotes (snd (handleWithdraw L now actor raw body db)))" and "bytes_kept db (snd (handleWithdraw L now actor raw body db))"
    using assms by (auto simp: handleWithdraw_def Let_def split: option.splits prod.splits)
qed

lemma handleRestore_keeps:
  assumes "quotes_ok (qd_quotes db)"
  shows "quotes_ok (qd_quotes (snd (handleRestore L raw db)))" and "bytes_kept db (snd (handleRestore L raw db))"
proof -
  let ?g = "\<lambda>qid q. if qt_ID q = qid \<and> qt_WithdrawnAt q \<noteq> None
      then q\<lparr>qt_WithdrawnAt := None, qt_WithdrawnBy := None, qt_WithdrawnReason := None\<rparr> else q"
  have "quotes_ok (map (?g qid) (qd_quotes db))" for qid
    by (rule quotes_ok_map [OF assms]) (auto simp: rev_key_def quote_check_def)
  moreover have "bytes_kept db (db\<lparr>qd_quotes := map (?g qid) (qd_quotes db)\<rparr>)" for qid
    by (rule bytes_kept_map) (simp add: frozen_part_def)
  ultimately show "quotes_ok (qd_quotes (snd (handleRestore L raw db)))" and "bytes_kept db (snd (handleRestore L raw db))"
    using assms by (simp_all add: handleRestore_def RestoreQuote_def update_quotes_def split: option.split)
qed

lemma Import_keeps:
  assumes "quotes_ok (qd_quotes db)" and "distinct (map in_UpstreamID is)" and "Import ids now lang is db = Some (stats, db')"
  shows "bytes_kept db db'"
  by (simp add: Import_spec(1) [OF assms] bytes_kept_def comp_def)

lemma import_rows_keeps:
  assumes "quotes_ok (qd_quotes db)"
  shows "quotes_ok (qd_quotes (snd (import_rows read_file dv ids clock only k langs sum_so_far matched db))) \<and>
    bytes_kept db (snd (import_rows read_file dv ids clock only k langs sum_so_far matched db))"
  using assms
proof (induction langs arbitrary: k sum_so_far matched db)
  case (Cons lang langs)
  show ?case
  proof (cases "corpus_Load read_file dv lang")
    case (Inr "is")
    note d = Load_spec(1) [OF Inr]
    show ?thesis
    proof (cases "Import (ids k) (clock k) (lg_Lang lang) is db")
      case (Some r)
      obtain stats db' where r: "r = (stats, db')" by (cases r)
      note imp = Some [unfolded r]
      show ?thesis
        using Cons.IH [OF Import_spec(3) [OF Cons.prems d imp]] Cons.IH [OF Cons.prems] Import_keeps [OF Cons.prems d imp]
        by (auto simp: Inr imp intro: bytes_kept_trans)
    qed (use Cons Inr in auto)
  qed (use Cons in auto)
qed simp

lemma quote_step_keeps:
  assumes "quote_step L db db'" and "quotes_ok (qd_quotes db)"
  shows "quotes_ok (qd_quotes db') \<and> bytes_kept db db'"
  using assms
proof cases
  case import_step
  then show ?thesis using import_rows_keeps [OF assms(2)] by (simp add: importQuotes_def)
next
  case (accounts_step accounts)
  moreover have "quotes_ok (map (forget_actor accounts) (qd_quotes db))" by (rule quotes_ok_map [OF assms(2)]) simp_all
  ultimately show ?thesis by (simp add: bytes_kept_def comp_def)
qed (use handleWithdraw_keeps handleRestore_keeps assms(2) in auto)

lemma quote_steps_keep:
  assumes "(quote_step L)\<^sup>*\<^sup>* db db'" and "quotes_ok (qd_quotes db)"
  shows "quotes_ok (qd_quotes db') \<and> bytes_kept db db'"
  using assms by (induction rule: rtranclp_induct) (auto dest: quote_step_keeps intro: bytes_kept_trans)

lemma quotes_ok_Nil: "quotes_ok []"
  by (simp add: quotes_ok_def keys_ok_def)

lemma quote_reachable_ok: "quote_reachable L db \<Longrightarrow> quotes_ok (qd_quotes db)"
  using quote_steps_keep [of L "\<lparr>qd_accounts = _, qd_quotes = []\<rparr>" db] quotes_ok_Nil by (auto simp: quote_reachable_def)

section \<open>Success of an import\<close>

lemma publish_all_total:
  fixes ids :: "nat \<Rightarrow> 'u"
  assumes "quotes_ok (qd_quotes db)" and "\<And>i (qid :: 'u). i \<in> set is \<Longrightarrow> quote_check (new_revision qid now lang i)"
    and "inj_on ids {k..<k + length is}" and "\<And>j. \<lbrakk>k \<le> j; j < k + length is\<rbrakk> \<Longrightarrow> ids j \<notin> qt_ID ` set (qd_quotes db)"
  shows "\<exists>stats' db'. publish_all ids now lang k is stats db = Some (stats', db')"
  using assms
proof (induction "is" arbitrary: k stats db)
  case (Cons i "is")
  have "ids k \<notin> qt_ID ` set (qd_quotes db)" using Cons.prems(4) [of k] by simp
  then obtain out db1 where db1: "publish (ids k) now lang i db = Some (out, db1)"
    using publish_total [of db lang i "ids k" now] Cons.prems(2) [of i "ids k"] by auto
  have ids1: "qt_ID ` set (qd_quotes db1) \<subseteq> insert (ids k) (qt_ID ` set (qd_quotes db))"
    by (auto simp: publish_rows(1) [OF quotes_ok_keys [OF Cons.prems(1)] db1])
  have "\<exists>stats' db'. publish_all ids now lang (Suc k) is (count_outcome out stats) db1 = Some (stats', db')"
  proof (rule Cons.IH [OF publish_ok [OF Cons.prems(1) db1]])
    show "quote_check (new_revision qid now lang j)" if "j \<in> set is" for j and qid :: 'u using Cons.prems(2) that by simp
    show "inj_on ids {Suc k..<Suc k + length is}" by (rule inj_on_subset [OF Cons.prems(3)]) auto
    show "ids j \<notin> qt_ID ` set (qd_quotes db1)" if "Suc k \<le> j" "j < Suc k + length is" for j
    proof -
      have "ids j \<noteq> ids k" using inj_onD [OF Cons.prems(3), of j k] that by auto
      moreover have "ids j \<notin> qt_ID ` set (qd_quotes db)" using Cons.prems(4) [of j] that by simp
      ultimately show ?thesis using ids1 by blast
    qed
  qed
  then show ?case by (simp add: db1)
qed simp

lemma incoming_check:
  assumes "incoming_of dv i" and "0 < in_Length i" and "length (in_Text i) < 2 ^ 31"
  shows "quote_check (new_revision qid now lang i)"
proof -
  have "int (RuneCountInString (in_Text i)) < 2 ^ 31" using rune_count_le_length [of "in_Text i"] assms(3) by simp
  then have "to_int32 (int (RuneCountInString (in_Text i))) = int (RuneCountInString (in_Text i))"
    by (intro to_int32_id) (simp add: in_int32_def)
  moreover have "to_int16 (in_LenGroup i) = in_LenGroup i" using assms(1) by (simp add: incoming_of_def to_int16_def)
  ultimately show ?thesis using assms(1,2) by (simp add: quote_check_def new_revision_def incoming_of_def)
qed

section \<open>Running \<open>quotectl import\<close> again\<close>

lemma import_rows_publishes:
  assumes "import_rows read_file dv ids clock only k langs sum_so_far matched db = (Inr stats, db')"
    and "quotes_ok (qd_quotes db)" and "distinct (map lg_Lang langs)"
  shows "(\<forall>row \<in> set langs. only = [] \<or> lg_Lang row = only \<longrightarrow>
        (\<exists>is. corpus_Load read_file dv row = Inr is \<and> up_to_date (qd_quotes db') (lg_Lang row) is)) \<and>
    (\<forall>l is. l \<notin> lg_Lang ` set langs \<longrightarrow> up_to_date (qd_quotes db) l is \<longrightarrow> up_to_date (qd_quotes db') l is)"
  using assms
proof (induction langs arbitrary: k sum_so_far matched db)
  case (Cons row langs)
  show ?case
  proof (cases "only \<noteq> [] \<and> lg_Lang row \<noteq> only")
    case True
    then have "import_rows read_file dv ids clock only (Suc k) langs sum_so_far matched db = (Inr stats, db')"
      using Cons.prems(1) by simp
    then show ?thesis using Cons.IH [OF _ Cons.prems(2)] Cons.prems(3) True by auto
  next
    case False
    then obtain "is" st db1 where load: "corpus_Load read_file dv row = Inr is"
      and imp: "Import (ids k) (clock k) (lg_Lang row) is db = Some (st, db1)"
      and rest: "import_rows read_file dv ids clock only (Suc k) langs (ImportStats_Add sum_so_far st) (matched + 1) db1 = (Inr stats, db')"
      using Cons.prems(1) by (auto split: sum.splits option.splits)
    note d = Load_spec(1) [OF load]
    note ih = Cons.IH [OF rest Import_spec(3) [OF Cons.prems(2) d imp]]
    have "up_to_date (qd_quotes db') (lg_Lang row) is"
      using ih Cons.prems(3) Import_up_to_date [OF Cons.prems(2) d imp] by simp
    moreover have "up_to_date (qd_quotes db1) l js" if "l \<noteq> lg_Lang row" "up_to_date (qd_quotes db) l js" for l js
      using that Import_other_language [OF Cons.prems(2) d imp] by (simp add: up_to_date_def)
    ultimately show ?thesis using ih Cons.prems(3) load by auto
  qed
qed simp

lemma Import_total_stats:
  assumes "quotes_ok (qd_quotes db)" and "distinct (map in_UpstreamID is)" and "Import ids now lang is db = Some (stats, db')"
  shows "ImportStats_Total stats = length is"
proof -
  have "tally qs lang is outcomeInserted + tally qs lang is outcomeSuperseded + tally qs lang is outcomeUnchanged = length is" for qs :: "'a quote_row list"
  proof (induction "is")
    case (Cons i "is")
    then show ?case by (cases "publish_verdict qs lang i") (simp_all add: tally_def)
  qed (simp add: tally_def)
  then show ?thesis by (simp add: Import_spec(2) [OF assms] add_tally_def no_stats_def ImportStats_Total_def)
qed

lemma Import_unchanged:
  assumes "quotes_ok (qd_quotes db)" and "up_to_date (qd_quotes db) lang is"
  shows "Import ids now lang is db = Some (no_stats\<lparr>is_Unchanged := length is\<rparr>, db)"
  by (simp add: Import_def publish_all_unchanged [OF assms] no_stats_def)

text \<open>The pass over a registry that is up to date, against the pass that brought it there.\<close>

lemma import_rows_again:
  assumes "import_rows read_file dv ids clock only k langs s m db = (Inr stats, db')" and "quotes_ok (qd_quotes db)"
    and "quotes_ok (qd_quotes db0)" and "\<forall>row \<in> set langs. only = [] \<or> lg_Lang row = only \<longrightarrow>
        (\<exists>is. corpus_Load read_file dv row = Inr is \<and> up_to_date (qd_quotes db0) (lg_Lang row) is)"
    and "is_Inserted s' = 0" and "is_Superseded s' = 0" and "is_Unchanged s' = ImportStats_Total s"
  shows "import_rows read_file dv ids' clock' only k langs s' m db0 =
    (Inr \<lparr>is_Inserted = 0, is_Superseded = 0, is_Unchanged = ImportStats_Total stats\<rparr>, db0)"
  using assms(1,2,4-7)
proof (induction langs arbitrary: k s s' m db)
  case Nil
  then have "m \<noteq> 0" "stats = s" by (auto split: if_splits)
  then show ?case using Nil.prems(4-6) by (cases s') simp
next
  case (Cons row langs)
  show ?case
  proof (cases "only \<noteq> [] \<and> lg_Lang row \<noteq> only")
    case True
    then have "import_rows read_file dv ids clock only (Suc k) langs s m db = (Inr stats, db')" using Cons.prems(1) by simp
    then show ?thesis using Cons.IH [OF _ Cons.prems(2) _ Cons.prems(4-6)] Cons.prems(3) True by simp
  next
    case False
    then obtain "is" st db1 where load: "corpus_Load read_file dv row = Inr is"
      and imp: "Import (ids k) (clock k) (lg_Lang row) is db = Some (st, db1)"
      and rest: "import_rows read_file dv ids clock only (Suc k) langs (ImportStats_Add s st) (m + 1) db1 = (Inr stats, db')"
      using Cons.prems(1) by (auto split: sum.splits option.splits)
    note d = Load_spec(1) [OF load]
    have up: "up_to_date (qd_quotes db0) (lg_Lang row) is" using Cons.prems(3) False load by auto
    let ?s = "ImportStats_Add s' (no_stats\<lparr>is_Unchanged := length is\<rparr>)"
    have "import_rows read_file dv ids' clock' only (Suc k) langs ?s (m + 1) db0 =
        (Inr \<lparr>is_Inserted = 0, is_Superseded = 0, is_Unchanged = ImportStats_Total stats\<rparr>, db0)"
      using Cons.prems(3-6) Import_total_stats [OF Cons.prems(2) d imp]
      by (intro Cons.IH [OF rest Import_spec(3) [OF Cons.prems(2) d imp]])
        (auto simp: ImportStats_Add_def no_stats_def ImportStats_Total_def)
    then show ?thesis using False by (auto simp: load Import_unchanged [OF assms(3) up])
  qed
qed

end
