(* ===== verification/Quote_Properties.thy ===== *)
theory Quote_Properties
  imports Quote_Import
begin

text \<open>
  What the quote registry guarantees after any history of imports, withdrawals and restorations: published bytes
  are frozen, a key has one current revision, an import publishes its corpus and is a no-op when repeated, and what
  is offered is what browsing and drawing deliver.
\<close>

section \<open>The table\<close>

text \<open>
  C29. In every registry reached by imports (failed ones included), withdrawals and restorations: ids are unique; a
  text is stored at most once per language and upstream id; of the revisions of an upstream id exactly one is
  current; a row's length is the number of characters of its text and positive, its length group one of the four,
  and it has a withdrawal reason exactly when it is withdrawn.
\<close>

theorem quotes_invariant:
  assumes "quote_reachable L db"
  shows "distinct (map qt_ID (qd_quotes db)) \<and> distinct (map rev_key (qd_quotes db)) \<and>
    (\<forall>q \<in> set (qd_quotes db). (\<exists>!p. p \<in> set (qd_quotes db) \<and> quote_key p = quote_key q \<and> \<not> qt_Superseded p) \<and>
       qt_Length q = int (RuneCountInString (qt_Text q)) \<and> qt_Length q > 0 \<and> LenGroup_Valid (qt_LenGroup q) \<and>
       (qt_WithdrawnAt q = None) = (qt_WithdrawnReason q = None))"
proof -
  note ok = quote_reachable_ok [OF assms]
  show ?thesis
    using quotes_ok_current [OF ok] ok
    by (auto simp: quotes_ok_def keys_ok_def quote_check_def current_of_def LenGroup_Valid_def LenGroupCount_def)
qed

section \<open>Frozen bytes\<close>

lemma prefix_nth_eq: "\<lbrakk>prefix xs ys; i < length xs\<rbrakk> \<Longrightarrow> ys ! i = xs ! i"
  by (auto simp: prefix_def nth_append)

lemma GetQuote_Some_iff:
  assumes "keys_ok (qd_quotes db)"
  shows "GetQuote db qid = Some q \<longleftrightarrow> q \<in> set (qd_quotes db) \<and> qt_ID q = qid"
proof
  assume "q \<in> set (qd_quotes db) \<and> qt_ID q = qid"
  moreover from this obtain p where "GetQuote db qid = Some p" unfolding GetQuote_def by (metis (mono_tags) find_first_ex)
  ultimately show "GetQuote db qid = Some q"
    using keys_ok_id [OF assms] by (auto simp: GetQuote_def dest: find_first_Some)
qed (auto simp: GetQuote_def dest: find_first_Some)

lemma bytes_kept_row:
  assumes "bytes_kept db db'" and "q \<in> set (qd_quotes db)"
  shows "\<exists>p \<in> set (qd_quotes db'). frozen_part p = frozen_part q"
proof -
  have "frozen_part q \<in> set (map frozen_part (qd_quotes db'))"
    using set_mono_prefix [OF assms(1) [unfolded bytes_kept_def]] assms(2) by auto
  then show ?thesis by (auto intro: sym)
qed

lemma frozen_part_fields:
  "frozen_part p = frozen_part q \<Longrightarrow>
     qt_ID p = qt_ID q \<and> qt_Text p = qt_Text q \<and> qt_TextHash p = qt_TextHash q \<and> rev_key p = rev_key q \<and> quote_key p = quote_key q"
  by (cases p; cases q) (simp add: frozen_part_def rev_key_def quote_key_def)

lemma ResolveQuote_kept:
  assumes "quotes_ok (qd_quotes db)" and "(quote_step L)\<^sup>*\<^sup>* db db'" and "ResolveQuote db qid \<noteq> Inr None"
  shows "ResolveQuote db' qid = ResolveQuote db qid"
proof -
  have ok: "keys_ok (qd_quotes db)" "keys_ok (qd_quotes db')" and kept: "bytes_kept db db'"
    using quotes_ok_keys [OF assms(1)] quote_steps_keep [OF assms(2,1)] quotes_ok_keys by auto
  obtain q where q: "GetQuote db qid = Some q" using assms(3) by (auto simp: ResolveQuote_def Store_ByID_def split: option.splits)
  then obtain p where p: "p \<in> set (qd_quotes db')" "frozen_part p = frozen_part q"
    using bytes_kept_row [OF kept] GetQuote_Some_iff [OF ok(1)] by blast
  then have "GetQuote db' qid = Some p" using q GetQuote_Some_iff [OF ok(1)] GetQuote_Some_iff [OF ok(2)] frozen_part_fields by metis
  then show ?thesis using q frozen_part_fields [OF p(2)] by (simp add: ResolveQuote_def Store_ByID_def)
qed

text \<open>
  C30. Published bytes are frozen. Once an id names a quote, no later history of imports, withdrawals and
  restorations changes the text and hash it resolves to or makes it unresolvable; so a run played on the quote gets
  the same verdict from the worker whenever it is judged.
\<close>

theorem quote_text_forever:
  assumes "quote_reachable L db" and "(quote_step L)\<^sup>*\<^sup>* db db'" and "ResolveQuote db qid = Inr (Some (text, hash))"
  shows "ResolveQuote db' qid = Inr (Some (text, hash)) \<and>
    (\<forall>run ref. quoteRefOf L (pr_Setup run) = Inr (Some ref) \<and> qr_ID ref = qid \<longrightarrow>
       judge_run bundle L Replay gunzip Body (Some (ResolveQuote db')) decider run epoch =
       judge_run bundle L Replay gunzip Body (Some (ResolveQuote db)) decider run epoch)"
proof -
  have same: "ResolveQuote db' qid = ResolveQuote db qid"
    using ResolveQuote_kept [OF quote_reachable_ok [OF assms(1)] assms(2)] assms(3) by simp
  have "text_of L Body (Some (ResolveQuote db')) run = text_of L Body (Some (ResolveQuote db)) run"
    if "quoteRefOf L (pr_Setup run) = Inr (Some ref)" "qr_ID ref = qid" for run ref
    using that same by (simp add: text_of_def resolveQuote_def)
  then show ?thesis using same assms(3) by (auto simp: judge_run_def)
qed

section \<open>Imports\<close>

lemma other_keys_kept:
  assumes "\<And>q. P q \<Longrightarrow> quote_key q \<notin> (\<lambda>i. (lang, in_UpstreamID i)) ` set is" and "\<And>q. P (settle_all lang is q) = P q"
  shows "filter P (map (settle_all lang is) (qs @ new_rows ids now lang k is qs)) = filter P qs"
proof -
  have "filter P (map (settle_all lang is) xs) = filter P xs" for xs :: "'a quote_row list"
    using assms by (induction xs) (auto simp: settle_all_other)
  moreover have "filter P (new_rows ids now lang k is qs) = []"
    using assms(1) by (fastforce simp: filter_empty_conv quote_key_def dest: new_rows_member)
  ultimately show ?thesis by simp
qed

lemma new_rows_length: "length (new_rows ids now lang k is qs) = length (filter (\<lambda>i. \<not> known_revision qs lang i) is)"
  by (induction "is" arbitrary: k) auto

lemma groupOf_from_Some:
  "groupOf_from i gs len = Some g \<Longrightarrow> i \<le> g \<and> g < i + int (length gs) \<and> fst (gs ! nat (g - i)) \<le> len \<and> len \<le> snd (gs ! nat (g - i))"
proof (induction i gs len rule: groupOf_from.induct)
  case (2 i lo hi gs len)
  show ?case
  proof (cases "len \<ge> lo \<and> len \<le> hi")
    case False
    then have "groupOf_from (i + 1) gs len = Some g" using 2(2) by auto
    then have "i + 1 \<le> g" "g < i + 1 + int (length gs)" "fst (gs ! nat (g - (i + 1))) \<le> len" "len \<le> snd (gs ! nat (g - (i + 1)))"
      using 2(1) [OF False] by auto
    moreover from this(1) have "nat (g - i) = Suc (nat (g - (i + 1)))" by simp
    ultimately show ?thesis by simp
  qed (use 2 in auto)
qed simp

lemma groupOf_Some:
  "groupOf gs len = Some g \<Longrightarrow> 0 \<le> g \<and> g < int (length gs) \<and> fst (gs ! nat g) \<le> len \<and> len \<le> snd (gs ! nat g)"
  using groupOf_from_Some [of 0 gs len g] by (simp add: groupOf_def)

lemma load_quotes_nth:
  "load_quotes dv groups seen qs = Inr is \<Longrightarrow> k < length qs \<Longrightarrow>
    k < length is \<and> groupOf groups (cq_Length (qs ! k)) = Some (in_LenGroup (is ! k)) \<and> dv [cq_Text (qs ! k)] = Some (in_TextHash (is ! k)) \<and>
    in_UpstreamID (is ! k) = cq_ID (qs ! k) \<and> in_Text (is ! k) = cq_Text (qs ! k) \<and> in_Source (is ! k) = cq_Source (qs ! k) \<and>
    in_Length (is ! k) = to_int32 (cq_Length (qs ! k)) \<and> cq_Length (qs ! k) = int (RuneCountInString (cq_Text (qs ! k)))"
proof (induction qs arbitrary: seen "is" k)
  case (Cons q qs)
  obtain g h rest where q: "groupOf groups (cq_Length q) = Some g" "HashText dv (cq_Text q) = Some h"
      "int (RuneCountInString (cq_Text q)) = cq_Length q" "load_quotes dv groups (cq_ID q # seen) qs = Inr rest"
      "is = \<lparr>in_UpstreamID = cq_ID q, in_Text = cq_Text q, in_Source = cq_Source q,
             in_Length = to_int32 (cq_Length q), in_LenGroup = g, in_TextHash = h\<rparr> # rest"
    using Cons.prems(1) by (auto simp: map_sum_Inr split: if_splits option.splits)
  show ?case
  proof (cases k)
    case 0
    then show ?thesis using q(1,2) q(3) [symmetric] by (simp add: q(5) HashText_def)
  next
    case (Suc j)
    then have "j < length qs" using Cons.prems(2) by simp
    note ih = Cons.IH [OF q(4) this]
    have at: "is ! k = rest ! j" "(q # qs) ! k = qs ! j" "k < length is \<longleftrightarrow> j < length rest" by (simp_all add: q(5) Suc)
    show ?thesis unfolding at by (rule ih)
  qed
qed simp

lemma new_rows_nth:
  "k < length is \<Longrightarrow> \<not> known_revision qs lang (is ! k) \<Longrightarrow> new_revision (ids (j + k)) now lang (is ! k) \<in> set (new_rows ids now lang j is qs)"
proof (induction "is" arbitrary: j k)
  case (Cons i "is")
  then show ?case using Cons.IH [of "k - 1" "Suc j"] by (cases k) auto
qed simp

lemma settled_rows_same:
  "map (\<lambda>q. q\<lparr>qt_Superseded := False\<rparr>) (map (settle_all lang is) qs) = map (\<lambda>q. q\<lparr>qt_Superseded := False\<rparr>) qs"
proof -
  have "(settle_all lang is q)\<lparr>qt_Superseded := False\<rparr> = q\<lparr>qt_Superseded := False\<rparr>" for q :: "'a quote_row"
    by (induction "is" arbitrary: q) (simp_all add: settle_all_Cons settle_all_def [of _ "[]"] settle_def)
  then show ?thesis by simp
qed

text \<open>The row of a new text has every column of the corpus, the length group of its bounds, and nothing else.\<close>

lemma imported_row:
  assumes "quotes_ok (qd_quotes db)" and "read_file (lg_File row) = Some doc" and "corpus_Load read_file dv row = Inr is"
    and "\<forall>i \<in> set is. 0 < in_Length i \<and> length (in_Text i) < 2 ^ 31"
    and "Import ids now (lg_Lang row) is db = Some (stats, db')" and "k < length (cf_Quotes doc)" and "c = cf_Quotes doc ! k"
  shows "\<exists>h g. dv [cq_Text c] = Some h \<and> 0 \<le> g \<and> g < 4 \<and>
     fst (cf_Groups doc ! nat g) \<le> int (RuneCountInString (cq_Text c)) \<and> int (RuneCountInString (cq_Text c)) \<le> snd (cf_Groups doc ! nat g) \<and>
     ((lg_Lang row, cq_ID c, h) \<notin> rev_key ` set (qd_quotes db) \<longrightarrow>
        \<lparr>qt_ID = ids k, qt_Lang = lg_Lang row, qt_UpstreamID = cq_ID c, qt_Text = cq_Text c, qt_Source = cq_Source c,
         qt_Length = int (RuneCountInString (cq_Text c)), qt_LenGroup = g, qt_TextHash = h, qt_Superseded = False, qt_CreatedAt = now,
         qt_WithdrawnAt = None, qt_WithdrawnBy = None, qt_WithdrawnReason = None\<rparr> \<in> set (qd_quotes db'))"
proof -
  let ?i = "is ! k" and ?lang = "lg_Lang row"
  have "load_quotes dv (cf_Groups doc) [] (cf_Quotes doc) = Inr is" and four: "length (cf_Groups doc) = 4"
    using assms(2,3) by (auto simp: corpus_Load_def sameGroups_def LenGroupCount_def split: if_splits)
  note nth = load_quotes_nth [OF this(1) assms(6)]
  then have i: "?i \<in> set is" by simp
  note load = Load_spec [OF assms(3)]
  have grp: "groupOf (cf_Groups doc) (cq_Length c) = Some (in_LenGroup ?i)" unfolding assms(7) using nth by blast
  have g: "0 \<le> in_LenGroup ?i \<and> in_LenGroup ?i < 4 \<and> fst (cf_Groups doc ! nat (in_LenGroup ?i)) \<le> cq_Length c \<and>
      cq_Length c \<le> snd (cf_Groups doc ! nat (in_LenGroup ?i))"
    using groupOf_Some [OF grp] four by simp
  have "int (RuneCountInString (cq_Text c)) < 2 ^ 31"
    using rune_count_le_length [of "cq_Text c"] assms(4) i nth assms(7) by fastforce
  then have "to_int32 (cq_Length c) = int (RuneCountInString (cq_Text c))"
    using nth assms(7) by (simp add: to_int32_id in_int32_def)
  moreover have "to_int16 (in_LenGroup ?i) = in_LenGroup ?i" using g by (simp add: to_int16_def)
  ultimately have new: "new_revision (ids k) now ?lang ?i =
      \<lparr>qt_ID = ids k, qt_Lang = ?lang, qt_UpstreamID = cq_ID c, qt_Text = cq_Text c, qt_Source = cq_Source c,
       qt_Length = int (RuneCountInString (cq_Text c)), qt_LenGroup = in_LenGroup ?i, qt_TextHash = in_TextHash ?i, qt_Superseded = False,
       qt_CreatedAt = now, qt_WithdrawnAt = None, qt_WithdrawnBy = None, qt_WithdrawnReason = None\<rparr>"
    using nth assms(7) by (simp add: new_revision_def)
  have "new_revision (ids k) now ?lang ?i \<in> set (qd_quotes db')" if "(?lang, cq_ID c, in_TextHash ?i) \<notin> rev_key ` set (qd_quotes db)"
  proof -
    have "\<not> known_revision (qd_quotes db) ?lang ?i" using that nth assms(7) by (simp add: known_revision_def)
    from new_rows_nth [OF _ this, of ids 0 now]
    have "new_revision (ids k) now ?lang ?i \<in> set (new_rows ids now ?lang 0 is (qd_quotes db))" using nth by simp
    moreover have "settle_all ?lang is (new_revision (ids k) now ?lang ?i) = new_revision (ids k) now ?lang ?i"
      using settle_all_member [OF load(1) i, of "new_revision (ids k) now ?lang ?i"] by (simp add: quote_key_def set_superseded_id)
    ultimately show ?thesis unfolding Import_spec(1) [OF assms(1) load(1) assms(5)] by force
  qed
  then show ?thesis
    using g nth assms(7) unfolding new by (intro exI [of _ "in_TextHash ?i"] exI [of _ "in_LenGroup ?i"]) simp
qed

text \<open>
  C31. What an import does. A corpus file that loads, with no empty text, fresh row ids and texts of a storable length,
  is published whole: each of its quotes becomes the one current revision of its upstream id; a text that was not stored
  becomes a row with the corpus's text, source and length, the length group whose bounds it meets and no withdrawal; a
  row that was there keeps every column but the retirement flag; rows of other upstream ids and languages keep that too;
  exactly the texts not stored yet are added; and the three counts the operator sees are the upstream ids seen for the
  first time, the quotes that were current already, and the rest.
\<close>

theorem import_publishes:
  assumes "quote_reachable L db" and "read_file (lg_File row) = Some doc" and "corpus_Load read_file dv row = Inr is"
    and "\<forall>i \<in> set is. 0 < in_Length i \<and> length (in_Text i) < 2 ^ 31"
    and "inj_on ids {..<length is}" and "\<forall>k < length is. ids k \<notin> qt_ID ` set (qd_quotes db)"
  shows "\<exists>stats db'. Import ids now (lg_Lang row) is db = Some (stats, db') \<and>
    (\<forall>k c. k < length (cf_Quotes doc) \<and> c = cf_Quotes doc ! k \<longrightarrow>
      (\<exists>h g. dv [cq_Text c] = Some h \<and> 0 \<le> g \<and> g < 4 \<and>
       fst (cf_Groups doc ! nat g) \<le> int (RuneCountInString (cq_Text c)) \<and> int (RuneCountInString (cq_Text c)) \<le> snd (cf_Groups doc ! nat g) \<and>
       ((lg_Lang row, cq_ID c, h) \<notin> rev_key ` set (qd_quotes db) \<longrightarrow>
          \<lparr>qt_ID = ids k, qt_Lang = lg_Lang row, qt_UpstreamID = cq_ID c, qt_Text = cq_Text c, qt_Source = cq_Source c,
           qt_Length = int (RuneCountInString (cq_Text c)), qt_LenGroup = g, qt_TextHash = h, qt_Superseded = False, qt_CreatedAt = now,
           qt_WithdrawnAt = None, qt_WithdrawnBy = None, qt_WithdrawnReason = None\<rparr> \<in> set (qd_quotes db')))) \<and>
    map (\<lambda>q. q\<lparr>qt_Superseded := False\<rparr>) (take (CountQuotes db) (qd_quotes db')) = map (\<lambda>q. q\<lparr>qt_Superseded := False\<rparr>) (qd_quotes db) \<and>
    qd_accounts db' = qd_accounts db \<and>
    (\<forall>i \<in> set is. \<exists>q \<in> set (qd_quotes db'). rev_key q = (lg_Lang row, in_UpstreamID i, in_TextHash i) \<and> \<not> qt_Superseded q \<and>
       (\<forall>p \<in> set (qd_quotes db'). quote_key p = quote_key q \<and> \<not> qt_Superseded p \<longrightarrow> p = q)) \<and>
    (let other = (\<lambda>q. quote_key q \<notin> (\<lambda>i. (lg_Lang row, in_UpstreamID i)) ` set is)
     in filter other (qd_quotes db') = filter other (qd_quotes db)) \<and>
    CountQuotes db' = CountQuotes db + length (filter (\<lambda>i. (lg_Lang row, in_UpstreamID i, in_TextHash i) \<notin> rev_key ` set (qd_quotes db)) is) \<and>
    is_Inserted stats = length (filter (\<lambda>i. (lg_Lang row, in_UpstreamID i) \<notin> quote_key ` set (qd_quotes db)) is) \<and>
    is_Unchanged stats = length (filter (\<lambda>i. \<exists>q \<in> set (qd_quotes db).
       rev_key q = (lg_Lang row, in_UpstreamID i, in_TextHash i) \<and> \<not> qt_Superseded q) is) \<and>
    ImportStats_Total stats = length is"
proof -
  let ?lang = "lg_Lang row" and ?qs = "qd_quotes db"
  note ok = quote_reachable_ok [OF assms(1)]
  note load = Load_spec [OF assms(3)]
  have "\<exists>stats db'. publish_all ids now ?lang 0 is no_stats db = Some (stats, db')"
    using assms(4-6) by (intro publish_all_total [OF ok] incoming_check [OF load(2)]) (auto simp: atLeast0LessThan)
  then obtain stats db' where imp: "Import ids now ?lang is db = Some (stats, db')" by (auto simp: Import_def)
  note spec = Import_spec [OF ok load(1) imp]
  have rows: "qd_quotes db' = map (settle_all ?lang is) (?qs @ new_rows ids now ?lang 0 is ?qs)" by (simp add: spec(1))
  have whole: "\<forall>k c. k < length (cf_Quotes doc) \<and> c = cf_Quotes doc ! k \<longrightarrow>
      (\<exists>h g. dv [cq_Text c] = Some h \<and> 0 \<le> g \<and> g < 4 \<and>
       fst (cf_Groups doc ! nat g) \<le> int (RuneCountInString (cq_Text c)) \<and> int (RuneCountInString (cq_Text c)) \<le> snd (cf_Groups doc ! nat g) \<and>
       ((?lang, cq_ID c, h) \<notin> rev_key ` set ?qs \<longrightarrow>
          \<lparr>qt_ID = ids k, qt_Lang = ?lang, qt_UpstreamID = cq_ID c, qt_Text = cq_Text c, qt_Source = cq_Source c,
           qt_Length = int (RuneCountInString (cq_Text c)), qt_LenGroup = g, qt_TextHash = h, qt_Superseded = False, qt_CreatedAt = now,
           qt_WithdrawnAt = None, qt_WithdrawnBy = None, qt_WithdrawnReason = None\<rparr> \<in> set (qd_quotes db')))"
    by (intro allI impI, elim conjE) (rule imported_row [OF ok assms(2-4) imp])
  have kept: "map (\<lambda>q. q\<lparr>qt_Superseded := False\<rparr>) (take (CountQuotes db) (qd_quotes db')) = map (\<lambda>q. q\<lparr>qt_Superseded := False\<rparr>) ?qs"
    using settled_rows_same [of ?lang "is" ?qs] by (simp add: rows CountQuotes_def)
  have accounts: "qd_accounts db' = qd_accounts db" by (simp add: spec(1))
  have current: "\<exists>q \<in> set (qd_quotes db'). rev_key q = (?lang, in_UpstreamID i, in_TextHash i) \<and> \<not> qt_Superseded q \<and>
       (\<forall>p \<in> set (qd_quotes db'). quote_key p = quote_key q \<and> \<not> qt_Superseded p \<longrightarrow> p = q)" if i: "i \<in> set is" for i
  proof -
    obtain q where q: "current_of (qd_quotes db') (?lang, in_UpstreamID i) q" "qt_TextHash q = in_TextHash i"
      using Import_up_to_date [OF ok load(1) imp] i by (auto simp: up_to_date_def)
    then have "q \<in> set (qd_quotes db')" by (simp add: current_of_def)
    with quotes_ok_current [OF spec(3) this] q show ?thesis
      by (intro bexI [of _ q]) (auto simp: current_of_def rev_key_def quote_key_def)
  qed
  have others: "filter (\<lambda>q. quote_key q \<notin> (\<lambda>i. (?lang, in_UpstreamID i)) ` set is) (qd_quotes db') =
      filter (\<lambda>q. quote_key q \<notin> (\<lambda>i. (?lang, in_UpstreamID i)) ` set is) ?qs"
    unfolding rows by (rule other_keys_kept) simp_all
  have count: "CountQuotes db' = CountQuotes db + length (filter (\<lambda>i. (?lang, in_UpstreamID i, in_TextHash i) \<notin> rev_key ` set ?qs) is)"
    by (simp add: rows CountQuotes_def new_rows_length known_revision_def)
  have inserted: "is_Inserted stats = length (filter (\<lambda>i. (?lang, in_UpstreamID i) \<notin> quote_key ` set ?qs) is)"
    unfolding spec(2) by (simp add: add_tally_def no_stats_def tally_def publish_verdict_def)
  have "publish_verdict ?qs ?lang i = outcomeUnchanged \<longleftrightarrow>
      (\<exists>q \<in> set ?qs. rev_key q = (?lang, in_UpstreamID i, in_TextHash i) \<and> \<not> qt_Superseded q)" for i
    by (auto simp: publish_verdict_def list_ex_iff rev_key_def quote_key_def image_iff)
  then have unchanged: "is_Unchanged stats = length (filter (\<lambda>i. \<exists>q \<in> set ?qs.
       rev_key q = (?lang, in_UpstreamID i, in_TextHash i) \<and> \<not> qt_Superseded q) is)"
    unfolding spec(2) by (simp add: add_tally_def no_stats_def tally_def)
  show ?thesis
    unfolding Let_def
    by (intro exI conjI ballI) (rule imp, rule whole, rule kept, rule accounts, erule current, rule others, rule count, rule inserted,
        rule unchanged, rule Import_total_stats [OF ok load(1) imp])
qed

text \<open>
  C32. \<open>quotectl import\<close> run again on the same files, over a manifest that lists each language once, reports as
  many unchanged quotes as the first pass considered, none inserted or superseded, and leaves the registry as it was.
\<close>

theorem reimport_unchanged:
  assumes "quote_reachable L db" and "distinct (map lg_Lang manifest)"
    and "importQuotes read_file dv ids clock manifest only db = (Inr stats, db')"
  shows "importQuotes read_file dv ids' clock' manifest only db' =
    (Inr \<lparr>is_Inserted = 0, is_Superseded = 0, is_Unchanged = ImportStats_Total stats\<rparr>, db')"
proof -
  note ok = quote_reachable_ok [OF assms(1)]
  note imp = assms(3) [unfolded importQuotes_def]
  have "quotes_ok (qd_quotes db')" using import_rows_keeps [OF ok, of read_file dv ids clock only 0 manifest no_stats 0] imp by simp
  then show ?thesis
    unfolding importQuotes_def using import_rows_publishes [OF imp ok assms(2)]
    by (intro import_rows_again [OF imp ok]) (simp_all add: no_stats_def ImportStats_Total_def)
qed

section \<open>Browsing\<close>

definition offered :: "(string \<Rightarrow> string) \<Rightarrow> 'u::linorder quote_db \<Rightarrow> quote_filter \<Rightarrow> 'u quote_row list" where
  "offered ck db f =
     sort_key (\<lambda>q. browse_key ck (position_of q)) (filter (admits (if qf_Lang f \<noteq> [] then Some (qf_Lang f) else None) (qf_Group f)) (qd_quotes db))"

definition browse_after :: "(string \<Rightarrow> string) \<Rightarrow> string \<times> int \<times> 'u::linorder \<Rightarrow> string \<times> int \<times> 'u \<Rightarrow> bool" where
  "browse_after ck c d \<longleftrightarrow> browse_key ck d < browse_key ck c"

lemma browse_keys_distinct:
  assumes "keys_ok (qd_quotes db)"
  shows "distinct (map (\<lambda>q. browse_key ck (position_of q)) (filter P (qd_quotes db)))"
proof -
  have "distinct (map qt_ID (filter P (qd_quotes db)))" using assms by (simp add: keys_ok_def distinct_map_filter)
  then show ?thesis by (auto simp: distinct_map inj_on_def browse_key_def position_of_def)
qed

interpretation quote_listing: keyset_source "keys_ok (qd_quotes db)" "Store_Page ck db f" position_of "browse_after ck" "offered ck db f"
  for ck :: "string \<Rightarrow> string" and db :: "'u::linorder quote_db" and f
proof unfold_locales
  show "sorted_wrt (\<lambda>a b. browse_after ck (position_of b) (position_of a)) (offered ck db f)" if "keys_ok (qd_quotes db)"
    unfolding offered_def browse_after_def by (rule sort_key_strict) (rule browse_keys_distinct [OF that])
  show "Store_Page ck db f (Some (position_of r)) n = take n (filter (\<lambda>x. browse_after ck (position_of x) (position_of r)) (offered ck db f))" for r n
    by (simp add: Store_Page_def ListQuotes_def offered_def browse_after_def filter_sort conj_commute)
qed (auto simp: browse_after_def Store_Page_def ListQuotes_def offered_def)

lemma ParseInt16_Itoa: "LenGroup_Valid g \<Longrightarrow> ParseInt16 (Itoa (to_int16 g)) = Some g"
  by (simp add: ParseInt16_def LenGroup_Valid_def LenGroupCount_def to_int16_def Atoi_Itoa in_int64_def)

lemma quotes_cursor_roundtrip:
  assumes "uuid_law L" and "uuid_plain L" and "CHR '':'' \<notin> set lang" and "LenGroup_Valid g"
  shows "quotes_decodeCursor L (quotes_encodeCursor L (lang, g, qid)) = Some (lang, g, qid)"
proof -
  let ?parts = "[lang, Itoa (to_int16 g), uuid_String L qid]"
  have "DecodeCursor (EncodeCursor ?parts) 3 = Some ?parts"
    using DecodeCursor_EncodeCursor [of ?parts] assms(2,3) by (simp add: uuid_plain_def Itoa_no_colon numeral_3_eq_3)
  then show ?thesis
    using assms(1,4) by (simp add: quotes_decodeCursor_def quotes_encodeCursor_def ParseInt16_Itoa uuid_law_def)
qed

definition quotes_token :: "'u uuid_lib \<Rightarrow> (string \<times> int \<times> 'u) option \<Rightarrow> string" where
  "quotes_token L after = (case after of None \<Rightarrow> [] | Some c \<Rightarrow> quotes_encodeCursor L c)"

text \<open>One request of a client that browses, \<open>None\<close> for an error reply.\<close>

definition browse_request ::
  "'u uuid_lib \<Rightarrow> (string \<Rightarrow> string) \<Rightarrow> 'u::linorder quote_db \<Rightarrow> string \<Rightarrow> string \<Rightarrow> string \<Rightarrow> string \<Rightarrow> ('u metaView list \<times> string) option" where
  "browse_request L ck db lang rawGroup rawLimit token =
     (case quotes_handleList L ck db lang rawGroup rawLimit token of QuoteList rows next \<Rightarrow> Some (rows, next) | _ \<Rightarrow> None)"

lemma quotes_token_nonempty: "quotes_token L (Some c) \<noteq> []"
  by (cases c) (simp add: quotes_token_def quotes_encodeCursor_def EncodeCursor_nonempty)

lemma set_offered:
  "set (offered ck db f) = {q \<in> set (qd_quotes db). admits (if qf_Lang f \<noteq> [] then Some (qf_Lang f) else None) (qf_Group f) q}"
  by (auto simp: offered_def)

lemma browse_request_at:
  assumes "uuid_law L" and "uuid_plain L" and "quotes_ok (qd_quotes db)" and "\<forall>q \<in> set (qd_quotes db). CHR '':'' \<notin> set (qt_Lang q)"
    and "filterParam lang rawGroup = Some f" and "k \<le> length (offered ck db f)"
  shows "browse_request L ck db lang rawGroup rawLimit (quotes_token L (quote_listing.cursor_at ck db f k)) =
    (let (rows, next) = page_of (Store_Page ck db f) position_of (nat (ParseLimit rawLimit quotesDefaultLimit quotesMaxLimit))
           (quote_listing.cursor_at ck db f k)
     in Some (map toMetaView rows, quotes_token L next))"
proof -
  let ?after = "quote_listing.cursor_at ck db f k"
  have "quotes_decodeCursor L (quotes_token L (Some c)) = Some c" if "?after = Some c" for c
  proof -
    have "0 < k" "c = position_of (offered ck db f ! (k - 1))" using that by (auto simp: quote_listing.cursor_at_def split: if_splits)
    moreover have "offered ck db f ! (k - 1) \<in> set (qd_quotes db)"
      using nth_mem [of "k - 1" "offered ck db f"] \<open>0 < k\<close> assms(6) by (auto simp: set_offered)
    ultimately show ?thesis
      using assms(3,4) quotes_cursor_roundtrip [OF assms(1,2)]
      by (auto simp: position_of_def quotes_token_def quotes_ok_def quote_check_def LenGroup_Valid_def LenGroupCount_def)
  qed
  then have dec: "(if quotes_token L ?after = [] then Some None else map_option Some (quotes_decodeCursor L (quotes_token L ?after))) = Some ?after"
    using quotes_token_nonempty [of L] by (cases ?after) (simp_all add: quotes_token_def)
  then show ?thesis
    unfolding browse_request_def quotes_handleList_def assms(5) option.case Let_def dec by (simp add: quotes_token_def split_beta)
qed

text \<open>The filter of a request, on rows whose group is one of the four.\<close>

lemma lenGroup_names:
  assumes "LenGroup_Valid g"
  shows "LenGroup_String g = s \<longleftrightarrow> ParseLenGroup s = Some g"
proof -
  have "g = 0 \<or> g = 1 \<or> g = 2 \<or> g = 3" using assms by (auto simp: LenGroup_Valid_def LenGroupCount_def)
  then show ?thesis
    by (elim disjE) (auto simp: LenGroup_String_def ParseLenGroup_def lenGroupNames_def LenGroupCount_def split: if_splits)
qed

lemma filterParam_admits:
  assumes "filterParam lang rawGroup = Some f" and "quote_check q"
  shows "admits (if qf_Lang f \<noteq> [] then Some (qf_Lang f) else None) (qf_Group f) q \<longleftrightarrow>
    \<not> qt_Superseded q \<and> qt_WithdrawnAt q = None \<and> (lang = [] \<or> qt_Lang q = lang) \<and>
    (rawGroup = [] \<or> LenGroup_String (qt_LenGroup q) = rawGroup)"
proof -
  have valid: "LenGroup_Valid (qt_LenGroup q)" using assms(2) by (simp add: quote_check_def LenGroup_Valid_def LenGroupCount_def)
  have "qf_Lang f = lang" "rawGroup = [] \<Longrightarrow> qf_Group f = None" "rawGroup \<noteq> [] \<Longrightarrow> qf_Group f = ParseLenGroup rawGroup \<and> ParseLenGroup rawGroup \<noteq> None"
    using assms(1) by (auto simp: filterParam_def split: if_splits option.splits)
  then show ?thesis
    unfolding lenGroup_names [OF valid] by (cases "rawGroup = []") (auto simp: admits_def published_def)
qed

text \<open>
  C33. Browsing. A client that follows the cursors of \<open>GET /quotes\<close> from the first page, with any filter and page
  size, receives exactly the quotes that are current, not withdrawn and admitted by the filter, each once and in the
  order of language, length group and id, and the walk ends: more requests than there are quotes suffice.
\<close>

theorem browse_delivers_offered:
  assumes "quote_reachable L db" and "uuid_law L" and "uuid_plain L" and "\<forall>q \<in> set (qd_quotes db). CHR '':'' \<notin> set (qt_Lang q)"
    and "filterParam lang rawGroup = Some f" and "length (qd_quotes db) < n"
  shows "\<exists>rows. walk (browse_request L ck db lang rawGroup rawLimit) n [] = Some (map toMetaView rows) \<and>
    set rows = {q \<in> set (qd_quotes db). \<not> qt_Superseded q \<and> qt_WithdrawnAt q = None \<and> (lang = [] \<or> qt_Lang q = lang) \<and>
      (rawGroup = [] \<or> LenGroup_String (qt_LenGroup q) = rawGroup)} \<and>
    sorted_wrt (\<lambda>p q. browse_key ck (position_of p) < browse_key ck (position_of q)) rows"
proof -
  note ok = quote_reachable_ok [OF assms(1)]
  note keys = quotes_ok_keys [OF ok]
  let ?limit = "nat (ParseLimit rawLimit quotesDefaultLimit quotesMaxLimit)"
  have limit: "1 \<le> ?limit"
    using ParseLimit_bounds [of quotesDefaultLimit quotesMaxLimit rawLimit] nat_mono [of 1 "ParseLimit rawLimit quotesDefaultLimit quotesMaxLimit"]
    by (simp add: quotesDefaultLimit_def quotesMaxLimit_def)
  have "length (offered ck db f) \<le> length (qd_quotes db)" by (simp add: offered_def del: if_split)
  also have "\<dots> \<le> n" using assms(6) by simp
  also have "\<dots> \<le> n * ?limit" using limit by simp
  finally have "length (offered ck db f) \<le> 0 + n * ?limit" by simp
  then have "walk (browse_request L ck db lang rawGroup rawLimit) n (quotes_token L (quote_listing.cursor_at ck db f 0))
      = Some (map toMetaView (drop 0 (offered ck db f)))"
    using assms(6) browse_request_at [OF assms(2,3) ok assms(4,5)] quotes_token_nonempty [of L]
    by (intro quote_listing.walk_at [OF keys limit]) (auto simp: quotes_token_def)
  moreover have "set (offered ck db f) = {q \<in> set (qd_quotes db). \<not> qt_Superseded q \<and> qt_WithdrawnAt q = None \<and>
      (lang = [] \<or> qt_Lang q = lang) \<and> (rawGroup = [] \<or> LenGroup_String (qt_LenGroup q) = rawGroup)}"
    unfolding set_offered using filterParam_admits [OF assms(5)] quotes_ok_check [OF ok] by blast
  moreover have "sorted_wrt (\<lambda>p q. browse_key ck (position_of p) < browse_key ck (position_of q)) (offered ck db f)"
    using quote_listing.descending [OF keys, of ck f] by (simp add: browse_after_def)
  ultimately show ?thesis by (intro exI [of _ "offered ck db f"]) (simp add: quotes_token_def quote_listing.cursor_at_def)
qed

section \<open>Drawing\<close>

lemma draw_index:
  fixes r :: rat
  assumes "r < 1" and "0 < n"
  shows "nat \<lfloor>r * of_nat n\<rfloor> < n"
proof -
  have "r * of_nat n < 1 * of_nat n" using assms by (intro mult_strict_right_mono) auto
  then have "\<lfloor>r * of_nat n\<rfloor> < int n" by (simp add: floor_less_iff)
  then show ?thesis using assms(2) by linarith
qed

lemma handleRandom_at:
  fixes f defines "P \<equiv> admits (if qf_Lang f \<noteq> [] then Some (qf_Lang f) else None) (qf_Group f)"
  assumes "keys_ok (qd_quotes db)" and "filterParam lang rawGroup = Some f" and "0 \<le> r" and "r < 1"
  shows "handleRandom r db lang rawGroup =
    (let qs = filter P (qd_quotes db)
     in if qs = [] then quoteErrNotFound else QuoteFull (toQuoteView (qs ! nat \<lfloor>r * of_nat (length qs)\<rfloor>)))"
proof -
  let ?qs = "filter P (qd_quotes db)"
  let ?k = "nat \<lfloor>r * of_nat (length ?qs)\<rfloor>"
  have draw: "Store_Random r db f = (case drop ?k (map qt_ID ?qs) of [] \<Rightarrow> None | qid # _ \<Rightarrow> GetQuote db qid)"
    by (simp add: Store_Random_def PickRandomQuote_def P_def Let_def)
  show ?thesis
  proof (cases "?qs = []")
    case True
    then show ?thesis unfolding handleRandom_def assms(3) by (simp add: draw)
  next
    case False
    then have k: "?k < length ?qs" by (intro draw_index [OF assms(5)]) simp
    then have "?qs ! ?k \<in> set (qd_quotes db)" using nth_mem [OF k] by simp
    then have "GetQuote db (qt_ID (?qs ! ?k)) = Some (?qs ! ?k)" by (simp add: GetQuote_Some_iff [OF assms(2)])
    moreover have "drop ?k (map qt_ID ?qs) = qt_ID (?qs ! ?k) # drop (Suc ?k) (map qt_ID ?qs)"
      using k by (simp add: Cons_nth_drop_Suc [symmetric])
    ultimately have "Store_Random r db f = Some (?qs ! ?k)" by (simp only: draw list.case)
    then show ?thesis using False unfolding handleRandom_def assms(3) Let_def by simp
  qed
qed

lemma floor_slice:
  fixes r :: rat
  assumes "0 \<le> r" and "0 < n"
  shows "nat \<lfloor>r * of_nat n\<rfloor> = i \<longleftrightarrow> of_nat i / of_nat n \<le> r \<and> r < of_nat (Suc i) / of_nat n"
proof -
  have "nat \<lfloor>r * of_nat n\<rfloor> = i \<longleftrightarrow> \<lfloor>r * of_nat n\<rfloor> = int i" using assms by (auto simp: nat_eq_iff)
  also have "\<dots> \<longleftrightarrow> of_nat i \<le> r * of_nat n \<and> r * of_nat n < of_nat i + 1" by (simp add: floor_eq_iff)
  also have "\<dots> \<longleftrightarrow> of_nat i / of_nat n \<le> r \<and> r < of_nat (Suc i) / of_nat n"
    using assms(2) by (simp add: pos_divide_le_eq pos_less_divide_eq add.commute)
  finally show ?thesis .
qed

lemma toQuoteView_ID: "toQuoteView p = toQuoteView q \<Longrightarrow> qt_ID p = qt_ID q"
  by (simp add: toQuoteView_def toMetaView_def)

text \<open>
  C34. Drawing. \<open>GET /quotes/random\<close> answers not found exactly when the filter admits no offered quote; otherwise
  it answers one of them, and each is answered for an interval of the random number of the same length, one over
  their number: the draw is uniform over the offered quotes, and no superseded or withdrawn one is ever drawn.
\<close>

theorem draw_is_uniform:
  assumes "quote_reachable L db" and "filterParam lang rawGroup = Some f"
  shows "\<exists>qs. distinct qs \<and>
    set qs = {q \<in> set (qd_quotes db). \<not> qt_Superseded q \<and> qt_WithdrawnAt q = None \<and> (lang = [] \<or> qt_Lang q = lang) \<and>
      (rawGroup = [] \<or> LenGroup_String (qt_LenGroup q) = rawGroup)} \<and>
    (\<forall>r. 0 \<le> r \<and> r < 1 \<longrightarrow> (handleRandom r db lang rawGroup = quoteErrNotFound) = (qs = [])) \<and>
    (\<forall>r i. 0 \<le> r \<and> r < 1 \<and> i < length qs \<longrightarrow>
       (handleRandom r db lang rawGroup = QuoteFull (toQuoteView (qs ! i))) =
       (of_nat i / of_nat (length qs) \<le> r \<and> r < of_nat (Suc i) / of_nat (length qs)))"
proof -
  note ok = quote_reachable_ok [OF assms(1)]
  note keys = quotes_ok_keys [OF ok]
  note draw = handleRandom_at [OF keys assms(2), unfolded Let_def]
  let ?qs = "filter (admits (if qf_Lang f \<noteq> [] then Some (qf_Lang f) else None) (qf_Group f)) (qd_quotes db)"
  have ids: "distinct (map qt_ID ?qs)" using keys by (simp only: keys_ok_def distinct_map_filter)
  then have dist: "distinct ?qs" unfolding distinct_map by (rule conjunct1)
  have set: "set ?qs = {q \<in> set (qd_quotes db). \<not> qt_Superseded q \<and> qt_WithdrawnAt q = None \<and> (lang = [] \<or> qt_Lang q = lang) \<and>
      (rawGroup = [] \<or> LenGroup_String (qt_LenGroup q) = rawGroup)}"
    unfolding set_filter using filterParam_admits [OF assms(2)] quotes_ok_check [OF ok] by blast
  have none: "(handleRandom r db lang rawGroup = quoteErrNotFound) = (?qs = [])" if "0 \<le> r" "r < 1" for r
    unfolding draw [OF that] by (simp add: quoteErrNotFound_def del: if_split)
  have slice: "(handleRandom r db lang rawGroup = QuoteFull (toQuoteView (?qs ! i))) =
      (of_nat i / of_nat (length ?qs) \<le> r \<and> r < of_nat (Suc i) / of_nat (length ?qs))"
    if r: "0 \<le> r" "r < 1" and i: "i < length ?qs" for r i
  proof -
    let ?k = "nat \<lfloor>r * of_nat (length ?qs)\<rfloor>"
    have ne: "0 < length ?qs" using i by linarith
    have k: "?k < length ?qs" by (rule draw_index [OF r(2) ne])
    have "handleRandom r db lang rawGroup = QuoteFull (toQuoteView (?qs ! ?k))"
      unfolding draw [OF r] using ne by (simp only: length_greater_0_conv if_False)
    then have "(handleRandom r db lang rawGroup = QuoteFull (toQuoteView (?qs ! i))) = (toQuoteView (?qs ! ?k) = toQuoteView (?qs ! i))"
      by simp
    also have "\<dots> = (?k = i)"
    proof
      assume "toQuoteView (?qs ! ?k) = toQuoteView (?qs ! i)"
      then have "map qt_ID ?qs ! ?k = map qt_ID ?qs ! i" using k i toQuoteView_ID by (simp only: nth_map)
      then show "?k = i" using nth_eq_iff_index_eq [OF ids, of ?k i] k i by (simp only: length_map)
    qed (simp only:)
    also have "\<dots> = (of_nat i / of_nat (length ?qs) \<le> r \<and> r < of_nat (Suc i) / of_nat (length ?qs))" by (rule floor_slice [OF r(1) ne])
    finally show ?thesis .
  qed
  show ?thesis
  proof (rule exI [of _ ?qs], intro conjI allI impI)
    show "(handleRandom r db lang rawGroup = quoteErrNotFound) = (?qs = [])" if "0 \<le> r \<and> r < 1" for r
      by (rule none [OF conjunct1 [OF that] conjunct2 [OF that]])
    show "(handleRandom r db lang rawGroup = QuoteFull (toQuoteView (?qs ! i))) =
       (of_nat i / of_nat (length ?qs) \<le> r \<and> r < of_nat (Suc i) / of_nat (length ?qs))" if "0 \<le> r \<and> r < 1 \<and> i < length ?qs" for r i
      using that by (elim conjE) (rule slice)
  qed (rule dist, rule set)
qed

section \<open>Withdrawals\<close>

lemma handleWithdraw_cases:
  assumes "handleWithdraw L now actor raw body db = (QuoteWithdrawal qid changed v, db')"
  obtains a reason q where "uuid_Parse L raw = Some qid" "GetQuote db qid = Some q"
    "db' = db\<lparr>qd_quotes := map (\<lambda>p. if qt_ID p = qid then withdraw_row now a reason p else p) (qd_quotes db)\<rparr>"
    "changed = (qt_WithdrawnAt (withdraw_row now a reason q) = Some now)"
    "v = (let p = withdraw_row now a reason q in toWithdrawalView (toWithdrawal (qt_WithdrawnAt p) (qt_WithdrawnBy p) (qt_WithdrawnReason p)))"
  using assms
  by (auto simp: handleWithdraw_def WithdrawQuote_def update_quotes_def Let_def quoteErrNotFound_def quoteErrBadWithdrawal_def quoteErrInternal_def
      split: option.splits if_splits prod.splits)

lemma GetQuote_map:
  assumes "\<And>q. qt_ID (g q) = qt_ID q"
  shows "GetQuote (db\<lparr>qd_quotes := map g (qd_quotes db)\<rparr>) x = map_option g (GetQuote db x)"
proof -
  have "find_first (\<lambda>q. qt_ID q = x) (map g qs) = map_option g (find_first (\<lambda>q. qt_ID q = x) qs)" for qs
    by (induction qs) (simp_all add: assms)
  then show ?thesis by (simp add: GetQuote_def)
qed

lemma ResolveQuote_map:
  assumes "\<And>q. qt_ID (g q) = qt_ID q \<and> qt_Text (g q) = qt_Text q \<and> qt_TextHash (g q) = qt_TextHash q"
  shows "ResolveQuote (db\<lparr>qd_quotes := map g (qd_quotes db)\<rparr>) = ResolveQuote db"
  using assms by (intro ext) (simp add: ResolveQuote_def Store_ByID_def GetQuote_map split: option.split)

lemma filter_map_other:
  assumes "\<And>q. qt_ID (g q) = qt_ID q" and "\<And>q. qt_ID q \<noteq> x \<Longrightarrow> g q = q"
  shows "filter (\<lambda>q. qt_ID q \<noteq> x) (map g qs) = filter (\<lambda>q. qt_ID q \<noteq> x) qs"
  using assms by (induction qs) auto

lemma withdraw_row_again:
  "withdraw_row later a' reason' (withdraw_row now a reason q) = withdraw_row now a reason q"
  by (simp add: withdraw_row_def)

lemma withdraw_row_at:
  "qt_WithdrawnAt (withdraw_row now a reason q) = Some (case qt_WithdrawnAt q of None \<Rightarrow> now | Some t \<Rightarrow> t)"
  "qt_Text (withdraw_row now a reason q) = qt_Text q" "qt_TextHash (withdraw_row now a reason q) = qt_TextHash q"
  by (simp_all add: withdraw_row_def)

lemma withdraw_again:
  assumes "db' = db\<lparr>qd_quotes := map (\<lambda>p. if qt_ID p = qid then withdraw_row now a reason p else p) (qd_quotes db)\<rparr>"
    and "GetQuote db qid = Some q" and "handleWithdraw L later actor' raw body' db' = (QuoteWithdrawal qid c w, db'')"
  shows "db'' = db'" and "c = (qt_WithdrawnAt (withdraw_row now a reason q) = Some later)"
    and "w = (let p = withdraw_row now a reason q in toWithdrawalView (toWithdrawal (qt_WithdrawnAt p) (qt_WithdrawnBy p) (qt_WithdrawnReason p)))"
proof -
  have "qt_ID q = qid" using find_first_Some [OF assms(2) [unfolded GetQuote_def]] by simp
  then have "GetQuote db' qid = Some (withdraw_row now a reason q)"
    unfolding assms(1) using assms(2) by (subst GetQuote_map) (simp_all add: moderation_rows)
  then show "c = (qt_WithdrawnAt (withdraw_row now a reason q) = Some later)"
    and "w = (let p = withdraw_row now a reason q in toWithdrawalView (toWithdrawal (qt_WithdrawnAt p) (qt_WithdrawnBy p) (qt_WithdrawnReason p)))"
    using assms(3) by (auto elim!: handleWithdraw_cases simp: withdraw_row_again)
  obtain a' reason' where "db'' = db'\<lparr>qd_quotes := map (\<lambda>p. if qt_ID p = qid then withdraw_row later a' reason' p else p) (qd_quotes db')\<rparr>"
    using assms(3) by (auto elim!: handleWithdraw_cases)
  also have "\<dots> = db'" by (simp add: assms(1) comp_def withdraw_row_again moderation_rows cong: if_cong)
  finally show "db'' = db'" .
qed

lemma cleared_rows:
  "\<forall>p \<in> set (map (\<lambda>p. if qt_ID p = qid \<and> qt_WithdrawnAt p \<noteq> None
      then p\<lparr>qt_WithdrawnAt := None, qt_WithdrawnBy := None, qt_WithdrawnReason := None\<rparr> else p) xs). qt_ID p = qid \<longrightarrow> qt_WithdrawnAt p = None"
proof (rule ballI, rule impI)
  fix p
  assume "p \<in> set (map (\<lambda>p. if qt_ID p = qid \<and> qt_WithdrawnAt p \<noteq> None
      then p\<lparr>qt_WithdrawnAt := None, qt_WithdrawnBy := None, qt_WithdrawnReason := None\<rparr> else p) xs)" and qid: "qt_ID p = qid"
  then obtain r where "p = (if qt_ID r = qid \<and> qt_WithdrawnAt r \<noteq> None
      then r\<lparr>qt_WithdrawnAt := None, qt_WithdrawnBy := None, qt_WithdrawnReason := None\<rparr> else r)" unfolding set_map by (elim imageE)
  then show "qt_WithdrawnAt p = None" using qid by (cases "qt_ID r = qid \<and> qt_WithdrawnAt r \<noteq> None") (simp_all del: not_None_eq)
qed

text \<open>Everything of a row but its withdrawal.\<close>

definition unwithdrawn :: "'u quote_row \<Rightarrow> 'u quote_row" where
  "unwithdrawn q = q\<lparr>qt_WithdrawnAt := None, qt_WithdrawnBy := None, qt_WithdrawnReason := None\<rparr>"

lemma unwithdrawn_withdraw [simp]: "unwithdrawn (withdraw_row now a reason q) = unwithdrawn q"
  by (simp add: unwithdrawn_def withdraw_row_def)

text \<open>
  C35. A withdrawal takes the quote out of circulation and nothing else: it is no longer offered, every other row is
  unchanged, the row itself keeps every column but the three of the withdrawal, and every id resolves to the text it
  had. The first decision stands: a later withdrawal by anyone, with any reason, answers that nothing changed and shows
  the first record. A restoration puts the quote back: the table is what it was before, the quote without a withdrawal,
  and the quote is offered again when it is its upstream id's current revision.
\<close>

theorem withdrawal_sticks:
  assumes "quote_reachable L db" and "0 < now" and "now < later"
    and "\<forall>q \<in> set (qd_quotes db). \<forall>t. qt_WithdrawnAt q = Some t \<longrightarrow> 0 < t \<and> t \<le> now"
    and "handleWithdraw L now actor raw body db = (QuoteWithdrawal qid changed v, db')"
  shows "(\<forall>q \<in> set (qd_quotes db'). qt_ID q = qid \<longrightarrow> \<not> published q) \<and>
    filter (\<lambda>q. qt_ID q \<noteq> qid) (qd_quotes db') = filter (\<lambda>q. qt_ID q \<noteq> qid) (qd_quotes db) \<and>
    map unwithdrawn (qd_quotes db') = map unwithdrawn (qd_quotes db) \<and> qd_accounts db' = qd_accounts db \<and>
    ResolveQuote db' = ResolveQuote db \<and> wv_Withdrawn v \<and>
    (\<forall>actor' body' c w db''. handleWithdraw L later actor' raw body' db' = (QuoteWithdrawal qid c w, db'') \<longrightarrow> \<not> c \<and> w = v \<and> db'' = db') \<and>
    (\<exists>db''. handleRestore L raw db' = (QuoteWithdrawal qid True in_circulation, db'') \<and>
       db'' = db\<lparr>qd_quotes := map (\<lambda>q. if qt_ID q = qid then unwithdrawn q else q) (qd_quotes db)\<rparr> \<and>
       ResolveQuote db'' = ResolveQuote db \<and>
       (\<forall>q \<in> set (qd_quotes db''). qt_ID q = qid \<longrightarrow> (published q \<longleftrightarrow> \<not> qt_Superseded q)))"
proof -
  obtain a reason q where q: "uuid_Parse L raw = Some qid" "GetQuote db qid = Some q"
    and db': "db' = db\<lparr>qd_quotes := map (\<lambda>p. if qt_ID p = qid then withdraw_row now a reason p else p) (qd_quotes db)\<rparr>"
    and v: "v = (let p = withdraw_row now a reason q in toWithdrawalView (toWithdrawal (qt_WithdrawnAt p) (qt_WithdrawnBy p) (qt_WithdrawnReason p)))"
    using assms(5) by (elim handleWithdraw_cases)
  have qin: "q \<in> set (qd_quotes db)" "qt_ID q = qid" using find_first_Some [OF q(2) [unfolded GetQuote_def]] by simp_all
  define t where "t = (case qt_WithdrawnAt q of None \<Rightarrow> now | Some t \<Rightarrow> t)"
  have t: "0 < t" "t \<le> now" using assms(2,4) qin(1) by (auto simp: t_def split: option.split)
  have at: "qt_WithdrawnAt (withdraw_row now a reason q) = Some t" by (simp add: withdraw_row_at t_def)
  let ?clear = "\<lambda>p. if qt_ID p = qid \<and> qt_WithdrawnAt p \<noteq> None
      then p\<lparr>qt_WithdrawnAt := None, qt_WithdrawnBy := None, qt_WithdrawnReason := None\<rparr> else p"
  let ?db'' = "db'\<lparr>qd_quotes := map ?clear (qd_quotes db')\<rparr>"
  have out: "\<forall>p \<in> set (qd_quotes db'). qt_ID p = qid \<longrightarrow> \<not> published p"
    by (auto simp: db' published_def withdraw_row_at)
  have others: "filter (\<lambda>q. qt_ID q \<noteq> qid) (qd_quotes db') = filter (\<lambda>q. qt_ID q \<noteq> qid) (qd_quotes db)"
    unfolding db' by (simp del: filter_map) (rule filter_map_other, simp_all add: moderation_rows)
  have res: "ResolveQuote db' = ResolveQuote db"
    unfolding db' by (rule ResolveQuote_map) (simp add: moderation_rows withdraw_row_at)
  have wv: "wv_Withdrawn v" using t by (simp add: v Let_def toWithdrawalView_def toWithdrawal_def at)
  have "\<not> c \<and> w = v \<and> db'' = db'"
    if "handleWithdraw L later actor' raw body' db' = (QuoteWithdrawal qid c w, db'')" for actor' body' c w db''
    using withdraw_again [OF db' q(2) that] t assms(3) by (simp add: at v)
  then have again: "\<forall>actor' body' c w db''. handleWithdraw L later actor' raw body' db' = (QuoteWithdrawal qid c w, db'') \<longrightarrow> \<not> c \<and> w = v \<and> db'' = db'"
    by (intro allI impI)
  have "handleRestore L raw db' = (QuoteWithdrawal qid True in_circulation, ?db'')"
  proof -
    have "withdraw_row now a reason q \<in> set (qd_quotes db')" using qin by (force simp: db')
    then have "0 < length (filter (\<lambda>q. qt_ID q = qid \<and> qt_WithdrawnAt q \<noteq> None) (qd_quotes db'))"
      unfolding filter_pos using at qin(2) by (intro bexI [of _ "withdraw_row now a reason q"]) (simp_all add: moderation_rows)
    then show ?thesis by (simp add: handleRestore_def q(1) RestoreQuote_def update_quotes_def del: length_greater_0_conv)
  qed
  moreover have "ResolveQuote ?db'' = ResolveQuote db" unfolding res [symmetric] by (rule ResolveQuote_map) simp
  moreover have "?db'' = db\<lparr>qd_quotes := map (\<lambda>q. if qt_ID q = qid then unwithdrawn q else q) (qd_quotes db)\<rparr>"
  proof -
    have row: "?clear (if qt_ID p = qid then withdraw_row now a reason p else p) = (if qt_ID p = qid then unwithdrawn p else p)" for p
      by (cases "qt_ID p = qid") (simp_all add: withdraw_row_def unwithdrawn_def)
    have rows: "qd_quotes db' = map (\<lambda>p. if qt_ID p = qid then withdraw_row now a reason p else p) (qd_quotes db)" by (simp add: db')
    have "map ?clear (qd_quotes db') = map (\<lambda>q. if qt_ID q = qid then unwithdrawn q else q) (qd_quotes db)"
      unfolding rows map_map comp_def row ..
    then show ?thesis by (simp add: db')
  qed
  moreover have "\<forall>p \<in> set (qd_quotes ?db''). qt_ID p = qid \<longrightarrow> (published p \<longleftrightarrow> \<not> qt_Superseded p)"
  proof -
    have "\<forall>p \<in> set (qd_quotes ?db''). qt_ID p = qid \<longrightarrow> qt_WithdrawnAt p = None" by (simp add: cleared_rows del: set_map)
    then show ?thesis unfolding published_def by blast
  qed
  ultimately have restore: "\<exists>db''. handleRestore L raw db' = (QuoteWithdrawal qid True in_circulation, db'') \<and>
       db'' = db\<lparr>qd_quotes := map (\<lambda>q. if qt_ID q = qid then unwithdrawn q else q) (qd_quotes db)\<rparr> \<and>
       ResolveQuote db'' = ResolveQuote db \<and>
       (\<forall>q \<in> set (qd_quotes db''). qt_ID q = qid \<longrightarrow> (published q \<longleftrightarrow> \<not> qt_Superseded q))"
    by (intro exI [of _ ?db''] conjI)
  have kept: "map unwithdrawn (qd_quotes db') = map unwithdrawn (qd_quotes db)" and accounts: "qd_accounts db' = qd_accounts db"
    by (simp_all add: db')
  show ?thesis by (rule conjI [OF out conjI [OF others conjI [OF kept conjI [OF accounts conjI [OF res conjI [OF wv conjI [OF again restore]]]]]]])
qed

text \<open>
  C36. A withdrawal does not survive a corrected text. When the corpus carries another text for the upstream id of a
  withdrawn quote, the next import publishes that text as a new row without a withdrawal: the moderated upstream
  quote is offered again.
\<close>

theorem corrected_text_reoffers:
  assumes "quote_reachable L db" and "q \<in> set (qd_quotes db)" and "qt_WithdrawnAt q \<noteq> None"
    and "corpus_Load read_file dv row = Inr is" and "i \<in> set is" and "quote_key q = (lg_Lang row, in_UpstreamID i)"
    and "(lg_Lang row, in_UpstreamID i, in_TextHash i) \<notin> rev_key ` set (qd_quotes db)"
    and "Import ids now (lg_Lang row) is db = Some (stats, db')"
  shows "\<exists>p \<in> set (qd_quotes db'). quote_key p = quote_key q \<and> published p \<and> qt_TextHash p = in_TextHash i"
proof -
  note ok = quote_reachable_ok [OF assms(1)]
  note load = Load_spec [OF assms(4)]
  obtain p where p: "current_of (qd_quotes db') (lg_Lang row, in_UpstreamID i) p" "qt_TextHash p = in_TextHash i"
    using Import_up_to_date [OF ok load(1) assms(8)] assms(5) by (auto simp: up_to_date_def)
  then have "p \<in> set (map (settle_all (lg_Lang row) is) (qd_quotes db @ new_rows ids now (lg_Lang row) 0 is (qd_quotes db)))"
    by (simp add: current_of_def Import_spec(1) [OF ok load(1) assms(8)])
  then obtain r where r: "p = settle_all (lg_Lang row) is r" "r \<in> set (qd_quotes db) \<or> r \<in> set (new_rows ids now (lg_Lang row) 0 is (qd_quotes db))"
    by auto
  have "rev_key r = (lg_Lang row, in_UpstreamID i, in_TextHash i)"
    using p settle_all_simps(2) [of "lg_Lang row" "is" r] unfolding r(1) [symmetric] by (simp add: current_of_def rev_key_def quote_key_def)
  then have "r \<in> set (new_rows ids now (lg_Lang row) 0 is (qd_quotes db))" using r(2) assms(7) by force
  then have "qt_WithdrawnAt p = None" using r(1) new_rows_member [of r] by (metis new_revision_simps(6) settle_all_simps(5))
  then show ?thesis using p assms(6) by (intro bexI [of _ p]) (auto simp: current_of_def published_def)
qed

section \<open>A small registry\<close>

definition quote_ids :: "nat uuid_lib" where
  "quote_ids = \<lparr>uuid_Parse = (\<lambda>s. Some (length s)), uuid_String = (\<lambda>u. replicate u (CHR ''a'')), uuid_Nil = 0\<rparr>"

definition corpus_v1 :: corpusFile where
  "corpus_v1 = \<lparr>cf_Language = ''en'', cf_Groups = [(0, 2), (3, 4), (5, 6), (7, 8)],
     cf_Quotes = [\<lparr>cq_Text = ''abc'', cq_Source = ''x'', cq_Length = 3, cq_ID = 1\<rparr>]\<rparr>"

definition corpus_v2 :: corpusFile where
  "corpus_v2 = \<lparr>cf_Language = ''en'', cf_Groups = [(0, 2), (3, 4), (5, 6), (7, 8)],
     cf_Quotes = [\<lparr>cq_Text = ''abd'', cq_Source = ''x'', cq_Length = 3, cq_ID = 1\<rparr>]\<rparr>"

definition corpus_row :: Language where
  "corpus_row = \<lparr>lg_Lang = ''en'', lg_File = ''en.json'', lg_Quotes = 1, lg_Groups = [(0, 2), (3, 4), (5, 6), (7, 8)]\<rparr>"

definition text_hash :: "string list \<Rightarrow> string option" where
  "text_hash words = Some (concat words)"

definition empty_registry :: "nat quote_db" where
  "empty_registry = \<lparr>qd_accounts = \<lparr>ad_users = [\<lparr>u_ID = 9, u_DisplayName = ''mod'', u_CreatedAt = 0, u_ProfilePublic = True, u_KeyboardPublic = False,
     u_Role = ''admin'', u_DisplayNameChangedAt = None\<rparr>], ad_identities = [], ad_credentials = [], ad_sessions = [], ad_tokens = []\<rparr>, qd_quotes = []\<rparr>"

definition first_incoming :: Incoming where
  "first_incoming = \<lparr>in_UpstreamID = 1, in_Text = ''abc'', in_Source = ''x'', in_Length = 3, in_LenGroup = 1, in_TextHash = ''abc''\<rparr>"

definition second_incoming :: Incoming where
  "second_incoming = \<lparr>in_UpstreamID = 1, in_Text = ''abd'', in_Source = ''x'', in_Length = 3, in_LenGroup = 1, in_TextHash = ''abd''\<rparr>"

definition first_row :: "nat quote_row" where
  "first_row = new_revision 2 5 ''en'' first_incoming"

definition one_quote :: "nat quote_db" where
  "one_quote = empty_registry\<lparr>qd_quotes := [first_row]\<rparr>"

definition one_withdrawn :: "nat quote_db" where
  "one_withdrawn = empty_registry\<lparr>qd_quotes := [withdraw_row 6 9 ''bad'' first_row]\<rparr>"

lemma rune_count_abc: "RuneCountInString ''abc'' = 3" "RuneCountInString ''abd'' = 3" "RuneCountInString ''bad'' = 3"
  by (simp_all add: RuneCountInString_def runes_ascii ascii_def byte_def)

lemma empty_registry_rows: "qd_quotes empty_registry = []"
  by (simp add: empty_registry_def)

lemma corpus_row_lang: "lg_Lang corpus_row = ''en''"
  by (simp add: corpus_row_def)

lemma Load_demo:
  "corpus_Load (\<lambda>_. Some corpus_v1) text_hash corpus_row = Inr [first_incoming]"
  "corpus_Load (\<lambda>_. Some corpus_v2) text_hash corpus_row = Inr [second_incoming]"
  by (simp_all add: corpus_Load_def corpus_v1_def corpus_v2_def corpus_row_def TrimSuffix_def sameGroups_def LenGroupCount_def rune_count_abc
      groupOf_def HashText_def text_hash_def first_incoming_def second_incoming_def to_int32_def)

lemma demo_check: "quote_check (new_revision qid now ''en'' first_incoming)" "quote_check (new_revision qid now ''en'' second_incoming)"
  by (simp_all add: quote_check_def new_revision_def first_incoming_def second_incoming_def rune_count_abc to_int16_def)

lemma import_demo:
  "importQuotes (\<lambda>_. Some corpus_v1) text_hash (\<lambda>_ _. 2) (\<lambda>_. 5) [corpus_row] [] empty_registry =
    (Inr \<lparr>is_Inserted = 1, is_Superseded = 0, is_Unchanged = 0\<rparr>, one_quote)"
  by (simp add: importQuotes_def Load_demo Import_def publish_def FindQuoteRevision_def empty_registry_rows InsertQuoteRevision_def Let_def
      corpus_row_lang demo_check SupersedeOtherRevisions_def update_quotes_def count_outcome_def no_stats_def ImportStats_Add_def one_quote_def
      first_row_def)

lemma empty_registry_reachable: "quote_reachable quote_ids empty_registry"
  by (auto simp: quote_reachable_def empty_registry_def)

lemma one_quote_step: "quote_step quote_ids empty_registry one_quote"
  using import_step [of quote_ids empty_registry "\<lambda>_. Some corpus_v1" text_hash "\<lambda>_ _. 2" "\<lambda>_. 5" "[corpus_row]" "[]"] by (simp only: import_demo snd_conv)

lemma reachable_step: "\<lbrakk>quote_reachable L db; quote_step L db db'\<rbrakk> \<Longrightarrow> quote_reachable L db'"
  by (meson quote_reachable_def rtranclp.rtrancl_into_rtrancl)

lemma one_quote_reachable: "quote_reachable quote_ids one_quote"
  by (rule reachable_step [OF empty_registry_reachable one_quote_step])

lemma withdraw_demo:
  "handleWithdraw quote_ids 6 (Some 9) ''aa'' (Some ''bad'') one_quote =
    (QuoteWithdrawal 2 True \<lparr>wv_Withdrawn = True, wv_At = Some 6, wv_By = Some 9, wv_Reason = ''bad''\<rparr>, one_withdrawn)"
proof -
  have "TrimSpace ''bad'' = ''bad''" by (simp add: TrimSpace_ascii ascii_def byte_def trim_by_def IsSpace_def)
  then show ?thesis
    by (simp add: handleWithdraw_def quote_ids_def rune_count_abc maxWithdrawalReason_def WithdrawQuote_def GetQuote_def one_quote_def first_row_def
        user_exists_def empty_registry_def withdraw_row_def update_quotes_def Let_def numeral_2_eq_2 toWithdrawal_def toWithdrawalView_def one_withdrawn_def)
qed

lemma withdrawn_reachable: "quote_reachable quote_ids one_withdrawn"
  using reachable_step [OF one_quote_reachable withdraw_step [of quote_ids one_quote 6 "Some 9" "''aa''" "Some ''bad''"]] by (simp only: withdraw_demo snd_conv)

theorem quotes_invariant_witness:
  "qd_quotes one_withdrawn \<noteq> [] \<and> distinct (map qt_ID (qd_quotes one_withdrawn)) \<and> distinct (map rev_key (qd_quotes one_withdrawn))"
  using quotes_invariant [OF withdrawn_reachable] by (simp add: one_withdrawn_def)

theorem quote_text_forever_witness: "ResolveQuote one_withdrawn 2 = Inr (Some (''abc'', ''abc''))"
proof -
  have "quote_step quote_ids one_quote one_withdrawn"
    using withdraw_step [of quote_ids one_quote 6 "Some 9" "''aa''" "Some ''bad''"] by (simp only: withdraw_demo snd_conv)
  moreover have "ResolveQuote one_quote 2 = Inr (Some (''abc'', ''abc''))"
    by (simp add: ResolveQuote_def Store_ByID_def GetQuote_def one_quote_def first_row_def first_incoming_def)
  ultimately show ?thesis using quote_text_forever [OF one_quote_reachable, of one_withdrawn 2 "''abc''" "''abc''"] by blast
qed

theorem import_publishes_witness:
  "\<exists>stats db'. Import (\<lambda>_. 3) 7 ''en'' [second_incoming] one_withdrawn = Some (stats, db') \<and>
     CountQuotes db' = CountQuotes one_withdrawn + 1 \<and> is_Inserted stats = 0 \<and> is_Unchanged stats = 0"
proof -
  have rows: "rev_key ` set (qd_quotes one_withdrawn) = {(''en'', 1, ''abc'')}" "quote_key ` set (qd_quotes one_withdrawn) = {(''en'', 1)}"
      "qt_ID ` set (qd_quotes one_withdrawn) = {2}" "lg_Lang corpus_row = ''en''" "in_UpstreamID second_incoming = 1" "in_TextHash second_incoming = ''abd''"
    by (simp_all add: one_withdrawn_def withdraw_row_def rev_key_def quote_key_def first_row_def new_revision_def first_incoming_def corpus_row_def second_incoming_def)
  have none: "\<not> (\<exists>q \<in> set (qd_quotes one_withdrawn). rev_key q = (''en'', 1, ''abd'') \<and> \<not> qt_Superseded q)"
    by (simp add: one_withdrawn_def withdraw_row_def rev_key_def first_row_def first_incoming_def)
  have len: "\<forall>i \<in> set [second_incoming]. 0 < in_Length i \<and> length (in_Text i) < 2 ^ 31" by (simp add: second_incoming_def)
  have inj: "inj_on (\<lambda>_. 3) {..<length [second_incoming]}" by (simp add: inj_on_def)
  have fresh: "\<forall>k < length [second_incoming]. (3 :: nat) \<notin> qt_ID ` set (qd_quotes one_withdrawn)" by (simp add: rows)
  obtain stats db' where "Import (\<lambda>_. 3) 7 (lg_Lang corpus_row) [second_incoming] one_withdrawn = Some (stats, db')"
      "CountQuotes db' = CountQuotes one_withdrawn + length (filter (\<lambda>i. (lg_Lang corpus_row, in_UpstreamID i, in_TextHash i)
         \<notin> rev_key ` set (qd_quotes one_withdrawn)) [second_incoming])"
      "is_Inserted stats = length (filter (\<lambda>i. (lg_Lang corpus_row, in_UpstreamID i) \<notin> quote_key ` set (qd_quotes one_withdrawn)) [second_incoming])"
      "is_Unchanged stats = length (filter (\<lambda>i. \<exists>q \<in> set (qd_quotes one_withdrawn).
         rev_key q = (lg_Lang corpus_row, in_UpstreamID i, in_TextHash i) \<and> \<not> qt_Superseded q) [second_incoming])"
    using import_publishes [OF withdrawn_reachable refl Load_demo(2) len inj fresh, of 7] by (elim exE conjE) (rule that)
  then show ?thesis using none by (intro exI [of _ stats] exI [of _ db']) (simp add: rows)
qed

theorem reimport_unchanged_witness:
  "importQuotes (\<lambda>_. Some corpus_v1) text_hash (\<lambda>_ _. 8) (\<lambda>_. 9) [corpus_row] [] one_quote =
    (Inr \<lparr>is_Inserted = 0, is_Superseded = 0, is_Unchanged = 1\<rparr>, one_quote)"
  using reimport_unchanged [OF empty_registry_reachable _ import_demo, of "\<lambda>_ _. 8" "\<lambda>_. 9"] by (simp add: ImportStats_Total_def)

theorem browse_delivers_offered_witness:
  "\<exists>rows. walk (browse_request quote_ids id one_quote ''en'' ''medium'' ''1'') 2 [] = Some (map toMetaView rows) \<and> set rows = {first_row}"
proof -
  have row: "qd_quotes one_quote = [first_row]" "qt_Lang first_row = ''en''" "qt_LenGroup first_row = 1" "\<not> qt_Superseded first_row" "qt_WithdrawnAt first_row = None"
    by (simp_all add: one_quote_def first_row_def) (simp add: new_revision_def first_incoming_def to_int16_def)
  have filt: "filterParam ''en'' ''medium'' = Some \<lparr>qf_Lang = ''en'', qf_Group = Some 1\<rparr>"
    by (simp add: filterParam_def ParseLenGroup_def lenGroupNames_def)
  have ids: "uuid_law quote_ids" "uuid_plain quote_ids" by (simp_all add: uuid_law_def uuid_plain_def quote_ids_def)
  have colon: "\<forall>q \<in> set (qd_quotes one_quote). CHR '':'' \<notin> set (qt_Lang q)" and len: "length (qd_quotes one_quote) < 2" by (simp_all add: row)
  obtain rows where "walk (browse_request quote_ids id one_quote ''en'' ''medium'' ''1'') 2 [] = Some (map toMetaView rows)"
      "set rows = {q \<in> set (qd_quotes one_quote). \<not> qt_Superseded q \<and> qt_WithdrawnAt q = None \<and> (''en'' = [] \<or> qt_Lang q = ''en'') \<and>
      (''medium'' = [] \<or> LenGroup_String (qt_LenGroup q) = ''medium'')}"
    using browse_delivers_offered [OF one_quote_reachable ids colon filt len, of id "''1''"] by (elim exE conjE) (rule that)
  moreover have "{q \<in> set (qd_quotes one_quote). \<not> qt_Superseded q \<and> qt_WithdrawnAt q = None \<and> (''en'' = [] \<or> qt_Lang q = ''en'') \<and>
      (''medium'' = [] \<or> LenGroup_String (qt_LenGroup q) = ''medium'')} = {first_row}"
    using row(2-5) by (auto simp: row(1) LenGroup_String_def LenGroupCount_def lenGroupNames_def)
  ultimately show ?thesis by blast
qed

theorem draw_is_uniform_witness: "handleRandom (1 / 2) one_withdrawn [] [] = quoteErrNotFound"
proof -
  have filt: "filterParam [] [] = Some \<lparr>qf_Lang = [], qf_Group = None\<rparr>" by (simp add: filterParam_def)
  obtain qs where qs: "set qs = {q \<in> set (qd_quotes one_withdrawn). \<not> qt_Superseded q \<and> qt_WithdrawnAt q = None \<and> (([] :: string) = [] \<or> qt_Lang q = []) \<and>
      (([] :: string) = [] \<or> LenGroup_String (qt_LenGroup q) = [])}"
      "\<forall>r. 0 \<le> r \<and> r < 1 \<longrightarrow> (handleRandom r one_withdrawn [] [] = quoteErrNotFound) = (qs = [])"
    using draw_is_uniform [OF withdrawn_reachable filt] by (elim exE conjE) (rule that)
  have "qt_WithdrawnAt (withdraw_row 6 9 ''bad'' first_row) \<noteq> None" by (simp add: withdraw_row_at)
  then have "set qs = {}" using qs(1) by (simp add: one_withdrawn_def)
  moreover have "(0 :: rat) \<le> 1 / 2 \<and> (1 / 2 :: rat) < 1" by simp
  ultimately show ?thesis using spec [OF qs(2), of "1 / 2"] by simp
qed

theorem withdrawal_sticks_witness:
  "ResolveQuote one_withdrawn = ResolveQuote one_quote \<and> fst (handleRestore quote_ids ''aa'' one_withdrawn) = QuoteWithdrawal 2 True in_circulation"
proof -
  have past: "\<forall>q \<in> set (qd_quotes one_quote). \<forall>t. qt_WithdrawnAt q = Some t \<longrightarrow> 0 < t \<and> t \<le> 6" by (simp add: one_quote_def first_row_def)
  have clock: "(0 :: int) < 6" "(6 :: int) < 7" by simp_all
  note sticks = withdrawal_sticks [OF one_quote_reachable clock past withdraw_demo]
  obtain db'' where "handleRestore quote_ids ''aa'' one_withdrawn = (QuoteWithdrawal 2 True in_circulation, db'')"
    using sticks by (elim conjE exE) (rule that)
  moreover have "ResolveQuote one_withdrawn = ResolveQuote one_quote" using sticks by (elim conjE)
  ultimately show ?thesis by simp
qed

theorem corrected_text_reoffers_witness:
  "\<exists>db'. Import (\<lambda>_. 3) 7 ''en'' [second_incoming] one_withdrawn = Some (\<lparr>is_Inserted = 0, is_Superseded = 1, is_Unchanged = 0\<rparr>, db') \<and>
     (\<exists>p \<in> set (qd_quotes db'). published p \<and> qt_TextHash p = ''abd'')"
proof -
  let ?w = "withdraw_row 6 9 ''bad'' first_row"
  have row: "qd_quotes one_withdrawn = [?w]" by (simp add: one_withdrawn_def)
  have w: "qt_Lang ?w = ''en''" "qt_UpstreamID ?w = 1" "qt_TextHash ?w = ''abc''" "qt_ID ?w = 2" "\<not> qt_Superseded ?w" "qt_WithdrawnAt ?w \<noteq> None"
    by (simp_all add: withdraw_row_def first_row_def first_incoming_def)
  have i: "in_UpstreamID second_incoming = 1" "in_TextHash second_incoming = ''abd''" "lg_Lang corpus_row = ''en''"
    by (simp_all add: second_incoming_def corpus_row_def)
  obtain db' where db': "Import (\<lambda>_. 3) 7 ''en'' [second_incoming] one_withdrawn = Some (\<lparr>is_Inserted = 0, is_Superseded = 1, is_Unchanged = 0\<rparr>, db')"
    by (simp add: Import_def publish_def FindQuoteRevision_def row w i InsertQuoteRevision_def Let_def demo_check SupersedeOtherRevisions_def
        update_quotes_def count_outcome_def no_stats_def same_revision_def)
  have "\<exists>p \<in> set (qd_quotes db'). quote_key p = quote_key ?w \<and> published p \<and> qt_TextHash p = in_TextHash second_incoming"
    using db' by (intro corrected_text_reoffers [OF withdrawn_reachable _ w(6) Load_demo(2)]) (simp_all add: row i w quote_key_def rev_key_def)
  then show ?thesis using db' by (auto simp: i)
qed

end
