(* ===== verification/Badges.thy ===== *)
theory Badges
  imports Moderation_Bans "HOL-Library.Char_ord" "HOL-Library.List_Lexorder" "HOL-Library.Product_Lexorder"
begin

text \<open>
  Badges: the codes this build knows (\<open>internal/badges/badges.go\<close>), the table of grants of migration 00029, the
  operators' statements (\<open>moderationdb\<close>), store (\<open>moderation/badges.go\<close>) and handlers (\<open>badges_http.go\<close>).

  A grant is a row; revoking marks it and a later grant of the same code is a new row. The position in the owner's
  showcase is a column of the row, written by the profile (theory \<open>Profile\<close>) and by nothing here. The table of links
  and the two columns of \<open>users\<close> that a profile edits are part of the state, so that both halves share one database.
\<close>

section \<open>Codes\<close>

definition knownBadges :: "string list" where
  "knownBadges = [''staff'', ''contributor'', ''tournament_winner'', ''beta_tester'', ''bug_hunter'', ''translator'']"

definition Known :: "string \<Rightarrow> bool" where
  "Known code \<longleftrightarrow> code \<in> set knownBadges"

definition Codes :: "string list" where
  "Codes = sort knownBadges"

section \<open>Tables\<close>

record 'u user_badge =
  ub_ID :: 'u
  ub_UserID :: 'u
  ub_BadgeCode :: string
  ub_GrantedAt :: int
  ub_GrantedBy :: "'u option"
  ub_RevokedAt :: "int option"
  ub_RevokedBy :: "'u option"
  ub_DisplayOrder :: "int option"

record 'u user_link =
  ul_UserID :: 'u
  ul_Kind :: string
  ul_Handle :: string

text \<open>\<open>pd_identity\<close> has the columns \<open>bio\<close> and \<open>keyboard\<close> of an account, \<open>pd_bans\<close> the accounts and their bans.\<close>

record 'u profile_db =
  pd_bans :: "'u ban_db"
  pd_identity :: "'u \<Rightarrow> string option \<times> string option"
  pd_badges :: "'u user_badge list"
  pd_links :: "'u user_link list"

abbreviation pd_accounts :: "'u profile_db \<Rightarrow> 'u auth_db" where
  "pd_accounts db \<equiv> bd_accounts (pd_bans db)"

text \<open>The CHECK \<open>^[a-z][a-z0-9_]{1,39}$\<close> on a code; its characters are bytes.\<close>

definition lower_letter :: "char \<Rightarrow> bool" where
  "lower_letter c \<longleftrightarrow> 97 \<le> byte c \<and> byte c \<le> 122"

definition decimal_digit :: "char \<Rightarrow> bool" where
  "decimal_digit c \<longleftrightarrow> 48 \<le> byte c \<and> byte c \<le> 57"

definition badge_code_check :: "string \<Rightarrow> bool" where
  "badge_code_check code \<longleftrightarrow>
     (case code of
        [] \<Rightarrow> False
      | c # cs \<Rightarrow> lower_letter c \<and> 1 \<le> length cs \<and> length cs \<le> 39 \<and>
          list_all (\<lambda>d. lower_letter d \<or> decimal_digit d \<or> d = CHR ''_'') cs)"

section \<open>Statements\<close>

definition live_grant :: "'u \<Rightarrow> string \<Rightarrow> 'u user_badge \<Rightarrow> bool" where
  "live_grant uid code b \<longleftrightarrow> ub_UserID b = uid \<and> ub_BadgeCode b = code \<and> ub_RevokedAt b = None"

definition update_badges ::
  "('u user_badge \<Rightarrow> bool) \<Rightarrow> ('u user_badge \<Rightarrow> 'u user_badge) \<Rightarrow> 'u profile_db \<Rightarrow> 'u profile_db" where
  "update_badges P f db = db\<lparr>pd_badges := map (\<lambda>b. if P b then f b else b) (pd_badges db)\<rparr>"

text \<open>
  \<open>INSERT ... ON CONFLICT\<close> over the index of live grants: the CHECK first, then the conflict, whose update rewrites
  the row with its own code, then the insert with its key and references. \<open>None\<close> is a failed statement.
\<close>

definition GrantBadge ::
  "'u \<Rightarrow> int \<Rightarrow> 'u \<Rightarrow> string \<Rightarrow> 'u option \<Rightarrow> 'u profile_db \<Rightarrow> ('u user_badge \<times> 'u profile_db) option" where
  "GrantBadge bid now uid code by db =
     (if \<not> badge_code_check code then None
      else case find_first (live_grant uid code) (pd_badges db) of
        Some b \<Rightarrow> Some (b, db)
      | None \<Rightarrow>
          if list_ex (\<lambda>b. ub_ID b = bid) (pd_badges db) then None
          else if \<not> user_exists (pd_accounts db) uid \<or> \<not> fk_ok (pd_accounts db) by then None
          else let b = \<lparr>ub_ID = bid, ub_UserID = uid, ub_BadgeCode = code, ub_GrantedAt = now, ub_GrantedBy = by,
                        ub_RevokedAt = None, ub_RevokedBy = None, ub_DisplayOrder = None\<rparr>
               in Some (b, db\<lparr>pd_badges := pd_badges db @ [b]\<rparr>))"

text \<open>The outer \<open>None\<close> is a failed statement (the reference is checked for the row that changes), the inner one no row.\<close>

definition RevokeBadge ::
  "int \<Rightarrow> 'u \<Rightarrow> string \<Rightarrow> 'u option \<Rightarrow> 'u profile_db \<Rightarrow> ('u user_badge option \<times> 'u profile_db) option" where
  "RevokeBadge now uid code by db =
     (let f = (\<lambda>b. b\<lparr>ub_RevokedAt := Some now, ub_RevokedBy := by\<rparr>)
      in case find_first (live_grant uid code) (pd_badges db) of
           None \<Rightarrow> Some (None, db)
         | Some b \<Rightarrow>
             if \<not> fk_ok (pd_accounts db) by then None
             else Some (Some (f b), update_badges (live_grant uid code) f db))"

definition name_of_user :: "'u auth_db \<Rightarrow> 'u option \<Rightarrow> string option" where
  "name_of_user db ref =
     (case ref of
        None \<Rightarrow> None
      | Some uid \<Rightarrow> map_option u_DisplayName (find_first (\<lambda>u. u_ID u = uid) (ad_users db)))"

text \<open>Newest first; rows of one instant in table order.\<close>

definition ListBadgesOfUser ::
  "'u profile_db \<Rightarrow> 'u \<Rightarrow> ('u user_badge \<times> string option \<times> string option) list" where
  "ListBadgesOfUser db uid =
     map (\<lambda>b. (b, name_of_user (pd_accounts db) (ub_GrantedBy b), name_of_user (pd_accounts db) (ub_RevokedBy b)))
       (sort_key (\<lambda>b. - ub_GrantedAt b) (filter (\<lambda>b. ub_UserID b = uid) (pd_badges db)))"

definition ListHoldersOfBadge :: "'u profile_db \<Rightarrow> string \<Rightarrow> int \<Rightarrow> ('u \<times> string \<times> int) list" where
  "ListHoldersOfBadge db code limit =
     take (nat limit) (concat (map (\<lambda>b. case GetUserByID (pd_accounts db) (ub_UserID b) of
           Inl _ \<Rightarrow> []
         | Inr u \<Rightarrow> [(ub_UserID b, u_DisplayName u, ub_GrantedAt b)])
       (sort_key (\<lambda>b. - ub_GrantedAt b) (filter (\<lambda>b. ub_BadgeCode b = code \<and> ub_RevokedAt b = None) (pd_badges db)))))"

section \<open>The store\<close>

record BadgeGrant =
  bg_Code :: string
  bg_GrantedAt :: int
  bg_GrantedByName :: "string option"
  bg_RevokedAt :: "int option"
  bg_RevokedByName :: "string option"
  bg_Order :: "int option"

definition Granted :: "BadgeGrant \<Rightarrow> bool" where
  "Granted g \<longleftrightarrow> bg_RevokedAt g = None"

datatype grant_error = ErrUnknownBadge | ErrGrantStatement

definition Store_GrantBadge ::
  "'u \<Rightarrow> int \<Rightarrow> 'u \<Rightarrow> string \<Rightarrow> 'u option \<Rightarrow> 'u profile_db \<Rightarrow> (grant_error, BadgeGrant \<times> 'u profile_db) result" where
  "Store_GrantBadge bid now uid code by db =
     (if \<not> Known code then Inl ErrUnknownBadge
      else case GrantBadge bid now uid code by db of
        None \<Rightarrow> Inl ErrGrantStatement
      | Some (b, db') \<Rightarrow>
          Inr (\<lparr>bg_Code = ub_BadgeCode b, bg_GrantedAt = ub_GrantedAt b, bg_GrantedByName = None, bg_RevokedAt = None,
                bg_RevokedByName = None, bg_Order = ub_DisplayOrder b\<rparr>, db'))"

definition GrantBadgeBySystem ::
  "'u \<Rightarrow> int \<Rightarrow> 'u \<Rightarrow> string \<Rightarrow> 'u profile_db \<Rightarrow> (grant_error, BadgeGrant \<times> 'u profile_db) result" where
  "GrantBadgeBySystem bid now uid code db = Store_GrantBadge bid now uid code None db"

definition Store_RevokeBadge ::
  "int \<Rightarrow> 'u \<Rightarrow> string \<Rightarrow> 'u option \<Rightarrow> 'u profile_db \<Rightarrow> (bool \<times> 'u profile_db) option" where
  "Store_RevokeBadge now uid code by db =
     (case RevokeBadge now uid code by db of
        None \<Rightarrow> None
      | Some (None, db') \<Rightarrow> Some (False, db')
      | Some (Some b, db') \<Rightarrow> Some (True, db'))"

definition BadgesOfUser :: "'u profile_db \<Rightarrow> 'u \<Rightarrow> BadgeGrant list" where
  "BadgesOfUser db uid =
     map (\<lambda>(b, granted_by, revoked_by).
         \<lparr>bg_Code = ub_BadgeCode b, bg_GrantedAt = ub_GrantedAt b, bg_GrantedByName = granted_by,
          bg_RevokedAt = ub_RevokedAt b, bg_RevokedByName = revoked_by, bg_Order = ub_DisplayOrder b\<rparr>)
       (ListBadgesOfUser db uid)"

definition HoldersOfBadge :: "'u profile_db \<Rightarrow> string \<Rightarrow> int \<Rightarrow> ('u \<times> string \<times> int) list" where
  "HoldersOfBadge db code limit = ListHoldersOfBadge db code limit"

section \<open>Handlers\<close>

record badgeGrantView =
  gv_Code :: string
  gv_GrantedAt :: int
  gv_GrantedBy :: string
  gv_RevokedAt :: "int option"
  gv_RevokedBy :: string
  gv_Granted :: bool
  gv_Shown :: bool

definition toBadgeGrantView :: "BadgeGrant \<Rightarrow> badgeGrantView" where
  "toBadgeGrantView g =
     \<lparr>gv_Code = bg_Code g, gv_GrantedAt = bg_GrantedAt g,
      gv_GrantedBy = (case bg_GrantedByName g of None \<Rightarrow> [] | Some n \<Rightarrow> n), gv_RevokedAt = bg_RevokedAt g,
      gv_RevokedBy = (case bg_RevokedByName g of None \<Rightarrow> [] | Some n \<Rightarrow> n),
      gv_Granted = Granted g, gv_Shown = (bg_Order g \<noteq> None)\<rparr>"

datatype 'u badge_reply =
    BadgeRefused "'u ban_reply"
  | UserBadges "'u User" "badgeGrantView list" "string list"
  | BadgeHolders string "('u \<times> string \<times> int) list"
  | BadgeGranted "'u User" badgeGrantView
  | BadgeRevoked "'u User" string bool

definition handleUserBadges ::
  "'u uuid_lib \<Rightarrow> (string \<Rightarrow> string) \<Rightarrow> string \<Rightarrow> 'u::linorder profile_db \<Rightarrow> 'u badge_reply" where
  "handleUserBadges L ci identifier db =
     (case resolve L ci (pd_accounts db) identifier of
        Inl r \<Rightarrow> BadgeRefused r
      | Inr u \<Rightarrow> UserBadges u (map toBadgeGrantView (BadgesOfUser db (u_ID u))) Codes)"

definition handleBadgeHolders :: "string \<Rightarrow> string \<Rightarrow> 'u profile_db \<Rightarrow> 'u badge_reply" where
  "handleBadgeHolders code limit db =
     BadgeHolders code (HoldersOfBadge db code (to_int32 (ParseLimit limit 100 500)))"

text \<open>The body decodes to the field \<open>code\<close>, \<open>None\<close> when it is malformed; \<open>bid\<close> and \<open>now\<close> are the new row's.\<close>

definition handleGrantBadge ::
  "'u uuid_lib \<Rightarrow> (string \<Rightarrow> string) \<Rightarrow> 'u \<Rightarrow> int \<Rightarrow> 'u Actor option \<Rightarrow> string \<Rightarrow> string option \<Rightarrow> 'u::linorder profile_db
     \<Rightarrow> 'u badge_reply \<times> 'u profile_db" where
  "handleGrantBadge L ci bid now actor identifier body db =
     (case body of
        None \<Rightarrow> (BadgeRefused (ModError 400 ''bad_request''), db)
      | Some code \<Rightarrow>
          (case resolve L ci (pd_accounts db) identifier of
             Inl r \<Rightarrow> (BadgeRefused r, db)
           | Inr u \<Rightarrow>
               (case actor of
                  None \<Rightarrow> (BadgeRefused ModNotFound, db)
                | Some by \<Rightarrow>
                    (case Store_GrantBadge bid now (u_ID u) code (auditID L by) db of
                       Inl ErrUnknownBadge \<Rightarrow> (BadgeRefused (ModError 400 ''unknown_badge''), db)
                     | Inl ErrGrantStatement \<Rightarrow> (BadgeRefused mod_internal, db)
                     | Inr (grant, db') \<Rightarrow> (BadgeGranted u (toBadgeGrantView grant), db')))))"

definition handleRevokeBadge ::
  "'u uuid_lib \<Rightarrow> (string \<Rightarrow> string) \<Rightarrow> int \<Rightarrow> 'u Actor option \<Rightarrow> string \<Rightarrow> string \<Rightarrow> 'u::linorder profile_db
     \<Rightarrow> 'u badge_reply \<times> 'u profile_db" where
  "handleRevokeBadge L ci now actor identifier code db =
     (case resolve L ci (pd_accounts db) identifier of
        Inl r \<Rightarrow> (BadgeRefused r, db)
      | Inr u \<Rightarrow>
          (case actor of
             None \<Rightarrow> (BadgeRefused ModNotFound, db)
           | Some by \<Rightarrow>
               (case Store_RevokeBadge now (u_ID u) code (auditID L by) db of
                  None \<Rightarrow> (BadgeRefused mod_internal, db)
                | Some (revoked, db') \<Rightarrow> (BadgeRevoked u code revoked, db'))))"

end
