(* ===== verification/Profile.thy ===== *)
theory Profile
  imports Badges Token_Bucket
begin

text \<open>
  Profiles: the owner's edit (\<open>profile/me_profile.go\<close>, \<open>links.go\<close>), its transaction (\<open>profile/pgstore/identity.go\<close>)
  and statements (\<open>profiledb\<close>), the public page with its gates and the search by name (\<open>profile/public.go\<close>).

  A Go map is a list of pairs with distinct keys in the order its loop visits them; both loops over the links of a
  request take the same order. \<open>lo\<close> is Go's case table, \<open>ci\<close> PostgreSQL's \<open>lower\<close>, \<open>ck\<close> a sort key of the database's
  collation. The data routes of the public page are gates around functions that are arguments here.
\<close>

section \<open>Links\<close>

definition ascii_alnum :: "char \<Rightarrow> bool" where
  "ascii_alnum c \<longleftrightarrow> lower_letter c \<or> decimal_digit c \<or> (65 \<le> byte c \<and> byte c \<le> 90)"

text \<open>\<open>^[A-Za-z0-9]([A-Za-z0-9-]{0,37}[A-Za-z0-9])?$\<close>\<close>

definition github_handle :: "string \<Rightarrow> bool" where
  "github_handle h \<longleftrightarrow>
     (case h of
        [] \<Rightarrow> False
      | c # cs \<Rightarrow> ascii_alnum c \<and>
          (cs = [] \<or> (length (butlast cs) \<le> 37 \<and> list_all (\<lambda>d. ascii_alnum d \<or> d = CHR ''-'') (butlast cs) \<and> ascii_alnum (last cs))))"

text \<open>\<open>^[A-Za-z0-9._-]{3,30}$\<close> and \<open>^[A-Za-z0-9_]{4,25}$\<close>\<close>

definition youtube_handle :: "string \<Rightarrow> bool" where
  "youtube_handle h \<longleftrightarrow> 3 \<le> length h \<and> length h \<le> 30 \<and> list_all (\<lambda>d. ascii_alnum d \<or> d \<in> set ''._-'') h"

definition twitch_handle :: "string \<Rightarrow> bool" where
  "twitch_handle h \<longleftrightarrow> 4 \<le> length h \<and> length h \<le> 25 \<and> list_all (\<lambda>d. ascii_alnum d \<or> d = CHR ''_'') h"

definition linkPatterns :: "(string \<times> (string \<Rightarrow> bool)) list" where
  "linkPatterns = [(''github'', github_handle), (''youtube'', youtube_handle), (''twitch'', twitch_handle)]"

definition LinkKinds :: "string list" where
  "LinkKinds = sort (map fst linkPatterns)"

datatype link_error = ErrUnknownLinkKind string | ErrInvalidHandle string

definition ValidateLink :: "string \<Rightarrow> string \<Rightarrow> link_error option" where
  "ValidateLink kind handle =
     (case map_of linkPatterns kind of
        None \<Rightarrow> Some (ErrUnknownLinkKind kind)
      | Some matches \<Rightarrow> if \<not> matches handle then Some (ErrInvalidHandle kind) else None)"

definition knownLinkKind :: "string \<Rightarrow> bool" where
  "knownLinkKind kind \<longleftrightarrow> map_of linkPatterns kind \<noteq> None"

section \<open>Constraints of the schema\<close>

definition text_check :: "nat \<Rightarrow> string option \<Rightarrow> bool" where
  "text_check n t \<longleftrightarrow> (case t of None \<Rightarrow> True | Some s \<Rightarrow> 1 \<le> RuneCountInString s \<and> RuneCountInString s \<le> n)"

definition link_check :: "string \<Rightarrow> string \<Rightarrow> bool" where
  "link_check kind handle \<longleftrightarrow>
     (if kind = ''github'' then github_handle handle
      else if kind = ''youtube'' then youtube_handle handle
      else kind = ''twitch'' \<and> twitch_handle handle)"

section \<open>Statements\<close>

definition GetPublicProfileIdentity :: "'u profile_db \<Rightarrow> 'u \<Rightarrow> (string option \<times> string option) option" where
  "GetPublicProfileIdentity db uid = (if user_exists (pd_accounts db) uid then Some (pd_identity db uid) else None)"

definition UpdateProfileIdentity ::
  "'u \<Rightarrow> string option \<Rightarrow> string option \<Rightarrow> 'u profile_db \<Rightarrow> 'u profile_db option" where
  "UpdateProfileIdentity uid bio keyboard db =
     (if \<not> user_exists (pd_accounts db) uid then Some db
      else if \<not> text_check 250 bio \<or> \<not> text_check 100 keyboard then None
      else Some (db\<lparr>pd_identity := (pd_identity db)(uid := (bio, keyboard))\<rparr>))"

definition link_at :: "'u \<Rightarrow> string \<Rightarrow> 'u user_link \<Rightarrow> bool" where
  "link_at uid kind l \<longleftrightarrow> ul_UserID l = uid \<and> ul_Kind l = kind"

definition DeleteUserLink :: "'u \<Rightarrow> string \<Rightarrow> 'u profile_db \<Rightarrow> 'u profile_db" where
  "DeleteUserLink uid kind db = db\<lparr>pd_links := filter (\<lambda>l. \<not> link_at uid kind l) (pd_links db)\<rparr>"

definition UpsertUserLink :: "'u \<Rightarrow> string \<Rightarrow> string \<Rightarrow> 'u profile_db \<Rightarrow> 'u profile_db option" where
  "UpsertUserLink uid kind handle db =
     (if \<not> link_check kind handle then None
      else if list_ex (link_at uid kind) (pd_links db)
      then Some (db\<lparr>pd_links := map (\<lambda>l. if link_at uid kind l then l\<lparr>ul_Handle := handle\<rparr> else l) (pd_links db)\<rparr>)
      else if \<not> user_exists (pd_accounts db) uid then None
      else Some (db\<lparr>pd_links := pd_links db @ [\<lparr>ul_UserID = uid, ul_Kind = kind, ul_Handle = handle\<rparr>]\<rparr>))"

definition ListUserLinks :: "(string \<Rightarrow> string) \<Rightarrow> 'u profile_db \<Rightarrow> 'u \<Rightarrow> (string \<times> string) list" where
  "ListUserLinks ck db uid =
     map (\<lambda>l. (ul_Kind l, ul_Handle l)) (sort_key (\<lambda>l. ck (ul_Kind l)) (filter (\<lambda>l. ul_UserID l = uid) (pd_links db)))"

definition held_by :: "'u \<Rightarrow> 'u user_badge \<Rightarrow> bool" where
  "held_by uid b \<longleftrightarrow> ub_UserID b = uid \<and> ub_RevokedAt b = None"

definition ClearBadgeShowcase :: "'u \<Rightarrow> 'u profile_db \<Rightarrow> 'u profile_db" where
  "ClearBadgeShowcase uid db = update_badges (held_by uid) (\<lambda>b. b\<lparr>ub_DisplayOrder := None\<rparr>) db"

definition PlaceBadgeInShowcase :: "nat \<Rightarrow> 'u \<Rightarrow> string \<Rightarrow> 'u profile_db \<Rightarrow> 'u profile_db" where
  "PlaceBadgeInShowcase order uid code db =
     update_badges (live_grant uid code) (\<lambda>b. b\<lparr>ub_DisplayOrder := Some (int order)\<rparr>) db"

definition ListGrantedBadges :: "(string \<Rightarrow> string) \<Rightarrow> 'u profile_db \<Rightarrow> 'u \<Rightarrow> 'u user_badge list" where
  "ListGrantedBadges ck db uid =
     sort_key (\<lambda>b. (ub_GrantedAt b, ck (ub_BadgeCode b))) (filter (held_by uid) (pd_badges db))"

definition shown_by :: "'u \<Rightarrow> 'u user_badge \<Rightarrow> bool" where
  "shown_by uid b \<longleftrightarrow> held_by uid b \<and> ub_DisplayOrder b \<noteq> None"

definition ListShowcaseBadges :: "(string \<Rightarrow> string) \<Rightarrow> 'u profile_db \<Rightarrow> 'u \<Rightarrow> 'u user_badge list" where
  "ListShowcaseBadges ck db uid =
     sort_key (\<lambda>b. (the (ub_DisplayOrder b), ck (ub_BadgeCode b))) (filter (shown_by uid) (pd_badges db))"

section \<open>The owner's edit: the store\<close>

record Patch =
  pa_Bio :: "string option"
  pa_SetBio :: bool
  pa_Keyboard :: "string option"
  pa_SetKeyboard :: bool
  pa_Links :: "(string \<times> string) list"
  pa_Showcase :: "string list option"

definition Store_Identity :: "'u profile_db \<Rightarrow> 'u \<Rightarrow> string option \<times> string option" where
  "Store_Identity db uid = (case GetPublicProfileIdentity db uid of None \<Rightarrow> (None, None) | Some row \<Rightarrow> row)"

definition ShowcaseBadges :: "(string \<Rightarrow> string) \<Rightarrow> 'u profile_db \<Rightarrow> 'u \<Rightarrow> string list" where
  "ShowcaseBadges ck db uid = map ub_BadgeCode (ListShowcaseBadges ck db uid)"

definition GrantedBadges :: "(string \<Rightarrow> string) \<Rightarrow> 'u profile_db \<Rightarrow> 'u \<Rightarrow> (string \<times> int option) list" where
  "GrantedBadges ck db uid = map (\<lambda>b. (ub_BadgeCode b, ub_DisplayOrder b)) (ListGrantedBadges ck db uid)"

text \<open>The pair of columns to write, resolved against the row \<open>current\<close> that the transaction read.\<close>

definition resolve_identity :: "Patch \<Rightarrow> string option \<times> string option \<Rightarrow> string option \<times> string option" where
  "resolve_identity patch current =
     (if pa_SetBio patch then pa_Bio patch else fst current,
      if pa_SetKeyboard patch then pa_Keyboard patch else snd current)"

definition write_identity ::
  "string option \<times> string option \<Rightarrow> 'u \<Rightarrow> Patch \<Rightarrow> 'u profile_db \<Rightarrow> 'u profile_db option" where
  "write_identity current uid patch db =
     (if pa_SetBio patch \<or> pa_SetKeyboard patch
      then let (bio, keyboard) = resolve_identity patch current in UpdateProfileIdentity uid bio keyboard db
      else Some db)"

fun write_links :: "'u \<Rightarrow> (string \<times> string) list \<Rightarrow> 'u profile_db \<Rightarrow> 'u profile_db option" where
  "write_links uid [] db = Some db"
| "write_links uid ((kind, handle) # links) db =
     (if handle = [] then write_links uid links (DeleteUserLink uid kind db)
      else case UpsertUserLink uid kind handle db of
        None \<Rightarrow> None
      | Some db' \<Rightarrow> write_links uid links db')"

fun place_badges :: "'u \<Rightarrow> nat \<Rightarrow> string list \<Rightarrow> 'u profile_db \<Rightarrow> 'u profile_db" where
  "place_badges uid i [] db = db"
| "place_badges uid i (code # codes) db = place_badges uid (Suc i) codes (PlaceBadgeInShowcase i uid code db)"

definition write_showcase :: "'u \<Rightarrow> string list option \<Rightarrow> 'u profile_db \<Rightarrow> 'u profile_db" where
  "write_showcase uid showcase db =
     (case showcase of None \<Rightarrow> db | Some codes \<Rightarrow> place_badges uid 0 codes (ClearBadgeShowcase uid db))"

text \<open>
  The statements after the read of \<open>current\<close>. They run in one transaction at the default isolation level, in which the
  read neither locks the row nor fixes what the statements after it see; \<open>None\<close> is a rollback.
\<close>

definition apply_patch ::
  "string option \<times> string option \<Rightarrow> 'u \<Rightarrow> Patch \<Rightarrow> 'u profile_db \<Rightarrow> 'u profile_db option" where
  "apply_patch current uid patch db =
     (case write_identity current uid patch db of
        None \<Rightarrow> None
      | Some db1 \<Rightarrow>
          (case write_links uid (pa_Links patch) db1 of
             None \<Rightarrow> None
           | Some db2 \<Rightarrow> Some (write_showcase uid (pa_Showcase patch) db2)))"

definition ApplyProfilePatch :: "'u \<Rightarrow> Patch \<Rightarrow> 'u profile_db \<Rightarrow> 'u profile_db option" where
  "ApplyProfilePatch uid patch db = apply_patch (Store_Identity db uid) uid patch db"

section \<open>The owner's edit: the handler\<close>

definition bioMaxLen :: nat where "bioMaxLen = 250"
definition keyboardMaxLen :: nat where "keyboardMaxLen = 100"
definition showcaseMaxLen :: nat where "showcaseMaxLen = 16"

datatype bad_request =
    InvalidBody | NoFields | TooLong string | UnknownKind string | InvalidLink link_error
  | TooManyBadges | NotYours | ShownTwice | QueryLength | InvalidCursor

datatype profile_error =
    ProfileUnauthorized | ProfileBadRequest bad_request | ProfileInternal | ProfileNotFound | ProfileClosed
  | PortraitClosed | ProfileRateLimited

fun profile_error_status :: "profile_error \<Rightarrow> nat" where
  "profile_error_status ProfileUnauthorized = 401"
| "profile_error_status (ProfileBadRequest _) = 400"
| "profile_error_status ProfileInternal = 500"
| "profile_error_status ProfileNotFound = 404"
| "profile_error_status ProfileClosed = 403"
| "profile_error_status PortraitClosed = 403"
| "profile_error_status ProfileRateLimited = 429"

text \<open>\<open>strings.Map\<close> drops the control characters except newline and tab.\<close>

definition kept_rune :: "rune \<Rightarrow> bool" where
  "kept_rune r \<longleftrightarrow> r = 10 \<or> r = 9 \<or> \<not> (r < 32 \<or> r = 127)"

definition strip_controls :: "string \<Rightarrow> string" where
  "strip_controls s = concat (map snd (filter (\<lambda>(r, _). kept_rune r) (rune_segments s)))"

definition normalizeText :: "string \<Rightarrow> nat \<Rightarrow> string \<Rightarrow> (profile_error, string option) result" where
  "normalizeText raw maxLen field =
     (let v = TrimSpace raw
      in if v = [] then Inr None
         else if RuneCountInString v > maxLen then Inl (ProfileBadRequest (TooLong field))
         else let cleaned = TrimSpace (strip_controls v)
              in if cleaned = [] then Inr None else Inr (Some cleaned))"

fun check_links :: "(string \<times> string) list \<Rightarrow> (profile_error, (string \<times> string) list) result" where
  "check_links [] = Inr []"
| "check_links ((kind, raw) # links) =
     (let handle = TrimSpace raw
      in if handle = [] \<and> \<not> knownLinkKind kind then Inl (ProfileBadRequest (UnknownKind kind))
         else case (if handle = [] then None else ValidateLink kind handle) of
           Some e \<Rightarrow> Inl (ProfileBadRequest (InvalidLink e))
         | None \<Rightarrow> (case check_links links of Inl e \<Rightarrow> Inl e | Inr rest \<Rightarrow> Inr ((kind, handle) # rest)))"

fun check_codes :: "string set \<Rightarrow> string set \<Rightarrow> string list \<Rightarrow> profile_error option" where
  "check_codes held seen [] = None"
| "check_codes held seen (code # codes) =
     (if code \<notin> held then Some (ProfileBadRequest NotYours)
      else if code \<in> seen then Some (ProfileBadRequest ShownTwice)
      else check_codes held (insert code seen) codes)"

definition check_showcase ::
  "(string \<Rightarrow> string) \<Rightarrow> 'u profile_db \<Rightarrow> 'u \<Rightarrow> string list \<Rightarrow> (profile_error, string list) result" where
  "check_showcase ck db uid codes =
     (if length codes > showcaseMaxLen then Inl (ProfileBadRequest TooManyBadges)
      else case check_codes (fst ` set (GrantedBadges ck db uid)) {} codes of
        Some e \<Rightarrow> Inl e
      | None \<Rightarrow> Inr codes)"

record profilePatchRequest =
  pq_Bio :: "string option"
  pq_Keyboard :: "string option"
  pq_Links :: "(string \<times> string) list option"
  pq_Showcase :: "string list option"

text \<open>A field the request does not mention passes.\<close>

definition when_set :: "'a option \<Rightarrow> ('a \<Rightarrow> (profile_error, 'b) result) \<Rightarrow> (profile_error, 'b option) result" where
  "when_set x f = (case x of None \<Rightarrow> Inr None | Some v \<Rightarrow> (case f v of Inl e \<Rightarrow> Inl e | Inr y \<Rightarrow> Inr (Some y)))"

definition patch_of_request ::
  "(string \<Rightarrow> string) \<Rightarrow> 'u profile_db \<Rightarrow> 'u \<Rightarrow> profilePatchRequest \<Rightarrow> (profile_error, Patch) result" where
  "patch_of_request ck db uid req =
     (case when_set (pq_Bio req) (\<lambda>b. normalizeText b bioMaxLen ''bio'') of
        Inl e \<Rightarrow> Inl e
      | Inr bio \<Rightarrow>
     (case when_set (pq_Keyboard req) (\<lambda>k. normalizeText k keyboardMaxLen ''keyboard'') of
        Inl e \<Rightarrow> Inl e
      | Inr keyboard \<Rightarrow>
     (case when_set (pq_Links req) check_links of
        Inl e \<Rightarrow> Inl e
      | Inr links \<Rightarrow>
     (case when_set (pq_Showcase req) (check_showcase ck db uid) of
        Inl e \<Rightarrow> Inl e
      | Inr showcase \<Rightarrow>
          Inr \<lparr>pa_Bio = (case bio of None \<Rightarrow> None | Some b \<Rightarrow> b), pa_SetBio = (bio \<noteq> None),
               pa_Keyboard = (case keyboard of None \<Rightarrow> None | Some k \<Rightarrow> k), pa_SetKeyboard = (keyboard \<noteq> None),
               pa_Links = (case links of None \<Rightarrow> [] | Some ls \<Rightarrow> ls), pa_Showcase = showcase\<rparr>))))"

record ownIdentityView =
  oi_Bio :: "string option"
  oi_Keyboard :: "string option"
  oi_Links :: "(string \<times> string) list"
  oi_Badges :: "(string \<times> bool \<times> int option) list"
  oi_KnownBadges :: "string list"

record 'u headerView =
  hv_ID :: 'u
  hv_Name :: string
  hv_Joined :: int
  hv_Public :: bool
  hv_Restricted :: bool
  hv_Bio :: "string option"
  hv_Keyboard :: "string option"
  hv_Links :: "(string \<times> string) list"
  hv_Badges :: "string list"

record searchHit =
  sh_Name :: string
  sh_Joined :: int
  sh_Public :: bool

datatype 'u profile_reply =
    ProfileError profile_error
  | OwnProfile ownIdentityView
  | Header "'u headerView"
  | Hits "searchHit list"

definition serveOwnProfileIdentity :: "(string \<Rightarrow> string) \<Rightarrow> 'u profile_db \<Rightarrow> 'u \<Rightarrow> 'u profile_reply" where
  "serveOwnProfileIdentity ck db uid =
     OwnProfile \<lparr>oi_Bio = fst (Store_Identity db uid), oi_Keyboard = snd (Store_Identity db uid),
       oi_Links = ListUserLinks ck db uid,
       oi_Badges = map (\<lambda>(code, order). (code, order \<noteq> None, order)) (GrantedBadges ck db uid),
       oi_KnownBadges = Codes\<rparr>"

text \<open>The body is \<open>None\<close> when it does not decode; the caller is the account of the session.\<close>

definition HandleUpdateProfile ::
  "(string \<Rightarrow> string) \<Rightarrow> 'u option \<Rightarrow> profilePatchRequest option \<Rightarrow> 'u profile_db \<Rightarrow> 'u profile_reply \<times> 'u profile_db" where
  "HandleUpdateProfile ck caller body db =
     (case caller of
        None \<Rightarrow> (ProfileError ProfileUnauthorized, db)
      | Some uid \<Rightarrow>
     (case body of
        None \<Rightarrow> (ProfileError (ProfileBadRequest InvalidBody), db)
      | Some req \<Rightarrow>
          if pq_Bio req = None \<and> pq_Keyboard req = None \<and> pq_Links req = None \<and> pq_Showcase req = None
          then (ProfileError (ProfileBadRequest NoFields), db)
          else case patch_of_request ck db uid req of
            Inl e \<Rightarrow> (ProfileError e, db)
          | Inr patch \<Rightarrow>
              (case ApplyProfilePatch uid patch db of
                 None \<Rightarrow> (ProfileError ProfileInternal, db)
               | Some db' \<Rightarrow> (serveOwnProfileIdentity ck db' uid, db'))))"

definition HandleOwnProfile :: "(string \<Rightarrow> string) \<Rightarrow> 'u option \<Rightarrow> 'u profile_db \<Rightarrow> 'u profile_reply" where
  "HandleOwnProfile ck caller db =
     (case caller of None \<Rightarrow> ProfileError ProfileUnauthorized | Some uid \<Rightarrow> serveOwnProfileIdentity ck db uid)"

section \<open>The public page\<close>

definition GetPublicProfileUser :: "(string \<Rightarrow> string) \<Rightarrow> 'u profile_db \<Rightarrow> string \<Rightarrow> 'u User option" where
  "GetPublicProfileUser ci db name = find_first (\<lambda>u. ci (u_DisplayName u) = ci name) (ad_users (pd_accounts db))"

definition resolvePublicUser :: "(string \<Rightarrow> string) \<Rightarrow> 'u profile_db \<Rightarrow> string \<Rightarrow> (profile_error, 'u User) result" where
  "resolvePublicUser ci db name =
     (case GetPublicProfileUser ci db name of None \<Rightarrow> Inl ProfileNotFound | Some u \<Rightarrow> Inr u)"

definition isOwner :: "'u option \<Rightarrow> 'u User \<Rightarrow> bool" where
  "isOwner caller u \<longleftrightarrow> caller = Some (u_ID u)"

definition decorateHeader :: "(string \<Rightarrow> string) \<Rightarrow> 'u profile_db \<Rightarrow> 'u \<Rightarrow> 'u headerView \<Rightarrow> 'u headerView" where
  "decorateHeader ck db uid view =
     view\<lparr>hv_Bio := fst (Store_Identity db uid), hv_Keyboard := snd (Store_Identity db uid),
          hv_Links := hv_Links view @ ListUserLinks ck db uid, hv_Badges := hv_Badges view @ ShowcaseBadges ck db uid\<rparr>"

text \<open>The server always wires the lookup of restrictions, so the mark is the view \<open>active_bans\<close> at the instant \<open>now\<close>.\<close>

definition handlePublicHeader ::
  "(string \<Rightarrow> string) \<Rightarrow> (string \<Rightarrow> string) \<Rightarrow> int \<Rightarrow> 'u option \<Rightarrow> string \<Rightarrow> 'u profile_db \<Rightarrow> 'u profile_reply" where
  "handlePublicHeader ci ck now caller name db =
     (case resolvePublicUser ci db name of
        Inl e \<Rightarrow> ProfileError e
      | Inr u \<Rightarrow>
          let view = \<lparr>hv_ID = u_ID u, hv_Name = u_DisplayName u, hv_Joined = u_CreatedAt u, hv_Public = u_ProfilePublic u,
                      hv_Restricted = IsRestricted now (bd_bans (pd_bans db)) (u_ID u), hv_Bio = None, hv_Keyboard = None,
                      hv_Links = [], hv_Badges = []\<rparr>
          in Header (if u_ProfilePublic u \<or> isOwner caller u then decorateHeader ck db (u_ID u) view else view))"

text \<open>The gate of the data routes around the function that serves one of them; \<open>Inl\<close> is an error reply.\<close>

definition publicData ::
  "(string \<Rightarrow> string) \<Rightarrow> ('u \<Rightarrow> 'v) \<Rightarrow> 'u option \<Rightarrow> string \<Rightarrow> 'u profile_db \<Rightarrow> (profile_error, 'v) result" where
  "publicData ci serve caller name db =
     (case resolvePublicUser ci db name of
        Inl e \<Rightarrow> Inl e
      | Inr u \<Rightarrow>
          if \<not> u_ProfilePublic u \<and> \<not> isOwner caller u then Inl ProfileClosed else Inr (serve (u_ID u)))"

text \<open>\<open>entries\<close> are the account's rows of \<open>leaderboard_entries\<close>; the statement hides them while a ban is in force.\<close>

definition handlePublicPBs ::
  "(string \<Rightarrow> string) \<Rightarrow> int \<Rightarrow> ('u \<Rightarrow> 'e list) \<Rightarrow> ('e list \<Rightarrow> 'v) \<Rightarrow> 'u option \<Rightarrow> string \<Rightarrow> 'u profile_db \<Rightarrow> (profile_error, 'v) result" where
  "handlePublicPBs ci now entries servePBs caller name db =
     (case resolvePublicUser ci db name of
        Inl e \<Rightarrow> Inl e
      | Inr u \<Rightarrow>
          if \<not> u_ProfilePublic u \<and> \<not> isOwner caller u then Inl ProfileClosed
          else Inr (servePBs (if IsRestricted now (bd_bans (pd_bans db)) (u_ID u) then [] else entries (u_ID u))))"

definition handlePublicPortrait ::
  "(string \<Rightarrow> string) \<Rightarrow> ('u \<Rightarrow> 'v) \<Rightarrow> 'u option \<Rightarrow> string \<Rightarrow> 'u profile_db \<Rightarrow> (profile_error, 'v) result" where
  "handlePublicPortrait ci serveKeyboard caller name db =
     (case resolvePublicUser ci db name of
        Inl e \<Rightarrow> Inl e
      | Inr u \<Rightarrow>
          if \<not> isOwner caller u \<and> \<not> u_ProfilePublic u then Inl ProfileClosed
          else if \<not> isOwner caller u \<and> \<not> u_KeyboardPublic u then Inl PortraitClosed
          else Inr (serveKeyboard (u_ID u)))"

section \<open>Search\<close>

text \<open>
  \<open>LIKE\<close>, over the bytes of names, which are ASCII: a percent sign matches any run, an underscore any one character, a
  backslash makes the next character literal, and a pattern that ends in a backslash is an error.
\<close>

datatype like_token = AnyRun | AnyOne | Literal char

fun like_parse :: "string \<Rightarrow> like_token list option" where
  "like_parse [] = Some []"
| "like_parse (c # cs) =
     (if c = CHR 0x5C then (case cs of [] \<Rightarrow> None | d # ds \<Rightarrow> map_option ((#) (Literal d)) (like_parse ds))
      else if c = CHR ''%'' then map_option ((#) AnyRun) (like_parse cs)
      else if c = CHR ''_'' then map_option ((#) AnyOne) (like_parse cs)
      else map_option ((#) (Literal c)) (like_parse cs))"

fun like_match :: "like_token list \<Rightarrow> string \<Rightarrow> bool" where
  "like_match [] s \<longleftrightarrow> s = []"
| "like_match (Literal c # p) s \<longleftrightarrow> (case s of [] \<Rightarrow> False | d # t \<Rightarrow> c = d \<and> like_match p t)"
| "like_match (AnyOne # p) s \<longleftrightarrow> (case s of [] \<Rightarrow> False | d # t \<Rightarrow> like_match p t)"
| "like_match (AnyRun # p) s \<longleftrightarrow> like_match p s \<or> (case s of [] \<Rightarrow> False | d # t \<Rightarrow> like_match (AnyRun # p) t)"

definition likeEscaper :: "string \<Rightarrow> string" where
  "likeEscaper s = concat (map (\<lambda>c. if c = CHR 0x5C \<or> c = CHR ''%'' \<or> c = CHR ''_'' then [CHR 0x5C, c] else [c]) s)"

text \<open>Exact match first, then prefix, then shortest, then by name; names compare case-insensitively.\<close>

definition SearchUsersByName ::
  "(string \<Rightarrow> string) \<Rightarrow> (string \<Rightarrow> string) \<Rightarrow> int \<Rightarrow> string \<Rightarrow> string \<Rightarrow> int \<Rightarrow> 'u profile_db \<Rightarrow> 'u User list option" where
  "SearchUsersByName ci ck now pattern needle n db =
     (case like_parse (''%'' @ pattern @ ''%'') of
        None \<Rightarrow> None
      | Some inside \<Rightarrow>
     (case like_parse (pattern @ ''%'') of
        None \<Rightarrow> None
      | Some front \<Rightarrow>
          Some (take (nat n) (sort_key
            (\<lambda>u. (ci (u_DisplayName u) \<noteq> needle, \<not> like_match front (ci (u_DisplayName u)), length (u_DisplayName u),
                  ck (ci (u_DisplayName u))))
            (filter (\<lambda>u. like_match inside (ci (u_DisplayName u)) \<and> \<not> IsRestricted now (bd_bans (pd_bans db)) (u_ID u))
              (ad_users (pd_accounts db)))))))"

definition SearchUsers ::
  "(rune \<Rightarrow> rune) \<Rightarrow> (string \<Rightarrow> string) \<Rightarrow> (string \<Rightarrow> string) \<Rightarrow> int \<Rightarrow> string \<Rightarrow> int \<Rightarrow> 'u profile_db \<Rightarrow> 'u User list option" where
  "SearchUsers lo ci ck now name limit db =
     (let needle = ToLower lo name in SearchUsersByName ci ck now (likeEscaper needle) needle limit db)"

definition searchMinQueryLen :: nat where "searchMinQueryLen = 3"
definition searchMaxQueryLen :: nat where "searchMaxQueryLen = 20"
definition searchDefaultLimit :: int where "searchDefaultLimit = 20"
definition searchMaxLimit :: int where "searchMaxLimit = 50"

definition handleSearch ::
  "(rune \<Rightarrow> rune) \<Rightarrow> (string \<Rightarrow> string) \<Rightarrow> (string \<Rightarrow> string) \<Rightarrow> int \<Rightarrow> string \<Rightarrow> string \<Rightarrow> 'u profile_db \<Rightarrow> 'u profile_reply" where
  "handleSearch lo ci ck now rawQ rawLimit db =
     (let q = TrimSpace rawQ; n = RuneCountInString q
      in if n < searchMinQueryLen \<or> n > searchMaxQueryLen then ProfileError (ProfileBadRequest QueryLength)
         else case SearchUsers lo ci ck now q (to_int32 (ParseLimit rawLimit searchDefaultLimit searchMaxLimit)) db of
           None \<Rightarrow> ProfileError ProfileInternal
         | Some us \<Rightarrow>
             Hits (map (\<lambda>u. \<lparr>sh_Name = u_DisplayName u, sh_Joined = u_CreatedAt u, sh_Public = u_ProfilePublic u\<rparr>) us))"

text \<open>\<open>clock\<close> is the limiter's clock, \<open>now\<close> the database's.\<close>

definition rateLimitSearch ::
  "string \<Rightarrow> int \<Rightarrow> 'u profile_reply \<Rightarrow> limiter \<Rightarrow> 'u profile_reply \<times> limiter" where
  "rateLimitSearch ip clock next l =
     (case limiter_allow l ip clock of
        (l', allowed) \<Rightarrow> (if allowed then next else ProfileError ProfileRateLimited, l'))"

end
