(* ===== verification/Profile_Invariant.thy ===== *)
theory Profile_Invariant
  imports Profile
begin

text \<open>
  The tables of badges, links and profile texts under any history of edits, grants, revocations and of what happens to
  accounts elsewhere: the invariant, and declarative descriptions of the writes of an edit.
\<close>

section \<open>The invariant\<close>

definition live :: "'u user_badge \<Rightarrow> bool" where
  "live b \<longleftrightarrow> ub_RevokedAt b = None"

definition badge_row_ok :: "'u auth_db \<Rightarrow> 'u user_badge \<Rightarrow> bool" where
  "badge_row_ok accounts b \<longleftrightarrow>
     badge_code_check (ub_BadgeCode b) \<and> user_exists accounts (ub_UserID b) \<and>
     (ub_RevokedBy b \<noteq> None \<longrightarrow> ub_RevokedAt b \<noteq> None) \<and>
     (case ub_DisplayOrder b of None \<Rightarrow> True | Some k \<Rightarrow> 0 \<le> k \<and> k < int showcaseMaxLen)"

text \<open>One live grant per account and code, and no two live badges of an account at one position.\<close>

definition badges_ok :: "'u user_badge list \<Rightarrow> bool" where
  "badges_ok bs \<longleftrightarrow>
     distinct (map ub_ID bs) \<and>
     distinct (map (\<lambda>b. (ub_UserID b, ub_BadgeCode b)) (filter live bs)) \<and>
     distinct (map (\<lambda>b. (ub_UserID b, ub_DisplayOrder b)) (filter (\<lambda>b. live b \<and> ub_DisplayOrder b \<noteq> None) bs))"

definition links_ok :: "'u auth_db \<Rightarrow> 'u user_link list \<Rightarrow> bool" where
  "links_ok accounts ls \<longleftrightarrow>
     distinct (map (\<lambda>l. (ul_UserID l, ul_Kind l)) ls) \<and>
     (\<forall>l \<in> set ls. link_check (ul_Kind l) (ul_Handle l) \<and> user_exists accounts (ul_UserID l))"

definition profile_ok :: "'u profile_db \<Rightarrow> bool" where
  "profile_ok db \<longleftrightarrow>
     badges_ok (pd_badges db) \<and> (\<forall>b \<in> set (pd_badges db). badge_row_ok (pd_accounts db) b) \<and>
     links_ok (pd_accounts db) (pd_links db) \<and>
     (\<forall>uid. text_check bioMaxLen (fst (pd_identity db uid)) \<and> text_check keyboardMaxLen (snd (pd_identity db uid)))"

section \<open>The showcase\<close>

text \<open>What clearing and placing do to a row together.\<close>

definition arranged :: "'u \<Rightarrow> string list \<Rightarrow> 'u user_badge \<Rightarrow> 'u user_badge" where
  "arranged uid codes b =
     (if held_by uid b then b\<lparr>ub_DisplayOrder := map_option int (find_index (ub_BadgeCode b) codes)\<rparr> else b)"

lemma find_index_Some_iff:
  assumes "distinct xs"
  shows "find_index x xs = Some k \<longleftrightarrow> k < length xs \<and> xs ! k = x"
  using assms
proof (induction xs arbitrary: k)
  case (Cons y ys)
  show ?case
  proof (cases "y = x")
    case True
    then have "x \<notin> set ys" using Cons.prems by simp
    then have "ys ! m \<noteq> x" if "m < length ys" for m using that by auto
    with True show ?thesis by (cases k) auto
  next
    case False
    then have "find_index x (y # ys) = Some k \<longleftrightarrow> (\<exists>m. k = Suc m \<and> find_index x ys = Some m)" by auto
    then show ?thesis using Cons False by (cases k) simp_all
  qed
qed simp

lemma find_index_None_iff: "find_index x xs = None \<longleftrightarrow> x \<notin> set xs"
  by (induction xs) (auto split: option.splits)

lemma place_badges_rows:
  assumes "distinct codes"
  shows "pd_badges (place_badges uid i codes db) =
    map (\<lambda>b. if held_by uid b
             then (case find_index (ub_BadgeCode b) codes of None \<Rightarrow> b | Some k \<Rightarrow> b\<lparr>ub_DisplayOrder := Some (int (i + k))\<rparr>)
             else b) (pd_badges db)"
  using assms
proof (induction codes arbitrary: i db)
  case Nil
  then show ?case by (simp add: map_idI)
next
  case (Cons code codes)
  have "find_index code codes = None" using Cons.prems by (simp add: find_index_None_iff)
  then show ?case
    using Cons by (auto simp: PlaceBadgeInShowcase_def update_badges_def live_grant_def held_by_def split: option.splits)
qed

lemma write_showcase_rows:
  assumes "distinct codes"
  shows "pd_badges (write_showcase uid (Some codes) db) = map (arranged uid codes) (pd_badges db)"
  by (auto simp: write_showcase_def place_badges_rows [OF assms] ClearBadgeShowcase_def update_badges_def arranged_def
      held_by_def split: option.splits)

lemma place_badges_same [simp]:
  "pd_bans (place_badges uid i codes db) = pd_bans db" "pd_identity (place_badges uid i codes db) = pd_identity db"
  "pd_links (place_badges uid i codes db) = pd_links db"
  by (induction codes arbitrary: i db) (simp_all add: PlaceBadgeInShowcase_def update_badges_def)

lemma write_showcase_same [simp]:
  "pd_bans (write_showcase uid sc db) = pd_bans db" "pd_identity (write_showcase uid sc db) = pd_identity db"
  "pd_links (write_showcase uid sc db) = pd_links db"
  by (auto simp: write_showcase_def ClearBadgeShowcase_def update_badges_def split: option.split)

lemma arranged_simps [simp]:
  "ub_ID (arranged uid codes b) = ub_ID b" "ub_UserID (arranged uid codes b) = ub_UserID b"
  "ub_BadgeCode (arranged uid codes b) = ub_BadgeCode b" "ub_RevokedAt (arranged uid codes b) = ub_RevokedAt b"
  "ub_RevokedBy (arranged uid codes b) = ub_RevokedBy b" "ub_GrantedAt (arranged uid codes b) = ub_GrantedAt b"
  "live (arranged uid codes b) = live b" "held_by u (arranged uid codes b) = held_by u b"
  by (simp_all add: arranged_def live_def held_by_def)

lemma check_codes_ok:
  assumes "check_codes held seen codes = None"
  shows "distinct codes \<and> set codes \<subseteq> held \<and> set codes \<inter> seen = {}"
  using assms by (induction codes arbitrary: seen) (auto split: if_splits)

lemma check_showcase_ok:
  assumes "check_showcase ck db uid codes = Inr codes'"
  shows "codes' = codes \<and> distinct codes \<and> length codes \<le> showcaseMaxLen \<and>
    set codes \<subseteq> ub_BadgeCode ` {b \<in> set (pd_badges db). held_by uid b}"
proof -
  have none: "check_codes (fst ` set (GrantedBadges ck db uid)) {} codes = None" and "codes' = codes" "length codes \<le> showcaseMaxLen"
    using assms by (auto simp: check_showcase_def split: if_splits option.splits)
  moreover have "fst ` set (GrantedBadges ck db uid) = ub_BadgeCode ` {b \<in> set (pd_badges db). held_by uid b}"
    by (auto simp: GrantedBadges_def ListGrantedBadges_def image_image)
  ultimately show ?thesis using check_codes_ok [OF none] by simp
qed

lemma badges_ok_arranged:
  assumes "badges_ok bs" and "distinct codes"
  shows "badges_ok (map (arranged uid codes) bs)"
proof -
  let ?shown = "\<lambda>b. live b \<and> ub_DisplayOrder b \<noteq> None"
  let ?live = "filter live bs"
  have codes: "inj_on (\<lambda>b. (ub_UserID b, ub_BadgeCode b)) (set ?live)" and "distinct ?live"
    using assms(1) by (auto simp: badges_ok_def distinct_map)
  have orders: "inj_on (\<lambda>b. (ub_UserID b, ub_DisplayOrder b)) (set (filter ?shown bs))"
    using assms(1) by (auto simp: badges_ok_def distinct_map)
  have "inj_on ((\<lambda>b. (ub_UserID b, ub_DisplayOrder b)) \<circ> arranged uid codes) {b \<in> set bs. ?shown (arranged uid codes b)}"
  proof (rule inj_onI)
    fix a b assume a: "a \<in> {b \<in> set bs. ?shown (arranged uid codes b)}" and b: "b \<in> {b \<in> set bs. ?shown (arranged uid codes b)}"
      and eq: "((\<lambda>b. (ub_UserID b, ub_DisplayOrder b)) \<circ> arranged uid codes) a = ((\<lambda>b. (ub_UserID b, ub_DisplayOrder b)) \<circ> arranged uid codes) b"
    have user: "ub_UserID a = ub_UserID b" using eq by simp
    show "a = b"
    proof (cases "ub_UserID a = uid")
      case True
      then have held: "held_by uid a" "held_by uid b" using a b user by (auto simp: held_by_def live_def)
      then have "find_index (ub_BadgeCode a) codes = find_index (ub_BadgeCode b) codes"
        and "find_index (ub_BadgeCode a) codes \<noteq> None"
        using eq a by (auto simp: arranged_def map_option_case split: option.splits)
      then have "ub_BadgeCode a = ub_BadgeCode b" using find_index_Some_iff [OF assms(2)] by (metis not_None_eq)
      then show ?thesis using inj_onD [OF codes] a b user by simp
    next
      case False
      then have "arranged uid codes a = a" "arranged uid codes b = b" using user by (auto simp: arranged_def held_by_def)
      then show ?thesis using inj_onD [OF orders] a b eq by simp
    qed
  qed
  moreover have "distinct (filter (\<lambda>b. ?shown (arranged uid codes b)) bs)"
    using assms(1) by (auto simp: badges_ok_def distinct_map)
  ultimately show ?thesis
    using assms(1) by (simp add: badges_ok_def filter_map comp_def distinct_map)
qed

section \<open>Texts\<close>

text \<open>A string decoded from JSON is well-formed UTF-8: it is the encoding of its runes.\<close>

definition utf8 :: "string \<Rightarrow> bool" where
  "utf8 s \<longleftrightarrow> encode_runes (runes s) = s"

lemma utf8_segments: "utf8 s \<Longrightarrow> rune_segments s = map (\<lambda>r. (r, encode_rune r)) (runes s)"
  using rune_segments_encode_runes [of "runes s"] runes_scalar [of _ s] by (auto simp: utf8_def)

lemma runes_of_encoding: "set rs \<subseteq> set (runes s) \<Longrightarrow> runes (encode_runes rs) = rs"
  using runes_scalar [of _ s] by (intro runes_encode_runes) auto

lemma trim_by_map: "trim_by P (map f xs) = map f (trim_by (P \<circ> f) xs)"
  by (simp add: trim_by_def dropWhile_map rev_map)

lemma trim_by_sub: "set (trim_by P xs) \<subseteq> set xs" "length (trim_by P xs) \<le> length xs"
proof -
  have "length (trim_by P xs) \<le> length (dropWhile P xs)"
    using length_dropWhile_le [of P "rev (dropWhile P xs)"] by (simp add: trim_by_def)
  also have "\<dots> \<le> length xs" by (rule length_dropWhile_le)
  finally show "length (trim_by P xs) \<le> length xs" .
qed (auto simp: trim_by_def dest!: set_dropWhileD)

lemma TrimSpace_utf8: "utf8 s \<Longrightarrow> TrimSpace s = encode_runes (trim_by IsSpace (runes s))"
  by (simp add: TrimSpace_def utf8_segments trim_by_map comp_def encode_runes_def)

lemma strip_controls_utf8: "utf8 s \<Longrightarrow> strip_controls s = encode_runes (filter kept_rune (runes s))"
  by (simp add: strip_controls_def utf8_segments filter_map comp_def encode_runes_def)

lemma encode_runes_empty [simp]: "encode_runes rs = [] \<longleftrightarrow> rs = []"
  by (cases rs) (simp_all add: encode_runes_def)

text \<open>What the owner's text becomes, in runes.\<close>

definition clean_runes :: "rune list \<Rightarrow> rune list" where
  "clean_runes rs = trim_by IsSpace (filter kept_rune (trim_by IsSpace rs))"

lemma clean_runes_sub: "set (clean_runes rs) \<subseteq> set rs" "length (clean_runes rs) \<le> length (trim_by IsSpace rs)"
proof -
  show "length (clean_runes rs) \<le> length (trim_by IsSpace rs)"
    unfolding clean_runes_def using le_trans [OF trim_by_sub(2) length_filter_le] .
  show "set (clean_runes rs) \<subseteq> set rs"
    unfolding clean_runes_def
    using trim_by_sub(1) [of IsSpace "filter kept_rune (trim_by IsSpace rs)"] trim_by_sub(1) [of IsSpace rs] by auto
qed

lemma normalizeText_runes:
  assumes "utf8 raw"
  shows "normalizeText raw n field =
    (if length (trim_by IsSpace (runes raw)) > n then Inl (ProfileBadRequest (TooLong field))
     else if clean_runes (runes raw) = [] then Inr None
     else Inr (Some (encode_runes (clean_runes (runes raw)))))"
proof -
  let ?t = "trim_by IsSpace (runes raw)"
  let ?v = "encode_runes ?t"
  have v: "runes ?v = ?t" by (rule runes_of_encoding [OF trim_by_sub(1)])
  then have "utf8 ?v" by (simp add: utf8_def)
  have strip: "strip_controls ?v = encode_runes (filter kept_rune ?t)" using strip_controls_utf8 [OF \<open>utf8 ?v\<close>] by (simp add: v)
  have f: "runes (encode_runes (filter kept_rune ?t)) = filter kept_rune ?t"
    by (rule runes_of_encoding [of _ raw]) (use trim_by_sub(1) [of IsSpace "runes raw"] in auto)
  then have "utf8 (encode_runes (filter kept_rune ?t))" by (simp add: utf8_def)
  then have clean: "TrimSpace (strip_controls ?v) = encode_runes (clean_runes (runes raw))"
    by (simp add: strip TrimSpace_utf8 f clean_runes_def)
  have "clean_runes (runes raw) = []" if "?t = []" unfolding clean_runes_def that by (simp add: trim_by_def)
  then show ?thesis
    unfolding normalizeText_def Let_def TrimSpace_utf8 [OF assms] clean RuneCountInString_def v encode_runes_empty
    by (cases "?t = []") simp_all
qed

lemma normalizeText_check:
  assumes "utf8 raw" and "normalizeText raw n field = Inr t"
  shows "text_check n t"
proof (cases "clean_runes (runes raw)")
  case Nil
  then show ?thesis using assms(2) by (auto simp: normalizeText_runes [OF assms(1)] text_check_def split: if_splits)
next
  case (Cons r rs)
  then have t: "t = Some (encode_runes (clean_runes (runes raw)))" and "length (trim_by IsSpace (runes raw)) \<le> n"
    using assms(2) by (auto simp: normalizeText_runes [OF assms(1)] split: if_splits)
  moreover have "runes (encode_runes (clean_runes (runes raw))) = clean_runes (runes raw)"
    by (rule runes_of_encoding [OF clean_runes_sub(1)])
  ultimately show ?thesis
    using clean_runes_sub(2) [of "runes raw"] Cons by (auto simp: text_check_def RuneCountInString_def)
qed

section \<open>Links\<close>

lemma ValidateLink_check: "ValidateLink kind handle = None \<longleftrightarrow> link_check kind handle"
  by (auto simp: ValidateLink_def linkPatterns_def link_check_def)

lemma link_check_nonempty: "link_check kind handle \<Longrightarrow> handle \<noteq> []"
  by (auto simp: link_check_def github_handle_def youtube_handle_def twitch_handle_def split: if_splits)

lemma check_links_ok:
  assumes "check_links ls = Inr ls'"
  shows "map fst ls' = map fst ls \<and> map snd ls' = map (TrimSpace \<circ> snd) ls \<and>
    (\<forall>(kind, handle) \<in> set ls'. handle = [] \<or> link_check kind handle)"
  using assms
proof (induction ls arbitrary: ls' rule: check_links.induct)
  case (2 kind raw ls)
  obtain rest where rest: "check_links ls = Inr rest" and ls': "ls' = (kind, TrimSpace raw) # rest"
    and raw: "TrimSpace raw = [] \<or> link_check kind (TrimSpace raw)"
    using "2.prems" by (auto simp: Let_def ValidateLink_check split: if_splits option.splits sum.splits)
  have "map fst rest = map fst ls \<and> map snd rest = map (TrimSpace \<circ> snd) ls \<and>
      (\<forall>(kind, handle) \<in> set rest. handle = [] \<or> link_check kind handle)"
    using "2.prems" by (intro "2.IH" [OF refl _ _ rest]) (auto simp: Let_def split: if_splits option.splits)
  then show ?case using raw by (auto simp: ls')
qed simp

text \<open>The handle an account has for a service.\<close>

definition link_of :: "'u profile_db \<Rightarrow> 'u \<Rightarrow> string \<Rightarrow> string option" where
  "link_of db uid kind = map_option ul_Handle (find_first (link_at uid kind) (pd_links db))"

lemma link_of_delete: "link_of (DeleteUserLink uid kind db) u k = (if u = uid \<and> k = kind then None else link_of db u k)"
proof (cases "u = uid \<and> k = kind")
  case True
  then show ?thesis by (simp add: link_of_def DeleteUserLink_def find_first_None_iff)
next
  case False
  have "find_first (link_at u k) (filter (\<lambda>l. \<not> link_at uid kind l) ls) = find_first (link_at u k) ls" for ls
    using False by (induction ls) (auto simp: link_at_def)
  with False show ?thesis by (auto simp: link_of_def DeleteUserLink_def)
qed

lemma find_first_map_update:
  "map_option ul_Handle (find_first (link_at u k) (map (\<lambda>l. if link_at uid kind l then l\<lparr>ul_Handle := h\<rparr> else l) ls)) =
    (if u = uid \<and> k = kind \<and> list_ex (link_at uid kind) ls then Some h else map_option ul_Handle (find_first (link_at u k) ls))"
proof (induction ls)
  case (Cons l ls)
  show ?case
  proof (cases "link_at uid kind l")
    case True
    then have "link_at u k l \<longleftrightarrow> u = uid \<and> k = kind" by (auto simp: link_at_def)
    moreover have "link_at u k (l\<lparr>ul_Handle := h\<rparr>) = link_at u k l" by (simp add: link_at_def)
    ultimately show ?thesis using True Cons by simp
  next
    case False
    then show ?thesis using Cons by auto
  qed
qed simp

lemma link_of_upsert:
  assumes "UpsertUserLink uid kind h db = Some db'"
  shows "link_of db' u k = (if u = uid \<and> k = kind then Some h else link_of db u k)"
proof (cases "list_ex (link_at uid kind) (pd_links db)")
  case True
  then have "db' = db\<lparr>pd_links := map (\<lambda>l. if link_at uid kind l then l\<lparr>ul_Handle := h\<rparr> else l) (pd_links db)\<rparr>"
    using assms by (auto simp: UpsertUserLink_def split: if_splits)
  then show ?thesis using True by (simp add: link_of_def find_first_map_update)
next
  case False
  then have db': "db' = db\<lparr>pd_links := pd_links db @ [\<lparr>ul_UserID = uid, ul_Kind = kind, ul_Handle = h\<rparr>]\<rparr>"
    using assms by (auto simp: UpsertUserLink_def split: if_splits)
  have app: "find_first P (xs @ [x]) = (case find_first P xs of None \<Rightarrow> if P x then Some x else None | Some y \<Rightarrow> Some y)"
    for P and xs :: "'a user_link list" and x by (induction xs) auto
  have "find_first (link_at uid kind) (pd_links db) = None" using False by (auto simp: find_first_None_iff list_ex_iff)
  then show ?thesis by (auto simp: link_of_def db' app link_at_def split: option.split)
qed

lemma DeleteUserLink_same [simp]:
  "pd_bans (DeleteUserLink uid kind db) = pd_bans db" "pd_identity (DeleteUserLink uid kind db) = pd_identity db"
  "pd_badges (DeleteUserLink uid kind db) = pd_badges db"
  by (simp_all add: DeleteUserLink_def)

lemma UpsertUserLink_same:
  assumes "UpsertUserLink uid kind h db = Some db'"
  shows "pd_bans db' = pd_bans db \<and> pd_identity db' = pd_identity db \<and> pd_badges db' = pd_badges db"
  using assms by (auto simp: UpsertUserLink_def split: if_splits)

lemma DeleteUserLink_ok: "links_ok acc (pd_links db) \<Longrightarrow> links_ok acc (pd_links (DeleteUserLink uid kind db))"
  by (auto simp: links_ok_def DeleteUserLink_def distinct_map_filter)

lemma UpsertUserLink_ok:
  assumes "links_ok (pd_accounts db) (pd_links db)" and "UpsertUserLink uid kind h db = Some db'"
  shows "links_ok (pd_accounts db) (pd_links db')"
proof (cases "list_ex (link_at uid kind) (pd_links db)")
  case True
  let ?f = "\<lambda>l. if link_at uid kind l then l\<lparr>ul_Handle := h\<rparr> else l"
  have "pd_links db' = map ?f (pd_links db)" and "link_check kind h"
    using True assms(2) by (auto simp: UpsertUserLink_def split: if_splits)
  moreover have "(\<lambda>l. (ul_UserID l, ul_Kind l)) \<circ> ?f = (\<lambda>l. (ul_UserID l, ul_Kind l))" by (auto simp: link_at_def)
  ultimately show ?thesis using assms(1) by (auto simp: links_ok_def link_at_def)
next
  case False
  then have "pd_links db' = pd_links db @ [\<lparr>ul_UserID = uid, ul_Kind = kind, ul_Handle = h\<rparr>]" and "link_check kind h"
    and "user_exists (pd_accounts db) uid"
    using assms(2) by (auto simp: UpsertUserLink_def split: if_splits)
  then show ?thesis using assms(1) False by (auto simp: links_ok_def link_at_def list_ex_iff)
qed

lemma write_links_keeps:
  assumes "write_links uid ls db = Some db'" and "links_ok (pd_accounts db) (pd_links db)"
  shows "links_ok (pd_accounts db) (pd_links db') \<and> pd_bans db' = pd_bans db \<and> pd_identity db' = pd_identity db \<and> pd_badges db' = pd_badges db"
  using assms
proof (induction uid ls db rule: write_links.induct)
  case (2 uid kind h ls db)
  show ?case
  proof (cases "h = []")
    case True
    then show ?thesis using 2 DeleteUserLink_ok [of "pd_accounts db" db uid kind] by simp
  next
    case False
    then obtain db1 where db1: "UpsertUserLink uid kind h db = Some db1" "write_links uid ls db1 = Some db'"
      using "2.prems"(1) by (auto split: option.splits)
    note same = UpsertUserLink_same [OF db1(1)]
    have "links_ok (pd_accounts db1) (pd_links db1)" using UpsertUserLink_ok [OF "2.prems"(2) db1(1)] same by simp
    with "2.IH"(2) [OF False db1(1,2)] same show ?thesis by simp
  qed
qed simp

lemma write_links_total:
  assumes "user_exists (pd_accounts db) uid" and "\<forall>(kind, h) \<in> set ls. h = [] \<or> link_check kind h"
  shows "\<exists>db'. write_links uid ls db = Some db'"
  using assms
proof (induction uid ls db rule: write_links.induct)
  case (2 uid kind h ls db)
  show ?case
  proof (cases "h = []")
    case True
    then show ?thesis using 2 by simp
  next
    case False
    then have "UpsertUserLink uid kind h db \<noteq> None" using "2.prems" by (simp add: UpsertUserLink_def)
    then obtain db1 where db1: "UpsertUserLink uid kind h db = Some db1" by blast
    then have "user_exists (pd_accounts db1) uid" using UpsertUserLink_same [OF db1] "2.prems"(1) by simp
    then show ?thesis using "2.IH"(2) [OF False db1] "2.prems"(2) False db1 by simp
  qed
qed simp

lemma write_links_link_of:
  assumes "write_links uid ls db = Some db'" and "distinct (map fst ls)"
  shows "link_of db' u k =
    (if u = uid then (case map_of ls k of None \<Rightarrow> link_of db uid k | Some h \<Rightarrow> if h = [] then None else Some h) else link_of db u k)"
  using assms
proof (induction uid ls db rule: write_links.induct)
  case (2 uid kind h ls db)
  have none: "map_of ls kind = None" using "2.prems"(2) by (simp add: map_of_eq_None_iff)
  show ?case
  proof (cases "h = []")
    case True
    then have "link_of db' u k = (if u = uid then (case map_of ls k of None \<Rightarrow> link_of (DeleteUserLink uid kind db) uid k
        | Some h \<Rightarrow> if h = [] then None else Some h) else link_of (DeleteUserLink uid kind db) u k)"
      using 2 by simp
    then show ?thesis using True none by (auto simp: link_of_delete split: option.split)
  next
    case False
    then obtain db1 where db1: "UpsertUserLink uid kind h db = Some db1" "write_links uid ls db1 = Some db'"
      using "2.prems"(1) by (auto split: option.splits)
    have "link_of db' u k = (if u = uid then (case map_of ls k of None \<Rightarrow> link_of db1 uid k
        | Some h \<Rightarrow> if h = [] then None else Some h) else link_of db1 u k)"
      using "2.IH"(2) [OF False db1] "2.prems"(2) by simp
    then show ?thesis using False none by (auto simp: link_of_upsert [OF db1(1)] split: option.split)
  qed
qed simp

section \<open>An edit\<close>

definition patch_ok :: "Patch \<Rightarrow> bool" where
  "patch_ok patch \<longleftrightarrow>
     text_check bioMaxLen (pa_Bio patch) \<and> text_check keyboardMaxLen (pa_Keyboard patch) \<and>
     (\<forall>(kind, h) \<in> set (pa_Links patch). h = [] \<or> link_check kind h) \<and>
     (\<forall>codes. pa_Showcase patch = Some codes \<longrightarrow> distinct codes \<and> length codes \<le> showcaseMaxLen)"

definition request_utf8 :: "profilePatchRequest \<Rightarrow> bool" where
  "request_utf8 req \<longleftrightarrow> (\<forall>t. pq_Bio req = Some t \<or> pq_Keyboard req = Some t \<longrightarrow> utf8 t)"

lemma when_set_Inr: "when_set x f = Inr y \<longleftrightarrow> (case x of None \<Rightarrow> y = None | Some v \<Rightarrow> (\<exists>z. f v = Inr z \<and> y = Some z))"
  by (auto simp: when_set_def split: option.split sum.split)

lemma patch_of_request_parts:
  assumes "patch_of_request ck db uid req = Inr patch"
  obtains bio keyboard links showcase where
    "when_set (pq_Bio req) (\<lambda>b. normalizeText b bioMaxLen ''bio'') = Inr bio"
    "when_set (pq_Keyboard req) (\<lambda>k. normalizeText k keyboardMaxLen ''keyboard'') = Inr keyboard"
    "when_set (pq_Links req) check_links = Inr links"
    "when_set (pq_Showcase req) (check_showcase ck db uid) = Inr showcase"
    "patch = \<lparr>pa_Bio = (case bio of None \<Rightarrow> None | Some b \<Rightarrow> b), pa_SetBio = (bio \<noteq> None),
       pa_Keyboard = (case keyboard of None \<Rightarrow> None | Some k \<Rightarrow> k), pa_SetKeyboard = (keyboard \<noteq> None),
       pa_Links = (case links of None \<Rightarrow> [] | Some ls \<Rightarrow> ls), pa_Showcase = showcase\<rparr>"
  using assms unfolding patch_of_request_def by (auto split: sum.splits intro: that)

lemma patch_of_request_ok:
  assumes "patch_of_request ck db uid req = Inr patch" and "request_utf8 req"
  shows "patch_ok patch"
proof -
  obtain bio keyboard links showcase where parts:
    "when_set (pq_Bio req) (\<lambda>b. normalizeText b bioMaxLen ''bio'') = Inr bio"
    "when_set (pq_Keyboard req) (\<lambda>k. normalizeText k keyboardMaxLen ''keyboard'') = Inr keyboard"
    "when_set (pq_Links req) check_links = Inr links"
    "when_set (pq_Showcase req) (check_showcase ck db uid) = Inr showcase"
    "patch = \<lparr>pa_Bio = (case bio of None \<Rightarrow> None | Some b \<Rightarrow> b), pa_SetBio = (bio \<noteq> None),
       pa_Keyboard = (case keyboard of None \<Rightarrow> None | Some k \<Rightarrow> k), pa_SetKeyboard = (keyboard \<noteq> None),
       pa_Links = (case links of None \<Rightarrow> [] | Some ls \<Rightarrow> ls), pa_Showcase = showcase\<rparr>"
    using patch_of_request_parts [OF assms(1)] .
  have "text_check bioMaxLen (case bio of None \<Rightarrow> None | Some b \<Rightarrow> b)"
    using parts(1) assms(2) normalizeText_check
    by (auto simp: when_set_Inr request_utf8_def text_check_def [of _ None] split: option.splits)
  moreover have "text_check keyboardMaxLen (case keyboard of None \<Rightarrow> None | Some k \<Rightarrow> k)"
    using parts(2) assms(2) normalizeText_check
    by (auto simp: when_set_Inr request_utf8_def text_check_def [of _ None] split: option.splits)
  moreover have "\<forall>(kind, h) \<in> set (case links of None \<Rightarrow> [] | Some ls \<Rightarrow> ls). h = [] \<or> link_check kind h"
    using parts(3) check_links_ok by (fastforce simp: when_set_Inr split: option.splits)
  moreover have "distinct codes \<and> length codes \<le> showcaseMaxLen" if "showcase = Some codes" for codes
    using parts(4) that by (auto simp: when_set_Inr split: option.splits dest: check_showcase_ok)
  ultimately show ?thesis by (simp add: patch_ok_def parts(5))
qed

lemma write_identity_keeps:
  assumes "profile_ok db" and "patch_ok patch" and "text_check bioMaxLen (fst current)" and "text_check keyboardMaxLen (snd current)"
  obtains db1 where "write_identity current uid patch db = Some db1" "profile_ok db1" "pd_bans db1 = pd_bans db"
    "pd_badges db1 = pd_badges db" "pd_links db1 = pd_links db"
proof -
  obtain bio keyboard where pair: "resolve_identity patch current = (bio, keyboard)" by fastforce
  have "text_check bioMaxLen bio" "text_check keyboardMaxLen keyboard"
    using assms pair by (auto simp: resolve_identity_def patch_ok_def split: if_splits)
  then show thesis
    using assms(1) by (intro that [of "if (pa_SetBio patch \<or> pa_SetKeyboard patch) \<and> user_exists (pd_accounts db) uid
        then db\<lparr>pd_identity := (pd_identity db)(uid := (bio, keyboard))\<rparr> else db"])
      (simp_all add: write_identity_def pair UpdateProfileIdentity_def bioMaxLen_def keyboardMaxLen_def profile_ok_def)
qed

lemma write_showcase_keeps:
  assumes "profile_ok db" and "\<forall>codes. sc = Some codes \<longrightarrow> distinct codes \<and> length codes \<le> showcaseMaxLen"
  shows "profile_ok (write_showcase uid sc db)"
proof (cases sc)
  case None
  then show ?thesis using assms(1) by (simp add: write_showcase_def)
next
  case (Some codes)
  then have codes: "distinct codes" "length codes \<le> showcaseMaxLen" using assms(2) by auto
  have "badge_row_ok (pd_accounts db) (arranged uid codes b)" if "badge_row_ok (pd_accounts db) b" for b
    using that codes find_index_Some_iff [OF codes(1), of "ub_BadgeCode b"]
    by (auto simp: badge_row_ok_def arranged_def split: option.splits)
  then show ?thesis
    using assms(1) badges_ok_arranged [OF _ codes(1)]
    by (auto simp: profile_ok_def Some write_showcase_rows [OF codes(1)])
qed

lemma apply_patch_keeps:
  assumes "profile_ok db" and "patch_ok patch" and "text_check bioMaxLen (fst current)" and "text_check keyboardMaxLen (snd current)"
    and "apply_patch current uid patch db = Some db'"
  shows "profile_ok db' \<and> pd_bans db' = pd_bans db"
proof -
  obtain db1 where db1: "write_identity current uid patch db = Some db1" "profile_ok db1" "pd_bans db1 = pd_bans db"
    using write_identity_keeps [OF assms(1-4)] .
  then obtain db2 where db2: "write_links uid (pa_Links patch) db1 = Some db2" and db': "db' = write_showcase uid (pa_Showcase patch) db2"
    using assms(5) by (auto simp: apply_patch_def split: option.splits)
  have "profile_ok db2" using write_links_keeps [OF db2] db1(2) by (simp add: profile_ok_def)
  then have "profile_ok db'" unfolding db' using assms(2) by (intro write_showcase_keeps) (simp_all add: patch_ok_def)
  then show ?thesis using write_links_keeps [OF db2] db1(2,3) by (simp add: db' profile_ok_def)
qed

lemma profile_identity_ok:
  assumes "profile_ok db"
  shows "text_check bioMaxLen (fst (Store_Identity db uid)) \<and> text_check keyboardMaxLen (snd (Store_Identity db uid))"
  using assms by (auto simp: Store_Identity_def GetPublicProfileIdentity_def profile_ok_def text_check_def [of _ None])

lemma edit_keeps:
  assumes "profile_ok db" and "HandleUpdateProfile ck caller body db = (r, db')" and "\<forall>req. body = Some req \<longrightarrow> request_utf8 req"
  shows "profile_ok db' \<and> pd_bans db' = pd_bans db"
proof (cases "db' = db")
  case False
  then obtain uid req patch where "body = Some req" "patch_of_request ck db uid req = Inr patch"
    "ApplyProfilePatch uid patch db = Some db'"
    using assms(2) unfolding HandleUpdateProfile_def by (auto split: option.splits if_splits sum.splits)
  then show ?thesis
    using apply_patch_keeps [OF assms(1) patch_of_request_ok, of ck db uid req patch "Store_Identity db uid" uid db']
      profile_identity_ok [OF assms(1)] assms(3)
    by (auto simp: ApplyProfilePatch_def)
qed (use assms(1) in simp)

section \<open>Grants and revocations\<close>

lemma GrantBadge_keeps:
  assumes "profile_ok db" and "GrantBadge bid now uid code by db = Some (b, db')"
  shows "profile_ok db' \<and> pd_bans db' = pd_bans db"
proof (cases "find_first (live_grant uid code) (pd_badges db)")
  case None
  then have "live_grant uid code x \<Longrightarrow> x \<notin> set (pd_badges db)" for x by (auto simp: find_first_None_iff)
  then show ?thesis
    using assms None
    by (auto simp: GrantBadge_def Let_def profile_ok_def badges_ok_def badge_row_ok_def live_def live_grant_def list_ex_iff
        split: if_splits)
next
  case (Some x)
  then show ?thesis using assms by (auto simp: GrantBadge_def split: if_splits)
qed

lemma RevokeBadge_keeps:
  assumes "profile_ok db" and "RevokeBadge now uid code by db = Some (b, db')"
  shows "profile_ok db' \<and> pd_bans db' = pd_bans db"
proof (cases "find_first (live_grant uid code) (pd_badges db)")
  case None
  then show ?thesis using assms by (auto simp: RevokeBadge_def Let_def)
next
  case (Some x)
  let ?f = "\<lambda>b. if live_grant uid code b then b\<lparr>ub_RevokedAt := Some now, ub_RevokedBy := by\<rparr> else b"
  let ?bs = "pd_badges db"
  have db': "db' = db\<lparr>pd_badges := map ?f ?bs\<rparr>"
    using assms(2) Some by (auto simp: RevokeBadge_def Let_def update_badges_def split: if_splits)
  have live: "live (?f b) \<longleftrightarrow> live b \<and> \<not> live_grant uid code b" for b by (auto simp: live_def)
  have same: "ub_ID (?f b) = ub_ID b" "ub_UserID (?f b) = ub_UserID b" "ub_BadgeCode (?f b) = ub_BadgeCode b"
    "ub_DisplayOrder (?f b) = ub_DisplayOrder b" for b by auto
  have shrink: "distinct (map g (filter P xs)) \<Longrightarrow> distinct (map g (filter (\<lambda>b. P b \<and> Q b) xs))"
    for g :: "'a user_badge \<Rightarrow> 'b" and P Q xs
    using distinct_map_filter [of g "filter P xs" Q] by simp
  have ok: "badges_ok ?bs" using assms(1) by (simp add: profile_ok_def)
  have fuse: "map g (filter P (map ?f xs)) = map (\<lambda>b. g (?f b)) (filter (\<lambda>b. P (?f b)) xs)"
    for g :: "'a user_badge \<Rightarrow> 'b" and P xs by (simp add: filter_map comp_def)
  have "distinct (map ub_ID (map ?f ?bs))" using ok by (simp add: badges_ok_def comp_def same)
  moreover have "distinct (map (\<lambda>b. (ub_UserID b, ub_BadgeCode b)) (filter live (map ?f ?bs)))"
    unfolding fuse live same by (rule shrink) (use ok in \<open>simp add: badges_ok_def\<close>)
  moreover have "distinct (map (\<lambda>b. (ub_UserID b, ub_DisplayOrder b)) (filter (\<lambda>b. live b \<and> ub_DisplayOrder b \<noteq> None) (map ?f ?bs)))"
  proof -
    have *: "(live (?f b) \<and> ub_DisplayOrder (?f b) \<noteq> None) \<longleftrightarrow> (live b \<and> ub_DisplayOrder b \<noteq> None) \<and> \<not> live_grant uid code b" for b
      unfolding live same by blast
    show ?thesis unfolding fuse unfolding * unfolding same by (rule shrink) (use ok in \<open>simp add: badges_ok_def\<close>)
  qed
  ultimately have "badges_ok (map ?f ?bs)" unfolding badges_ok_def by (intro conjI)
  moreover have "\<forall>b \<in> set (map ?f ?bs). badge_row_ok (pd_accounts db) b"
    using assms(1) by (auto simp: profile_ok_def badge_row_ok_def)
  ultimately show ?thesis using assms(1) unfolding profile_ok_def db' by simp
qed

section \<open>Histories\<close>

text \<open>
  One transition: an edit by any caller with any decoded body, a grant or a revocation by an operator, a grant by the
  system, or any change of accounts and bans that deletes no account (no code of the server deletes one).
\<close>

inductive profile_step :: "'u::linorder uuid_lib \<Rightarrow> (string \<Rightarrow> string) \<Rightarrow> 'u profile_db \<Rightarrow> 'u profile_db \<Rightarrow> bool" for L ci where
  edit: "\<lbrakk>\<forall>req. body = Some req \<longrightarrow> request_utf8 req; HandleUpdateProfile ck caller body db = (r, db')\<rbrakk> \<Longrightarrow> profile_step L ci db db'"
| grant: "handleGrantBadge L ci bid now actor identifier code db = (r, db') \<Longrightarrow> profile_step L ci db db'"
| earned: "GrantBadgeBySystem bid now uid code db = Inr (g, db') \<Longrightarrow> profile_step L ci db db'"
| revoke: "handleRevokeBadge L ci now actor identifier code db = (r, db') \<Longrightarrow> profile_step L ci db db'"
| elsewhere: "\<forall>uid. user_exists (pd_accounts db) uid \<longrightarrow> user_exists (bd_accounts state) uid
     \<Longrightarrow> profile_step L ci db (db\<lparr>pd_bans := state\<rparr>)"

definition no_profiles :: "'u profile_db \<Rightarrow> bool" where
  "no_profiles db \<longleftrightarrow> pd_badges db = [] \<and> pd_links db = [] \<and> pd_identity db = (\<lambda>_. (None, None))"

definition profile_reachable :: "'u::linorder uuid_lib \<Rightarrow> (string \<Rightarrow> string) \<Rightarrow> 'u profile_db \<Rightarrow> bool" where
  "profile_reachable L ci db \<longleftrightarrow> (\<exists>db0. no_profiles db0 \<and> (profile_step L ci)\<^sup>*\<^sup>* db0 db)"

lemma grant_handler_cases:
  assumes "handleGrantBadge L ci bid now actor identifier body db = (r, db')"
  obtains "db' = db" | u code who g where "actor = Some who" "body = Some code"
    "Store_GrantBadge bid now (u_ID u) code (auditID L who) db = Inr (g, db')"
    "resolve L ci (pd_accounts db) identifier = Inr u" "r = BadgeGranted u (toBadgeGrantView g)"
  using assms unfolding handleGrantBadge_def
  by (auto split: option.splits sum.splits prod.splits grant_error.splits)

lemma revoke_handler_cases:
  assumes "handleRevokeBadge L ci now actor identifier code db = (r, db')"
  obtains "db' = db" | u who c where "actor = Some who" "Store_RevokeBadge now (u_ID u) code (auditID L who) db = Some (c, db')"
    "resolve L ci (pd_accounts db) identifier = Inr u" "r = BadgeRevoked u code c"
  using assms unfolding handleRevokeBadge_def by (auto split: option.splits sum.splits prod.splits)

lemma Store_GrantBadge_keeps:
  assumes "profile_ok db" and "Store_GrantBadge bid now uid code by db = Inr (g, db')"
  shows "profile_ok db' \<and> pd_bans db' = pd_bans db"
  using assms(2) GrantBadge_keeps [OF assms(1)] by (auto simp: Store_GrantBadge_def split: if_splits option.splits)

lemma Store_RevokeBadge_keeps:
  assumes "profile_ok db" and "Store_RevokeBadge now uid code by db = Some (c, db')"
  shows "profile_ok db' \<and> pd_bans db' = pd_bans db"
  using assms(2) RevokeBadge_keeps [OF assms(1)] by (auto simp: Store_RevokeBadge_def split: option.splits)

lemma profile_step_ok:
  assumes "profile_step L ci db db'" and "profile_ok db"
  shows "profile_ok db'"
  using assms(1)
proof cases
  case (edit body ck caller r)
  then show ?thesis using edit_keeps assms(2) by blast
next
  case (grant bid now actor target body r)
  then show ?thesis
  proof (cases rule: grant_handler_cases)
    case (2 u code who g)
    then show ?thesis using Store_GrantBadge_keeps [OF assms(2) 2(3)] by blast
  qed (use assms(2) in simp)
next
  case (earned bid now uid code g)
  then show ?thesis using Store_GrantBadge_keeps [OF assms(2)] unfolding GrantBadgeBySystem_def by blast
next
  case (revoke now actor target code r)
  then show ?thesis
  proof (cases rule: revoke_handler_cases)
    case (2 u who c)
    then show ?thesis using Store_RevokeBadge_keeps [OF assms(2) 2(2)] by blast
  qed (use assms(2) in simp)
next
  case (elsewhere state)
  then show ?thesis using assms(2) by (auto simp: profile_ok_def badge_row_ok_def links_ok_def)
qed

lemma profile_reachable_ok:
  assumes "profile_reachable L ci db"
  shows "profile_ok db"
proof -
  obtain db0 where start: "no_profiles db0" and steps: "(profile_step L ci)\<^sup>*\<^sup>* db0 db" using assms by (auto simp: profile_reachable_def)
  show ?thesis
    using steps
  proof (induction rule: rtranclp_induct)
    case base
    show ?case using start by (simp add: no_profiles_def profile_ok_def badges_ok_def links_ok_def text_check_def)
  qed (blast intro: profile_step_ok)
qed

end
