(* ===== verification/Profile_Properties.thy ===== *)
theory Profile_Properties
  imports Profile_Invariant "HOL-Library.Multiset" "HOL-Library.Sublist"
begin

text \<open>
  What profiles guarantee: that an edit shows on the public page as it was made, that a closed profile gives nothing
  away, and that the search takes its query literally; and one interleaving of two edits that loses one of them.
\<close>

section \<open>What an edit writes\<close>

lemma write_identity_effect:
  assumes "write_identity current uid patch db = Some db1" and "user_exists (pd_accounts db) uid"
  shows "pd_identity db1 = (if pa_SetBio patch \<or> pa_SetKeyboard patch then (pd_identity db)(uid := resolve_identity patch current) else pd_identity db)
    \<and> pd_badges db1 = pd_badges db \<and> pd_links db1 = pd_links db \<and> pd_bans db1 = pd_bans db"
  using assms by (cases "resolve_identity patch current") (auto simp: write_identity_def UpdateProfileIdentity_def split: if_splits)

lemma write_showcase_effect:
  assumes "\<forall>codes. sc = Some codes \<longrightarrow> distinct codes"
  shows "pd_badges (write_showcase uid sc db) = (case sc of None \<Rightarrow> pd_badges db | Some codes \<Rightarrow> map (arranged uid codes) (pd_badges db))"
  using assms write_showcase_rows by (cases sc) (auto simp: write_showcase_def [of _ None])

lemma apply_patch_effect:
  assumes "profile_ok db" and "patch_ok patch" and "user_exists (pd_accounts db) uid" and "distinct (map fst (pa_Links patch))"
    and "apply_patch current uid patch db = Some db'"
  shows "pd_identity db' = (if pa_SetBio patch \<or> pa_SetKeyboard patch then (pd_identity db)(uid := resolve_identity patch current) else pd_identity db)"
    and "pd_badges db' = (case pa_Showcase patch of None \<Rightarrow> pd_badges db | Some codes \<Rightarrow> map (arranged uid codes) (pd_badges db))"
    and "link_of db' u k = (if u = uid then (case map_of (pa_Links patch) k of None \<Rightarrow> link_of db uid k
           | Some h \<Rightarrow> if h = [] then None else Some h) else link_of db u k)"
    and "pd_bans db' = pd_bans db"
proof -
  obtain db1 db2 where db1: "write_identity current uid patch db = Some db1" and db2: "write_links uid (pa_Links patch) db1 = Some db2"
    and db': "db' = write_showcase uid (pa_Showcase patch) db2"
    using assms(5) by (auto simp: apply_patch_def split: option.splits)
  note one = write_identity_effect [OF db1 assms(3)]
  have "links_ok (pd_accounts db1) (pd_links db1)" using assms(1) one by (simp add: profile_ok_def)
  note two = write_links_keeps [OF db2 this]
  have distinct: "\<forall>codes. pa_Showcase patch = Some codes \<longrightarrow> distinct codes" using assms(2) by (simp add: patch_ok_def)
  show "pd_identity db' = (if pa_SetBio patch \<or> pa_SetKeyboard patch then (pd_identity db)(uid := resolve_identity patch current) else pd_identity db)"
    using one two by (simp add: db')
  show "pd_badges db' = (case pa_Showcase patch of None \<Rightarrow> pd_badges db | Some codes \<Rightarrow> map (arranged uid codes) (pd_badges db))"
    using one two unfolding db' write_showcase_effect [OF distinct] by (simp split: option.split)
  have "link_of db' u k = link_of db2 u k" and same: "link_of db1 = link_of db" using one by (simp_all add: db' link_of_def fun_eq_iff)
  then show "link_of db' u k = (if u = uid then (case map_of (pa_Links patch) k of None \<Rightarrow> link_of db uid k
           | Some h \<Rightarrow> if h = [] then None else Some h) else link_of db u k)"
    using write_links_link_of [OF db2 assms(4), of u k] unfolding same by simp
  show "pd_bans db' = pd_bans db" using one two by (simp add: db')
qed

section \<open>The showcase as it is read\<close>

lemma arranged_at:
  assumes "distinct codes" and "b \<in> set (filter (shown_by uid) (map (arranged uid codes) bs))"
  shows "\<exists>k < length codes. ub_DisplayOrder b = Some (int k) \<and> codes ! k = ub_BadgeCode b"
  using assms(2) find_index_Some_iff [OF assms(1)] by (auto simp: shown_by_def arranged_def)

lemma arranged_orders:
  assumes "badges_ok bs" and "distinct codes" and "set codes \<subseteq> ub_BadgeCode ` {b \<in> set bs. held_by uid b}"
  shows "(\<lambda>b. the (ub_DisplayOrder b)) ` set (filter (shown_by uid) (map (arranged uid codes) bs)) = set (map int [0..<length codes])"
proof
  let ?bs = "filter (shown_by uid) (map (arranged uid codes) bs)"
  show "(\<lambda>b. the (ub_DisplayOrder b)) ` set ?bs \<subseteq> set (map int [0..<length codes])"
  proof (rule image_subsetI)
    fix b assume "b \<in> set ?bs"
    from arranged_at [OF assms(2) this] show "the (ub_DisplayOrder b) \<in> set (map int [0..<length codes])" by auto
  qed
  show "set (map int [0..<length codes]) \<subseteq> (\<lambda>b. the (ub_DisplayOrder b)) ` set ?bs"
  proof
    fix i assume "i \<in> set (map int [0..<length codes])"
    then obtain k where k: "i = int k" "k < length codes" by auto
    then have "codes ! k \<in> ub_BadgeCode ` {b \<in> set bs. held_by uid b}" using assms(3) by auto
    then obtain b where b: "b \<in> set bs" "held_by uid b" "ub_BadgeCode b = codes ! k" by auto
    then have "find_index (ub_BadgeCode b) codes = Some k" using find_index_Some_iff [OF assms(2)] k(2) by simp
    then have "ub_DisplayOrder (arranged uid codes b) = Some i" using b(2) k(1) by (simp add: arranged_def)
    then show "i \<in> (\<lambda>b. the (ub_DisplayOrder b)) ` set ?bs"
      using b by (intro image_eqI [of _ _ "arranged uid codes b"]) (auto simp: shown_by_def)
  qed
qed

lemma showcase_of_arranged:
  assumes "badges_ok bs" and "distinct codes" and "set codes \<subseteq> ub_BadgeCode ` {b \<in> set bs. held_by uid b}"
    and "pd_badges db = map (arranged uid codes) bs"
  shows "ShowcaseBadges ck db uid = codes"
proof -
  let ?key = "\<lambda>b. (the (ub_DisplayOrder b), ck (ub_BadgeCode b))"
  let ?bs = "filter (shown_by uid) (map (arranged uid codes) bs)"
  let ?xs = "sort_key ?key ?bs"
  have at: "\<exists>k < length codes. ub_DisplayOrder b = Some (int k) \<and> codes ! k = ub_BadgeCode b" if "b \<in> set ?bs" for b
    by (rule arranged_at [OF assms(2) that])
  have ok: "badges_ok (map (arranged uid codes) bs)" by (rule badges_ok_arranged [OF assms(1,2)])
  have "distinct (map (arranged uid codes) bs)" using ok distinct_map unfolding badges_ok_def by blast
  then have "distinct ?bs" by (rule distinct_filter)
  moreover have "inj_on (\<lambda>b. the (ub_DisplayOrder b)) (set ?bs)"
  proof (rule inj_onI)
    fix a b assume a: "a \<in> set ?bs" and b: "b \<in> set ?bs" and eq: "the (ub_DisplayOrder a) = the (ub_DisplayOrder b)"
    have "inj_on (\<lambda>b. (ub_UserID b, ub_DisplayOrder b)) (set (filter (\<lambda>b. live b \<and> ub_DisplayOrder b \<noteq> None) (map (arranged uid codes) bs)))"
      using ok by (simp add: badges_ok_def distinct_map)
    then show "a = b"
      by (rule inj_onD) (use a b eq in \<open>auto simp: shown_by_def held_by_def live_def\<close>)
  qed
  ultimately have "distinct (map (\<lambda>b. the (ub_DisplayOrder b)) ?xs)" by (simp add: distinct_map)
  moreover have "sorted (map (\<lambda>b. the (ub_DisplayOrder b)) ?xs)"
    using sorted_sort_key [of ?key ?bs] by (auto simp: sorted_wrt_map less_eq_prod_def elim!: sorted_wrt_mono_rel [rotated])
  ultimately have orders: "map (\<lambda>b. the (ub_DisplayOrder b)) ?xs = map int [0..<length codes]"
    using arranged_orders [OF assms(1-3)] by (intro sorted_distinct_set_unique) (auto simp: sorted_map distinct_map)
  have "map ub_BadgeCode ?xs = map (\<lambda>b. codes ! nat (the (ub_DisplayOrder b))) ?xs"
    using at by (intro map_cong) fastforce+
  also have "\<dots> = map (\<lambda>i. codes ! nat i) (map (\<lambda>b. the (ub_DisplayOrder b)) ?xs)" by simp
  also have "\<dots> = map ((!) codes) [0..<length codes]" unfolding orders by simp
  also have "\<dots> = codes" by (rule map_nth)
  finally show ?thesis by (simp add: ShowcaseBadges_def ListShowcaseBadges_def assms(4))
qed

lemma links_listed:
  assumes "links_ok acc (pd_links db)"
  shows "set (ListUserLinks ck db uid) = {(k, h). link_of db uid k = Some h}"
    and "distinct (map fst (ListUserLinks ck db uid))"
proof -
  have unique: "inj_on (\<lambda>l. (ul_UserID l, ul_Kind l)) (set (pd_links db))" and "distinct (pd_links db)"
    using assms by (auto simp: links_ok_def distinct_map)
  show "set (ListUserLinks ck db uid) = {(k, h). link_of db uid k = Some h}"
  proof (intro set_eqI iffI; clarify)
    fix k h assume "(k, h) \<in> set (ListUserLinks ck db uid)"
    then obtain l where l: "l \<in> set (pd_links db)" "link_at uid k l" "ul_Handle l = h" by (auto simp: ListUserLinks_def link_at_def)
    obtain m where m: "find_first (link_at uid k) (pd_links db) = Some m" using find_first_ex [of l "pd_links db" "link_at uid k"] l(1,2) by blast
    then have "m \<in> set (pd_links db)" "link_at uid k m" using find_first_Some [OF m] by auto
    then have "m = l" using inj_onD [OF unique] l by (auto simp: link_at_def)
    then show "link_of db uid k = Some h" using m l(3) by (simp add: link_of_def)
  next
    fix k h assume "link_of db uid k = Some h"
    then show "(k, h) \<in> set (ListUserLinks ck db uid)"
      by (auto simp: link_of_def ListUserLinks_def link_at_def image_iff dest!: find_first_Some)
  qed
  have "inj_on ul_Kind {l \<in> set (pd_links db). ul_UserID l = uid}" using unique by (auto simp: inj_on_def)
  then show "distinct (map fst (ListUserLinks ck db uid))"
    using \<open>distinct (pd_links db)\<close> by (simp add: ListUserLinks_def comp_def distinct_map)
qed

section \<open>Edits\<close>

text \<open>What a text of the request becomes: trimmed, without control characters, unset when nothing is left.\<close>

definition shown_text :: "string \<Rightarrow> string option" where
  "shown_text raw = (if clean_runes (runes raw) = [] then None else Some (encode_runes (clean_runes (runes raw))))"

lemma normalizeText_shown: "utf8 raw \<Longrightarrow> normalizeText raw n field = Inr t \<Longrightarrow> t = shown_text raw"
  by (simp add: normalizeText_runes shown_text_def split: if_splits)

lemma patch_of_request_fields:
  assumes "patch_of_request ck db uid req = Inr patch" and "request_utf8 req"
  shows "pa_SetBio patch = (pq_Bio req \<noteq> None)" and "pa_SetKeyboard patch = (pq_Keyboard req \<noteq> None)"
    and "\<And>b. pq_Bio req = Some b \<Longrightarrow> pa_Bio patch = shown_text b"
    and "\<And>k. pq_Keyboard req = Some k \<Longrightarrow> pa_Keyboard patch = shown_text k"
    and "pa_Showcase patch = pq_Showcase req"
    and "\<And>codes. pq_Showcase req = Some codes \<Longrightarrow> set codes \<subseteq> ub_BadgeCode ` {b \<in> set (pd_badges db). held_by uid b}"
    and "pa_Links patch = (case pq_Links req of None \<Rightarrow> [] | Some ls \<Rightarrow> map (\<lambda>(k, h). (k, TrimSpace h)) ls)"
proof -
  obtain bio keyboard links showcase where parts:
    "when_set (pq_Bio req) (\<lambda>b. normalizeText b bioMaxLen ''bio'') = Inr bio"
    "when_set (pq_Keyboard req) (\<lambda>k. normalizeText k keyboardMaxLen ''keyboard'') = Inr keyboard"
    "when_set (pq_Links req) check_links = Inr links"
    "when_set (pq_Showcase req) (check_showcase ck db uid) = Inr showcase"
    "patch = \<lparr>pa_Bio = (case bio of None \<Rightarrow> None | Some b \<Rightarrow> b), pa_SetBio = (bio \<noteq> None),
       pa_Keyboard = (case keyboard of None \<Rightarrow> None | Some k \<Rightarrow> k), pa_SetKeyboard = (keyboard \<noteq> None),
       pa_Links = (case links of None \<Rightarrow> [] | Some ls \<Rightarrow> ls), pa_Showcase = showcase\<rparr>"
    using patch_of_request_parts [OF assms(1)] .
  show "pa_SetBio patch = (pq_Bio req \<noteq> None)" "pa_SetKeyboard patch = (pq_Keyboard req \<noteq> None)"
    using parts(1,2) by (auto simp: parts(5) when_set_Inr split: option.splits)
  show "pa_Bio patch = shown_text b" if "pq_Bio req = Some b" for b
    using parts(1) that assms(2) normalizeText_shown by (auto simp: parts(5) when_set_Inr request_utf8_def)
  show "pa_Keyboard patch = shown_text k" if "pq_Keyboard req = Some k" for k
    using parts(2) that assms(2) normalizeText_shown by (auto simp: parts(5) when_set_Inr request_utf8_def)
  show "pa_Showcase patch = pq_Showcase req"
    using parts(4) by (auto simp: parts(5) when_set_Inr split: option.splits dest: check_showcase_ok)
  show "set codes \<subseteq> ub_BadgeCode ` {b \<in> set (pd_badges db). held_by uid b}" if "pq_Showcase req = Some codes" for codes
  proof -
    have "\<exists>z. check_showcase ck db uid codes = Inr z" using parts(4) that by (auto simp: when_set_def split: sum.splits)
    then obtain z where "check_showcase ck db uid codes = Inr z" by blast
    from check_showcase_ok [OF this] show ?thesis by blast
  qed
  have "ls' = map (\<lambda>(k, h). (k, TrimSpace h)) ls" if "check_links ls = Inr ls'" for ls ls'
  proof -
    have "map fst ls' = map fst ls" "map snd ls' = map (TrimSpace \<circ> snd) ls" using check_links_ok [OF that] by simp_all
    then have "zip (map fst ls') (map snd ls') = zip (map fst ls) (map (TrimSpace \<circ> snd) ls)" by simp
    then show ?thesis by (simp add: zip_map_fst_snd zip_map1 zip_map2 zip_same_conv_map case_prod_beta comp_def)
  qed
  then show "pa_Links patch = (case pq_Links req of None \<Rightarrow> [] | Some ls \<Rightarrow> map (\<lambda>(k, h). (k, TrimSpace h)) ls)"
    using parts(3) by (auto simp: parts(5) when_set_Inr split: option.splits)
qed

lemma edit_saved:
  assumes "HandleUpdateProfile ck (Some uid) (Some req) db = (OwnProfile v, db')"
  obtains patch where "patch_of_request ck db uid req = Inr patch" "ApplyProfilePatch uid patch db = Some db'"
  using assms by (auto simp: HandleUpdateProfile_def split: if_splits sum.splits option.splits)

lemma write_links_same:
  "write_links uid ls db = Some db' \<Longrightarrow> pd_bans db' = pd_bans db \<and> pd_identity db' = pd_identity db \<and> pd_badges db' = pd_badges db"
  by (induction uid ls db rule: write_links.induct) (auto split: if_splits option.splits dest: UpsertUserLink_same)

text \<open>
  Two edits whose reads both precede their writes: the second writes back the bio it read, and the first edit is gone.
\<close>

lemma racing_edits_lose_one:
  assumes "current = Store_Identity db uid" and "user_exists (pd_accounts db) uid"
    and "apply_patch current uid p db = Some db1" and "apply_patch current uid q db1 = Some db2"
    and "pa_SetBio p" and "\<not> pa_SetBio q" and "pa_SetKeyboard q"
  shows "fst (pd_identity db2 uid) = fst (pd_identity db uid)"
proof -
  have identity: "pd_bans d' = pd_bans d \<and> (pa_SetBio r \<or> pa_SetKeyboard r \<longrightarrow> pd_identity d' uid = resolve_identity r current)"
    if run: "apply_patch current uid r d = Some d'" and there: "user_exists (pd_accounts d) uid" for r d d'
  proof -
    obtain d1 d2 where d: "write_identity current uid r d = Some d1" "write_links uid (pa_Links r) d1 = Some d2"
        "d' = write_showcase uid (pa_Showcase r) d2"
      using run by (auto simp: apply_patch_def split: option.splits)
    show ?thesis using write_identity_effect [OF d(1) there] write_links_same [OF d(2)] by (simp add: d(3))
  qed
  have "user_exists (pd_accounts db1) uid" using identity [OF assms(3,2)] assms(2) by simp
  from identity [OF assms(4) this] show ?thesis
    using assms(1,2,6,7) by (simp add: resolve_identity_def Store_Identity_def GetPublicProfileIdentity_def)
qed

section \<open>Closed profiles and the search\<close>

lemma closed_profile_hides:
  assumes "GetPublicProfileUser ci db name = Some u" and "\<not> u_ProfilePublic u" and "caller \<noteq> Some (u_ID u)"
  shows "\<exists>h. handlePublicHeader ci ck now caller name db = Header h \<and> hv_Bio h = None \<and> hv_Keyboard h = None \<and>
      hv_Links h = [] \<and> hv_Badges h = []"
    and "publicData ci serve caller name db = Inl ProfileClosed"
    and "handlePublicPBs ci now entries servePBs caller name db = Inl ProfileClosed"
    and "handlePublicPortrait ci serveKeyboard caller name db = Inl ProfileClosed"
  using assms by (auto simp: handlePublicHeader_def publicData_def handlePublicPBs_def handlePublicPortrait_def resolvePublicUser_def
      isOwner_def Let_def)

text \<open>An escaped query has no wildcard left, so the search looks for the query itself.\<close>

lemma like_parse_escaped: "like_parse (likeEscaper s @ t) = map_option ((@) (map Literal s)) (like_parse t)"
  by (induction s) (auto simp: likeEscaper_def option.map_comp comp_def option.map_ident)

lemma like_match_front: "like_match (map Literal s @ [AnyRun]) t \<longleftrightarrow> prefix s t"
proof (induction s arbitrary: t)
  case Nil
  have "like_match [AnyRun] t" by (induction t) simp_all
  then show ?case by simp
next
  case (Cons c s)
  then show ?case by (cases t) auto
qed

lemma like_match_inside: "like_match (AnyRun # map Literal s @ [AnyRun]) t \<longleftrightarrow> sublist s t"
proof (induction t)
  case Nil
  then show ?case by (simp add: like_match_front)
next
  case (Cons d t)
  then show ?case by (simp add: like_match_front sublist_Cons_right)
qed

lemma search_is_literal:
  "\<exists>us. SearchUsers lo ci ck now q n db = Some us \<and> length us \<le> nat n \<and>
     set us \<subseteq> {u \<in> set (ad_users (pd_accounts db)). sublist (ToLower lo q) (ci (u_DisplayName u)) \<and>
                 \<not> IsRestricted now (bd_bans (pd_bans db)) (u_ID u)}"
proof -
  have "like_parse (''%'' @ likeEscaper s @ ''%'') = Some (AnyRun # map Literal s @ [AnyRun])" for s
    using like_parse_escaped [of s "''%''"] by simp
  moreover have "like_parse (likeEscaper s @ ''%'') = Some (map Literal s @ [AnyRun])" for s
    using like_parse_escaped [of s "''%''"] by simp
  ultimately show ?thesis
    by (auto simp: SearchUsers_def SearchUsersByName_def Let_def like_match_inside simp del: like_match.simps dest!: in_set_takeD)
qed

section \<open>An edit on the public page\<close>

text \<open>
  C38. An edit shows as it was made. When the edit of an account has answered with the saved profile, the public page of
  the account, read by anyone who may read it, has the bio and the keyboard of the request, trimmed and without control
  characters, or unset when nothing was left; the showcase in the order of the request; for each service of the request
  the trimmed handle, or no link when it was empty; and what the request did not mention as it was, which goes for every
  other account's profile too. Texts are UTF-8 and services are named once, as in a decoded JSON object.
\<close>

theorem edit_shows:
  assumes "profile_reachable L ci db" and "request_utf8 req" and "\<forall>ls. pq_Links req = Some ls \<longrightarrow> distinct (map fst ls)"
    and "GetPublicProfileUser ci db name = Some u" and "u_ProfilePublic u \<or> caller = Some (u_ID u)"
    and "HandleUpdateProfile ck (Some (u_ID u)) (Some req) db = (OwnProfile v, db')"
  shows "\<exists>h. handlePublicHeader ci ck now caller name db' = Header h \<and>
    hv_Bio h = (case pq_Bio req of None \<Rightarrow> fst (pd_identity db (u_ID u)) | Some b \<Rightarrow> shown_text b) \<and>
    hv_Keyboard h = (case pq_Keyboard req of None \<Rightarrow> snd (pd_identity db (u_ID u)) | Some k \<Rightarrow> shown_text k) \<and>
    hv_Badges h = (case pq_Showcase req of None \<Rightarrow> ShowcaseBadges ck db (u_ID u) | Some codes \<Rightarrow> codes) \<and>
    distinct (map fst (hv_Links h)) \<and>
    (\<forall>kind handle. (kind, handle) \<in> set (hv_Links h) \<longleftrightarrow>
      (case (case pq_Links req of None \<Rightarrow> None | Some ls \<Rightarrow> map_of ls kind) of
         None \<Rightarrow> (kind, handle) \<in> set (ListUserLinks ck db (u_ID u))
       | Some raw \<Rightarrow> handle = TrimSpace raw \<and> handle \<noteq> [])) \<and>
    (\<forall>other. other \<noteq> u_ID u \<longrightarrow> pd_identity db' other = pd_identity db other \<and>
       ShowcaseBadges ck db' other = ShowcaseBadges ck db other \<and>
       set (ListUserLinks ck db' other) = set (ListUserLinks ck db other))"
proof -
  let ?uid = "u_ID u"
  obtain patch where patch: "patch_of_request ck db ?uid req = Inr patch" and "ApplyProfilePatch ?uid patch db = Some db'"
    using edit_saved [OF assms(6)] .
  then have applied: "apply_patch (Store_Identity db ?uid) ?uid patch db = Some db'" by (simp add: ApplyProfilePatch_def)
  note ok = profile_reachable_ok [OF assms(1)]
  note fields = patch_of_request_fields [OF patch assms(2)]
  have pok: "patch_ok patch" by (rule patch_of_request_ok [OF patch assms(2)])
  have exists: "user_exists (pd_accounts db) ?uid"
    using find_first_Some [OF assms(4) [unfolded GetPublicProfileUser_def]] by (auto simp: user_exists_def list_ex_iff)
  have "distinct (map fst (pa_Links patch))"
    using assms(3) by (auto simp: fields(7) comp_def case_prod_beta split: option.split)
  note effect = apply_patch_effect [OF ok pok exists this applied]
  have ok': "profile_ok db'"
    using apply_patch_keeps [OF ok pok _ _ applied] profile_identity_ok [OF ok] by blast
  have links: "links_ok (pd_accounts d) (pd_links d)" if "profile_ok d" for d :: "'a profile_db" using that by (simp add: profile_ok_def)
  note listed = links_listed(1) [OF links [OF ok], of ck] links_listed(1) [OF links [OF ok'], of ck]
  have identity: "Store_Identity db ?uid = pd_identity db ?uid" "Store_Identity db' ?uid = pd_identity db' ?uid"
    using exists by (simp_all add: Store_Identity_def GetPublicProfileIdentity_def effect(4))
  have header: "handlePublicHeader ci ck now caller name db' =
      Header (decorateHeader ck db' ?uid \<lparr>hv_ID = ?uid, hv_Name = u_DisplayName u, hv_Joined = u_CreatedAt u, hv_Public = u_ProfilePublic u,
        hv_Restricted = IsRestricted now (bd_bans (pd_bans db')) ?uid, hv_Bio = None, hv_Keyboard = None, hv_Links = [], hv_Badges = []\<rparr>)"
    using assms(4,5) by (auto simp: handlePublicHeader_def resolvePublicUser_def GetPublicProfileUser_def effect(4) isOwner_def Let_def)
  have bio: "fst (pd_identity db' ?uid) = (case pq_Bio req of None \<Rightarrow> fst (pd_identity db ?uid) | Some b \<Rightarrow> shown_text b)"
    and keyboard: "snd (pd_identity db' ?uid) = (case pq_Keyboard req of None \<Rightarrow> snd (pd_identity db ?uid) | Some k \<Rightarrow> shown_text k)"
    using fields(1-4) by (auto simp: effect(1) resolve_identity_def identity(1) split: option.split)
  have badges: "ShowcaseBadges ck db' ?uid = (case pq_Showcase req of None \<Rightarrow> ShowcaseBadges ck db ?uid | Some codes \<Rightarrow> codes)"
  proof (cases "pq_Showcase req")
    case None
    then show ?thesis using effect(2) by (simp add: fields(5) ShowcaseBadges_def ListShowcaseBadges_def)
  next
    case (Some codes)
    then have "distinct codes" using pok fields(5) by (simp add: patch_ok_def)
    moreover have "badges_ok (pd_badges db)" using ok by (simp add: profile_ok_def)
    moreover have "pd_badges db' = map (arranged ?uid codes) (pd_badges db)" using effect(2) Some by (simp add: fields(5))
    ultimately show ?thesis using showcase_of_arranged fields(6) [OF Some] Some by simp
  qed
  have link: "(kind, handle) \<in> set (ListUserLinks ck db' ?uid) \<longleftrightarrow>
      (case (case pq_Links req of None \<Rightarrow> None | Some ls \<Rightarrow> map_of ls kind) of
         None \<Rightarrow> (kind, handle) \<in> set (ListUserLinks ck db ?uid)
       | Some raw \<Rightarrow> handle = TrimSpace raw \<and> handle \<noteq> [])" for kind handle
    unfolding listed mem_Collect_eq case_prod_conv effect(3) fields(7)
    by (auto simp: map_of_map [of "TrimSpace", unfolded case_prod_beta'] case_prod_beta' split: option.split)
  have other: "pd_identity db' other = pd_identity db other \<and> ShowcaseBadges ck db' other = ShowcaseBadges ck db other \<and>
       set (ListUserLinks ck db' other) = set (ListUserLinks ck db other)" if "other \<noteq> ?uid" for other
  proof (intro conjI)
    show "pd_identity db' other = pd_identity db other" using that by (simp add: effect(1))
    have "filter (shown_by other) (map (arranged ?uid codes) bs) = filter (shown_by other) bs" for codes bs
      using that by (induction bs) (auto simp: arranged_def shown_by_def held_by_def)
    then show "ShowcaseBadges ck db' other = ShowcaseBadges ck db other"
      by (simp add: ShowcaseBadges_def ListShowcaseBadges_def effect(2) split: option.split)
    show "set (ListUserLinks ck db' other) = set (ListUserLinks ck db other)" unfolding listed using that by (simp add: effect(3))
  qed
  have distinct: "distinct (map fst (ListUserLinks ck db' ?uid))" by (rule links_listed(2) [OF links [OF ok']])
  have others: "\<forall>other. other \<noteq> ?uid \<longrightarrow> pd_identity db' other = pd_identity db other \<and>
       ShowcaseBadges ck db' other = ShowcaseBadges ck db other \<and>
       set (ListUserLinks ck db' other) = set (ListUserLinks ck db other)"
    by (intro allI impI other)
  show ?thesis
    unfolding header
    by (rule exI, rule conjI, rule refl, intro conjI others)
      (simp_all only: decorateHeader_def headerView.simps identity append_Nil bio keyboard badges distinct link simp_thms)
qed

definition badge_of_one :: "nat \<Rightarrow> string \<Rightarrow> nat user_badge" where
  "badge_of_one bid code =
     \<lparr>ub_ID = bid, ub_UserID = 1, ub_BadgeCode = code, ub_GrantedAt = 0, ub_GrantedBy = None, ub_RevokedAt = None,
      ub_RevokedBy = None, ub_DisplayOrder = None\<rparr>"

definition user_one :: "nat User" where
  "user_one = \<lparr>u_ID = 1, u_DisplayName = ''one'', u_CreatedAt = 0, u_ProfilePublic = True, u_KeyboardPublic = True,
     u_Role = ''user'', u_DisplayNameChangedAt = None\<rparr>"

definition one_profile :: "nat user_badge list \<Rightarrow> nat profile_db" where
  "one_profile badges =
     \<lparr>pd_bans = \<lparr>bd_accounts = \<lparr>ad_users = [user_one], ad_identities = [], ad_credentials = [], ad_sessions = [], ad_tokens = []\<rparr>,
                 bd_bans = []\<rparr>,
      pd_identity = (\<lambda>_. (None, None)), pd_badges = badges, pd_links = []\<rparr>"

definition one_request :: profilePatchRequest where
  "one_request = \<lparr>pq_Bio = Some '' hi '', pq_Keyboard = None, pq_Links = Some [(''github'', ''one'')],
     pq_Showcase = Some [''translator'', ''staff'']\<rparr>"

lemmas one_profile_defs = badge_of_one_def user_one_def one_profile_def one_request_def

lemma one_profile_reachable: "profile_reachable L ci (one_profile [badge_of_one 1 ''staff'', badge_of_one 2 ''translator''])"
proof -
  have badge: "GrantBadgeBySystem bid 0 1 code (one_profile bs) =
      Inr (\<lparr>bg_Code = code, bg_GrantedAt = 0, bg_GrantedByName = None, bg_RevokedAt = None, bg_RevokedByName = None, bg_Order = None\<rparr>,
        one_profile (bs @ [badge_of_one bid code]))"
    if "Known code" "badge_code_check code" "\<forall>b \<in> set bs. ub_BadgeCode b \<noteq> code \<and> ub_ID b \<noteq> bid" for bid code bs
  proof -
    have "find_first (live_grant 1 code) bs = None" using that(3) by (auto simp: live_grant_def find_first_None_iff)
    then show ?thesis
      using that by (auto simp: GrantBadgeBySystem_def Store_GrantBadge_def GrantBadge_def one_profile_defs user_exists_def fk_ok_def list_ex_iff Let_def)
  qed
  have codes: "Known ''staff''" "Known ''translator''" "badge_code_check ''staff''" "badge_code_check ''translator''"
    by (simp_all add: Known_def knownBadges_def badge_code_check_def lower_letter_def decimal_digit_def byte_def)
  have 1: "profile_step L ci (one_profile []) (one_profile [badge_of_one 1 ''staff''])"
    using profile_step.earned [OF badge [of "''staff''" "[]" 1]] codes by simp
  have "profile_step L ci (one_profile [badge_of_one 1 ''staff'']) (one_profile [badge_of_one 1 ''staff'', badge_of_one 2 ''translator''])"
    using profile_step.earned [OF badge [of "''translator''" "[badge_of_one 1 ''staff'']" 2]] codes by (simp add: badge_of_one_def)
  with 1 show ?thesis
    unfolding profile_reachable_def by (intro exI [of _ "one_profile []"]) (auto simp: no_profiles_def one_profile_def)
qed

lemma one_request_texts:
  "runes '' hi '' = [32, 104, 105, 32]" "shown_text '' hi '' = Some ''hi''" "TrimSpace ''one'' = ''one''" "utf8 '' hi ''"
proof -
  show runes: "runes '' hi '' = [32, 104, 105, 32]" by (simp add: runes_ascii ascii_def byte_def)
  have encode: "encode_rune 32 = '' ''" "encode_rune 104 = ''h''" "encode_rune 105 = ''i''"
    by (simp_all add: encode_rune_def encode_scalar_def is_scalar_def char_of_def bit_numeral_rec bit_0)
  then show "shown_text '' hi '' = Some ''hi''"
    by (simp add: shown_text_def runes clean_runes_def trim_by_def IsSpace_def kept_rune_def encode_runes_def)
  show "utf8 '' hi ''" by (simp add: utf8_def runes encode_runes_def encode)
  show "TrimSpace ''one'' = ''one''" by (simp add: TrimSpace_ascii ascii_def byte_def IsSpace_def)
qed

lemma one_request_saved:
  "case fst (HandleUpdateProfile id (Some 1) (Some one_request) (one_profile [badge_of_one 1 ''staff'', badge_of_one 2 ''translator''])) of
     OwnProfile v \<Rightarrow> True | _ \<Rightarrow> False"
proof -
  let ?db = "one_profile [badge_of_one 1 ''staff'', badge_of_one 2 ''translator'']"
  have "normalizeText '' hi '' bioMaxLen ''bio'' = Inr (Some ''hi'')"
    using one_request_texts(2)
    by (simp add: normalizeText_runes one_request_texts(4) shown_text_def split: if_splits)
      (simp add: one_request_texts(1) trim_by_def IsSpace_def bioMaxLen_def)
  moreover have "check_links [(''github'', ''one'')] = Inr [(''github'', ''one'')]"
    by (simp add: one_request_texts Let_def ValidateLink_def linkPatterns_def github_handle_def ascii_alnum_def lower_letter_def
        decimal_digit_def byte_def)
  moreover have "check_showcase id ?db 1 [''translator'', ''staff''] = Inr [''translator'', ''staff'']"
    by (auto simp: check_showcase_def showcaseMaxLen_def GrantedBadges_def ListGrantedBadges_def held_by_def one_profile_defs)
  ultimately have "patch_of_request id ?db 1 one_request = Inr \<lparr>pa_Bio = Some ''hi'', pa_SetBio = True, pa_Keyboard = None,
      pa_SetKeyboard = False, pa_Links = [(''github'', ''one'')], pa_Showcase = Some [''translator'', ''staff'']\<rparr>"
    by (simp add: patch_of_request_def when_set_def one_request_def)
  moreover have "text_check 250 (Some ''hi'')" "link_check ''github'' ''one''" 
    by (simp_all add: text_check_def RuneCountInString_def runes_ascii ascii_def link_check_def github_handle_def ascii_alnum_def
        lower_letter_def decimal_digit_def byte_def)
  ultimately show ?thesis
    by (simp add: HandleUpdateProfile_def ApplyProfilePatch_def apply_patch_def write_identity_def resolve_identity_def
        UpdateProfileIdentity_def user_exists_def text_check_def [of _ None] Store_Identity_def GetPublicProfileIdentity_def UpsertUserLink_def serveOwnProfileIdentity_def
        one_profile_defs)
qed

theorem edit_shows_witness:
  "\<exists>h. handlePublicHeader id id 5 None ''one''
      (snd (HandleUpdateProfile id (Some 1) (Some one_request) (one_profile [badge_of_one 1 ''staff'', badge_of_one 2 ''translator'']))) = Header h \<and>
    hv_Bio h = Some ''hi'' \<and> hv_Keyboard h = None \<and> hv_Badges h = [''translator'', ''staff''] \<and> (''github'', ''one'') \<in> set (hv_Links h)"
proof -
  let ?db = "one_profile [badge_of_one 1 ''staff'', badge_of_one 2 ''translator'']"
  obtain v db' where saved: "HandleUpdateProfile id (Some (u_ID user_one)) (Some one_request) ?db = (OwnProfile v, db')"
    using one_request_saved
    by (cases "HandleUpdateProfile id (Some 1) (Some one_request) ?db") (auto simp: user_one_def split: profile_reply.splits)
  have "request_utf8 one_request" "\<forall>ls. pq_Links one_request = Some ls \<longrightarrow> distinct (map fst ls)"
    "GetPublicProfileUser id ?db ''one'' = Some user_one" "u_ProfilePublic user_one \<or> None = Some (u_ID user_one)"
    by (simp_all add: request_utf8_def one_request_def one_request_texts GetPublicProfileUser_def one_profile_def user_one_def)
  from edit_shows [OF one_profile_reachable this saved, where now = 5] obtain h where
    "handlePublicHeader id id 5 None ''one'' db' = Header h" "hv_Bio h = Some ''hi''" "hv_Keyboard h = None"
    "hv_Badges h = [''translator'', ''staff'']" "(''github'', ''one'') \<in> set (hv_Links h)"
    by (auto simp: one_request_def one_request_texts one_profile_def)
  then show ?thesis using saved by (auto simp: user_one_def)
qed

end
