(* ===== verification/Profile_Runs.thy ===== *)
theory Profile_Runs
  imports Profile Run_Lifecycle Run_List
begin

text \<open>
  The public run history of a profile (\<open>profile/public.go\<close>, \<open>handlePublicRuns\<close>, over the two listing statements of
  \<open>profiledb\<close>): the gate of the profile, then the accepted runs of an account that is not restricted, newest first, page
  by page.

  Two databases meet here: the accounts and bans (theory \<open>Profile\<close>) and the runs and verdicts (theory \<open>Run_DB\<close>). The
  cells the statement derives as JSON are the argument \<open>cells\<close>.
\<close>

section \<open>Statements\<close>

type_synonym 'u public_row = "'u \<times> 'u run \<times> 'u verdict"

definition run_cursor_of :: "'u public_row \<Rightarrow> int \<times> 'u" where
  "run_cursor_of row = (case row of (rid, r, v) \<Rightarrow> (pr_CreatedAt r, rid))"

text \<open>\<open>runs JOIN run_verdicts\<close> with the visibility rule of the boards.\<close>

definition public_rows :: "'u db \<Rightarrow> int \<Rightarrow> 'u Ban list \<Rightarrow> 'u \<Rightarrow> 'u public_row list" where
  "public_rows R now bans uid =
     concat (map (\<lambda>(rid, r). case verdict_row R rid of
         None \<Rightarrow> []
       | Some v \<Rightarrow> if v_UserID v = r_UserID r \<and> r_UserID r = uid \<and> r_Status r = Accepted \<and> \<not> IsRestricted now bans (r_UserID r)
                   then [(rid, r, v)] else [])
       (DAList.impl_of (db_runs R)))"

definition GetPublicProfileRunsFirst ::
  "('u::linorder) db \<Rightarrow> int \<Rightarrow> 'u Ban list \<Rightarrow> 'u \<Rightarrow> nat \<Rightarrow> 'u public_row list" where
  "GetPublicProfileRunsFirst R now bans uid n = take n (rev (sort_key run_cursor_of (public_rows R now bans uid)))"

definition GetPublicProfileRunsAfter ::
  "('u::linorder) db \<Rightarrow> int \<Rightarrow> 'u Ban list \<Rightarrow> 'u \<Rightarrow> int \<Rightarrow> 'u \<Rightarrow> nat \<Rightarrow> 'u public_row list" where
  "GetPublicProfileRunsAfter R now bans uid createdAt rid n =
     take n (rev (sort_key run_cursor_of (filter (\<lambda>(i, r, v). pr_CreatedAt r \<le> createdAt \<and>
       (pr_CreatedAt r < createdAt \<or> (pr_CreatedAt r = createdAt \<and> i < rid))) (public_rows R now bans uid))))"

definition PublicRuns ::
  "('u::linorder) db \<Rightarrow> int \<Rightarrow> 'u Ban list \<Rightarrow> 'u \<Rightarrow> (int \<times> 'u) option \<Rightarrow> nat \<Rightarrow> 'u public_row list" where
  "PublicRuns R now bans uid after n =
     (case after of
        None \<Rightarrow> GetPublicProfileRunsFirst R now bans uid n
      | Some (createdAt, rid) \<Rightarrow> GetPublicProfileRunsAfter R now bans uid createdAt rid n)"

section \<open>The handler\<close>

record ('u, 'c) publicRunView =
  pv_ID :: 'u
  pv_Mode :: string
  pv_DurationMs :: "int option"
  pv_WordCount :: "int option"
  pv_Lang :: string
  pv_ServerMetrics :: "metrics_raw option"
  pv_ServerScore :: "rat raw option"
  pv_CreatedAt :: int
  pv_Status :: string
  pv_Cells :: 'c

definition publicRunOf :: "('u run \<Rightarrow> 'u verdict \<Rightarrow> 'c) \<Rightarrow> 'u public_row \<Rightarrow> ('u, 'c) publicRunView" where
  "publicRunOf cells row =
     (case row of (rid, r, v) \<Rightarrow>
        \<lparr>pv_ID = rid, pv_Mode = r_Mode r, pv_DurationMs = r_DurationMs r, pv_WordCount = r_WordCount r, pv_Lang = r_Lang r,
         pv_ServerMetrics = v_ServerMetrics v, pv_ServerScore = v_ServerScore v, pv_CreatedAt = pr_CreatedAt r,
         pv_Status = ''accepted'', pv_Cells = cells r v\<rparr>)"

definition publicRunsDefaultLimit :: int where "publicRunsDefaultLimit = 20"
definition publicRunsMaxLimit :: int where "publicRunsMaxLimit = 100"

definition encodeRunCursor :: "'u uuid_lib \<Rightarrow> int \<times> 'u \<Rightarrow> string" where
  "encodeRunCursor L c = EncodeCursor [Itoa (fst c), uuid_String L (snd c)]"

definition decodeRunCursor :: "'u uuid_lib \<Rightarrow> string \<Rightarrow> (int \<times> 'u) option" where
  "decodeRunCursor L token =
     (case DecodeCursor token 2 of
        Some [nanos, rid] \<Rightarrow>
          (case Atoi nanos of
             None \<Rightarrow> None
           | Some n \<Rightarrow> (case uuid_Parse L rid of None \<Rightarrow> None | Some u \<Rightarrow> Some (n, u)))
      | _ \<Rightarrow> None)"

definition handlePublicRuns ::
  "('u::linorder) uuid_lib \<Rightarrow> (string \<Rightarrow> string) \<Rightarrow> int \<Rightarrow> ('u run \<Rightarrow> 'u verdict \<Rightarrow> 'c) \<Rightarrow> 'u db \<Rightarrow> 'u profile_db
     \<Rightarrow> 'u option \<Rightarrow> string \<Rightarrow> string \<Rightarrow> string \<Rightarrow> (profile_error, ('u, 'c) publicRunView list \<times> string) result" where
  "handlePublicRuns L ci now cells R db caller name rawLimit rawCursor =
     (case resolvePublicUser ci db name of
        Inl e \<Rightarrow> Inl e
      | Inr u \<Rightarrow>
          if \<not> u_ProfilePublic u \<and> \<not> isOwner caller u then Inl ProfileClosed
          else let limit = nat (ParseLimit rawLimit publicRunsDefaultLimit publicRunsMaxLimit) in
            case (if rawCursor = [] then Some None else map_option Some (decodeRunCursor L rawCursor)) of
              None \<Rightarrow> Inl (ProfileBadRequest InvalidCursor)
            | Some after \<Rightarrow>
                let (rows, next) = page_of (PublicRuns R now (bd_bans (pd_bans db)) (u_ID u)) run_cursor_of limit after
                in Inr (map (publicRunOf cells) rows, case next of None \<Rightarrow> [] | Some c \<Rightarrow> encodeRunCursor L c))"

section \<open>The statements are a keyset source\<close>

definition public_history :: "('u::linorder) db \<Rightarrow> int \<Rightarrow> 'u Ban list \<Rightarrow> 'u \<Rightarrow> 'u public_row list" where
  "public_history R now bans uid = rev (sort_key run_cursor_of (public_rows R now bans uid))"

lemma public_rows_mem:
  "(rid, r, v) \<in> set (public_rows R now bans uid) \<longleftrightarrow>
     (rid, r) \<in> set (DAList.impl_of (db_runs R)) \<and> verdict_row R rid = Some v \<and> v_UserID v = r_UserID r \<and> r_UserID r = uid \<and>
     r_Status r = Accepted \<and> \<not> IsRestricted now bans uid"
  by (force simp: public_rows_def split: option.splits if_splits)

lemma distinct_concat_short:
  assumes "distinct (map fst rows)" and "\<And>p x. p \<in> set rows \<Longrightarrow> x \<in> set (f p) \<Longrightarrow> fst x = fst p" and "\<And>p. length (f p) \<le> 1"
  shows "distinct (map fst (concat (map f rows)))"
  using assms(1,2)
proof (induction rows)
  case (Cons p rows)
  have "f p = [] \<or> (\<exists>x. f p = [x])" using assms(3) [of p] by (cases "f p") auto
  moreover have "fst x \<noteq> fst p" if "q \<in> set rows" "x \<in> set (f q)" for q x using Cons.prems(2) [of q x] that Cons.prems(1) by (auto simp: image_iff)
  then have "y \<notin> fst ` set (concat (map f rows))" if "y = fst p" for y using that by force
  moreover have "distinct (map fst (concat (map f rows)))" using Cons by simp
  moreover have "fst x = fst p" if "x \<in> set (f p)" for x using Cons.prems(2) [of p x] that by simp
  ultimately show ?case by (elim disjE exE) (simp_all add: image_iff)
qed simp

lemma public_keys_distinct: "distinct (map run_cursor_of (public_rows R now bans uid))"
proof -
  have "distinct (map fst (public_rows R now bans uid))"
    unfolding public_rows_def
    by (rule distinct_concat_short) (auto simp: DAList.impl_of split: option.splits if_splits)
  moreover have "fst = snd \<circ> (run_cursor_of :: 'a public_row \<Rightarrow> _)" by (rule ext) (auto simp: run_cursor_of_def)
  ultimately have "distinct (map snd (map run_cursor_of (public_rows R now bans uid)))" by simp
  then show ?thesis unfolding distinct_map [of snd] by blast
qed

lemma public_after_filter:
  "(\<lambda>(i', r, v). pr_CreatedAt r \<le> t \<and> (pr_CreatedAt r < t \<or> (pr_CreatedAt r = t \<and> i' < i))) = (\<lambda>row. run_cursor_of row < (t, i))"
  by (rule ext) (auto simp: run_cursor_of_def less_prod_def)

interpretation history: keyset_source True "PublicRuns R now bans uid" run_cursor_of "(<)" "public_history R now bans uid"
  for R :: "('u::linorder) db" and now bans uid
proof unfold_locales
  show "sorted_wrt (\<lambda>a b. run_cursor_of b < run_cursor_of a) (public_history R now bans uid)"
    using sort_key_strict [OF public_keys_distinct] by (simp add: public_history_def sorted_wrt_rev)
  show "PublicRuns R now bans uid (Some (run_cursor_of r)) n = take n (filter (\<lambda>x. run_cursor_of x < run_cursor_of r) (public_history R now bans uid))" for r n
    by (cases "run_cursor_of r")
      (simp add: PublicRuns_def GetPublicProfileRunsAfter_def public_after_filter public_history_def rev_filter [symmetric] filter_sort)
qed (auto simp: PublicRuns_def GetPublicProfileRunsFirst_def public_history_def)


section \<open>Walking the history\<close>

definition run_token :: "'u uuid_lib \<Rightarrow> (int \<times> 'u) option \<Rightarrow> string" where
  "run_token L after = (case after of None \<Rightarrow> [] | Some c \<Rightarrow> encodeRunCursor L c)"

lemma decode_encode_run_cursor:
  assumes "uuid_law L" and "uuid_plain L" and "in_int64 (fst c)"
  shows "decodeRunCursor L (encodeRunCursor L c) = Some c"
  using decode_encode_cursor [OF assms] unfolding decodeRunCursor_def encodeRunCursor_def decodeCursor_def encodeCursor_def .

lemma encodeRunCursor_nonempty: "encodeRunCursor L c \<noteq> []"
  by (simp add: encodeRunCursor_def EncodeCursor_nonempty)

lemma public_limit_pos: "1 \<le> nat (ParseLimit rawLimit publicRunsDefaultLimit publicRunsMaxLimit)"
proof -
  have "1 \<le> ParseLimit rawLimit publicRunsDefaultLimit publicRunsMaxLimit"
    using ParseLimit_bounds [of publicRunsDefaultLimit publicRunsMaxLimit rawLimit]
    by (simp add: publicRunsDefaultLimit_def publicRunsMaxLimit_def)
  then show ?thesis by linarith
qed

lemma set_public_history: "set (public_history R now bans uid) = set (public_rows R now bans uid)"
  by (simp add: public_history_def)

lemma history_at:
  assumes "uuid_law L" and "uuid_plain L" and "\<forall>(rid, r) \<in> set (DAList.impl_of (db_runs R)). in_int64 (pr_CreatedAt r)"
    and "GetPublicProfileUser ci db name = Some u" and "u_ProfilePublic u \<or> isOwner caller u"
    and "k \<le> length (public_history R now (bd_bans (pd_bans db)) (u_ID u))"
  shows "handlePublicRuns L ci now cells R db caller name rawLimit
      (run_token L (history.cursor_at R now (bd_bans (pd_bans db)) (u_ID u) k)) =
    (let (rows, next) = page_of (PublicRuns R now (bd_bans (pd_bans db)) (u_ID u)) run_cursor_of
           (nat (ParseLimit rawLimit publicRunsDefaultLimit publicRunsMaxLimit)) (history.cursor_at R now (bd_bans (pd_bans db)) (u_ID u) k)
     in Inr (map (publicRunOf cells) rows, run_token L next))"
proof -
  let ?rows = "public_history R now (bd_bans (pd_bans db)) (u_ID u)"
  let ?after = "history.cursor_at R now (bd_bans (pd_bans db)) (u_ID u) k"
  have "in_int64 (fst c)" if "?after = Some c" for c
  proof -
    have "0 < k" "c = run_cursor_of (?rows ! (k - 1))" using that by (auto simp: history.cursor_at_def split: if_splits)
    moreover have "?rows ! (k - 1) \<in> set (public_rows R now (bd_bans (pd_bans db)) (u_ID u))"
      using \<open>0 < k\<close> assms(6) unfolding set_public_history [symmetric] by simp
    ultimately show ?thesis
      using assms(3) public_rows_mem by (cases "?rows ! (k - 1)") (fastforce simp: run_cursor_of_def)
  qed
  then have dec: "(if run_token L ?after = [] then Some None
      else map_option Some (decodeRunCursor L (run_token L ?after))) = Some ?after"
    using assms(1,2) by (cases ?after) (simp_all add: run_token_def encodeRunCursor_nonempty decode_encode_run_cursor)
  have gate: "\<not> (\<not> u_ProfilePublic u \<and> \<not> isOwner caller u)" using assms(5) by blast
  show ?thesis
    unfolding handlePublicRuns_def resolvePublicUser_def assms(4) Let_def option.case sum.case dec if_not_P [OF gate]
    by (simp add: run_token_def split_beta)
qed

lemma public_history_length: "length (public_history R now bans uid) \<le> length (DAList.impl_of (db_runs R))"
proof -
  have "length (concat (map f rows)) \<le> length rows" if "\<And>p. length (f p) \<le> 1" for f :: "'a \<times> 'a run \<Rightarrow> 'a public_row list" and rows
  proof (induction rows)
    case (Cons p rows)
    then show ?case using that [of p] by simp
  qed simp
  then show ?thesis unfolding public_history_def public_rows_def length_rev length_sort by (auto split: option.split)
qed

text \<open>
  A visitor who follows the cursors of a public profile's run history from the first page receives, as far as
  the page may be read at all, exactly the account's accepted runs that have a verdict, each once and strictly newest
  first, whatever the page size, and nothing while the account is restricted; after as many requests as there are
  runs plus one the walk has ended. Of a closed profile a visitor gets no page at all, with any cursor.
\<close>

theorem public_history_complete:
  assumes "uuid_law L" and "uuid_plain L" and "\<forall>(rid, r) \<in> set (DAList.impl_of (db_runs R)). in_int64 (pr_CreatedAt r)"
    and "GetPublicProfileUser ci db name = Some u" and "length (DAList.impl_of (db_runs R)) < n"
  shows "(u_ProfilePublic u \<or> caller = Some (u_ID u) \<longrightarrow>
      (\<exists>rows. walk (\<lambda>token. case handlePublicRuns L ci now cells R db caller name rawLimit token of Inl e \<Rightarrow> None | Inr page \<Rightarrow> Some page) n [] =
          Some (map (publicRunOf cells) rows) \<and>
        set rows = {(rid, r, v). run_row R rid = Some r \<and> verdict_row R rid = Some v \<and> v_UserID v = u_ID u \<and> r_UserID r = u_ID u \<and>
          r_Status r = Accepted \<and> \<not> IsRestricted now (bd_bans (pd_bans db)) (u_ID u)} \<and>
        sorted_wrt (\<lambda>a b. run_cursor_of b < run_cursor_of a) rows)) \<and>
    (\<not> u_ProfilePublic u \<and> caller \<noteq> Some (u_ID u) \<longrightarrow>
      (\<forall>token. handlePublicRuns L ci now cells R db caller name rawLimit token = Inl ProfileClosed))"
proof (rule conjI; rule impI)
  let ?bans = "bd_bans (pd_bans db)"
  let ?rows = "public_history R now ?bans (u_ID u)"
  let ?limit = "nat (ParseLimit rawLimit publicRunsDefaultLimit publicRunsMaxLimit)"
  let ?page = "\<lambda>token. case handlePublicRuns L ci now cells R db caller name rawLimit token of Inl e \<Rightarrow> None | Inr page \<Rightarrow> Some page"
  assume "u_ProfilePublic u \<or> caller = Some (u_ID u)"
  then have reads: "u_ProfilePublic u \<or> isOwner caller u" by (simp add: isOwner_def)
  have "length ?rows \<le> n" using public_history_length [of R now ?bans "u_ID u"] assms(5) by simp
  then have "length ?rows \<le> 0 + n * ?limit"
    using public_limit_pos [of rawLimit] by (metis add_0 le_trans mult_le_mono2 nat_mult_1_right)
  then have "walk ?page n (run_token L (history.cursor_at R now ?bans (u_ID u) 0)) = Some (map (publicRunOf cells) (drop 0 ?rows))"
    using assms(5) history_at [OF assms(1-4) reads, of _ now cells rawLimit]
    by (intro history.walk_at [OF TrueI public_limit_pos [of rawLimit]])
      (simp_all add: run_token_def encodeRunCursor_nonempty split_beta Let_def)
  then have "walk ?page n [] = Some (map (publicRunOf cells) ?rows)"
    by (simp add: run_token_def history.cursor_at_def)
  moreover have "set ?rows = {(rid, r, v). run_row R rid = Some r \<and> verdict_row R rid = Some v \<and> v_UserID v = u_ID u \<and> r_UserID r = u_ID u \<and>
          r_Status r = Accepted \<and> \<not> IsRestricted now ?bans (u_ID u)}"
  proof (rule set_eqI; clarify)
    fix rid r v
    have "(rid, r) \<in> set (DAList.impl_of (db_runs R)) \<longleftrightarrow> run_row R rid = Some r"
      using DAList.impl_of [of "db_runs R"] by (simp add: DAList.lookup.rep_eq)
    then show "(rid, r, v) \<in> set ?rows \<longleftrightarrow> (rid, r, v) \<in> {(rid, r, v). run_row R rid = Some r \<and> verdict_row R rid = Some v \<and>
          v_UserID v = u_ID u \<and> r_UserID r = u_ID u \<and> r_Status r = Accepted \<and> \<not> IsRestricted now ?bans (u_ID u)}"
      unfolding set_public_history public_rows_mem by auto
  qed
  ultimately show "\<exists>rows. walk ?page n [] = Some (map (publicRunOf cells) rows) \<and>
        set rows = {(rid, r, v). run_row R rid = Some r \<and> verdict_row R rid = Some v \<and> v_UserID v = u_ID u \<and> r_UserID r = u_ID u \<and>
          r_Status r = Accepted \<and> \<not> IsRestricted now ?bans (u_ID u)} \<and>
        sorted_wrt (\<lambda>a b. run_cursor_of b < run_cursor_of a) rows"
    using history.descending [OF TrueI, of R now ?bans "u_ID u"] by (intro exI [of _ ?rows] conjI)
next
  assume "\<not> u_ProfilePublic u \<and> caller \<noteq> Some (u_ID u)"
  then show "\<forall>token. handlePublicRuns L ci now cells R db caller name rawLimit token = Inl ProfileClosed"
    by (simp add: handlePublicRuns_def resolvePublicUser_def assms(4) isOwner_def)
qed

end
