(* ===== verification/Spec2Isabelle.thy ===== *)
theory Spec2Isabelle
  imports Ws_Races Ws_Matches Run_List Ingest Keyboard Lifecycle_Properties Board_Pages Auth_Properties Hash_Gate
    Moderation_Ban_Properties Moderation_Report_Properties Quote_Properties Profile_Properties Profile_Runs
begin

text \<open>
  The TypeMore server: typing runs, leaderboards, realtime matches and the accounts behind them.

  \<^bold>\<open>The program.\<close> A client registers an account (\<open>internal/auth\<close>), types a text and submits the log of its keystrokes
  (\<open>internal/runs\<close>). A worker replays the log in the JavaScript core and decides on a verdict
  (\<open>internal/replay\<close>, with the review policy of \<open>internal/replay/policy\<close>); the same transaction projects an
  accepted run onto the leaderboards (\<open>internal/leaderboard\<close>) and the keyboard heat map (\<open>internal/keyboard\<close>). An
  operator may overrule a verdict (\<open>internal/runs/override.go\<close>), restrict an account or close reports
  (\<open>internal/moderation\<close>). Texts come from a quote registry (\<open>internal/quote\<close>) that \<open>cmd/quotectl\<close> fills. Apart from
  that, players race each other in rooms over web sockets (\<open>internal/ws\<close>, in the vocabulary of
  \<open>internal/protocol\<close>). Requests meet in PostgreSQL, the sockets in one registry guarded by mutexes.

  \<^bold>\<open>Shared theories.\<close> \<open>Prelude\<close>: results, Go's integer operations, lemma collections. \<open>Go_Strings\<close>: bytes, runes and
  UTF-8, decimal numbers, base64, splitting and trimming. \<open>Go_Float\<close>: \<open>float64\<close> as far as the policy compares it.
  \<open>Httpx\<close>: limits, entity tags and opaque cursors (\<open>platform/httpx\<close>). \<open>Token_Bucket\<close>: the budgets of connections
  (\<open>ws/ratelimit.go\<close>) and of clients of the HTTP surface (\<open>auth/ratelimit.go\<close>). \<open>Keyset\<close>: keyset pagination as the
  locales \<open>keyset_source\<close> and \<open>ranking_source\<close>, interpreted by the run lists, the leaderboards and the quotes; what a
  client gets by following cursors is proved there once.

  \<^bold>\<open>Realtime transport.\<close> \<open>Protocol\<close> has the wire vocabulary and its validators, \<open>World\<close> the state (sessions, seats,
  rooms, matches, the account index, timers and the frames sent), \<open>Room_Helpers\<close>, \<open>Room_Ops\<close> and \<open>Match_Ops\<close> the
  methods of a room (\<open>room.go\<close>, \<open>room_match.go\<close>, \<open>room_afk.go\<close>, \<open>room_chat.go\<close>, \<open>room_idle.go\<close>), \<open>Registry_Ops\<close> the
  registry and \<open>Session_Ops\<close> a connection from its first frame to its teardown. Goroutines interleave at the
  granularity of critical sections: \<open>Ws_Steps\<close> is the step relation whose steps are the sections between lock and
  unlock. \<open>Ws_Core\<close>, \<open>Ws_Invariant\<close>, \<open>Ws_Preserve\<close> and \<open>Registry_Preserve\<close> show that each section keeps the
  structural invariant; \<open>Ws_Hosts\<close> and \<open>Ws_Handlers\<close> show that complete handlers are paths of sections and keep a host
  in every room; \<open>Ws_Properties\<close> and \<open>Ws_Matches\<close> state the results, \<open>Ws_Races\<close> the interleavings the code does not
  survive as it means to.

  \<^bold>\<open>Runs, verdicts and boards.\<close> \<open>Board_Key\<close>: the identity of a board. \<open>Ingest\<close>: \<open>POST /runs\<close> against a declarative
  contract. \<open>Run_List\<close>: the caller's runs. \<open>Policy\<close>: both builds of the review policy behind the locale
  \<open>judge_contract\<close>. \<open>Decide\<close>: from a claimed run and the outcome of its replay to a decision. \<open>Keyboard\<close>: the layout
  index and the heat map's projection. \<open>Run_DB\<close>: the tables and statements of the verdict path. \<open>Board_Projection\<close>: the
  recomputation of a cell, the projection and the rebuild. \<open>Replay_Queue\<close>: claiming, the verdict transaction over any
  projector that meets the locale \<open>board_projector\<close>, batches and the revalidation pass of \<open>cmd/replayctl\<close>.
  \<open>Run_Overrides\<close>: the operator's transaction. \<open>Run_Lifecycle\<close> joins them to one step relation on the database,
  \<open>Queue_Progress\<close> shows that batches drain the queue and passes converge, \<open>Lifecycle_Properties\<close> states what holds in
  every reachable database. \<open>Board_Reads\<close> and \<open>Board_Pages\<close>: the index, the pages in both directions, ranks and the
  window around the caller.

  \<^bold>\<open>Accounts.\<close> \<open>Auth_Text\<close>: addresses, names, passwords. \<open>Auth_Secrets\<close>: tokens and encoded hashes. \<open>Auth_DB\<close>: tables
  and statements. \<open>Auth_Service\<close> and \<open>Auth_OAuth\<close>: every route with its gates. \<open>Auth_Invariant\<close>: the invariant of the
  tables under any sequence of requests, sweeps and startup promotions. \<open>Auth_Properties\<close>: password reset, what the
  answers hide and what they reveal, the search for a free name, the link cookie. \<open>Hash_Gate\<close>: the semaphore around
  argon2id, step by step, within a memory budget.

  \<^bold>\<open>Moderation.\<close> \<open>Moderation_Bans\<close> and \<open>Moderation_Reports\<close> have the statements, stores and handlers;
  \<open>Moderation_Ban_Properties\<close> refines bans to a timetable of restrictions, \<open>Moderation_Report_Properties\<close> has the
  invariant of the reports, the answers to a filing, the closing of a group and the queue.

  \<^bold>\<open>Quotes.\<close> \<open>Quotes\<close>: the registry, the corpora, the import, the public and the moderators' handlers.
  \<open>Quote_Import\<close>: publishing as a declarative update, the invariant and histories. \<open>Quote_Properties\<close>: frozen bytes,
  what an import publishes, that repeating it changes nothing, browsing, drawing and withdrawal.

  \<^bold>\<open>Badges and profiles.\<close> \<open>Badges\<close>: the codes, the grants and the operators' handlers. \<open>Profile\<close>: the owner's edit down
  to its statements, the public page with its gates, the search by name. \<open>Profile_Invariant\<close>: what edits, grants and
  revocations keep of the tables. \<open>Profile_Properties\<close>: an edit shows on the public page as it was made, a closed profile
  shows nothing, the search takes its query literally, and two racing edits can lose one. \<open>Profile_Runs\<close>: the public
  run history, complete under its cursors.

  \<^bold>\<open>State and errors.\<close> A table is a list of records or an association list, a unique index and a CHECK are conditions of
  the insert, a statement that fails is \<open>None\<close> or \<open>Inl\<close> and the transaction around it then returns the database it
  began with. A handler is a function from a request and the state to a reply and the state. A panic of the transport (a send on a
  closed channel) sets the flag \<open>w_panicked\<close> of its state.

  \<^bold>\<open>Parameters.\<close> What is not in the repository is an argument, with its documented behaviour as a named hypothesis where
  a theorem needs it: the uuid package (printing and parsing), PostgreSQL's \<open>lower\<close>, \<open>citext\<close>, collations and access
  to JSON, SHA-256 and argon2id, the replay core and its text hash, gzip, the clocks, generated ids and random numbers,
  the OAuth provider and the captcha verifier, the parsers of durations and timestamps, the embedded corpus files.
  Each such theorem has a witness with the parameters instantiated.

  \<^bold>\<open>Bounds and termination.\<close> Definitions are total and need no fuel, with one exception: a client that follows cursors is
  given a number of requests, and the theorems say how many suffice (one more than there are rows). Loops whose recursion is not structural have their
  termination proved: splitting a string into runes, the search for a free display name (at most a hundred attempts),
  the replay of a backlog to a player who returns, the closing of a room, and \<open>revalidate\<close>. Token counts, the interval
  sums of the heat map, the client's metrics with their tolerance and the random number of a draw are rationals where
  the code and the database have \<open>float64\<close>; instants and expiries are unbounded integers.

  \<^bold>\<open>Concurrency.\<close> The transport interleaves at its critical sections and the hash gate at its atomic operations. In the
  transport, creating a room and entering it is one section; among complete handlers the timer of a grace period fires
  for a seat of the room or one whose player id the room no longer has, as ids are not given out twice; and a frame for
  a connection that is closing is still enqueued where the code may drop it. Counting a request of the hash gate is one
  step over its two counters. Handlers over the database run one after another, and so
  do the transactions of workers and operators, except where a theorem states an interleaving of their statements: the
  theorems say nothing of transactions that overlap at READ COMMITTED.

  \<^bold>\<open>Not modelled.\<close> Sockets, HTTP parsing, JSON encoding, logging, mail, configuration, metrics and the wiring of the
  server; failures of the database connection and NUL bytes in text columns; the JavaScript core and the interpreter
  that runs it; the dictionaries and their catalogue; the SQL writes of finished matches; the aggregations behind the
  profile page; the performance tooling; generated statements no code calls.
\<close>

end
